(* ===== verification/Driver_Prelude.thy ===== *)
theory Driver_Prelude
  imports Complex_Main "HOL-Library.Finite_Map" "HOL-Library.Char_ord" "HOL-Library.List_Lexorder"
begin

text \<open>
  Vocabulary shared by every component theory.

  A TypeScript function that may throw returns a value of the sum type
  \<open>'e + 'a\<close>: \<open>Inl\<close> is the thrown error, \<open>Inr\<close> the returned value.  A statement
  sequence is \<^term>\<open>bindE\<close> or, for a run of assertions, \<open>checks\<close>; a \<open>for\<close> loop
  whose body only asserts is \<open>each\<close>, one that also updates a local variable is
  \<open>foldE\<close>.  The collection \<open>ok_iff\<close> gathers the equivalences that say exactly
  when an assertion succeeds, so that component proofs are by \<open>simp add: ok_iff\<close>.

  The second half holds the list operations the code uses (\<open>findIndex\<close>, in-place
  replacement or append, uniqueness through a \<open>Set\<close>) with the lemmas the
  components share, and the plain JSON values.
\<close>

section \<open>Results and control flow\<close>

named_theorems ok_iff

primrec bindE :: "'e + 'a \<Rightarrow> ('a \<Rightarrow> 'e + 'b) \<Rightarrow> 'e + 'b" where
  "bindE (Inl e) f = Inl e"
| "bindE (Inr x) f = f x"

primrec checks :: "('e + unit) list \<Rightarrow> 'e + unit" where
  "checks [] = Inr ()"
| "checks (c # cs) = bindE c (\<lambda>_. checks cs)"

primrec each :: "('a \<Rightarrow> 'e + unit) \<Rightarrow> 'a list \<Rightarrow> 'e + unit" where
  "each f [] = Inr ()"
| "each f (x # xs) = bindE (f x) (\<lambda>_. each f xs)"

primrec foldE :: "('s \<Rightarrow> 'a \<Rightarrow> 'e + 's) \<Rightarrow> 's \<Rightarrow> 'a list \<Rightarrow> 'e + 's" where
  "foldE f s [] = Inr s"
| "foldE f s (x # xs) = bindE (f s x) (\<lambda>s'. foldE f s' xs)"

primrec mapE :: "('a \<Rightarrow> 'e + 'b) \<Rightarrow> 'a list \<Rightarrow> 'e + 'b list" where
  "mapE f [] = Inr []"
| "mapE f (x # xs) = bindE (f x) (\<lambda>y. bindE (mapE f xs) (\<lambda>ys. Inr (y # ys)))"

lemma bindE_Inr_iff [simp, ok_iff]:
  "bindE m f = Inr y \<longleftrightarrow> (\<exists>x. m = Inr x \<and> f x = Inr y)"
  by (cases m) auto

lemma bindE_InrE: "bindE m f = Inr y \<Longrightarrow> (\<And>x. m = Inr x \<Longrightarrow> f x = Inr y \<Longrightarrow> P) \<Longrightarrow> P"
  by (cases m) auto

lemma Inr_bindE_iff [simp]: "Inr y = bindE m f \<longleftrightarrow> (\<exists>x. m = Inr x \<and> f x = Inr y)"
  by (cases m) auto

lemma bindE_Inl_iff: "bindE m f = Inl e \<longleftrightarrow> m = Inl e \<or> (\<exists>x. m = Inr x \<and> f x = Inl e)"
  by (cases m) auto

lemma checks_Cons_iff [simp, ok_iff]:
  "checks (c # cs) = Inr u \<longleftrightarrow> c = Inr () \<and> checks cs = Inr ()"
  by (cases c) auto

lemma checks_append_iff [simp, ok_iff]:
  "checks (cs @ ds) = Inr u \<longleftrightarrow> checks cs = Inr () \<and> checks ds = Inr ()"
  by (induction cs) (auto simp: checks_Cons_iff)

lemma each_iff [simp, ok_iff]: "each f xs = Inr u \<longleftrightarrow> (\<forall>x\<in>set xs. f x = Inr ())"
  by (induction xs) auto

lemma each_append: "each f (xs @ ys) = bindE (each f xs) (\<lambda>_. each f ys)"
proof (induction xs)
  case (Cons x xs)
  then show ?case by (cases "f x") auto
qed simp

lemma foldE_append: "foldE f s (xs @ ys) = bindE (foldE f s xs) (\<lambda>t. foldE f t ys)"
proof (induction xs arbitrary: s)
  case (Cons x xs)
  then show ?case by (cases "f s x") auto
qed simp

text \<open>
  Invariant rules for a loop that returned: \<open>foldE_invariant\<close> carries a predicate of
  the state, \<open>foldE_relation\<close> a reflexive and transitive relation between the state
  before and after the loop.
\<close>

lemma foldE_invariant:
  assumes "foldE f s xs = Inr t" and "P s"
    and "\<And>s x t. x \<in> set xs \<Longrightarrow> P s \<Longrightarrow> f s x = Inr t \<Longrightarrow> P t"
  shows "P t"
  using assms
proof (induction xs arbitrary: s)
  case (Cons x xs)
  from Cons.prems(1) obtain s' where s': "f s x = Inr s'" and rest: "foldE f s' xs = Inr t"
    by auto
  have "P s'" using Cons.prems(2,3) s' by auto
  with rest show ?case using Cons.prems(3) by (intro Cons.IH) auto
qed simp

lemma foldE_relation:
  assumes "foldE f s xs = Inr t" and "\<And>s. R s s"
    and "\<And>a b c. R a b \<Longrightarrow> R b c \<Longrightarrow> R a c"
    and "\<And>s x t. x \<in> set xs \<Longrightarrow> f s x = Inr t \<Longrightarrow> R s t"
  shows "R s t"
  using assms
proof (induction xs arbitrary: s)
  case (Cons x xs)
  from Cons.prems(1) obtain s' where s': "f s x = Inr s'" and rest: "foldE f s' xs = Inr t"
    by auto
  have "R s s'" using Cons.prems(4) s' by auto
  moreover have "R s' t"
    using rest Cons.prems(2,3) by (rule Cons.IH) (use Cons.prems(4) in auto)
  ultimately show ?case by (rule Cons.prems(3))
qed simp

lemma mapE_length: "mapE f xs = Inr ys \<Longrightarrow> length ys = length xs"
  by (induction xs arbitrary: ys) auto

lemma mapE_list_all2: "mapE f xs = Inr ys \<longleftrightarrow> list_all2 (\<lambda>x y. f x = Inr y) xs ys"
  by (induction xs arbitrary: ys) (auto simp: list_all2_Cons1)

text \<open>A condition on an optional value that holds when the value is absent.\<close>

primrec opt_all :: "('a \<Rightarrow> bool) \<Rightarrow> 'a option \<Rightarrow> bool" where
  "opt_all P None = True"
| "opt_all P (Some x) = P x"

lemma opt_all_iff: "opt_all P v \<longleftrightarrow> (\<forall>x. v = Some x \<longrightarrow> P x)"
  by (cases v) auto

section \<open>Lists and keyed collections\<close>

text \<open>\<open>new Set(values).size === values.length\<close>.\<close>

definition all_unique :: "'a list \<Rightarrow> bool" where
  "all_unique xs \<longleftrightarrow> length (remdups xs) = length xs"

lemma all_unique_distinct [simp, ok_iff]: "all_unique xs \<longleftrightarrow> distinct xs"
proof
  assume "all_unique xs"
  then have "remdups xs = xs"
    unfolding all_unique_def by (simp add: length_remdups_eq)
  then show "distinct xs" by (metis distinct_remdups)
qed (simp add: all_unique_def distinct_remdups_id)

text \<open>
  \<open>const index = xs.findIndex(p); index < 0 ? xs.push(y) : (xs[index] = y)\<close>: the first
  element satisfying \<open>p\<close> is replaced in place, otherwise \<open>y\<close> is appended.
\<close>

fun put_first :: "('a \<Rightarrow> bool) \<Rightarrow> 'a \<Rightarrow> 'a list \<Rightarrow> 'a list" where
  "put_first p y [] = [y]"
| "put_first p y (x # xs) = (if p x then y # xs else x # put_first p y xs)"

lemma set_put_first_subset: "set (put_first p y xs) \<subseteq> insert y (set xs)"
  by (induction xs) auto

lemma put_first_mem: "y \<in> set (put_first p y xs)"
  by (induction xs) auto

lemma put_first_keeps: "x \<in> set xs \<Longrightarrow> \<not> p x \<Longrightarrow> x \<in> set (put_first p y xs)"
  by (induction xs) auto

lemma map_put_first:
  "(\<And>x. p x \<longleftrightarrow> k x = k y) \<Longrightarrow>
    map k (put_first p y xs) = (if k y \<in> k ` set xs then map k xs else map k xs @ [k y])"
  by (induction xs) auto

lemma find_put_first_same:
  "p y \<Longrightarrow> find p (put_first p y xs) = Some y"
  by (induction xs) auto

lemma find_put_first_other:
  "(\<And>x. q x \<Longrightarrow> \<not> p x) \<Longrightarrow> \<not> q y \<Longrightarrow> find q (put_first p y xs) = find q xs"
  by (induction xs) auto

lemma find_Some_D: "find p xs = Some x \<Longrightarrow> p x \<and> x \<in> set xs"
  by (auto simp: find_Some_iff)

lemma find_key_distinct:
  assumes "distinct (map k xs)" "x \<in> set xs"
  shows "find (\<lambda>y. k y = k x) xs = Some x"
  using assms by (induction xs) force+

lemma find_key_None: "find (\<lambda>y. k y = c) xs = None \<longleftrightarrow> c \<notin> k ` set xs"
  by (auto simp: find_None_iff)

text \<open>\<open>new Map(xs.map((x) => [key(x), x])).get(c)\<close>: a later entry with the same key wins.\<close>

definition map_get :: "('a \<Rightarrow> 'k) \<Rightarrow> 'a list \<Rightarrow> 'k \<Rightarrow> 'a option" where
  "map_get key xs c = find (\<lambda>x. key x = c) (rev xs)"

lemma map_get_Some_D: "map_get key xs c = Some x \<Longrightarrow> x \<in> set xs \<and> key x = c"
  by (auto simp: map_get_def find_Some_iff) (metis length_rev nth_mem set_rev)

lemma map_get_None_iff: "map_get key xs c = None \<longleftrightarrow> c \<notin> key ` set xs"
  by (auto simp: map_get_def find_None_iff)

lemma map_get_distinct:
  "distinct (map key xs) \<Longrightarrow> x \<in> set xs \<Longrightarrow> map_get key xs (key x) = Some x"
  unfolding map_get_def by (rule find_key_distinct) (simp_all add: rev_map [symmetric])

lemma map_get_distinct_iff:
  "distinct (map key xs) \<Longrightarrow> map_get key xs c = Some x \<longleftrightarrow> x \<in> set xs \<and> key x = c"
  using map_get_Some_D map_get_distinct by fastforce

section \<open>JSON values\<close>

text \<open>
  Parsed JSON values (\<open>z.json()\<close>).  An object is a finite map from keys to values, so
  HOL equality is \<open>isDeepStrictEqual\<close>: it ignores the order of the keys.  A finite
  double is the rational it denotes (the model does not tell \<open>-0\<close> from \<open>0\<close>).
\<close>

datatype json =
    JNull
  | JBool bool
  | JNum rat
  | JStr string
  | JArr "json list"
  | JObj "(string, json) fmap"

type_synonym json_object = "(string, json) fmap"

text \<open>\<open>Number.isSafeInteger(n) && n >= 1\<close> and \<open>n <= Number.MAX_SAFE_INTEGER\<close>.\<close>

definition max_safe_integer :: int where
  "max_safe_integer = 9007199254740991"

definition is_safe_integer :: "rat \<Rightarrow> bool" where
  "is_safe_integer q \<longleftrightarrow> of_int \<lfloor>q\<rfloor> = q \<and> \<bar>q\<bar> \<le> of_int max_safe_integer"

section \<open>Text\<close>

text \<open>\<open>s.split(c)\<close> for a one-character separator.\<close>

fun split_on :: "char \<Rightarrow> string \<Rightarrow> string list" where
  "split_on c [] = [[]]"
| "split_on c (x # xs) =
     (if x = c then [] # split_on c xs
      else case split_on c xs of [] \<Rightarrow> [[x]] | seg # segs \<Rightarrow> (x # seg) # segs)"

definition lower_letters :: string where
  "lower_letters = ''abcdefghijklmnopqrstuvwxyz''"

definition digits :: string where
  "digits = ''0123456789''"

lemma split_on_nonempty [simp]: "split_on c s \<noteq> []"
  by (induction s) (auto split: list.splits)

end
