(* ===== verification/Timestamps.thy ===== *)
theory Timestamps
  imports Driver_Prelude
begin

text \<open>
  Timestamp comparison of src/src/contract/common.ts (\<open>timestampParts\<close>,
  \<open>compareTimestamps\<close>) on the ISO 8601 text itself, with the part of ECMAScript's
  \<open>Date.parse\<close> it needs.  The comparison is shown to be a total preorder on the
  timestamps it can read; the laws are the assumptions of the locale
  \<open>timestamp_preorder\<close>, which the state theories use through the interpretation \<open>ts\<close>.
\<close>

section \<open>Errors of the contract library\<close>

text \<open>
  \<open>ContractInvariantCode\<close> of invariant.ts, and the errors a contract function throws:
  a \<open>ContractInvariantError\<close> with its code, a \<open>TypeError\<close>, a \<open>RangeError\<close>, or the
  \<open>ZodError\<close> of a schema that refuses its input.  Messages are not modelled.
\<close>

datatype invariant_code =
    DuplicateEntity
  | ImmutableEntity
  | InvalidReference
  | InvalidTransition
  | RevisionGap
  | SessionMismatch
  | StaleRevision
  | Unsupported

datatype contract_error =
    ContractInvariantError invariant_code
  | TypeError
  | RangeError
  | ZodError

section \<open>Reading a timestamp\<close>

type_synonym timestamp = string

definition is_digit :: "char \<Rightarrow> bool" where
  "is_digit c \<longleftrightarrow> 48 \<le> (of_char c :: nat) \<and> (of_char c :: nat) \<le> 57"

definition digits_value :: "string \<Rightarrow> int" where
  "digits_value s = foldl (\<lambda>n c. 10 * n + (of_char c - 48)) 0 s"

text \<open>A fixed-width pattern: \<open>d\<close> stands for a digit, any other character for itself.\<close>

fun matches_shape :: "string \<Rightarrow> string \<Rightarrow> bool" where
  "matches_shape [] [] = True"
| "matches_shape (p # ps) (c # cs) =
     ((if p = CHR ''d'' then is_digit c else c = p) \<and> matches_shape ps cs)"
| "matches_shape _ _ = False"

definition date_time_shape :: string where
  "date_time_shape = ''dddd-dd-ddTdd:dd:dd''"

definition is_zone :: "string \<Rightarrow> bool" where
  "is_zone z \<longleftrightarrow> z = ''Z'' \<or> matches_shape ''+dd:dd'' z \<or> matches_shape ''-dd:dd'' z"

text \<open>
  \<open>Date.parse\<close> on \<open>YYYY-MM-DDTHH:mm:ss\<close> with a zone, in milliseconds: days before the
  year and before the month in the proleptic Gregorian calendar, as the language
  defines them.  \<open>None\<close> is \<open>NaN\<close>: an element outside its range.
\<close>

definition leap_year :: "int \<Rightarrow> bool" where
  "leap_year y \<longleftrightarrow> y mod 4 = 0 \<and> (y mod 100 \<noteq> 0 \<or> y mod 400 = 0)"

definition day_from_year :: "int \<Rightarrow> int" where
  "day_from_year y =
     365 * (y - 1970) + (y - 1969) div 4 - (y - 1901) div 100 + (y - 1601) div 400"

definition days_before_month :: "bool \<Rightarrow> nat \<Rightarrow> int" where
  "days_before_month leap m =
     [0, 31, 59, 90, 120, 151, 181, 212, 243, 273, 304, 334, 365] ! (m - 1)
       + (if leap \<and> 2 < m then 1 else 0)"

definition date_parse :: "string \<Rightarrow> string \<Rightarrow> int option" where
  "date_parse body zone =
     (let year = digits_value (take 4 body);
          month = nat (digits_value (take 2 (drop 5 body)));
          day = digits_value (take 2 (drop 8 body));
          hour = digits_value (take 2 (drop 11 body));
          minute = digits_value (take 2 (drop 14 body));
          second = digits_value (take 2 (drop 17 body));
          zhour = (if zone = ''Z'' then 0 else digits_value (take 2 (drop 1 zone)));
          zminute = (if zone = ''Z'' then 0 else digits_value (take 2 (drop 4 zone)));
          offset = (if take 1 zone = ''-'' then -1 else 1) * (60 * zhour + zminute);
          leap = leap_year year;
          in_range =
            1 \<le> month \<and> month \<le> 12 \<and> 1 \<le> day
              \<and> day \<le> days_before_month leap (month + 1) - days_before_month leap month
              \<and> (hour \<le> 23 \<or> hour = 24 \<and> minute = 0 \<and> second = 0)
              \<and> minute \<le> 59 \<and> second \<le> 59 \<and> zhour \<le> 23 \<and> zminute \<le> 59;
          days = day_from_year year + days_before_month leap month + (day - 1)
      in if in_range
         then Some (1000 * (second + 60 * (minute - offset + 60 * hour) + 86400 * days))
         else None)"

text \<open>
  \<open>timestampParts\<close>: the regular expression's three groups, the seconds with the zone as
  a number and the fraction digits as text.  A text that does not match raises a
  \<open>TypeError\<close>.
\<close>

definition timestampParts :: "timestamp \<Rightarrow> contract_error + (int option \<times> string)" where
  "timestampParts value =
     (let body = take 19 value;
          rest = drop 19 value;
          fraction = (if take 1 rest = ''.'' then takeWhile is_digit (drop 1 rest) else []);
          zone = (if take 1 rest = ''.'' then drop (1 + length fraction) rest else rest)
      in if matches_shape date_time_shape body \<and> (take 1 rest = ''.'' \<longrightarrow> fraction \<noteq> []) \<and> is_zone zone
         then Inr (date_parse body zone, fraction)
         else Inl TypeError)"

definition pad_end :: "nat \<Rightarrow> string \<Rightarrow> string" where
  "pad_end width s = s @ replicate (width - length s) CHR ''0''"

definition compare_fractions :: "string \<Rightarrow> string \<Rightarrow> int" where
  "compare_fractions left right =
     (let width = max (length left) (length right);
          normalizedLeft = pad_end width left;
          normalizedRight = pad_end width right
      in if normalizedLeft = normalizedRight then 0
         else if normalizedLeft < normalizedRight then -1 else 1)"

text \<open>
  \<open>compareTimestamps\<close>.  \<open>NaN\<close> differs from every number, itself included, and is below
  none, so a comparison that reads one answers 1.
\<close>

definition compareTimestamps :: "timestamp \<Rightarrow> timestamp \<Rightarrow> contract_error + int" where
  "compareTimestamps left right =
     bindE (timestampParts left) (\<lambda>(leftSecond, leftFraction).
     bindE (timestampParts right) (\<lambda>(rightSecond, rightFraction).
       Inr (case (leftSecond, rightSecond) of
              (Some l, Some r) \<Rightarrow>
                if l \<noteq> r then (if l < r then -1 else 1)
                else compare_fractions leftFraction rightFraction
            | _ \<Rightarrow> 1)))"

lemma compareTimestamps_examples:
  "compareTimestamps ''2024-02-29T12:00:00.5Z'' ''2024-02-29T13:00:00.50+01:00'' = Inr 0"
  "compareTimestamps ''2024-02-29T12:00:00Z'' ''2024-03-01T00:00:00Z'' = Inr (-1)"
  "compareTimestamps ''1970-01-01T00:00:00Z'' ''1969-12-31T23:59:59.999Z'' = Inr 1"
  "compareTimestamps ''2024-02-29T12:00Z'' ''2024-02-29T12:00:00Z'' = Inl TypeError"
  by code_simp+

text \<open>The timestamps the comparison can read: matched, and every element in range.\<close>

definition valid_timestamp :: "timestamp \<Rightarrow> bool" where
  "valid_timestamp t = (case timestampParts t of Inr (Some _, _) \<Rightarrow> True | _ \<Rightarrow> False)"

section \<open>Comparing fractions\<close>

lemma less_append_same_suffix:
  fixes a b s :: "'a::linorder list"
  assumes "length a = length b"
  shows "a @ s < b @ s \<longleftrightarrow> a < b"
  using assms by (induction a b rule: list_induct2) auto

lemma pad_end_longer:
  assumes "length s \<le> w" "w \<le> v"
  shows "pad_end v s = pad_end w s @ replicate (v - w) CHR ''0''"
proof -
  have "v - length s = (w - length s) + (v - w)" using assms by simp
  then show ?thesis by (simp only: pad_end_def replicate_add append_assoc)
qed

lemma length_pad_end: "length s \<le> w \<Longrightarrow> length (pad_end w s) = w"
  by (simp add: pad_end_def)

text \<open>The common width does not matter as long as it is wide enough.\<close>

lemma compare_fractions_at:
  assumes "length a \<le> w" "length b \<le> w"
  shows "compare_fractions a b =
    (if pad_end w a = pad_end w b then 0 else if pad_end w a < pad_end w b then -1 else 1)"
proof -
  let ?m = "max (length a) (length b)"
  have m: "length a \<le> ?m" "length b \<le> ?m" "?m \<le> w" using assms by simp_all
  have len: "length (pad_end ?m a) = length (pad_end ?m b)"
    by (simp add: length_pad_end)
  show ?thesis
    unfolding compare_fractions_def Let_def
      pad_end_longer [OF m(1) m(3)] pad_end_longer [OF m(2) m(3)]
    by (simp add: less_append_same_suffix [OF len])
qed

lemma compare_fractions_self: "compare_fractions a a = 0"
  by (simp add: compare_fractions_def)

lemma compare_fractions_flip: "compare_fractions b a = - compare_fractions a b"
  by (auto simp: compare_fractions_def Let_def max.commute)

lemma compare_fractions_le:
  assumes "length a \<le> w" "length b \<le> w"
  shows "compare_fractions a b \<le> 0 \<longleftrightarrow> pad_end w a \<le> pad_end w b"
  by (simp add: compare_fractions_at [OF assms] less_le)

lemma compare_fractions_trans:
  assumes "compare_fractions a b \<le> 0" "compare_fractions b c \<le> 0"
  shows "compare_fractions a c \<le> 0"
proof -
  let ?w = "max (length a) (max (length b) (length c))"
  have w: "length a \<le> ?w" "length b \<le> ?w" "length c \<le> ?w" by simp_all
  from assms have "pad_end ?w a \<le> pad_end ?w c"
    by (simp only: compare_fractions_le [OF w(1,2)] compare_fractions_le [OF w(2,3)] order_trans)
  then show ?thesis by (simp only: compare_fractions_le [OF w(1,3)])
qed

lemma compare_fractions_range: "compare_fractions a b \<in> {-1, 0, 1}"
  by (simp add: compare_fractions_def Let_def)

section \<open>The preorder of timestamps\<close>

text \<open>
  What the state machine relies on: comparing two readable timestamps never throws,
  answers -1, 0 or 1, is reflexive, flips with its arguments and is transitive.
\<close>

locale timestamp_preorder =
  fixes cmp :: "'t \<Rightarrow> 't \<Rightarrow> 'e + int"
    and valid :: "'t \<Rightarrow> bool"
  assumes cmp_total: "valid a \<Longrightarrow> valid b \<Longrightarrow> \<exists>c. cmp a b = Inr c \<and> c \<in> {-1, 0, 1}"
    and cmp_self: "valid a \<Longrightarrow> cmp a a = Inr 0"
    and cmp_flip: "valid a \<Longrightarrow> valid b \<Longrightarrow> cmp a b = Inr c \<Longrightarrow> cmp b a = Inr (- c)"
    and cmp_trans: "valid a \<Longrightarrow> valid b \<Longrightarrow> valid d \<Longrightarrow> cmp a b = Inr c \<Longrightarrow> c \<le> 0 \<Longrightarrow>
      cmp b d = Inr c' \<Longrightarrow> c' \<le> 0 \<Longrightarrow> \<exists>c''. cmp a d = Inr c'' \<and> c'' \<le> 0"
begin

definition not_after :: "'t \<Rightarrow> 't \<Rightarrow> bool" where
  "not_after a b = (case cmp a b of Inr c \<Rightarrow> c \<le> 0 | Inl _ \<Rightarrow> False)"

lemma not_after_refl: "valid a \<Longrightarrow> not_after a a"
  by (simp add: not_after_def cmp_self)

lemma not_after_trans:
  "valid a \<Longrightarrow> valid b \<Longrightarrow> valid d \<Longrightarrow> not_after a b \<Longrightarrow> not_after b d \<Longrightarrow> not_after a d"
  unfolding not_after_def using cmp_trans by (fastforce split: sum.splits)

lemma not_after_total: "valid a \<Longrightarrow> valid b \<Longrightarrow> not_after a b \<or> not_after b a"
proof -
  assume ab: "valid a" "valid b"
  then obtain c where c: "cmp a b = Inr c" using cmp_total by blast
  then have "cmp b a = Inr (- c)" using ab by (rule cmp_flip [rotated 2])
  with c show ?thesis by (auto simp: not_after_def)
qed

text \<open>\<open>cmp a b >= 0\<close> is how the code asks whether \<open>a\<close> is not before \<open>b\<close>.\<close>

lemma not_after_flip:
  "valid a \<Longrightarrow> valid b \<Longrightarrow> not_after b a \<longleftrightarrow> (\<exists>c. cmp a b = Inr c \<and> 0 \<le> c)"
  using cmp_total [of a b] cmp_flip [of a b] by (auto simp: not_after_def)

lemma after_iff_not_not_after:
  "valid a \<Longrightarrow> valid b \<Longrightarrow> (\<exists>c. cmp a b = Inr c \<and> 0 < c) \<longleftrightarrow> \<not> not_after a b"
  using cmp_total [of a b] by (auto simp: not_after_def)

end

lemma valid_timestamp_parts:
  "valid_timestamp t \<Longrightarrow> \<exists>ms fr. timestampParts t = Inr (Some ms, fr)"
  by (auto simp: valid_timestamp_def split: sum.splits option.splits)

definition compare_parts :: "int \<times> string \<Rightarrow> int \<times> string \<Rightarrow> int" where
  "compare_parts p q =
     (if fst p \<noteq> fst q then (if fst p < fst q then -1 else 1)
      else compare_fractions (snd p) (snd q))"

lemma compareTimestamps_parts:
  "timestampParts a = Inr (Some la, fa) \<Longrightarrow> timestampParts b = Inr (Some lb, fb) \<Longrightarrow>
    compareTimestamps a b = Inr (compare_parts (la, fa) (lb, fb))"
  by (simp add: compareTimestamps_def compare_parts_def)

lemma compare_parts_range: "compare_parts p q \<in> {-1, 0, 1}"
  using compare_fractions_range by (simp add: compare_parts_def)

lemma compare_parts_flip: "compare_parts q p = - compare_parts p q"
  by (simp add: compare_parts_def compare_fractions_flip [of "snd p"])

lemma compare_parts_trans:
  "compare_parts p q \<le> 0 \<Longrightarrow> compare_parts q r \<le> 0 \<Longrightarrow> compare_parts p r \<le> 0"
  using compare_fractions_trans [of "snd p" "snd q" "snd r"]
  by (auto simp: compare_parts_def split: if_splits)

interpretation ts: timestamp_preorder compareTimestamps valid_timestamp
proof unfold_locales
  fix a b assume "valid_timestamp a" "valid_timestamp b"
  then show "\<exists>c. compareTimestamps a b = Inr c \<and> c \<in> {-1, 0, 1}"
    using compare_parts_range by (metis compareTimestamps_parts valid_timestamp_parts)
next
  fix a assume "valid_timestamp a"
  then show "compareTimestamps a a = Inr 0"
    by (auto dest!: valid_timestamp_parts
        simp: compareTimestamps_parts compare_parts_def compare_fractions_self)
next
  fix a b c
  assume "valid_timestamp a" "valid_timestamp b" and cmp: "compareTimestamps a b = Inr c"
  then obtain la fa lb fb where parts: "timestampParts a = Inr (Some la, fa)"
    "timestampParts b = Inr (Some lb, fb)"
    using valid_timestamp_parts by meson
  with cmp have "c = compare_parts (la, fa) (lb, fb)"
    by (simp add: compareTimestamps_parts)
  then show "compareTimestamps b a = Inr (- c)"
    using parts by (simp only: compareTimestamps_parts compare_parts_flip [of "(lb, fb)"])
next
  fix a b d c c'
  assume "valid_timestamp a" "valid_timestamp b" "valid_timestamp d"
    and cmp: "compareTimestamps a b = Inr c" "c \<le> 0" "compareTimestamps b d = Inr c'" "c' \<le> 0"
  then obtain la fa lb fb ld fd where parts: "timestampParts a = Inr (Some la, fa)"
    "timestampParts b = Inr (Some lb, fb)" "timestampParts d = Inr (Some ld, fd)"
    using valid_timestamp_parts by meson
  then have "compareTimestamps a d = Inr (compare_parts (la, fa) (ld, fd))"
    and "compare_parts (la, fa) (lb, fb) \<le> 0" "compare_parts (lb, fb) (ld, fd) \<le> 0"
    using cmp by (simp_all add: compareTimestamps_parts)
  then show "\<exists>c''. compareTimestamps a d = Inr c'' \<and> c'' \<le> 0"
    using compare_parts_trans by blast
qed

end
