(* ===== verification/Contract_State.thy ===== *)
theory Contract_State
  imports Timestamps
begin

text \<open>
  The data model of the contract library: the shared values of common.ts, the content
  blocks of content.ts, the resolutions of command.ts and the entities of state.ts
  (Session, Run, Item, Interaction and the snapshot that holds them).

  A value here is one the zod schema has already parsed: object schemas are records,
  discriminated unions are datatypes, an optional key is an \<open>option\<close>.  What a schema
  demands beyond its shape (array and string bounds, safe integers, the regular
  expressions of common.ts, the \<open>superRefine\<close> conditions) is the predicate \<open>x_schema\<close>.
  An identifier is the text the parse returned, upper case already.  The formats that zod
  itself decides (ISO date-time, URL, base64) are left to it.
\<close>

section \<open>common.ts\<close>

datatype audience = Participants | Operators

record provenance =
  prov_provider :: string
  prov_event :: "string option"
  prov_nativeIds :: "(string, string) fmap option"

record protocol_error =
  err_code :: string
  err_message :: string
  err_retryable :: bool
  err_details :: "json_object option"

type_synonym capabilities = "(string, json_object) fmap"

definition core_capabilities :: "string list" where
  "core_capabilities =
     [''blob'', ''interaction.input'', ''interaction.permission'', ''interaction.tool'',
      ''item.artifact'', ''item.change'', ''item.plan'', ''item.reasoning'', ''item.terminal'',
      ''run.agent_initiated'', ''run.child'', ''run.resume'', ''run.steer'', ''session.configure'']"

record blob_ref =
  blob_id :: string
  blob_mediaType :: string
  blob_sizeBytes :: nat
  blob_digest :: string
  blob_name :: "string option"

definition safe_nat :: "nat \<Rightarrow> bool" where
  "safe_nat n \<longleftrightarrow> int n \<le> max_safe_integer"

definition opaque_id_schema :: "string \<Rightarrow> bool" where
  "opaque_id_schema s \<longleftrightarrow> 1 \<le> length s \<and> length s \<le> 256"

text \<open>
  \<open>protocolIdSchema\<close>: a ULID (26 characters of Crockford's base 32) whose first
  character is an octal digit.
\<close>

definition protocol_id_schema :: "string \<Rightarrow> bool" where
  "protocol_id_schema s \<longleftrightarrow> length s = 26
     \<and> list_all (\<lambda>c. c \<in> set ''0123456789ABCDEFGHJKMNPQRSTVWXYZ'') s
     \<and> (case s of c # _ \<Rightarrow> c \<in> set ''01234567'' | [] \<Rightarrow> False)"

definition hex64 :: "string \<Rightarrow> bool" where
  "hex64 s \<longleftrightarrow> length s = 64 \<and> list_all (\<lambda>c. c \<in> set ''0123456789abcdef'') s"

definition sha256_schema :: "string \<Rightarrow> bool" where
  "sha256_schema s \<longleftrightarrow> take 7 s = ''sha256:'' \<and> hex64 (drop 7 s)"

text \<open>
  \<open>extensionNameSchema\<close>: dot separated labels, at least two, the first of which starts
  with a letter, a slash, and a name that starts with a letter.
\<close>

definition extension_label :: "string \<Rightarrow> string \<Rightarrow> bool" where
  "extension_label starts s \<longleftrightarrow>
     (case s of [] \<Rightarrow> False
      | c # cs \<Rightarrow> c \<in> set starts \<and> list_all (\<lambda>d. d \<in> set (lower_letters @ digits @ ''-'')) cs)"

definition extension_name_schema :: "string \<Rightarrow> bool" where
  "extension_name_schema s \<longleftrightarrow>
     (case split_on CHR ''/'' s of
        [domain, name] \<Rightarrow>
          (case split_on CHR ''.'' domain of
             [] \<Rightarrow> False
           | label # labels \<Rightarrow>
               extension_label lower_letters label \<and> labels \<noteq> []
               \<and> list_all (extension_label (lower_letters @ digits)) labels)
          \<and> (case name of [] \<Rightarrow> False
             | c # cs \<Rightarrow> c \<in> set lower_letters
                 \<and> list_all (\<lambda>d. d \<in> set (lower_letters @ digits @ ''._-'')) cs)
      | _ \<Rightarrow> False)"

definition extensions_schema :: "json_object \<Rightarrow> bool" where
  "extensions_schema = fmpred (\<lambda>name _. extension_name_schema name)"

definition capabilities_schema :: "capabilities \<Rightarrow> bool" where
  "capabilities_schema = fmpred (\<lambda>name _. name \<in> set core_capabilities \<or> extension_name_schema name)"

definition bounded_text :: "nat \<Rightarrow> string \<Rightarrow> bool" where
  "bounded_text n s \<longleftrightarrow> 1 \<le> length s \<and> length s \<le> n"

definition provenance_schema :: "provenance \<Rightarrow> bool" where
  "provenance_schema p \<longleftrightarrow>
     bounded_text 128 (prov_provider p)
     \<and> opt_all (bounded_text 256) (prov_event p)
     \<and> opt_all (fmpred (\<lambda>k v. bounded_text 64 k \<and> opaque_id_schema v)) (prov_nativeIds p)"

definition protocol_error_schema :: "protocol_error \<Rightarrow> bool" where
  "protocol_error_schema e \<longleftrightarrow> bounded_text 128 (err_code e)"

definition blob_ref_schema :: "blob_ref \<Rightarrow> bool" where
  "blob_ref_schema b \<longleftrightarrow>
     protocol_id_schema (blob_id b) \<and> bounded_text 256 (blob_mediaType b) \<and> safe_nat (blob_sizeBytes b)
     \<and> sha256_schema (blob_digest b) \<and> opt_all (bounded_text 1024) (blob_name b)"

section \<open>content.ts\<close>

datatype content_block =
    TextContent string
  | JsonContent json
  | InlineBlobContent (inline_mediaType: string) (inline_data: string)
      (inline_name: "string option") (inline_alt: "string option")
  | BlobRefContent blob_ref "string option"
  | ResourceLinkContent string "string option" "string option" "string option"
  | ExtensionContent string json "json_object option"

fun content_block_schema :: "content_block \<Rightarrow> bool" where
  "content_block_schema (TextContent _) = True"
| "content_block_schema (JsonContent _) = True"
| "content_block_schema (InlineBlobContent mediaType _ name _) =
     (bounded_text 256 mediaType \<and> opt_all (bounded_text 1024) name)"
| "content_block_schema (BlobRefContent blob _) = blob_ref_schema blob"
| "content_block_schema (ResourceLinkContent _ name mediaType digest) =
     (opt_all (bounded_text 1024) name \<and> opt_all (bounded_text 256) mediaType
      \<and> opt_all (bounded_text 256) digest)"
| "content_block_schema (ExtensionContent name _ extensions) =
     (extension_name_schema name \<and> opt_all extensions_schema extensions)"

fun is_blob_ref :: "content_block \<Rightarrow> bool" where
  "is_blob_ref (BlobRefContent _ _) = True"
| "is_blob_ref _ = False"

definition hasBlobRef :: "content_block list \<Rightarrow> bool" where
  "hasBlobRef blocks = list_ex is_blob_ref blocks"

fun block_extension_name :: "content_block \<Rightarrow> string list" where
  "block_extension_name (ExtensionContent name _ _) = [name]"
| "block_extension_name _ = []"

definition contentExtensionNames :: "content_block list \<Rightarrow> string list" where
  "contentExtensionNames blocks = concat (map block_extension_name blocks)"

section \<open>Sessions and their configuration\<close>

record select_choice =
  choice_id :: string
  choice_label :: string
  choice_description :: "string option"

datatype config_value =
    BooleanOption bool
  | StringOption string
  | NumberOption (num_value: rat) (num_min: "rat option") (num_max: "rat option")
  | SelectOption (sel_value: string) (sel_choices: "select_choice list")

record config_option =
  opt_id :: string
  opt_label :: string
  opt_description :: "string option"
  opt_category :: "string option"
  opt_extensions :: "json_object option"
  opt_value :: config_value

definition select_choice_schema :: "select_choice \<Rightarrow> bool" where
  "select_choice_schema c \<longleftrightarrow> opaque_id_schema (choice_id c) \<and> choice_label c \<noteq> []"

definition config_option_schema :: "config_option \<Rightarrow> bool" where
  "config_option_schema o' \<longleftrightarrow>
     opaque_id_schema (opt_id o') \<and> opt_label o' \<noteq> [] \<and> opt_category o' \<noteq> Some []
     \<and> opt_all extensions_schema (opt_extensions o')
     \<and> (case opt_value o' of
          SelectOption v choices \<Rightarrow>
            opaque_id_schema v \<and> choices \<noteq> [] \<and> list_all select_choice_schema choices
        | _ \<Rightarrow> True)"

datatype session_status = SessionOpen | SessionClosed

record session =
  ses_id :: string
  ses_status :: session_status
  ses_createdAt :: timestamp
  ses_updatedAt :: timestamp
  ses_closedAt :: "timestamp option"
  ses_title :: "string option"
  ses_cwd :: "string option"
  ses_capabilities :: capabilities
  ses_config :: "config_option list"
  ses_parent :: "(string \<times> nat) option"
  ses_provenance :: "provenance option"
  ses_extensions :: "json_object option"

definition session_schema :: "session \<Rightarrow> bool" where
  "session_schema s \<longleftrightarrow>
     protocol_id_schema (ses_id s) \<and> ses_title s \<noteq> Some [] \<and> ses_cwd s \<noteq> Some []
     \<and> capabilities_schema (ses_capabilities s)
     \<and> list_all config_option_schema (ses_config s)
     \<and> opt_all (\<lambda>(parent, revision). protocol_id_schema parent \<and> safe_nat revision) (ses_parent s)
     \<and> opt_all provenance_schema (ses_provenance s) \<and> opt_all extensions_schema (ses_extensions s)"

section \<open>Runs\<close>

record token_usage =
  use_input :: "nat option"
  use_output :: "nat option"
  use_cachedInput :: "nat option"
  use_cachedWrite :: "nat option"
  use_reasoning :: "nat option"
  use_total :: "nat option"
  use_cost :: "(rat \<times> string) option"

definition token_usage_schema :: "token_usage \<Rightarrow> bool" where
  "token_usage_schema u \<longleftrightarrow>
     list_all (opt_all safe_nat)
       [use_input u, use_output u, use_cachedInput u, use_cachedWrite u, use_reasoning u, use_total u]
     \<and> opt_all (\<lambda>(amount, currency). 0 \<le> amount \<and> length currency = 3) (use_cost u)"

datatype lifecycle_status = Active | Completed | Failed | Cancelled

datatype finish_reason = FinishSuccess | FinishLimit | FinishRefusal | FinishOther

datatype run_outcome =
    ActiveRun
  | CompletedRun timestamp finish_reason
  | FailedRun timestamp protocol_error
  | CancelledRun timestamp "string option"

datatype run_origin = OriginUser | OriginAgent | OriginSystem

record run =
  run_id :: string
  run_origin :: run_origin
  run_input :: "content_block list"
  run_startedAt :: timestamp
  run_parentRunId :: "string option"
  run_retryOf :: "string option"
  run_usage :: "token_usage option"
  run_provenance :: "provenance option"
  run_extensions :: "json_object option"
  run_outcome :: run_outcome

fun outcome_status :: "run_outcome \<Rightarrow> lifecycle_status" where
  "outcome_status ActiveRun = Active"
| "outcome_status (CompletedRun _ _) = Completed"
| "outcome_status (FailedRun _ _) = Failed"
| "outcome_status (CancelledRun _ _) = Cancelled"

fun outcome_endedAt :: "run_outcome \<Rightarrow> timestamp option" where
  "outcome_endedAt ActiveRun = None"
| "outcome_endedAt (CompletedRun t _) = Some t"
| "outcome_endedAt (FailedRun t _) = Some t"
| "outcome_endedAt (CancelledRun t _) = Some t"

abbreviation run_status :: "run \<Rightarrow> lifecycle_status" where
  "run_status r \<equiv> outcome_status (run_outcome r)"

abbreviation run_endedAt :: "run \<Rightarrow> timestamp option" where
  "run_endedAt r \<equiv> outcome_endedAt (run_outcome r)"

lemma outcome_endedAt_None_iff [simp]: "outcome_endedAt oc = None \<longleftrightarrow> outcome_status oc = Active"
  by (cases oc) auto

definition run_schema :: "run \<Rightarrow> bool" where
  "run_schema r \<longleftrightarrow>
     protocol_id_schema (run_id r) \<and> opt_all protocol_id_schema (run_parentRunId r)
     \<and> opt_all protocol_id_schema (run_retryOf r)
     \<and> list_all content_block_schema (run_input r)
     \<and> opt_all token_usage_schema (run_usage r)
     \<and> opt_all provenance_schema (run_provenance r) \<and> opt_all extensions_schema (run_extensions r)
     \<and> (case run_outcome r of FailedRun _ e \<Rightarrow> protocol_error_schema e | _ \<Rightarrow> True)"

section \<open>Items\<close>

datatype message_role = RoleUser | RoleAgent
datatype message_phase = PhaseCommentary | PhaseFinal
datatype plan_status = PlanPending | PlanInProgress | PlanCompleted | PlanCancelled
datatype plan_priority = PriorityHigh | PriorityMedium | PriorityLow

record plan_entry =
  entry_id :: "string option"
  entry_text :: string
  entry_status :: plan_status
  entry_priority :: "plan_priority option"

datatype tool_category =
  CatRead | CatEdit | CatSearch | CatExecute | CatFetch | CatAgent | CatOther
datatype tool_origin = ToolProvider | ToolMcp | ToolHost

record tool_body =
  tool_name :: string
  tool_title :: "string option"
  tool_category :: tool_category
  tool_origin :: tool_origin
  tool_server :: "string option"
  tool_input :: "json option"
  tool_output :: "content_block list option"
  tool_structuredOutput :: "json option"
  tool_locations :: "(string \<times> nat option) list option"
  tool_terminalItemId :: "string option"

record terminal_body =
  term_command :: "string option"
  term_cwd :: "string option"
  term_stdout :: "content_block list"
  term_stderr :: "content_block list"
  term_exitCode :: "int option option"
  term_signal :: "string option option"

datatype file_operation = FileCreate | FileUpdate | FileDelete | FileMove

record file_change =
  change_operation :: file_operation
  change_path :: string
  change_oldPath :: "string option"
  change_diff :: "content_block option"

datatype item_body =
    MessageItem message_role "message_phase option" "content_block list"
  | ReasoningItem "content_block list"
  | PlanItem "plan_entry list" "string option"
  | ToolItem tool_body
  | TerminalItem terminal_body
  | ChangeItem "file_change list"
  | ArtifactItem "string option" "string option" "content_block list"
  | ExtensionItem string json

datatype item_kind =
    KindMessage | KindReasoning | KindPlan | KindTool | KindTerminal | KindChange
  | KindArtifact | KindExtension

fun body_kind :: "item_body \<Rightarrow> item_kind" where
  "body_kind (MessageItem _ _ _) = KindMessage"
| "body_kind (ReasoningItem _) = KindReasoning"
| "body_kind (PlanItem _ _) = KindPlan"
| "body_kind (ToolItem _) = KindTool"
| "body_kind (TerminalItem _) = KindTerminal"
| "body_kind (ChangeItem _) = KindChange"
| "body_kind (ArtifactItem _ _ _) = KindArtifact"
| "body_kind (ExtensionItem _ _) = KindExtension"

record item =
  item_id :: string
  item_runId :: string
  item_status :: lifecycle_status
  item_createdAt :: timestamp
  item_updatedAt :: timestamp
  item_endedAt :: "timestamp option"
  item_audience :: audience
  item_error :: "protocol_error option"
  item_provenance :: "provenance option"
  item_extensions :: "json_object option"
  item_body :: item_body

abbreviation item_kind :: "item \<Rightarrow> item_kind" where
  "item_kind it \<equiv> body_kind (item_body it)"

definition file_change_schema :: "file_change \<Rightarrow> bool" where
  "file_change_schema c \<longleftrightarrow>
     change_path c \<noteq> [] \<and> change_oldPath c \<noteq> Some []
     \<and> opt_all content_block_schema (change_diff c)
     \<and> ((change_operation c = FileMove) = (change_oldPath c \<noteq> None))"

fun item_body_schema :: "item_body \<Rightarrow> bool" where
  "item_body_schema (MessageItem _ _ content) = list_all content_block_schema content"
| "item_body_schema (ReasoningItem content) = list_all content_block_schema content"
| "item_body_schema (PlanItem entries _) =
     list_all (\<lambda>e. opt_all opaque_id_schema (entry_id e)) entries"
| "item_body_schema (ToolItem t) =
     (tool_name t \<noteq> [] \<and> tool_title t \<noteq> Some [] \<and> tool_server t \<noteq> Some []
      \<and> opt_all (list_all content_block_schema) (tool_output t)
      \<and> opt_all (list_all (\<lambda>(path, line). path \<noteq> []
          \<and> opt_all (\<lambda>n. 1 \<le> n \<and> safe_nat n) line)) (tool_locations t)
      \<and> opt_all opaque_id_schema (tool_terminalItemId t))"
| "item_body_schema (TerminalItem t) =
     (term_cwd t \<noteq> Some [] \<and> list_all content_block_schema (term_stdout t)
      \<and> list_all content_block_schema (term_stderr t) \<and> term_signal t \<noteq> Some (Some [])
      \<and> opt_all (opt_all (\<lambda>n. \<bar>n\<bar> \<le> max_safe_integer)) (term_exitCode t))"
| "item_body_schema (ChangeItem changes) = list_all file_change_schema changes"
| "item_body_schema (ArtifactItem name _ content) =
     (name \<noteq> Some [] \<and> content \<noteq> [] \<and> list_all content_block_schema content)"
| "item_body_schema (ExtensionItem name _) = extension_name_schema name"

definition item_schema :: "item \<Rightarrow> bool" where
  "item_schema it \<longleftrightarrow>
     opaque_id_schema (item_id it) \<and> protocol_id_schema (item_runId it) \<and> item_body_schema (item_body it)
     \<and> opt_all protocol_error_schema (item_error it)
     \<and> opt_all provenance_schema (item_provenance it) \<and> opt_all extensions_schema (item_extensions it)
     \<and> ((item_status it \<noteq> Active) = (item_endedAt it \<noteq> None))
     \<and> ((item_status it = Failed) = (item_error it \<noteq> None))"

section \<open>Interactions and their resolutions\<close>

datatype permission_effect = EffectAllow | EffectDeny
datatype permission_scope = ScopeOnce | ScopeSession | ScopePersistent

record permission_option =
  perm_id :: string
  perm_label :: string
  perm_description :: "string option"
  perm_effect :: permission_effect
  perm_scope :: permission_scope
  perm_extensions :: "json_object option"

datatype permission_subject =
    SubjectItem string
  | SubjectResource string "string list"
  | SubjectExtension string json

record permission_request =
  preq_title :: string
  preq_description :: "string option"
  preq_subject :: permission_subject
  preq_options :: "permission_option list"

datatype permission_resolution = PermissionSelected string | PermissionCancelled

datatype question_type =
    TextQuestion
  | SecretQuestion
  | ConfirmQuestion
  | SingleSelect "select_choice list" "bool option"
  | MultiSelect "select_choice list" "bool option"

record input_question =
  q_id :: string
  q_prompt :: string
  q_required :: bool
  q_type :: question_type

datatype input_outcome = OutcomeAnswered "string list" | OutcomeCancelled

datatype tool_resolution =
    ToolCompleted "content_block list" "json option"
  | ToolFailed protocol_error
  | ToolCancelled

datatype interaction_body =
    PermissionInteraction permission_request "permission_resolution option"
  | InputInteraction "input_question list" "input_outcome option"
  | ToolInteraction string "json option" "tool_resolution option"
  | ExtensionInteraction string json "json option"

datatype interaction_kind = PermissionKind | InputKind | ToolKind | ExtensionKind

fun interaction_body_kind :: "interaction_body \<Rightarrow> interaction_kind" where
  "interaction_body_kind (PermissionInteraction _ _) = PermissionKind"
| "interaction_body_kind (InputInteraction _ _) = InputKind"
| "interaction_body_kind (ToolInteraction _ _ _) = ToolKind"
| "interaction_body_kind (ExtensionInteraction _ _ _) = ExtensionKind"

fun body_has_resolution :: "interaction_body \<Rightarrow> bool" where
  "body_has_resolution (PermissionInteraction _ r) = (r \<noteq> None)"
| "body_has_resolution (InputInteraction _ r) = (r \<noteq> None)"
| "body_has_resolution (ToolInteraction _ _ r) = (r \<noteq> None)"
| "body_has_resolution (ExtensionInteraction _ _ r) = (r \<noteq> None)"

datatype interaction_status = InteractionOpen | InteractionResolved | InteractionExpired

record interaction =
  int_id :: string
  int_runId :: string
  int_itemId :: "string option"
  int_status :: interaction_status
  int_blocking :: bool
  int_createdAt :: timestamp
  int_expiresAt :: timestamp
  int_endedAt :: "timestamp option"
  int_audience :: audience
  int_provenance :: "provenance option"
  int_extensions :: "json_object option"
  int_body :: interaction_body

abbreviation int_kind :: "interaction \<Rightarrow> interaction_kind" where
  "int_kind i \<equiv> interaction_body_kind (int_body i)"

fun tool_resolution_schema :: "tool_resolution \<Rightarrow> bool" where
  "tool_resolution_schema (ToolCompleted output _) = list_all content_block_schema output"
| "tool_resolution_schema (ToolFailed e) = protocol_error_schema e"
| "tool_resolution_schema ToolCancelled = True"

definition question_schema :: "input_question \<Rightarrow> bool" where
  "question_schema q \<longleftrightarrow>
     opaque_id_schema (q_id q) \<and> q_prompt q \<noteq> []
     \<and> (case q_type q of
          SingleSelect options _ \<Rightarrow> options \<noteq> [] \<and> list_all select_choice_schema options
        | MultiSelect options _ \<Rightarrow> options \<noteq> [] \<and> list_all select_choice_schema options
        | _ \<Rightarrow> True)"

fun permission_subject_schema :: "permission_subject \<Rightarrow> bool" where
  "permission_subject_schema (SubjectItem i) = opaque_id_schema i"
| "permission_subject_schema (SubjectResource operation targets) =
     (operation \<noteq> [] \<and> targets \<noteq> [] \<and> list_all (\<lambda>t. t \<noteq> []) targets)"
| "permission_subject_schema (SubjectExtension name _) = extension_name_schema name"

fun interaction_body_schema :: "interaction_body \<Rightarrow> bool" where
  "interaction_body_schema (PermissionInteraction request resolution) =
     (preq_title request \<noteq> [] \<and> permission_subject_schema (preq_subject request)
      \<and> preq_options request \<noteq> []
      \<and> list_all (\<lambda>p. opaque_id_schema (perm_id p) \<and> perm_label p \<noteq> []
          \<and> opt_all extensions_schema (perm_extensions p)) (preq_options request)
      \<and> (case resolution of Some (PermissionSelected optionId) \<Rightarrow> opaque_id_schema optionId
         | _ \<Rightarrow> True))"
| "interaction_body_schema (InputInteraction questions resolution) =
     (questions \<noteq> [] \<and> list_all question_schema questions
      \<and> (case resolution of Some (OutcomeAnswered ids) \<Rightarrow> list_all opaque_id_schema ids
         | _ \<Rightarrow> True))"
| "interaction_body_schema (ToolInteraction name _ resolution) =
     (name \<noteq> [] \<and> opt_all tool_resolution_schema resolution)"
| "interaction_body_schema (ExtensionInteraction name _ _) = extension_name_schema name"

definition interaction_schema :: "interaction \<Rightarrow> bool" where
  "interaction_schema i \<longleftrightarrow>
     protocol_id_schema (int_id i) \<and> protocol_id_schema (int_runId i)
     \<and> opt_all opaque_id_schema (int_itemId i)
     \<and> opt_all provenance_schema (int_provenance i) \<and> opt_all extensions_schema (int_extensions i)
     \<and> interaction_body_schema (int_body i)
     \<and> ((int_status i = InteractionResolved) = body_has_resolution (int_body i))
     \<and> ((int_status i \<noteq> InteractionOpen) = (int_endedAt i \<noteq> None))"

section \<open>Snapshots\<close>

text \<open>\<open>protocolVersion\<close> is the literal 3 and carries no information.\<close>

record snapshot =
  snap_revision :: nat
  snap_capturedAt :: timestamp
  snap_session :: session
  snap_runs :: "run list"
  snap_items :: "item list"
  snap_interactions :: "interaction list"

definition snapshot_schema :: "snapshot \<Rightarrow> bool" where
  "snapshot_schema s \<longleftrightarrow>
     safe_nat (snap_revision s) \<and> session_schema (snap_session s)
     \<and> list_all run_schema (snap_runs s) \<and> list_all item_schema (snap_items s)
     \<and> list_all interaction_schema (snap_interactions s)"

end
