(* ===== verification/State_Validation.thy ===== *)
theory State_Validation
  imports Contract_State
begin

text \<open>
  src/src/contract/invariant.ts, content-admission.ts and state-validation.ts: the
  assertions on a Session snapshot (\<open>validateState\<close>) and on one entity replacing
  another (\<open>putRun\<close>, \<open>putItem\<close>, \<open>putInteraction\<close>, \<open>assertSessionTransition\<close>).
  Only definitions and the equivalences that say when each assertion succeeds; the
  theorems are in \<open>Run_Relations\<close> and \<open>Snapshot_Invariants\<close>.
\<close>

section \<open>invariant.ts\<close>

definition invariant :: "invariant_code \<Rightarrow> bool \<Rightarrow> contract_error + unit" where
  "invariant code condition =
     (if condition then Inr () else Inl (ContractInvariantError code))"

definition assertUnique :: "'a list \<Rightarrow> contract_error + unit" where
  "assertUnique values = invariant DuplicateEntity (all_unique values)"

definition itemKey :: "string \<Rightarrow> string \<Rightarrow> string" where
  "itemKey runId itemId = runId @ [CHR 0x00] @ itemId"

definition assertNotBefore :: "timestamp option \<Rightarrow> timestamp \<Rightarrow> contract_error + unit" where
  "assertNotBefore value lowerBound =
     (case value of None \<Rightarrow> Inr ()
      | Some v \<Rightarrow> bindE (compareTimestamps v lowerBound) (\<lambda>c. invariant InvalidTransition (0 \<le> c)))"

definition assertNotAfter :: "timestamp option \<Rightarrow> timestamp \<Rightarrow> contract_error + unit" where
  "assertNotAfter value upperBound =
     (case value of None \<Rightarrow> Inr ()
      | Some v \<Rightarrow> bindE (compareTimestamps v upperBound) (\<lambda>c. invariant InvalidTransition (c \<le> 0)))"

fun SESSION_STATUS_TRANSITIONS :: "session_status \<Rightarrow> session_status list" where
  "SESSION_STATUS_TRANSITIONS SessionClosed = []"
| "SESSION_STATUS_TRANSITIONS SessionOpen = [SessionOpen, SessionClosed]"

fun RUN_STATUS_TRANSITIONS :: "lifecycle_status \<Rightarrow> lifecycle_status list" where
  "RUN_STATUS_TRANSITIONS Active = [Active, Completed, Failed, Cancelled]"
| "RUN_STATUS_TRANSITIONS Cancelled = []"
| "RUN_STATUS_TRANSITIONS Completed = []"
| "RUN_STATUS_TRANSITIONS Failed = []"

fun ITEM_STATUS_TRANSITIONS :: "lifecycle_status \<Rightarrow> lifecycle_status list" where
  "ITEM_STATUS_TRANSITIONS Active = [Active, Completed, Failed, Cancelled]"
| "ITEM_STATUS_TRANSITIONS Cancelled = []"
| "ITEM_STATUS_TRANSITIONS Completed = []"
| "ITEM_STATUS_TRANSITIONS Failed = []"

fun INTERACTION_STATUS_TRANSITIONS :: "interaction_status \<Rightarrow> interaction_status list" where
  "INTERACTION_STATUS_TRANSITIONS InteractionExpired = []"
| "INTERACTION_STATUS_TRANSITIONS InteractionOpen =
     [InteractionOpen, InteractionResolved, InteractionExpired]"
| "INTERACTION_STATUS_TRANSITIONS InteractionResolved = []"

definition assertStatusTransition :: "'s \<Rightarrow> 's \<Rightarrow> ('s \<Rightarrow> 's list) \<Rightarrow> contract_error + unit" where
  "assertStatusTransition previous next transitions =
     invariant InvalidTransition (next \<in> set (transitions previous))"

definition isTerminalRun :: "run \<Rightarrow> bool" where
  "isTerminalRun r \<longleftrightarrow> run_status r \<noteq> Active"

definition isTerminalInteraction :: "interaction \<Rightarrow> bool" where
  "isTerminalInteraction i \<longleftrightarrow> int_status i \<noteq> InteractionOpen \<and> int_endedAt i \<noteq> None"

text \<open>A lower bound that is only evaluated where the entity is known to have ended.\<close>

definition assertNotBeforeEnd :: "timestamp option \<Rightarrow> timestamp option \<Rightarrow> contract_error + unit" where
  "assertNotBeforeEnd value ended =
     (case ended of None \<Rightarrow> Inr () | Some e \<Rightarrow> assertNotBefore value e)"

definition assertRetryTarget :: "run \<Rightarrow> run option \<Rightarrow> bool \<Rightarrow> contract_error + unit" where
  "assertRetryTarget r previousAttempt required =
     bindE (invariant InvalidReference (\<not> required \<or> previousAttempt \<noteq> None)) (\<lambda>_.
       case previousAttempt of None \<Rightarrow> Inr ()
       | Some previous \<Rightarrow>
           checks [invariant InvalidTransition (isTerminalRun previous),
                   assertNotBeforeEnd (Some (run_startedAt r)) (run_endedAt previous)])"

section \<open>content-admission.ts\<close>

fun body_content :: "item_body \<Rightarrow> content_block list" where
  "body_content (MessageItem _ _ content) = content"
| "body_content (ReasoningItem content) = content"
| "body_content (ArtifactItem _ _ content) = content"
| "body_content (ToolItem t) = (case tool_output t of None \<Rightarrow> [] | Some output \<Rightarrow> output)"
| "body_content (TerminalItem t) = term_stdout t @ term_stderr t"
| "body_content (ChangeItem changes) =
     concat (map (\<lambda>c. case change_diff c of None \<Rightarrow> [] | Some diff \<Rightarrow> [diff]) changes)"
| "body_content (ExtensionItem _ _) = []"
| "body_content (PlanItem _ _) = []"

definition itemContent :: "item \<Rightarrow> content_block list" where
  "itemContent it = body_content (item_body it)"

definition interactionContent :: "interaction \<Rightarrow> content_block list" where
  "interactionContent i =
     (case int_body i of ToolInteraction _ _ (Some (ToolCompleted output _)) \<Rightarrow> output | _ \<Rightarrow> [])"

definition stateContent ::
    "run list \<Rightarrow> item list \<Rightarrow> interaction list \<Rightarrow> content_block list" where
  "stateContent runs items interactions =
     concat (map run_input runs) @ concat (map itemContent items)
       @ concat (map interactionContent interactions)"

section \<open>Acyclic Run relations\<close>

text \<open>
  \<open>walk_chain\<close> is the \<open>while\<close> loop of \<open>assertAcyclicRunRelation\<close>: it follows
  \<open>relation\<close> from \<open>current\<close> until it leaves the Runs or meets a completed one, and
  fails when it meets a Run it is visiting.  It returns the visited path (most recent
  first), which the caller adds to the completed set.
\<close>

function walk_chain ::
    "(run \<Rightarrow> string option) \<Rightarrow> run list \<Rightarrow> string list \<Rightarrow> string list \<Rightarrow> run option
      \<Rightarrow> contract_error + string list" where
  "walk_chain relation runs completed visiting current =
     (case current of None \<Rightarrow> Inr visiting
      | Some r \<Rightarrow>
          if run_id r \<in> set completed then Inr visiting
          else if run_id r \<in> set visiting then Inl (ContractInvariantError InvalidTransition)
          else walk_chain relation runs completed (run_id r # visiting)
                 (case relation r of None \<Rightarrow> None | Some nextId \<Rightarrow> map_get run_id runs nextId))"
  by pat_completeness auto
termination
proof (relation "measures [\<lambda>(_, runs, _, visiting, _). card (run_id ` set runs - set visiting),
    \<lambda>(_, runs, _, _, current). case current of Some r \<Rightarrow> if r \<in> set runs then 0 else 1 | None \<Rightarrow> 0]",
    goal_cases)
  case (2 relation runs completed visiting current r)
  let ?next = "case relation r of None \<Rightarrow> None | Some nextId \<Rightarrow> map_get run_id runs nextId"
  have next_mem: "?next = Some q \<Longrightarrow> q \<in> set runs" for q
    by (auto split: option.splits dest: map_get_Some_D)
  have le: "card (run_id ` set runs - set (run_id r # visiting))
      \<le> card (run_id ` set runs - set visiting)"
    by (rule card_mono) auto
  show ?case
  proof (cases "r \<in> set runs")
    case True
    then have "card (run_id ` set runs - set (run_id r # visiting))
        < card (run_id ` set runs - set visiting)"
      using 2 by (intro psubset_card_mono) auto
    then show ?thesis by simp
  next
    case False
    then show ?thesis using le 2 next_mem by (auto split: option.splits)
  qed
qed simp

declare walk_chain.simps [simp del]

definition assertAcyclicRunRelation ::
    "run list \<Rightarrow> (run \<Rightarrow> string option) \<Rightarrow> contract_error + unit" where
  "assertAcyclicRunRelation runs relation =
     bindE
       (foldE
         (\<lambda>completed root.
            if run_id root \<in> set completed then Inr completed
            else bindE (walk_chain relation runs completed [] (Some root)) (\<lambda>path.
                   Inr (path @ completed)))
         [] runs)
       (\<lambda>_. Inr ())"

section \<open>Session configuration and transition\<close>

definition has_capability :: "session \<Rightarrow> string \<Rightarrow> bool" where
  "has_capability s name \<longleftrightarrow> fmlookup (ses_capabilities s) name \<noteq> None"

definition assert_config_option :: "config_option \<Rightarrow> contract_error + unit" where
  "assert_config_option opt =
     (case opt_value opt of
        SelectOption v choices \<Rightarrow>
          checks [assertUnique (map choice_id choices),
                  invariant InvalidReference (list_ex (\<lambda>c. choice_id c = v) choices)]
      | NumberOption v mn mx \<Rightarrow>
          checks [invariant InvalidTransition
                    (case (mn, mx) of (Some lo, Some hi) \<Rightarrow> lo \<le> hi | _ \<Rightarrow> True),
                  invariant InvalidTransition (opt_all (\<lambda>lo. lo \<le> v) mn),
                  invariant InvalidTransition (opt_all (\<lambda>hi. v \<le> hi) mx)]
      | _ \<Rightarrow> Inr ())"

definition assertConfig :: "session \<Rightarrow> contract_error + unit" where
  "assertConfig s =
     checks [assertUnique (map opt_id (ses_config s)), each assert_config_option (ses_config s)]"

definition assertSessionTransition :: "session \<Rightarrow> session \<Rightarrow> contract_error + unit" where
  "assertSessionTransition previous next =
     checks
       [invariant ImmutableEntity (ses_id previous = ses_id next),
        invariant ImmutableEntity
          (ses_createdAt previous = ses_createdAt next \<and> ses_parent previous = ses_parent next),
        assertNotBefore (Some (ses_updatedAt next)) (ses_updatedAt previous),
        invariant ImmutableEntity
          (fmpred (\<lambda>name detail. fmlookup (ses_capabilities next) name = Some detail)
            (ses_capabilities previous)),
        assertStatusTransition (ses_status previous) (ses_status next) SESSION_STATUS_TRANSITIONS]"

section \<open>Run, Item and Interaction transitions\<close>

definition usage_of :: "(token_usage \<Rightarrow> 'a option) \<Rightarrow> run \<Rightarrow> 'a option" where
  "usage_of key r = (case run_usage r of None \<Rightarrow> None | Some u \<Rightarrow> key u)"

definition usage_keys :: "(token_usage \<Rightarrow> nat option) list" where
  "usage_keys =
     [use_cachedInput, use_cachedWrite, use_input, use_output, use_reasoning, use_total]"

definition assert_usage_key ::
    "run \<Rightarrow> run \<Rightarrow> (token_usage \<Rightarrow> nat option) \<Rightarrow> contract_error + unit" where
  "assert_usage_key previous next key =
     (case usage_of key previous of None \<Rightarrow> Inr ()
      | Some prior \<Rightarrow>
          invariant InvalidTransition
            (case usage_of key next of None \<Rightarrow> False | Some n \<Rightarrow> prior \<le> n))"

definition assert_usage_cost :: "run \<Rightarrow> run \<Rightarrow> contract_error + unit" where
  "assert_usage_cost previous next =
     (case usage_of use_cost previous of None \<Rightarrow> Inr ()
      | Some (amount, currency) \<Rightarrow>
          invariant InvalidTransition
            (case usage_of use_cost next of None \<Rightarrow> False
             | Some (amount', currency') \<Rightarrow> currency' = currency \<and> amount \<le> amount'))"

definition assertRunTransition :: "run option \<Rightarrow> run \<Rightarrow> contract_error + unit" where
  "assertRunTransition prev next =
     (case prev of
        None \<Rightarrow> invariant InvalidTransition (run_status next = Active)
      | Some previous \<Rightarrow>
          checks
            [invariant ImmutableEntity (run_id previous = run_id next),
             invariant ImmutableEntity
               (run_startedAt previous = run_startedAt next
                \<and> run_origin previous = run_origin next
                \<and> run_parentRunId previous = run_parentRunId next
                \<and> run_retryOf previous = run_retryOf next
                \<and> run_input previous = run_input next),
             each (assert_usage_key previous next) usage_keys,
             assert_usage_cost previous next,
             assertStatusTransition (run_status previous) (run_status next) RUN_STATUS_TRANSITIONS])"

fun same_body_identity :: "item_body \<Rightarrow> item_body \<Rightarrow> bool" where
  "same_body_identity (MessageItem role _ _) (MessageItem role' _ _) = (role = role')"
| "same_body_identity (ToolItem t) (ToolItem t') = (tool_origin t = tool_origin t')"
| "same_body_identity (ExtensionItem name _) (ExtensionItem name' _) = (name = name')"
| "same_body_identity (MessageItem _ _ _) _ = False"
| "same_body_identity (ToolItem _) _ = False"
| "same_body_identity (ExtensionItem _ _) _ = False"
| "same_body_identity _ _ = True"

text \<open>The Item without the fields a terminal enrichment may change freely.\<close>

definition item_content_of :: "item \<Rightarrow> item" where
  "item_content_of it = it\<lparr>item_provenance := None, item_updatedAt := []\<rparr>"

definition assertItemTransition :: "item option \<Rightarrow> item \<Rightarrow> contract_error + unit" where
  "assertItemTransition prev next =
     (case prev of
        None \<Rightarrow>
          if item_status next \<noteq> Active
          then assertNotBefore (item_endedAt next) (item_updatedAt next) else Inr ()
      | Some previous \<Rightarrow>
          bindE (checks
            [invariant ImmutableEntity
               (item_id previous = item_id next
                \<and> item_runId previous = item_runId next
                \<and> item_kind previous = item_kind next
                \<and> item_createdAt previous = item_createdAt next
                \<and> item_audience previous = item_audience next
                \<and> same_body_identity (item_body previous) (item_body next)),
             assertNotBefore (Some (item_updatedAt next)) (item_updatedAt previous)]) (\<lambda>_.
          if item_status previous \<noteq> Active
          then checks
            [invariant InvalidTransition (item_status next = item_status previous),
             invariant ImmutableEntity
               (item_endedAt previous = item_endedAt next \<and> item_error previous = item_error next),
             assertNotBefore (Some (item_updatedAt next))
               (case item_endedAt previous of Some e \<Rightarrow> e | None \<Rightarrow> item_updatedAt previous),
             invariant InvalidTransition (item_content_of previous \<noteq> item_content_of next)]
          else checks
            [assertStatusTransition (item_status previous) (item_status next) ITEM_STATUS_TRANSITIONS,
             if item_status next \<noteq> Active
             then assertNotBefore (item_endedAt next) (item_updatedAt next) else Inr ()]))"

definition assert_question_options :: "input_question \<Rightarrow> contract_error + unit" where
  "assert_question_options q =
     (case q_type q of
        SingleSelect options _ \<Rightarrow> assertUnique (map choice_id options)
      | MultiSelect options _ \<Rightarrow> assertUnique (map choice_id options)
      | _ \<Rightarrow> Inr ())"

definition assert_permission_content ::
    "interaction_status \<Rightarrow> permission_request \<Rightarrow> permission_resolution option
      \<Rightarrow> contract_error + unit" where
  "assert_permission_content status request resolution =
     checks
       [assertUnique (map perm_id (preq_options request)),
        case preq_subject request of
          SubjectResource _ targets \<Rightarrow> assertUnique targets | _ \<Rightarrow> Inr (),
        if status = InteractionResolved
        then (case resolution of
                None \<Rightarrow> Inl (ContractInvariantError InvalidTransition)
              | Some (PermissionSelected optionId) \<Rightarrow>
                  invariant InvalidReference
                    (list_ex (\<lambda>opt. perm_id opt = optionId) (preq_options request))
              | Some PermissionCancelled \<Rightarrow> Inr ())
        else Inr ()]"

definition assert_input_content ::
    "interaction_status \<Rightarrow> input_question list \<Rightarrow> input_outcome option
      \<Rightarrow> contract_error + unit" where
  "assert_input_content status questions resolution =
     checks
       [assertUnique (map q_id questions),
        each assert_question_options questions,
        case resolution of
          Some (OutcomeAnswered answered) \<Rightarrow>
            if status = InteractionResolved
            then checks
              [assertUnique answered,
               invariant InvalidReference
                 (list_all (\<lambda>i. list_ex (\<lambda>q. q_id q = i) questions) answered),
               invariant InvalidTransition
                 (list_all (\<lambda>q. q_id q \<in> set answered) (filter q_required questions))]
            else Inr ()
        | _ \<Rightarrow> Inr ()]"

definition assertInteractionContent :: "interaction \<Rightarrow> contract_error + unit" where
  "assertInteractionContent i =
     (case int_body i of
        PermissionInteraction request resolution \<Rightarrow>
          assert_permission_content (int_status i) request resolution
      | InputInteraction questions resolution \<Rightarrow>
          assert_input_content (int_status i) questions resolution
      | _ \<Rightarrow> Inr ())"

fun same_request :: "interaction_body \<Rightarrow> interaction_body \<Rightarrow> bool" where
  "same_request (PermissionInteraction r _) (PermissionInteraction r' _) = (r = r')"
| "same_request (InputInteraction q _) (InputInteraction q' _) = (q = q')"
| "same_request (ToolInteraction n i _) (ToolInteraction n' i' _) = (n = n' \<and> i = i')"
| "same_request (ExtensionInteraction _ r _) (ExtensionInteraction _ r' _) = (r = r')"
| "same_request _ _ = False"

fun same_extension_name :: "interaction_body \<Rightarrow> interaction_body \<Rightarrow> bool" where
  "same_extension_name (ExtensionInteraction n _ _) (ExtensionInteraction n' _ _) = (n = n')"
| "same_extension_name _ _ = True"

definition assertInteractionTransition ::
    "interaction option \<Rightarrow> interaction \<Rightarrow> contract_error + unit" where
  "assertInteractionTransition prev next =
     bindE (assertInteractionContent next) (\<lambda>_.
       case prev of
         None \<Rightarrow> invariant InvalidTransition (int_status next = InteractionOpen)
       | Some previous \<Rightarrow>
           checks
             [invariant ImmutableEntity
                (int_id previous = int_id next
                 \<and> int_runId previous = int_runId next
                 \<and> int_itemId previous = int_itemId next
                 \<and> int_kind previous = int_kind next
                 \<and> int_createdAt previous = int_createdAt next
                 \<and> int_blocking previous = int_blocking next
                 \<and> int_audience previous = int_audience next
                 \<and> same_request (int_body previous) (int_body next)),
              invariant ImmutableEntity (same_extension_name (int_body previous) (int_body next)),
              invariant ImmutableEntity (int_expiresAt next = int_expiresAt previous),
              assertStatusTransition (int_status previous) (int_status next)
                INTERACTION_STATUS_TRANSITIONS])"

definition putRun :: "run list \<Rightarrow> run \<Rightarrow> contract_error + run list" where
  "putRun runs next =
     bindE (assertRunTransition (find (\<lambda>r. run_id r = run_id next) runs) next) (\<lambda>_.
       Inr (put_first (\<lambda>r. run_id r = run_id next) next runs))"

definition same_item :: "item \<Rightarrow> item \<Rightarrow> bool" where
  "same_item next it \<longleftrightarrow> item_runId it = item_runId next \<and> item_id it = item_id next"

definition putItem :: "item list \<Rightarrow> item \<Rightarrow> contract_error + item list" where
  "putItem items next =
     bindE (assertItemTransition (find (same_item next) items) next) (\<lambda>_.
       Inr (put_first (same_item next) next items))"

definition putInteraction ::
    "interaction list \<Rightarrow> interaction \<Rightarrow> contract_error + interaction list" where
  "putInteraction interactions next =
     bindE (assertInteractionTransition (find (\<lambda>i. int_id i = int_id next) interactions) next) (\<lambda>_.
       Inr (put_first (\<lambda>i. int_id i = int_id next) next interactions))"

end
