(* ===== verification/Snapshot_Validation.thy ===== *)
theory Snapshot_Validation
  imports State_Validation
begin

text \<open>
  \<open>validateState\<close> and \<open>validateSessionSnapshot\<close> of src/src/contract/state-validation.ts,
  with \<open>assertProtocolAdmission\<close> of common.ts.  The body of each \<open>for\<close> loop of
  \<open>validateState\<close> is a definition of its own (\<open>assert_run\<close>, \<open>assert_item\<close>,
  \<open>assert_interaction\<close>), in the order of the code.  The byte length of a value's JSON
  encoding is a parameter of the admission check.
\<close>

section \<open>Admission limits\<close>

record admission_limits =
  adm_maxBytes :: rat
  adm_maxInlineBytes :: rat

definition ends_with :: "string \<Rightarrow> string \<Rightarrow> bool" where
  "ends_with s suffix \<longleftrightarrow> length suffix \<le> length s \<and> drop (length s - length suffix) s = suffix"

definition inline_blob_size :: "string \<Rightarrow> int" where
  "inline_blob_size data =
     int (length data * 3 div 4)
       - (if ends_with data ''=='' then 2 else if ends_with data ''='' then 1 else 0)"

fun assert_inline_block :: "rat \<Rightarrow> content_block \<Rightarrow> contract_error + unit" where
  "assert_inline_block maxInlineBytes (InlineBlobContent _ data _ _) =
     (if of_int (inline_blob_size data) > maxInlineBytes then Inl RangeError else Inr ())"
| "assert_inline_block _ _ = Inr ()"

definition assertProtocolAdmission ::
    "nat \<Rightarrow> admission_limits \<Rightarrow> content_block list \<Rightarrow> contract_error + unit" where
  "assertProtocolAdmission encoded_bytes limits content =
     (if \<not> is_safe_integer (adm_maxBytes limits) \<or> \<not> is_safe_integer (adm_maxInlineBytes limits)
         \<or> adm_maxBytes limits < 1 \<or> adm_maxInlineBytes limits < 1
      then Inl RangeError
      else if of_nat encoded_bytes > adm_maxBytes limits then Inl RangeError
      else each (assert_inline_block (adm_maxInlineBytes limits)) content)"

section \<open>One Run\<close>

definition assert_parent_run :: "snapshot \<Rightarrow> run \<Rightarrow> string \<Rightarrow> contract_error + unit" where
  "assert_parent_run s r parentRunId =
     bindE (invariant Unsupported (has_capability (snap_session s) ''run.child'')) (\<lambda>_.
       case map_get run_id (snap_runs s) parentRunId of
         None \<Rightarrow> Inl (ContractInvariantError InvalidReference)
       | Some parent \<Rightarrow>
           checks
             [assertNotBefore (Some (run_startedAt r)) (run_startedAt parent),
              invariant InvalidTransition (run_status r \<noteq> Active \<or> run_status parent = Active),
              if isTerminalRun r \<and> isTerminalRun parent
              then assertNotBeforeEnd (run_endedAt parent) (run_endedAt r) else Inr ()])"

definition assert_run :: "snapshot \<Rightarrow> run \<Rightarrow> contract_error + unit" where
  "assert_run s r =
     checks
       [assertNotBefore (Some (run_startedAt r)) (ses_createdAt (snap_session s)),
        assertNotAfter (Some (run_startedAt r)) (snap_capturedAt s),
        assertNotBefore (run_endedAt r) (run_startedAt r),
        assertNotAfter (run_endedAt r) (snap_capturedAt s),
        invariant InvalidTransition (run_origin r \<noteq> OriginUser \<or> run_input r \<noteq> []),
        invariant Unsupported
          (run_origin r \<noteq> OriginAgent \<or> has_capability (snap_session s) ''run.agent_initiated''),
        case run_parentRunId r of
          None \<Rightarrow> Inr () | Some parentRunId \<Rightarrow> assert_parent_run s r parentRunId,
        case run_retryOf r of
          None \<Rightarrow> Inr ()
        | Some retryOf \<Rightarrow> assertRetryTarget r (map_get run_id (snap_runs s) retryOf) False]"

section \<open>One Item\<close>

fun item_required_capability :: "item_body \<Rightarrow> string option" where
  "item_required_capability (ExtensionItem name _) = Some name"
| "item_required_capability (ArtifactItem _ _ _) = Some ''item.artifact''"
| "item_required_capability (ChangeItem _) = Some ''item.change''"
| "item_required_capability (PlanItem _ _) = Some ''item.plan''"
| "item_required_capability (ReasoningItem _) = Some ''item.reasoning''"
| "item_required_capability (TerminalItem _) = Some ''item.terminal''"
| "item_required_capability (MessageItem _ _ _) = None"
| "item_required_capability (ToolItem _) = None"

definition items_by_id :: "snapshot \<Rightarrow> string \<Rightarrow> item option" where
  "items_by_id s = map_get (\<lambda>it. itemKey (item_runId it) (item_id it)) (snap_items s)"

definition assert_item_body :: "snapshot \<Rightarrow> item \<Rightarrow> contract_error + unit" where
  "assert_item_body s it =
     (case item_body it of
        MessageItem role phase _ \<Rightarrow> invariant InvalidTransition (role = RoleAgent \<or> phase = None)
      | PlanItem entries _ \<Rightarrow>
          assertUnique
            (concat (map (\<lambda>e. case entry_id e of None \<Rightarrow> [] | Some i \<Rightarrow> [i]) entries))
      | ToolItem t \<Rightarrow>
          (case tool_terminalItemId t of
             None \<Rightarrow> Inr ()
           | Some terminalItemId \<Rightarrow>
               invariant InvalidReference
                 (case items_by_id s (itemKey (item_runId it) terminalItemId) of
                    Some target \<Rightarrow> item_kind target = KindTerminal
                  | None \<Rightarrow> False))
      | _ \<Rightarrow> Inr ())"

definition assert_item :: "snapshot \<Rightarrow> item \<Rightarrow> contract_error + unit" where
  "assert_item s it =
     bindE (checks
       [assertNotBefore (Some (item_updatedAt it)) (item_createdAt it),
        assertNotBefore (item_endedAt it) (item_createdAt it),
        assertNotAfter (Some (item_createdAt it)) (snap_capturedAt s),
        assertNotAfter (Some (item_updatedAt it)) (snap_capturedAt s),
        assertNotAfter (item_endedAt it) (snap_capturedAt s)]) (\<lambda>_.
     case map_get run_id (snap_runs s) (item_runId it) of
       None \<Rightarrow> Inl (ContractInvariantError InvalidReference)
     | Some r \<Rightarrow>
         checks
           [assertNotBefore (Some (item_createdAt it)) (run_startedAt r),
            invariant InvalidTransition (item_status it \<noteq> Active \<or> run_status r = Active),
            if isTerminalRun r
            then checks [assertNotBefore (run_endedAt r) (item_updatedAt it),
                         assertNotBeforeEnd (run_endedAt r) (item_endedAt it)]
            else Inr (),
            invariant Unsupported
              (opt_all (has_capability (snap_session s))
                (item_required_capability (item_body it))),
            assert_item_body s it])"

section \<open>One Interaction\<close>

fun interaction_required_capability :: "interaction_body \<Rightarrow> string" where
  "interaction_required_capability (ExtensionInteraction name _ _) = name"
| "interaction_required_capability (PermissionInteraction _ _) = ''interaction.permission''"
| "interaction_required_capability (InputInteraction _ _) = ''interaction.input''"
| "interaction_required_capability (ToolInteraction _ _ _) = ''interaction.tool''"

definition assertAfter :: "timestamp \<Rightarrow> timestamp \<Rightarrow> contract_error + unit" where
  "assertAfter value lowerBound =
     bindE (compareTimestamps value lowerBound) (\<lambda>c. invariant InvalidTransition (0 < c))"

definition assert_interaction_references :: "snapshot \<Rightarrow> interaction \<Rightarrow> contract_error + unit" where
  "assert_interaction_references s i =
     checks
       [case int_itemId i of
          None \<Rightarrow> Inr ()
        | Some itemId \<Rightarrow>
            invariant InvalidReference (items_by_id s (itemKey (int_runId i) itemId) \<noteq> None),
        case int_body i of
          PermissionInteraction request _ \<Rightarrow>
            (case preq_subject request of
               SubjectItem itemId \<Rightarrow>
                 invariant InvalidReference (items_by_id s (itemKey (int_runId i) itemId) \<noteq> None)
             | SubjectExtension name _ \<Rightarrow>
                 invariant Unsupported (has_capability (snap_session s) name)
             | SubjectResource _ _ \<Rightarrow> Inr ())
        | _ \<Rightarrow> Inr ()]"

definition assert_interaction :: "snapshot \<Rightarrow> interaction \<Rightarrow> contract_error + unit" where
  "assert_interaction s i =
     bindE (checks
       [assertInteractionContent i,
        invariant Unsupported
          (has_capability (snap_session s) (interaction_required_capability (int_body i))),
        assertAfter (int_expiresAt i) (int_createdAt i),
        if int_status i = InteractionOpen
        then assertAfter (int_expiresAt i) (snap_capturedAt s) else Inr (),
        assertNotBefore (int_endedAt i) (int_createdAt i),
        assertNotAfter (Some (int_createdAt i)) (snap_capturedAt s),
        assertNotAfter (int_endedAt i) (snap_capturedAt s),
        if int_status i = InteractionResolved
        then (case int_endedAt i of
                None \<Rightarrow> Inl (ContractInvariantError InvalidTransition)
              | Some endedAt \<Rightarrow>
                  bindE (compareTimestamps endedAt (int_expiresAt i)) (\<lambda>c.
                    invariant InvalidTransition (c < 0)))
        else Inr ()]) (\<lambda>_.
     case map_get run_id (snap_runs s) (int_runId i) of
       None \<Rightarrow> Inl (ContractInvariantError InvalidReference)
     | Some r \<Rightarrow>
         checks
           [assertNotBefore (Some (int_createdAt i)) (run_startedAt r),
            invariant InvalidTransition (int_status i \<noteq> InteractionOpen \<or> run_status r = Active),
            if isTerminalRun r
            then assertNotBefore (run_endedAt r)
                   (case int_endedAt i of Some e \<Rightarrow> e | None \<Rightarrow> int_createdAt i)
            else Inr (),
            assert_interaction_references s i])"

section \<open>The whole snapshot\<close>

definition assert_session_times :: "snapshot \<Rightarrow> contract_error + unit" where
  "assert_session_times s =
     (let session = snap_session s in
      checks
        [assertNotBefore (Some (ses_updatedAt session)) (ses_createdAt session),
         assertNotBefore (ses_closedAt session) (ses_createdAt session),
         assertNotBefore (ses_closedAt session) (ses_updatedAt session),
         assertNotAfter (Some (ses_createdAt session)) (snap_capturedAt s),
         assertNotAfter (Some (ses_updatedAt session)) (snap_capturedAt s),
         assertNotAfter (ses_closedAt session) (snap_capturedAt s),
         invariant InvalidTransition
           ((ses_status session = SessionClosed) = (ses_closedAt session \<noteq> None)),
         invariant InvalidReference
           (map_option fst (ses_parent session) \<noteq> Some (ses_id session))])"

definition assert_content :: "snapshot \<Rightarrow> contract_error + unit" where
  "assert_content s =
     (let content = stateContent (snap_runs s) (snap_items s) (snap_interactions s) in
      checks
        [invariant Unsupported
           (\<not> hasBlobRef content \<or> has_capability (snap_session s) ''blob''),
         each (\<lambda>name. invariant Unsupported (has_capability (snap_session s) name))
           (contentExtensionNames content)])"

definition is_active_top_level :: "run \<Rightarrow> bool" where
  "is_active_top_level r \<longleftrightarrow> run_status r = Active \<and> run_parentRunId r = None"

definition assert_closed_session :: "snapshot \<Rightarrow> contract_error + unit" where
  "assert_closed_session s =
     bindE (invariant InvalidTransition
       (list_all isTerminalRun (snap_runs s) \<and> list_all isTerminalInteraction (snap_interactions s)))
     (\<lambda>_. case ses_closedAt (snap_session s) of
        None \<Rightarrow> Inl (ContractInvariantError InvalidTransition)
      | Some closedAt \<Rightarrow>
          checks
            [each (\<lambda>r. if isTerminalRun r then assertNotBeforeEnd (Some closedAt) (run_endedAt r)
                       else Inr ()) (snap_runs s),
             each (\<lambda>it. assertNotBefore (Some closedAt)
                      (case item_endedAt it of Some e \<Rightarrow> e | None \<Rightarrow> item_updatedAt it))
               (snap_items s),
             each (\<lambda>i. if isTerminalInteraction i
                       then assertNotBeforeEnd (Some closedAt) (int_endedAt i) else Inr ())
               (snap_interactions s)])"

definition validateState :: "snapshot \<Rightarrow> contract_error + unit" where
  "validateState s =
     checks
       [assertConfig (snap_session s),
        assert_session_times s,
        assertUnique (map run_id (snap_runs s)),
        assertUnique (map (\<lambda>it. itemKey (item_runId it) (item_id it)) (snap_items s)),
        assertUnique (map int_id (snap_interactions s)),
        assert_content s,
        invariant InvalidTransition (length (filter is_active_top_level (snap_runs s)) \<le> 1),
        each (assert_run s) (snap_runs s),
        assertAcyclicRunRelation (snap_runs s) run_parentRunId,
        assertAcyclicRunRelation (snap_runs s) run_retryOf,
        each (assert_item s) (snap_items s),
        each (assert_interaction s) (snap_interactions s),
        if ses_status (snap_session s) = SessionClosed then assert_closed_session s else Inr ()]"

definition validateSessionSnapshot ::
    "(snapshot \<Rightarrow> nat) \<Rightarrow> snapshot \<Rightarrow> admission_limits option \<Rightarrow> contract_error + snapshot" where
  "validateSessionSnapshot jsonByteLength value admissionLimits =
     (if \<not> snapshot_schema value then Inl ZodError
      else bindE
        (case admissionLimits of
           None \<Rightarrow> Inr ()
         | Some limits \<Rightarrow>
             assertProtocolAdmission (jsonByteLength value) limits
               (stateContent (snap_runs value) (snap_items value) (snap_interactions value)))
        (\<lambda>_. bindE (validateState value) (\<lambda>_. Inr value)))"

section \<open>When the assertions succeed\<close>

lemma invariant_ok [simp, ok_iff]: "invariant code b = Inr u \<longleftrightarrow> b"
  by (simp add: invariant_def)

lemma assertUnique_ok [simp, ok_iff]: "assertUnique xs = Inr u \<longleftrightarrow> distinct xs"
  by (simp add: assertUnique_def)

lemma assertStatusTransition_ok [simp, ok_iff]:
  "assertStatusTransition p n t = Inr u \<longleftrightarrow> n \<in> set (t p)"
  by (simp add: assertStatusTransition_def)

text \<open>Order of instants, as the assertions see it.\<close>

definition at_most :: "timestamp \<Rightarrow> timestamp \<Rightarrow> bool" where
  "at_most a b \<longleftrightarrow> (\<exists>c. compareTimestamps a b = Inr c \<and> c \<le> 0)"

definition at_least :: "timestamp \<Rightarrow> timestamp \<Rightarrow> bool" where
  "at_least a b \<longleftrightarrow> (\<exists>c. compareTimestamps a b = Inr c \<and> 0 \<le> c)"

lemma assertNotBefore_ok [simp, ok_iff]:
  "assertNotBefore v lo = Inr u \<longleftrightarrow> (\<forall>x. v = Some x \<longrightarrow> at_least x lo)"
  by (cases v) (auto simp: assertNotBefore_def at_least_def)

lemma assertNotAfter_ok [simp, ok_iff]:
  "assertNotAfter v hi = Inr u \<longleftrightarrow> (\<forall>x. v = Some x \<longrightarrow> at_most x hi)"
  by (cases v) (auto simp: assertNotAfter_def at_most_def)

lemma assertNotBeforeEnd_ok [simp, ok_iff]:
  "assertNotBeforeEnd v e = Inr u \<longleftrightarrow> (\<forall>x y. v = Some x \<longrightarrow> e = Some y \<longrightarrow> at_least x y)"
  by (cases e) (auto simp: assertNotBeforeEnd_def)

lemma assertRetryTarget_ok [ok_iff]:
  "assertRetryTarget r p required = Inr u \<longleftrightarrow>
     (required \<longrightarrow> p \<noteq> None)
     \<and> (\<forall>q. p = Some q \<longrightarrow> isTerminalRun q
          \<and> (\<forall>e. run_endedAt q = Some e \<longrightarrow> at_least (run_startedAt r) e))"
  by (cases p) (auto simp: assertRetryTarget_def)

lemma validateState_ok:
  "validateState s = Inr u \<longleftrightarrow>
     assertConfig (snap_session s) = Inr ()
     \<and> assert_session_times s = Inr ()
     \<and> distinct (map run_id (snap_runs s))
     \<and> distinct (map (\<lambda>it. itemKey (item_runId it) (item_id it)) (snap_items s))
     \<and> distinct (map int_id (snap_interactions s))
     \<and> assert_content s = Inr ()
     \<and> length (filter is_active_top_level (snap_runs s)) \<le> 1
     \<and> (\<forall>r\<in>set (snap_runs s). assert_run s r = Inr ())
     \<and> assertAcyclicRunRelation (snap_runs s) run_parentRunId = Inr ()
     \<and> assertAcyclicRunRelation (snap_runs s) run_retryOf = Inr ()
     \<and> (\<forall>it\<in>set (snap_items s). assert_item s it = Inr ())
     \<and> (\<forall>i\<in>set (snap_interactions s). assert_interaction s i = Inr ())
     \<and> (ses_status (snap_session s) = SessionClosed \<longrightarrow> assert_closed_session s = Inr ())"
  by (simp add: validateState_def)

lemma validateSessionSnapshot_ok:
  "validateSessionSnapshot jbl s limits = Inr t \<Longrightarrow>
     t = s \<and> snapshot_schema s \<and> validateState s = Inr ()"
  by (auto simp: validateSessionSnapshot_def split: if_splits)

end
