(* ===== verification/Run_Relations.thy ===== *)
theory Run_Relations
  imports Snapshot_Validation
begin

text \<open>
  Correctness of \<open>assertAcyclicRunRelation\<close>: the loop with its completed and visiting
  sets accepts a list of Runs exactly when the relation, restricted to the Runs of the
  list, has no cycle.
\<close>

section \<open>The relation between the Runs of a snapshot\<close>

definition run_edges :: "run list \<Rightarrow> (run \<Rightarrow> string option) \<Rightarrow> (string \<times> string) set" where
  "run_edges runs relation =
     {(run_id r, p) | r p. r \<in> set runs \<and> relation r = Some p \<and> p \<in> run_id ` set runs}"

definition next_run :: "run list \<Rightarrow> (run \<Rightarrow> string option) \<Rightarrow> run \<Rightarrow> run option" where
  "next_run runs relation r =
     (case relation r of None \<Rightarrow> None | Some nextId \<Rightarrow> map_get run_id runs nextId)"

abbreviation ends :: "run list \<Rightarrow> (run \<Rightarrow> string option) \<Rightarrow> run \<Rightarrow> bool" where
  "ends runs relation \<equiv> Wellfounded.accp (\<lambda>q r. next_run runs relation r = Some q)"

lemma next_run_mem: "next_run runs relation r = Some q \<Longrightarrow> q \<in> set runs"
  by (auto simp: next_run_def split: option.splits dest: map_get_Some_D)

lemma next_run_edge:
  "r \<in> set runs \<Longrightarrow> next_run runs relation r = Some q \<Longrightarrow> (run_id r, run_id q) \<in> run_edges runs relation"
  unfolding next_run_def run_edges_def
  by (force split: option.splits dest: map_get_Some_D)

lemma edge_next_run:
  assumes "distinct (map run_id runs)" "r \<in> set runs" "(run_id r, y) \<in> run_edges runs relation"
  shows "\<exists>q. next_run runs relation r = Some q \<and> run_id q = y"
proof -
  obtain r' where r': "r' \<in> set runs" "run_id r' = run_id r" "relation r' = Some y"
    "y \<in> run_id ` set runs"
    using assms(3) by (auto simp: run_edges_def)
  then have "r' = r" using assms(1,2) by (metis distinct_map inj_onD)
  moreover obtain q where "map_get run_id runs y = Some q"
    using r'(4) map_get_None_iff [of run_id runs y] by (cases "map_get run_id runs y") auto
  ultimately show ?thesis using r' map_get_Some_D by (fastforce simp: next_run_def)
qed

lemma run_edges_source: "(x, y) \<in> run_edges runs relation \<Longrightarrow> \<exists>r\<in>set runs. run_id r = x"
  by (auto simp: run_edges_def)

section \<open>The inner loop\<close>

lemma walk_chain_None [simp]: "walk_chain relation runs completed visiting None = Inr visiting"
  by (simp add: walk_chain.simps)

lemma walk_chain_Some:
  "walk_chain relation runs completed visiting (Some r) =
     (if run_id r \<in> set completed then Inr visiting
      else if run_id r \<in> set visiting then Inl (ContractInvariantError InvalidTransition)
      else walk_chain relation runs completed (run_id r # visiting) (next_run runs relation r))"
  by (subst walk_chain.simps) (simp add: next_run_def)

text \<open>
  A path that the loop accepts consists of Runs whose chains end, provided the
  completed ones do.
\<close>

definition all_end :: "run list \<Rightarrow> (run \<Rightarrow> string option) \<Rightarrow> string set \<Rightarrow> bool" where
  "all_end runs relation ids \<longleftrightarrow> (\<forall>q\<in>set runs. run_id q \<in> ids \<longrightarrow> ends runs relation q)"

lemma walk_chain_accepts:
  assumes "walk_chain relation runs completed visiting current = Inr path"
    and "distinct (map run_id runs)" "all_end runs relation (set completed)"
    and "\<And>r. current = Some r \<Longrightarrow> r \<in> set runs"
  shows "set visiting \<subseteq> set path \<and> all_end runs relation (set path - set visiting)
    \<and> (\<forall>r. current = Some r \<longrightarrow> ends runs relation r \<and> run_id r \<in> set path \<union> set completed)"
  using assms
proof (induction relation runs completed visiting current rule: walk_chain.induct)
  case (1 relation runs completed visiting current)
  show ?case
  proof (cases current)
    case None
    with "1.prems" show ?thesis by (simp add: all_end_def)
  next
    case (Some r)
    have r: "r \<in> set runs" using "1.prems"(4) Some by simp
    show ?thesis
    proof (cases "run_id r \<in> set completed")
      case True
      with "1.prems" Some r show ?thesis by (auto simp: walk_chain_Some all_end_def)
    next
      case False
      with "1.prems"(1) Some have fresh: "run_id r \<notin> set visiting"
        and rest: "walk_chain relation runs completed (run_id r # visiting)
          (next_run runs relation r) = Inr path"
        by (auto simp: walk_chain_Some split: if_splits)
      have IH: "set (run_id r # visiting) \<subseteq> set path
          \<and> all_end runs relation (set path - set (run_id r # visiting))
          \<and> (\<forall>q. next_run runs relation r = Some q \<longrightarrow> ends runs relation q
              \<and> run_id q \<in> set path \<union> set completed)"
        using "1.IH" [OF Some False fresh, folded next_run_def, OF rest "1.prems"(2,3)]
          next_run_mem by blast
      then have ends: "ends runs relation r" by (auto intro: accp.accI)
      have "ends runs relation q" if "q \<in> set runs" "run_id q = run_id r" for q
      proof -
        have "q = r" using that r "1.prems"(2) by (metis distinct_map inj_onD)
        with ends show ?thesis by simp
      qed
      with IH ends Some show ?thesis by (auto simp: all_end_def)
    qed
  qed
qed

text \<open>A path that the loop refuses closes a cycle.\<close>

lemma walk_chain_refuses:
  assumes "walk_chain relation runs completed visiting current = Inl e"
    and "\<And>r. current = Some r \<Longrightarrow> r \<in> set runs"
    and "\<And>r v. current = Some r \<Longrightarrow> v \<in> set visiting \<Longrightarrow> (v, run_id r) \<in> (run_edges runs relation)\<^sup>+"
  shows "e = ContractInvariantError InvalidTransition \<and> \<not> acyclic (run_edges runs relation)"
  using assms
proof (induction relation runs completed visiting current rule: walk_chain.induct)
  case (1 relation runs completed visiting current)
  then obtain r where Some: "current = Some r" by (cases current) auto
  have r: "r \<in> set runs" using "1.prems"(2) Some by simp
  have notC: "run_id r \<notin> set completed" using "1.prems"(1) Some by (auto simp: walk_chain_Some)
  show ?case
  proof (cases "run_id r \<in> set visiting")
    case True
    with "1.prems" Some notC show ?thesis by (auto simp: walk_chain_Some acyclic_def)
  next
    case False
    with "1.prems"(1) Some notC have rest: "walk_chain relation runs completed
        (run_id r # visiting) (next_run runs relation r) = Inl e"
      by (simp add: walk_chain_Some)
    have edge: "(v, run_id q) \<in> (run_edges runs relation)\<^sup>+"
      if "next_run runs relation r = Some q" "v \<in> set (run_id r # visiting)" for q v
      using that next_run_edge [OF r that(1)] "1.prems"(3) [OF Some]
      by (auto intro: trancl_into_trancl)
    show ?thesis
      by (rule "1.IH" [OF Some notC False, folded next_run_def, OF rest]) (use next_run_mem edge in auto)
  qed
qed

section \<open>The outer loop\<close>

definition relation_pass ::
    "(run \<Rightarrow> string option) \<Rightarrow> run list \<Rightarrow> string list \<Rightarrow> run \<Rightarrow> contract_error + string list" where
  "relation_pass relation runs completed rt =
     (if run_id rt \<in> set completed then Inr completed
      else bindE (walk_chain relation runs completed [] (Some rt)) (\<lambda>path. Inr (path @ completed)))"

lemma relation_pass_accepts:
  assumes "relation_pass relation runs completed rt = Inr completed'"
    and "distinct (map run_id runs)" "all_end runs relation (set completed)" "rt \<in> set runs"
  shows "all_end runs relation (set completed') \<and> insert (run_id rt) (set completed) \<subseteq> set completed'"
proof (cases "run_id rt \<in> set completed")
  case True
  with assms show ?thesis by (auto simp: relation_pass_def)
next
  case False
  then obtain path where path: "walk_chain relation runs completed [] (Some rt) = Inr path"
    and c': "completed' = path @ completed"
    using assms(1) by (auto simp: relation_pass_def)
  from walk_chain_accepts [OF path assms(2,3)] assms(4)
  have "all_end runs relation (set path)" "run_id rt \<in> set path \<union> set completed" by auto
  with assms(3) c' show ?thesis by (auto simp: all_end_def)
qed

lemma relation_pass_refuses:
  "relation_pass relation runs completed rt = Inl e \<Longrightarrow> rt \<in> set runs \<Longrightarrow>
     e = ContractInvariantError InvalidTransition \<and> \<not> acyclic (run_edges runs relation)"
  unfolding relation_pass_def
  by (auto simp: bindE_Inl_iff split: if_splits dest!: walk_chain_refuses)

lemma relation_passes_accept:
  assumes "foldE (relation_pass relation runs) completed rts = Inr completed'"
    and "distinct (map run_id runs)" "all_end runs relation (set completed)" "set rts \<subseteq> set runs"
  shows "all_end runs relation (set completed') \<and> run_id ` set rts \<union> set completed \<subseteq> set completed'"
  using assms
proof (induction rts arbitrary: completed)
  case (Cons rt rts)
  then obtain c where c: "relation_pass relation runs completed rt = Inr c"
    and rest: "foldE (relation_pass relation runs) c rts = Inr completed'" by auto
  note step = relation_pass_accepts [OF c Cons.prems(2,3)]
  have "all_end runs relation (set c)" using step Cons.prems(4) by simp
  from Cons.IH [OF rest Cons.prems(2) this] step Cons.prems(4) show ?case by auto
qed simp

lemma relation_passes_refuse:
  assumes "foldE (relation_pass relation runs) completed rts = Inl e" "set rts \<subseteq> set runs"
  shows "e = ContractInvariantError InvalidTransition \<and> \<not> acyclic (run_edges runs relation)"
  using assms
proof (induction rts arbitrary: completed)
  case (Cons rt rts)
  from Cons.prems(1) consider "relation_pass relation runs completed rt = Inl e"
    | c where "foldE (relation_pass relation runs) c rts = Inl e"
    by (auto simp: bindE_Inl_iff)
  then show ?case using Cons relation_pass_refuses by cases auto
qed simp

lemma assertAcyclicRunRelation_passes:
  "assertAcyclicRunRelation runs relation =
     bindE (foldE (relation_pass relation runs) [] runs) (\<lambda>_. Inr ())"
  unfolding assertAcyclicRunRelation_def relation_pass_def by (rule refl)

section \<open>The check decides acyclicity\<close>

lemma ends_no_cycle:
  assumes "ends runs relation r" "distinct (map run_id runs)" "r \<in> set runs"
  shows "(run_id r, run_id r) \<notin> (run_edges runs relation)\<^sup>+"
  using assms
proof (induction rule: accp.induct)
  case (accI r)
  show ?case
  proof
    assume "(run_id r, run_id r) \<in> (run_edges runs relation)\<^sup>+"
    then obtain y where y: "(run_id r, y) \<in> run_edges runs relation"
      and tail: "(y, run_id r) \<in> (run_edges runs relation)\<^sup>*"
      by (meson tranclD)
    then obtain q where q: "next_run runs relation r = Some q" "run_id q = y"
      using edge_next_run accI.prems by blast
    have "(run_id q, run_id q) \<in> (run_edges runs relation)\<^sup>+"
      using y tail q(2) by (metis rtrancl_into_trancl1)
    then show False using accI.IH [OF q(1) accI.prems(1) next_run_mem [OF q(1)]] by simp
  qed
qed

lemma assertAcyclicRunRelation_iff:
  assumes "distinct (map run_id runs)"
  shows "assertAcyclicRunRelation runs relation = Inr () \<longleftrightarrow> acyclic (run_edges runs relation)"
proof (cases "foldE (relation_pass relation runs) [] runs")
  case (Inl e)
  then show ?thesis
    using relation_passes_refuse by (fastforce simp: assertAcyclicRunRelation_passes)
next
  case (Inr completed)
  have "all_end runs relation (set ([] :: string list))" by (simp add: all_end_def)
  from relation_passes_accept [OF Inr assms this]
  have all: "\<forall>r\<in>set runs. ends runs relation r" by (auto simp: all_end_def)
  have "acyclic (run_edges runs relation)"
    unfolding acyclic_def
  proof (intro allI notI)
    fix x assume x: "(x, x) \<in> (run_edges runs relation)\<^sup>+"
    then obtain y where "(x, y) \<in> run_edges runs relation" by (meson tranclD)
    then obtain r where "r \<in> set runs" "run_id r = x" using run_edges_source by blast
    with x all assms ends_no_cycle show False by blast
  qed
  with Inr show ?thesis by (simp add: assertAcyclicRunRelation_passes)
qed

lemma assertAcyclicRunRelation_error:
  "assertAcyclicRunRelation runs relation = Inl e \<Longrightarrow> e = ContractInvariantError InvalidTransition"
  using relation_passes_refuse by (fastforce simp: assertAcyclicRunRelation_passes bindE_Inl_iff)

end
