(* ===== verification/Reducer.thy ===== *)
theory Reducer
  imports Snapshot_Validation
begin

text \<open>
  src/src/contract/mutation.ts, sync.ts and reducer.ts: Mutations of the authority, the
  synchronisation payloads, and the reducer that applies them to a snapshot
  (\<open>applyMutation\<close>, \<open>applyCommittedMutation\<close>, \<open>applySyncPayload\<close>), with
  \<open>deriveSessionActivity\<close>.  The local variables of \<open>applyMutation\<close> that its loop
  updates are the record \<open>draft\<close>; one iteration of the loop is \<open>apply_operation\<close>.
\<close>

section \<open>mutation.ts\<close>

datatype remove_reason = RemoveCompacted | RemoveExpired | RemoveRedacted

datatype authority_operation =
    PutSession session
  | PutRun run
  | PutItem item
  | PutInteraction interaction
  | RemoveRun string remove_reason

datatype mutation_cause =
    CauseCommand string
  | CauseProvider "string option"
  | CauseAlarm string
  | CauseSystem string

record proposed_mutation =
  mut_mutationId :: string
  mut_sessionId :: string
  mut_baseRevision :: nat
  mut_cause :: mutation_cause
  mut_operations :: "authority_operation list"
  mut_extensions :: "json_object option"

record committed_mutation = proposed_mutation +
  mut_revision :: nat
  mut_committedAt :: timestamp

fun operation_schema :: "authority_operation \<Rightarrow> bool" where
  "operation_schema (PutSession s) = session_schema s"
| "operation_schema (PutRun r) = run_schema r"
| "operation_schema (PutItem it) = item_schema it"
| "operation_schema (PutInteraction i) = interaction_schema i"
| "operation_schema (RemoveRun i _) = protocol_id_schema i"

fun mutation_cause_schema :: "mutation_cause \<Rightarrow> bool" where
  "mutation_cause_schema (CauseCommand c) = protocol_id_schema c"
| "mutation_cause_schema (CauseProvider e) = opt_all opaque_id_schema e"
| "mutation_cause_schema (CauseAlarm a) = bounded_text 128 a"
| "mutation_cause_schema (CauseSystem n) = bounded_text 128 n"

definition proposed_mutation_schema :: "('a) proposed_mutation_scheme \<Rightarrow> bool" where
  "proposed_mutation_schema m \<longleftrightarrow>
     protocol_id_schema (mut_mutationId m) \<and> protocol_id_schema (mut_sessionId m)
     \<and> safe_nat (mut_baseRevision m) \<and> mutation_cause_schema (mut_cause m)
     \<and> mut_operations m \<noteq> [] \<and> list_all operation_schema (mut_operations m)
     \<and> opt_all extensions_schema (mut_extensions m)"

definition committed_mutation_schema :: "committed_mutation \<Rightarrow> bool" where
  "committed_mutation_schema m \<longleftrightarrow> proposed_mutation_schema m \<and> safe_nat (mut_revision m)"

fun operationContent :: "authority_operation \<Rightarrow> content_block list" where
  "operationContent (RemoveRun _ _) = []"
| "operationContent (PutRun r) = run_input r"
| "operationContent (PutItem it) = itemContent it"
| "operationContent (PutInteraction i) = interactionContent i"
| "operationContent (PutSession _) = []"

definition authorityContent :: "authority_operation list \<Rightarrow> content_block list" where
  "authorityContent operations = concat (map operationContent operations)"

section \<open>applyMutation\<close>

fun is_remove :: "authority_operation \<Rightarrow> bool" where
  "is_remove (RemoveRun _ _) = True"
| "is_remove _ = False"

fun operation_key :: "authority_operation \<Rightarrow> string" where
  "operation_key (RemoveRun i _) = ''run:'' @ i"
| "operation_key (PutSession s) = ''session:'' @ ses_id s"
| "operation_key (PutRun r) = ''run:'' @ run_id r"
| "operation_key (PutItem it) = ''item:'' @ itemKey (item_runId it) (item_id it)"
| "operation_key (PutInteraction i) = ''interaction:'' @ int_id i"

fun new_run_of :: "string list \<Rightarrow> authority_operation \<Rightarrow> run list" where
  "new_run_of existingRunIds (PutRun r) = (if run_id r \<in> set existingRunIds then [] else [r])"
| "new_run_of _ _ = []"

definition new_runs :: "snapshot \<Rightarrow> authority_operation list \<Rightarrow> run list" where
  "new_runs current operations =
     concat (map (new_run_of (map run_id (snap_runs current))) operations)"

definition writable_run_ids :: "snapshot \<Rightarrow> authority_operation list \<Rightarrow> string list" where
  "writable_run_ids current operations =
     map run_id (filter (\<lambda>r. run_status r = Active) (snap_runs current))
       @ map run_id (new_runs current operations)"

fun assert_item_writable :: "string list \<Rightarrow> authority_operation \<Rightarrow> contract_error + unit" where
  "assert_item_writable writableRunIds (PutItem it) =
     invariant InvalidTransition (item_runId it \<in> set writableRunIds)"
| "assert_item_writable _ _ = Inr ()"

text \<open>
  The nested loop that collects the descendants of a removed Run: passes over the Runs
  until a pass adds nothing.
\<close>

definition removal_pass :: "run list \<Rightarrow> string list \<Rightarrow> string list" where
  "removal_pass runs removed =
     foldl (\<lambda>rm r. case run_parentRunId r of
              Some p \<Rightarrow> if p \<in> set rm \<and> run_id r \<notin> set rm then rm @ [run_id r] else rm
            | None \<Rightarrow> rm) removed runs"

lemma removal_pass_extends:
  "\<exists>added. removal_pass runs removed = removed @ added
     \<and> set added \<subseteq> run_id ` set runs - set removed \<and> distinct added"
proof (induction runs arbitrary: removed)
  case (Cons r runs)
  let ?rm = "case run_parentRunId r of
      Some p \<Rightarrow> if p \<in> set removed \<and> run_id r \<notin> set removed then removed @ [run_id r] else removed
    | None \<Rightarrow> removed"
  obtain added where a: "removal_pass runs ?rm = ?rm @ added"
    "set added \<subseteq> run_id ` set runs - set ?rm" "distinct added" using Cons.IH by blast
  have "removal_pass (r # runs) removed = removal_pass runs ?rm"
    by (simp add: removal_pass_def)
  moreover have "?rm = removed \<or> ?rm = removed @ [run_id r] \<and> run_id r \<notin> set removed"
    by (auto split: option.splits)
  ultimately show ?case using a by (elim disjE) auto
qed (simp add: removal_pass_def)

function close_removed :: "run list \<Rightarrow> string list \<Rightarrow> string list" where
  "close_removed runs removed =
     (let removed' = removal_pass runs removed
      in if removed' = removed then removed else close_removed runs removed')"
  by pat_completeness auto
termination
proof (relation "measure (\<lambda>(runs, removed). card (run_id ` set runs - set removed))", goal_cases)
  case (2 runs removed removed')
  obtain added where a: "removed' = removed @ added" "set added \<subseteq> run_id ` set runs - set removed"
    using removal_pass_extends 2(1) by blast
  with 2(2) have "added \<noteq> []" by auto
  then obtain x where "x \<in> set added" by (cases added) auto
  with a have "run_id ` set runs - set removed' \<subset> run_id ` set runs - set removed" by auto
  then show ?case by (simp add: psubset_card_mono)
qed simp

declare close_removed.simps [simp del]

record draft =
  dr_session :: session
  dr_runs :: "run list"
  dr_items :: "item list"
  dr_interactions :: "interaction list"

definition remove_run :: "draft \<Rightarrow> string \<Rightarrow> contract_error + draft" where
  "remove_run d i =
     (case find (\<lambda>r. run_id r = i) (dr_runs d) of
        None \<Rightarrow> Inl (ContractInvariantError InvalidReference)
      | Some rt \<Rightarrow>
          let removedRunIds = close_removed (dr_runs d) [run_id rt]
          in bindE (invariant InvalidTransition
               (list_all isTerminalRun (filter (\<lambda>r. run_id r \<in> set removedRunIds) (dr_runs d)))) (\<lambda>_.
             Inr (d\<lparr>dr_runs := filter (\<lambda>r. run_id r \<notin> set removedRunIds) (dr_runs d),
                    dr_items := filter (\<lambda>it. item_runId it \<notin> set removedRunIds) (dr_items d),
                    dr_interactions :=
                      filter (\<lambda>j. int_runId j \<notin> set removedRunIds) (dr_interactions d)\<rparr>)))"

fun apply_operation :: "draft \<Rightarrow> authority_operation \<Rightarrow> contract_error + draft" where
  "apply_operation d (PutSession s) =
     bindE (assertSessionTransition (dr_session d) s) (\<lambda>_. Inr (d\<lparr>dr_session := s\<rparr>))"
| "apply_operation d (PutRun r) =
     bindE (putRun (dr_runs d) r) (\<lambda>runs. Inr (d\<lparr>dr_runs := runs\<rparr>))"
| "apply_operation d (PutItem it) =
     bindE (putItem (dr_items d) it) (\<lambda>items. Inr (d\<lparr>dr_items := items\<rparr>))"
| "apply_operation d (PutInteraction i) =
     bindE (putInteraction (dr_interactions d) i) (\<lambda>is. Inr (d\<lparr>dr_interactions := is\<rparr>))"
| "apply_operation d (RemoveRun i _) = remove_run d i"

definition assert_new_retry :: "run list \<Rightarrow> run \<Rightarrow> contract_error + unit" where
  "assert_new_retry runs r =
     (case run_retryOf r of
        None \<Rightarrow> Inr ()
      | Some retryOf \<Rightarrow> assertRetryTarget r (find (\<lambda>c. run_id c = retryOf) runs) True)"

definition draft_of :: "snapshot \<Rightarrow> draft" where
  "draft_of s =
     \<lparr>dr_session = snap_session s, dr_runs = snap_runs s, dr_items = snap_items s,
      dr_interactions = snap_interactions s\<rparr>"

definition snapshot_of :: "committed_mutation \<Rightarrow> draft \<Rightarrow> snapshot" where
  "snapshot_of mutation d =
     \<lparr>snap_revision = mut_revision mutation, snap_capturedAt = mut_committedAt mutation,
      snap_session = dr_session d, snap_runs = dr_runs d, snap_items = dr_items d,
      snap_interactions = dr_interactions d\<rparr>"

definition assert_mutation :: "snapshot \<Rightarrow> committed_mutation \<Rightarrow> contract_error + unit" where
  "assert_mutation current mutation =
     (let operations = mut_operations mutation in
      checks
        [invariant RevisionGap
           (mut_baseRevision mutation = snap_revision current
            \<and> mut_revision mutation = snap_revision current + 1),
         assertNotBefore (Some (mut_committedAt mutation)) (snap_capturedAt current),
         invariant InvalidTransition
           (\<not> list_ex is_remove operations \<or> list_all is_remove operations),
         assertUnique (map operation_key operations),
         each (assert_item_writable (writable_run_ids current operations)) operations])"

definition applyMutation :: "snapshot \<Rightarrow> committed_mutation \<Rightarrow> contract_error + snapshot" where
  "applyMutation current mutation =
     bindE (invariant SessionMismatch (mut_sessionId mutation = ses_id (snap_session current))) (\<lambda>_.
     if mut_revision mutation \<le> snap_revision current then Inr current
     else
       bindE (assert_mutation current mutation) (\<lambda>_.
       bindE (foldE apply_operation (draft_of current) (mut_operations mutation)) (\<lambda>d.
       bindE (each (assert_new_retry (dr_runs d)) (new_runs current (mut_operations mutation))) (\<lambda>_.
       bindE (validateState (snapshot_of mutation d)) (\<lambda>_.
         Inr (snapshot_of mutation d))))))"

definition applyCommittedMutation ::
    "snapshot \<Rightarrow> committed_mutation \<Rightarrow> contract_error + snapshot" where
  "applyCommittedMutation currentValue mutationValue =
     bindE (validateSessionSnapshot (\<lambda>_. 0) currentValue None) (\<lambda>current.
       if committed_mutation_schema mutationValue then applyMutation current mutationValue
       else Inl ZodError)"

section \<open>sync.ts\<close>

datatype sync_payload =
    SnapshotSync (sync_snapshot: snapshot) (sync_minimumResumeRevision: nat)
  | MutationSync (sync_baseRevision: nat) (sync_throughRevision: nat)
      (sync_mutations: "committed_mutation list")

text \<open>
  The loop of \<open>mutationSyncSchema\<close> over the Mutations, with its running \<open>expected\<close>
  revision and the Session of the first Mutation.
\<close>

fun sync_chain :: "nat \<Rightarrow> string option \<Rightarrow> committed_mutation list \<Rightarrow> bool" where
  "sync_chain _ _ [] = True"
| "sync_chain expected sessionId (m # ms) =
     (let sid = (case sessionId of Some s \<Rightarrow> s | None \<Rightarrow> mut_sessionId m) in
      mut_baseRevision m + 1 = expected \<and> mut_revision m = expected \<and> mut_sessionId m = sid
      \<and> sync_chain (expected + 1) (Some sid) ms)"

fun sync_payload_schema :: "sync_payload \<Rightarrow> bool" where
  "sync_payload_schema (SnapshotSync s minimumResumeRevision) =
     (snapshot_schema s \<and> safe_nat minimumResumeRevision
      \<and> minimumResumeRevision \<le> snap_revision s)"
| "sync_payload_schema (MutationSync baseRevision throughRevision mutations) =
     (safe_nat baseRevision \<and> safe_nat throughRevision
      \<and> list_all committed_mutation_schema mutations
      \<and> sync_chain (baseRevision + 1) None mutations
      \<and> all_unique (map mut_mutationId mutations)
      \<and> throughRevision = baseRevision + length mutations)"

section \<open>applySyncPayload\<close>

record sync_limits =
  lim_maxInlineBytes :: rat
  lim_maxMutationBatchCount :: rat
  lim_maxMutationBytes :: rat
  lim_maxSnapshotBytes :: rat

definition sync_limits_ok :: "sync_limits \<Rightarrow> bool" where
  "sync_limits_ok l \<longleftrightarrow>
     list_all (\<lambda>v. is_safe_integer v \<and> 1 \<le> v)
       [lim_maxInlineBytes l, lim_maxMutationBatchCount l, lim_maxMutationBytes l,
        lim_maxSnapshotBytes l]"

text \<open>What the snapshot branch does with the validated \<open>next\<close>: it never goes back.\<close>

definition advance_to :: "snapshot option \<Rightarrow> snapshot \<Rightarrow> contract_error + snapshot" where
  "advance_to currentValue nxt =
     (case currentValue of
       None \<Rightarrow> Inr nxt
     | Some current \<Rightarrow>
         bindE (invariant SessionMismatch (ses_id (snap_session current) = ses_id (snap_session nxt)))
         (\<lambda>_. if snap_revision nxt < snap_revision current then Inr current
           else if snap_revision nxt = snap_revision current
           then bindE (compareTimestamps (snap_capturedAt nxt) (snap_capturedAt current)) (\<lambda>c.
                  if c < 0 then Inr current
                  else bindE (assertNotBefore (Some (snap_capturedAt nxt)) (snap_capturedAt current))
                         (\<lambda>_. Inr nxt))
           else bindE (assertNotBefore (Some (snap_capturedAt nxt)) (snap_capturedAt current))
                  (\<lambda>_. Inr nxt)))"

definition apply_snapshot_sync ::
    "(snapshot \<Rightarrow> nat) \<Rightarrow> snapshot option \<Rightarrow> snapshot \<Rightarrow> sync_limits option \<Rightarrow> contract_error + snapshot"
where
  "apply_snapshot_sync snapshotBytes currentValue incoming limits =
     bindE (validateSessionSnapshot snapshotBytes incoming
       (map_option (\<lambda>l. \<lparr>adm_maxBytes = lim_maxSnapshotBytes l,
                         adm_maxInlineBytes = lim_maxInlineBytes l\<rparr>) limits))
       (advance_to currentValue)"

definition admit_mutations ::
    "(committed_mutation \<Rightarrow> nat) \<Rightarrow> committed_mutation list \<Rightarrow> sync_limits option
      \<Rightarrow> contract_error + unit" where
  "admit_mutations mutationBytes mutations limits =
     (case limits of
        None \<Rightarrow> Inr ()
      | Some l \<Rightarrow>
          if of_nat (length mutations) > lim_maxMutationBatchCount l then Inl RangeError
          else each (\<lambda>m. assertProtocolAdmission (mutationBytes m)
                 \<lparr>adm_maxBytes = lim_maxMutationBytes l, adm_maxInlineBytes = lim_maxInlineBytes l\<rparr>
                 (authorityContent (mut_operations m))) mutations)"

definition apply_mutation_sync ::
    "(committed_mutation \<Rightarrow> nat) \<Rightarrow> snapshot option \<Rightarrow> nat \<Rightarrow> nat \<Rightarrow> committed_mutation list
      \<Rightarrow> sync_limits option \<Rightarrow> contract_error + snapshot" where
  "apply_mutation_sync mutationBytes currentValue baseRevision throughRevision mutations limits =
     bindE (admit_mutations mutationBytes mutations limits) (\<lambda>_.
     case currentValue of
       None \<Rightarrow> Inl (ContractInvariantError RevisionGap)
     | Some current \<Rightarrow>
         bindE (checks
           [invariant RevisionGap (baseRevision \<le> snap_revision current),
            invariant SessionMismatch
              (case mutations of [] \<Rightarrow> True
               | m # _ \<Rightarrow> mut_sessionId m = ses_id (snap_session current))]) (\<lambda>_.
         if throughRevision \<le> snap_revision current then Inr current
         else foldE applyMutation current
                (filter (\<lambda>m. snap_revision current < mut_revision m) mutations)))"

definition applySyncPayload ::
    "(snapshot \<Rightarrow> nat) \<Rightarrow> (committed_mutation \<Rightarrow> nat) \<Rightarrow> snapshot option \<Rightarrow> sync_payload
      \<Rightarrow> sync_limits option \<Rightarrow> contract_error + snapshot" where
  "applySyncPayload snapshotBytes mutationBytes currentValue payload limits =
     (if \<not> sync_payload_schema payload then Inl ZodError
      else
        bindE (case currentValue of
                 None \<Rightarrow> Inr ()
               | Some c \<Rightarrow> bindE (validateSessionSnapshot snapshotBytes c None) (\<lambda>_. Inr ())) (\<lambda>_.
        if \<not> opt_all sync_limits_ok limits then Inl RangeError
        else case payload of
          SnapshotSync s _ \<Rightarrow> apply_snapshot_sync snapshotBytes currentValue s limits
        | MutationSync baseRevision throughRevision mutations \<Rightarrow>
            apply_mutation_sync mutationBytes currentValue baseRevision throughRevision mutations
              limits))"

section \<open>deriveSessionActivity\<close>

datatype session_activity =
  ActivityClosed | ActivityIdle | ActivityRequiresAction | ActivityRunning

definition activity_of :: "snapshot \<Rightarrow> session_activity" where
  "activity_of s =
     (if ses_status (snap_session s) = SessionClosed then ActivityClosed
      else if list_ex (\<lambda>i. int_status i = InteractionOpen \<and> int_blocking i) (snap_interactions s)
      then ActivityRequiresAction
      else if list_ex is_active_top_level (snap_runs s) then ActivityRunning
      else ActivityIdle)"

definition deriveSessionActivity :: "snapshot \<Rightarrow> contract_error + session_activity" where
  "deriveSessionActivity s =
     bindE (validateSessionSnapshot (\<lambda>_. 0) s None) (\<lambda>snap. Inr (activity_of snap))"

end
