(* ===== verification/Snapshot_Invariants.thy ===== *)
theory Snapshot_Invariants
  imports Run_Relations Reducer
begin

text \<open>
  What an accepted snapshot guarantees.  \<open>wf_snapshot\<close> is the abstract specification of
  a Session's state: identities are unique, every reference resolves inside the
  snapshot, the parent and retry relations have no cycle, activity is only found below
  an active Run, and a closed Session holds nothing open.  \<open>validateState_sound\<close> shows
  that the assertions of \<open>validateState\<close> imply it.
\<close>

section \<open>The specification\<close>

definition run_exists :: "snapshot \<Rightarrow> string \<Rightarrow> (run \<Rightarrow> bool) \<Rightarrow> bool" where
  "run_exists s i P \<longleftrightarrow> (\<exists>r\<in>set (snap_runs s). run_id r = i \<and> P r)"

definition item_exists :: "snapshot \<Rightarrow> string \<Rightarrow> string \<Rightarrow> (item \<Rightarrow> bool) \<Rightarrow> bool" where
  "item_exists s runId itemId P \<longleftrightarrow>
     (\<exists>it\<in>set (snap_items s). item_runId it = runId \<and> item_id it = itemId \<and> P it)"

definition unique_identities :: "snapshot \<Rightarrow> bool" where
  "unique_identities s \<longleftrightarrow>
     distinct (map run_id (snap_runs s))
     \<and> distinct (map (\<lambda>it. (item_runId it, item_id it)) (snap_items s))
     \<and> distinct (map int_id (snap_interactions s))"

definition references_resolve :: "snapshot \<Rightarrow> bool" where
  "references_resolve s \<longleftrightarrow>
     (\<forall>r\<in>set (snap_runs s). \<forall>p. run_parentRunId r = Some p \<longrightarrow> run_exists s p (\<lambda>_. True))
     \<and> (\<forall>it\<in>set (snap_items s). run_exists s (item_runId it) (\<lambda>_. True))
     \<and> (\<forall>it\<in>set (snap_items s). \<forall>t target. item_body it = ToolItem t
          \<longrightarrow> tool_terminalItemId t = Some target
          \<longrightarrow> item_exists s (item_runId it) target (\<lambda>j. item_kind j = KindTerminal))
     \<and> (\<forall>i\<in>set (snap_interactions s). run_exists s (int_runId i) (\<lambda>_. True))
     \<and> (\<forall>i\<in>set (snap_interactions s). \<forall>itemId. int_itemId i = Some itemId
          \<longrightarrow> item_exists s (int_runId i) itemId (\<lambda>_. True))"

definition relations_acyclic :: "snapshot \<Rightarrow> bool" where
  "relations_acyclic s \<longleftrightarrow>
     acyclic (run_edges (snap_runs s) run_parentRunId)
     \<and> acyclic (run_edges (snap_runs s) run_retryOf)"

definition activity_nested :: "snapshot \<Rightarrow> bool" where
  "activity_nested s \<longleftrightarrow>
     (\<forall>r\<in>set (snap_runs s). \<forall>p. run_parentRunId r = Some p \<longrightarrow> run_status r = Active
        \<longrightarrow> run_exists s p (\<lambda>q. run_status q = Active))
     \<and> (\<forall>it\<in>set (snap_items s). item_status it = Active
        \<longrightarrow> run_exists s (item_runId it) (\<lambda>q. run_status q = Active))
     \<and> (\<forall>i\<in>set (snap_interactions s). int_status i = InteractionOpen
        \<longrightarrow> run_exists s (int_runId i) (\<lambda>q. run_status q = Active))
     \<and> (\<forall>r\<in>set (snap_runs s). \<forall>q\<in>set (snap_runs s).
          is_active_top_level r \<longrightarrow> is_active_top_level q \<longrightarrow> r = q)"

definition closed_is_quiet :: "snapshot \<Rightarrow> bool" where
  "closed_is_quiet s \<longleftrightarrow>
     (ses_status (snap_session s) = SessionClosed \<longleftrightarrow> ses_closedAt (snap_session s) \<noteq> None)
     \<and> (ses_status (snap_session s) = SessionClosed \<longrightarrow>
          (\<forall>r\<in>set (snap_runs s). run_status r \<noteq> Active)
          \<and> (\<forall>i\<in>set (snap_interactions s). int_status i \<noteq> InteractionOpen))"

definition wf_snapshot :: "snapshot \<Rightarrow> bool" where
  "wf_snapshot s \<longleftrightarrow>
     unique_identities s \<and> references_resolve s \<and> relations_acyclic s \<and> activity_nested s
     \<and> closed_is_quiet s"

lemma run_exists_map_get:
  "map_get run_id (snap_runs s) i = Some r \<Longrightarrow> P r \<Longrightarrow> run_exists s i P"
  unfolding run_exists_def using map_get_Some_D by fastforce

section \<open>Item keys\<close>

lemma itemKey_inject:
  "length a = length b \<Longrightarrow> itemKey a i = itemKey b j \<longleftrightarrow> a = b \<and> i = j"
  by (simp add: itemKey_def)

lemma protocol_id_length: "protocol_id_schema i \<Longrightarrow> length i = 26"
  by (simp add: protocol_id_schema_def)

lemma item_schema_runId: "item_schema it \<Longrightarrow> length (item_runId it) = 26"
  by (simp add: item_schema_def protocol_id_length)

lemma items_by_id_exists:
  assumes "snapshot_schema s" "length runId = 26" "items_by_id s (itemKey runId itemId) = Some it" "P it"
  shows "item_exists s runId itemId P"
proof -
  from assms(3) have it: "it \<in> set (snap_items s)"
    and key: "itemKey (item_runId it) (item_id it) = itemKey runId itemId"
    unfolding items_by_id_def by (auto dest: map_get_Some_D)
  have "length (item_runId it) = length runId"
    using assms(1,2) it by (auto simp: snapshot_schema_def list_all_iff item_schema_runId)
  with key have "item_runId it = runId \<and> item_id it = itemId" by (simp add: itemKey_inject)
  with it assms(4) show ?thesis by (auto simp: item_exists_def)
qed

section \<open>What each loop body guarantees\<close>

lemma assert_run_parent:
  assumes "assert_run s r = Inr ()" "run_parentRunId r = Some p"
  shows "\<exists>q. map_get run_id (snap_runs s) p = Some q
    \<and> (run_status r = Active \<longrightarrow> run_status q = Active)
    \<and> has_capability (snap_session s) ''run.child''"
  using assms by (auto simp: assert_run_def assert_parent_run_def split: option.splits)

lemma assert_item_run:
  assumes "assert_item s it = Inr ()"
  shows "\<exists>r. map_get run_id (snap_runs s) (item_runId it) = Some r
    \<and> (item_status it = Active \<longrightarrow> run_status r = Active) \<and> assert_item_body s it = Inr ()"
  using assms by (auto simp: assert_item_def split: option.splits)

lemma assert_interaction_run:
  assumes "assert_interaction s i = Inr ()"
  shows "\<exists>r. map_get run_id (snap_runs s) (int_runId i) = Some r
    \<and> (int_status i = InteractionOpen \<longrightarrow> run_status r = Active)
    \<and> assert_interaction_references s i = Inr ()"
  using assms by (auto simp: assert_interaction_def split: option.splits)

lemma at_most_one_filter:
  "length (filter P xs) \<le> 1 \<Longrightarrow> x \<in> set xs \<Longrightarrow> y \<in> set xs \<Longrightarrow> P x \<Longrightarrow> P y \<Longrightarrow> x = y"
  by (induction xs) (auto simp: filter_empty_conv split: if_splits)

lemma validateState_each:
  assumes "validateState s = Inr ()"
  shows "r \<in> set (snap_runs s) \<Longrightarrow> assert_run s r = Inr ()"
    and "it \<in> set (snap_items s) \<Longrightarrow> assert_item s it = Inr ()"
    and "i \<in> set (snap_interactions s) \<Longrightarrow> assert_interaction s i = Inr ()"
  using assms by (simp_all only: validateState_ok)

section \<open>Soundness of validateState\<close>

lemma validateState_unique:
  assumes "snapshot_schema s" "validateState s = Inr ()"
  shows "unique_identities s"
proof -
  have "distinct (map (\<lambda>it. itemKey (item_runId it) (item_id it)) (snap_items s))"
    using assms(2) by (simp add: validateState_ok)
  then have "distinct (map (\<lambda>it. (item_runId it, item_id it)) (snap_items s))"
    by (auto simp: distinct_map inj_on_def)
  with assms(2) show ?thesis by (simp add: unique_identities_def validateState_ok)
qed

lemma validateState_references:
  assumes schema: "snapshot_schema s" and ok: "validateState s = Inr ()"
  shows "references_resolve s"
  unfolding references_resolve_def
proof (intro conjI ballI allI impI)
  fix r p assume "r \<in> set (snap_runs s)" "run_parentRunId r = Some p"
  then show "run_exists s p (\<lambda>_. True)"
    by (auto dest!: validateState_each(1) [OF ok] assert_run_parent intro: run_exists_map_get)
next
  fix it assume "it \<in> set (snap_items s)"
  then show "run_exists s (item_runId it) (\<lambda>_. True)"
    by (auto dest!: validateState_each(2) [OF ok] assert_item_run intro: run_exists_map_get)
next
  fix it t target
  assume it: "it \<in> set (snap_items s)" "item_body it = ToolItem t" "tool_terminalItemId t = Some target"
  have "assert_item_body s it = Inr ()"
    using assert_item_run [OF validateState_each(2) [OF ok it(1)]] by blast
  then obtain j where "items_by_id s (itemKey (item_runId it) target) = Some j" "item_kind j = KindTerminal"
    by (cases "items_by_id s (itemKey (item_runId it) target)") (simp_all add: assert_item_body_def it)
  moreover have "length (item_runId it) = 26"
    using it(1) schema by (auto simp: snapshot_schema_def list_all_iff item_schema_runId)
  ultimately show "item_exists s (item_runId it) target (\<lambda>j. item_kind j = KindTerminal)"
    by (intro items_by_id_exists [OF schema])
next
  fix i assume "i \<in> set (snap_interactions s)"
  then show "run_exists s (int_runId i) (\<lambda>_. True)"
    by (auto dest!: validateState_each(3) [OF ok] assert_interaction_run intro: run_exists_map_get)
next
  fix i itemId assume i: "i \<in> set (snap_interactions s)" "int_itemId i = Some itemId"
  then have "assert_interaction_references s i = Inr ()"
    by (auto dest!: validateState_each(3) [OF ok] assert_interaction_run)
  then obtain j where "items_by_id s (itemKey (int_runId i) itemId) = Some j"
    using i by (auto simp: assert_interaction_references_def)
  moreover have "length (int_runId i) = 26"
    using i(1) schema
    by (auto simp: snapshot_schema_def list_all_iff interaction_schema_def protocol_id_length)
  ultimately show "item_exists s (int_runId i) itemId (\<lambda>_. True)"
    by (intro items_by_id_exists [OF schema] TrueI)
qed

lemma validateState_nested:
  assumes ok: "validateState s = Inr ()"
  shows "activity_nested s"
  unfolding activity_nested_def
proof (intro conjI ballI allI impI)
  fix r p assume "r \<in> set (snap_runs s)" "run_parentRunId r = Some p" "run_status r = Active"
  then show "run_exists s p (\<lambda>q. run_status q = Active)"
    by (auto dest!: validateState_each(1) [OF ok] assert_run_parent intro: run_exists_map_get)
next
  fix it assume "it \<in> set (snap_items s)" "item_status it = Active"
  then show "run_exists s (item_runId it) (\<lambda>q. run_status q = Active)"
    by (auto dest!: validateState_each(2) [OF ok] assert_item_run intro: run_exists_map_get)
next
  fix i assume "i \<in> set (snap_interactions s)" "int_status i = InteractionOpen"
  then show "run_exists s (int_runId i) (\<lambda>q. run_status q = Active)"
    by (auto dest!: validateState_each(3) [OF ok] assert_interaction_run intro: run_exists_map_get)
next
  fix r q
  assume "r \<in> set (snap_runs s)" "q \<in> set (snap_runs s)" "is_active_top_level r" "is_active_top_level q"
  moreover have "length (filter is_active_top_level (snap_runs s)) \<le> 1"
    using ok by (simp add: validateState_ok)
  ultimately show "r = q" by (blast intro: at_most_one_filter)
qed

lemma validateState_closed:
  assumes ok: "validateState s = Inr ()"
  shows "closed_is_quiet s"
proof -
  have "assert_session_times s = Inr ()" using ok by (simp add: validateState_ok)
  moreover have "assert_closed_session s = Inr ()" if "ses_status (snap_session s) = SessionClosed"
    using ok that by (simp add: validateState_ok)
  ultimately show ?thesis
    by (auto simp: closed_is_quiet_def assert_session_times_def assert_closed_session_def Let_def
        isTerminalRun_def isTerminalInteraction_def list_all_iff)
qed

lemma validateState_sound:
  assumes "snapshot_schema s" "validateState s = Inr ()"
  shows "wf_snapshot s"
proof -
  have "relations_acyclic s"
    unfolding relations_acyclic_def
    using assms(2) assertAcyclicRunRelation_iff by (simp only: validateState_ok) blast
  then show ?thesis
    using assms by (simp add: wf_snapshot_def validateState_unique validateState_references
        validateState_nested validateState_closed)
qed

section \<open>Every active Run has one active top-level ancestor\<close>

lemma run_edges_finite: "finite (run_edges runs relation)"
proof -
  have "run_edges runs relation \<subseteq> (\<lambda>r. (run_id r, the (relation r))) ` set runs"
    by (auto simp: run_edges_def image_iff)
  then show ?thesis by (rule finite_subset) simp
qed

lemma active_ancestor_exists:
  assumes nested: "activity_nested s" and acyclic: "relations_acyclic s"
    and "r \<in> set (snap_runs s)" "run_status r = Active"
  shows "\<exists>t\<in>set (snap_runs s). is_active_top_level t
    \<and> (run_id r, run_id t) \<in> (run_edges (snap_runs s) run_parentRunId)\<^sup>*"
proof -
  let ?E = "run_edges (snap_runs s) run_parentRunId"
  have "wf (?E\<inverse>)"
    using acyclic run_edges_finite by (auto simp: relations_acyclic_def intro: finite_acyclic_wf_converse)
  then have "\<forall>r\<in>set (snap_runs s). run_id r = i \<longrightarrow> run_status r = Active \<longrightarrow>
      (\<exists>t\<in>set (snap_runs s). is_active_top_level t \<and> (i, run_id t) \<in> ?E\<^sup>*)" for i
  proof (induction i rule: wf_induct_rule)
    case (less i)
    show ?case
    proof (intro ballI impI)
      fix r assume r: "r \<in> set (snap_runs s)" "run_id r = i" "run_status r = Active"
      show "\<exists>t\<in>set (snap_runs s). is_active_top_level t \<and> (i, run_id t) \<in> ?E\<^sup>*"
      proof (cases "run_parentRunId r")
        case None
        with r show ?thesis by (auto simp: is_active_top_level_def)
      next
        case (Some p)
        then obtain q where q: "q \<in> set (snap_runs s)" "run_id q = p" "run_status q = Active"
          using nested r by (auto simp: activity_nested_def run_exists_def)
        then have e: "(i, p) \<in> ?E" using r Some by (auto simp: run_edges_def)
        then obtain t where "t \<in> set (snap_runs s)" "is_active_top_level t" "(p, run_id t) \<in> ?E\<^sup>*"
          using less [of p] q by auto
        with e show ?thesis by (meson converse_rtrancl_into_rtrancl)
      qed
    qed
  qed
  with assms(3,4) show ?thesis by blast
qed

lemma no_active_run_iff:
  assumes "activity_nested s" "relations_acyclic s"
  shows "(\<exists>r\<in>set (snap_runs s). run_status r = Active) \<longleftrightarrow> (\<exists>r\<in>set (snap_runs s). is_active_top_level r)"
  using active_ancestor_exists [OF assms] by (auto simp: is_active_top_level_def)

end
