(* ===== verification/Entity_Evolution.thy ===== *)
theory Entity_Evolution
  imports Snapshot_Invariants
begin

text \<open>
  How the entities of a Session may change.  \<open>putRun\<close>, \<open>putItem\<close> and
  \<open>putInteraction\<close> share one shape: look the entity up by its identity, assert the
  transition, replace or append.  The locale \<open>entity_collection\<close> states that contract
  over an \<open>evolves\<close> relation between an entity and its successors, and proves once that
  a put keeps identities unique and only lets entities evolve; it is interpreted on the
  three collections.  The relations themselves (\<open>run_evolves\<close>, \<open>item_evolves\<close>,
  \<open>interaction_evolves\<close>, \<open>session_evolves\<close>) say what never changes, and that a
  terminal entity stays as it is.
\<close>

section \<open>The evolution relations\<close>

definition usage_grows :: "run \<Rightarrow> run \<Rightarrow> bool" where
  "usage_grows r r' \<longleftrightarrow>
     (\<forall>key\<in>set usage_keys. \<forall>n. usage_of key r = Some n \<longrightarrow> (\<exists>n'. usage_of key r' = Some n' \<and> n \<le> n'))
     \<and> (\<forall>amount currency. usage_of use_cost r = Some (amount, currency) \<longrightarrow>
          (\<exists>amount'. usage_of use_cost r' = Some (amount', currency) \<and> amount \<le> amount'))"

definition run_evolves :: "run \<Rightarrow> run \<Rightarrow> bool" where
  "run_evolves r r' \<longleftrightarrow>
     run_startedAt r = run_startedAt r' \<and> run_origin r = run_origin r'
     \<and> run_parentRunId r = run_parentRunId r' \<and> run_retryOf r = run_retryOf r'
     \<and> run_input r = run_input r' \<and> usage_grows r r'
     \<and> (run_status r \<noteq> Active \<longrightarrow> r' = r)"

definition item_evolves :: "item \<Rightarrow> item \<Rightarrow> bool" where
  "item_evolves it it' \<longleftrightarrow>
     item_kind it = item_kind it' \<and> item_createdAt it = item_createdAt it'
     \<and> item_audience it = item_audience it'
     \<and> same_body_identity (item_body it) (item_body it')
     \<and> (item_status it \<noteq> Active \<longrightarrow>
          item_status it' = item_status it \<and> item_endedAt it' = item_endedAt it
          \<and> item_error it' = item_error it)"

definition interaction_evolves :: "interaction \<Rightarrow> interaction \<Rightarrow> bool" where
  "interaction_evolves i i' \<longleftrightarrow>
     int_runId i = int_runId i' \<and> int_itemId i = int_itemId i' \<and> int_createdAt i = int_createdAt i'
     \<and> int_expiresAt i = int_expiresAt i' \<and> int_blocking i = int_blocking i'
     \<and> int_audience i = int_audience i' \<and> same_request (int_body i) (int_body i')
     \<and> (int_status i \<noteq> InteractionOpen \<longrightarrow> i' = i)"

definition session_evolves :: "session \<Rightarrow> session \<Rightarrow> bool" where
  "session_evolves s s' \<longleftrightarrow>
     ses_id s = ses_id s' \<and> ses_createdAt s = ses_createdAt s' \<and> ses_parent s = ses_parent s'
     \<and> (\<forall>name detail. fmlookup (ses_capabilities s) name = Some detail
          \<longrightarrow> fmlookup (ses_capabilities s') name = Some detail)
     \<and> (ses_status s = SessionClosed \<longrightarrow> s' = s)"

lemma same_body_identity_refl [simp]: "same_body_identity b b"
  by (cases b) auto

lemma same_body_identity_trans:
  "same_body_identity a b \<Longrightarrow> same_body_identity b c \<Longrightarrow> body_kind a = body_kind b
    \<Longrightarrow> body_kind b = body_kind c \<Longrightarrow> same_body_identity a c"
  by (cases a; cases b; cases c) auto

lemma same_request_refl [simp]: "same_request b b"
  by (cases b) auto

lemma same_request_trans: "same_request a b \<Longrightarrow> same_request b c \<Longrightarrow> same_request a c"
  by (cases a; cases b; cases c) auto

lemma usage_grows_refl [simp]: "usage_grows r r"
  by (auto simp: usage_grows_def)

lemma usage_grows_trans: "usage_grows a b \<Longrightarrow> usage_grows b c \<Longrightarrow> usage_grows a c"
  unfolding usage_grows_def by (meson order_trans)

lemma session_evolves_refl: "session_evolves s s"
  by (auto simp: session_evolves_def)

lemma session_evolves_trans: "session_evolves a b \<Longrightarrow> session_evolves b c \<Longrightarrow> session_evolves a c"
  by (auto simp: session_evolves_def)

lemma assertSessionTransition_evolves:
  "assertSessionTransition s s' = Inr () \<Longrightarrow> session_evolves s s'"
  by (cases "ses_status s")
    (auto simp: assertSessionTransition_def session_evolves_def fmpred_iff)

section \<open>The contract of a collection\<close>

locale entity_collection =
  fixes key :: "'a \<Rightarrow> 'k"
    and transition :: "'a option \<Rightarrow> 'a \<Rightarrow> 'e + unit"
    and put :: "'a list \<Rightarrow> 'a \<Rightarrow> 'e + 'a list"
    and evolves :: "'a \<Rightarrow> 'a \<Rightarrow> bool"
  assumes put_shape: "put xs y =
      bindE (transition (find (\<lambda>x. key x = key y) xs) y) (\<lambda>_.
        Inr (put_first (\<lambda>x. key x = key y) y xs))"
    and evolves_refl: "evolves x x"
    and evolves_trans: "evolves x y \<Longrightarrow> evolves y z \<Longrightarrow> evolves x z"
    and transition_evolves: "transition (Some x) y = Inr u \<Longrightarrow> key x = key y \<Longrightarrow> evolves x y"
begin

definition advances :: "'a list \<Rightarrow> 'a list \<Rightarrow> bool" where
  "advances xs ys \<longleftrightarrow> (\<forall>x\<in>set xs. \<exists>y\<in>set ys. key y = key x \<and> evolves x y)"

lemma advances_refl: "advances xs xs"
  using evolves_refl by (auto simp: advances_def)

lemma advances_trans: "advances xs ys \<Longrightarrow> advances ys zs \<Longrightarrow> advances xs zs"
  unfolding advances_def using evolves_trans by metis

lemma put_result: "put xs y = Inr ys \<Longrightarrow> ys = put_first (\<lambda>x. key x = key y) y xs"
  by (auto simp: put_shape)

lemma put_set: "put xs y = Inr ys \<Longrightarrow> set ys \<subseteq> insert y (set xs) \<and> y \<in> set ys"
  using set_put_first_subset put_first_mem by (metis put_result)

lemma put_distinct:
  assumes "put xs y = Inr ys" "distinct (map key xs)"
  shows "distinct (map key ys)"
proof -
  have "map key ys = (if key y \<in> key ` set xs then map key xs else map key xs @ [key y])"
    unfolding put_result [OF assms(1)] by (rule map_put_first) simp
  with assms(2) show ?thesis by auto
qed

lemma put_keeps_others:
  "put xs y = Inr ys \<Longrightarrow> x \<in> set xs \<Longrightarrow> key x \<noteq> key y \<Longrightarrow> x \<in> set ys"
  by (auto dest: put_result intro: put_first_keeps)

lemma put_advances:
  assumes "put xs y = Inr ys" "distinct (map key xs)"
  shows "advances xs ys"
  unfolding advances_def
proof
  fix x assume x: "x \<in> set xs"
  show "\<exists>z\<in>set ys. key z = key x \<and> evolves x z"
  proof (cases "key x = key y")
    case True
    then have "find (\<lambda>z. key z = key y) xs = Some x"
      using find_key_distinct [OF assms(2) x] by simp
    with assms(1) have "evolves x y" using True transition_evolves by (auto simp: put_shape)
    with True show ?thesis using put_set [OF assms(1)] by auto
  next
    case False
    then show ?thesis using put_keeps_others [OF assms(1) x] evolves_refl by blast
  qed
qed

lemma advances_same_key:
  assumes "advances xs ys" "distinct (map key ys)" "x \<in> set xs" "y \<in> set ys" "key y = key x"
  shows "evolves x y"
proof -
  obtain z where "z \<in> set ys" "key z = key x" "evolves x z"
    using assms(1,3) by (auto simp: advances_def)
  moreover then have "z = y" using assms(2,4,5) by (metis distinct_map inj_onD)
  ultimately show ?thesis by simp
qed

end

section \<open>The three collections\<close>

lemma assertRunTransition_evolves:
  assumes "assertRunTransition (Some r) r' = Inr u"
  shows "run_evolves r r'"
proof -
  have "run_status r = Active"
    using assms by (cases "run_status r") (auto simp: assertRunTransition_def)
  moreover have "assert_usage_key r r' key = Inr ()" if "key \<in> set usage_keys" for key
    using assms that by (auto simp: assertRunTransition_def)
  then have "\<exists>n'. usage_of key r' = Some n' \<and> n \<le> n'"
    if "key \<in> set usage_keys" "usage_of key r = Some n" for key n
    using that by (force simp: assert_usage_key_def split: option.splits)
  moreover have "\<exists>amount'. usage_of use_cost r' = Some (amount', currency) \<and> amount \<le> amount'"
    if "usage_of use_cost r = Some (amount, currency)" for amount currency
    using assms that
    by (auto simp: assertRunTransition_def assert_usage_cost_def split: option.splits)
  ultimately show ?thesis
    using assms by (auto simp: run_evolves_def usage_grows_def assertRunTransition_def)
qed

interpretation runs: entity_collection run_id assertRunTransition putRun run_evolves
proof unfold_locales
  show "run_evolves r r" for r by (simp add: run_evolves_def)
  show "run_evolves a b \<Longrightarrow> run_evolves b c \<Longrightarrow> run_evolves a c" for a b c
    using usage_grows_trans by (auto simp: run_evolves_def)
qed (auto simp: putRun_def assertRunTransition_evolves)

abbreviation item_key :: "item \<Rightarrow> string \<times> string" where
  "item_key it \<equiv> (item_runId it, item_id it)"

lemma assertItemTransition_evolves:
  "assertItemTransition (Some it) it' = Inr u \<Longrightarrow> item_evolves it it'"
  by (auto simp: assertItemTransition_def item_evolves_def split: if_splits)

interpretation items: entity_collection item_key assertItemTransition putItem item_evolves
proof unfold_locales
  show "putItem xs y =
      bindE (assertItemTransition (find (\<lambda>x. item_key x = item_key y) xs) y) (\<lambda>_.
        Inr (put_first (\<lambda>x. item_key x = item_key y) y xs))" for xs y
    by (simp add: putItem_def same_item_def [abs_def])
  show "item_evolves it it" for it by (simp add: item_evolves_def)
  show "item_evolves a b \<Longrightarrow> item_evolves b c \<Longrightarrow> item_evolves a c" for a b c
    using same_body_identity_trans by (auto simp: item_evolves_def)
qed (auto simp: assertItemTransition_evolves)

lemma assertInteractionTransition_evolves:
  "assertInteractionTransition (Some i) i' = Inr u \<Longrightarrow> interaction_evolves i i'"
  by (cases "int_status i") (auto simp: assertInteractionTransition_def interaction_evolves_def)

interpretation interactions:
  entity_collection int_id assertInteractionTransition putInteraction interaction_evolves
proof unfold_locales
  show "interaction_evolves i i" for i by (simp add: interaction_evolves_def)
  show "interaction_evolves a b \<Longrightarrow> interaction_evolves b c \<Longrightarrow> interaction_evolves a c" for a b c
    using same_request_trans by (auto simp: interaction_evolves_def)
qed (auto simp: putInteraction_def assertInteractionTransition_evolves)

end
