(* ===== verification/Run_Removal.thy ===== *)
theory Run_Removal
  imports Entity_Evolution
begin

text \<open>
  Compaction: the nested loop of \<open>applyMutation\<close> that collects the Runs below a removed
  Run computes exactly the descendants, and a removal leaves no reference to them.
\<close>

section \<open>The closure loop\<close>

definition parent_edges :: "run list \<Rightarrow> (string \<times> string) set" where
  "parent_edges runs = {(run_id r, p) | r p. r \<in> set runs \<and> run_parentRunId r = Some p}"

definition descendants :: "run list \<Rightarrow> string set \<Rightarrow> string set" where
  "descendants runs ids = {x. \<exists>a\<in>ids. (x, a) \<in> (parent_edges runs)\<^sup>*}"

lemma descendants_self: "ids \<subseteq> descendants runs ids"
  by (auto simp: descendants_def)

lemma descendants_step:
  "r \<in> set runs \<Longrightarrow> run_parentRunId r = Some p \<Longrightarrow> p \<in> descendants runs ids
    \<Longrightarrow> run_id r \<in> descendants runs ids"
  unfolding descendants_def parent_edges_def
  by (blast intro: converse_rtrancl_into_rtrancl)

lemma descendants_least:
  assumes "ids \<subseteq> S"
    and "\<And>r p. r \<in> set runs \<Longrightarrow> run_parentRunId r = Some p \<Longrightarrow> p \<in> S \<Longrightarrow> run_id r \<in> S"
  shows "descendants runs ids \<subseteq> S"
proof
  fix x assume "x \<in> descendants runs ids"
  then obtain a where a: "a \<in> ids" "(x, a) \<in> (parent_edges runs)\<^sup>*" by (auto simp: descendants_def)
  from a(2) show "x \<in> S"
  proof (induction rule: converse_rtrancl_induct)
    case base
    with a(1) assms(1) show ?case by auto
  next
    case (step y z)
    then show ?case using assms(2) by (auto simp: parent_edges_def)
  qed
qed

lemma removal_pass_Cons:
  "removal_pass (r # runs) removed =
     removal_pass runs
       (if \<exists>p. run_parentRunId r = Some p \<and> p \<in> set removed \<and> run_id r \<notin> set removed
        then removed @ [run_id r] else removed)"
  by (auto simp: removal_pass_def split: option.splits)

lemma removal_pass_sound:
  assumes "set runs \<subseteq> set all" "set removed \<subseteq> descendants all ids"
  shows "set (removal_pass runs removed) \<subseteq> descendants all ids"
  using assms
proof (induction runs arbitrary: removed)
  case (Cons r runs)
  let ?rm = "if \<exists>p. run_parentRunId r = Some p \<and> p \<in> set removed \<and> run_id r \<notin> set removed
    then removed @ [run_id r] else removed"
  have "set ?rm \<subseteq> descendants all ids"
    using Cons.prems descendants_step by auto
  from Cons.IH [OF _ this] Cons.prems(1) show ?case by (simp only: removal_pass_Cons) auto
qed (simp add: removal_pass_def)

lemma removal_pass_length: "length removed \<le> length (removal_pass runs removed)"
  using removal_pass_extends [of runs removed] by auto

lemma removal_pass_fixpoint:
  assumes "removal_pass runs removed = removed"
    and "r \<in> set runs" "run_parentRunId r = Some p" "p \<in> set removed"
  shows "run_id r \<in> set removed"
  using assms
proof (induction runs)
  case (Cons q runs)
  show ?case
  proof (cases "\<exists>p. run_parentRunId q = Some p \<and> p \<in> set removed \<and> run_id q \<notin> set removed")
    case True
    then have "removal_pass runs (removed @ [run_id q]) = removed"
      using Cons.prems(1) by (simp add: removal_pass_Cons)
    then show ?thesis
      using removal_pass_length [of "removed @ [run_id q]" runs] by simp
  next
    case False
    then have "removal_pass runs removed = removed"
      using Cons.prems(1) by (simp only: removal_pass_Cons if_False)
    with Cons False show ?thesis by auto
  qed
qed simp

lemma close_removed_result:
  "removal_pass runs (close_removed runs removed) = close_removed runs removed
   \<and> set removed \<subseteq> set (close_removed runs removed)"
proof (induction runs removed rule: close_removed.induct)
  case (1 runs removed)
  show ?case
  proof (cases "removal_pass runs removed = removed")
    case True
    then show ?thesis by (subst (1 2 3) close_removed.simps) simp
  next
    case False
    then have eq: "close_removed runs removed = close_removed runs (removal_pass runs removed)"
      by (subst close_removed.simps) simp
    have "set removed \<subseteq> set (removal_pass runs removed)"
      using removal_pass_extends [of runs removed] by auto
    with "1.IH" [OF refl False] show ?thesis unfolding eq by blast
  qed
qed

lemma close_removed_sound:
  "set removed \<subseteq> descendants runs ids \<Longrightarrow> set (close_removed runs removed) \<subseteq> descendants runs ids"
proof (induction runs removed rule: close_removed.induct)
  case (1 runs removed)
  then show ?case
    using removal_pass_sound [of runs runs removed ids]
    by (subst close_removed.simps) (auto simp: Let_def)
qed

lemma close_removed_descendants:
  "set (close_removed runs removed) = descendants runs (set removed)"
proof
  show "set (close_removed runs removed) \<subseteq> descendants runs (set removed)"
    by (rule close_removed_sound) (rule descendants_self)
  show "descendants runs (set removed) \<subseteq> set (close_removed runs removed)"
    using close_removed_result [of runs removed] removal_pass_fixpoint
    by (intro descendants_least) blast+
qed

section \<open>One removal\<close>

lemma remove_run_result:
  assumes "remove_run d i = Inr d'"
  defines "gone \<equiv> descendants (dr_runs d) {i}"
  shows "d' = d\<lparr>dr_runs := filter (\<lambda>r. run_id r \<notin> gone) (dr_runs d),
      dr_items := filter (\<lambda>it. item_runId it \<notin> gone) (dr_items d),
      dr_interactions := filter (\<lambda>j. int_runId j \<notin> gone) (dr_interactions d)\<rparr>
    \<and> (\<exists>r\<in>set (dr_runs d). run_id r = i)
    \<and> (\<forall>r\<in>set (dr_runs d). run_id r \<in> gone \<longrightarrow> isTerminalRun r)"
proof -
  from assms(1) obtain rt where rt: "find (\<lambda>r. run_id r = i) (dr_runs d) = Some rt"
    by (auto simp: remove_run_def split: option.splits)
  then have "run_id rt = i \<and> rt \<in> set (dr_runs d)" by (rule find_Some_D)
  moreover have "set (close_removed (dr_runs d) [i]) = gone"
    by (simp add: gone_def close_removed_descendants)
  ultimately show ?thesis
    using assms(1) rt by (auto simp: remove_run_def Let_def list_all_iff)
qed

definition prunes :: "draft \<Rightarrow> draft \<Rightarrow> bool" where
  "prunes d d' \<longleftrightarrow>
     dr_session d' = dr_session d \<and> set (dr_runs d') \<subseteq> set (dr_runs d)
     \<and> set (dr_items d') \<subseteq> set (dr_items d)
     \<and> set (dr_interactions d') \<subseteq> set (dr_interactions d)
     \<and> (\<forall>r\<in>set (dr_runs d). run_status r = Active \<longrightarrow> r \<in> set (dr_runs d'))"

lemma remove_run_prunes: "remove_run d i = Inr d' \<Longrightarrow> prunes d d'"
  by (auto dest!: remove_run_result simp: prunes_def isTerminalRun_def)

text \<open>After a removal no remaining Run has a removed parent.\<close>

lemma remove_run_no_orphan:
  assumes "remove_run d i = Inr d'" "r \<in> set (dr_runs d')" "run_parentRunId r = Some p"
  shows "p \<notin> descendants (dr_runs d) {i}"
  using remove_run_result [OF assms(1)] assms(2,3) descendants_step by auto

lemma is_remove_iff: "is_remove op \<longleftrightarrow> (\<exists>i reason. op = RemoveRun i reason)"
  by (cases op) auto

lemma removals_prune:
  assumes "foldE apply_operation d ops = Inr d'" "list_all is_remove ops"
  shows "prunes d d'"
proof (rule foldE_relation [OF assms(1)])
  show "prunes a b \<Longrightarrow> prunes b c \<Longrightarrow> prunes a c" for a b c
    unfolding prunes_def by (metis subset_iff)
  show "prunes s t" if "op \<in> set ops" "apply_operation s op = Inr t" for s op t
    using that assms(2) by (fastforce simp: list_all_iff is_remove_iff intro: remove_run_prunes)
qed (simp add: prunes_def)

end
