(* ===== verification/Reducer_Properties.thy ===== *)
theory Reducer_Properties
  imports Run_Removal
begin

text \<open>
  Theorems on the reducer: what one applied Mutation preserves and changes, that it is
  idempotent, and how a batch of synchronised Mutations advances a snapshot.
\<close>

section \<open>The shape of a successful application\<close>

lemma applyMutation_cases:
  assumes "applyMutation s m = Inr t"
  obtains (replayed) "mut_revision m \<le> snap_revision s" "t = s"
  | (applied) d where "snap_revision s < mut_revision m" "assert_mutation s m = Inr ()"
      "foldE apply_operation (draft_of s) (mut_operations m) = Inr d"
      "\<forall>r\<in>set (new_runs s (mut_operations m)). assert_new_retry (dr_runs d) r = Inr ()"
      "t = snapshot_of m d" "validateState t = Inr ()"
  using assms
  by (cases "mut_revision m \<le> snap_revision s") (auto simp: applyMutation_def)

lemma applyMutation_session: "applyMutation s m = Inr t \<Longrightarrow> mut_sessionId m = ses_id (snap_session s)"
  by (auto simp: applyMutation_def)

lemma assert_mutation_ok:
  "assert_mutation s m = Inr () \<longleftrightarrow>
     mut_baseRevision m = snap_revision s \<and> mut_revision m = snap_revision s + 1
     \<and> at_least (mut_committedAt m) (snap_capturedAt s)
     \<and> (list_ex is_remove (mut_operations m) \<longrightarrow> list_all is_remove (mut_operations m))
     \<and> distinct (map operation_key (mut_operations m))
     \<and> (\<forall>op\<in>set (mut_operations m).
          assert_item_writable (writable_run_ids s (mut_operations m)) op = Inr ())"
  by (auto simp: assert_mutation_def Let_def)

section \<open>Schemas are preserved\<close>

definition draft_schema :: "draft \<Rightarrow> bool" where
  "draft_schema d \<longleftrightarrow>
     session_schema (dr_session d) \<and> list_all run_schema (dr_runs d)
     \<and> list_all item_schema (dr_items d) \<and> list_all interaction_schema (dr_interactions d)"

context entity_collection
begin

lemma put_list_all: "put xs y = Inr ys \<Longrightarrow> list_all P xs \<Longrightarrow> P y \<Longrightarrow> list_all P ys"
  using put_set [of xs y ys] by (auto simp: list_all_iff)

end

lemma apply_operation_schema:
  assumes "draft_schema d" "operation_schema op" "apply_operation d op = Inr d'"
  shows "draft_schema d'"
proof (cases op)
  case (PutRun r)
  with assms show ?thesis
    by (auto simp: draft_schema_def intro: runs.put_list_all)
next
  case (PutItem it)
  with assms show ?thesis
    by (auto simp: draft_schema_def intro: items.put_list_all)
next
  case (PutInteraction i)
  with assms show ?thesis
    by (auto simp: draft_schema_def intro: interactions.put_list_all)
next
  case (RemoveRun i reason)
  with assms have "prunes d d'" by (auto intro: remove_run_prunes)
  with assms(1) show ?thesis by (auto simp: draft_schema_def prunes_def list_all_iff)
qed (use assms in \<open>auto simp: draft_schema_def\<close>)

lemma applyMutation_schema:
  assumes "snapshot_schema s" "committed_mutation_schema m" "applyMutation s m = Inr t"
  shows "snapshot_schema t"
  using assms(3)
proof (cases rule: applyMutation_cases)
  case replayed
  with assms(1) show ?thesis by simp
next
  case (applied d)
  have "draft_schema d"
  proof (rule foldE_invariant [OF applied(3)])
    show "draft_schema (draft_of s)"
      using assms(1) by (simp add: draft_schema_def draft_of_def snapshot_schema_def)
    show "draft_schema b" if "op \<in> set (mut_operations m)" "draft_schema a" "apply_operation a op = Inr b"
      for a op b
      using that assms(2) apply_operation_schema
      by (auto simp: committed_mutation_schema_def proposed_mutation_schema_def list_all_iff)
  qed
  with applied(5) assms(2) show ?thesis
    by (simp add: snapshot_schema_def draft_schema_def snapshot_of_def committed_mutation_schema_def)
qed

section \<open>Puts let entities evolve\<close>

definition draft_unique :: "draft \<Rightarrow> bool" where
  "draft_unique d \<longleftrightarrow>
     distinct (map run_id (dr_runs d)) \<and> distinct (map item_key (dr_items d))
     \<and> distinct (map int_id (dr_interactions d))"

definition draft_advances :: "draft \<Rightarrow> draft \<Rightarrow> bool" where
  "draft_advances d d' \<longleftrightarrow>
     session_evolves (dr_session d) (dr_session d') \<and> runs.advances (dr_runs d) (dr_runs d')
     \<and> items.advances (dr_items d) (dr_items d')
     \<and> interactions.advances (dr_interactions d) (dr_interactions d')"

lemma draft_advances_refl: "draft_advances d d"
  by (simp add: draft_advances_def session_evolves_refl runs.advances_refl items.advances_refl
      interactions.advances_refl)

lemma draft_advances_trans: "draft_advances a b \<Longrightarrow> draft_advances b c \<Longrightarrow> draft_advances a c"
  unfolding draft_advances_def
  using session_evolves_trans runs.advances_trans items.advances_trans interactions.advances_trans
  by blast

lemma put_operation_advances:
  assumes "apply_operation d op = Inr d'" "\<not> is_remove op" "draft_unique d"
  shows "draft_unique d' \<and> draft_advances d d'"
proof (cases op)
  case (PutSession s)
  then show ?thesis
    using assms assertSessionTransition_evolves
    by (auto simp: draft_unique_def draft_advances_def runs.advances_refl items.advances_refl
        interactions.advances_refl)
next
  case (PutRun r)
  then show ?thesis
    using assms runs.put_distinct runs.put_advances
    by (auto simp: draft_unique_def draft_advances_def session_evolves_refl items.advances_refl
        interactions.advances_refl)
next
  case (PutItem it)
  then show ?thesis
    using assms items.put_distinct items.put_advances
    by (auto simp: draft_unique_def draft_advances_def session_evolves_refl runs.advances_refl
        interactions.advances_refl)
next
  case (PutInteraction i)
  then show ?thesis
    using assms interactions.put_distinct interactions.put_advances
    by (auto simp: draft_unique_def draft_advances_def session_evolves_refl items.advances_refl
        runs.advances_refl)
qed (use assms in auto)

lemma puts_advance:
  assumes "foldE apply_operation d ops = Inr d'" "list_all (\<lambda>op. \<not> is_remove op) ops" "draft_unique d"
  shows "draft_unique d' \<and> draft_advances d d'"
proof (rule foldE_invariant [OF assms(1)])
  show "draft_unique d \<and> draft_advances d d" using assms(3) draft_advances_refl by blast
  show "draft_unique t \<and> draft_advances d t"
    if "op \<in> set ops" "draft_unique s \<and> draft_advances d s" "apply_operation s op = Inr t" for s op t
    using that assms(2) put_operation_advances [of s op t] draft_advances_trans [of d s t]
    by (auto simp: list_all_iff)
qed

text \<open>A Mutation either only puts or only removes.\<close>

lemma mutation_is_puts_or_removes:
  assumes "assert_mutation s m = Inr ()"
  shows "list_all is_remove (mut_operations m) \<or> list_all (\<lambda>op. \<not> is_remove op) (mut_operations m)"
  using assms by (auto simp: assert_mutation_ok list_ex_iff list_all_iff)

lemma draft_of_unique: "unique_identities s \<Longrightarrow> draft_unique (draft_of s)"
  by (simp add: unique_identities_def draft_unique_def draft_of_def)

lemma applyMutation_effect:
  assumes "applyMutation s m = Inr t" "unique_identities s"
  shows "prunes (draft_of s) (draft_of t)
    \<or> draft_unique (draft_of t) \<and> draft_advances (draft_of s) (draft_of t)"
  using assms(1)
proof (cases rule: applyMutation_cases)
  case replayed
  with assms(2) show ?thesis using draft_of_unique draft_advances_refl by blast
next
  case (applied d)
  have t: "draft_of t = d" using applied(5) by (simp add: draft_of_def snapshot_of_def)
  from mutation_is_puts_or_removes [OF applied(2)] show ?thesis
  proof
    assume "list_all is_remove (mut_operations m)"
    with applied(3) t show ?thesis using removals_prune by blast
  next
    assume "list_all (\<lambda>op. \<not> is_remove op) (mut_operations m)"
    with applied(3) t assms(2) show ?thesis using puts_advance draft_of_unique by blast
  qed
qed

text \<open>
  The four evolution facts, for any two entities with the same identity before and
  after one Mutation.
\<close>

lemma same_key_eq: "distinct (map k xs) \<Longrightarrow> x \<in> set xs \<Longrightarrow> y \<in> set xs \<Longrightarrow> k y = k x \<Longrightarrow> y = x"
  by (metis distinct_map inj_onD)

lemma applyMutation_evolves:
  assumes "applyMutation s m = Inr t" "unique_identities s"
  shows "session_evolves (snap_session s) (snap_session t)"
    and "r \<in> set (snap_runs s) \<Longrightarrow> r' \<in> set (snap_runs t) \<Longrightarrow> run_id r' = run_id r \<Longrightarrow> run_evolves r r'"
    and "it \<in> set (snap_items s) \<Longrightarrow> it' \<in> set (snap_items t) \<Longrightarrow> item_key it' = item_key it
      \<Longrightarrow> item_evolves it it'"
    and "i \<in> set (snap_interactions s) \<Longrightarrow> i' \<in> set (snap_interactions t) \<Longrightarrow> int_id i' = int_id i
      \<Longrightarrow> interaction_evolves i i'"
proof -
  note effect = applyMutation_effect [OF assms]
  show "session_evolves (snap_session s) (snap_session t)"
    using effect by (auto simp: prunes_def draft_advances_def draft_of_def session_evolves_refl)
  show "run_evolves r r'" if "r \<in> set (snap_runs s)" "r' \<in> set (snap_runs t)" "run_id r' = run_id r"
    using effect
  proof
    assume "prunes (draft_of s) (draft_of t)"
    then have "r' = r"
      using that assms(2) same_key_eq [of run_id]
      by (auto simp: prunes_def draft_of_def unique_identities_def)
    then show ?thesis using runs.evolves_refl by simp
  next
    assume "draft_unique (draft_of t) \<and> draft_advances (draft_of s) (draft_of t)"
    then show ?thesis
      using that by (auto simp: draft_unique_def draft_advances_def draft_of_def
          intro: runs.advances_same_key)
  qed
  show "item_evolves it it'"
    if "it \<in> set (snap_items s)" "it' \<in> set (snap_items t)" "item_key it' = item_key it"
    using effect
  proof
    assume "prunes (draft_of s) (draft_of t)"
    then have "it' = it"
      using that assms(2) same_key_eq [of item_key]
      by (auto simp: prunes_def draft_of_def unique_identities_def)
    then show ?thesis using items.evolves_refl by simp
  next
    assume "draft_unique (draft_of t) \<and> draft_advances (draft_of s) (draft_of t)"
    then show ?thesis
      using that by (intro items.advances_same_key)
        (auto simp: draft_unique_def draft_advances_def draft_of_def)
  qed
  show "interaction_evolves i i'"
    if "i \<in> set (snap_interactions s)" "i' \<in> set (snap_interactions t)" "int_id i' = int_id i"
    using effect
  proof
    assume "prunes (draft_of s) (draft_of t)"
    then have "i' \<in> set (snap_interactions s)" using that(2) by (auto simp: prunes_def draft_of_def)
    then have "i' = i"
      using that(1,3) assms(2) unfolding unique_identities_def
      by (intro same_key_eq [of int_id "snap_interactions s"]) auto
    then show ?thesis using interactions.evolves_refl by simp
  next
    assume "draft_unique (draft_of t) \<and> draft_advances (draft_of s) (draft_of t)"
    then show ?thesis
      using that by (auto simp: draft_unique_def draft_advances_def draft_of_def
          intro: interactions.advances_same_key)
  qed
qed

section \<open>Revisions and replays\<close>

lemma apply_operation_session_id:
  assumes "apply_operation d op = Inr d'"
  shows "ses_id (dr_session d') = ses_id (dr_session d)"
proof (cases op)
  case (PutSession s)
  then have "session_evolves (dr_session d) s" "dr_session d' = s"
    using assms by (auto intro: assertSessionTransition_evolves)
  then show ?thesis by (simp add: session_evolves_def)
next
  case (RemoveRun i reason)
  then have "prunes d d'" using assms remove_run_prunes by simp
  then show ?thesis by (simp add: prunes_def)
qed (use assms in auto)

lemma applyMutation_revision:
  assumes "applyMutation s m = Inr t"
  shows "snap_revision t = max (snap_revision s) (mut_revision m)
    \<and> snap_revision t \<le> snap_revision s + 1 \<and> ses_id (snap_session t) = ses_id (snap_session s)"
  using assms
proof (cases rule: applyMutation_cases)
  case (applied d)
  have "ses_id (dr_session d) = ses_id (snap_session s)"
  proof (rule foldE_invariant [OF applied(3)])
    show "ses_id (dr_session b) = ses_id (snap_session s)"
      if "ses_id (dr_session a) = ses_id (snap_session s)" "apply_operation a op = Inr b" for a op b
      using that apply_operation_session_id by simp
  qed (simp add: draft_of_def)
  moreover have "mut_revision m = snap_revision s + 1"
    using applied(2) by (simp only: assert_mutation_ok)
  ultimately show ?thesis using applied(5) by (simp add: snapshot_of_def)
qed auto

lemma applyMutation_replay:
  assumes "applyMutation s m = Inr t"
  shows "applyMutation t m = Inr t"
proof -
  have "mut_sessionId m = ses_id (snap_session t)" "mut_revision m \<le> snap_revision t"
    using applyMutation_revision [OF assms] applyMutation_session [OF assms] by simp_all
  then show ?thesis by (simp add: applyMutation_def)
qed

section \<open>Batches\<close>

lemma sync_chain_None:
  "sync_chain e None ms \<longleftrightarrow> (case ms of [] \<Rightarrow> True | m # _ \<Rightarrow> sync_chain e (Some (mut_sessionId m)) ms)"
  by (cases ms) auto

lemma sync_chain_append:
  "sync_chain e (Some sid) (xs @ ys) \<longleftrightarrow>
     sync_chain e (Some sid) xs \<and> sync_chain (e + length xs) (Some sid) ys"
  by (induction xs arbitrary: e) auto

lemma sync_chain_filter:
  "sync_chain e (Some sid) ms \<Longrightarrow> filter (\<lambda>m. k < mut_revision m) ms = drop (k + 1 - e) ms"
proof (induction ms arbitrary: e)
  case (Cons m ms)
  then have "mut_revision m = e" "filter (\<lambda>m. k < mut_revision m) ms = drop (k + 1 - Suc e) ms"
    by (auto simp: Let_def)
  then show ?case by (cases "k < e") (auto simp: Suc_diff_le drop_Cons')
qed simp

lemma sync_chain_session: "sync_chain e (Some sid) ms \<Longrightarrow> m \<in> set ms \<Longrightarrow> mut_sessionId m = sid"
  by (induction ms arbitrary: e) auto

lemma foldE_applyMutation_revision:
  assumes "foldE applyMutation s ms = Inr t" "sync_chain (snap_revision s + 1) (Some sid) ms"
  shows "snap_revision t = snap_revision s + length ms
    \<and> ses_id (snap_session t) = ses_id (snap_session s)"
  using assms
proof (induction ms arbitrary: s)
  case (Cons m ms)
  then obtain u where u: "applyMutation s m = Inr u" "foldE applyMutation u ms = Inr t" by auto
  have "snap_revision u = snap_revision s + 1 \<and> ses_id (snap_session u) = ses_id (snap_session s)"
    using applyMutation_revision [OF u(1)] Cons.prems(2) by (auto simp: Let_def)
  with Cons.IH [OF u(2)] Cons.prems(2) show ?case by (auto simp: Let_def)
qed simp

lemma foldE_applyMutation_valid:
  assumes "foldE applyMutation s ms = Inr t" "snapshot_schema s" "validateState s = Inr ()"
    "list_all committed_mutation_schema ms"
  shows "snapshot_schema t \<and> validateState t = Inr ()"
proof (rule foldE_invariant [OF assms(1)])
  show "snapshot_schema s \<and> validateState s = Inr ()" using assms(2,3) by simp
  show "snapshot_schema b \<and> validateState b = Inr ()"
    if "m \<in> set ms" "snapshot_schema a \<and> validateState a = Inr ()" "applyMutation a m = Inr b" for a m b
    using that assms(4) applyMutation_schema [of a m b]
    by (auto simp: list_all_iff elim!: applyMutation_cases)
qed

section \<open>Committed Mutations\<close>

lemma applyCommittedMutation_ok:
  "applyCommittedMutation s m = Inr t \<Longrightarrow>
    snapshot_schema s \<and> validateState s = Inr () \<and> committed_mutation_schema m
    \<and> applyMutation s m = Inr t"
  by (auto simp: applyCommittedMutation_def dest: validateSessionSnapshot_ok split: if_splits)

lemma applyMutation_valid:
  "applyMutation s m = Inr t \<Longrightarrow> validateState s = Inr () \<Longrightarrow> validateState t = Inr ()"
  by (erule applyMutation_cases) auto

lemma applyCommittedMutation_evolves:
  assumes "applyCommittedMutation s m = Inr t"
  shows "session_evolves (snap_session s) (snap_session t)"
    and "r \<in> set (snap_runs s) \<Longrightarrow> r' \<in> set (snap_runs t) \<Longrightarrow> run_id r' = run_id r \<Longrightarrow> run_evolves r r'"
    and "it \<in> set (snap_items s) \<Longrightarrow> it' \<in> set (snap_items t) \<Longrightarrow>
      item_runId it' = item_runId it \<Longrightarrow> item_id it' = item_id it \<Longrightarrow> item_evolves it it'"
    and "i \<in> set (snap_interactions s) \<Longrightarrow> i' \<in> set (snap_interactions t) \<Longrightarrow> int_id i' = int_id i
      \<Longrightarrow> interaction_evolves i i'"
proof -
  note c = applyCommittedMutation_ok [OF assms]
  then have "unique_identities s" using validateState_sound by (simp add: wf_snapshot_def)
  with c applyMutation_evolves [of s m t]
  show "session_evolves (snap_session s) (snap_session t)"
    "r \<in> set (snap_runs s) \<Longrightarrow> r' \<in> set (snap_runs t) \<Longrightarrow> run_id r' = run_id r \<Longrightarrow> run_evolves r r'"
    "it \<in> set (snap_items s) \<Longrightarrow> it' \<in> set (snap_items t) \<Longrightarrow>
      item_runId it' = item_runId it \<Longrightarrow> item_id it' = item_id it \<Longrightarrow> item_evolves it it'"
    "i \<in> set (snap_interactions s) \<Longrightarrow> i' \<in> set (snap_interactions t) \<Longrightarrow> int_id i' = int_id i
      \<Longrightarrow> interaction_evolves i i'"
    by (simp_all)
qed

end
