(* ===== verification/Session_Sync.thy ===== *)
theory Session_Sync
  imports Reducer_Properties
begin

text \<open>
  A client that follows a Session: \<open>applySyncPayload\<close> never goes back, reaches exactly the
  revision of the payload or stays ahead of it, keeps its snapshot valid, and does not
  care how a sequence of Mutations was cut into payloads or which of them it had already.
\<close>

section \<open>Chains of Mutations\<close>

lemma sync_chain_Cons:
  "sync_chain e (Some sid) (m # ms) \<longleftrightarrow>
     mut_baseRevision m + 1 = e \<and> mut_revision m = e \<and> mut_sessionId m = sid
     \<and> sync_chain (Suc e) (Some sid) ms"
  by (auto simp: Let_def)

lemma sync_chain_exists: "sync_chain e None ms \<Longrightarrow> \<exists>sid. sync_chain e (Some sid) ms"
  by (cases ms) (auto simp: Let_def)

lemma sync_chain_drop: "sync_chain e (Some sid) ms \<Longrightarrow> sync_chain (e + n) (Some sid) (drop n ms)"
proof (induction ms arbitrary: e n)
  case (Cons m ms)
  then show ?case
    using Cons.IH [of "Suc e" "n - 1"]
    by (cases n) (auto simp: sync_chain_Cons simp del: sync_chain.simps(2))
qed simp

lemma sync_chain_revisions:
  "sync_chain e (Some sid) ms \<Longrightarrow> m \<in> set ms \<Longrightarrow> e \<le> mut_revision m \<and> mut_revision m < e + length ms"
proof (induction ms arbitrary: e)
  case (Cons m' ms)
  then show ?case by (fastforce simp: sync_chain_Cons simp del: sync_chain.simps(2))
qed simp

lemma filter_chain:
  assumes "sync_chain (b + 1) (Some sid) ms" "b \<le> k"
  shows "sync_chain (k + 1) (Some sid) (filter (\<lambda>m. k < mut_revision m) ms)"
    and "length (filter (\<lambda>m. k < mut_revision m) ms) = b + length ms - k"
  using sync_chain_filter [OF assms(1), of k] sync_chain_drop [OF assms(1), of "k - b"] assms(2)
  by simp_all

section \<open>Following a batch\<close>

text \<open>The part of \<open>apply_mutation_sync\<close> after its checks.\<close>

definition follow :: "snapshot \<Rightarrow> committed_mutation list \<Rightarrow> contract_error + snapshot" where
  "follow current ms = foldE applyMutation current (filter (\<lambda>m. snap_revision current < mut_revision m) ms)"

lemma follow_revision:
  assumes "follow c ms = Inr t" "sync_chain (b + 1) (Some sid) ms" "b \<le> snap_revision c"
  shows "snap_revision t = max (snap_revision c) (b + length ms)"
proof -
  note chain = filter_chain [OF assms(2,3)]
  have "snap_revision t = snap_revision c + (b + length ms - snap_revision c)"
    using foldE_applyMutation_revision [of c _ t sid] assms(1) chain
    by (simp add: follow_def)
  then show ?thesis by simp
qed

lemma follow_valid:
  assumes "follow c ms = Inr t" "snapshot_schema c" "validateState c = Inr ()"
    "list_all committed_mutation_schema ms"
  shows "snapshot_schema t \<and> validateState t = Inr ()"
  using foldE_applyMutation_valid [OF assms(1) [unfolded follow_def] assms(2,3)] assms(4)
  by (auto simp: list_all_iff)

lemma follow_append:
  assumes "follow c (xs @ ys) = Inr t" "sync_chain (b + 1) (Some sid) (xs @ ys)" "b \<le> snap_revision c"
  shows "\<exists>u. follow c xs = Inr u \<and> follow u ys = Inr t \<and> follow u (xs @ ys) = Inr t"
proof -
  let ?new = "\<lambda>k. filter (\<lambda>m. k < mut_revision m)"
  from assms(1) obtain u where u: "foldE applyMutation c (?new (snap_revision c) xs) = Inr u"
    "foldE applyMutation u (?new (snap_revision c) ys) = Inr t"
    by (auto simp: follow_def foldE_append)
  have xs: "sync_chain (b + 1) (Some sid) xs" and ys: "sync_chain (b + length xs + 1) (Some sid) ys"
    using assms(2) by (simp_all add: sync_chain_append)
  have rev: "snap_revision u = max (snap_revision c) (b + length xs)"
    using follow_revision [OF _ xs assms(3)] u(1) by (simp add: follow_def)
  have "b + length xs < mut_revision m" if "m \<in> set ys" for m
    using sync_chain_revisions [OF ys that] by simp
  then have "?new (snap_revision u) ys = ?new (snap_revision c) ys"
    using rev by (intro filter_cong) auto
  moreover have "?new (snap_revision u) xs = []"
    using sync_chain_revisions [OF xs] rev by (fastforce simp: filter_empty_conv)
  ultimately show ?thesis using u by (auto simp: follow_def)
qed

lemma apply_mutation_sync_ok:
  assumes "sync_payload_schema (MutationSync b th ms)"
  shows "apply_mutation_sync mb current b th ms limits = Inr t \<longleftrightarrow>
    admit_mutations mb ms limits = Inr ()
    \<and> (\<exists>c. current = Some c \<and> b \<le> snap_revision c
        \<and> (case ms of [] \<Rightarrow> True | m # _ \<Rightarrow> mut_sessionId m = ses_id (snap_session c))
        \<and> follow c ms = Inr t)"
proof -
  obtain sid where chain: "sync_chain (b + 1) (Some sid) ms" and th: "th = b + length ms"
    using assms sync_chain_exists by auto
  have ahead: "follow c ms = Inr c" if "th \<le> snap_revision c" for c
  proof -
    have "filter (\<lambda>m. snap_revision c < mut_revision m) ms = []"
      using sync_chain_revisions [OF chain] th that by (fastforce simp: filter_empty_conv)
    then show ?thesis by (simp add: follow_def)
  qed
  show ?thesis
  proof (cases current)
    case (Some c)
    then show ?thesis
      using ahead [of c]
      by (cases "th \<le> snap_revision c") (auto simp: apply_mutation_sync_def follow_def)
  qed (auto simp: apply_mutation_sync_def)
qed

section \<open>Synchronisation payloads\<close>

fun payload_through :: "sync_payload \<Rightarrow> nat" where
  "payload_through (SnapshotSync s _) = snap_revision s"
| "payload_through (MutationSync _ throughRevision _) = throughRevision"

definition current_revision :: "snapshot option \<Rightarrow> nat" where
  "current_revision current = (case current of None \<Rightarrow> 0 | Some c \<Rightarrow> snap_revision c)"

lemma applySyncPayload_ok:
  "applySyncPayload sb mb current payload limits = Inr t \<Longrightarrow>
    sync_payload_schema payload
    \<and> opt_all (\<lambda>c. snapshot_schema c \<and> validateState c = Inr ()) current
    \<and> (case payload of
         SnapshotSync s _ \<Rightarrow> apply_snapshot_sync sb current s limits = Inr t
       | MutationSync b th ms \<Rightarrow> apply_mutation_sync mb current b th ms limits = Inr t)"
  by (cases current; cases payload)
    (auto simp: applySyncPayload_def dest: validateSessionSnapshot_ok split: if_splits)

lemma apply_snapshot_sync_ok:
  assumes "apply_snapshot_sync sb current s limits = Inr t"
  shows "snapshot_schema s \<and> validateState s = Inr () \<and> (t = s \<or> current = Some t)
    \<and> snap_revision t = max (current_revision current) (snap_revision s)"
proof -
  from assms obtain n limits' where v: "validateSessionSnapshot sb s limits' = Inr n"
    and n: "advance_to current n = Inr t"
    unfolding apply_snapshot_sync_def by (rule bindE_InrE) blast
  from validateSessionSnapshot_ok [OF v] have "n = s" "snapshot_schema s" "validateState s = Inr ()"
    by simp_all
  with n have nxt: "advance_to current s = Inr t" by simp
  moreover have "(t = s \<or> current = Some t) \<and> snap_revision t = max (current_revision current) (snap_revision s)"
  proof (cases current)
    case None
    with nxt show ?thesis by (simp add: advance_to_def current_revision_def)
  next
    case (Some c)
    with nxt show ?thesis by (auto simp: advance_to_def current_revision_def split: if_split_asm)
  qed
  ultimately show ?thesis using \<open>snapshot_schema s\<close> \<open>validateState s = Inr ()\<close> by blast
qed

lemma applySyncPayload_revision:
  assumes "applySyncPayload sb mb current payload limits = Inr t"
  shows "snap_revision t = max (current_revision current) (payload_through payload)"
proof (cases payload)
  case (SnapshotSync s minimum)
  with applySyncPayload_ok [OF assms] apply_snapshot_sync_ok show ?thesis by auto
next
  case (MutationSync b th ms)
  note all = applySyncPayload_ok [OF assms, unfolded MutationSync sync_payload.case]
  have schema: "sync_payload_schema (MutationSync b th ms)"
    and ok: "apply_mutation_sync mb current b th ms limits = Inr t"
    using all by blast+
  from apply_mutation_sync_ok [OF schema] ok obtain c where c: "current = Some c"
    "b \<le> snap_revision c" "follow c ms = Inr t" by auto
  from schema obtain sid where "sync_chain (b + 1) (Some sid) ms" "th = b + length ms"
    using sync_chain_exists by auto
  with follow_revision [OF c(3)] c(1,2) MutationSync show ?thesis by (simp add: current_revision_def)
qed

lemma applySyncPayload_valid:
  assumes "applySyncPayload sb mb current payload limits = Inr t"
  shows "snapshot_schema t \<and> validateState t = Inr ()"
proof (cases payload)
  case (SnapshotSync s minimum)
  with applySyncPayload_ok [OF assms] apply_snapshot_sync_ok [of sb current s limits t] show ?thesis
    by auto
next
  case (MutationSync b th ms)
  note all = applySyncPayload_ok [OF assms, unfolded MutationSync sync_payload.case]
  have schema: "sync_payload_schema (MutationSync b th ms)"
    and ok: "apply_mutation_sync mb current b th ms limits = Inr t"
    and current: "opt_all (\<lambda>c. snapshot_schema c \<and> validateState c = Inr ()) current"
    using all by blast+
  from apply_mutation_sync_ok [OF schema] ok current obtain c where
    "follow c ms = Inr t" "snapshot_schema c" "validateState c = Inr ()" by auto
  with schema show ?thesis by (intro follow_valid [of c ms]) simp_all
qed

lemma validateSessionSnapshot_valid:
  "snapshot_schema s \<Longrightarrow> validateState s = Inr () \<Longrightarrow> validateSessionSnapshot sb s None = Inr s"
  by (simp add: validateSessionSnapshot_def)

lemma applySyncPayload_mutations:
  assumes "sync_payload_schema (MutationSync b th ms)" "snapshot_schema c" "validateState c = Inr ()"
  shows "applySyncPayload sb mb (Some c) (MutationSync b th ms) None = Inr t \<longleftrightarrow>
    b \<le> snap_revision c
    \<and> (case ms of [] \<Rightarrow> True | m # _ \<Rightarrow> mut_sessionId m = ses_id (snap_session c))
    \<and> follow c ms = Inr t"
  using assms(1) apply_mutation_sync_ok [OF assms(1), of mb "Some c" None t]
    validateSessionSnapshot_valid [OF assms(2,3)]
  by (simp add: applySyncPayload_def admit_mutations_def del: sync_payload_schema.simps)

text \<open>
  A batch may be cut anywhere: after its first part, the rest alone or the whole batch
  again leads to the same snapshot.
\<close>

lemma sync_resumes:
  assumes "applySyncPayload sb mb (Some c) (MutationSync b th (xs @ ys)) None = Inr t"
  shows "\<exists>u. applySyncPayload sb mb (Some c) (MutationSync b (b + length xs) xs) None = Inr u
    \<and> applySyncPayload sb mb (Some u) (MutationSync (b + length xs) th ys) None = Inr t
    \<and> applySyncPayload sb mb (Some u) (MutationSync b th (xs @ ys)) None = Inr t"
proof -
  note all = applySyncPayload_ok [OF assms, unfolded sync_payload.case]
  have schema: "sync_payload_schema (MutationSync b th (xs @ ys))" using all by blast
  have c: "snapshot_schema c" "validateState c = Inr ()" using all by simp_all
  note whole = applySyncPayload_mutations [OF schema c, of sb mb t, THEN iffD1, OF assms]
  have follow: "follow c (xs @ ys) = Inr t" "b \<le> snap_revision c"
    "case xs @ ys of [] \<Rightarrow> True | m # _ \<Rightarrow> mut_sessionId m = ses_id (snap_session c)"
    by (rule whole [THEN conjunct2, THEN conjunct2], rule whole [THEN conjunct1],
      rule whole [THEN conjunct2, THEN conjunct1])
  obtain sid where chain: "sync_chain (b + 1) (Some sid) (xs @ ys)"
    using schema sync_chain_exists [of "b + 1" "xs @ ys"] by auto
  then have xs: "sync_chain (b + 1) (Some sid) xs"
    and ys: "sync_chain (b + length xs + 1) (Some sid) ys" by (simp_all add: sync_chain_append)
  obtain u where u: "follow c xs = Inr u" "follow u ys = Inr t" "follow u (xs @ ys) = Inr t"
    using follow_append [OF follow(1) chain follow(2)] by blast
  have th: "th = b + length xs + length ys" using schema by simp
  have chains: "sync_chain (b + 1) None xs" "sync_chain (b + length xs + 1) None ys"
    using xs ys by (cases xs; cases ys; simp add: sync_chain_None sync_chain_Cons del: sync_chain.simps)+
  have schemas: "sync_payload_schema (MutationSync b (b + length xs) xs)"
    "sync_payload_schema (MutationSync (b + length xs) th ys)"
    using schema chains th by (auto simp: safe_nat_def simp del: sync_chain.simps)
  have valid: "snapshot_schema u" "validateState u = Inr ()"
    using follow_valid [OF u(1) c] schema by simp_all
  have rev: "snap_revision u = max (snap_revision c) (b + length xs)"
    by (rule follow_revision [OF u(1) xs follow(2)])
  have ses: "ses_id (snap_session u) = ses_id (snap_session c)"
    using foldE_applyMutation_revision [of c _ u sid] u(1) filter_chain [OF xs follow(2)]
    by (simp add: follow_def)
  have sid: "m \<in> set (xs @ ys) \<Longrightarrow> mut_sessionId m = ses_id (snap_session c)" for m
    using sync_chain_session [OF chain] follow(3) by (cases "xs @ ys") auto
  have heads: "case zs of [] \<Rightarrow> True | m # _ \<Rightarrow> mut_sessionId m = ses_id (snap_session c)"
    if "set zs \<subseteq> set (xs @ ys)" for zs
    using that sid by (cases zs) auto
  have heads': "case zs of [] \<Rightarrow> True | m # _ \<Rightarrow> mut_sessionId m = ses_id (snap_session u)"
    if "set zs \<subseteq> set (xs @ ys)" for zs
    unfolding ses using that by (rule heads)
  show ?thesis
    using u rev heads [of xs] heads' [of ys] heads' [of "xs @ ys"] follow(2)
    by (auto simp: applySyncPayload_mutations [OF schemas(1) c] applySyncPayload_mutations [OF schemas(2) valid]
        applySyncPayload_mutations [OF schema valid])
qed

section \<open>The activity of a Session\<close>

lemma open_blocking_active_run:
  assumes "wf_snapshot s" "i \<in> set (snap_interactions s)" "int_status i = InteractionOpen"
  shows "\<exists>r\<in>set (snap_runs s). run_id r = int_runId i \<and> run_status r = Active"
  using assms by (auto simp: wf_snapshot_def activity_nested_def run_exists_def)

lemma session_activity_spec:
  assumes "wf_snapshot s"
  defines "active \<equiv> \<exists>r\<in>set (snap_runs s). run_status r = Active"
    and "blocked \<equiv> \<exists>i\<in>set (snap_interactions s). int_status i = InteractionOpen \<and> int_blocking i"
  shows "activity_of s = ActivityIdle \<longleftrightarrow> ses_status (snap_session s) = SessionOpen \<and> \<not> active"
    and "activity_of s = ActivityRunning \<longleftrightarrow> active \<and> \<not> blocked"
    and "activity_of s = ActivityRequiresAction \<longleftrightarrow> blocked"
    and "activity_of s = ActivityClosed \<longleftrightarrow> ses_status (snap_session s) = SessionClosed"
proof -
  have top: "list_ex is_active_top_level (snap_runs s) \<longleftrightarrow> active"
    using no_active_run_iff [of s] assms(1)
    by (auto simp: active_def list_ex_iff wf_snapshot_def)
  have ex: "list_ex (\<lambda>i. int_status i = InteractionOpen \<and> int_blocking i) (snap_interactions s) \<longleftrightarrow> blocked"
    by (auto simp: blocked_def list_ex_iff)
  have "blocked \<Longrightarrow> active"
    using open_blocking_active_run [OF assms(1)] by (auto simp: active_def blocked_def)
  moreover have "ses_status (snap_session s) = SessionClosed \<Longrightarrow> \<not> active"
    using assms(1) by (auto simp: wf_snapshot_def closed_is_quiet_def active_def)
  moreover have "ses_status (snap_session s) = SessionClosed \<or> ses_status (snap_session s) = SessionOpen"
    by (cases "ses_status (snap_session s)") simp_all
  ultimately show "activity_of s = ActivityIdle \<longleftrightarrow> ses_status (snap_session s) = SessionOpen \<and> \<not> active"
    "activity_of s = ActivityRunning \<longleftrightarrow> active \<and> \<not> blocked"
    "activity_of s = ActivityRequiresAction \<longleftrightarrow> blocked"
    "activity_of s = ActivityClosed \<longleftrightarrow> ses_status (snap_session s) = SessionClosed"
    unfolding activity_of_def top ex by auto
qed

end
