(* ===== verification/Instants.thy ===== *)
theory Instants
  imports Timestamps
begin

text \<open>
  The part of ECMAScript's Date that the contract library uses to compute a deadline:
  \<open>Date.parse\<close> to the millisecond, the time range of a Date, and \<open>toISOString\<close>.
  The rendering is shown to read back as the instant it was made from.
\<close>

section \<open>Reading milliseconds\<close>

definition fraction_ms :: "string \<Rightarrow> int" where
  "fraction_ms fraction = digits_value (take 3 (pad_end 3 fraction))"

text \<open>
  \<open>Date.parse\<close> of a timestamp in the format of \<open>timestampParts\<close>: the fraction counts to
  the millisecond, further digits are cut off.  \<open>None\<close> is \<open>NaN\<close>.
\<close>

definition date_parse_ms :: "timestamp \<Rightarrow> int option" where
  "date_parse_ms t =
     (case timestampParts t of
        Inr (Some second, fraction) \<Rightarrow> Some (second + fraction_ms fraction)
      | _ \<Rightarrow> None)"

section \<open>Rendering an instant\<close>

definition digit_char :: "int \<Rightarrow> char" where
  "digit_char n = char_of (nat (48 + n mod 10))"

definition pad2 :: "int \<Rightarrow> string" where
  "pad2 n = [digit_char (n div 10), digit_char n]"

definition pad3 :: "int \<Rightarrow> string" where
  "pad3 n = digit_char (n div 100) # pad2 n"

definition pad4 :: "int \<Rightarrow> string" where
  "pad4 n = pad2 (n div 100) @ pad2 n"

text \<open>
  \<open>YearFromTime\<close>: the largest year that starts on or before a day.  The search starts at
  a year that is not after it.
\<close>

lemma succ_div:
  fixes a k :: int
  assumes "0 < k"
  shows "(a + 1) div k = a div k + (if k dvd a + 1 then 1 else 0)"
proof -
  let ?r = "a mod k"
  have a: "a + 1 = k * (a div k) + (?r + 1)" by simp
  have r: "0 \<le> ?r" "?r < k" using assms by simp_all
  show ?thesis
  proof (cases "?r + 1 = k")
    case True
    then have "a + 1 = k * (a div k + 1)" using a by (simp add: algebra_simps)
    then show ?thesis using assms by simp
  next
    case False
    then have "(a + 1) div k = a div k" using a r by (intro int_div_pos_eq [of _ _ _ "?r + 1"]) auto
    moreover have "(a + 1) mod k = ?r + 1" using a r False by (intro int_mod_pos_eq [of _ _ "a div k"]) auto
    ultimately show ?thesis using r by (auto simp: dvd_eq_mod_eq_0)
  qed
qed

lemma leap_days:
  "(r \<Longrightarrow> q) \<Longrightarrow> (q \<Longrightarrow> p) \<Longrightarrow>
    365 + (if p then 1 else 0) - (if q then 1 else 0) + (if r then 1 else 0)
      = (if p \<and> (\<not> q \<or> r) then 366 else (365 :: int))"
  by (cases p; cases q; cases r) simp_all

lemma day_from_year_succ:
  "day_from_year (y + 1) = day_from_year y + (if leap_year y then 366 else 365)"
proof -
  have "y + 1 - 1969 = (y - 1969) + 1" "y + 1 - 1901 = (y - 1901) + 1" "y + 1 - 1601 = (y - 1601) + 1"
    by simp_all
  moreover have "4 dvd y - 1969 + 1 \<longleftrightarrow> 4 dvd y" "100 dvd y - 1901 + 1 \<longleftrightarrow> 100 dvd y"
    "400 dvd y - 1601 + 1 \<longleftrightarrow> 400 dvd y"
    using dvd_diff_left_iff [of 4 1968 y] dvd_diff_left_iff [of 100 1900 y]
      dvd_diff_left_iff [of 400 1600 y] by simp_all
  ultimately have steps:
    "(y + 1 - 1969) div 4 = (y - 1969) div 4 + (if 4 dvd y then 1 else 0)"
    "(y + 1 - 1901) div 100 = (y - 1901) div 100 + (if 100 dvd y then 1 else 0)"
    "(y + 1 - 1601) div 400 = (y - 1601) div 400 + (if 400 dvd y then 1 else 0)"
    by (simp_all only: succ_div [of 4] succ_div [of 100] succ_div [of 400] zero_less_numeral)
  have "400 dvd y \<Longrightarrow> 100 dvd y" "100 dvd y \<Longrightarrow> 4 dvd y"
    using dvd_trans [of 100 400 y] dvd_trans [of 4 100 y] by simp_all
  then have leap: "365 + (if 4 dvd y then 1 else 0) - (if 100 dvd y then 1 else 0)
      + (if 400 dvd y then 1 else 0) = (if leap_year y then 366 else (365 :: int))"
    unfolding leap_year_def dvd_eq_mod_eq_0 [symmetric]
    by (rule leap_days)
  have sum: "365 * (y + 1 - 1970) + (a + i) - (b + j) + (c + k)
      = (365 * (y - 1970) + a - b + c) + (365 + i - j + k)" for a b c i j k :: int
    by simp
  show ?thesis
    unfolding day_from_year_def steps leap [symmetric] by (rule sum)
qed

lemma day_from_year_step: "day_from_year y + 365 \<le> day_from_year (y + 1)"
  by (simp add: day_from_year_succ)

function year_search :: "int \<Rightarrow> int \<Rightarrow> int" where
  "year_search d y = (if day_from_year (y + 1) \<le> d then year_search d (y + 1) else y)"
  by pat_completeness auto
termination
proof (relation "measure (\<lambda>(d, y). nat (d - day_from_year y))", goal_cases)
  case (2 d y)
  then show ?case using day_from_year_step [of y] by auto
qed simp

declare year_search.simps [simp del]

definition year_of_day :: "int \<Rightarrow> int" where
  "year_of_day d = year_search d (1970 + min (d div 365) (d div 366))"

fun month_search :: "bool \<Rightarrow> int \<Rightarrow> nat \<Rightarrow> nat" where
  "month_search leap day 0 = 0"
| "month_search leap day (Suc m) =
     (if days_before_month leap (Suc m) \<le> day then Suc m else month_search leap day m)"

definition toISOString :: "int \<Rightarrow> string" where
  "toISOString ms =
     (let d = ms div 86400000; rest = ms mod 86400000;
          year = year_of_day d; leap = leap_year year;
          day = d - day_from_year year;
          month = month_search leap day 12;
          second = rest div 1000
      in pad4 year @ ''-'' @ pad2 (int month) @ ''-'' @ pad2 (day - days_before_month leap month + 1)
           @ ''T'' @ pad2 (second div 3600) @ '':'' @ pad2 (second div 60 mod 60) @ '':''
           @ pad2 (second mod 60) @ ''.'' @ pad3 (rest mod 1000) @ ''Z'')"

text \<open>The instants whose year has four digits.\<close>

definition four_digit_year :: "int \<Rightarrow> bool" where
  "four_digit_year ms \<longleftrightarrow> 0 \<le> year_of_day (ms div 86400000) \<and> year_of_day (ms div 86400000) \<le> 9999"

text \<open>The time range of a Date.\<close>

definition date_in_range :: "int \<Rightarrow> bool" where
  "date_in_range ms \<longleftrightarrow> \<bar>ms\<bar> \<le> 8640000000000000"

lemma toISOString_examples:
  "toISOString 0 = ''1970-01-01T00:00:00.000Z''"
  "toISOString 1709164799999 = ''2024-02-28T23:59:59.999Z''"
  "toISOString 1709208000500 = ''2024-02-29T12:00:00.500Z''"
  "toISOString (-1) = ''1969-12-31T23:59:59.999Z''"
  by code_simp+

section \<open>The year and the month of a day\<close>

lemma year_search_bounds:
  "day_from_year y \<le> d \<Longrightarrow>
    day_from_year (year_search d y) \<le> d \<and> d < day_from_year (year_search d y + 1)"
proof (induction d y rule: year_search.induct)
  case (1 d y)
  then show ?case by (cases "day_from_year (y + 1) \<le> d") (simp_all add: year_search.simps [of d y])
qed

lemma day_from_year_after: "0 \<le> k \<Longrightarrow> day_from_year (1970 + k) \<le> 366 * k"
proof (induction k rule: int_ge_induct)
  case base
  show ?case by (simp add: day_from_year_def)
next
  case (step k)
  have "day_from_year (1970 + k + 1) \<le> day_from_year (1970 + k) + 366"
    by (simp only: day_from_year_succ) simp
  with step show ?case by (simp add: algebra_simps)
qed

lemma day_from_year_before: "k \<le> 0 \<Longrightarrow> day_from_year (1970 + k) \<le> 365 * k"
proof (induction k rule: int_le_induct)
  case base
  show ?case by (simp add: day_from_year_def)
next
  case (step k)
  have "day_from_year (1970 + (k - 1)) + 365 \<le> day_from_year (1970 + k)"
    using day_from_year_step [of "1970 + (k - 1)"] by (simp add: algebra_simps)
  with step show ?case by (simp add: algebra_simps)
qed

lemma year_of_day_bounds:
  "day_from_year (year_of_day d) \<le> d \<and> d < day_from_year (year_of_day d + 1)"
  unfolding year_of_day_def
proof (rule year_search_bounds)
  define k where "k = min (d div 365) (d div 366)"
  have "365 * (d div 365) \<le> d" "366 * (d div 366) \<le> d" by simp_all
  moreover have "k \<le> d div 365" "k \<le> d div 366" by (simp_all add: k_def)
  ultimately have "365 * k \<le> d" "366 * k \<le> d" by linarith+
  then show "day_from_year (1970 + k) \<le> d"
    using day_from_year_after [of k] day_from_year_before [of k] by linarith
qed

lemma month_search_bounds:
  assumes "0 \<le> day" "day < (if leap then 366 else 365)"
  shows "month_search leap day 12 \<in> {1..12}
    \<and> days_before_month leap (month_search leap day 12) \<le> day
    \<and> day < days_before_month leap (month_search leap day 12 + 1)"
  using assms
  by (cases leap) (simp_all add: eval_nat_numeral days_before_month_def)

section \<open>Reading back a rendered instant\<close>

lemma of_char_digit_char [simp]:
  "(of_char (digit_char n) :: nat) = nat (48 + n mod 10)"
  "(of_char (digit_char n) :: int) = 48 + n mod 10"
proof -
  show nat: "(of_char (digit_char n) :: nat) = nat (48 + n mod 10)"
    by (simp add: digit_char_def)
  have "(of_char (digit_char n) :: int) = int (of_char (digit_char n))"
    by (rule of_nat_of_char [symmetric])
  with nat show "(of_char (digit_char n) :: int) = 48 + n mod 10" by simp
qed

lemma is_digit_digit_char [simp]: "is_digit (digit_char n)"
proof -
  have "0 \<le> n mod 10" "n mod 10 < 10" by simp_all
  then show ?thesis unfolding is_digit_def of_char_digit_char by linarith
qed

lemma digits_value_Nil [simp]: "digits_value [] = 0"
  by (simp add: digits_value_def)

lemma digits_value_snoc: "digits_value (s @ [digit_char n]) = 10 * digits_value s + n mod 10"
  by (simp add: digits_value_def)

lemma digits_value_append_pad2: "digits_value (s @ pad2 n) = 100 * digits_value s + n mod 100"
proof -
  have "digits_value (s @ pad2 n) = 10 * (10 * digits_value s + n div 10 mod 10) + n mod 10"
    using digits_value_snoc [of "s @ [digit_char (n div 10)]" n] digits_value_snoc [of s "n div 10"]
    by (simp add: pad2_def)
  also have "\<dots> = 100 * digits_value s + n mod 100"
    using zmod_zmult2_eq [of 10 n 10] by simp
  finally show ?thesis .
qed

lemma digits_value_pad2: "0 \<le> n \<Longrightarrow> n < 100 \<Longrightarrow> digits_value (pad2 n) = n"
  using digits_value_append_pad2 [of "[]" n] by simp

lemma digits_value_pad3: "0 \<le> n \<Longrightarrow> n < 1000 \<Longrightarrow> digits_value (pad3 n) = n"
  using digits_value_append_pad2 [of "[digit_char (n div 100)]" n]
    digits_value_snoc [of "[]" "n div 100"]
  by (simp add: pad3_def)

lemma digits_value_pad4: "0 \<le> n \<Longrightarrow> n < 10000 \<Longrightarrow> digits_value (pad4 n) = n"
  using digits_value_append_pad2 [of "pad2 (n div 100)" n] digits_value_pad2 [of "n div 100"]
  by (simp add: pad4_def)

definition iso_text :: "int \<Rightarrow> int \<Rightarrow> int \<Rightarrow> int \<Rightarrow> int \<Rightarrow> int \<Rightarrow> int \<Rightarrow> string" where
  "iso_text year month day hour minute second ms =
     pad4 year @ ''-'' @ pad2 month @ ''-'' @ pad2 day @ ''T'' @ pad2 hour @ '':'' @ pad2 minute
       @ '':'' @ pad2 second @ ''.'' @ pad3 ms @ ''Z''"

lemma length_pads [simp]: "length (pad2 n) = 2" "length (pad3 n) = 3" "length (pad4 n) = 4"
  by (simp_all add: pad2_def pad3_def pad4_def)

lemma timestampParts_iso_text:
  "timestampParts (iso_text year month day hour minute second ms) =
     Inr (date_parse (take 19 (iso_text year month day hour minute second ms)) ''Z'', pad3 ms)"
  by (simp add: timestampParts_def iso_text_def pad2_def pad3_def pad4_def date_time_shape_def
      is_digit_def [of "CHR ''Z''"] is_zone_def)

lemma iso_text_fields:
  fixes year month day hour minute second ms :: int
  defines "t \<equiv> take 19 (iso_text year month day hour minute second ms)"
  shows "take 4 t = pad4 year" "take 2 (drop 5 t) = pad2 month" "take 2 (drop 8 t) = pad2 day"
    "take 2 (drop 11 t) = pad2 hour" "take 2 (drop 14 t) = pad2 minute"
    "take 2 (drop 17 t) = pad2 second"
  unfolding t_def iso_text_def pad4_def pad3_def pad2_def by simp_all

lemma date_parse_iso_text:
  assumes "0 \<le> year" "year \<le> 9999" "month \<in> {1..12}" "1 \<le> day"
    "day \<le> days_before_month (leap_year year) (month + 1) - days_before_month (leap_year year) month"
    "0 \<le> hour" "hour < 24" "0 \<le> minute" "minute < 60" "0 \<le> second" "second < 60"
  shows "date_parse (take 19 (iso_text year (int month) day hour minute second ms)) ''Z'' =
    Some (1000 * (second + 60 * (minute + 60 * hour)
      + 86400 * (day_from_year year + days_before_month (leap_year year) month + (day - 1))))"
proof -
  have "days_before_month (leap_year year) (month + 1) - days_before_month (leap_year year) month \<le> 31"
    using assms(3) unfolding days_before_month_def
    by (auto simp: atLeastAtMost_iff numeral_eq_Suc less_Suc_eq_le le_Suc_eq split: if_splits)
  with assms show ?thesis
    unfolding date_parse_def iso_text_fields Let_def
    by (simp add: digits_value_pad2 digits_value_pad4)
qed

lemma toISOString_iso_text:
  "toISOString ms =
    (let d = ms div 86400000; year = year_of_day d; day = d - day_from_year year;
         month = month_search (leap_year year) day 12; second = ms mod 86400000 div 1000
     in iso_text year (int month) (day - days_before_month (leap_year year) month + 1)
          (second div 3600) (second div 60 mod 60) (second mod 60) (ms mod 86400000 mod 1000))"
  by (simp add: toISOString_def iso_text_def Let_def)

lemma toISOString_parts:
  assumes "four_digit_year ms"
  shows "timestampParts (toISOString ms) = Inr (Some (ms - ms mod 1000), pad3 (ms mod 1000))"
proof -
  define d where "d = ms div 86400000"
  define rest where "rest = ms mod 86400000"
  define year where "year = year_of_day d"
  define day where "day = d - day_from_year year"
  define month where "month = month_search (leap_year year) day 12"
  define second where "second = rest div 1000"
  have ms: "ms = 86400000 * d + rest" by (simp add: d_def rest_def)
  have rest: "0 \<le> rest" "rest < 86400000" by (simp_all add: rest_def)
  have year: "0 \<le> year" "year \<le> 9999"
    using assms by (simp_all add: four_digit_year_def year_def d_def)
  have "day_from_year year \<le> d" "d < day_from_year (year + 1)"
    using year_of_day_bounds by (simp_all add: year_def)
  then have "0 \<le> day" "day < (if leap_year year then 366 else 365)"
    by (simp_all add: day_def day_from_year_succ)
  then have month: "month \<in> {1..12}" "days_before_month (leap_year year) month \<le> day"
    "day < days_before_month (leap_year year) (month + 1)"
    using month_search_bounds by (simp_all only: month_def)
  have second: "0 \<le> second" "second < 86400" using rest by (simp_all add: second_def)
  have shape: "toISOString ms = iso_text year (int month)
      (day - days_before_month (leap_year year) month + 1)
      (second div 3600) (second div 60 mod 60) (second mod 60) (rest mod 1000)"
    by (simp only: toISOString_iso_text Let_def d_def rest_def year_def day_def month_def second_def)
  have "second mod 60 + 60 * (second div 60 mod 60 + 60 * (second div 3600)) = second"
    using zmod_zmult2_eq [of 60 second 60] div_mult_mod_eq [of second 3600] mult_div_mod_eq [of 60 second]
    by (simp add: algebra_simps)
  moreover have "1000 * second = rest - rest mod 1000"
    by (simp add: second_def minus_mod_eq_mult_div)
  moreover have "ms mod 1000 = rest mod 1000"
    unfolding ms using mod_mult_self4 [of 1000 "86400 * d" rest] by (simp add: algebra_simps)
  moreover have "date_parse (take 19 (toISOString ms)) ''Z'' =
      Some (1000 * (second mod 60 + 60 * (second div 60 mod 60 + 60 * (second div 3600))
        + 86400 * (day_from_year year + days_before_month (leap_year year) month
            + (day - days_before_month (leap_year year) month + 1 - 1))))"
    unfolding shape using year month second
    by (intro date_parse_iso_text) auto
  ultimately have "date_parse (take 19 (toISOString ms)) ''Z'' = Some (ms - ms mod 1000)"
    unfolding day_def using ms by (simp add: algebra_simps)
  then show ?thesis
    using timestampParts_iso_text \<open>ms mod 1000 = rest mod 1000\<close> by (simp only: shape)
qed

lemma pad_end_3_pad3: "pad_end 3 (pad3 n) = pad3 n"
  by (simp add: pad_end_def)

lemma date_parse_ms_toISOString:
  "four_digit_year ms \<Longrightarrow> date_parse_ms (toISOString ms) = Some ms"
  by (simp add: date_parse_ms_def toISOString_parts fraction_ms_def pad_end_3_pad3 digits_value_pad3)

lemma valid_toISOString: "four_digit_year ms \<Longrightarrow> valid_timestamp (toISOString ms)"
  by (simp add: valid_timestamp_def toISOString_parts)

section \<open>An instant after a timestamp compares after it\<close>

lemma take_mono_lex: "xs \<le> ys \<Longrightarrow> take n xs \<le> take n (ys :: 'a::linorder list)"
proof (induction xs arbitrary: ys n)
  case (Cons x xs)
  then show ?case by (cases ys; cases n) auto
qed simp

lemma foldl_digits: "foldl (\<lambda>n c. 10 * n + (of_char c - 48)) a s
    = a * 10 ^ length s + digits_value s" for a :: int
proof (induction s arbitrary: a)
  case (Cons c s)
  show ?case
    using Cons.IH [of "10 * a + (of_char c - 48)"] Cons.IH [of "of_char c - 48"]
    by (simp add: digits_value_def algebra_simps)
qed simp

lemma digits_value_Cons:
  "digits_value (c # s) = (of_char c - 48) * 10 ^ length s + digits_value s"
  using foldl_digits [of "of_char c - 48" s] by (simp add: digits_value_def)

lemma digit_bounds: "is_digit c \<Longrightarrow> 0 \<le> (of_char c - 48 :: int) \<and> of_char c - 48 \<le> (9 :: int)"
  by (metis is_digit_def of_nat_of_char of_nat_le_iff of_nat_numeral diff_ge_0_iff_ge
      diff_le_eq numeral_plus_numeral add_num_simps)

lemma digits_value_bounds:
  "list_all is_digit s \<Longrightarrow> 0 \<le> digits_value s \<and> digits_value s < 10 ^ length s"
proof (induction s)
  case (Cons c s)
  then have "0 \<le> (of_char c - 48 :: int)" "of_char c - 48 \<le> (9 :: int)"
    using digit_bounds by auto
  then have "0 \<le> (of_char c - 48) * (10 :: int) ^ length s"
    "(of_char c - 48) * (10 :: int) ^ length s \<le> 9 * 10 ^ length s"
    by (simp, intro mult_right_mono) simp_all
  moreover have "(10 :: int) ^ length (c # s) = 9 * 10 ^ length s + 10 ^ length s" by simp
  moreover have "0 \<le> digits_value s" "digits_value s < 10 ^ length s" using Cons by simp_all
  ultimately show ?case unfolding digits_value_Cons by linarith
qed simp

lemma char_less_int: "a < b \<longleftrightarrow> (of_char a :: int) < of_char b" for a b :: char
  using of_nat_less_iff [where 'a = int, of "of_char a" "of_char b"]
  by (simp only: less_char_def of_nat_of_char)

lemma digits_value_mono:
  "length s = length t \<Longrightarrow> list_all is_digit s \<Longrightarrow> list_all is_digit t \<Longrightarrow> s \<le> t \<Longrightarrow>
    digits_value s \<le> digits_value t"
proof (induction s t rule: list_induct2)
  case (Cons x xs y ys)
  show ?case
  proof (cases "x = y")
    case True
    with Cons show ?thesis by (simp add: digits_value_Cons)
  next
    case False
    with Cons.prems have "(of_char x :: int) + 1 \<le> of_char y" using char_less_int by fastforce
    then have "(of_char x - 48 + 1) * (10::int) ^ length ys \<le> (of_char y - 48) * 10 ^ length ys"
      by (intro mult_right_mono) auto
    moreover have "digits_value xs < 10 ^ length ys" "0 \<le> digits_value ys"
      using digits_value_bounds [of xs] digits_value_bounds [of ys] Cons.prems Cons.hyps by simp_all
    ultimately show ?thesis using Cons.hyps by (simp add: digits_value_Cons algebra_simps)
  qed
qed simp

lemma if_Some_D: "(if b then Some y else None) = Some x \<Longrightarrow> x = y"
  by (simp split: if_split_asm)

lemma date_parse_dvd: "date_parse body zone = Some x \<Longrightarrow> 1000 dvd x"
  unfolding date_parse_def Let_def by (drule if_Some_D, erule ssubst, rule dvd_triv_left)

lemma timestampParts_fraction:
  assumes "timestampParts t = Inr (second, fraction)"
  shows "list_all is_digit fraction"
    and "second = Some x \<Longrightarrow> 1000 dvd x"
proof -
  show "list_all is_digit fraction"
    using assms
    by (auto simp: timestampParts_def Let_def list_all_iff dest: set_takeWhileD split: if_splits)
  show "1000 dvd x" if "second = Some x"
    using assms that date_parse_dvd by (auto simp: timestampParts_def Let_def split: if_splits)
qed

lemma is_digit_zero: "is_digit (CHR ''0'')"
  by (simp add: is_digit_def)

lemma take_pad_end: "take 3 (pad_end w s) = take 3 (pad_end 3 s)" if "3 \<le> w"
  unfolding pad_end_def take_append take_replicate using that by (simp add: min_def)

lemma compareTimestamps_toISOString:
  assumes "four_digit_year ms" "date_parse_ms t = Some n" "n < ms"
  shows "compareTimestamps (toISOString ms) t = Inr 1"
proof -
  obtain second fraction where t: "timestampParts t = Inr (Some second, fraction)"
    "n = second + fraction_ms fraction"
    using assms(2) by (auto simp: date_parse_ms_def split: sum.splits option.splits)
  let ?r = "ms mod 1000" and ?w = "max 3 (length fraction)"
  have digits: "list_all is_digit fraction" and dvd: "1000 dvd second"
    using timestampParts_fraction [OF t(1)] by simp_all
  have "compare_parts (ms - ?r, pad3 ?r) (second, fraction) = 1"
  proof (cases "second = ms - ?r")
    case True
    have "\<not> pad_end ?w (pad3 ?r) \<le> pad_end ?w fraction"
    proof
      assume "pad_end ?w (pad3 ?r) \<le> pad_end ?w fraction"
      then have "take 3 (pad_end ?w (pad3 ?r)) \<le> take 3 (pad_end ?w fraction)" by (rule take_mono_lex)
      then have le: "pad3 ?r \<le> take 3 (pad_end 3 fraction)"
        using take_pad_end [of ?w "pad3 ?r"] take_pad_end [of ?w fraction]
        by (simp add: pad_end_3_pad3)
      have "list_all is_digit (take 3 (pad_end 3 fraction))"
        using digits is_digit_zero by (auto simp: pad_end_def list_all_iff dest: in_set_takeD)
      then have "digits_value (pad3 ?r) \<le> digits_value (take 3 (pad_end 3 fraction))"
        using le by (intro digits_value_mono) (auto simp: pad3_def pad2_def pad_end_def)
      then have "?r \<le> fraction_ms fraction" by (simp add: digits_value_pad3 fraction_ms_def)
      with True t(2) assms(3) show False by simp
    qed
    then have "pad_end ?w fraction < pad_end ?w (pad3 ?r)" by simp
    then have "compare_fractions (pad3 ?r) fraction = 1"
      unfolding compare_fractions_def Let_def length_pads
      by (simp only: if_False less_imp_neq less_imp_neq [symmetric] less_not_sym)
    with True show ?thesis by (simp add: compare_parts_def)
  next
    case False
    have "0 \<le> fraction_ms fraction"
      unfolding fraction_ms_def using digits is_digit_zero
      by (intro digits_value_bounds [THEN conjunct1])
        (auto simp: pad_end_def list_all_iff dest: in_set_takeD)
    then have "second < ms" using t(2) assms(3) by simp
    moreover obtain k where k: "second = 1000 * k" using dvd by (auto simp: dvd_def)
    moreover have r: "ms - ?r = 1000 * (ms div 1000)" by (rule minus_mod_eq_mult_div)
    ultimately have "k \<le> ms div 1000" by linarith
    then have "second < ms - ?r" using False k r by linarith
    then show ?thesis by (simp add: compare_parts_def)
  qed
  then show ?thesis using compareTimestamps_parts [OF toISOString_parts [OF assms(1)] t(1)] by simp
qed

end
