(* ===== verification/Executor_Mutation.thy ===== *)
theory Executor_Mutation
  imports Reducer_Properties Instants
begin

text \<open>
  src/src/contract/executor-mutation.ts: what an executor may propose
  (\<open>validateExecutorMutation\<close>) and how the Coordinator stamps a proposal with its own
  times before it commits it (\<open>normalizeExecutorMutation\<close>).
\<close>

section \<open>What an executor may propose\<close>

fun is_user_message :: "item_body \<Rightarrow> bool" where
  "is_user_message (MessageItem role _ _) = (role = RoleUser)"
| "is_user_message _ = False"

fun assert_executor_operation ::
    "string list \<Rightarrow> authority_operation \<Rightarrow> contract_error + unit" where
  "assert_executor_operation runs (RemoveRun _ _) = Inl (ContractInvariantError Unsupported)"
| "assert_executor_operation runs (PutSession _) = Inl (ContractInvariantError Unsupported)"
| "assert_executor_operation runs (PutRun r) =
     invariant Unsupported (run_id r \<in> set runs \<or> run_origin r \<noteq> OriginUser)"
| "assert_executor_operation runs (PutItem it) =
     invariant Unsupported (\<not> is_user_message (item_body it))"
| "assert_executor_operation runs (PutInteraction i) =
     invariant Unsupported (int_status i \<noteq> InteractionResolved)"

definition admit_proposal ::
    "(proposed_mutation \<Rightarrow> nat) \<Rightarrow> proposed_mutation \<Rightarrow> admission_limits option \<Rightarrow> contract_error + unit"
where
  "admit_proposal jsonByteLength m admissionLimits =
     (case admissionLimits of
        None \<Rightarrow> Inr ()
      | Some limits \<Rightarrow>
          assertProtocolAdmission (jsonByteLength m) limits (authorityContent (mut_operations m)))"

definition parseExecutorMutation ::
    "(proposed_mutation \<Rightarrow> nat) \<Rightarrow> snapshot \<Rightarrow> proposed_mutation \<Rightarrow> admission_limits option
      \<Rightarrow> contract_error + proposed_mutation" where
  "parseExecutorMutation jsonByteLength s m admissionLimits =
     (if \<not> proposed_mutation_schema m then Inl ZodError
      else bindE (checks
        [admit_proposal jsonByteLength m admissionLimits,
         invariant SessionMismatch (mut_sessionId m = ses_id (snap_session s)),
         invariant StaleRevision (mut_baseRevision m = snap_revision s),
         each (assert_executor_operation (map run_id (snap_runs s))) (mut_operations m)]) (\<lambda>_.
        Inr m))"

definition validateExecutorMutation ::
    "(proposed_mutation \<Rightarrow> nat) \<Rightarrow> snapshot \<Rightarrow> proposed_mutation \<Rightarrow> admission_limits option
      \<Rightarrow> contract_error + proposed_mutation" where
  "validateExecutorMutation jsonByteLength snapshotValue mutationValue admissionLimits =
     bindE (validateSessionSnapshot (\<lambda>_. 0) snapshotValue None) (\<lambda>s.
       parseExecutorMutation jsonByteLength s mutationValue admissionLimits)"

section \<open>The Coordinator's times\<close>

fun set_outcome_endedAt :: "timestamp \<Rightarrow> run_outcome \<Rightarrow> run_outcome" where
  "set_outcome_endedAt t ActiveRun = ActiveRun"
| "set_outcome_endedAt t (CompletedRun _ reason) = CompletedRun t reason"
| "set_outcome_endedAt t (FailedRun _ e) = FailedRun t e"
| "set_outcome_endedAt t (CancelledRun _ reason) = CancelledRun t reason"

definition normalize_run :: "snapshot \<Rightarrow> timestamp \<Rightarrow> run \<Rightarrow> contract_error + run" where
  "normalize_run s acceptedAt r =
     (let previous = map_get run_id (snap_runs s) (run_id r);
          value = r\<lparr>run_startedAt := (case previous of Some p \<Rightarrow> run_startedAt p | None \<Rightarrow> acceptedAt),
                    run_outcome := set_outcome_endedAt acceptedAt (run_outcome r)\<rparr>
      in if run_schema value then Inr value else Inl ZodError)"

definition normalized_item_end :: "item option \<Rightarrow> timestamp \<Rightarrow> timestamp" where
  "normalized_item_end previous acceptedAt =
     (case previous of
        None \<Rightarrow> acceptedAt
      | Some p \<Rightarrow>
          if item_status p = Active then acceptedAt
          else (case item_endedAt p of Some e \<Rightarrow> e | None \<Rightarrow> acceptedAt))"

definition normalize_item :: "snapshot \<Rightarrow> timestamp \<Rightarrow> item \<Rightarrow> contract_error + item" where
  "normalize_item s acceptedAt it =
     (let previous = items_by_id s (itemKey (item_runId it) (item_id it));
          value = it\<lparr>item_createdAt := (case previous of Some p \<Rightarrow> item_createdAt p | None \<Rightarrow> acceptedAt),
                     item_updatedAt := acceptedAt,
                     item_endedAt :=
                       (if item_status it = Active then item_endedAt it
                        else Some (normalized_item_end previous acceptedAt))\<rparr>
      in if item_schema value then Inr value else Inl ZodError)"

text \<open>
  The deadline of a new Interaction: the requested time to live, at least a millisecond
  and at most the Coordinator's limit, counted from the acceptance.  A deadline outside
  the time range of a Date or without a four-digit year is refused, the first by the
  invariant, the second by the schema of timestamps.
\<close>

definition interaction_deadline ::
    "timestamp \<Rightarrow> rat \<Rightarrow> interaction \<Rightarrow> contract_error + timestamp" where
  "interaction_deadline acceptedAt maxInteractionTtlMs i =
     bindE (timestampParts (int_expiresAt i)) (\<lambda>_.
     bindE (timestampParts (int_createdAt i)) (\<lambda>_.
       case (date_parse_ms (int_expiresAt i), date_parse_ms (int_createdAt i)) of
         (Some expires, Some created) \<Rightarrow>
           let requestedTtlMs = max 1 (expires - created) in
           bindE (compareTimestamps (int_expiresAt i) (int_createdAt i)) (\<lambda>c.
           bindE (invariant InvalidTransition (is_safe_integer (of_int requestedTtlMs) \<and> 0 < c)) (\<lambda>_.
             case date_parse_ms acceptedAt of
               None \<Rightarrow> Inl (ContractInvariantError InvalidTransition)
             | Some accepted \<Rightarrow>
                 let deadline = accepted + min requestedTtlMs \<lfloor>maxInteractionTtlMs\<rfloor> in
                 bindE (invariant InvalidTransition (date_in_range deadline)) (\<lambda>_.
                   if four_digit_year deadline then Inr (toISOString deadline) else Inl ZodError)))
       | _ \<Rightarrow> Inl (ContractInvariantError InvalidTransition)))"

definition normalize_interaction ::
    "snapshot \<Rightarrow> timestamp \<Rightarrow> rat \<Rightarrow> interaction \<Rightarrow> contract_error + interaction" where
  "normalize_interaction s acceptedAt maxInteractionTtlMs i =
     (let previous = map_get int_id (snap_interactions s) (int_id i) in
      bindE (case previous of
               Some p \<Rightarrow> Inr (int_expiresAt p)
             | None \<Rightarrow> interaction_deadline acceptedAt maxInteractionTtlMs i) (\<lambda>expiresAt.
        let value = i\<lparr>int_createdAt := (case previous of Some p \<Rightarrow> int_createdAt p | None \<Rightarrow> acceptedAt),
                      int_expiresAt := expiresAt,
                      int_endedAt :=
                        (if int_status i = InteractionOpen then int_endedAt i
                         else Some acceptedAt)\<rparr>
        in if interaction_schema value then Inr value else Inl ZodError))"

fun normalize_operation ::
    "snapshot \<Rightarrow> timestamp \<Rightarrow> rat \<Rightarrow> authority_operation \<Rightarrow> contract_error + authority_operation"
where
  "normalize_operation s acceptedAt ttl (RemoveRun _ _) = Inl (ContractInvariantError Unsupported)"
| "normalize_operation s acceptedAt ttl (PutSession _) = Inl (ContractInvariantError Unsupported)"
| "normalize_operation s acceptedAt ttl (PutRun r) =
     bindE (normalize_run s acceptedAt r) (\<lambda>v. Inr (PutRun v))"
| "normalize_operation s acceptedAt ttl (PutItem it) =
     bindE (normalize_item s acceptedAt it) (\<lambda>v. Inr (PutItem v))"
| "normalize_operation s acceptedAt ttl (PutInteraction i) =
     bindE (normalize_interaction s acceptedAt ttl i) (\<lambda>v. Inr (PutInteraction v))"

definition normalizeExecutorMutation ::
    "(proposed_mutation \<Rightarrow> nat) \<Rightarrow> snapshot \<Rightarrow> proposed_mutation \<Rightarrow> timestamp \<Rightarrow> rat
      \<Rightarrow> admission_limits option \<Rightarrow> contract_error + proposed_mutation" where
  "normalizeExecutorMutation jsonByteLength snapshotValue mutationValue acceptedAt
       maxInteractionTtlMs admissionLimits =
     bindE (validateSessionSnapshot (\<lambda>_. 0) snapshotValue None) (\<lambda>s.
     bindE (parseExecutorMutation jsonByteLength s mutationValue admissionLimits) (\<lambda>m.
     if \<not> is_safe_integer maxInteractionTtlMs \<or> maxInteractionTtlMs < 1 then Inl RangeError
     else
       bindE (assertNotBefore (Some acceptedAt) (snap_capturedAt s)) (\<lambda>_.
       bindE (mapE (normalize_operation s acceptedAt maxInteractionTtlMs) (mut_operations m))
         (\<lambda>operations.
       let normalized = m\<lparr>mut_operations := operations\<rparr> in
       bindE (admit_proposal jsonByteLength normalized admissionLimits) (\<lambda>_. Inr normalized)))))"

section \<open>What a proposal cannot do\<close>

text \<open>The operations an executor is allowed, against the state they apply to.\<close>

fun executor_allowed :: "snapshot \<Rightarrow> authority_operation \<Rightarrow> bool" where
  "executor_allowed s (PutRun r) = (run_id r \<in> run_id ` set (snap_runs s) \<or> run_origin r \<noteq> OriginUser)"
| "executor_allowed s (PutItem it) = (\<not> is_user_message (item_body it))"
| "executor_allowed s (PutInteraction i) = (int_status i \<noteq> InteractionResolved)"
| "executor_allowed s _ = False"

lemma assert_executor_operation_ok:
  "assert_executor_operation (map run_id (snap_runs s)) op = Inr () \<longleftrightarrow> executor_allowed s op"
  by (cases op) simp_all

lemma normalize_operation_allowed:
  "normalize_operation s acceptedAt ttl op = Inr op' \<Longrightarrow> executor_allowed s op' = executor_allowed s op"
  by (cases op)
    (auto simp: normalize_run_def normalize_item_def normalize_interaction_def Let_def split: if_splits)

lemma normalizeExecutorMutation_shape:
  assumes "normalizeExecutorMutation jbl s m acceptedAt ttl limits = Inr m'"
  shows "validateState s = Inr () \<and> snapshot_schema s
    \<and> mut_sessionId m' = ses_id (snap_session s) \<and> mut_baseRevision m' = snap_revision s
    \<and> is_safe_integer ttl \<and> 1 \<le> ttl \<and> at_least acceptedAt (snap_capturedAt s)
    \<and> list_all2 (\<lambda>op op'. executor_allowed s op \<and> normalize_operation s acceptedAt ttl op = Inr op')
        (mut_operations m) (mut_operations m')"
  using assms
  by (auto simp: normalizeExecutorMutation_def parseExecutorMutation_def Let_def mapE_list_all2
      assert_executor_operation_ok list_all2_conv_all_nth
      dest!: validateSessionSnapshot_ok split: if_splits)

section \<open>The effect of an executor's operations\<close>

text \<open>
  What stays with the Coordinator: the Session, the creation of user Runs, user messages
  and the resolution of Interactions.
\<close>

definition confined :: "snapshot \<Rightarrow> draft \<Rightarrow> bool" where
  "confined s d \<longleftrightarrow>
     dr_session d = snap_session s
     \<and> run_id ` set (snap_runs s) \<subseteq> run_id ` set (dr_runs d)
     \<and> (\<forall>r\<in>set (dr_runs d). run_origin r = OriginUser \<longrightarrow> run_id r \<in> run_id ` set (snap_runs s))
     \<and> (\<forall>it\<in>set (dr_items d). is_user_message (item_body it) \<longrightarrow> it \<in> set (snap_items s))
     \<and> (\<forall>i\<in>set (dr_interactions d). int_status i = InteractionResolved \<longrightarrow>
          i \<in> set (snap_interactions s))"

lemma confined_draft_of: "confined s (draft_of s)"
  by (simp add: confined_def draft_of_def)

lemma executor_allowed_not_remove: "executor_allowed s op \<Longrightarrow> \<not> is_remove op"
  by (cases op) simp_all

context entity_collection
begin

lemma put_keys: "put xs y = Inr ys \<Longrightarrow> key ` set xs \<subseteq> key ` set ys"
  using put_keeps_others [of xs y ys] put_set [of xs y ys] by fastforce

end

lemma apply_operation_confined:
  assumes "confined s d" "executor_allowed s op" "apply_operation d op = Inr d'"
  shows "confined s d'"
proof (cases op)
  case (PutRun r)
  then obtain rs where rs: "putRun (dr_runs d) r = Inr rs" "d' = d\<lparr>dr_runs := rs\<rparr>"
    using assms(3) by auto
  then have "set rs \<subseteq> insert r (set (dr_runs d))" "run_id ` set (dr_runs d) \<subseteq> run_id ` set rs"
    using runs.put_set runs.put_keys by blast+
  with rs assms(1,2) PutRun show ?thesis by (simp add: confined_def) blast
next
  case (PutItem it)
  then obtain its where its: "putItem (dr_items d) it = Inr its" "d' = d\<lparr>dr_items := its\<rparr>"
    using assms(3) by auto
  then have "set its \<subseteq> insert it (set (dr_items d))" using items.put_set by blast
  with its assms(1,2) PutItem show ?thesis by (simp add: confined_def) blast
next
  case (PutInteraction i)
  then obtain js where js: "putInteraction (dr_interactions d) i = Inr js"
    "d' = d\<lparr>dr_interactions := js\<rparr>"
    using assms(3) by auto
  then have "set js \<subseteq> insert i (set (dr_interactions d))" using interactions.put_set by blast
  with js assms(1,2) PutInteraction show ?thesis by (simp add: confined_def) blast
qed (use assms(2) in simp_all)

lemma applyMutation_confined:
  assumes "applyMutation s m = Inr t" "\<forall>op\<in>set (mut_operations m). executor_allowed s op"
  shows "confined s (draft_of t)"
  using assms(1)
proof (cases rule: applyMutation_cases)
  case replayed
  then show ?thesis using confined_draft_of by simp
next
  case (applied d)
  have "confined s d"
  proof (rule foldE_invariant [OF applied(3)])
    show "confined s (draft_of s)" by (rule confined_draft_of)
    show "confined s b"
      if "op \<in> set (mut_operations m)" "confined s a" "apply_operation a op = Inr b" for a op b
      using that assms(2) apply_operation_confined by blast
  qed
  with applied(5) show ?thesis by (simp add: confined_def draft_of_def snapshot_of_def)
qed

section \<open>The times of a normalized proposal\<close>

lemma interaction_deadline_bounds:
  assumes "interaction_deadline acceptedAt ttl i = Inr e" "1 \<le> ttl"
  shows "\<exists>a d. date_parse_ms acceptedAt = Some a \<and> date_parse_ms e = Some d
    \<and> a < d \<and> of_int d \<le> of_int a + ttl \<and> compareTimestamps e acceptedAt = Inr 1"
proof -
  from assms(1) obtain expires created a where
    ms: "date_parse_ms acceptedAt = Some a"
    and year: "four_digit_year (a + min (max 1 (expires - created)) \<lfloor>ttl\<rfloor>)"
    and e: "e = toISOString (a + min (max 1 (expires - created)) \<lfloor>ttl\<rfloor>)"
    by (auto simp: interaction_deadline_def Let_def split: option.splits if_splits)
  let ?d = "a + min (max 1 (expires - created)) \<lfloor>ttl\<rfloor>"
  have "1 \<le> \<lfloor>ttl\<rfloor>" using assms(2) by (simp add: le_floor_iff)
  then have lt: "a < ?d" by simp
  have "min (max 1 (expires - created)) \<lfloor>ttl\<rfloor> \<le> \<lfloor>ttl\<rfloor>" by simp
  then have "of_int (min (max 1 (expires - created)) \<lfloor>ttl\<rfloor>) \<le> ttl" by (simp only: le_floor_iff)
  then have "of_int ?d \<le> of_int a + ttl" by simp
  moreover have "date_parse_ms e = Some ?d" unfolding e by (rule date_parse_ms_toISOString [OF year])
  moreover have "compareTimestamps e acceptedAt = Inr 1"
    unfolding e by (rule compareTimestamps_toISOString [OF year ms lt])
  ultimately show ?thesis using ms lt by blast
qed

text \<open>How a normalized operation is stamped, against the previous state of its entity.\<close>

fun stamped :: "snapshot \<Rightarrow> timestamp \<Rightarrow> rat \<Rightarrow> authority_operation \<Rightarrow> bool" where
  "stamped s acceptedAt ttl (PutRun r) =
     (run_startedAt r = (case map_get run_id (snap_runs s) (run_id r) of
          Some p \<Rightarrow> run_startedAt p | None \<Rightarrow> acceptedAt)
      \<and> run_endedAt r \<in> {None, Some acceptedAt})"
| "stamped s acceptedAt ttl (PutItem it) =
     (item_updatedAt it = acceptedAt
      \<and> item_createdAt it = (case items_by_id s (itemKey (item_runId it) (item_id it)) of
          Some p \<Rightarrow> item_createdAt p | None \<Rightarrow> acceptedAt))"
| "stamped s acceptedAt ttl (PutInteraction i) =
     (int_endedAt i \<in> {None, Some acceptedAt}
      \<and> (case map_get int_id (snap_interactions s) (int_id i) of
           Some p \<Rightarrow> int_createdAt i = int_createdAt p \<and> int_expiresAt i = int_expiresAt p
         | None \<Rightarrow>
             int_createdAt i = acceptedAt
             \<and> compareTimestamps (int_expiresAt i) acceptedAt = Inr 1
             \<and> (\<exists>a d. date_parse_ms acceptedAt = Some a \<and> date_parse_ms (int_expiresAt i) = Some d
                  \<and> a < d \<and> of_int d \<le> of_int a + ttl)))"
| "stamped s acceptedAt ttl _ = False"

lemma set_outcome_endedAt_end: "outcome_endedAt (set_outcome_endedAt t oc) \<in> {None, Some t}"
  by (cases oc) simp_all

lemma normalize_interaction_stamped:
  assumes "normalize_interaction s acceptedAt ttl i = Inr v" "1 \<le> ttl"
  shows "stamped s acceptedAt ttl (PutInteraction v)"
proof (cases "map_get int_id (snap_interactions s) (int_id i)")
  case None
  with assms(1) obtain e where "interaction_deadline acceptedAt ttl i = Inr e"
    "v = i\<lparr>int_createdAt := acceptedAt, int_expiresAt := e,
      int_endedAt := (if int_status i = InteractionOpen then int_endedAt i else Some acceptedAt)\<rparr>"
    "interaction_schema v"
    by (auto simp: normalize_interaction_def Let_def split: if_splits)
  moreover from this(1) have "compareTimestamps e acceptedAt = Inr 1 \<and> (\<exists>a d.
      date_parse_ms acceptedAt = Some a \<and> date_parse_ms e = Some d \<and> a < d \<and> of_int d \<le> of_int a + ttl)"
    using interaction_deadline_bounds [OF _ assms(2)] by blast
  ultimately show ?thesis using None
    by (cases "int_status i = InteractionOpen") (simp_all add: interaction_schema_def)
next
  case (Some p)
  with assms(1) show ?thesis
    by (auto simp: normalize_interaction_def Let_def interaction_schema_def split: if_splits)
qed

lemma normalize_operation_stamped:
  assumes "normalize_operation s acceptedAt ttl op = Inr op'" "1 \<le> ttl"
  shows "stamped s acceptedAt ttl op'"
proof (cases op)
  case (PutRun r)
  with assms(1) show ?thesis
    using set_outcome_endedAt_end by (auto simp: normalize_run_def Let_def split: if_splits)
next
  case (PutItem it)
  with assms(1) show ?thesis by (auto simp: normalize_item_def Let_def split: if_splits)
next
  case (PutInteraction i)
  with assms show ?thesis using normalize_interaction_stamped by auto
qed (use assms(1) in simp_all)

lemma normalizeExecutorMutation_allowed:
  assumes "normalizeExecutorMutation jbl s m acceptedAt ttl limits = Inr m'" "op \<in> set (mut_operations m')"
  shows "executor_allowed s op"
  using normalizeExecutorMutation_shape [OF assms(1)] assms(2) normalize_operation_allowed
  by (fastforce simp: list_all2_conv_all_nth in_set_conv_nth)

lemma normalizeExecutorMutation_stamped:
  assumes "normalizeExecutorMutation jbl s m acceptedAt ttl limits = Inr m'"
  shows "list_all (stamped s acceptedAt ttl) (mut_operations m')"
  using normalizeExecutorMutation_shape [OF assms] normalize_operation_stamped
  by (fastforce simp: list_all2_conv_all_nth list_all_length)

end
