(* ===== verification/Commands.thy ===== *)
theory Commands
  imports Reducer_Properties
begin

text \<open>
  src/src/contract/command.ts and command-validation.ts: the Commands a client sends, the
  records kept of them, and \<open>validateCommand\<close>, which decides whether a Command may be
  accepted against a snapshot.  A Command is one its zod schema has parsed; what the
  schema demands beyond the shape is \<open>command_schema\<close>.
\<close>

section \<open>command.ts\<close>

datatype input_resolution =
    InputAnswered "(string, string list) fmap"
  | InputCancelled

datatype interaction_resolution =
    ResolvePermission permission_resolution
  | ResolveInput input_resolution
  | ResolveTool tool_resolution
  | ResolveExtension string json

datatype command_body =
    RunStart (start_runId: string) (start_input: "content_block list")
      (start_parentRunId: "string option") (start_retryOf: "string option")
  | RunSteer string "content_block list"
  | RunCancel string "string option"
  | SessionClose "string option"
  | SessionConfigure "(string \<times> json) list"
  | InteractionResolve string interaction_resolution

record command =
  cmd_commandId :: string
  cmd_sessionId :: string
  cmd_expectedRevision :: "nat option"
  cmd_extensions :: "json_object option"
  cmd_body :: command_body

fun permission_resolution_schema :: "permission_resolution \<Rightarrow> bool" where
  "permission_resolution_schema (PermissionSelected optionId) = opaque_id_schema optionId"
| "permission_resolution_schema PermissionCancelled = True"

fun input_resolution_schema :: "input_resolution \<Rightarrow> bool" where
  "input_resolution_schema (InputAnswered answers) =
     fmpred (\<lambda>k values. opaque_id_schema k \<and> values \<noteq> []) answers"
| "input_resolution_schema InputCancelled = True"

fun interaction_resolution_schema :: "interaction_resolution \<Rightarrow> bool" where
  "interaction_resolution_schema (ResolvePermission r) = permission_resolution_schema r"
| "interaction_resolution_schema (ResolveInput r) = input_resolution_schema r"
| "interaction_resolution_schema (ResolveTool r) = tool_resolution_schema r"
| "interaction_resolution_schema (ResolveExtension name _) = extension_name_schema name"

fun command_body_schema :: "command_body \<Rightarrow> bool" where
  "command_body_schema (RunStart runId input parentRunId retryOf) =
     (protocol_id_schema runId \<and> input \<noteq> [] \<and> list_all content_block_schema input
      \<and> opt_all protocol_id_schema parentRunId \<and> opt_all protocol_id_schema retryOf)"
| "command_body_schema (RunSteer runId input) =
     (protocol_id_schema runId \<and> input \<noteq> [] \<and> list_all content_block_schema input)"
| "command_body_schema (RunCancel runId _) = protocol_id_schema runId"
| "command_body_schema (SessionClose _) = True"
| "command_body_schema (SessionConfigure changes) =
     (changes \<noteq> [] \<and> list_all (\<lambda>(configId, _). opaque_id_schema configId) changes
      \<and> all_unique (map fst changes))"
| "command_body_schema (InteractionResolve interactionId resolution) =
     (protocol_id_schema interactionId \<and> interaction_resolution_schema resolution)"

definition command_schema :: "command \<Rightarrow> bool" where
  "command_schema c \<longleftrightarrow>
     protocol_id_schema (cmd_commandId c) \<and> protocol_id_schema (cmd_sessionId c)
     \<and> opt_all safe_nat (cmd_expectedRevision c) \<and> opt_all extensions_schema (cmd_extensions c) \<and> command_body_schema (cmd_body c)"

datatype command_kind =
    KindInteractionResolve | KindRunCancel | KindRunStart | KindRunSteer | KindSessionClose
  | KindSessionConfigure

datatype command_status = CommandAccepted | CommandCompleted | CommandFailed | CommandCancelled

record command_record =
  crec_commandId :: string
  crec_sessionId :: string
  crec_kind :: command_kind
  crec_requestDigest :: "string \<times> string"
  crec_status :: command_status
  crec_acceptedAt :: timestamp
  crec_completedAt :: "timestamp option"
  crec_result :: "json option"
  crec_error :: "protocol_error option"

text \<open>
  The refinement of \<open>commandRecordSchema\<close> compares two timestamps, which throws on a
  timestamp the comparison cannot read; such a record is not accepted either.
\<close>

definition command_record_schema :: "command_record \<Rightarrow> bool" where
  "command_record_schema r \<longleftrightarrow>
     protocol_id_schema (crec_commandId r) \<and> protocol_id_schema (crec_sessionId r)
     \<and> bounded_text 128 (fst (crec_requestDigest r)) \<and> hex64 (snd (crec_requestDigest r))
     \<and> opt_all protocol_error_schema (crec_error r)
     \<and> ((crec_status r \<noteq> CommandAccepted) = (crec_completedAt r \<noteq> None))
     \<and> opt_all (\<lambda>t. case compareTimestamps t (crec_acceptedAt r) of Inr c \<Rightarrow> 0 \<le> c | Inl _ \<Rightarrow> False)
         (crec_completedAt r)
     \<and> ((crec_status r = CommandFailed) = (crec_error r \<noteq> None))
     \<and> (crec_result r \<noteq> None \<longrightarrow> crec_status r = CommandCompleted)"

record command_receipt =
  rcpt_commandId :: string
  rcpt_status :: command_status
  rcpt_duplicate :: bool
  rcpt_result :: "json option"
  rcpt_error :: "protocol_error option"

definition command_receipt_schema :: "command_receipt \<Rightarrow> bool" where
  "command_receipt_schema r \<longleftrightarrow>
     protocol_id_schema (rcpt_commandId r) \<and> opt_all protocol_error_schema (rcpt_error r)
     \<and> ((rcpt_status r = CommandFailed) = (rcpt_error r \<noteq> None))
     \<and> (rcpt_result r \<noteq> None \<longrightarrow> rcpt_status r = CommandCompleted)"

section \<open>Configuration values and resolutions\<close>

fun assertConfigValue :: "config_value \<Rightarrow> json \<Rightarrow> contract_error + unit" where
  "assertConfigValue (BooleanOption _) value =
     invariant InvalidTransition (case value of JBool _ \<Rightarrow> True | _ \<Rightarrow> False)"
| "assertConfigValue (StringOption _) value =
     invariant InvalidTransition (case value of JStr _ \<Rightarrow> True | _ \<Rightarrow> False)"
| "assertConfigValue (NumberOption _ mn mx) value =
     invariant InvalidTransition
       (case value of
          JNum n \<Rightarrow> opt_all (\<lambda>lo. lo \<le> n) mn \<and> opt_all (\<lambda>hi. n \<le> hi) mx | _ \<Rightarrow> False)"
| "assertConfigValue (SelectOption _ choices) value =
     invariant InvalidReference
       (case value of JStr v \<Rightarrow> list_ex (\<lambda>c. choice_id c = v) choices | _ \<Rightarrow> False)"

fun is_multi_select :: "question_type \<Rightarrow> bool" where
  "is_multi_select (MultiSelect _ _) = True"
| "is_multi_select _ = False"

fun assert_known_choices :: "question_type \<Rightarrow> string list \<Rightarrow> contract_error + unit" where
  "assert_known_choices (SingleSelect options allowOther) values =
     invariant InvalidReference
       (list_all (\<lambda>v. allowOther = Some True \<or> v \<in> set (map choice_id options)) values)"
| "assert_known_choices (MultiSelect options allowOther) values =
     invariant InvalidReference
       (list_all (\<lambda>v. allowOther = Some True \<or> v \<in> set (map choice_id options)) values)"
| "assert_known_choices _ _ = Inr ()"

definition assert_answer ::
    "(string, string list) fmap \<Rightarrow> input_question \<Rightarrow> contract_error + unit" where
  "assert_answer answers question =
     (case fmlookup answers (q_id question) of
        None \<Rightarrow> invariant InvalidTransition (\<not> q_required question)
      | Some values \<Rightarrow>
          checks
            [if is_multi_select (q_type question)
             then invariant InvalidTransition (all_unique values)
             else invariant InvalidTransition (length values = 1),
             if q_type question = ConfirmQuestion
             then invariant InvalidTransition (values ! 0 = ''true'' \<or> values ! 0 = ''false'')
             else Inr (),
             assert_known_choices (q_type question) values])"

definition assertInputResolution ::
    "input_question list \<Rightarrow> input_resolution \<Rightarrow> contract_error + unit" where
  "assertInputResolution questions resolution =
     (case resolution of
        InputCancelled \<Rightarrow> Inr ()
      | InputAnswered answers \<Rightarrow>
          checks
            [invariant InvalidReference
               (fmpred (\<lambda>questionId _. questionId \<in> set (map q_id questions)) answers),
             each (assert_answer answers) questions])"

definition assertResolution ::
    "interaction \<Rightarrow> interaction_resolution \<Rightarrow> contract_error + unit" where
  "assertResolution i resolution =
     (case (int_body i, resolution) of
        (PermissionInteraction request _, ResolvePermission r) \<Rightarrow>
          (case r of
             PermissionSelected optionId \<Rightarrow>
               invariant InvalidReference (list_ex (\<lambda>opt. perm_id opt = optionId) (preq_options request))
           | PermissionCancelled \<Rightarrow> Inr ())
      | (InputInteraction questions _, ResolveInput r) \<Rightarrow> assertInputResolution questions r
      | (ToolInteraction _ _ _, ResolveTool _) \<Rightarrow> Inr ()
      | (ExtensionInteraction name _ _, ResolveExtension name' _) \<Rightarrow>
          invariant InvalidTransition (name' = name)
      | _ \<Rightarrow> Inl (ContractInvariantError InvalidTransition))"

section \<open>validateCommand\<close>

fun commandContent :: "command_body \<Rightarrow> content_block list" where
  "commandContent (RunStart _ input _ _) = input"
| "commandContent (RunSteer _ input) = input"
| "commandContent (InteractionResolve _ (ResolveTool (ToolCompleted output _))) = output"
| "commandContent _ = []"

definition assertContentCapabilities ::
    "content_block list \<Rightarrow> session \<Rightarrow> contract_error + unit" where
  "assertContentCapabilities blocks session =
     each (\<lambda>name. invariant Unsupported (has_capability session name))
       (contentExtensionNames blocks)"

definition find_run :: "snapshot \<Rightarrow> string \<Rightarrow> run option" where
  "find_run s i = find (\<lambda>r. run_id r = i) (snap_runs s)"

definition require_run :: "snapshot \<Rightarrow> string \<Rightarrow> (run \<Rightarrow> contract_error + unit) \<Rightarrow> contract_error + unit"
where
  "require_run s i k =
     (case find_run s i of None \<Rightarrow> Inl (ContractInvariantError InvalidReference) | Some r \<Rightarrow> k r)"

definition assert_run_start ::
    "snapshot \<Rightarrow> string \<Rightarrow> string option \<Rightarrow> string option \<Rightarrow> contract_error + unit" where
  "assert_run_start s runId parentRunId retryOf =
     checks
       [invariant InvalidReference (\<not> list_ex (\<lambda>r. run_id r = runId) (snap_runs s)),
        case parentRunId of
          None \<Rightarrow> invariant InvalidTransition (\<not> list_ex is_active_top_level (snap_runs s))
        | Some p \<Rightarrow>
            bindE (invariant Unsupported (has_capability (snap_session s) ''run.child'')) (\<lambda>_.
              require_run s p (\<lambda>parent. invariant InvalidTransition (run_status parent = Active))),
        case retryOf of
          None \<Rightarrow> Inr ()
        | Some i \<Rightarrow>
            require_run s i (\<lambda>previous. invariant InvalidTransition (run_status previous \<noteq> Active))]"

definition assert_run_steer ::
    "snapshot \<Rightarrow> string \<Rightarrow> string \<Rightarrow> contract_error + unit" where
  "assert_run_steer s commandId runId =
     require_run s runId (\<lambda>r.
       checks
         [invariant InvalidTransition (is_active_top_level r),
          invariant Unsupported (has_capability (snap_session s) ''run.steer''),
          invariant DuplicateEntity
            (\<not> list_ex (\<lambda>it. item_runId it = runId \<and> item_id it = commandId) (snap_items s))])"

definition assert_config_change ::
    "snapshot \<Rightarrow> string \<times> json \<Rightarrow> contract_error + unit" where
  "assert_config_change s change =
     (case find (\<lambda>opt. opt_id opt = fst change) (ses_config (snap_session s)) of
        None \<Rightarrow> Inl (ContractInvariantError InvalidReference)
      | Some opt \<Rightarrow> assertConfigValue (opt_value opt) (snd change))"

definition assert_session_configure ::
    "snapshot \<Rightarrow> (string \<times> json) list \<Rightarrow> contract_error + unit" where
  "assert_session_configure s changes =
     (let active = list_ex is_active_top_level (snap_runs s);
          capability = fmlookup (ses_capabilities (snap_session s)) ''session.configure'' in
      checks
        [invariant Unsupported (capability \<noteq> None),
         invariant Unsupported
           (\<not> active
            \<or> (case capability of
                 Some detail \<Rightarrow> fmlookup detail ''whileRunning'' = Some (JBool True)
               | None \<Rightarrow> False)),
         each (assert_config_change s) changes])"

definition assert_interaction_resolve ::
    "snapshot \<Rightarrow> timestamp \<Rightarrow> string \<Rightarrow> interaction_resolution \<Rightarrow> contract_error + unit" where
  "assert_interaction_resolve s now interactionId resolution =
     (case find (\<lambda>i. int_id i = interactionId) (snap_interactions s) of
        None \<Rightarrow> Inl (ContractInvariantError InvalidReference)
      | Some i \<Rightarrow>
          checks
            [invariant InvalidTransition (int_status i = InteractionOpen),
             bindE (compareTimestamps now (int_expiresAt i)) (\<lambda>c. invariant InvalidTransition (c < 0)),
             assertResolution i resolution])"

definition assert_command_kind ::
    "snapshot \<Rightarrow> command \<Rightarrow> timestamp \<Rightarrow> contract_error + unit" where
  "assert_command_kind s c now =
     (case cmd_body c of
        SessionClose _ \<Rightarrow> Inr ()
      | RunStart runId _ parentRunId retryOf \<Rightarrow> assert_run_start s runId parentRunId retryOf
      | RunSteer runId _ \<Rightarrow> assert_run_steer s (cmd_commandId c) runId
      | RunCancel runId _ \<Rightarrow> require_run s runId (\<lambda>_. Inr ())
      | SessionConfigure changes \<Rightarrow> assert_session_configure s changes
      | InteractionResolve interactionId resolution \<Rightarrow>
          assert_interaction_resolve s now interactionId resolution)"

definition assert_command_state ::
    "snapshot \<Rightarrow> command \<Rightarrow> timestamp \<Rightarrow> contract_error + unit" where
  "assert_command_state s c now =
     (case (cmd_body c, ses_status (snap_session s)) of
        (SessionClose _, _) \<Rightarrow> Inr ()
      | (RunCancel runId _, SessionClosed) \<Rightarrow>
          require_run s runId (\<lambda>r. invariant InvalidTransition (run_status r \<noteq> Active))
      | _ \<Rightarrow>
          bindE (invariant InvalidTransition (ses_status (snap_session s) = SessionOpen)) (\<lambda>_.
            assert_command_kind s c now))"

definition validateCommand ::
    "(command \<Rightarrow> nat) \<Rightarrow> snapshot \<Rightarrow> command \<Rightarrow> timestamp \<Rightarrow> admission_limits option
      \<Rightarrow> contract_error + command" where
  "validateCommand jsonByteLength snapshotValue commandValue now admissionLimits =
     bindE (validateSessionSnapshot (\<lambda>_. 0) snapshotValue None) (\<lambda>s.
     if \<not> command_schema commandValue then Inl ZodError
     else
       let c = commandValue; content = commandContent (cmd_body c) in
       bindE (checks
         [case admissionLimits of
            None \<Rightarrow> Inr ()
          | Some limits \<Rightarrow> assertProtocolAdmission (jsonByteLength c) limits content,
          invariant SessionMismatch (cmd_sessionId c = ses_id (snap_session s)),
          invariant StaleRevision (opt_all (\<lambda>r. r = snap_revision s) (cmd_expectedRevision c)),
          assertNotBefore (Some now) (snap_capturedAt s),
          invariant Unsupported (\<not> hasBlobRef content \<or> has_capability (snap_session s) ''blob''),
          assertContentCapabilities content (snap_session s),
          assert_command_state s c now]) (\<lambda>_.
         Inr c))"

section \<open>What an accepted Command guarantees\<close>

lemma require_run_ok [ok_iff]:
  "require_run s i k = Inr () \<longleftrightarrow> (\<exists>r. find_run s i = Some r \<and> k r = Inr ())"
  by (auto simp: require_run_def split: option.splits)

lemma find_run_Some_D: "find_run s i = Some r \<Longrightarrow> r \<in> set (snap_runs s) \<and> run_id r = i"
  by (auto simp: find_run_def dest: find_Some_D)

lemma find_run_exists: "find_run s i = Some r \<Longrightarrow> P r \<Longrightarrow> run_exists s i P"
  using find_run_Some_D by (auto simp: run_exists_def)

text \<open>What each kind of Command needs of the state it is accepted against.\<close>

fun command_meets :: "snapshot \<Rightarrow> timestamp \<Rightarrow> string \<Rightarrow> command_body \<Rightarrow> bool" where
  "command_meets s now _ (SessionClose _) = True"
| "command_meets s now _ (RunCancel runId _) = run_exists s runId (\<lambda>_. True)"
| "command_meets s now _ (RunStart runId _ parentRunId retryOf) =
     (ses_status (snap_session s) = SessionOpen
      \<and> \<not> run_exists s runId (\<lambda>_. True)
      \<and> (case parentRunId of
           None \<Rightarrow> \<forall>r\<in>set (snap_runs s). run_status r \<noteq> Active
         | Some p \<Rightarrow> run_exists s p (\<lambda>r. run_status r = Active))
      \<and> (case retryOf of None \<Rightarrow> True | Some i \<Rightarrow> run_exists s i isTerminalRun))"
| "command_meets s now commandId (RunSteer runId _) =
     (ses_status (snap_session s) = SessionOpen \<and> run_exists s runId is_active_top_level
      \<and> \<not> item_exists s runId commandId (\<lambda>_. True))"
| "command_meets s now _ (SessionConfigure changes) =
     (ses_status (snap_session s) = SessionOpen
      \<and> (\<forall>change\<in>set changes. fst change \<in> opt_id ` set (ses_config (snap_session s))))"
| "command_meets s now _ (InteractionResolve i resolution) =
     (ses_status (snap_session s) = SessionOpen
      \<and> (\<exists>j\<in>set (snap_interactions s). int_id j = i \<and> int_status j = InteractionOpen
           \<and> (\<exists>k. compareTimestamps now (int_expiresAt j) = Inr k \<and> k < 0)
           \<and> run_exists s (int_runId j) (\<lambda>r. run_status r = Active)))"

lemma list_ex_run_exists: "list_ex P (snap_runs s) \<longleftrightarrow> (\<exists>r\<in>set (snap_runs s). P r)"
  by (simp add: list_ex_iff)

lemma assert_run_start_meets:
  assumes "wf_snapshot s" "ses_status (snap_session s) = SessionOpen"
    "assert_run_start s runId parentRunId retryOf = Inr ()"
  shows "command_meets s now cid (RunStart runId input parentRunId retryOf)"
proof -
  have "\<not> run_exists s runId (\<lambda>_. True)"
    using assms(3) by (auto simp: assert_run_start_def run_exists_def list_ex_iff)
  moreover have "\<forall>r\<in>set (snap_runs s). run_status r \<noteq> Active" if "parentRunId = None"
  proof -
    have "\<not> (\<exists>r\<in>set (snap_runs s). is_active_top_level r)"
      using assms(3) that by (auto simp: assert_run_start_def list_ex_iff)
    with no_active_run_iff [of s] assms(1) show ?thesis by (simp add: wf_snapshot_def)
  qed
  moreover have "run_exists s p (\<lambda>r. run_status r = Active)" if "parentRunId = Some p" for p
    using assms(3) that by (auto simp: assert_run_start_def ok_iff intro: find_run_exists)
  moreover have "run_exists s i isTerminalRun" if "retryOf = Some i" for i
    using assms(3) that
    by (auto simp: assert_run_start_def ok_iff isTerminalRun_def intro: find_run_exists)
  ultimately show ?thesis using assms(2) by (auto split: option.splits)
qed

lemma assert_run_steer_meets:
  assumes "ses_status (snap_session s) = SessionOpen" "assert_run_steer s cid runId = Inr ()"
  shows "command_meets s now cid (RunSteer runId input)"
  using assms
  by (auto simp: assert_run_steer_def ok_iff item_exists_def list_ex_iff intro: find_run_exists)

lemma assert_session_configure_meets:
  assumes "ses_status (snap_session s) = SessionOpen" "assert_session_configure s changes = Inr ()"
  shows "command_meets s now cid (SessionConfigure changes)"
  using assms
  by (force simp: assert_session_configure_def Let_def assert_config_change_def
      dest: find_Some_D split: option.splits)

lemma assert_interaction_resolve_meets:
  assumes "wf_snapshot s" "ses_status (snap_session s) = SessionOpen"
    "assert_interaction_resolve s now i resolution = Inr ()"
  shows "command_meets s now cid (InteractionResolve i resolution)"
proof -
  from assms(3) obtain j where "find (\<lambda>j. int_id j = i) (snap_interactions s) = Some j"
    "int_status j = InteractionOpen" "\<exists>k. compareTimestamps now (int_expiresAt j) = Inr k \<and> k < 0"
    by (auto simp: assert_interaction_resolve_def split: option.splits)
  moreover then have "j \<in> set (snap_interactions s)" "int_id j = i" by (auto dest: find_Some_D)
  ultimately show ?thesis
    using assms(1,2) by (auto simp: wf_snapshot_def activity_nested_def)
qed

lemma assert_command_state_meets:
  assumes "wf_snapshot s" "assert_command_state s c now = Inr ()"
  shows "command_meets s now (cmd_commandId c) (cmd_body c)"
proof (cases "ses_status (snap_session s)")
  case SessionClosed
  with assms(2) show ?thesis
    by (cases "cmd_body c") (auto simp: assert_command_state_def ok_iff intro: find_run_exists)
next
  case SessionOpen
  then show ?thesis
  proof (cases "cmd_body c")
    case (RunStart runId input parentRunId retryOf)
    with assms SessionOpen show ?thesis
      using assert_run_start_meets
      by (simp add: assert_command_state_def assert_command_kind_def del: command_meets.simps)
  next
    case (RunSteer runId input)
    with assms SessionOpen show ?thesis
      using assert_run_steer_meets
      by (simp add: assert_command_state_def assert_command_kind_def del: command_meets.simps)
  next
    case (SessionConfigure changes)
    with assms SessionOpen show ?thesis
      using assert_session_configure_meets
      by (simp add: assert_command_state_def assert_command_kind_def del: command_meets.simps)
  next
    case (InteractionResolve i resolution)
    with assms SessionOpen show ?thesis
      using assert_interaction_resolve_meets
      by (simp add: assert_command_state_def assert_command_kind_def del: command_meets.simps)
  qed (use assms SessionOpen in \<open>auto simp: assert_command_state_def assert_command_kind_def ok_iff
        intro: find_run_exists\<close>)
qed

lemma validateCommand_shape:
  assumes "validateCommand jbl s c now limits = Inr c'"
  shows "c' = c \<and> snapshot_schema s \<and> validateState s = Inr () \<and> command_schema c
    \<and> cmd_sessionId c = ses_id (snap_session s)
    \<and> opt_all (\<lambda>r. r = snap_revision s) (cmd_expectedRevision c)
    \<and> at_least now (snap_capturedAt s) \<and> assert_command_state s c now = Inr ()"
  using assms
  by (auto simp: validateCommand_def Let_def dest!: validateSessionSnapshot_ok split: if_splits)

end
