(* ===== verification/Examples.thy ===== *)
theory Examples
  imports Session_Sync Executor_Mutation Commands
begin

text \<open>
  A small Session the closed instances of the properties share: one user Run with an
  active message, a Mutation that completes both, and the snapshot it leads to.
\<close>

section \<open>Identities and times\<close>

definition ex_session_id :: string where "ex_session_id = ''01ARZ3NDEKTSV4RRFFQ69G5FAV''"
definition ex_run_id :: string where "ex_run_id = ''01ARZ3NDEKTSV4RRFFQ69G5FAW''"
definition ex_other_id :: string where "ex_other_id = ''01ARZ3NDEKTSV4RRFFQ69G5FAX''"
definition ex_t0 :: timestamp where "ex_t0 = ''2026-01-01T00:00:00Z''"
definition ex_t1 :: timestamp where "ex_t1 = ''2026-01-01T00:00:01Z''"
definition ex_t2 :: timestamp where "ex_t2 = ''2026-01-01T00:00:02Z''"
definition ex_t3 :: timestamp where "ex_t3 = ''2026-01-01T00:00:03Z''"

section \<open>The Session\<close>

definition ex_session :: session where
  "ex_session = \<lparr>ses_id = ex_session_id, ses_status = SessionOpen, ses_createdAt = ex_t0,
     ses_updatedAt = ex_t0, ses_closedAt = None, ses_title = None, ses_cwd = None,
     ses_capabilities = fmap_of_list [(''run.child'', fmempty)], ses_config = [], ses_parent = None,
     ses_provenance = None, ses_extensions = None\<rparr>"

definition ex_run :: run where
  "ex_run = \<lparr>run_id = ex_run_id, run_origin = OriginUser, run_input = [TextContent ''hi''],
     run_startedAt = ex_t1, run_parentRunId = None, run_retryOf = None, run_usage = None,
     run_provenance = None, run_extensions = None, run_outcome = ActiveRun\<rparr>"

definition ex_item :: item where
  "ex_item = \<lparr>item_id = ''m1'', item_runId = ex_run_id, item_status = Active, item_createdAt = ex_t1,
     item_updatedAt = ex_t1, item_endedAt = None, item_audience = Participants, item_error = None,
     item_provenance = None, item_extensions = None, item_body = MessageItem RoleAgent None []\<rparr>"

definition ex_snap :: snapshot where
  "ex_snap = \<lparr>snap_revision = 3, snap_capturedAt = ex_t2, snap_session = ex_session,
     snap_runs = [ex_run], snap_items = [ex_item], snap_interactions = []\<rparr>"

definition ex_run_done :: run where
  "ex_run_done = ex_run\<lparr>run_outcome := CompletedRun ex_t3 FinishSuccess\<rparr>"

definition ex_item_done :: item where
  "ex_item_done = ex_item\<lparr>item_status := Completed, item_updatedAt := ex_t3, item_endedAt := Some ex_t3\<rparr>"

definition ex_mutation :: committed_mutation where
  "ex_mutation = \<lparr>mut_mutationId = ex_other_id, mut_sessionId = ex_session_id, mut_baseRevision = 3,
     mut_cause = CauseSystem ''x'', mut_operations = [PutItem ex_item_done, PutRun ex_run_done],
     mut_extensions = None, mut_revision = 4, mut_committedAt = ex_t3\<rparr>"

definition ex_after :: snapshot where
  "ex_after = \<lparr>snap_revision = 4, snap_capturedAt = ex_t3, snap_session = ex_session,
     snap_runs = [ex_run_done], snap_items = [ex_item_done], snap_interactions = []\<rparr>"

lemma ex_snap_valid: "validateState ex_snap = Inr ()"
  by code_simp

lemma ex_snap_schema: "snapshot_schema ex_snap"
  by code_simp

lemma ex_after_valid: "validateState ex_after = Inr ()"
  by code_simp

lemma ex_mutation_schema: "committed_mutation_schema ex_mutation"
  by code_simp

lemma ex_assert_mutation: "assert_mutation ex_snap ex_mutation = Inr ()"
  by code_simp

lemma ex_fold: "foldE apply_operation (draft_of ex_snap) (mut_operations ex_mutation) = Inr (draft_of ex_after)"
  by code_simp

lemma ex_new_runs: "new_runs ex_snap (mut_operations ex_mutation) = []"
  by code_simp

lemma ex_revisions:
  "snap_revision ex_snap = 3" "snap_revision ex_after = 4" "mut_revision ex_mutation = 4"
  "mut_baseRevision ex_mutation = 3" "mut_sessionId ex_mutation = ex_session_id"
  "ses_id (snap_session ex_snap) = ex_session_id" "ses_id (snap_session ex_after) = ex_session_id"
  by (simp_all add: ex_snap_def ex_after_def ex_mutation_def ex_session_def)

lemma ex_snapshot_of: "snapshot_of ex_mutation (draft_of ex_after) = ex_after"
  by (simp add: snapshot_of_def draft_of_def ex_after_def ex_mutation_def)

lemma ex_apply: "applyMutation ex_snap ex_mutation = Inr ex_after"
  by (simp add: applyMutation_def ex_revisions ex_assert_mutation ex_fold ex_new_runs ex_snapshot_of
      ex_after_valid invariant_def)

lemma ex_commit: "applyCommittedMutation ex_snap ex_mutation = Inr ex_after"
  by (simp add: applyCommittedMutation_def validateSessionSnapshot_def ex_snap_schema ex_snap_valid
      ex_mutation_schema ex_apply)

section \<open>Compaction\<close>

definition ex_removal :: committed_mutation where
  "ex_removal = \<lparr>mut_mutationId = ex_run_id, mut_sessionId = ex_session_id, mut_baseRevision = 4,
     mut_cause = CauseSystem ''gc'', mut_operations = [RemoveRun ex_run_id RemoveCompacted],
     mut_extensions = None, mut_revision = 5, mut_committedAt = ex_t3\<rparr>"

definition ex_compacted :: snapshot where
  "ex_compacted = \<lparr>snap_revision = 5, snap_capturedAt = ex_t3, snap_session = ex_session,
     snap_runs = [], snap_items = [], snap_interactions = []\<rparr>"

lemma ex_close_removed: "close_removed [ex_run_done] [ex_run_id] = [ex_run_id]"
  by (subst close_removed.simps) (simp add: removal_pass_def ex_run_done_def ex_run_def)

lemma ex_remove_run: "remove_run (draft_of ex_after) ex_run_id = Inr (draft_of ex_compacted)"
proof -
  have "run_id ex_run_done = ex_run_id" "isTerminalRun ex_run_done" "item_runId ex_item_done = ex_run_id"
    by (simp_all add: ex_run_done_def ex_run_def isTerminalRun_def ex_item_done_def ex_item_def)
  then show ?thesis
    by (simp add: remove_run_def draft_of_def ex_after_def ex_compacted_def ex_close_removed)
qed

lemma ex_after_schema: "snapshot_schema ex_after"
  by (rule applyMutation_schema [OF ex_snap_schema ex_mutation_schema ex_apply])

lemma ex_removal_schema: "committed_mutation_schema ex_removal"
  by code_simp

lemma ex_assert_removal: "assert_mutation ex_after ex_removal = Inr ()"
  by code_simp

lemma ex_compacted_valid: "validateState ex_compacted = Inr ()"
  by code_simp

lemma ex_apply_removal: "applyMutation ex_after ex_removal = Inr ex_compacted"
proof -
  have "foldE apply_operation (draft_of ex_after) (mut_operations ex_removal) = Inr (draft_of ex_compacted)"
    by (simp add: ex_removal_def ex_remove_run)
  moreover have "snapshot_of ex_removal (draft_of ex_compacted) = ex_compacted"
    by (simp add: snapshot_of_def draft_of_def ex_compacted_def ex_removal_def)
  moreover have "new_runs ex_after (mut_operations ex_removal) = []"
    by (simp add: new_runs_def ex_removal_def)
  moreover have "mut_sessionId ex_removal = ex_session_id" "mut_revision ex_removal = 5"
    by (simp_all add: ex_removal_def)
  ultimately show ?thesis
    by (simp add: applyMutation_def ex_revisions ex_assert_removal ex_compacted_valid invariant_def)
qed

section \<open>Synchronisation\<close>

lemma ex_sync_schema: "sync_payload_schema (MutationSync 3 5 [ex_mutation, ex_removal])"
proof -
  have "safe_nat 3" "safe_nat 5" by (simp_all add: safe_nat_def max_safe_integer_def)
  moreover have "sync_chain 4 None [ex_mutation, ex_removal]"
    by (simp add: ex_mutation_def ex_removal_def)
  moreover have "mut_mutationId ex_mutation \<noteq> mut_mutationId ex_removal" by code_simp
  ultimately show ?thesis using ex_mutation_schema ex_removal_schema by simp
qed

lemma ex_sync:
  "applySyncPayload (\<lambda>_. 0) (\<lambda>_. 0) (Some ex_snap) (MutationSync 3 5 ([ex_mutation] @ [ex_removal])) None
     = Inr ex_compacted"
proof -
  have "mut_revision ex_removal = 5" by (simp add: ex_removal_def)
  then have "follow ex_snap [ex_mutation, ex_removal] = Inr ex_compacted"
    by (simp add: follow_def ex_revisions ex_apply ex_apply_removal)
  then show ?thesis
    using applySyncPayload_mutations [OF ex_sync_schema ex_snap_schema ex_snap_valid]
    by (simp add: ex_revisions)
qed

section \<open>A permission\<close>

definition ex_asking_session :: session where
  "ex_asking_session = ex_session\<lparr>ses_capabilities := fmap_of_list [(''interaction.permission'', fmempty)]\<rparr>"

definition ex_request :: permission_request where
  "ex_request = \<lparr>preq_title = ''Run?'', preq_description = None,
     preq_subject = SubjectResource ''run'' [''ls''],
     preq_options = [\<lparr>perm_id = ''yes'', perm_label = ''Yes'', perm_description = None,
       perm_effect = EffectAllow, perm_scope = ScopeOnce, perm_extensions = None\<rparr>]\<rparr>"

definition ex_question :: interaction where
  "ex_question = \<lparr>int_id = ex_other_id, int_runId = ex_run_id, int_itemId = None,
     int_status = InteractionOpen, int_blocking = True, int_createdAt = ex_t1,
     int_expiresAt = ''2026-01-01T01:00:01.000Z'', int_endedAt = None, int_audience = Participants,
     int_provenance = None, int_extensions = None,
     int_body = PermissionInteraction ex_request None\<rparr>"

definition ex_waiting :: snapshot where
  "ex_waiting = \<lparr>snap_revision = 3, snap_capturedAt = ex_t2, snap_session = ex_asking_session,
     snap_runs = [ex_run], snap_items = [], snap_interactions = [ex_question]\<rparr>"

definition ex_question_resolved :: interaction where
  "ex_question_resolved = ex_question\<lparr>int_status := InteractionResolved, int_endedAt := Some ex_t3,
     int_body := PermissionInteraction ex_request (Some (PermissionSelected ''yes''))\<rparr>"

definition ex_answer :: committed_mutation where
  "ex_answer = \<lparr>mut_mutationId = ex_other_id, mut_sessionId = ex_session_id, mut_baseRevision = 3,
     mut_cause = CauseSystem ''x'', mut_operations = [PutInteraction ex_question_resolved],
     mut_extensions = None, mut_revision = 4, mut_committedAt = ex_t3\<rparr>"

definition ex_answered :: snapshot where
  "ex_answered = \<lparr>snap_revision = 4, snap_capturedAt = ex_t3, snap_session = ex_asking_session,
     snap_runs = [ex_run], snap_items = [], snap_interactions = [ex_question_resolved]\<rparr>"

lemma ex_waiting_valid: "validateState ex_waiting = Inr ()"
  by code_simp

lemma ex_waiting_schema: "snapshot_schema ex_waiting"
  by code_simp

lemma ex_answer_schema: "committed_mutation_schema ex_answer"
  by code_simp

lemma ex_assert_answer: "assert_mutation ex_waiting ex_answer = Inr ()"
  by code_simp

lemma ex_answer_fold:
  "foldE apply_operation (draft_of ex_waiting) (mut_operations ex_answer) = Inr (draft_of ex_answered)"
  by code_simp

lemma ex_answered_valid: "validateState ex_answered = Inr ()"
  by code_simp

lemma ex_commit_answer: "applyCommittedMutation ex_waiting ex_answer = Inr ex_answered"
proof -
  have "snapshot_of ex_answer (draft_of ex_answered) = ex_answered"
    by (simp add: snapshot_of_def draft_of_def ex_answered_def ex_answer_def)
  moreover have "new_runs ex_waiting (mut_operations ex_answer) = []"
    by (simp add: new_runs_def ex_answer_def)
  moreover have "mut_sessionId ex_answer = ex_session_id" "mut_revision ex_answer = 4"
    "ses_id (snap_session ex_waiting) = ex_session_id" "snap_revision ex_waiting = 3"
    by (simp_all add: ex_answer_def ex_waiting_def ex_asking_session_def ex_session_def)
  ultimately have "applyMutation ex_waiting ex_answer = Inr ex_answered"
    by (simp add: applyMutation_def ex_assert_answer ex_answer_fold ex_answered_valid invariant_def)
  then show ?thesis
    by (simp add: applyCommittedMutation_def validateSessionSnapshot_def ex_waiting_schema
        ex_waiting_valid ex_answer_schema)
qed

section \<open>An executor's proposals\<close>

definition ex_proposal :: proposed_mutation where
  "ex_proposal = \<lparr>mut_mutationId = ex_other_id, mut_sessionId = ex_session_id, mut_baseRevision = 3,
     mut_cause = CauseProvider None, mut_operations = [PutItem ex_item_done, PutRun ex_run_done],
     mut_extensions = None\<rparr>"

definition ex_ask :: proposed_mutation where
  "ex_ask = ex_proposal\<lparr>mut_operations := [PutInteraction ex_question]\<rparr>"

definition ex_ask_stamped :: proposed_mutation where
  "ex_ask_stamped = ex_proposal\<lparr>mut_operations :=
     [PutInteraction (ex_question\<lparr>int_createdAt := ex_t3, int_expiresAt := ''2026-01-01T00:00:04.000Z''\<rparr>)]\<rparr>"

lemma ex_normalize: "normalizeExecutorMutation (\<lambda>_. 0) ex_snap ex_proposal ex_t3 1000 None = Inr ex_proposal"
  by code_simp

lemma ex_normalize_ask:
  "normalizeExecutorMutation (\<lambda>_. 0) ex_snap ex_ask ex_t3 1000 None = Inr ex_ask_stamped"
  by code_simp

section \<open>A command\<close>

definition ex_start :: command where
  "ex_start = \<lparr>cmd_commandId = ex_session_id, cmd_sessionId = ex_session_id, cmd_expectedRevision = Some 4,
     cmd_extensions = None, cmd_body = RunStart ex_other_id [TextContent ''again''] None (Some ex_run_id)\<rparr>"

lemma ex_validate_start: "validateCommand (\<lambda>_. 0) ex_after ex_start ex_t3 None = Inr ex_start"
  by code_simp

end
