(* ===== verification/Previews.thy ===== *)
theory Previews
  imports Snapshot_Validation
begin

text \<open>
  src/src/contract/preview.ts and preview-validation.ts: preview updates, how a receiver
  applies them, how a sender coalesces them, and which batches a snapshot admits.  The
  theorems show that coalescing never changes how far a receiver gets, and that a
  receiver that would apply every original update ends in the same state with the
  coalesced ones.
\<close>

section \<open>Updates\<close>

datatype preview_op =
    Append (append_from: nat) (append_through: nat) (append_text: string)
  | Replace (replace_through: nat) (replace_text: string)

record preview_update =
  pv_itemId :: string
  pv_streamId :: string
  pv_channel :: string
  pv_segment :: nat
  pv_op :: preview_op

fun preview_op_schema :: "preview_op \<Rightarrow> bool" where
  "preview_op_schema (Append fromSequence throughSequence text) =
     (1 \<le> fromSequence \<and> safe_nat fromSequence \<and> 1 \<le> throughSequence \<and> safe_nat throughSequence
      \<and> text \<noteq> [] \<and> fromSequence \<le> throughSequence)"
| "preview_op_schema (Replace throughSequence _) = (1 \<le> throughSequence \<and> safe_nat throughSequence)"

definition preview_update_schema :: "preview_update \<Rightarrow> bool" where
  "preview_update_schema u \<longleftrightarrow>
     opaque_id_schema (pv_itemId u) \<and> opaque_id_schema (pv_streamId u)
     \<and> safe_nat (pv_segment u) \<and> preview_op_schema (pv_op u)"

record preview_batch =
  pb_sessionId :: string
  pb_runId :: string
  pb_emittedAt :: timestamp
  pb_updates :: "preview_update list"

definition preview_batch_schema :: "preview_batch \<Rightarrow> bool" where
  "preview_batch_schema b \<longleftrightarrow>
     protocol_id_schema (pb_sessionId b) \<and> protocol_id_schema (pb_runId b)
     \<and> pb_updates b \<noteq> [] \<and> list_all preview_update_schema (pb_updates b)"

section \<open>The receiver\<close>

record preview_stream =
  st_text :: "string option"
  st_throughSequence :: nat

datatype preview_status = PreviewApplied | PreviewDuplicate | PreviewGap

definition current_through :: "preview_stream option \<Rightarrow> nat" where
  "current_through current = (case current of None \<Rightarrow> 0 | Some c \<Rightarrow> st_throughSequence c)"

definition current_text :: "preview_stream option \<Rightarrow> string option" where
  "current_text current = (case current of None \<Rightarrow> Some [] | Some c \<Rightarrow> st_text c)"

definition applyPreviewUpdate ::
    "preview_stream option \<Rightarrow> preview_update \<Rightarrow> preview_status \<times> preview_stream" where
  "applyPreviewUpdate current update =
     (case pv_op update of
        Replace throughSequence text \<Rightarrow>
          (case current of
             Some c \<Rightarrow>
               if throughSequence < st_throughSequence c then (PreviewDuplicate, c)
               else (PreviewApplied, \<lparr>st_text = Some text, st_throughSequence = throughSequence\<rparr>)
           | None \<Rightarrow> (PreviewApplied, \<lparr>st_text = Some text, st_throughSequence = throughSequence\<rparr>))
      | Append fromSequence throughSequence text \<Rightarrow>
          let append =
            (if fromSequence \<noteq> current_through current + 1 \<or> current_text current = None
             then (PreviewGap,
                   \<lparr>st_text = None,
                    st_throughSequence = max (current_through current) throughSequence\<rparr>)
             else (PreviewApplied,
                   \<lparr>st_text = map_option (\<lambda>t. t @ text) (current_text current),
                    st_throughSequence = throughSequence\<rparr>))
          in case current of
               Some c \<Rightarrow> if throughSequence \<le> st_throughSequence c then (PreviewDuplicate, c) else append
             | None \<Rightarrow> append)"

section \<open>Coalescing\<close>

text \<open>\<open>previewKeyOf\<close> is the JSON text of these four fields, which determines them.\<close>

type_synonym preview_key = "string \<times> string \<times> string \<times> nat"

definition previewKeyOf :: "preview_update \<Rightarrow> preview_key" where
  "previewKeyOf u = (pv_itemId u, pv_streamId u, pv_channel u, pv_segment u)"

fun op_through :: "preview_op \<Rightarrow> nat" where
  "op_through (Append _ throughSequence _) = throughSequence"
| "op_through (Replace throughSequence _) = throughSequence"

definition mergePreviewUpdates :: "preview_update \<Rightarrow> preview_update \<Rightarrow> preview_update option" where
  "mergePreviewUpdates previous next =
     (if previewKeyOf previous \<noteq> previewKeyOf next then None
      else case pv_op next of
        Replace throughSequence _ \<Rightarrow>
          Some (if throughSequence < op_through (pv_op previous) then previous else next)
      | Append fromSequence throughSequence text \<Rightarrow>
          (case pv_op previous of
             Replace through text' \<Rightarrow>
               if fromSequence \<noteq> through + 1 then None
               else Some (previous\<lparr>pv_op := Replace throughSequence (text' @ text)\<rparr>)
           | Append from' through text' \<Rightarrow>
               if fromSequence \<noteq> through + 1 then None
               else Some (previous\<lparr>pv_op := Append from' throughSequence (text' @ text)\<rparr>)))"

definition coalesce_step ::
    "preview_update list \<times> (preview_key, nat) fmap \<Rightarrow> preview_update
      \<Rightarrow> preview_update list \<times> (preview_key, nat) fmap" where
  "coalesce_step = (\<lambda>(output, lastIndexByKey) update.
     let key = previewKeyOf update in
     case fmlookup lastIndexByKey key of
       None \<Rightarrow> (output @ [update], fmupd key (length output) lastIndexByKey)
     | Some previousIndex \<Rightarrow>
         (case mergePreviewUpdates (output ! previousIndex) update of
            None \<Rightarrow> (output @ [update], fmupd key (length output) lastIndexByKey)
          | Some merged \<Rightarrow> (output[previousIndex := merged], lastIndexByKey)))"

definition coalescePreviewUpdates :: "preview_update list \<Rightarrow> preview_update list" where
  "coalescePreviewUpdates updates = fst (foldl coalesce_step ([], fmempty) updates)"

section \<open>preview-validation.ts\<close>

definition previewItemKind :: "string \<Rightarrow> item_kind option" where
  "previewItemKind channel =
     (if channel = ''message.text'' then Some KindMessage
      else if channel = ''reasoning.text'' then Some KindReasoning
      else if channel = ''terminal.stderr'' \<or> channel = ''terminal.stdout'' then Some KindTerminal
      else if channel = ''tool.progress'' then Some KindTool
      else None)"

definition assert_preview_update ::
    "snapshot \<Rightarrow> string \<Rightarrow> preview_update \<Rightarrow> contract_error + unit" where
  "assert_preview_update s runId update =
     (case items_by_id s (itemKey runId (pv_itemId update)) of
        None \<Rightarrow> Inl (ContractInvariantError InvalidReference)
      | Some it \<Rightarrow>
          let expectedKind = previewItemKind (pv_channel update) in
          checks
            [invariant InvalidTransition (item_status it = Active),
             invariant Unsupported
               (expectedKind \<noteq> None \<or> has_capability (snap_session s) (pv_channel update)),
             invariant InvalidReference (opt_all (\<lambda>k. item_kind it = k) expectedKind)])"

definition validatePreviewBatch ::
    "(preview_batch \<Rightarrow> nat) \<Rightarrow> snapshot \<Rightarrow> preview_batch \<Rightarrow> admission_limits option
      \<Rightarrow> contract_error + preview_batch" where
  "validatePreviewBatch jsonByteLength snapshotValue batch admissionLimits =
     bindE (validateSessionSnapshot (\<lambda>_. 0) snapshotValue None) (\<lambda>s.
     if \<not> preview_batch_schema batch then Inl ZodError
     else
       bindE (checks
         [case admissionLimits of
            None \<Rightarrow> Inr ()
          | Some limits \<Rightarrow> assertProtocolAdmission (jsonByteLength batch) limits [],
          invariant SessionMismatch (pb_sessionId batch = ses_id (snap_session s)),
          case find (\<lambda>r. run_id r = pb_runId batch) (snap_runs s) of
            None \<Rightarrow> Inl (ContractInvariantError InvalidReference)
          | Some r \<Rightarrow> invariant InvalidTransition (run_status r = Active),
          each (assert_preview_update s (pb_runId batch)) (pb_updates batch)]) (\<lambda>_.
       Inr batch))"

section \<open>Applying an update\<close>

lemma apply_through:
  "st_throughSequence (snd (applyPreviewUpdate current u)) =
     max (current_through current) (op_through (pv_op u))"
  by (cases "pv_op u"; cases current)
    (auto simp: applyPreviewUpdate_def current_through_def Let_def max_def)

lemma apply_duplicate:
  "fst (applyPreviewUpdate current u) = PreviewDuplicate \<Longrightarrow>
    current = Some (snd (applyPreviewUpdate current u))"
  by (cases "pv_op u"; cases current)
    (auto simp: applyPreviewUpdate_def Let_def split: if_splits)

lemma apply_applied_text:
  "fst (applyPreviewUpdate current u) = PreviewApplied \<Longrightarrow>
    st_text (snd (applyPreviewUpdate current u)) \<noteq> None"
  by (cases "pv_op u"; cases current)
    (auto simp: applyPreviewUpdate_def current_text_def Let_def split: if_splits)

lemma apply_merged_through:
  "mergePreviewUpdates p u = Some m \<Longrightarrow> preview_op_schema (pv_op u) \<Longrightarrow>
    op_through (pv_op m) = max (op_through (pv_op p)) (op_through (pv_op u))"
  by (cases "pv_op u"; cases "pv_op p")
    (auto simp: mergePreviewUpdates_def max_def split: if_splits)

lemma merge_key: "mergePreviewUpdates p u = Some m \<Longrightarrow> previewKeyOf m = previewKeyOf u"
  by (cases "pv_op u"; cases "pv_op p")
    (auto simp: mergePreviewUpdates_def previewKeyOf_def split: if_splits)

lemma merge_schema:
  "mergePreviewUpdates p u = Some m \<Longrightarrow> preview_op_schema (pv_op p) \<Longrightarrow> preview_op_schema (pv_op u)
    \<Longrightarrow> preview_op_schema (pv_op m)"
  by (cases "pv_op u"; cases "pv_op p")
    (auto simp: mergePreviewUpdates_def split: if_splits)

lemma merge_applied:
  assumes "mergePreviewUpdates p u = Some m" "preview_op_schema (pv_op u)"
    and "applyPreviewUpdate st p = (PreviewApplied, st1)"
    and "applyPreviewUpdate (Some st1) u = (PreviewApplied, st2)"
  shows "applyPreviewUpdate st m = (PreviewApplied, st2)"
  using assms
  by (cases "pv_op u"; cases "pv_op p"; cases st; cases st1)
    (auto simp: mergePreviewUpdates_def applyPreviewUpdate_def current_through_def current_text_def
      Let_def split: if_splits)

section \<open>A receiver of many streams\<close>

type_synonym preview_receiver = "preview_key \<Rightarrow> preview_stream option"

definition receive :: "preview_receiver \<Rightarrow> preview_update \<Rightarrow> preview_receiver" where
  "receive st u = st(previewKeyOf u := Some (snd (applyPreviewUpdate (st (previewKeyOf u)) u)))"

fun all_applied :: "preview_receiver \<Rightarrow> preview_update list \<Rightarrow> bool" where
  "all_applied st [] = True"
| "all_applied st (u # us) =
     (fst (applyPreviewUpdate (st (previewKeyOf u)) u) = PreviewApplied \<and> all_applied (receive st u) us)"

text \<open>One stream on its own.\<close>

definition run_stream :: "preview_stream option \<Rightarrow> preview_update list \<Rightarrow> preview_stream option" where
  "run_stream = foldl (\<lambda>c u. Some (snd (applyPreviewUpdate c u)))"

fun stream_applied :: "preview_stream option \<Rightarrow> preview_update list \<Rightarrow> bool" where
  "stream_applied c [] = True"
| "stream_applied c (u # us) =
     (fst (applyPreviewUpdate c u) = PreviewApplied
      \<and> stream_applied (Some (snd (applyPreviewUpdate c u))) us)"

lemma run_stream_simps [simp]:
  "run_stream c [] = c"
  "run_stream c (u # us) = run_stream (Some (snd (applyPreviewUpdate c u))) us"
  by (simp_all add: run_stream_def)

lemma run_stream_append [simp]: "run_stream c (us @ vs) = run_stream (run_stream c us) vs"
  by (simp add: run_stream_def)

lemma stream_applied_append [simp]:
  "stream_applied c (us @ vs) \<longleftrightarrow> stream_applied c us \<and> stream_applied (run_stream c us) vs"
  by (induction us arbitrary: c) auto

abbreviation of_key :: "preview_key \<Rightarrow> preview_update list \<Rightarrow> preview_update list" where
  "of_key k us \<equiv> filter (\<lambda>u. previewKeyOf u = k) us"

lemma receive_all_stream: "foldl receive st us k = run_stream (st k) (of_key k us)"
  by (induction us arbitrary: st) (auto simp: receive_def)

lemma all_applied_stream: "all_applied st us \<longleftrightarrow> (\<forall>k. stream_applied (st k) (of_key k us))"
proof (induction us arbitrary: st)
  case (Cons u us)
  have "stream_applied (st k) (of_key k (u # us)) \<longleftrightarrow>
      (previewKeyOf u = k \<longrightarrow> fst (applyPreviewUpdate (st k) u) = PreviewApplied)
      \<and> stream_applied (receive st u k) (of_key k us)" for k
    by (auto simp: receive_def)
  then show ?case unfolding all_applied.simps Cons.IH by blast
qed simp

lemma current_through_apply [simp]:
  "current_through (Some (snd (applyPreviewUpdate c u))) = max (current_through c) (op_through (pv_op u))"
  using apply_through [of c u] by (simp add: current_through_def)

lemma current_through_run_stream:
  "current_through (run_stream c us) = foldl max (current_through c) (map (\<lambda>u. op_through (pv_op u)) us)"
  by (induction us arbitrary: c) simp_all

section \<open>Coalescing one stream\<close>

definition push_stream :: "preview_update list \<Rightarrow> preview_update \<Rightarrow> preview_update list" where
  "push_stream out u =
     (if out = [] then [u]
      else case mergePreviewUpdates (last out) u of
        None \<Rightarrow> out @ [u] | Some m \<Rightarrow> butlast out @ [m])"

lemma push_stream_through:
  assumes "preview_op_schema (pv_op u)"
  shows "current_through (run_stream c (push_stream out u)) = current_through (run_stream c (out @ [u]))"
proof (cases "out = [] \<or> mergePreviewUpdates (last out) u = None")
  case True
  then show ?thesis by (auto simp: push_stream_def)
next
  case False
  then obtain o' p m where out: "out = o' @ [p]" "mergePreviewUpdates p u = Some m"
    by (cases out rule: rev_cases) auto
  with apply_merged_through [OF this(2) assms] show ?thesis
    by (simp add: push_stream_def max.assoc)
qed

lemma push_stream_applied:
  assumes "preview_op_schema (pv_op u)" "stream_applied c (out @ [u])"
  shows "stream_applied c (push_stream out u)
    \<and> run_stream c (push_stream out u) = run_stream c (out @ [u])"
proof (cases "out = [] \<or> mergePreviewUpdates (last out) u = None")
  case True
  then show ?thesis using assms(2) by (auto simp: push_stream_def)
next
  case False
  then obtain o' p m where out: "out = o' @ [p]" "mergePreviewUpdates p u = Some m"
    by (cases out rule: rev_cases) auto
  let ?c = "run_stream c o'"
  obtain st1 where st1: "applyPreviewUpdate ?c p = (PreviewApplied, st1)"
    using assms(2) out(1) by (cases "applyPreviewUpdate ?c p") auto
  obtain st2 where "applyPreviewUpdate (Some st1) u = (PreviewApplied, st2)"
    using assms(2) out(1) st1 by (cases "applyPreviewUpdate (Some st1) u") auto
  with merge_applied [OF out(2) assms(1) st1 this] show ?thesis
    using assms(2) out st1 by (simp add: push_stream_def)
qed

lemma push_streams_applied:
  assumes "\<forall>u\<in>set us. preview_op_schema (pv_op u)" "stream_applied c us"
  shows "stream_applied c (foldl push_stream [] us)
    \<and> run_stream c (foldl push_stream [] us) = run_stream c us"
  using assms
proof (induction us rule: rev_induct)
  case (snoc u us)
  then have IH: "stream_applied c (foldl push_stream [] us)"
    "run_stream c (foldl push_stream [] us) = run_stream c us" by simp_all
  have "stream_applied c (foldl push_stream [] us @ [u])" using snoc.prems IH by simp
  from push_stream_applied [OF _ this] snoc.prems IH show ?case by simp
qed simp

lemma push_streams_through:
  assumes "\<forall>u\<in>set us. preview_op_schema (pv_op u)"
  shows "current_through (run_stream c (foldl push_stream [] us)) = current_through (run_stream c us)"
  using assms
proof (induction us rule: rev_induct)
  case (snoc u us)
  then show ?case
    using push_stream_through [of u c "foldl push_stream [] us"] by simp
qed simp

section \<open>Coalescing a batch coalesces each of its streams\<close>

text \<open>
  The index map points at the last update of each stream, and has no entry for a stream
  that is not in the output.
\<close>

definition index_of_last :: "preview_update list \<Rightarrow> (preview_key, nat) fmap \<Rightarrow> bool" where
  "index_of_last output m \<longleftrightarrow>
     (\<forall>k. case fmlookup m k of
        None \<Rightarrow> of_key k output = []
      | Some i \<Rightarrow> i < length output \<and> previewKeyOf (output ! i) = k
          \<and> of_key k (drop (Suc i) output) = [])"

lemma of_key_update:
  assumes "i < length output" "previewKeyOf (output ! i) = k" "of_key k (drop (Suc i) output) = []"
    "previewKeyOf m = k"
  shows "of_key k output = of_key k (take i output) @ [output ! i]"
    "of_key k (output[i := m]) = of_key k (take i output) @ [m]"
    "k' \<noteq> k \<Longrightarrow> of_key k' (output[i := m]) = of_key k' output"
proof -
  have split: "output = take i output @ output ! i # drop (Suc i) output"
    using assms(1) by (rule id_take_nth_drop)
  have upd: "output[i := m] = take i output @ m # drop (Suc i) output"
    using assms(1) by (rule upd_conv_take_nth_drop)
  show "of_key k output = of_key k (take i output) @ [output ! i]"
    by (subst split) (use assms in simp)
  show "of_key k (output[i := m]) = of_key k (take i output) @ [m]"
    unfolding upd using assms by simp
  show "of_key k' (output[i := m]) = of_key k' output" if "k' \<noteq> k"
    unfolding upd by (subst (3) split) (use assms that in simp)
qed

lemma of_key_update_other:
  "j < length ys \<Longrightarrow> previewKeyOf (ys ! j) \<noteq> k \<Longrightarrow> previewKeyOf p \<noteq> k \<Longrightarrow>
    of_key k (ys[j := p]) = of_key k ys"
proof (induction ys arbitrary: j)
  case (Cons y ys)
  then show ?case by (cases j) auto
qed simp

lemma of_key_drop_update:
  assumes "i < length xs" "previewKeyOf (xs ! i) \<noteq> k" "previewKeyOf p \<noteq> k"
  shows "of_key k (drop n (xs[i := p])) = of_key k (drop n xs)"
proof (cases "n \<le> i")
  case True
  then have "drop n xs ! (i - n) = xs ! i" "i - n < length (drop n xs)" using assms(1) by simp_all
  then have "of_key k ((drop n xs)[i - n := p]) = of_key k (drop n xs)"
    using assms(2,3) of_key_update_other [of "i - n" "drop n xs" k p] by simp
  then show ?thesis using True by (simp add: drop_update_swap)
next
  case False
  then show ?thesis by simp
qed

lemma coalesce_step_push:
  assumes "index_of_last output m" "coalesce_step (output, m) u = (output', m')"
  shows "index_of_last output' m'
    \<and> (\<forall>k. of_key k output' = (if previewKeyOf u = k then push_stream (of_key k output) u else of_key k output))"
proof -
  let ?k = "previewKeyOf u"
  have inv: "case fmlookup m k of None \<Rightarrow> of_key k output = []
      | Some i \<Rightarrow> i < length output \<and> previewKeyOf (output ! i) = k
          \<and> of_key k (drop (Suc i) output) = []" for k
    using assms(1) unfolding index_of_last_def by (rule spec)
  show ?thesis
  proof (cases "\<exists>i p. fmlookup m ?k = Some i \<and> mergePreviewUpdates (output ! i) u = Some p")
    case True
    then obtain i p where i: "fmlookup m ?k = Some i" "mergePreviewUpdates (output ! i) u = Some p"
      by blast
    have o': "output' = output[i := p]" "m' = m"
      using assms(2) i by (simp_all add: coalesce_step_def Let_def)
    have at: "i < length output" "previewKeyOf (output ! i) = ?k" "of_key ?k (drop (Suc i) output) = []"
      using inv [of ?k] i(1) by simp_all
    note upd = of_key_update [OF at merge_key [OF i(2)]]
    have "of_key ?k output' = push_stream (of_key ?k output) u"
      unfolding o' upd(2) by (subst upd(1)) (simp add: push_stream_def upd(1) i(2))
    moreover have "of_key k output' = of_key k output" if "k \<noteq> ?k" for k
      unfolding o' using upd(3) that by blast
    moreover have "index_of_last output' m'"
      unfolding index_of_last_def
    proof
      fix k
      show "case fmlookup m' k of None \<Rightarrow> of_key k output' = []
        | Some j \<Rightarrow> j < length output' \<and> previewKeyOf (output' ! j) = k
            \<and> of_key k (drop (Suc j) output') = []"
      proof (cases "k = ?k")
        case True
        with at i(1) merge_key [OF i(2)] show ?thesis by (simp add: o')
      next
        case False
        then have other: "previewKeyOf (output ! i) \<noteq> k" "previewKeyOf p \<noteq> k"
          using at(2) merge_key [OF i(2)] by auto
        have tl: "of_key k (drop n (output[i := p])) = of_key k (drop n output)" for n
          using of_key_drop_update [OF at(1) other] .
        have "fmlookup m k = Some j \<Longrightarrow> j \<noteq> i" for j using inv [of k] at(2) False by auto
        with inv [of k] tl [of 0] tl show ?thesis
          by (simp add: o' split: option.splits)
      qed
    qed
    ultimately show ?thesis by auto
  next
    case False
    have o': "output' = output @ [u]" "m' = fmupd ?k (length output) m"
      using assms(2) False by (auto simp: coalesce_step_def Let_def split: option.splits)
    have "push_stream (of_key ?k output) u = of_key ?k output @ [u]"
    proof (cases "fmlookup m ?k")
      case None
      with inv [of ?k] show ?thesis by (simp add: push_stream_def)
    next
      case (Some i)
      then have at: "i < length output" "previewKeyOf (output ! i) = ?k"
        "of_key ?k (drop (Suc i) output) = []" using inv [of ?k] by simp_all
      have "of_key ?k output = of_key ?k (take i output) @ [output ! i]"
        using of_key_update(1) [OF at, of u] by simp
      moreover have "mergePreviewUpdates (output ! i) u = None" using False Some by simp
      ultimately show ?thesis by (simp add: push_stream_def)
    qed
    moreover have "index_of_last output' m'"
      unfolding index_of_last_def
    proof
      fix k
      show "case fmlookup m' k of None \<Rightarrow> of_key k output' = []
        | Some j \<Rightarrow> j < length output' \<and> previewKeyOf (output' ! j) = k
            \<and> of_key k (drop (Suc j) output') = []"
        using inv [of k] by (auto simp: o' nth_append split: option.splits)
    qed
    ultimately show ?thesis by (auto simp: o')
  qed
qed

lemma coalesce_streams:
  assumes "foldl coalesce_step ([], fmempty) us = (output, m)"
  shows "index_of_last output m \<and> (\<forall>k. of_key k output = foldl push_stream [] (of_key k us))"
  using assms
proof (induction us arbitrary: "output" m rule: rev_induct)
  case Nil
  then show ?case by (simp add: index_of_last_def)
next
  case (snoc u us)
  obtain o' m' where o': "foldl coalesce_step ([], fmempty) us = (o', m')" by fastforce
  with snoc.prems have "coalesce_step (o', m') u = (output, m)" by simp
  with coalesce_step_push [OF _ this] snoc.IH [OF o'] show ?case by auto
qed

lemma coalesce_of_key: "of_key k (coalescePreviewUpdates us) = foldl push_stream [] (of_key k us)"
  unfolding coalescePreviewUpdates_def using coalesce_streams [of us] by (metis prod.collapse)

lemma push_stream_nonempty: "push_stream out u \<noteq> []"
  by (auto simp: push_stream_def split: option.splits)

text \<open>A receiver gets exactly as far with the coalesced updates, whatever it held before.\<close>

lemma coalesce_through:
  assumes "list_all preview_update_schema us"
  shows "current_through (foldl receive st (coalescePreviewUpdates us) k)
    = current_through (foldl receive st us k)"
proof -
  have "\<forall>u\<in>set (of_key k us). preview_op_schema (pv_op u)"
    using assms by (auto simp: list_all_iff preview_update_schema_def)
  then show ?thesis by (simp add: receive_all_stream coalesce_of_key push_streams_through)
qed

text \<open>A receiver that applies every original update applies every coalesced one, to the same end.\<close>

lemma coalesce_equivalent:
  assumes "list_all preview_update_schema us" "all_applied st us"
  shows "all_applied st (coalescePreviewUpdates us)
    \<and> foldl receive st (coalescePreviewUpdates us) = foldl receive st us"
proof -
  have "\<forall>u\<in>set (of_key k us). preview_op_schema (pv_op u)" for k
    using assms(1) by (auto simp: list_all_iff preview_update_schema_def)
  moreover have "stream_applied (st k) (of_key k us)" for k
    using assms(2) unfolding all_applied_stream by (rule spec)
  ultimately have one: "stream_applied (st k) (foldl push_stream [] (of_key k us))
      \<and> run_stream (st k) (foldl push_stream [] (of_key k us)) = run_stream (st k) (of_key k us)" for k
    using push_streams_applied by blast
  then show ?thesis
    by (simp add: all_applied_stream coalesce_of_key receive_all_stream fun_eq_iff)
qed

text \<open>
  The second statement needs its hypothesis: a receiver that already holds the first of
  two appends applies the second, but sees a gap in their coalescence.
\<close>

lemma coalesce_gap_example:
  defines "u n \<equiv> \<lparr>pv_itemId = ''i'', pv_streamId = ''s'', pv_channel = ''message.text'', pv_segment = 0,
      pv_op = Append n n ''x''\<rparr>"
  defines "c \<equiv> Some \<lparr>st_text = Some ''x'', st_throughSequence = 1\<rparr>"
  shows "fst (applyPreviewUpdate c (u 1)) = PreviewDuplicate"
    "fst (applyPreviewUpdate c (u 2)) = PreviewApplied"
    "map (\<lambda>v. fst (applyPreviewUpdate c v)) (coalescePreviewUpdates [u 1, u 2]) = [PreviewGap]"
  by (simp_all add: u_def c_def applyPreviewUpdate_def current_through_def current_text_def
      coalescePreviewUpdates_def coalesce_step_def mergePreviewUpdates_def previewKeyOf_def)

end
