(* ===== verification/Preview_Buffer.thy ===== *)
theory Preview_Buffer
  imports Previews "HOL-Library.Multiset"
begin

text \<open>
  \<open>createPreviewBuffer\<close> of src/src/contract/preview.ts: the sender's buffer, which
  flushes by size, by count or by timer, one flush at a time, and drops what it cannot
  hold.  The closure's variables are the record \<open>preview_buffer\<close>; the asynchronous
  \<open>drain\<close> is the field \<open>buf_draining\<close>, whose values are the points where its promise
  rests: awaiting the caller's \<open>flush\<close>, or finished with its \<open>finally\<close> still to run.
  One step of the program is one call from outside (\<open>push\<close>, \<open>flush\<close>, \<open>dispose\<close>, the
  timer) or one continuation of \<open>drain\<close>.  The calls of the caller's \<open>flush\<close>, \<open>onDrop\<close> and
  \<open>onError\<close> are events; a callback is assumed not to call the buffer back.
\<close>

section \<open>The buffer\<close>

record preview_buffer_options =
  lim_maxBytes :: rat
  lim_maxDelayMs :: rat
  lim_maxUpdates :: rat

datatype drain_state = NotDraining | DrainAwaiting "preview_update list" | DrainSettling

record preview_buffer =
  buf_updates :: "preview_update list"
  buf_bytes :: nat
  buf_timer :: bool
  buf_draining :: drain_state
  buf_flushRequested :: bool
  buf_disposed :: bool

datatype preview_event =
    FlushCalled (flushed_updates: "preview_update list") (flush_batch: "preview_update list")
  | DropCalled "preview_update list"
  | ErrorCalled "preview_update list"

datatype buffer_error = BufferRangeError | BufferDisposed | BufferZodError

definition valid_buffer_options :: "preview_buffer_options \<Rightarrow> bool" where
  "valid_buffer_options opts \<longleftrightarrow>
     list_all (\<lambda>v. is_safe_integer v \<and> 1 \<le> v)
       [lim_maxBytes opts, lim_maxDelayMs opts, lim_maxUpdates opts]"

definition createPreviewBuffer :: "preview_buffer_options \<Rightarrow> buffer_error + preview_buffer" where
  "createPreviewBuffer opts =
     (if \<not> valid_buffer_options opts then Inl BufferRangeError
      else Inr \<lparr>buf_updates = [], buf_bytes = 0, buf_timer = False, buf_draining = NotDraining,
                buf_flushRequested = False, buf_disposed = False\<rparr>)"

text \<open>
  The loop of \<open>drain\<close> up to its next rest.  It runs once more at most after an empty
  pass, because the pass clears \<open>flushRequested\<close>.
\<close>

definition drain_loop :: "preview_buffer \<Rightarrow> preview_buffer \<times> preview_event list" where
  "drain_loop b =
     (if \<not> buf_disposed b \<and> buf_flushRequested b
      then if buf_updates b = []
           then (b\<lparr>buf_flushRequested := False, buf_draining := DrainSettling\<rparr>, [])
           else let batch = coalescePreviewUpdates (buf_updates b) in
             (b\<lparr>buf_flushRequested := False, buf_updates := [], buf_bytes := 0,
                buf_draining := DrainAwaiting batch\<rparr>,
              [FlushCalled (buf_updates b) batch])
      else (b\<lparr>buf_draining := DrainSettling\<rparr>, []))"

definition buffer_flush :: "preview_buffer \<Rightarrow> preview_buffer \<times> preview_event list" where
  "buffer_flush b =
     (let b' = b\<lparr>buf_timer := False, buf_flushRequested := True\<rparr>
      in if buf_draining b' = NotDraining then drain_loop b' else (b', []))"

definition buffer_append ::
    "preview_buffer_options \<Rightarrow> nat \<Rightarrow> preview_update \<Rightarrow> preview_buffer
      \<Rightarrow> preview_buffer \<times> preview_event list" where
  "buffer_append opts updateBytes u b =
     (let updates = buf_updates b @ [u];
          bytes = (if length updates = 1 then updateBytes + 2 else buf_bytes b + updateBytes + 1);
          b' = b\<lparr>buf_updates := updates, buf_bytes := bytes\<rparr>
      in if of_nat (length updates) \<ge> lim_maxUpdates opts \<or> of_nat bytes \<ge> lim_maxBytes opts
         then if buf_draining b' = NotDraining then buffer_flush b'
              else (b'\<lparr>buf_timer := False, buf_updates := [], buf_bytes := 0\<rparr>, [DropCalled updates])
         else (b'\<lparr>buf_timer := True\<rparr>, []))"

definition buffer_push ::
    "preview_buffer_options \<Rightarrow> (preview_update \<Rightarrow> nat) \<Rightarrow> preview_buffer \<Rightarrow> preview_update
      \<Rightarrow> buffer_error + (preview_buffer \<times> preview_event list)" where
  "buffer_push opts jsonByteLength b u =
     (if buf_disposed b then Inl BufferDisposed
      else if \<not> preview_update_schema u then Inl BufferZodError
      else
        let updateBytes = jsonByteLength u in
        if of_nat (updateBytes + 2) > lim_maxBytes opts then Inr (b, [DropCalled [u]])
        else if buf_updates b \<noteq> [] \<and> of_nat (buf_bytes b + updateBytes + 1) > lim_maxBytes opts
        then if buf_draining b \<noteq> NotDraining then Inr (b, [DropCalled [u]])
             else let (b1, flushed) = buffer_flush b;
                      (b2, appended) = buffer_append opts updateBytes u b1
                  in Inr (b2, flushed @ appended)
        else Inr (buffer_append opts updateBytes u b))"

definition buffer_dispose :: "preview_buffer \<Rightarrow> preview_buffer" where
  "buffer_dispose b = b\<lparr>buf_disposed := True, buf_timer := False, buf_updates := [], buf_bytes := 0\<rparr>"

text \<open>The continuation after the caller's \<open>flush\<close> settles; \<open>failed\<close> when it rejected.\<close>

definition drain_resume :: "bool \<Rightarrow> preview_buffer \<Rightarrow> preview_buffer \<times> preview_event list" where
  "drain_resume failed b =
     (case buf_draining b of
        DrainAwaiting batch \<Rightarrow>
          (let (b', events) = drain_loop b
           in (b', (if failed then [ErrorCalled batch] else []) @ events))
      | _ \<Rightarrow> (b, []))"

text \<open>The \<open>finally\<close> of the draining promise.\<close>

definition drain_finally :: "preview_buffer \<Rightarrow> preview_buffer \<times> preview_event list" where
  "drain_finally b =
     (if buf_draining b = DrainSettling
      then let b' = b\<lparr>buf_draining := NotDraining\<rparr>
           in if \<not> buf_disposed b' \<and> buf_flushRequested b' then buffer_flush b' else (b', [])
      else (b, []))"

section \<open>Steps\<close>

datatype buffer_action =
    ActPush preview_update
  | ActFlush
  | ActTimer
  | ActResume bool
  | ActFinally
  | ActDispose

text \<open>One step; \<open>None\<close> when the action cannot happen or throws.\<close>

fun buffer_step ::
    "preview_buffer_options \<Rightarrow> (preview_update \<Rightarrow> nat) \<Rightarrow> preview_buffer \<Rightarrow> buffer_action
      \<Rightarrow> (preview_buffer \<times> preview_event list) option" where
  "buffer_step opts enc b (ActPush u) =
     (case buffer_push opts enc b u of Inr r \<Rightarrow> Some r | Inl _ \<Rightarrow> None)"
| "buffer_step opts enc b ActFlush = Some (buffer_flush b)"
| "buffer_step opts enc b ActTimer = (if buf_timer b then Some (buffer_flush b) else None)"
| "buffer_step opts enc b (ActResume failed) =
     (case buf_draining b of DrainAwaiting _ \<Rightarrow> Some (drain_resume failed b) | _ \<Rightarrow> None)"
| "buffer_step opts enc b ActFinally =
     (if buf_draining b = DrainSettling then Some (drain_finally b) else None)"
| "buffer_step opts enc b ActDispose = Some (buffer_dispose b, [])"

fun buffer_run ::
    "preview_buffer_options \<Rightarrow> (preview_update \<Rightarrow> nat) \<Rightarrow> preview_buffer \<Rightarrow> buffer_action list
      \<Rightarrow> (preview_buffer \<times> preview_event list) option" where
  "buffer_run opts enc b [] = Some (b, [])"
| "buffer_run opts enc b (a # as) =
     (case buffer_step opts enc b a of
        None \<Rightarrow> None
      | Some (b', events) \<Rightarrow>
          (case buffer_run opts enc b' as of
             None \<Rightarrow> None
           | Some (b'', events') \<Rightarrow> Some (b'', events @ events')))"

section \<open>The bounds of the buffer\<close>

text \<open>The length of the JSON array of the buffered updates.\<close>

definition array_bytes :: "(preview_update \<Rightarrow> nat) \<Rightarrow> preview_update list \<Rightarrow> nat" where
  "array_bytes enc us = (if us = [] then 0 else sum_list (map enc us) + length us + 1)"

definition buffer_ok :: "preview_buffer_options \<Rightarrow> (preview_update \<Rightarrow> nat) \<Rightarrow> preview_buffer \<Rightarrow> bool" where
  "buffer_ok opts enc b \<longleftrightarrow>
     buf_bytes b = array_bytes enc (buf_updates b)
     \<and> of_nat (buf_bytes b) < lim_maxBytes opts
     \<and> of_nat (length (buf_updates b)) < lim_maxUpdates opts
     \<and> (buf_updates b \<noteq> [] \<longrightarrow> \<not> buf_disposed b
          \<and> (buf_timer b \<or> buf_flushRequested b \<and> buf_draining b \<noteq> NotDraining))
     \<and> (buf_draining b = NotDraining \<longrightarrow> buf_disposed b \<or> \<not> buf_flushRequested b)"

lemma array_bytes_snoc:
  "array_bytes enc (us @ [u]) =
     (if length (us @ [u]) = 1 then enc u + 2 else array_bytes enc us + enc u + 1)"
  by (auto simp: array_bytes_def)

lemma drain_loop_ok:
  assumes "buffer_ok opts enc (b\<lparr>buf_draining := DrainSettling\<rparr>)"
    "0 < lim_maxBytes opts" "0 < lim_maxUpdates opts"
  shows "buffer_ok opts enc (fst (drain_loop b))"
  using assms
  by (auto simp: drain_loop_def buffer_ok_def array_bytes_def Let_def)

lemma buffer_flush_ok:
  assumes "buffer_ok opts enc b" "0 < lim_maxBytes opts" "0 < lim_maxUpdates opts"
  shows "buffer_ok opts enc (fst (buffer_flush b))"
proof (cases "buf_draining b = NotDraining")
  case True
  let ?b = "b\<lparr>buf_timer := False, buf_flushRequested := True\<rparr>"
  have "buffer_ok opts enc (?b\<lparr>buf_draining := DrainSettling\<rparr>)"
    using assms(1) True by (auto simp: buffer_ok_def)
  from drain_loop_ok [OF this assms(2,3)] True show ?thesis by (simp add: buffer_flush_def)
next
  case False
  with assms(1) show ?thesis by (auto simp: buffer_flush_def buffer_ok_def)
qed

text \<open>A full buffer that is not draining is flushed at once, whatever its size.\<close>

lemma buffer_flush_idle:
  "buf_draining b = NotDraining \<Longrightarrow> \<not> buf_disposed b \<Longrightarrow> buf_updates b \<noteq> [] \<Longrightarrow>
    buffer_flush b = (b\<lparr>buf_timer := False, buf_flushRequested := False, buf_updates := [], buf_bytes := 0,
      buf_draining := DrainAwaiting (coalescePreviewUpdates (buf_updates b))\<rparr>,
      [FlushCalled (buf_updates b) (coalescePreviewUpdates (buf_updates b))])"
  by (simp add: buffer_flush_def drain_loop_def Let_def)

lemma buffer_append_ok:
  assumes "buffer_ok opts enc b" "\<not> buf_disposed b" "0 < lim_maxBytes opts" "0 < lim_maxUpdates opts"
  shows "buffer_ok opts enc (fst (buffer_append opts (enc u) u b))"
proof -
  let ?us = "buf_updates b @ [u]" and ?bytes = "array_bytes enc (buf_updates b @ [u])"
  let ?b = "b\<lparr>buf_updates := ?us, buf_bytes := ?bytes\<rparr>"
  have bytes: "(if length ?us = 1 then enc u + 2 else buf_bytes b + enc u + 1) = ?bytes"
    using assms(1) unfolding array_bytes_snoc by (simp add: buffer_ok_def)
  show ?thesis
  proof (cases "of_nat (length ?us) \<ge> lim_maxUpdates opts \<or> of_nat ?bytes \<ge> lim_maxBytes opts")
    case True
    then show ?thesis
      using assms unfolding buffer_append_def Let_def bytes
      by (auto simp: buffer_ok_def array_bytes_def buffer_flush_idle)
  next
    case False
    then show ?thesis
      using assms unfolding buffer_append_def Let_def bytes by (auto simp: buffer_ok_def)
  qed
qed

lemma buffer_push_ok:
  assumes "buffer_push opts enc b u = Inr (b', events)" "buffer_ok opts enc b"
    "0 < lim_maxBytes opts" "0 < lim_maxUpdates opts"
  shows "buffer_ok opts enc b'"
proof -
  have "\<not> buf_disposed b" using assms(1) by (auto simp: buffer_push_def)
  moreover have "buf_disposed (fst (buffer_flush b)) = buf_disposed b"
    by (simp add: buffer_flush_def drain_loop_def Let_def)
  ultimately show ?thesis
    using assms buffer_append_ok [of opts enc b u] buffer_flush_ok [of opts enc b]
      buffer_append_ok [of opts enc "fst (buffer_flush b)" u]
    by (auto simp: buffer_push_def Let_def split: if_splits prod.splits)
qed

lemma buffer_step_ok:
  assumes "buffer_step opts enc b a = Some (b', events)" "buffer_ok opts enc b"
    "0 < lim_maxBytes opts" "0 < lim_maxUpdates opts"
  shows "buffer_ok opts enc b'"
proof (cases a)
  case (ActPush u)
  then show ?thesis using assms buffer_push_ok by (auto split: sum.splits)
next
  case ActFlush
  then show ?thesis using assms buffer_flush_ok [of opts enc b] by auto
next
  case ActTimer
  then show ?thesis using assms buffer_flush_ok [of opts enc b] by (auto split: if_splits)
next
  case (ActResume failed)
  then obtain batch where d: "buf_draining b = DrainAwaiting batch" and b': "b' = fst (drain_loop b)"
    using assms(1) by (auto simp: drain_resume_def split: drain_state.splits prod.splits)
  have "buffer_ok opts enc (b\<lparr>buf_draining := DrainSettling\<rparr>)"
    using assms(2) d by (auto simp: buffer_ok_def)
  from drain_loop_ok [OF this assms(3,4)] show ?thesis unfolding b' .
next
  case ActFinally
  then have d: "buf_draining b = DrainSettling" and b': "b' = fst (drain_finally b)"
    using assms(1) by (auto split: if_splits)
  show ?thesis
  proof (cases "\<not> buf_disposed b \<and> buf_flushRequested b")
    case True
    then show ?thesis
      using d assms(2,3,4) unfolding b'
      by (auto simp: drain_finally_def buffer_flush_def Let_def drain_loop_def buffer_ok_def array_bytes_def)
  next
    case False
    then show ?thesis using d assms(2) unfolding b' by (auto simp: drain_finally_def buffer_ok_def)
  qed
next
  case ActDispose
  then show ?thesis using assms by (auto simp: buffer_dispose_def buffer_ok_def array_bytes_def)
qed

lemma buffer_run_ok:
  "buffer_run opts enc b as = Some (b', events) \<Longrightarrow> buffer_ok opts enc b \<Longrightarrow>
    0 < lim_maxBytes opts \<Longrightarrow> 0 < lim_maxUpdates opts \<Longrightarrow> buffer_ok opts enc b'"
proof (induction as arbitrary: b events)
  case (Cons a as)
  then show ?case using buffer_step_ok by (fastforce split: option.splits prod.splits)
qed simp

section \<open>Nothing is lost silently\<close>

fun event_updates :: "preview_event \<Rightarrow> preview_update list" where
  "event_updates (FlushCalled us _) = us"
| "event_updates (DropCalled us) = us"
| "event_updates (ErrorCalled _) = []"

fun action_updates :: "buffer_action \<Rightarrow> preview_update list" where
  "action_updates (ActPush u) = [u]"
| "action_updates _ = []"

abbreviation accounted :: "preview_event list \<Rightarrow> preview_update multiset" where
  "accounted events \<equiv> mset (concat (map event_updates events))"

lemma drain_loop_accounts:
  "drain_loop b = (b', events) \<Longrightarrow> mset (buf_updates b) = accounted events + mset (buf_updates b')"
  by (auto simp: drain_loop_def Let_def split: if_splits)

lemma buffer_flush_accounts:
  "buffer_flush b = (b', events) \<Longrightarrow> mset (buf_updates b) = accounted events + mset (buf_updates b')"
  by (auto simp: buffer_flush_def Let_def split: if_splits dest: drain_loop_accounts)

lemma buffer_append_accounts:
  "buffer_append opts n u b = (b', events) \<Longrightarrow>
    add_mset u (mset (buf_updates b)) = accounted events + mset (buf_updates b')"
  by (auto simp: buffer_append_def Let_def split: if_splits dest: buffer_flush_accounts)

lemma buffer_push_accounts:
  assumes "buffer_push opts enc b u = Inr (b', events)"
  shows "add_mset u (mset (buf_updates b)) = accounted events + mset (buf_updates b')"
proof (cases "of_nat (enc u + 2) \<le> lim_maxBytes opts \<and> buf_updates b \<noteq> []
    \<and> of_nat (buf_bytes b + enc u + 1) > lim_maxBytes opts \<and> buf_draining b = NotDraining")
  case True
  obtain b1 flushed where f: "buffer_flush b = (b1, flushed)" by fastforce
  obtain b2 appended where a: "buffer_append opts (enc u) u b1 = (b2, appended)" by fastforce
  have "b' = b2" "events = flushed @ appended"
    using assms True f a by (auto simp: buffer_push_def Let_def split: if_splits)
  with buffer_flush_accounts [OF f] buffer_append_accounts [OF a] show ?thesis by simp
next
  case False
  with assms show ?thesis
    by (auto simp: buffer_push_def Let_def split: if_splits dest: buffer_append_accounts)
qed

lemma buffer_step_accounts:
  assumes "buffer_step opts enc b a = Some (b', events)" "a \<noteq> ActDispose"
  shows "mset (action_updates a) + mset (buf_updates b) = accounted events + mset (buf_updates b')"
proof (cases a)
  case (ActPush u)
  then show ?thesis using assms(1) buffer_push_accounts by (auto split: sum.splits)
next
  case ActFlush
  then show ?thesis using assms(1) buffer_flush_accounts by auto
next
  case ActTimer
  then show ?thesis using assms(1) buffer_flush_accounts by (auto split: if_splits)
next
  case (ActResume failed)
  then show ?thesis
    using assms(1) drain_loop_accounts
    by (auto simp: drain_resume_def split: drain_state.splits prod.splits)
next
  case ActFinally
  then show ?thesis
    using assms(1) buffer_flush_accounts [of "b\<lparr>buf_draining := NotDraining\<rparr>"]
    by (auto simp: drain_finally_def Let_def split: if_splits)
qed (use assms(2) in simp)

lemma accounts_compose:
  fixes A :: "'a multiset"
  assumes "A + U = E + V" "B + V = F + W"
  shows "(A + B) + U = (E + F) + W"
proof -
  have "(A + B) + U = B + (A + U)" by (simp add: ac_simps)
  also have "\<dots> = E + (B + V)" unfolding assms(1) by (simp add: ac_simps)
  also have "\<dots> = (E + F) + W" unfolding assms(2) by (simp add: ac_simps)
  finally show ?thesis .
qed

lemma buffer_run_accounts:
  "buffer_run opts enc b as = Some (b', events) \<Longrightarrow> ActDispose \<notin> set as \<Longrightarrow>
    mset (concat (map action_updates as)) + mset (buf_updates b)
      = accounted events + mset (buf_updates b')"
proof (induction as arbitrary: b events)
  case (Cons a as)
  obtain b1 es1 where 1: "buffer_step opts enc b a = Some (b1, es1)"
    using Cons.prems(1) by (auto split: option.splits)
  with Cons.prems(1) obtain es2 where 2: "buffer_run opts enc b1 as = Some (b', es2)"
    "events = es1 @ es2" by (auto split: option.splits prod.splits)
  have "a \<noteq> ActDispose" "ActDispose \<notin> set as" using Cons.prems(2) by auto
  from accounts_compose [OF buffer_step_accounts [OF 1 this(1)] Cons.IH [OF 2(1) this(2)]]
  show ?case by (simp add: 2(2))
qed simp

lemma createPreviewBuffer_ok:
  assumes "createPreviewBuffer opts = Inr b"
  shows "valid_buffer_options opts \<and> buffer_ok opts enc b"
  using assms
  by (auto simp: createPreviewBuffer_def valid_buffer_options_def buffer_ok_def array_bytes_def
      split: if_splits)

end
