(* ===== verification/Terminal_State.thy ===== *)
theory Terminal_State
  imports Driver_Prelude
begin

text \<open>
  src/src/core/driver-terminal-state.ts with driver-turn-cancelled-error.ts: which run the
  driver owns, how it was cancelled, which terminal event was selected for it and
  acknowledged, and the same for the driver instance.  Events, receipts' further fields
  and run errors are type parameters: the machine only compares them.  An
  \<open>AbortController\<close>'s signal is the number under which it was made.
\<close>

section \<open>State\<close>

datatype cancellation_source = SessionStop | Shutdown | TurnCancel

text \<open>\<open>DriverTurnCancelledError\<close>: its reason, and whether the turn may be resumed.\<close>

record turn_cancelled =
  tc_reason :: string
  tc_resumeAllowed :: bool

definition DriverTurnCancelledError :: "string \<Rightarrow> cancellation_source \<Rightarrow> turn_cancelled" where
  "DriverTurnCancelledError reason source = \<lparr>tc_reason = reason, tc_resumeAllowed = (source = TurnCancel)\<rparr>"

definition preventResume :: "turn_cancelled \<Rightarrow> turn_cancelled" where
  "preventResume e = e\<lparr>tc_resumeAllowed := False\<rparr>"

datatype terminal_status = TerminalCancelled | TerminalCompleted | TerminalFailed

record run_ticket =
  tk_revision :: nat
  tk_runId :: string
  tk_signal :: nat

record 'e terminal_identity =
  ti_event :: 'e
  ti_runId :: string
  ti_sourceEventId :: string
  ti_status :: terminal_status

record 'r event_receipt =
  rc_eventId :: string
  rc_rest :: 'r

datatype ('e, 'r) run_terminal =
    RunSelected (terminal_value: "'e terminal_identity")
  | RunAcked (terminal_receipt: "'r event_receipt") (terminal_value: "'e terminal_identity")

datatype 'err instance_terminal =
    InstanceCompleted (instance_runId: string)
  | InstanceFailed (instance_error: 'err) (instance_runId: string)

datatype 'err instance_terminal_state =
    InstanceOpen
  | InstanceSelected "'err instance_terminal"
  | InstanceAcked "'err instance_terminal"

record ('e, 'r) active_run =
  ar_signal :: nat
  ar_abort :: "turn_cancelled option"
  ar_cancellationClaim :: "string option"
  ar_revision :: nat
  ar_runId :: string
  ar_terminal :: "('e, 'r) run_terminal option"

record 'err shutdown_state =
  sd_cleanupCompleted :: bool
  sd_failure :: "('err \<times> string option) option"

record ('e, 'r, 'err) terminal_machine =
  tm_activeRun :: "('e, 'r) active_run option"
  tm_instanceTerminal :: "'err instance_terminal_state"
  tm_lastOwnedRunId :: "string option"
  tm_lastRunTerminal :: "(string \<times> terminal_status) option"
  tm_revision :: nat
  tm_shutdown :: "'err shutdown_state option"

datatype terminal_error =
    RunAlreadyActive
  | InstanceTerminalSelected
  | HandshakeConflict
  | TicketStale
  | TerminalTargetMismatch
  | TerminalSourceEmpty
  | TerminalConflict
  | TerminalNotSelected
  | ReceiptMismatch
  | ReceiptConflict
  | NotUnpublished
  | RunNotAcked
  | ShutdownNotRequested
  | InstanceConflict
  | InstanceNotSelected

definition new_terminal_machine :: "('e, 'r, 'err) terminal_machine" where
  "new_terminal_machine = \<lparr>tm_activeRun = None, tm_instanceTerminal = InstanceOpen,
     tm_lastOwnedRunId = None, tm_lastRunTerminal = None, tm_revision = 0, tm_shutdown = None\<rparr>"

section \<open>Runs\<close>

definition require_active :: "run_ticket \<Rightarrow> ('e, 'r, 'err) terminal_machine \<Rightarrow> terminal_error + ('e, 'r) active_run"
where
  "require_active ticket m =
     (case tm_activeRun m of
        None \<Rightarrow> Inl TicketStale
      | Some active \<Rightarrow>
          if ar_revision active \<noteq> tk_revision ticket \<or> ar_runId active \<noteq> tk_runId ticket
             \<or> ar_signal active \<noteq> tk_signal ticket
          then Inl TicketStale else Inr active)"

definition terminal_beginRun ::
    "string \<Rightarrow> nat \<Rightarrow> ('e, 'r, 'err) terminal_machine
      \<Rightarrow> terminal_error + (('e, 'r, 'err) terminal_machine \<times> run_ticket)" where
  "terminal_beginRun runId signal m =
     (if tm_activeRun m \<noteq> None then Inl RunAlreadyActive
      else if tm_instanceTerminal m \<noteq> InstanceOpen then Inl InstanceTerminalSelected
      else
        let revision = tm_revision m + 1 in
        Inr (m\<lparr>tm_revision := revision, tm_lastOwnedRunId := Some runId, tm_lastRunTerminal := None,
               tm_activeRun := Some \<lparr>ar_signal = signal, ar_abort = None, ar_cancellationClaim = None,
                 ar_revision = revision, ar_runId = runId, ar_terminal = None\<rparr>\<rparr>,
             \<lparr>tk_revision = revision, tk_runId = runId, tk_signal = signal\<rparr>))"

datatype claim_result = AlreadyClaimed | Claimed | ClaimTerminalSelected

definition claimCancellation ::
    "run_ticket \<Rightarrow> string \<Rightarrow> cancellation_source \<Rightarrow> ('e, 'r, 'err) terminal_machine
      \<Rightarrow> terminal_error + (('e, 'r, 'err) terminal_machine \<times> claim_result)" where
  "claimCancellation ticket reason source m =
     bindE (require_active ticket m) (\<lambda>active.
       if ar_terminal active \<noteq> None then Inr (m, ClaimTerminalSelected)
       else if ar_cancellationClaim active \<noteq> None
       then Inr (if source \<noteq> TurnCancel
                 then m\<lparr>tm_activeRun := Some (active\<lparr>ar_abort := map_option preventResume (ar_abort active)\<rparr>)\<rparr>
                 else m, AlreadyClaimed)
       else Inr (m\<lparr>tm_activeRun := Some (active\<lparr>ar_cancellationClaim := Some reason,
                     ar_abort := Some (DriverTurnCancelledError reason source)\<rparr>)\<rparr>, Claimed))"

definition currentRunId :: "('e, 'r, 'err) terminal_machine \<Rightarrow> string option" where
  "currentRunId m = map_option ar_runId (tm_activeRun m)"

definition rememberOwnedRunId ::
    "string \<Rightarrow> ('e, 'r, 'err) terminal_machine \<Rightarrow> terminal_error + ('e, 'r, 'err) terminal_machine" where
  "rememberOwnedRunId runId m =
     (if tm_activeRun m \<noteq> None \<and> currentRunId m \<noteq> Some runId then Inl HandshakeConflict
      else Inr (m\<lparr>tm_lastOwnedRunId := Some runId\<rparr>))"

datatype select_result = SelectAcked | SelectCancelled | SelectPending | SelectSelected

fun run_acked :: "('e, 'r) run_terminal \<Rightarrow> bool" where
  "run_acked (RunAcked _ _) = True"
| "run_acked (RunSelected _) = False"

definition selectRunTerminal ::
    "run_ticket \<Rightarrow> 'e terminal_identity \<Rightarrow> ('e, 'r, 'err) terminal_machine
      \<Rightarrow> terminal_error + (('e, 'r, 'err) terminal_machine \<times> select_result)" where
  "selectRunTerminal ticket terminal m =
     bindE (require_active ticket m) (\<lambda>active.
       if ti_runId terminal \<noteq> tk_runId ticket then Inl TerminalTargetMismatch
       else if ti_sourceEventId terminal = [] then Inl TerminalSourceEmpty
       else case ar_terminal active of
         Some selected \<Rightarrow>
           if terminal_value selected \<noteq> terminal then Inl TerminalConflict
           else Inr (m, if run_acked selected then SelectAcked else SelectPending)
       | None \<Rightarrow>
           if ar_cancellationClaim active \<noteq> None \<and> ti_status terminal = TerminalCompleted
           then Inr (m, SelectCancelled)
           else Inr (m\<lparr>tm_activeRun := Some (active\<lparr>ar_terminal := Some (RunSelected terminal)\<rparr>)\<rparr>,
                     SelectSelected))"

definition ackRunTerminal ::
    "run_ticket \<Rightarrow> 'r event_receipt \<Rightarrow> ('e, 'r, 'err) terminal_machine
      \<Rightarrow> terminal_error + ('e, 'r, 'err) terminal_machine" where
  "ackRunTerminal ticket receipt m =
     bindE (require_active ticket m) (\<lambda>active.
       case ar_terminal active of
         None \<Rightarrow> Inl TerminalNotSelected
       | Some terminal \<Rightarrow>
           if rc_eventId receipt \<noteq> ti_sourceEventId (terminal_value terminal) then Inl ReceiptMismatch
           else case terminal of
             RunAcked receipt' _ \<Rightarrow> if receipt' \<noteq> receipt then Inl ReceiptConflict else Inr m
           | RunSelected v \<Rightarrow>
               Inr (m\<lparr>tm_activeRun := Some (active\<lparr>ar_terminal := Some (RunAcked receipt v)\<rparr>)\<rparr>))"

definition abandonRunTerminal ::
    "run_ticket \<Rightarrow> 'e terminal_identity \<Rightarrow> ('e, 'r, 'err) terminal_machine
      \<Rightarrow> terminal_error + ('e, 'r, 'err) terminal_machine" where
  "abandonRunTerminal ticket terminal m =
     bindE (require_active ticket m) (\<lambda>active.
       if ar_terminal active \<noteq> Some (RunSelected terminal) then Inl NotUnpublished
       else Inr (m\<lparr>tm_activeRun := Some (active\<lparr>ar_terminal := None\<rparr>)\<rparr>))"

text \<open>An absent \<open>runId\<close> is \<open>None\<close>.\<close>

definition acknowledgedRunTerminal ::
    "string option \<Rightarrow> ('e, 'r, 'err) terminal_machine \<Rightarrow> terminal_status option" where
  "acknowledgedRunTerminal runId m =
     (let last = (case tm_lastRunTerminal m of
            Some (i, status) \<Rightarrow> if opt_all (\<lambda>r. i = r) runId then Some status else None
          | None \<Rightarrow> None)
      in case tm_activeRun m of
           Some active \<Rightarrow>
             (case ar_terminal active of
                Some (RunAcked _ v) \<Rightarrow>
                  if opt_all (\<lambda>r. ar_runId active = r) runId then Some (ti_status v) else last
              | _ \<Rightarrow> last)
         | None \<Rightarrow> last)"

record ('e, 'r) run_snapshot =
  rs_cancellation :: "string option"
  rs_revision :: nat
  rs_runId :: string
  rs_terminal :: "('e, 'r) run_terminal option"

definition snapshotRun ::
    "string option \<Rightarrow> ('e, 'r, 'err) terminal_machine \<Rightarrow> ('e, 'r) run_snapshot option" where
  "snapshotRun runId m =
     (case tm_activeRun m of
        None \<Rightarrow> None
      | Some active \<Rightarrow>
          if \<not> opt_all (\<lambda>r. ar_runId active = r) runId then None
          else Some \<lparr>rs_cancellation = ar_cancellationClaim active, rs_revision = ar_revision active,
                     rs_runId = ar_runId active, rs_terminal = ar_terminal active\<rparr>)"

datatype 'x input_outcome = InputResolved | InputCancelledOutcome | InputRejected 'x

datatype 'x settlement_failure =
    RejectedWith 'x
  | SettledWithoutTerminal
  | SelectedNotAcknowledged
  | CancellationWith terminal_status
  | ResolvedAfter terminal_status

datatype 'x input_settlement = SettledResolved | SettledCancelled | SettledFailed "'x settlement_failure"

definition settleInput ::
    "run_ticket \<Rightarrow> 'x input_outcome \<Rightarrow> ('e, 'r, 'err) terminal_machine
      \<Rightarrow> terminal_error + 'x input_settlement" where
  "settleInput ticket outcome m =
     bindE (require_active ticket m) (\<lambda>active.
       case outcome of
         InputRejected e \<Rightarrow> Inr (SettledFailed (RejectedWith e))
       | _ \<Rightarrow>
           (case ar_terminal active of
              None \<Rightarrow> Inr (SettledFailed SettledWithoutTerminal)
            | Some (RunSelected _) \<Rightarrow> Inr (SettledFailed SelectedNotAcknowledged)
            | Some (RunAcked _ v) \<Rightarrow>
                if outcome = InputCancelledOutcome
                then Inr (if ti_status v = TerminalCancelled then SettledCancelled
                          else SettledFailed (CancellationWith (ti_status v)))
                else Inr (if ti_status v = TerminalCompleted then SettledResolved
                          else SettledFailed (ResolvedAfter (ti_status v)))))"

datatype release_reason = CommandAcked | DriverFailing

fun acked_option :: "('e, 'r) run_terminal option \<Rightarrow> bool" where
  "acked_option (Some t) = run_acked t"
| "acked_option None = False"

definition releaseRun ::
    "run_ticket \<Rightarrow> release_reason \<Rightarrow> ('e, 'r, 'err) terminal_machine
      \<Rightarrow> terminal_error + ('e, 'r, 'err) terminal_machine" where
  "releaseRun ticket reason m =
     bindE (require_active ticket m) (\<lambda>active.
       if reason = CommandAcked \<and> \<not> acked_option (ar_terminal active) then Inl RunNotAcked
       else Inr (m\<lparr>tm_lastRunTerminal :=
                     (case ar_terminal active of
                        Some (RunAcked _ v) \<Rightarrow> Some (ar_runId active, ti_status v)
                      | _ \<Rightarrow> None),
                   tm_lastOwnedRunId := Some (tk_runId ticket), tm_activeRun := None\<rparr>))"

section \<open>Shutdown and the instance\<close>

definition requestShutdown :: "('e, 'r, 'err) terminal_machine \<Rightarrow> ('e, 'r, 'err) terminal_machine" where
  "requestShutdown m =
     (case tm_shutdown m of
        None \<Rightarrow> m\<lparr>tm_shutdown := Some \<lparr>sd_cleanupCompleted = False, sd_failure = None\<rparr>\<rparr>
      | Some _ \<Rightarrow> m)"

text \<open>The default of \<open>runId\<close> is the current run; the caller may pass another, or null.\<close>

definition recordFailure ::
    "'err \<Rightarrow> string option option \<Rightarrow> ('e, 'r, 'err) terminal_machine \<Rightarrow> ('e, 'r, 'err) terminal_machine"
where
  "recordFailure e runId m =
     (let owner = (case runId of None \<Rightarrow> currentRunId m | Some r \<Rightarrow> r);
          m' = requestShutdown m in
      case tm_shutdown m' of
        None \<Rightarrow> m'
      | Some s \<Rightarrow>
          (case sd_failure s of
             None \<Rightarrow> m'\<lparr>tm_shutdown := Some (s\<lparr>sd_failure := Some (e, owner)\<rparr>)\<rparr>
           | Some _ \<Rightarrow> m'))"

definition markCleanupCompleted ::
    "('e, 'r, 'err) terminal_machine \<Rightarrow> terminal_error + ('e, 'r, 'err) terminal_machine" where
  "markCleanupCompleted m =
     (case tm_shutdown m of
        None \<Rightarrow> Inl ShutdownNotRequested
      | Some s \<Rightarrow> Inr (m\<lparr>tm_shutdown := Some (s\<lparr>sd_cleanupCompleted := True\<rparr>)\<rparr>))"

definition selectInstanceTerminal ::
    "'err instance_terminal \<Rightarrow> ('e, 'r, 'err) terminal_machine
      \<Rightarrow> terminal_error + (('e, 'r, 'err) terminal_machine \<times> select_result)" where
  "selectInstanceTerminal terminal m =
     (case tm_instanceTerminal m of
        InstanceSelected t \<Rightarrow> if t \<noteq> terminal then Inl InstanceConflict else Inr (m, SelectPending)
      | InstanceAcked t \<Rightarrow> if t \<noteq> terminal then Inl InstanceConflict else Inr (m, SelectAcked)
      | InstanceOpen \<Rightarrow> Inr (m\<lparr>tm_instanceTerminal := InstanceSelected terminal\<rparr>, SelectSelected))"

definition ackInstanceTerminal ::
    "'err instance_terminal \<Rightarrow> ('e, 'r, 'err) terminal_machine
      \<Rightarrow> terminal_error + ('e, 'r, 'err) terminal_machine" where
  "ackInstanceTerminal terminal m =
     (case tm_instanceTerminal m of
        InstanceOpen \<Rightarrow> Inl InstanceNotSelected
      | InstanceSelected t \<Rightarrow>
          if t \<noteq> terminal then Inl InstanceConflict
          else Inr (m\<lparr>tm_instanceTerminal := InstanceAcked t\<rparr>)
      | InstanceAcked t \<Rightarrow>
          if t \<noteq> terminal then Inl InstanceConflict
          else Inr (m\<lparr>tm_instanceTerminal := InstanceAcked t\<rparr>))"

definition abandonInstanceTerminal ::
    "'err instance_terminal \<Rightarrow> ('e, 'r, 'err) terminal_machine
      \<Rightarrow> terminal_error + ('e, 'r, 'err) terminal_machine" where
  "abandonInstanceTerminal terminal m =
     (if tm_instanceTerminal m \<noteq> InstanceSelected terminal then Inl NotUnpublished
      else Inr (m\<lparr>tm_instanceTerminal := InstanceOpen\<rparr>))"

primrec option_or :: "'a option \<Rightarrow> 'a option \<Rightarrow> 'a option" where
  "option_or None y = y"
| "option_or (Some x) y = Some x"

definition terminalRunId :: "string option \<Rightarrow> ('e, 'r, 'err) terminal_machine \<Rightarrow> string option" where
  "terminalRunId fallback m =
     (case tm_instanceTerminal m of
        InstanceSelected t \<Rightarrow> Some (instance_runId t)
      | InstanceAcked t \<Rightarrow> Some (instance_runId t)
      | InstanceOpen \<Rightarrow>
          option_or (Option.bind (Option.bind (tm_shutdown m) sd_failure) snd)
            (option_or (currentRunId m) (option_or (tm_lastOwnedRunId m) fallback)))"

section \<open>One operation at a time\<close>

text \<open>
  The operations as data.  The n-th run gets the n-th \<open>AbortController\<close>, so a signal is
  never shared.  An operation that throws changes nothing.
\<close>

datatype ('e, 'r, 'err) terminal_op =
    OpBegin string
  | OpClaim run_ticket string cancellation_source
  | OpRemember string
  | OpSelect run_ticket "'e terminal_identity"
  | OpAck run_ticket "'r event_receipt"
  | OpAbandon run_ticket "'e terminal_identity"
  | OpRelease run_ticket release_reason
  | OpRequestShutdown
  | OpRecordFailure 'err "string option option"
  | OpCleanup
  | OpSelectInstance "'err instance_terminal"
  | OpAckInstance "'err instance_terminal"
  | OpAbandonInstance "'err instance_terminal"

fun terminal_apply ::
    "('e, 'r, 'err) terminal_op \<Rightarrow> ('e, 'r, 'err) terminal_machine
      \<Rightarrow> terminal_error + ('e, 'r, 'err) terminal_machine" where
  "terminal_apply (OpBegin runId) m =
     bindE (terminal_beginRun runId (tm_revision m + 1) m) (\<lambda>(m', _). Inr m')"
| "terminal_apply (OpClaim ticket reason source) m =
     bindE (claimCancellation ticket reason source m) (\<lambda>(m', _). Inr m')"
| "terminal_apply (OpRemember runId) m = rememberOwnedRunId runId m"
| "terminal_apply (OpSelect ticket t) m =
     bindE (selectRunTerminal ticket t m) (\<lambda>(m', _). Inr m')"
| "terminal_apply (OpAck ticket receipt) m = ackRunTerminal ticket receipt m"
| "terminal_apply (OpAbandon ticket t) m = abandonRunTerminal ticket t m"
| "terminal_apply (OpRelease ticket reason) m = releaseRun ticket reason m"
| "terminal_apply OpRequestShutdown m = Inr (requestShutdown m)"
| "terminal_apply (OpRecordFailure e runId) m = Inr (recordFailure e runId m)"
| "terminal_apply OpCleanup m = markCleanupCompleted m"
| "terminal_apply (OpSelectInstance t) m =
     bindE (selectInstanceTerminal t m) (\<lambda>(m', _). Inr m')"
| "terminal_apply (OpAckInstance t) m = ackInstanceTerminal t m"
| "terminal_apply (OpAbandonInstance t) m = abandonInstanceTerminal t m"

fun terminal_run ::
    "('e, 'r, 'err) terminal_op list \<Rightarrow> ('e, 'r, 'err) terminal_machine \<Rightarrow> ('e, 'r, 'err) terminal_machine"
where
  "terminal_run [] m = m"
| "terminal_run (op # ops) m =
     terminal_run ops (case terminal_apply op m of Inr m' \<Rightarrow> m' | Inl _ \<Rightarrow> m)"

lemmas terminal_defs =
  terminal_beginRun_def claimCancellation_def rememberOwnedRunId_def selectRunTerminal_def
  ackRunTerminal_def abandonRunTerminal_def releaseRun_def requestShutdown_def recordFailure_def
  markCleanupCompleted_def selectInstanceTerminal_def ackInstanceTerminal_def
  abandonInstanceTerminal_def Let_def

lemmas terminal_splits = option.splits if_splits run_terminal.splits instance_terminal_state.splits

lemma require_active_ok:
  "require_active ticket m = Inr a \<longleftrightarrow>
     tm_activeRun m = Some a \<and> ar_revision a = tk_revision ticket \<and> ar_runId a = tk_runId ticket
     \<and> ar_signal a = tk_signal ticket"
  by (auto simp: require_active_def split: option.splits)

section \<open>What always holds\<close>

fun terminal_fits :: "('e, 'r) active_run \<Rightarrow> ('e, 'r) run_terminal \<Rightarrow> bool" where
  "terminal_fits a (RunSelected v) =
     (ti_runId v = ar_runId a \<and> ti_sourceEventId v \<noteq> []
      \<and> (ar_cancellationClaim a \<noteq> None \<longrightarrow> ti_status v \<noteq> TerminalCompleted))"
| "terminal_fits a (RunAcked r v) =
     (ti_runId v = ar_runId a \<and> ti_sourceEventId v \<noteq> [] \<and> rc_eventId r = ti_sourceEventId v
      \<and> (ar_cancellationClaim a \<noteq> None \<longrightarrow> ti_status v \<noteq> TerminalCompleted))"

definition active_fits :: "nat \<Rightarrow> ('e, 'r) active_run \<Rightarrow> bool" where
  "active_fits revision a \<longleftrightarrow>
     ar_revision a = revision \<and> ar_signal a = revision
     \<and> (ar_cancellationClaim a = None \<longleftrightarrow> ar_abort a = None)
     \<and> opt_all (terminal_fits a) (ar_terminal a)"

definition terminal_invariant :: "('e, 'r, 'err) terminal_machine \<Rightarrow> bool" where
  "terminal_invariant m \<longleftrightarrow> opt_all (active_fits (tm_revision m)) (tm_activeRun m)"

lemma terminal_invariant_new: "terminal_invariant new_terminal_machine"
  by (simp add: terminal_invariant_def new_terminal_machine_def)

fun keeps_run :: "('e, 'r, 'err) terminal_op \<Rightarrow> bool" where
  "keeps_run (OpBegin _) = False"
| "keeps_run (OpClaim _ _ _) = False"
| "keeps_run (OpSelect _ _) = False"
| "keeps_run (OpAck _ _) = False"
| "keeps_run (OpAbandon _ _) = False"
| "keeps_run (OpRelease _ _) = False"
| "keeps_run _ = True"

lemma recordFailure_frame:
  "tm_activeRun (recordFailure e r m) = tm_activeRun m" "tm_revision (recordFailure e r m) = tm_revision m"
  "tm_instanceTerminal (recordFailure e r m) = tm_instanceTerminal m"
  "tm_lastRunTerminal (recordFailure e r m) = tm_lastRunTerminal m"
  by (simp_all add: recordFailure_def requestShutdown_def Let_def split: option.splits)

lemma keeps_run_frame:
  "terminal_apply op m = Inr m' \<Longrightarrow> keeps_run op \<Longrightarrow>
    tm_activeRun m' = tm_activeRun m \<and> tm_revision m' = tm_revision m
    \<and> tm_lastRunTerminal m' = tm_lastRunTerminal m"
  by (cases op)
    (auto simp: rememberOwnedRunId_def requestShutdown_def recordFailure_frame markCleanupCompleted_def
      selectInstanceTerminal_def ackInstanceTerminal_def abandonInstanceTerminal_def
      split: option.splits if_splits instance_terminal_state.splits)

lemma terminal_apply_invariant:
  assumes "terminal_apply op m = Inr m'" "terminal_invariant m"
  shows "terminal_invariant m'"
proof (cases op)
  case (OpBegin runId)
  with assms show ?thesis
    by (auto simp: terminal_beginRun_def terminal_invariant_def active_fits_def Let_def split: if_splits)
next
  case (OpClaim ticket reason source)
  then obtain a where a: "tm_activeRun m = Some a" "require_active ticket m = Inr a"
    using assms(1) by (auto simp: claimCancellation_def require_active_ok)
  with assms OpClaim show ?thesis
    by (auto simp: claimCancellation_def terminal_invariant_def active_fits_def split: if_splits)
next
  case (OpSelect ticket t)
  then obtain a where a: "tm_activeRun m = Some a" "require_active ticket m = Inr a"
    using assms(1) by (auto simp: selectRunTerminal_def require_active_ok)
  with assms OpSelect require_active_ok [of ticket m a] show ?thesis
    by (auto simp: selectRunTerminal_def terminal_invariant_def active_fits_def
        split: if_splits option.splits)
next
  case (OpAck ticket receipt)
  then obtain a t where a: "tm_activeRun m = Some a" "require_active ticket m = Inr a"
    "ar_terminal a = Some t"
    using assms(1) by (auto simp: ackRunTerminal_def require_active_ok split: option.splits)
  with assms OpAck show ?thesis
    by (cases t) (auto simp: ackRunTerminal_def terminal_invariant_def active_fits_def split: if_splits)
next
  case (OpAbandon ticket t)
  then obtain a where a: "tm_activeRun m = Some a" "require_active ticket m = Inr a"
    using assms(1) by (auto simp: abandonRunTerminal_def require_active_ok)
  with assms OpAbandon show ?thesis
    by (auto simp: abandonRunTerminal_def terminal_invariant_def active_fits_def split: if_splits)
next
  case (OpRelease ticket reason)
  with assms show ?thesis by (auto simp: releaseRun_def terminal_invariant_def split: if_splits)
qed (use assms keeps_run_frame [OF assms(1)] in \<open>auto simp: terminal_invariant_def\<close>)

lemma terminal_run_invariant: "terminal_invariant m \<Longrightarrow> terminal_invariant (terminal_run ops m)"
proof (induction ops arbitrary: m)
  case (Cons op ops)
  have "terminal_invariant (case terminal_apply op m of Inr m' \<Rightarrow> m' | Inl _ \<Rightarrow> m)"
    using Cons.prems terminal_apply_invariant by (auto split: sum.splits)
  then show ?case using Cons.IH by simp
qed simp

section \<open>An acknowledged terminal is final\<close>

definition run_ended_with :: "string \<Rightarrow> nat \<Rightarrow> terminal_status \<Rightarrow> ('e, 'r, 'err) terminal_machine \<Rightarrow> bool" where
  "run_ended_with runId revision status m \<longleftrightarrow>
     (case tm_activeRun m of
        Some a \<Rightarrow> ar_revision a = revision \<and> ar_runId a = runId
          \<and> (case ar_terminal a of Some (RunAcked _ v) \<Rightarrow> ti_status v = status | _ \<Rightarrow> False)
      | None \<Rightarrow> tm_lastRunTerminal m = Some (runId, status))"

lemma run_ended_with_iff:
  "run_ended_with runId revision status m \<longleftrightarrow>
     (case tm_activeRun m of
        Some a \<Rightarrow> ar_revision a = revision \<and> ar_runId a = runId
          \<and> (\<exists>r v. ar_terminal a = Some (RunAcked r v) \<and> ti_status v = status)
      | None \<Rightarrow> tm_lastRunTerminal m = Some (runId, status))"
  by (auto simp: run_ended_with_def split: option.splits run_terminal.splits)

lemma acked_final:
  assumes "terminal_apply op m = Inr m'" "run_ended_with runId revision status m"
    "\<forall>i. op \<noteq> OpBegin i"
  shows "run_ended_with runId revision status m'"
proof (cases "keeps_run op")
  case True
  with keeps_run_frame [OF assms(1)] assms(2) show ?thesis
    by (cases "tm_activeRun m") (simp_all add: run_ended_with_iff)
next
  case False
  then have "\<exists>a. tm_activeRun m = Some a"
    using assms(1,3)
    by (cases op) (auto simp: claimCancellation_def selectRunTerminal_def ackRunTerminal_def
        abandonRunTerminal_def releaseRun_def require_active_ok)
  then obtain a where active: "tm_activeRun m = Some a" by blast
  with assms(2) obtain r v where "ar_revision a = revision" "ar_runId a = runId"
    "ar_terminal a = Some (RunAcked r v)" "ti_status v = status"
    by (auto simp: run_ended_with_iff)
  note a = active this
  have ended: "run_ended_with runId revision status m" using assms(2) by simp
  show ?thesis
  proof (cases op)
    case (OpClaim ticket reason source)
    with assms(1) a ended show ?thesis by (auto simp: claimCancellation_def require_active_ok)
  next
    case (OpSelect ticket t)
    with assms(1) a ended show ?thesis
      by (auto simp: selectRunTerminal_def require_active_ok split: if_splits)
  next
    case (OpAck ticket receipt)
    with assms(1) a ended show ?thesis
      by (auto simp: ackRunTerminal_def require_active_ok split: if_splits)
  next
    case (OpAbandon ticket t)
    with assms(1) a show ?thesis by (auto simp: abandonRunTerminal_def require_active_ok)
  next
    case (OpRelease ticket reason)
    with assms(1) a show ?thesis
      by (auto simp: releaseRun_def require_active_ok run_ended_with_iff split: if_splits)
  qed (use False assms(3) in auto)
qed

lemma run_ended_with_acknowledged:
  "run_ended_with runId revision status m \<Longrightarrow> acknowledgedRunTerminal (Some runId) m = Some status"
  by (auto simp: run_ended_with_iff acknowledgedRunTerminal_def Let_def split: option.splits)

section \<open>Stale tickets\<close>

text \<open>A ticket whose run is over: of a past revision, and not of the active run.\<close>

definition ticket_over :: "run_ticket \<Rightarrow> ('e, 'r, 'err) terminal_machine \<Rightarrow> bool" where
  "ticket_over ticket m \<longleftrightarrow>
     tk_revision ticket \<le> tm_revision m
     \<and> opt_all (\<lambda>a. ar_revision a \<noteq> tk_revision ticket) (tm_activeRun m)"

lemma ticket_over_stale: "ticket_over ticket m \<Longrightarrow> require_active ticket m = Inl TicketStale"
  by (auto simp: ticket_over_def require_active_def split: option.splits)

lemma release_over:
  "releaseRun ticket reason m = Inr m' \<Longrightarrow> terminal_invariant m \<Longrightarrow> ticket_over ticket m'"
  by (auto simp: releaseRun_def require_active_ok ticket_over_def terminal_invariant_def active_fits_def
      split: if_splits)

lemma apply_active_revision:
  assumes "terminal_apply op m = Inr m'"
  shows "(\<exists>i. op = OpBegin i \<and> tm_revision m' = tm_revision m + 1
      \<and> map_option ar_revision (tm_activeRun m') = Some (tm_revision m + 1))
    \<or> tm_revision m' = tm_revision m
      \<and> (tm_activeRun m' = None
         \<or> map_option ar_revision (tm_activeRun m') = map_option ar_revision (tm_activeRun m))"
proof (cases "keeps_run op")
  case True
  with keeps_run_frame [OF assms] show ?thesis by simp
next
  case False
  show ?thesis
  proof (cases op)
    case (OpBegin i)
    with assms show ?thesis by (auto simp: terminal_beginRun_def Let_def split: if_splits)
  next
    case (OpClaim ticket reason source)
    with assms show ?thesis by (auto simp: claimCancellation_def require_active_ok split: if_splits)
  next
    case (OpSelect ticket t)
    with assms show ?thesis
      by (auto simp: selectRunTerminal_def require_active_ok split: if_splits option.splits)
  next
    case (OpAck ticket receipt)
    with assms obtain a t where "require_active ticket m = Inr a" "ar_terminal a = Some t"
      by (auto simp: ackRunTerminal_def split: option.splits)
    with assms OpAck show ?thesis
      by (cases t) (auto simp: ackRunTerminal_def require_active_ok split: if_splits)
  next
    case (OpAbandon ticket t)
    with assms show ?thesis by (auto simp: abandonRunTerminal_def require_active_ok split: if_splits)
  next
    case (OpRelease ticket reason)
    with assms show ?thesis by (auto simp: releaseRun_def require_active_ok split: if_splits)
  qed (use False in auto)
qed

lemma ticket_over_apply:
  "ticket_over ticket m \<Longrightarrow> terminal_apply op m = Inr m' \<Longrightarrow> ticket_over ticket m'"
  using apply_active_revision [of op m m']
  by (cases "tm_activeRun m"; cases "tm_activeRun m'") (auto simp: ticket_over_def)

lemma ticket_over_run: "ticket_over ticket m \<Longrightarrow> ticket_over ticket (terminal_run ops m)"
proof (induction ops arbitrary: m)
  case (Cons op ops)
  then have "ticket_over ticket (case terminal_apply op m of Inr m' \<Rightarrow> m' | Inl _ \<Rightarrow> m)"
    using ticket_over_apply by (auto split: sum.splits)
  then show ?case using Cons.IH by simp
qed simp

section \<open>Cancellation and settlement\<close>

lemma cancelled_run_not_resolved:
  assumes "terminal_invariant m" "tm_activeRun m = Some a" "ar_cancellationClaim a \<noteq> None"
  shows "settleInput ticket outcome m \<noteq> Inr SettledResolved"
proof
  assume settled: "settleInput ticket outcome m = Inr SettledResolved"
  then obtain r v where "ar_terminal a = Some (RunAcked r v)" "ti_status v = TerminalCompleted"
    using assms(2)
    by (cases outcome)
      (auto simp: settleInput_def require_active_ok split: option.splits run_terminal.splits if_splits)
  with assms show False by (simp add: terminal_invariant_def active_fits_def)
qed

text \<open>The instance's acknowledged terminal and the first failure recorded never change.\<close>

lemma ackRunTerminal_instance:
  "ackRunTerminal ticket receipt m = Inr m' \<Longrightarrow> tm_instanceTerminal m' = tm_instanceTerminal m"
  unfolding ackRunTerminal_def
  by (erule bindE_InrE) (auto split: option.splits run_terminal.splits if_splits)

lemma releaseRun_instance:
  "releaseRun ticket reason m = Inr m' \<Longrightarrow> tm_instanceTerminal m' = tm_instanceTerminal m"
  unfolding releaseRun_def by (erule bindE_InrE) (auto split: if_split_asm)

lemma instance_acked_final:
  assumes "terminal_apply op m = Inr m'" "tm_instanceTerminal m = InstanceAcked t"
  shows "tm_instanceTerminal m' = InstanceAcked t"
proof (cases op)
  case (OpAck ticket receipt)
  with assms ackRunTerminal_instance [of ticket receipt m m'] show ?thesis by simp
next
  case (OpRelease ticket reason)
  with assms releaseRun_instance [of ticket reason m m'] show ?thesis by simp
next
  case (OpSelect ticket terminal)
  with assms show ?thesis
    by (auto simp: selectRunTerminal_def split: if_splits option.splits)
next
  case (OpClaim ticket reason source)
  with assms show ?thesis by (auto simp: claimCancellation_def split: if_splits)
qed (use assms in \<open>auto simp: terminal_beginRun_def rememberOwnedRunId_def abandonRunTerminal_def
      requestShutdown_def recordFailure_frame markCleanupCompleted_def selectInstanceTerminal_def
      ackInstanceTerminal_def abandonInstanceTerminal_def Let_def split: option.splits if_splits\<close>)

lemma terminal_run_acked:
  "run_ended_with runId revision status m \<Longrightarrow> \<forall>op\<in>set ops. \<forall>i. op \<noteq> OpBegin i \<Longrightarrow>
    run_ended_with runId revision status (terminal_run ops m)"
proof (induction ops arbitrary: m)
  case (Cons op ops)
  have "run_ended_with runId revision status (case terminal_apply op m of Inr m' \<Rightarrow> m' | Inl _ \<Rightarrow> m)"
    using Cons.prems acked_final [of op m] by (auto split: sum.splits)
  with Cons show ?case by simp
qed simp

lemma cancelled_run_terminal:
  assumes "terminal_invariant m" "tm_activeRun m = Some a" "ar_cancellationClaim a \<noteq> None"
  shows "opt_all (\<lambda>t. ti_status (terminal_value t) \<noteq> TerminalCompleted) (ar_terminal a)"
proof (cases "ar_terminal a")
  case (Some t)
  with assms show ?thesis by (cases t) (auto simp: terminal_invariant_def active_fits_def)
qed simp

end
