(* ===== verification/Runtime_State.thy ===== *)
theory Runtime_State
  imports Driver_Prelude "HOL-Library.Multiset"
begin

text \<open>
  src/src/core/driver-runtime-state.ts: the driver's status and the approvals that are
  open while a run is active.  The code hands \<open>beginApproval\<close>'s answer back to
  \<open>endApproval\<close>; the inductive relation \<open>runtime_step\<close> makes that discipline explicit
  with the multiset of answers still outstanding, and runs get fresh generations.  Every
  reachable state is then shown to wait for approval exactly while one is outstanding.
\<close>

section \<open>The machine\<close>

datatype runtime_status =
  Created | Starting | Ready | Running | NeedsApproval | Stopping | Stopped | RuntimeFailed

fun DRIVER_RUNTIME_TRANSITIONS :: "runtime_status \<Rightarrow> runtime_status list" where
  "DRIVER_RUNTIME_TRANSITIONS Created = [Starting, RuntimeFailed, Stopping]"
| "DRIVER_RUNTIME_TRANSITIONS RuntimeFailed = []"
| "DRIVER_RUNTIME_TRANSITIONS NeedsApproval = [Running, Ready, RuntimeFailed, Stopping]"
| "DRIVER_RUNTIME_TRANSITIONS Ready = [Running, RuntimeFailed, Stopping]"
| "DRIVER_RUNTIME_TRANSITIONS Running = [NeedsApproval, Ready, RuntimeFailed, Stopping]"
| "DRIVER_RUNTIME_TRANSITIONS Starting = [Ready, RuntimeFailed, Stopping]"
| "DRIVER_RUNTIME_TRANSITIONS Stopped = [RuntimeFailed]"
| "DRIVER_RUNTIME_TRANSITIONS Stopping = [RuntimeFailed, Stopped]"

datatype runtime_error = InvalidRuntimeTransition runtime_status runtime_status

record runtime_state =
  rt_activeApprovals :: int
  rt_activeRunGeneration :: "nat option"
  rt_status :: runtime_status

definition new_runtime_state :: "runtime_status \<Rightarrow> runtime_state" where
  "new_runtime_state initialStatus =
     \<lparr>rt_activeApprovals = 0, rt_activeRunGeneration = None, rt_status = initialStatus\<rparr>"

definition isShuttingDown :: "runtime_state \<Rightarrow> bool" where
  "isShuttingDown s \<longleftrightarrow> rt_status s = RuntimeFailed \<or> rt_status s = Stopped \<or> rt_status s = Stopping"

definition enter :: "runtime_status \<Rightarrow> runtime_state \<Rightarrow> runtime_error + runtime_state" where
  "enter next s =
     (if next = rt_status s then Inr s
      else if next \<notin> set (DRIVER_RUNTIME_TRANSITIONS (rt_status s))
      then Inl (InvalidRuntimeTransition (rt_status s) next)
      else Inr (s\<lparr>rt_status := next\<rparr>))"

definition runtime_beginRun :: "nat \<Rightarrow> runtime_state \<Rightarrow> runtime_error + runtime_state" where
  "runtime_beginRun generation s =
     bindE (enter Running s) (\<lambda>s'.
       Inr (s'\<lparr>rt_activeRunGeneration := Some generation, rt_activeApprovals := 0\<rparr>))"

definition runtime_endRun :: "nat \<Rightarrow> runtime_state \<Rightarrow> runtime_error + runtime_state" where
  "runtime_endRun generation s =
     (if rt_activeRunGeneration s \<noteq> Some generation then Inr s
      else
        let s' = s\<lparr>rt_activeRunGeneration := None, rt_activeApprovals := 0\<rparr>
        in if rt_status s' = Running \<or> rt_status s' = NeedsApproval then enter Ready s' else Inr s')"

definition ownsRun :: "nat \<Rightarrow> runtime_state \<Rightarrow> bool" where
  "ownsRun generation s \<longleftrightarrow> rt_activeRunGeneration s = Some generation"

definition beginApproval :: "runtime_state \<Rightarrow> runtime_error + (runtime_state \<times> nat option)" where
  "beginApproval s =
     (case rt_activeRunGeneration s of
        None \<Rightarrow> Inr (s, None)
      | Some generation \<Rightarrow>
          if rt_status s \<noteq> Running \<and> rt_status s \<noteq> NeedsApproval then Inr (s, None)
          else bindE (enter NeedsApproval (s\<lparr>rt_activeApprovals := rt_activeApprovals s + 1\<rparr>)) (\<lambda>s'.
                 Inr (s', Some generation)))"

definition endApproval :: "nat option \<Rightarrow> runtime_state \<Rightarrow> runtime_error + runtime_state" where
  "endApproval generation s =
     (if generation = None \<or> rt_activeRunGeneration s \<noteq> generation then Inr s
      else
        let s' = s\<lparr>rt_activeApprovals := rt_activeApprovals s - 1\<rparr>
        in if rt_activeApprovals s' = 0 \<and> rt_status s' = NeedsApproval then enter Running s' else Inr s')"

section \<open>Shutting down is final\<close>

lemma enter_ok:
  "enter next s = Inr s' \<longleftrightarrow>
     s' = s\<lparr>rt_status := next\<rparr> \<and> (next = rt_status s \<or> next \<in> set (DRIVER_RUNTIME_TRANSITIONS (rt_status s)))"
  by (auto simp: enter_def)

lemma enter_shutting_down:
  "enter next s = Inr s' \<Longrightarrow> isShuttingDown s \<Longrightarrow> isShuttingDown s'"
  by (cases "rt_status s") (auto simp: enter_ok isShuttingDown_def)

lemma beginRun_shutting_down:
  "isShuttingDown s \<Longrightarrow> runtime_beginRun g s = Inl (InvalidRuntimeTransition (rt_status s) Running)"
  by (cases "rt_status s") (auto simp: runtime_beginRun_def enter_def isShuttingDown_def)

lemma approvals_shutting_down:
  "isShuttingDown s \<Longrightarrow> beginApproval s = Inr (s, None)"
  "isShuttingDown s \<Longrightarrow> endApproval g s = Inr s' \<Longrightarrow> rt_status s' = rt_status s"
  by (auto simp: beginApproval_def endApproval_def isShuttingDown_def Let_def
      split: option.splits if_splits)

text \<open>Within the machine itself the operations of a run never throw.\<close>

lemma endRun_total: "\<exists>s'. runtime_endRun g s = Inr s'"
  by (cases "rt_status s") (auto simp: runtime_endRun_def enter_def Let_def)

lemma beginApproval_total: "\<exists>s' g. beginApproval s = Inr (s', g)"
  by (cases "rt_status s"; cases "rt_activeRunGeneration s") (auto simp: beginApproval_def enter_def)

lemma endApproval_total: "\<exists>s'. endApproval g s = Inr s'"
  by (cases "rt_status s") (auto simp: endApproval_def enter_def Let_def)

section \<open>Reachable states\<close>

text \<open>
  The configurations of the driver: the machine, the generation the next run will get,
  and the answers of \<open>beginApproval\<close> not yet handed back.  The statuses the rest of the
  driver enters directly are those other than \<open>Running\<close> and \<open>NeedsApproval\<close>; the code
  ends the run before it enters \<open>Ready\<close> from an active one.
\<close>

type_synonym runtime_config = "runtime_state \<times> nat \<times> nat option multiset"

inductive runtime_step :: "runtime_config \<Rightarrow> runtime_config \<Rightarrow> bool" where
  begin_run: "runtime_beginRun g s = Inr s' \<Longrightarrow> runtime_step (s, g, out) (s', Suc g, out)"
| end_run: "runtime_endRun h s = Inr s' \<Longrightarrow> runtime_step (s, g, out) (s', g, out)"
| begin_approval: "beginApproval s = Inr (s', a) \<Longrightarrow>
    runtime_step (s, g, out) (s', g, add_mset a out)"
| end_approval: "a \<in># out \<Longrightarrow> endApproval a s = Inr s' \<Longrightarrow>
    runtime_step (s, g, out) (s', g, out - {#a#})"
| direct: "enter next s = Inr s' \<Longrightarrow> next \<notin> {Running, NeedsApproval} \<Longrightarrow>
    next = Ready \<longrightarrow> rt_activeRunGeneration s = None \<Longrightarrow> runtime_step (s, g, out) (s', g, out)"

inductive_cases runtime_stepE: "runtime_step c c'"

definition initial_config :: runtime_config where
  "initial_config = (new_runtime_state Created, 0, {#})"

definition runtime_reachable :: "runtime_config \<Rightarrow> bool" where
  "runtime_reachable c \<longleftrightarrow> runtime_step\<^sup>*\<^sup>* initial_config c"

text \<open>
  Generations handed out are below the next one; the counter of the machine is the
  number of outstanding answers of its run; it waits for approval exactly when there is
  one, unless it is shutting down.
\<close>

definition runtime_invariant :: "runtime_config \<Rightarrow> bool" where
  "runtime_invariant = (\<lambda>(s, g, out).
     (\<forall>h. Some h \<in># out \<longrightarrow> h < g)
     \<and> (\<forall>h. rt_activeRunGeneration s = Some h \<longrightarrow> h < g
          \<and> rt_activeApprovals s = int (count out (Some h))
          \<and> (rt_status s = NeedsApproval \<and> 0 < rt_activeApprovals s
             \<or> rt_status s = Running \<and> rt_activeApprovals s = 0 \<or> isShuttingDown s))
     \<and> (rt_activeRunGeneration s = None \<longrightarrow> rt_activeApprovals s = 0
          \<and> rt_status s \<notin> {Running, NeedsApproval}))"

lemma runtime_invariant_initial: "runtime_invariant initial_config"
  by (simp add: runtime_invariant_def initial_config_def new_runtime_state_def)

lemma runtime_step_invariant:
  assumes "runtime_step c c'" "runtime_invariant c"
  shows "runtime_invariant c'"
  using assms(1)
proof cases
  case (begin_run g s s' out)
  have "count out (Some g) = 0"
    using assms(2) begin_run(1) by (auto simp: runtime_invariant_def count_eq_zero_iff)
  then show ?thesis
    using assms(2) begin_run
    by (auto simp: runtime_invariant_def runtime_beginRun_def enter_ok less_Suc_eq)
next
  case (end_run h s s' g out)
  then show ?thesis
    using assms(2)
    by (cases "rt_status s")
      (auto simp: runtime_invariant_def runtime_endRun_def enter_ok Let_def isShuttingDown_def split: if_splits)
next
  case (begin_approval s s' a g out)
  show ?thesis
  proof (cases "rt_activeRunGeneration s = None \<or> rt_status s \<notin> {Running, NeedsApproval}")
    case True
    then have "s' = s" "a = None"
      using begin_approval(3) by (auto simp: beginApproval_def split: option.splits)
    then show ?thesis using assms(2) begin_approval(1,2) by (fastforce simp: runtime_invariant_def)
  next
    case False
    then obtain h where h: "rt_activeRunGeneration s = Some h" by auto
    with False have "s' = s\<lparr>rt_activeApprovals := rt_activeApprovals s + 1, rt_status := NeedsApproval\<rparr>"
      "a = Some h"
      using begin_approval(3) by (auto simp: beginApproval_def enter_ok)
    then show ?thesis
      using assms(2) begin_approval(1,2) h by (auto simp: runtime_invariant_def)
  qed
next
  case (end_approval a out s s' g)
  have below: "\<forall>h. Some h \<in># out - {#a#} \<longrightarrow> h < g"
    using assms(2) end_approval(1) by (auto simp: runtime_invariant_def dest: in_diffD)
  show ?thesis
  proof (cases "a = None \<or> rt_activeRunGeneration s \<noteq> a")
    case True
    then have "s' = s" using end_approval(4) by (auto simp: endApproval_def)
    moreover have "count (out - {#a#}) (Some h) = count out (Some h)"
      if "rt_activeRunGeneration s = Some h" for h
      using True that by auto
    ultimately show ?thesis
      using assms(2) end_approval(1,2) below by (fastforce simp: runtime_invariant_def)
  next
    case False
    then obtain h where h: "a = Some h" "rt_activeRunGeneration s = Some h" by auto
    have n: "rt_activeApprovals s = int (count out (Some h))" "0 < count out (Some h)"
      using assms(2) end_approval(1,3) h by (auto simp: runtime_invariant_def)
    then have "int (count (out - {#a#}) (Some h)) = rt_activeApprovals s - 1"
      using h by (simp add: of_nat_diff)
    then show ?thesis
      using assms(2) end_approval(1,2,4) h n(1) below gr0_implies_Suc [OF n(2)]
      by (auto simp: runtime_invariant_def endApproval_def enter_ok Let_def isShuttingDown_def split: if_splits)
  qed
next
  case (direct nxt s s' g out)
  then show ?thesis
    using assms(2)
    by (cases "rt_status s") (auto simp: runtime_invariant_def enter_ok isShuttingDown_def)
qed

lemma runtime_reachable_invariant: "runtime_reachable c \<Longrightarrow> runtime_invariant c"
  unfolding runtime_reachable_def
  by (induction rule: rtranclp_induct) (auto intro: runtime_invariant_initial runtime_step_invariant)

lemma runtime_reachable_status:
  assumes "runtime_reachable (s, g, outstanding)"
  shows "(rt_status s = NeedsApproval \<longleftrightarrow>
      (\<exists>h. rt_activeRunGeneration s = Some h \<and> Some h \<in># outstanding \<and> \<not> isShuttingDown s))
    \<and> (rt_status s = Running \<longleftrightarrow>
      (\<exists>h. rt_activeRunGeneration s = Some h \<and> Some h \<notin># outstanding \<and> \<not> isShuttingDown s))"
proof (cases "rt_activeRunGeneration s")
  case None
  with runtime_reachable_invariant [OF assms] show ?thesis by (simp add: runtime_invariant_def)
next
  case (Some h)
  with runtime_reachable_invariant [OF assms] show ?thesis
    by (auto simp: runtime_invariant_def isShuttingDown_def count_eq_zero_iff)
qed

end
