(* ===== verification/Async_Queue.thy ===== *)
theory Async_Queue
  imports Driver_Prelude
begin

text \<open>
  src/src/core/async-value-queue.ts: the bounded queue between the backends and the
  driver's senders, with waiting consumers and a reserve for values that must get
  through.  A consumer waiting in \<open>next\<close> is the number of its promise.  The queue is shown
  to be a FIFO channel: it implements the laws of the locale \<open>fifo_channel\<close>, in which
  order and completeness of delivery are proved once.
\<close>

section \<open>The interface: a channel that accepts and delivers in order\<close>

locale fifo_channel =
  fixes step :: "'s \<Rightarrow> 'a \<Rightarrow> ('s \<times> 'o) option"
    and ok :: "'s \<Rightarrow> bool"
    and contents :: "'s \<Rightarrow> 'v list"
    and accepts :: "'s \<Rightarrow> 'a \<Rightarrow> 'v list"
    and delivers :: "'o \<Rightarrow> 'v list"
    and keeps :: "'a \<Rightarrow> bool"
  assumes step_ok: "ok s \<Longrightarrow> step s a = Some (s', out) \<Longrightarrow> ok s'"
    and step_fifo: "ok s \<Longrightarrow> keeps a \<Longrightarrow> step s a = Some (s', out) \<Longrightarrow>
      contents s @ accepts s a = delivers out @ contents s'"
begin

fun run :: "'s \<Rightarrow> 'a list \<Rightarrow> ('s \<times> 'v list \<times> 'v list) option" where
  "run s [] = Some (s, [], [])"
| "run s (a # as) =
     (case step s a of
        None \<Rightarrow> None
      | Some (s', out) \<Rightarrow>
          (case run s' as of
             None \<Rightarrow> None
           | Some (s'', accepted, delivered) \<Rightarrow>
               Some (s'', accepts s a @ accepted, delivers out @ delivered)))"

lemma run_ok: "run s as = Some (s', ac, de) \<Longrightarrow> ok s \<Longrightarrow> ok s'"
proof (induction as arbitrary: s ac de)
  case (Cons a as)
  then show ?case using step_ok by (auto split: option.splits prod.splits)
qed simp

text \<open>What was delivered, followed by what is still held, is what was accepted.\<close>

lemma run_fifo:
  "run s as = Some (s', accepted, delivered) \<Longrightarrow> ok s \<Longrightarrow> list_all keeps as \<Longrightarrow>
    contents s @ accepted = delivered @ contents s'"
proof (induction as arbitrary: s accepted delivered)
  case (Cons a as)
  from Cons.prems(1) obtain s1 out where 1: "step s a = Some (s1, out)"
    by (auto split: option.splits)
  with Cons.prems(1) obtain ac de where 2: "run s1 as = Some (s', ac, de)"
    "accepted = accepts s a @ ac" "delivered = delivers out @ de"
    by (auto split: option.splits prod.splits)
  have "contents s @ accepts s a = delivers out @ contents s1"
    using step_fifo [OF Cons.prems(2) _ 1] Cons.prems(3) by simp
  moreover have "contents s1 @ ac = de @ contents s'"
    using Cons.IH [OF 2(1)] step_ok [OF Cons.prems(2) 1] Cons.prems(3) by simp
  ultimately show ?case unfolding 2(2,3) by (metis append.assoc)
qed simp

end

section \<open>The queue\<close>

record 'v buffered_value =
  bv_bytes :: int
  bv_reserved :: bool
  bv_value :: 'v

record queue_reserve =
  rsv_maxBytes :: rat
  rsv_maxSize :: rat

text \<open>\<open>maxBytes\<close> is absent when it is \<open>Number.POSITIVE_INFINITY\<close>, its default.\<close>

record 'v queue_config =
  qc_maxSize :: rat
  qc_maxBytes :: "rat option"
  qc_measure :: "'v \<Rightarrow> rat"
  qc_reserve :: "queue_reserve option"

record 'v async_queue =
  q_values :: "'v buffered_value list"
  q_waiters :: "nat list"
  q_bytes :: int
  q_closed :: bool
  q_reservedBytes :: int
  q_reservedSize :: int
  q_size :: int

datatype queue_error =
  QueueClosed | QueueNoReserve | QueueInvalidBytes | QueueTooManyItems | QueueTooManyBytes

datatype 'v next_result = NextValue 'v | NextDone | NextWaits

definition new_queue :: "'v async_queue" where
  "new_queue = \<lparr>q_values = [], q_waiters = [], q_bytes = 0, q_closed = False, q_reservedBytes = 0,
     q_reservedSize = 0, q_size = 0\<rparr>"

definition buffer_value ::
    "'v queue_config \<Rightarrow> 'v \<Rightarrow> bool \<Rightarrow> queue_error + 'v buffered_value" where
  "buffer_value cfg v reserved =
     (let bytes = qc_measure cfg v in
      if \<not> is_safe_integer bytes \<or> bytes < 0 then Inl QueueInvalidBytes
      else Inr \<lparr>bv_bytes = \<lfloor>bytes\<rfloor>, bv_reserved = reserved, bv_value = v\<rparr>)"

text \<open>\<open>close\<close> answers with the waiting consumers it resolves as done.\<close>

definition queue_close :: "bool \<Rightarrow> 'v async_queue \<Rightarrow> 'v async_queue \<times> nat list" where
  "queue_close discard q =
     (let q' = (if discard
                then q\<lparr>q_values := [], q_bytes := 0, q_reservedBytes := 0, q_reservedSize := 0,
                       q_size := 0\<rparr>
                else q)
      in if q_closed q' then (q', [])
         else (q'\<lparr>q_closed := True, q_waiters := []\<rparr>, q_waiters q'))"

definition queue_next :: "nat \<Rightarrow> 'v async_queue \<Rightarrow> 'v async_queue \<times> 'v next_result" where
  "queue_next waiter q =
     (case q_values q of
        b # rest \<Rightarrow>
          (if bv_reserved b
           then q\<lparr>q_values := rest, q_reservedBytes := q_reservedBytes q - bv_bytes b,
                  q_reservedSize := q_reservedSize q - 1\<rparr>
           else q\<lparr>q_values := rest, q_bytes := q_bytes q - bv_bytes b, q_size := q_size q - 1\<rparr>,
           NextValue (bv_value b))
      | [] \<Rightarrow>
          if q_closed q then (q, NextDone)
          else (q\<lparr>q_waiters := q_waiters q @ [waiter]\<rparr>, NextWaits))"

text \<open>The pushes answer with the waiting consumers they resolve, each with its value.\<close>

definition pushReserved ::
    "'v queue_config \<Rightarrow> 'v \<Rightarrow> 'v async_queue \<Rightarrow> queue_error + ('v async_queue \<times> (nat \<times> 'v) list)" where
  "pushReserved cfg v q =
     (if q_closed q then Inl QueueClosed
      else case qc_reserve cfg of
        None \<Rightarrow> Inl QueueNoReserve
      | Some reserve \<Rightarrow>
          bindE (buffer_value cfg v True) (\<lambda>b.
            if of_int (bv_bytes b) > rsv_maxBytes reserve then Inl QueueTooManyBytes
            else case q_waiters q of
              waiter # rest \<Rightarrow> Inr (q\<lparr>q_waiters := rest\<rparr>, [(waiter, v)])
            | [] \<Rightarrow>
                if of_int (q_reservedSize q) \<ge> rsv_maxSize reserve then Inl QueueTooManyItems
                else if of_int (bv_bytes b) > rsv_maxBytes reserve - of_int (q_reservedBytes q)
                then Inl QueueTooManyBytes
                else Inr (q\<lparr>q_values := q_values q @ [b],
                            q_reservedBytes := q_reservedBytes q + bv_bytes b,
                            q_reservedSize := q_reservedSize q + 1\<rparr>, [])))"

definition pushMany ::
    "'v queue_config \<Rightarrow> 'v list \<Rightarrow> 'v async_queue
      \<Rightarrow> queue_error + ('v async_queue \<times> (nat \<times> 'v) list)" where
  "pushMany cfg vs q =
     (if q_closed q then Inl QueueClosed
      else
        let directCount = min (length vs) (length (q_waiters q)) in
        bindE (mapE (\<lambda>v. buffer_value cfg v False) (drop directCount vs)) (\<lambda>buffered.
          if of_int (q_size q + int (length buffered)) > qc_maxSize cfg then Inl QueueTooManyItems
          else
            let addedBytes = sum_list (map bv_bytes buffered) in
            if \<not> opt_all (\<lambda>maxBytes. of_int addedBytes \<le> maxBytes - of_int (q_bytes q)) (qc_maxBytes cfg)
            then Inl QueueTooManyBytes
            else Inr (q\<lparr>q_waiters := drop directCount (q_waiters q),
                        q_values := q_values q @ buffered,
                        q_bytes := q_bytes q + addedBytes,
                        q_size := q_size q + int (length buffered)\<rparr>,
                      zip (take directCount (q_waiters q)) (take directCount vs))))"

definition queue_push ::
    "'v queue_config \<Rightarrow> 'v \<Rightarrow> 'v async_queue \<Rightarrow> queue_error + ('v async_queue \<times> (nat \<times> 'v) list)" where
  "queue_push cfg v q = pushMany cfg [v] q"

section \<open>The state a queue keeps\<close>

abbreviation ordinary :: "'v async_queue \<Rightarrow> 'v buffered_value list" where
  "ordinary q \<equiv> filter (\<lambda>b. \<not> bv_reserved b) (q_values q)"

abbreviation reserved :: "'v async_queue \<Rightarrow> 'v buffered_value list" where
  "reserved q \<equiv> filter bv_reserved (q_values q)"

definition queue_ok :: "'v queue_config \<Rightarrow> 'v async_queue \<Rightarrow> bool" where
  "queue_ok cfg q \<longleftrightarrow>
     q_size q = int (length (ordinary q)) \<and> q_bytes q = sum_list (map bv_bytes (ordinary q))
     \<and> q_reservedSize q = int (length (reserved q))
     \<and> q_reservedBytes q = sum_list (map bv_bytes (reserved q))
     \<and> (\<forall>b\<in>set (q_values q). 0 \<le> bv_bytes b)
     \<and> (ordinary q \<noteq> [] \<longrightarrow> of_int (q_size q) \<le> qc_maxSize cfg)
     \<and> (ordinary q \<noteq> [] \<longrightarrow> opt_all (\<lambda>m. of_int (q_bytes q) \<le> m) (qc_maxBytes cfg))
     \<and> (reserved q \<noteq> [] \<longrightarrow> (\<exists>r. qc_reserve cfg = Some r
          \<and> of_int (q_reservedSize q) < rsv_maxSize r + 1 \<and> of_int (q_reservedBytes q) \<le> rsv_maxBytes r))
     \<and> (q_waiters q \<noteq> [] \<longrightarrow> q_values q = [] \<and> \<not> q_closed q)"

lemma queue_ok_new: "queue_ok cfg new_queue"
  by (simp add: queue_ok_def new_queue_def)

lemma buffer_value_ok:
  "buffer_value cfg v rsv = Inr b \<Longrightarrow> bv_value b = v \<and> bv_reserved b = rsv \<and> 0 \<le> bv_bytes b"
  by (auto simp: buffer_value_def Let_def split: if_splits)

lemma buffered_many:
  "mapE (\<lambda>v. buffer_value cfg v False) vs = Inr bs \<Longrightarrow>
    map bv_value bs = vs \<and> (\<forall>b\<in>set bs. \<not> bv_reserved b \<and> 0 \<le> bv_bytes b)"
proof (induction vs arbitrary: bs)
  case (Cons v vs)
  then show ?case by (auto dest: buffer_value_ok)
qed simp

lemma queue_close_ok: "queue_ok cfg q \<Longrightarrow> queue_ok cfg (fst (queue_close discard q))"
  by (auto simp: queue_close_def queue_ok_def Let_def)

lemma queue_next_ok:
  assumes "queue_ok cfg q"
  shows "queue_ok cfg (fst (queue_next w q))"
proof (cases "q_values q")
  case Nil
  with assms show ?thesis by (auto simp: queue_next_def queue_ok_def)
next
  case (Cons b rest)
  have "0 \<le> bv_bytes b" "0 \<le> sum_list (map bv_bytes (filter P rest))" for P
    using assms Cons by (auto simp: queue_ok_def intro!: sum_list_nonneg)
  with assms Cons show ?thesis
    by (cases "bv_reserved b"; cases "qc_maxBytes cfg") (auto simp: queue_next_def queue_ok_def)
qed

lemma pushReserved_ok:
  assumes "pushReserved cfg v q = Inr (q', out)" "queue_ok cfg q"
  shows "queue_ok cfg q'"
proof -
  obtain r b where r: "qc_reserve cfg = Some r" and b: "buffer_value cfg v True = Inr b"
    using assms(1) by (auto simp: pushReserved_def split: option.splits if_splits)
  show ?thesis
  proof (cases "q_waiters q")
    case Nil
    with assms r b buffer_value_ok [OF b] show ?thesis
      by (auto simp: pushReserved_def queue_ok_def split: if_splits)
  next
    case (Cons w ws)
    with assms r b show ?thesis
      by (auto simp: pushReserved_def queue_ok_def split: if_splits)
  qed
qed

lemma pushMany_result:
  assumes "pushMany cfg vs q = Inr (q', out)"
  obtains n bs where "n = min (length vs) (length (q_waiters q))"
    "mapE (\<lambda>v. buffer_value cfg v False) (drop n vs) = Inr bs" "\<not> q_closed q"
    "of_int (q_size q + int (length bs)) \<le> qc_maxSize cfg"
    "opt_all (\<lambda>m. of_int (sum_list (map bv_bytes bs)) \<le> m - of_int (q_bytes q)) (qc_maxBytes cfg)"
    "q' = q\<lparr>q_waiters := drop n (q_waiters q), q_values := q_values q @ bs,
      q_bytes := q_bytes q + sum_list (map bv_bytes bs), q_size := q_size q + int (length bs)\<rparr>"
    "out = zip (take n (q_waiters q)) (take n vs)"
  using assms by (auto simp: pushMany_def Let_def split: if_splits)

lemma pushMany_ok:
  assumes "pushMany cfg vs q = Inr (q', out)" "queue_ok cfg q"
  shows "queue_ok cfg q'"
  using assms(1)
proof (cases rule: pushMany_result)
  case (1 n bs)
  note bs = buffered_many [OF 1(2)]
  have filters: "filter (\<lambda>b. \<not> bv_reserved b) bs = bs" "filter bv_reserved bs = []"
    using bs by (auto intro: filter_True filter_False)
  have "drop n (q_waiters q) \<noteq> [] \<Longrightarrow> bs = []"
  proof -
    assume "drop n (q_waiters q) \<noteq> []"
    then have "n = length vs" using 1(1) by (auto simp: min_def split: if_splits)
    then show "bs = []" using 1(2) by simp
  qed
  moreover have "q_waiters q \<noteq> []" if "drop n (q_waiters q) \<noteq> []" using that by auto
  moreover have "opt_all (\<lambda>m. of_int (q_bytes q + sum_list (map bv_bytes bs)) \<le> m) (qc_maxBytes cfg)"
    using 1(5) by (cases "qc_maxBytes cfg") auto
  ultimately show ?thesis
    using assms(2) 1(3,4) bs by (simp add: 1(6) queue_ok_def filters) auto
qed

section \<open>The queue is a FIFO channel\<close>

datatype 'v queue_action =
    PushMany "'v list"
  | PushReserved 'v
  | Next nat
  | Close bool

datatype 'v queue_output =
    Resolved "(nat \<times> 'v) list"
  | Answered "'v next_result"
  | Ended "nat list"

fun queue_step ::
    "'v queue_config \<Rightarrow> 'v async_queue \<Rightarrow> 'v queue_action \<Rightarrow> ('v async_queue \<times> 'v queue_output) option"
where
  "queue_step cfg q (PushMany vs) =
     (case pushMany cfg vs q of Inr (q', out) \<Rightarrow> Some (q', Resolved out) | Inl _ \<Rightarrow> None)"
| "queue_step cfg q (PushReserved v) =
     (case pushReserved cfg v q of Inr (q', out) \<Rightarrow> Some (q', Resolved out) | Inl _ \<Rightarrow> None)"
| "queue_step cfg q (Next w) = (let (q', r) = queue_next w q in Some (q', Answered r))"
| "queue_step cfg q (Close discard) = (let (q', ws) = queue_close discard q in Some (q', Ended ws))"

fun action_values :: "'v queue_action \<Rightarrow> 'v list" where
  "action_values (PushMany vs) = vs"
| "action_values (PushReserved v) = [v]"
| "action_values _ = []"

fun output_values :: "'v queue_output \<Rightarrow> 'v list" where
  "output_values (Resolved out) = map snd out"
| "output_values (Answered (NextValue v)) = [v]"
| "output_values _ = []"

definition keeps_values :: "'v queue_action \<Rightarrow> bool" where
  "keeps_values a \<longleftrightarrow> a \<noteq> Close True"

definition queue_contents :: "'v async_queue \<Rightarrow> 'v list" where
  "queue_contents q = map bv_value (q_values q)"

lemma pushMany_fifo:
  assumes "pushMany cfg vs q = Inr (q', out)" "queue_ok cfg q"
  shows "queue_contents q @ vs = map snd out @ queue_contents q'"
  using assms(1)
proof (cases rule: pushMany_result)
  case (1 n bs)
  have "map bv_value bs = drop n vs" using buffered_many [OF 1(2)] by blast
  moreover have "map snd out = take n vs" using 1(1) by (simp add: 1(7) map_snd_zip_take min_def)
  moreover have "n = 0 \<or> q_values q = []" using 1(1) assms(2) by (auto simp: queue_ok_def)
  ultimately show ?thesis by (auto simp: queue_contents_def 1(6))
qed

lemma pushReserved_fifo:
  assumes "pushReserved cfg v q = Inr (q', out)" "queue_ok cfg q"
  shows "queue_contents q @ [v] = map snd out @ queue_contents q'"
proof -
  obtain b where b: "buffer_value cfg v True = Inr b"
    using assms(1) by (auto simp: pushReserved_def split: option.splits if_splits)
  with assms buffer_value_ok [OF b] show ?thesis
    by (cases "q_waiters q")
      (auto simp: pushReserved_def queue_ok_def queue_contents_def split: option.splits if_splits)
qed

lemma queue_next_fifo:
  "queue_next w q = (q', r) \<Longrightarrow> queue_contents q = output_values (Answered r) @ queue_contents q'"
  by (cases "q_values q") (auto simp: queue_next_def queue_contents_def split: if_splits)

lemma queue_close_fifo:
  "queue_close False q = (q', ws) \<Longrightarrow> queue_contents q' = queue_contents q"
  by (auto simp: queue_close_def queue_contents_def split: if_splits)

lemma queue_step_ok:
  assumes "queue_step cfg q a = Some (q', out)" "queue_ok cfg q"
  shows "queue_ok cfg q'"
proof (cases a)
  case (PushMany vs)
  with assms pushMany_ok show ?thesis by (auto split: sum.splits)
next
  case (PushReserved v)
  with assms pushReserved_ok show ?thesis by (auto split: sum.splits)
next
  case (Next w)
  with assms queue_next_ok [of cfg q w] show ?thesis by (cases "queue_next w q") simp
next
  case (Close discard)
  with assms queue_close_ok [of cfg q discard] show ?thesis by (cases "queue_close discard q") simp
qed

lemma queue_step_fifo:
  assumes "queue_step cfg q a = Some (q', out)" "queue_ok cfg q" "keeps_values a"
  shows "queue_contents q @ action_values a = output_values out @ queue_contents q'"
proof (cases a)
  case (PushMany vs)
  with assms pushMany_fifo [of cfg vs q] show ?thesis by (auto split: sum.splits)
next
  case (PushReserved v)
  with assms pushReserved_fifo [of cfg v q] show ?thesis by (auto split: sum.splits)
next
  case (Next w)
  with assms queue_next_fifo [of w q] show ?thesis by (cases "queue_next w q") simp
next
  case (Close discard)
  with assms queue_close_fifo [of q] show ?thesis
    by (cases "queue_close discard q") (auto simp: keeps_values_def)
qed

interpretation qf: fifo_channel "queue_step cfg" "queue_ok cfg" queue_contents
  "\<lambda>_. action_values" output_values keeps_values for cfg
  by unfold_locales (auto intro: queue_step_ok queue_step_fifo)

end
