(* ===== verification/Driver_Id.thy ===== *)
theory Driver_Id
  imports Driver_Prelude "HOL-Library.Word"
begin

text \<open>
  src/src/protocol/id/index.ts: the identifiers of the driver, ULIDs of ten characters of
  time and sixteen of randomness in Crockford's base 32.  The module's two variables are
  the record \<open>id_state\<close>; the clock and the random bytes are arguments.  The first part
  models the code, the second relates the texts to the numbers they write.
\<close>

unbundle bit_operations_syntax

section \<open>The code\<close>

datatype id_error = IdTypeError | IdRangeError

definition driverIdAlphabet :: string where
  "driverIdAlphabet = ''0123456789ABCDEFGHJKMNPQRSTVWXYZ''"

text \<open>The character classes of the two patterns: the first character, the others, and the
  lower case the input may use.\<close>

definition octalDigits :: string where
  "octalDigits = ''01234567''"

definition lowerDriverIdAlphabet :: string where
  "lowerDriverIdAlphabet = ''abcdefghjkmnpqrstvwxyz''"

text \<open>\<open>indexOf\<close> of a character.\<close>

fun index_of :: "char \<Rightarrow> string \<Rightarrow> int" where
  "index_of c [] = -1"
| "index_of c (x # xs) =
     (if x = c then 0 else let i = index_of c xs in if i < 0 then -1 else i + 1)"

definition maxDriverIdTimeMs :: int where
  "maxDriverIdTimeMs = 2 ^ 48 - 1"

definition isDriverId :: "string \<Rightarrow> bool" where
  "isDriverId s \<longleftrightarrow> length s = 26 \<and> hd s \<in> set octalDigits
     \<and> list_all (\<lambda>c. c \<in> set driverIdAlphabet) s"

definition upper_char :: "char \<Rightarrow> char" where
  "upper_char c =
     (let n = of_char c :: nat in if 97 \<le> n \<and> n \<le> 122 then char_of (n - 32) else c)"

definition normalizeDriverId :: "string \<Rightarrow> id_error + string" where
  "normalizeDriverId s =
     (if length s = 26 \<and> hd s \<in> set octalDigits
         \<and> list_all (\<lambda>c. c \<in> set (driverIdAlphabet @ lowerDriverIdAlphabet)) s
      then Inr (map upper_char s)
      else Inl IdTypeError)"

definition assertDriverIdTimeMs :: "int \<Rightarrow> id_error + int" where
  "assertDriverIdTimeMs timeMs =
     (if \<bar>timeMs\<bar> > max_safe_integer then Inl IdTypeError
      else if timeMs < 0 \<or> timeMs > maxDriverIdTimeMs then Inl IdRangeError
      else Inr timeMs)"

fun encode_loop :: "nat \<Rightarrow> int \<Rightarrow> string \<Rightarrow> string" where
  "encode_loop 0 val encoded = encoded"
| "encode_loop (Suc n) val encoded =
     encode_loop n (val div 32) (driverIdAlphabet ! nat (val mod 32) # encoded)"

definition encodeDriverIdTime :: "int \<Rightarrow> id_error + string" where
  "encodeDriverIdTime timeMs =
     bindE (assertDriverIdTimeMs timeMs) (\<lambda>val. Inr (encode_loop 10 val []))"

definition createDriverIdRandom :: "(nat \<Rightarrow> 8 word) \<Rightarrow> string" where
  "createDriverIdRandom random = map (\<lambda>i. driverIdAlphabet ! (unat (random i) mod 32)) [0..<16]"

text \<open>The loop of \<open>incrementCrockfordBase32\<close> from the last character on.\<close>

fun increment_reversed :: "string \<Rightarrow> id_error + string" where
  "increment_reversed [] = Inr []"
| "increment_reversed (c # cs) =
     (let i = index_of c driverIdAlphabet in
      if i < 0 then Inl IdTypeError
      else if i < 31 then Inr (driverIdAlphabet ! nat (i + 1) # cs)
      else bindE (increment_reversed cs) (\<lambda>cs'. Inr (CHR ''0'' # cs')))"

definition incrementCrockfordBase32 :: "string \<Rightarrow> id_error + string" where
  "incrementCrockfordBase32 s = bindE (increment_reversed (rev s)) (\<lambda>r. Inr (rev r))"

definition read_bytes :: "8 word list \<Rightarrow> int" where
  "read_bytes = foldl (\<lambda>val byte. push_bit 8 val OR uint byte) 0"

fun encode_bits :: "nat \<Rightarrow> int \<Rightarrow> string \<Rightarrow> string" where
  "encode_bits 0 val encoded = encoded"
| "encode_bits (Suc n) val encoded =
     encode_bits n (drop_bit 5 val) (driverIdAlphabet ! nat (val AND 31) # encoded)"

definition createDriverIdFromBytes :: "8 word list \<Rightarrow> id_error + string" where
  "createDriverIdFromBytes bytes =
     (if length bytes \<noteq> 16 then Inl IdRangeError else Inr (encode_bits 26 (read_bytes bytes) []))"

text \<open>The loop of \<open>driverIdTimeMs\<close>, on any text.\<close>

definition read_base32 :: "string \<Rightarrow> int" where
  "read_base32 s = foldl (\<lambda>t c. t * 32 + index_of c driverIdAlphabet) 0 s"

definition driverIdTimeMs :: "string \<Rightarrow> int" where
  "driverIdTimeMs s = read_base32 (take 10 s)"

record id_state =
  lastDriverIdTimeMs :: int
  lastDriverIdRandom :: "string option"

definition new_id_state :: id_state where
  "new_id_state = \<lparr>lastDriverIdTimeMs = -1, lastDriverIdRandom = None\<rparr>"

definition createDriverId ::
    "int \<Rightarrow> (nat \<Rightarrow> 8 word) \<Rightarrow> id_state \<Rightarrow> id_error + (string \<times> id_state)" where
  "createDriverId now random st =
     bindE (assertDriverIdTimeMs now) (\<lambda>requested.
       case lastDriverIdRandom st of
         Some r \<Rightarrow>
           if requested \<le> lastDriverIdTimeMs st
           then bindE (incrementCrockfordBase32 r) (\<lambda>r'.
                bindE (encodeDriverIdTime (lastDriverIdTimeMs st)) (\<lambda>time.
                  Inr (time @ r', st\<lparr>lastDriverIdRandom := Some r'\<rparr>)))
           else bindE (encodeDriverIdTime requested) (\<lambda>time.
                  Inr (time @ createDriverIdRandom random,
                    \<lparr>lastDriverIdTimeMs = requested, lastDriverIdRandom = Some (createDriverIdRandom random)\<rparr>))
       | None \<Rightarrow> bindE (encodeDriverIdTime requested) (\<lambda>time.
                  Inr (time @ createDriverIdRandom random,
                    \<lparr>lastDriverIdTimeMs = requested, lastDriverIdRandom = Some (createDriverIdRandom random)\<rparr>)))"

text \<open>The identifiers of successive calls, each with the clock it reads and the bytes it draws.\<close>

fun create_ids :: "(int \<times> (nat \<Rightarrow> 8 word)) list \<Rightarrow> id_state \<Rightarrow> id_error + string list" where
  "create_ids [] st = Inr []"
| "create_ids ((now, random) # calls) st =
     bindE (createDriverId now random st) (\<lambda>(i, st').
     bindE (create_ids calls st') (\<lambda>is. Inr (i # is)))"

section \<open>Base 32 texts and their numbers\<close>

definition base32 :: "string \<Rightarrow> bool" where
  "base32 s \<longleftrightarrow> list_all (\<lambda>c. c \<in> set driverIdAlphabet) s"

abbreviation digit :: "nat \<Rightarrow> char" where
  "digit n \<equiv> driverIdAlphabet ! n"

lemma alphabet_length [simp]: "length driverIdAlphabet = 32"
  by (simp add: driverIdAlphabet_def)

lemma base32_simps [simp]:
  "base32 []" "base32 (c # s) \<longleftrightarrow> c \<in> set driverIdAlphabet \<and> base32 s"
  "base32 (s @ t) \<longleftrightarrow> base32 s \<and> base32 t" "base32 (rev s) \<longleftrightarrow> base32 s"
  by (auto simp: base32_def list_all_iff)

lemma base32_take_drop: "base32 s \<Longrightarrow> base32 (take n s)" "base32 s \<Longrightarrow> base32 (drop n s)"
  by (auto simp: base32_def list_all_iff dest: in_set_takeD in_set_dropD)

lemma digit_in [simp]: "n < 32 \<Longrightarrow> digit n \<in> set driverIdAlphabet"
  by (simp add: nth_mem)

lemma alphabet_digits: "list_all (\<lambda>n. index_of (digit n) driverIdAlphabet = int n) [0..<32]"
  by code_simp

lemma index_of_digit [simp]: "n < 32 \<Longrightarrow> index_of (digit n) driverIdAlphabet = int n"
  using alphabet_digits by (simp add: list_all_iff)

lemma in_alphabetE:
  assumes "c \<in> set driverIdAlphabet"
  obtains n where "n < 32" "c = digit n"
  using assms by (auto simp: in_set_conv_nth)

lemma alphabet_sorted: "sorted_wrt (<) driverIdAlphabet"
  by code_simp

lemma digit_less [simp]: "m < 32 \<Longrightarrow> n < 32 \<Longrightarrow> digit m < digit n \<longleftrightarrow> m < n"
  using alphabet_sorted by (cases m n rule: linorder_cases) (auto simp: sorted_wrt_iff_nth_less dest: less_asym)

lemma digit_eq [simp]: "m < 32 \<Longrightarrow> n < 32 \<Longrightarrow> digit m = digit n \<longleftrightarrow> m = n"
  using index_of_digit by (metis of_nat_eq_iff)

lemma read_base32_fold: "foldl (\<lambda>t c. t * 32 + index_of c driverIdAlphabet) a s
    = a * 32 ^ length s + read_base32 s"
proof (induction s arbitrary: a)
  case (Cons c s)
  show ?case
    using Cons.IH [of "a * 32 + index_of c driverIdAlphabet"] Cons.IH [of "index_of c driverIdAlphabet"]
    by (simp add: read_base32_def algebra_simps)
qed (simp add: read_base32_def)

lemma read_base32_Nil [simp]: "read_base32 [] = 0"
  by (simp add: read_base32_def)

lemma read_base32_Cons: "read_base32 (c # s) = index_of c driverIdAlphabet * 32 ^ length s + read_base32 s"
  using read_base32_fold [of "index_of c driverIdAlphabet" s] by (simp add: read_base32_def)

lemma read_base32_append: "read_base32 (s @ t) = read_base32 s * 32 ^ length t + read_base32 t"
proof -
  have "read_base32 (s @ t) = foldl (\<lambda>a c. a * 32 + index_of c driverIdAlphabet) (read_base32 s) t"
    unfolding read_base32_def foldl_append ..
  then show ?thesis by (simp only: read_base32_fold)
qed

lemma read_base32_bounds:
  "base32 s \<Longrightarrow> 0 \<le> read_base32 s \<and> read_base32 s < 32 ^ length s"
proof (induction s)
  case (Cons c s)
  then obtain n where n: "n < 32" "c = digit n" "base32 s" by (auto elim: in_alphabetE)
  have "int n * 32 ^ length s + read_base32 s < (int n + 1) * 32 ^ length s"
    using Cons.IH n by (simp add: algebra_simps)
  also have "\<dots> \<le> 32 * 32 ^ length s" using n by (intro mult_right_mono) simp_all
  finally show ?case using Cons.IH n by (simp add: read_base32_Cons)
qed simp

lemma read_base32_less:
  "length s = length t \<Longrightarrow> base32 s \<Longrightarrow> base32 t \<Longrightarrow> s < t \<longleftrightarrow> read_base32 s < read_base32 t"
proof (induction s t rule: list_induct2)
  case (Cons c s d t)
  then obtain m n where mn: "m < 32" "c = digit m" "n < 32" "d = digit n" "base32 s" "base32 t"
    by (auto elim!: in_alphabetE)
  note b = read_base32_bounds [OF mn(5)] read_base32_bounds [OF mn(6)]
  consider "m < n" | "m = n" | "n < m" by linarith
  then show ?case
  proof cases
    case 1
    have "int m * 32 ^ length s + read_base32 s < (int m + 1) * 32 ^ length s"
      using b by (simp add: algebra_simps)
    also have "\<dots> \<le> int n * 32 ^ length s" using 1 by (intro mult_right_mono) simp_all
    finally show ?thesis using 1 mn b Cons.hyps by (simp add: read_base32_Cons)
  next
    case 2 then show ?thesis using mn Cons by (simp add: read_base32_Cons)
  next
    case 3
    have "int n * 32 ^ length s + read_base32 t < (int n + 1) * 32 ^ length s"
      using b Cons.hyps by (simp add: algebra_simps)
    also have "\<dots> \<le> int m * 32 ^ length s" using 3 by (intro mult_right_mono) simp_all
    finally show ?thesis using 3 mn b Cons.hyps by (simp add: read_base32_Cons)
  qed
qed simp

lemma read_base32_inject:
  "length s = length t \<Longrightarrow> base32 s \<Longrightarrow> base32 t \<Longrightarrow> read_base32 s = read_base32 t \<Longrightarrow> s = t"
  using read_base32_less [of s t] read_base32_less [of t s] by (cases s t rule: linorder_cases) simp_all

section \<open>Encoding\<close>

lemma encode_loop_append: "encode_loop n v e = encode_loop n v [] @ e"
proof (induction n arbitrary: v e)
  case (Suc n)
  show ?case
    by (simp add: Suc.IH [of "v div 32" "digit (nat (v mod 32)) # e"]
        Suc.IH [of "v div 32" "[digit (nat (v mod 32))]"])
qed simp

lemma encode_loop_Suc: "encode_loop (Suc n) v [] = encode_loop n (v div 32) [] @ [digit (nat (v mod 32))]"
  by (simp add: encode_loop_append [of n "v div 32" "[digit (nat (v mod 32))]"])

lemma encode_loop_length [simp]: "length (encode_loop n v []) = n"
  by (induction n arbitrary: v) (simp_all add: encode_loop_Suc del: encode_loop.simps(2))

lemma encode_loop_base32 [simp]: "base32 (encode_loop n v [])"
  by (induction n arbitrary: v)
    (simp_all add: encode_loop_Suc nat_less_iff del: encode_loop.simps(2))

lemma read_encode_loop: "read_base32 (encode_loop n v []) = v mod 32 ^ n"
proof (induction n arbitrary: v)
  case (Suc n)
  have "v mod 32 ^ Suc n = 32 * (v div 32 mod 32 ^ n) + v mod 32"
    by (simp add: zmod_zmult2_eq)
  then show ?case
    by (simp add: encode_loop_Suc read_base32_append read_base32_Cons Suc.IH nat_less_iff
        del: encode_loop.simps(2))
qed simp

lemma encode_bits_loop: "encode_bits n v e = encode_loop n v e"
proof (induction n arbitrary: v e)
  case (Suc n)
  have "v AND 31 = v mod 32" "drop_bit 5 v = v div 32"
    using take_bit_eq_mask [of 5 v] by (simp_all add: take_bit_eq_mod mask_eq_exp_minus_1 drop_bit_eq_div)
  then show ?case by (simp add: Suc.IH)
qed simp

section \<open>Increments\<close>

lemma increment_reversed_ok:
  "base32 s \<Longrightarrow> \<exists>t. increment_reversed s = Inr t \<and> base32 t \<and> length t = length s
    \<and> read_base32 (rev t) = (read_base32 (rev s) + 1) mod 32 ^ length s"
proof (induction s)
  case (Cons c s)
  then obtain n where n: "n < 32" "c = digit n" by (auto elim: in_alphabetE)
  have b: "0 \<le> read_base32 (rev s)" "read_base32 (rev s) < 32 ^ length s"
    using read_base32_bounds [of "rev s"] Cons.prems by simp_all
  show ?case
  proof (cases "n < 31")
    case True
    then have "nat (int n + 1) = Suc n" by simp
    moreover have "read_base32 (rev s) * 32 + (int n + 1) < 32 ^ Suc (length s)" using b True by simp
    ultimately show ?thesis
      using True b Cons.prems n
      by (simp add: read_base32_append read_base32_Cons add.assoc)
  next
    case False
    with n have [simp]: "n = 31" by simp
    obtain t where t: "increment_reversed s = Inr t" "base32 t" "length t = length s"
      "read_base32 (rev t) = (read_base32 (rev s) + 1) mod 32 ^ length s"
      using Cons by auto
    have zero: "CHR ''0'' = digit 0" by (simp add: driverIdAlphabet_def)
    have "(read_base32 (rev s) * 32 + 31 + 1) mod (32 * 32 ^ length s)
        = 32 * ((read_base32 (rev s) + 1) mod 32 ^ length s)"
      by (simp add: mult_mod_right algebra_simps)
    then show ?thesis
      using t n by (simp add: zero read_base32_append read_base32_Cons)
  qed
qed simp

lemma increment_ok:
  assumes "base32 s"
  obtains t where "incrementCrockfordBase32 s = Inr t" "base32 t" "length t = length s"
    "read_base32 t = (read_base32 s + 1) mod 32 ^ length s"
  using increment_reversed_ok [of "rev s"] assms
  by (auto simp: incrementCrockfordBase32_def)

lemma replicate_Z: "read_base32 (replicate n CHR ''Z'') = 32 ^ n - 1"
proof (induction n)
  case (Suc n)
  have "index_of CHR ''Z'' driverIdAlphabet = 31" by code_simp
  with Suc show ?case by (simp add: read_base32_Cons)
qed simp

lemma replicate_Z_base32 [simp]: "base32 (replicate n CHR ''Z'')"
  by (simp add: base32_def list_all_iff driverIdAlphabet_def)

lemma increment_less:
  assumes "base32 s" "s \<noteq> replicate (length s) CHR ''Z''" "incrementCrockfordBase32 s = Inr t"
  shows "s < t"
proof -
  from assms(1) obtain u where u: "incrementCrockfordBase32 s = Inr u" "base32 u" "length u = length s"
    "read_base32 u = (read_base32 s + 1) mod 32 ^ length s" by (rule increment_ok)
  have "read_base32 s \<noteq> 32 ^ length s - 1"
    using assms(1,2) read_base32_inject [of s "replicate (length s) CHR ''Z''"] by (auto simp: replicate_Z)
  then have "read_base32 s + 1 < 32 ^ length s" using read_base32_bounds [OF assms(1)] by linarith
  then have "read_base32 u = read_base32 s + 1" using u(4) read_base32_bounds [OF assms(1)] by simp
  then have "s < u" using read_base32_less [of s u] u assms(1) by simp
  then show ?thesis using u(1) assms(3) by simp
qed

section \<open>Identifiers\<close>

lemma encodeDriverIdTime_ok:
  assumes "0 \<le> t" "t \<le> maxDriverIdTimeMs"
  shows "encodeDriverIdTime t = Inr (encode_loop 10 t [])"
  using assms by (simp add: encodeDriverIdTime_def assertDriverIdTimeMs_def maxDriverIdTimeMs_def
      max_safe_integer_def)

lemma isDriverId_base32: "isDriverId s \<longleftrightarrow> length s = 26 \<and> hd s \<in> set octalDigits \<and> base32 s"
  by (simp add: isDriverId_def base32_def)

lemma octal_digits: "set octalDigits = digit ` {..<8}"
proof -
  have "{..<8::nat} = set [0..<8]" by (simp add: atLeast_upt)
  then have "digit ` {..<8} = set (map digit [0..<8])" by simp
  also have "map digit [0..<8] = octalDigits" by code_simp
  finally show ?thesis ..
qed

text \<open>The first character is an octal digit exactly when the number fits in 128 bits.\<close>

lemma isDriverId_bounds:
  assumes "length s = 26" "base32 s"
  shows "isDriverId s \<longleftrightarrow> read_base32 s < 2 ^ 128"
proof -
  obtain c r where s: "s = c # r" "length r = 25" using assms(1) by (cases s) auto
  then obtain n where n: "n < 32" "c = digit n" "base32 r" using assms(2) by (auto elim: in_alphabetE)
  have b: "0 \<le> read_base32 r" "read_base32 r < 32 ^ 25" using read_base32_bounds [OF n(3)] s(2) by simp_all
  have "isDriverId s \<longleftrightarrow> n < 8"
    using assms n s by (auto simp: isDriverId_base32 octal_digits simp del: set_simps)
  also have "n < 8 \<longleftrightarrow> int n * 32 ^ 25 + read_base32 r < 2 ^ 128"
    using b by simp linarith
  also have "int n * 32 ^ 25 + read_base32 r = read_base32 s"
    using s n by (simp add: read_base32_Cons)
  finally show ?thesis .
qed

lemma isDriverId_time:
  assumes "0 \<le> t" "t \<le> maxDriverIdTimeMs" "base32 r" "length r = 16"
  shows "isDriverId (encode_loop 10 t [] @ r)" "driverIdTimeMs (encode_loop 10 t [] @ r) = t"
proof -
  have t: "t mod 32 ^ 10 = t" using assms by (simp add: maxDriverIdTimeMs_def)
  have "read_base32 (encode_loop 10 t [] @ r) < (t + 1) * 32 ^ 16"
    using read_base32_bounds [OF assms(3)] assms(4) t
    by (simp add: read_base32_append read_encode_loop algebra_simps)
  also have "\<dots> \<le> 2 ^ 48 * 32 ^ 16" using assms(2) by (simp add: maxDriverIdTimeMs_def)
  finally show "isDriverId (encode_loop 10 t [] @ r)"
    using assms(3,4) by (simp add: isDriverId_bounds)
  show "driverIdTimeMs (encode_loop 10 t [] @ r) = t"
    using t by (simp add: driverIdTimeMs_def read_encode_loop)
qed

lemma createDriverIdRandom_ok [simp]: "base32 (createDriverIdRandom f)" "length (createDriverIdRandom f) = 16"
  by (simp_all add: createDriverIdRandom_def base32_def list_all_iff)

section \<open>Monotonicity\<close>

text \<open>The state between two calls, and the last identifier it stands for.\<close>

definition id_state_ok :: "id_state \<Rightarrow> bool" where
  "id_state_ok st \<longleftrightarrow>
     opt_all (\<lambda>r. base32 r \<and> length r = 16 \<and> 0 \<le> lastDriverIdTimeMs st
        \<and> lastDriverIdTimeMs st \<le> maxDriverIdTimeMs) (lastDriverIdRandom st)"

definition last_id :: "id_state \<Rightarrow> string option" where
  "last_id st = map_option (\<lambda>r. encode_loop 10 (lastDriverIdTimeMs st) [] @ r) (lastDriverIdRandom st)"

definition exhausted :: "string \<Rightarrow> bool" where
  "exhausted i \<longleftrightarrow> drop 10 i = replicate 16 CHR ''Z''"

lemma id_state_ok_new: "id_state_ok new_id_state"
  by (simp add: id_state_ok_def new_id_state_def)

lemma append_less: "xs @ (ys :: string) < xs @ zs \<longleftrightarrow> ys < zs"
  by (induction xs) simp_all

lemma later_time_less:
  assumes "0 \<le> t" "t < t'" "t' \<le> maxDriverIdTimeMs" "base32 r" "base32 r'" "length r = 16" "length r' = 16"
  shows "encode_loop 10 t [] @ r < encode_loop 10 t' [] @ r'"
proof -
  have m: "t mod 32 ^ 10 = t" "t' mod 32 ^ 10 = t'" using assms by (simp_all add: maxDriverIdTimeMs_def)
  have "t * 32 ^ 16 + read_base32 r < (t + 1) * 32 ^ 16"
    using read_base32_bounds [OF assms(4)] assms(6) by (simp add: algebra_simps)
  also have "\<dots> \<le> t' * 32 ^ 16 + read_base32 r'"
    using read_base32_bounds [OF assms(5)] assms(2) by simp
  finally show ?thesis
    using assms m by (simp add: read_base32_less read_base32_append read_encode_loop)
qed

lemma createDriverId_step:
  assumes "id_state_ok st" "0 \<le> now" "now \<le> maxDriverIdTimeMs"
  obtains i st' where "createDriverId now random st = Inr (i, st')" "id_state_ok st'" "last_id st' = Some i"
    "isDriverId i" "driverIdTimeMs i = max now (lastDriverIdTimeMs st) \<or> lastDriverIdRandom st = None \<and> driverIdTimeMs i = now"
    "opt_all (\<lambda>j. \<not> exhausted j \<longrightarrow> j < i) (last_id st)"
proof (cases "lastDriverIdRandom st")
  case None
  show ?thesis
    by (rule that [of "encode_loop 10 now [] @ createDriverIdRandom random"
          "\<lparr>lastDriverIdTimeMs = now, lastDriverIdRandom = Some (createDriverIdRandom random)\<rparr>"])
      (use None assms in \<open>simp_all add: createDriverId_def assertDriverIdTimeMs_def encodeDriverIdTime_ok
        id_state_ok_def last_id_def isDriverId_time maxDriverIdTimeMs_def max_safe_integer_def\<close>)
next
  case (Some r)
  with assms(1) have r: "base32 r" "length r = 16" "0 \<le> lastDriverIdTimeMs st"
    "lastDriverIdTimeMs st \<le> maxDriverIdTimeMs" by (simp_all add: id_state_ok_def)
  have req: "assertDriverIdTimeMs now = Inr now"
    using assms by (simp add: assertDriverIdTimeMs_def maxDriverIdTimeMs_def max_safe_integer_def)
  show ?thesis
  proof (cases "now \<le> lastDriverIdTimeMs st")
    case True
    from r(1) obtain u where u: "incrementCrockfordBase32 r = Inr u" "base32 u" "length u = length r"
      by (rule increment_ok)
    have "r < u" if "\<not> exhausted (encode_loop 10 (lastDriverIdTimeMs st) [] @ r)"
      using increment_less [OF r(1) _ u(1)] that r(2) by (simp add: exhausted_def)
    with True Some r u req show ?thesis
      by (intro that [of "encode_loop 10 (lastDriverIdTimeMs st) [] @ u" "st\<lparr>lastDriverIdRandom := Some u\<rparr>"])
        (simp_all add: createDriverId_def encodeDriverIdTime_ok id_state_ok_def last_id_def
          isDriverId_time append_less)
  next
    case False
    with Some assms r req show ?thesis
      by (intro that [of "encode_loop 10 now [] @ createDriverIdRandom random"
            "\<lparr>lastDriverIdTimeMs = now, lastDriverIdRandom = Some (createDriverIdRandom random)\<rparr>"])
        (simp_all add: createDriverId_def encodeDriverIdTime_ok id_state_ok_def last_id_def
          isDriverId_time later_time_less)
  qed
qed

text \<open>A run of calls whose clocks are in range.\<close>

lemma create_ids_ok:
  assumes "id_state_ok st" "list_all (\<lambda>(now, _). 0 \<le> now \<and> now \<le> maxDriverIdTimeMs) calls"
  shows "\<exists>is. create_ids calls st = Inr is \<and> list_all isDriverId is
    \<and> list_all2 (\<lambda>(now, _) i. now \<le> driverIdTimeMs i) calls is
    \<and> (list_all (\<lambda>i. \<not> exhausted i) (butlast is) \<longrightarrow>
         sorted_wrt (<) is
         \<and> opt_all (\<lambda>j. \<not> exhausted j \<longrightarrow> list_all (\<lambda>i. j < i) is) (last_id st))"
  using assms
proof (induction calls arbitrary: st)
  case Nil
  show ?case by (cases "last_id st") simp_all
next
  case (Cons call calls)
  obtain now random where call: "call = (now, random)" by (cases call)
  with Cons.prems obtain i st' where i: "createDriverId now random st = Inr (i, st')" "id_state_ok st'"
    "last_id st' = Some i" "isDriverId i" "opt_all (\<lambda>j. \<not> exhausted j \<longrightarrow> j < i) (last_id st)"
    "now \<le> driverIdTimeMs i"
    by (auto intro: createDriverId_step [of st now random])
  from Cons.IH [OF i(2)] Cons.prems(2) obtain "is" where js: "create_ids calls st' = Inr is"
    "list_all2 (\<lambda>(now, _) i. now \<le> driverIdTimeMs i) calls is" "list_all isDriverId is"
    "list_all (\<lambda>i. \<not> exhausted i) (butlast is) \<longrightarrow> sorted_wrt (<) is
       \<and> (\<not> exhausted i \<longrightarrow> list_all (\<lambda>j. i < j) is)"
    using i(3) by auto
  have "sorted_wrt (<) (i # is) \<and> opt_all (\<lambda>j. \<not> exhausted j \<longrightarrow> list_all (\<lambda>k. j < k) (i # is)) (last_id st)"
    if "list_all (\<lambda>i. \<not> exhausted i) (butlast (i # is))"
  proof (cases "is = []")
    case True
    then show ?thesis using i(5) by (cases "last_id st") simp_all
  next
    case False
    with that js(4) have rest: "sorted_wrt (<) is" "\<forall>k\<in>set is. i < k"
      by (simp_all add: list_all_iff)
    have "\<not> exhausted j \<longrightarrow> list_all (\<lambda>k. j < k) (i # is)" if "last_id st = Some j" for j
      using i(5) that rest(2) by (auto simp: list_all_iff)
    with rest show ?thesis by (cases "last_id st") simp_all
  qed
  then show ?case using i js call by simp
qed

text \<open>After the last random text of a millisecond the code starts again at zero.\<close>

lemma increment_exhausted:
  "incrementCrockfordBase32 (replicate 16 CHR ''Z'') = Inr (replicate 16 CHR ''0'')"
  by code_simp

section \<open>Identifiers from bytes\<close>

lemma read_bytes_step:
  assumes "0 \<le> v"
  shows "push_bit 8 v OR uint (b :: 8 word) = v * 256 + uint b"
proof -
  have "push_bit 8 v OR uint b = concat_bit 8 (uint b) v"
    using uint_lt2p [of b] by (simp add: concat_bit_def take_bit_int_eq_self or.commute)
  also have "\<dots> = v * 256 + uint b"
    using uint_lt2p [of b] by (simp add: concat_bit_eq take_bit_int_eq_self push_bit_eq_mult)
  finally show ?thesis .
qed

lemma read_bytes_fold:
  "0 \<le> v \<Longrightarrow> foldl (\<lambda>v b. push_bit 8 v OR uint (b :: 8 word)) v bs
     = v * 256 ^ length bs + foldl (\<lambda>v b. v * 256 + uint b) 0 bs"
proof -
  have plain: "foldl (\<lambda>v b. v * 256 + uint (b :: 8 word)) v bs
      = v * 256 ^ length bs + foldl (\<lambda>v b. v * 256 + uint b) 0 bs" for v :: int and bs
  proof (induction bs arbitrary: v)
    case (Cons b bs)
    show ?case using Cons.IH [of "v * 256 + uint b"] Cons.IH [of "uint b"] by (simp add: algebra_simps)
  qed simp
  show "0 \<le> v \<Longrightarrow> ?thesis"
  proof (induction bs arbitrary: v)
    case (Cons b bs)
    have "0 \<le> v * 256 + uint b" using Cons.prems by simp
    from Cons.IH [OF this] show ?case
      using Cons.prems plain [of "v * 256 + uint b" bs] plain [of v "b # bs"]
      by (simp add: read_bytes_step)
  qed simp
qed

lemma read_bytes_Cons: "read_bytes (b # bs) = uint b * 256 ^ length bs + read_bytes bs"
  using read_bytes_fold [of "uint b" bs] read_bytes_fold [of 0 bs] by (simp add: read_bytes_def)

lemma read_bytes_bounds: "0 \<le> read_bytes bs \<and> read_bytes bs < 256 ^ length bs"
proof (induction bs)
  case (Cons b bs)
  have "uint b * 256 ^ length bs + read_bytes bs < (uint b + 1) * 256 ^ length bs"
    using Cons.IH by (simp add: algebra_simps)
  also have "\<dots> \<le> 256 * 256 ^ length bs"
    using uint_lt2p [of b] by (intro mult_right_mono) simp_all
  finally show ?case using Cons.IH by (simp add: read_bytes_Cons)
qed (simp add: read_bytes_def)

lemma read_bytes_inject: "length bs = length cs \<Longrightarrow> read_bytes bs = read_bytes cs \<Longrightarrow> bs = cs"
proof (induction bs cs rule: list_induct2)
  case (Cons b bs c cs)
  let ?p = "256 ^ length bs :: int"
  have "uint b = (uint b * ?p + read_bytes bs) div ?p" "uint c = (uint c * ?p + read_bytes cs) div ?p"
    using read_bytes_bounds [of bs] read_bytes_bounds [of cs] Cons.hyps by (simp_all add: div_pos_pos_trivial)
  with Cons have "uint b = uint c" by (simp add: read_bytes_Cons)
  then have "b = c" by (simp add: word_uint_eq_iff)
  with Cons show ?case by (simp add: read_bytes_Cons)
qed simp

lemma createDriverIdFromBytes_ok:
  assumes "length bytes = 16"
  shows "createDriverIdFromBytes bytes = Inr (encode_loop 26 (read_bytes bytes) [])"
    "isDriverId (encode_loop 26 (read_bytes bytes) [])"
    "read_base32 (encode_loop 26 (read_bytes bytes) []) = read_bytes bytes"
proof -
  have b: "0 \<le> read_bytes bytes" "read_bytes bytes < 2 ^ 128"
    using read_bytes_bounds [of bytes] assms by simp_all
  show "createDriverIdFromBytes bytes = Inr (encode_loop 26 (read_bytes bytes) [])"
    using assms by (simp add: createDriverIdFromBytes_def encode_bits_loop)
  show r: "read_base32 (encode_loop 26 (read_bytes bytes) []) = read_bytes bytes"
    using b by (simp add: read_encode_loop)
  show "isDriverId (encode_loop 26 (read_bytes bytes) [])"
    using b r by (simp add: isDriverId_bounds)
qed

section \<open>Normalization\<close>

lemma upper_alphabet: "list_all (\<lambda>c. upper_char c = c) driverIdAlphabet"
  "list_all (\<lambda>c. upper_char c \<in> set driverIdAlphabet) lowerDriverIdAlphabet"
  by code_simp+

lemma normalizeDriverId_driver_id:
  assumes "isDriverId i"
  shows "normalizeDriverId i = Inr i"
proof -
  have "map upper_char i = i"
    using assms upper_alphabet(1) unfolding isDriverId_def list_all_iff by (blast intro: map_idI)
  with assms show ?thesis unfolding isDriverId_def normalizeDriverId_def list_all_iff set_append by simp
qed

lemma normalizeDriverId_ok:
  assumes "normalizeDriverId s = Inr i"
  shows "isDriverId i \<and> i = map upper_char s"
proof -
  have "if length s = 26 \<and> hd s \<in> set octalDigits \<and> list_all (\<lambda>c. c \<in> set (driverIdAlphabet @ lowerDriverIdAlphabet)) s
      then map upper_char s = i else False"
    using assms unfolding normalizeDriverId_def by (simp split: if_splits)
  then have i: "i = map upper_char s" "length s = 26" "hd s \<in> set octalDigits"
    "\<forall>c\<in>set s. c \<in> set driverIdAlphabet \<or> c \<in> set lowerDriverIdAlphabet"
    unfolding list_all_iff set_append by (simp_all split: if_splits)
  have up: "upper_char c \<in> set driverIdAlphabet" if "c \<in> set s" for c
    using i(4) that upper_alphabet unfolding list_all_iff by metis
  have "list_all (\<lambda>c. upper_char c = c) octalDigits" by code_simp
  then have "upper_char (hd s) = hd s" using i(3) unfolding list_all_iff by blast
  moreover have "hd i = upper_char (hd s)" using i(1,2) by (cases s) simp_all
  ultimately have "hd i \<in> set octalDigits" using i(3) by metis
  then show ?thesis using i(1,2) up unfolding isDriverId_def list_all_iff by auto
qed

end
