(* ===== verification/Event_Delivery.thy ===== *)
theory Event_Delivery
  imports Driver_Prelude
begin

text \<open>
  src/src/runtimes/driver-event-admission.ts and the event half of
  src/src/core/driver-runtime-io.ts: which events the publisher admits into its bounded
  queue, how they are stamped, and the loop that delivers a batch through partial receipts.

  \<open>JSON.stringify\<close> of an event is the parameter \<open>json\<close>, the UTF-8 code units of the text;
  an event is JSON data, which \<open>JSON.parse\<close> of that text gives back.  \<open>fresh\<close> is the
  sequence of identifiers \<open>createDriverId\<close> returns.
\<close>

section \<open>Events\<close>

datatype run_target = RunUndefined | RunNull | RunIs string

record 'c driver_event =
  de_kind :: string
  de_bestEffort :: bool
  de_runId :: run_target
  de_sourceEventId :: "string option"
  de_id :: "string option"
  de_content :: 'c

definition isLosslessDriverEvent :: "'c driver_event \<Rightarrow> bool" where
  "isLosslessDriverEvent e \<longleftrightarrow> \<not> de_bestEffort e"

definition isRunTerminalDriverEvent :: "'c driver_event \<Rightarrow> bool" where
  "isRunTerminalDriverEvent e \<longleftrightarrow>
     de_kind e = ''run.cancelled'' \<or> de_kind e = ''run.completed'' \<or> de_kind e = ''run.failed''"

definition explicit_source :: "'c driver_event \<Rightarrow> string option" where
  "explicit_source e = (case de_sourceEventId e of Some s \<Rightarrow> if s \<noteq> [] then Some s else None | None \<Rightarrow> None)"

definition scopeDriverEvent :: "string option \<Rightarrow> 'c driver_event \<Rightarrow> 'c driver_event" where
  "scopeDriverEvent activeRunId e =
     e\<lparr>de_sourceEventId := explicit_source e,
       de_runId := (case de_runId e of
           RunUndefined \<Rightarrow> (case activeRunId of None \<Rightarrow> RunUndefined | Some r \<Rightarrow> RunIs r)
         | target \<Rightarrow> target)\<rparr>"

text \<open>\<open>withSourceEventIds\<close>, which draws an identifier for each event that has none.\<close>

fun withSourceEventIds :: "(nat \<Rightarrow> string) \<Rightarrow> nat \<Rightarrow> 'c driver_event list \<Rightarrow> 'c driver_event list" where
  "withSourceEventIds fresh n [] = []"
| "withSourceEventIds fresh n (e # es) =
     (if explicit_source e \<noteq> None then e # withSourceEventIds fresh n es
      else e\<lparr>de_sourceEventId := Some (fresh n)\<rparr> # withSourceEventIds fresh (Suc n) es)"

text \<open>\<open>JSON.stringify\<close> of an array of events.\<close>

fun join_json :: "string list \<Rightarrow> string" where
  "join_json [] = []"
| "join_json [t] = t"
| "join_json (t # ts) = t @ '','' @ join_json ts"

definition json_array :: "('c driver_event \<Rightarrow> string) \<Rightarrow> 'c driver_event list \<Rightarrow> string" where
  "json_array json es = ''['' @ join_json (map json es) @ '']''"

section \<open>Admission\<close>

definition MAX_PENDING_DRIVER_EVENTS :: nat where
  "MAX_PENDING_DRIVER_EVENTS = 1024"

definition MAX_PENDING_DRIVER_EVENT_BYTES :: nat where
  "MAX_PENDING_DRIVER_EVENT_BYTES = 32 * 1024 * 1024"

definition MAX_RUN_TERMINAL_BATCH_BYTES :: nat where
  "MAX_RUN_TERMINAL_BATCH_BYTES = 1024 * 1024"

record ('c, 'o) queued_event =
  qe_bytes :: nat
  qe_event :: "'c driver_event"
  qe_owner :: 'o
  qe_terminalLane :: bool

record admission_state =
  pendingLosslessBytes :: nat
  pendingLosslessCount :: nat
  pendingTerminalBatch :: bool
  queuedEventBytes :: nat
  queuedEventCount :: nat
  queuedLosslessBytes :: nat
  queuedLosslessCount :: nat
  queuedTerminalBatches :: nat

definition empty_admission_state :: admission_state where
  "empty_admission_state =
     \<lparr>pendingLosslessBytes = 0, pendingLosslessCount = 0, pendingTerminalBatch = False,
      queuedEventBytes = 0, queuedEventCount = 0, queuedLosslessBytes = 0, queuedLosslessCount = 0,
      queuedTerminalBatches = 0\<rparr>"

record ('c, 'o) admitted_push =
  adm_eventBytes :: nat
  adm_eventCount :: nat
  adm_events :: "('c, 'o) queued_event list"
  adm_losslessBytes :: nat
  adm_losslessCount :: nat
  adm_terminalBatch :: bool
  adm_terminalKey :: "string option"

datatype admission_error =
  TerminalSlotFull | TerminalNotLast | TerminalBatchTooLong | QueueTooLong | DuplicateSourceIds
  | TerminalBatchTooLarge | QueueTooLarge

definition driverEventBatchBytes :: "nat \<Rightarrow> nat \<Rightarrow> nat" where
  "driverEventBatchBytes bytes count = (if count = 0 then 0 else bytes + count + 1)"

definition losslessDriverEventRetryKey ::
    "('c driver_event \<Rightarrow> string) \<Rightarrow> 'c driver_event \<Rightarrow> string option \<Rightarrow> string option" where
  "losslessDriverEventRetryKey json e activeRunId =
     (if \<not> isLosslessDriverEvent e then None
      else Some (json ((scopeDriverEvent activeRunId e)\<lparr>de_sourceEventId := None\<rparr>)))"

definition terminalDriverEventRetryKey ::
    "('c driver_event \<Rightarrow> string) \<Rightarrow> 'c driver_event list \<Rightarrow> string option \<Rightarrow> string option" where
  "terminalDriverEventRetryKey json events activeRunId =
     (let losslessEvents = filter isLosslessDriverEvent events in
      if losslessEvents = [] \<or> length (filter isRunTerminalDriverEvent losslessEvents) \<noteq> 1
         \<or> \<not> isRunTerminalDriverEvent (last losslessEvents)
      then None
      else let key = json_array json (map (scopeDriverEvent activeRunId) losslessEvents)
        in if length key \<le> MAX_RUN_TERMINAL_BATCH_BYTES then Some key else None)"

text \<open>The checks before the events are stamped.\<close>

definition check_push :: "'c driver_event list \<Rightarrow> admission_state \<Rightarrow> admission_error + unit" where
  "check_push events st =
     (let losslessEvents = filter isLosslessDriverEvent events;
          runTerminals = filter isRunTerminalDriverEvent losslessEvents;
          terminalBatch = length runTerminals > 0;
          losslessCount = (if terminalBatch then 0 else length losslessEvents)
      in if length runTerminals > 1 then Inl TerminalSlotFull
         else if terminalBatch \<and> (pendingTerminalBatch st \<or> queuedTerminalBatches st > 0)
         then Inl TerminalSlotFull
         else if terminalBatch \<and> \<not> isRunTerminalDriverEvent (last losslessEvents) then Inl TerminalNotLast
         else if terminalBatch \<and> length losslessEvents > MAX_PENDING_DRIVER_EVENTS
         then Inl TerminalBatchTooLong
         else if pendingLosslessCount st + queuedLosslessCount st + losslessCount > MAX_PENDING_DRIVER_EVENTS
         then Inl QueueTooLong
         else Inr ())"

text \<open>\<open>admittedEvents\<close>; \<open>None\<close> where the code returns null.\<close>

definition select_events :: "'c driver_event list \<Rightarrow> admission_state \<Rightarrow> 'c driver_event list option" where
  "select_events events st =
     (let losslessEvents = filter isLosslessDriverEvent events;
          terminalBatch = list_ex isRunTerminalDriverEvent losslessEvents
      in if terminalBatch then Some losslessEvents
         else if losslessEvents = [] then
           let capacity = int MAX_PENDING_DRIVER_EVENTS - int (pendingLosslessCount st) - int (queuedEventCount st)
           in if capacity \<le> 0 then None else Some (take (nat capacity) events)
         else
           let bestEffortCount = length events - length losslessEvents;
               includeBestEffort = pendingLosslessCount st + queuedEventCount st + length losslessEvents
                 + bestEffortCount \<le> MAX_PENDING_DRIVER_EVENTS
           in Some (if includeBestEffort then events else losslessEvents))"

text \<open>The loop over the lossless events, which adds up the bytes and the count.\<close>

definition lossless_step ::
    "bool \<Rightarrow> admission_state \<Rightarrow> nat \<times> nat \<Rightarrow> nat \<Rightarrow> admission_error + nat \<times> nat" where
  "lossless_step terminalBatch st = (\<lambda>(byteSum, count) bytes.
     let byteSum' = byteSum + bytes; count' = count + 1;
         batchBytes = driverEventBatchBytes byteSum' count'
     in if terminalBatch
        then if batchBytes > MAX_RUN_TERMINAL_BATCH_BYTES then Inl TerminalBatchTooLarge
             else Inr (byteSum', count')
        else if pendingLosslessBytes st + queuedLosslessBytes st + batchBytes > MAX_PENDING_DRIVER_EVENT_BYTES
             then Inl QueueTooLarge
             else Inr (byteSum', count'))"

text \<open>The loop over the best-effort events; \<open>None\<close> when they do not fit.\<close>

fun best_effort_loop :: "admission_state \<Rightarrow> nat \<times> nat \<Rightarrow> nat list \<Rightarrow> (nat \<times> nat) option" where
  "best_effort_loop st (byteSum, count) [] = Some (byteSum, count)"
| "best_effort_loop st (byteSum, count) (bytes # rest) =
     (let nextBytes = driverEventBatchBytes (byteSum + bytes) (count + 1) in
      if pendingLosslessBytes st + queuedEventBytes st + nextBytes > MAX_PENDING_DRIVER_EVENT_BYTES
      then None
      else best_effort_loop st (byteSum + bytes, count + 1) rest)"

definition queue_event ::
    "('c driver_event \<Rightarrow> string) \<Rightarrow> 'o \<Rightarrow> bool \<Rightarrow> 'c driver_event \<Rightarrow> ('c, 'o) queued_event" where
  "queue_event json owner terminalBatch e =
     \<lparr>qe_bytes = length (json e), qe_event = e, qe_owner = owner,
      qe_terminalLane = (terminalBatch \<and> isLosslessDriverEvent e)\<rparr>"

definition admitDriverEventPush ::
    "('c driver_event \<Rightarrow> string) \<Rightarrow> (nat \<Rightarrow> string) \<Rightarrow> 'c driver_event list \<Rightarrow> string option \<Rightarrow> 'o
      \<Rightarrow> admission_state \<Rightarrow> admission_error + ('c, 'o) admitted_push option" where
  "admitDriverEventPush json fresh events activeRunId owner st =
     (let losslessEvents = filter isLosslessDriverEvent events;
          terminalBatch = list_ex isRunTerminalDriverEvent losslessEvents
      in bindE (check_push events st) (\<lambda>_.
         case select_events events st of
           None \<Rightarrow> Inr None
         | Some admittedEvents \<Rightarrow>
             let frozenEvents = map (scopeDriverEvent activeRunId) admittedEvents;
                 stampedEvents = withSourceEventIds fresh 0 frozenEvents;
                 sizes = (\<lambda>P. map (\<lambda>e. length (json e)) (filter P stampedEvents))
             in if \<not> all_unique (map de_sourceEventId stampedEvents) then Inl DuplicateSourceIds
                else bindE (foldE (lossless_step terminalBatch st) (0, 0) (sizes isLosslessDriverEvent))
                  (\<lambda>(byteSum, count).
                  let losslessByteSum = (if terminalBatch then 0 else byteSum);
                      losslessCount = (if terminalBatch then 0 else count);
                      fits = (if length admittedEvents > length losslessEvents
                        then best_effort_loop st (losslessByteSum, losslessCount)
                               (sizes (\<lambda>e. \<not> isLosslessDriverEvent e))
                        else None)
                  in if fits = None \<and> losslessEvents = [] then Inr None
                     else
                       let (eventByteSum, eventCount) =
                             (case fits of None \<Rightarrow> (losslessByteSum, losslessCount) | Some p \<Rightarrow> p)
                       in Inr (Some
                         \<lparr>adm_eventBytes = driverEventBatchBytes eventByteSum eventCount,
                          adm_eventCount = eventCount,
                          adm_events = map (queue_event json owner terminalBatch)
                            (filter (\<lambda>e. fits \<noteq> None \<or> isLosslessDriverEvent e) stampedEvents),
                          adm_losslessBytes = driverEventBatchBytes losslessByteSum losslessCount,
                          adm_losslessCount = losslessCount,
                          adm_terminalBatch = terminalBatch,
                          adm_terminalKey =
                            (if terminalBatch then Some (json_array json frozenEvents) else None)\<rparr>))))"

definition preflightDriverEventPush ::
    "('c driver_event \<Rightarrow> string) \<Rightarrow> (nat \<Rightarrow> string) \<Rightarrow> 'c driver_event list \<Rightarrow> string option
      \<Rightarrow> admission_error + unit" where
  "preflightDriverEventPush json fresh events activeRunId =
     bindE (admitDriverEventPush json fresh events activeRunId () empty_admission_state) (\<lambda>_. Inr ())"

section \<open>Stamping and sizes\<close>

definition unstamped :: "'c driver_event \<Rightarrow> 'c driver_event" where
  "unstamped e = e\<lparr>de_sourceEventId := None\<rparr>"

text \<open>\<open>q\<close> is \<open>e\<close> with a source identifier, its own if it has one.\<close>

definition stamped_from :: "'c driver_event \<Rightarrow> 'c driver_event \<Rightarrow> bool" where
  "stamped_from e q \<longleftrightarrow> unstamped q = unstamped e \<and> de_sourceEventId q \<noteq> None
     \<and> (explicit_source e \<noteq> None \<longrightarrow> q = e)"

lemma withSourceEventIds_stamped: "list_all2 stamped_from es (withSourceEventIds fresh n es)"
proof (induction es arbitrary: n)
  case (Cons e es)
  have "de_sourceEventId e \<noteq> None" if "explicit_source e \<noteq> None"
    using that by (auto simp: explicit_source_def split: option.splits)
  with Cons show ?case by (simp add: stamped_from_def unstamped_def)
qed simp

lemma stamped_from_kind:
  assumes "stamped_from e q"
  shows "isLosslessDriverEvent q = isLosslessDriverEvent e"
    "isRunTerminalDriverEvent q = isRunTerminalDriverEvent e" "de_kind q = de_kind e" "de_id q = de_id e"
proof -
  have "de_kind (unstamped q) = de_kind (unstamped e)" "de_bestEffort (unstamped q) = de_bestEffort (unstamped e)"
    "de_id (unstamped q) = de_id (unstamped e)"
    using assms by (simp_all add: stamped_from_def)
  then show "isLosslessDriverEvent q = isLosslessDriverEvent e"
    "isRunTerminalDriverEvent q = isRunTerminalDriverEvent e" "de_kind q = de_kind e" "de_id q = de_id e"
    by (simp_all add: unstamped_def isLosslessDriverEvent_def isRunTerminalDriverEvent_def)
qed

lemma scope_kind [simp]:
  "isLosslessDriverEvent (scopeDriverEvent r e) = isLosslessDriverEvent e"
  "isRunTerminalDriverEvent (scopeDriverEvent r e) = isRunTerminalDriverEvent e"
  by (simp_all add: scopeDriverEvent_def isLosslessDriverEvent_def isRunTerminalDriverEvent_def)

lemma list_all2_filter:
  assumes "list_all2 R xs ys" "\<And>x y. R x y \<Longrightarrow> P x = Q y"
  shows "list_all2 R (filter P xs) (filter Q ys)"
  using assms(1) by (induction rule: list_all2_induct) (use assms(2) in auto)

lemma stamped_lossless:
  "list_all2 stamped_from (map (scopeDriverEvent r) (filter isLosslessDriverEvent es))
     (filter isLosslessDriverEvent (withSourceEventIds fresh n (map (scopeDriverEvent r) es)))"
proof -
  have "filter isLosslessDriverEvent (map (scopeDriverEvent r) es)
      = map (scopeDriverEvent r) (filter isLosslessDriverEvent es)"
    by (simp add: filter_map comp_def)
  then show ?thesis
    using list_all2_filter [OF withSourceEventIds_stamped [of "map (scopeDriverEvent r) es"],
        of isLosslessDriverEvent isLosslessDriverEvent] stamped_from_kind(1) by metis
qed

text \<open>The running total is the length of the encoded batch.\<close>

lemma length_join_json: "ts \<noteq> [] \<Longrightarrow> length (join_json ts) + 1 = sum_list (map length ts) + length ts"
  by (induction ts rule: join_json.induct) auto

lemma batch_bytes_exact:
  "es \<noteq> [] \<Longrightarrow> driverEventBatchBytes (sum_list (map (\<lambda>e. length (json e)) es)) (length es) = length (json_array json es)"
  using length_join_json [of "map json es"] by (simp add: driverEventBatchBytes_def json_array_def comp_def)

lemma lossless_fold:
  "foldE (lossless_step tb st) (b, c) xs = Inr (b', c') \<Longrightarrow>
     b' = b + sum_list xs \<and> c' = c + length xs
     \<and> (xs \<noteq> [] \<longrightarrow>
         (if tb then driverEventBatchBytes b' c' \<le> MAX_RUN_TERMINAL_BATCH_BYTES
          else pendingLosslessBytes st + queuedLosslessBytes st + driverEventBatchBytes b' c'
            \<le> MAX_PENDING_DRIVER_EVENT_BYTES))"
proof (induction xs arbitrary: b c)
  case (Cons x xs)
  from Cons.prems obtain p where p: "lossless_step tb st (b, c) x = Inr p" "foldE (lossless_step tb st) p xs = Inr (b', c')"
    by auto
  then have "p = (b + x, c + 1)" and
    fits: "if tb then driverEventBatchBytes (b + x) (c + 1) \<le> MAX_RUN_TERMINAL_BATCH_BYTES
      else pendingLosslessBytes st + queuedLosslessBytes st + driverEventBatchBytes (b + x) (c + 1)
        \<le> MAX_PENDING_DRIVER_EVENT_BYTES"
    by (auto simp: lossless_step_def Let_def split: if_splits)
  with Cons.IH [of "b + x" "c + 1"] p(2) fits show ?case by (cases "xs = []"; cases tb) (clarsimp)+
qed simp

lemma best_effort_fold:
  "best_effort_loop st (b, c) xs = Some (b', c') \<Longrightarrow>
     b' = b + sum_list xs \<and> c' = c + length xs
     \<and> (xs \<noteq> [] \<longrightarrow> pendingLosslessBytes st + queuedEventBytes st + driverEventBatchBytes b' c'
           \<le> MAX_PENDING_DRIVER_EVENT_BYTES)"
proof (induction xs arbitrary: b c)
  case (Cons x xs)
  then have fits: "pendingLosslessBytes st + queuedEventBytes st + driverEventBatchBytes (b + x) (c + 1)
      \<le> MAX_PENDING_DRIVER_EVENT_BYTES" "best_effort_loop st (b + x, c + 1) xs = Some (b', c')"
    by (auto simp: Let_def split: if_splits)
  with Cons.IH [OF fits(2)] show ?case by (cases "xs = []") auto
qed simp

section \<open>What an admitted push is\<close>

text \<open>How the code reached the admitted push \<open>a\<close>: the events it selected, the sums of the
  first loop and the result of the second.\<close>

definition admitted_as ::
    "('c driver_event \<Rightarrow> string) \<Rightarrow> (nat \<Rightarrow> string) \<Rightarrow> 'c driver_event list \<Rightarrow> string option \<Rightarrow> 'o
      \<Rightarrow> admission_state \<Rightarrow> ('c, 'o) admitted_push \<Rightarrow> 'c driver_event list \<Rightarrow> nat \<Rightarrow> nat
      \<Rightarrow> (nat \<times> nat) option \<Rightarrow> bool" where
  "admitted_as json fresh events run owner st a admitted byteSum count fits \<longleftrightarrow>
     (check_push events st = Inr ())
     \<and> (select_events events st = Some admitted)
     \<and> (distinct (map de_sourceEventId (withSourceEventIds fresh 0 (map (scopeDriverEvent run) admitted))))
     \<and> (foldE (lossless_step (adm_terminalBatch a) st) (0, 0) (map (\<lambda>e. length (json e))
       (filter isLosslessDriverEvent (withSourceEventIds fresh 0 (map (scopeDriverEvent run) admitted)))) = Inr (byteSum, count))
     \<and> (fits = (if length admitted > length (filter isLosslessDriverEvent events)
        then best_effort_loop st (if adm_terminalBatch a then 0 else byteSum, if adm_terminalBatch a then 0 else count)
          (map (\<lambda>e. length (json e)) (filter (\<lambda>e. \<not> isLosslessDriverEvent e)
             (withSourceEventIds fresh 0 (map (scopeDriverEvent run) admitted))))
        else None))
     \<and> (fits \<noteq> None \<or> filter isLosslessDriverEvent events \<noteq> [])
     \<and> (adm_terminalBatch a = list_ex isRunTerminalDriverEvent (filter isLosslessDriverEvent events))
     \<and> (adm_events a = map (queue_event json owner (adm_terminalBatch a))
       (filter (\<lambda>e. fits \<noteq> None \<or> isLosslessDriverEvent e)
         (withSourceEventIds fresh 0 (map (scopeDriverEvent run) admitted))))
     \<and> (adm_losslessCount a = (if adm_terminalBatch a then 0 else count))
     \<and> (adm_losslessBytes a = driverEventBatchBytes (if adm_terminalBatch a then 0 else byteSum) (adm_losslessCount a))
     \<and> (adm_eventCount a = (case fits of None \<Rightarrow> adm_losslessCount a | Some (_, n) \<Rightarrow> n))
     \<and> (adm_eventBytes a = (case fits of None \<Rightarrow> adm_losslessBytes a | Some (b, n) \<Rightarrow> driverEventBatchBytes b n))"

lemma admit_cases:
  assumes "admitDriverEventPush json fresh events run owner st = Inr (Some a)"
  obtains admitted byteSum count fits where
    "admitted_as json fresh events run owner st a admitted byteSum count fits"
proof -
  obtain admitted where sel: "check_push events st = Inr ()" "select_events events st = Some admitted"
    using assms by (auto simp: admitDriverEventPush_def Let_def split: option.splits)
  define stamped where "stamped = withSourceEventIds fresh 0 (map (scopeDriverEvent run) admitted)"
  define tb where "tb = list_ex isRunTerminalDriverEvent (filter isLosslessDriverEvent events)"
  obtain byteSum count where fold: "all_unique (map de_sourceEventId stamped)"
    "foldE (lossless_step tb st) (0, 0) (map (\<lambda>e. length (json e)) (filter isLosslessDriverEvent stamped)) = Inr (byteSum, count)"
    using assms sel by (auto simp: admitDriverEventPush_def Let_def stamped_def tb_def split: if_splits)
  define fits where "fits = (if length admitted > length (filter isLosslessDriverEvent events)
        then best_effort_loop st (if tb then 0 else byteSum, if tb then 0 else count)
          (map (\<lambda>e. length (json e)) (filter (\<lambda>e. \<not> isLosslessDriverEvent e) stamped))
        else None)"
  define r where "r = (let (eventByteSum, eventCount) =
         (case fits of None \<Rightarrow> (if tb then 0 else byteSum, if tb then 0 else count) | Some p \<Rightarrow> p)
     in \<lparr>adm_eventBytes = driverEventBatchBytes eventByteSum eventCount, adm_eventCount = eventCount,
      adm_events = map (queue_event json owner tb) (filter (\<lambda>e. fits \<noteq> None \<or> isLosslessDriverEvent e) stamped),
      adm_losslessBytes = driverEventBatchBytes (if tb then 0 else byteSum) (if tb then 0 else count),
      adm_losslessCount = (if tb then 0 else count), adm_terminalBatch = tb,
      adm_terminalKey = (if tb then Some (json_array json (map (scopeDriverEvent run) admitted)) else None)\<rparr>)"
  have "admitDriverEventPush json fresh events run owner st
      = (if fits = None \<and> filter isLosslessDriverEvent events = [] then Inr None else Inr (Some r))"
    unfolding admitDriverEventPush_def Let_def tb_def [symmetric] sel bindE.simps option.case
      stamped_def [symmetric] fold(2) prod.case fits_def [symmetric]
    using fold(1) by (simp add: r_def Let_def case_prod_beta)
  with assms have some: "fits \<noteq> None \<or> filter isLosslessDriverEvent events \<noteq> []" and a: "a = r"
    by (auto split: if_splits)
  have tb: "adm_terminalBatch a = tb" by (simp add: a r_def Let_def case_prod_beta)
  have "adm_eventCount a = (case fits of None \<Rightarrow> adm_losslessCount a | Some (_, n) \<Rightarrow> n)"
    "adm_eventBytes a = (case fits of None \<Rightarrow> adm_losslessBytes a | Some (b, n) \<Rightarrow> driverEventBatchBytes b n)"
    by (simp_all add: a r_def Let_def case_prod_beta split: option.splits)
  moreover have "adm_events a = map (queue_event json owner tb) (filter (\<lambda>e. fits \<noteq> None \<or> isLosslessDriverEvent e) stamped)"
    "adm_losslessCount a = (if tb then 0 else count)"
    "adm_losslessBytes a = driverEventBatchBytes (if tb then 0 else byteSum) (adm_losslessCount a)"
    by (simp_all add: a r_def Let_def case_prod_beta)
  ultimately have "admitted_as json fresh events run owner st a admitted byteSum count fits"
    unfolding admitted_as_def tb stamped_def [symmetric]
    using sel fold some fits_def by (intro conjI) (simp_all add: tb_def)
  then show ?thesis by (rule that)
qed

lemma select_lossless:
  assumes "select_events events st = Some admitted"
  shows "filter isLosslessDriverEvent admitted = filter isLosslessDriverEvent events"
proof -
  have "filter isLosslessDriverEvent (take n events) = []" if "filter isLosslessDriverEvent events = []" for n
    using that by (auto simp: filter_empty_conv dest: in_set_takeD)
  with assms show ?thesis
    by (auto simp: select_events_def Let_def split: if_splits)
qed

lemma select_length:
  assumes "select_events events st = Some admitted"
    "length admitted > length (filter isLosslessDriverEvent events)"
  shows "\<not> list_ex isRunTerminalDriverEvent (filter isLosslessDriverEvent events)"
    "pendingLosslessCount st + queuedEventCount st + length admitted \<le> MAX_PENDING_DRIVER_EVENTS"
  using assms sum_length_filter_compl [of isLosslessDriverEvent events]
  by (auto simp: select_events_def Let_def split: if_splits)

lemma admit_lossless:
  assumes "admitDriverEventPush json fresh events run owner st = Inr (Some a)"
  shows "list_all2 stamped_from (map (scopeDriverEvent run) (filter isLosslessDriverEvent events))
      (filter isLosslessDriverEvent (map qe_event (adm_events a)))"
    and "distinct (map (de_sourceEventId \<circ> qe_event) (adm_events a))"
proof -
  from assms obtain admitted byteSum count fits where "admitted_as json fresh events run owner st a admitted byteSum count fits"
    by (rule admit_cases)
  then have a: "select_events events st = Some admitted"
    "distinct (map de_sourceEventId (withSourceEventIds fresh 0 (map (scopeDriverEvent run) admitted)))"
    "adm_events a = map (queue_event json owner (adm_terminalBatch a))
       (filter (\<lambda>e. fits \<noteq> None \<or> isLosslessDriverEvent e)
         (withSourceEventIds fresh 0 (map (scopeDriverEvent run) admitted)))"
    unfolding admitted_as_def by blast+
  have q: "qe_event (queue_event json owner tb e) = e" for tb and e :: "'a driver_event"
    by (simp add: queue_event_def)
  have events: "map qe_event (adm_events a) = filter (\<lambda>e. fits \<noteq> None \<or> isLosslessDriverEvent e)
         (withSourceEventIds fresh 0 (map (scopeDriverEvent run) admitted))"
    by (simp add: a(3) comp_def q)
  then have "filter isLosslessDriverEvent (map qe_event (adm_events a))
      = filter isLosslessDriverEvent (withSourceEventIds fresh 0 (map (scopeDriverEvent run) admitted))"
    by (cases fits) simp_all
  then show "list_all2 stamped_from (map (scopeDriverEvent run) (filter isLosslessDriverEvent events))
      (filter isLosslessDriverEvent (map qe_event (adm_events a)))"
    using stamped_lossless [of run admitted fresh 0] by (simp add: select_lossless [OF a(1)])
  show "distinct (map (de_sourceEventId \<circ> qe_event) (adm_events a))"
    using a(2) unfolding list.map_comp [symmetric] events by (rule distinct_map_filter)
qed

lemma admit_none:
  assumes "admitDriverEventPush json fresh events run owner st = Inr None"
  shows "filter isLosslessDriverEvent events = []"
proof (rule ccontr)
  assume "filter isLosslessDriverEvent events \<noteq> []"
  then show False
    using assms by (auto simp: admitDriverEventPush_def select_events_def Let_def case_prod_beta split: if_splits)
qed

text \<open>The sizes an admitted push declares are those of its events.\<close>

definition batch_size :: "('c, 'o) queued_event list \<Rightarrow> nat" where
  "batch_size q = driverEventBatchBytes (sum_list (map qe_bytes q)) (length q)"

lemma size_filters:
  "sum_list (map f (filter P xs)) + sum_list (map f (filter (\<lambda>x. \<not> P x) xs)) = (sum_list (map f xs) :: nat)"
  by (induction xs) simp_all

lemma map_filter_cong: "\<lbrakk>\<And>x. P x = Q (f x)\<rbrakk> \<Longrightarrow> filter Q (map f xs) = map f (filter P xs)"
  by (induction xs) simp_all

lemma admit_sizes:
  assumes "admitDriverEventPush json fresh events run owner st = Inr (Some a)"
  defines "lossless \<equiv> filter (isLosslessDriverEvent \<circ> qe_event) (adm_events a)"
  shows "if adm_terminalBatch a
     then adm_events a = lossless \<and> length lossless \<le> MAX_PENDING_DRIVER_EVENTS
       \<and> batch_size lossless \<le> MAX_RUN_TERMINAL_BATCH_BYTES
       \<and> \<not> pendingTerminalBatch st \<and> queuedTerminalBatches st = 0
       \<and> adm_eventCount a = 0 \<and> adm_losslessCount a = 0 \<and> adm_eventBytes a = 0
     else adm_losslessCount a = length lossless \<and> adm_losslessBytes a = batch_size lossless
       \<and> adm_eventCount a = length (adm_events a) \<and> adm_eventBytes a = batch_size (adm_events a)
       \<and> pendingLosslessCount st + queuedLosslessCount st + adm_losslessCount a \<le> MAX_PENDING_DRIVER_EVENTS
       \<and> (lossless \<noteq> [] \<longrightarrow> pendingLosslessBytes st + queuedLosslessBytes st + adm_losslessBytes a
            \<le> MAX_PENDING_DRIVER_EVENT_BYTES)
       \<and> (adm_events a \<noteq> lossless \<longrightarrow>
            pendingLosslessCount st + queuedEventCount st + adm_eventCount a \<le> MAX_PENDING_DRIVER_EVENTS
            \<and> pendingLosslessBytes st + queuedEventBytes st + adm_eventBytes a \<le> MAX_PENDING_DRIVER_EVENT_BYTES)"
proof -
  from assms(1) obtain admitted byteSum count fits where "admitted_as json fresh events run owner st a admitted byteSum count fits"
    by (rule admit_cases)
  then have a:
    "check_push events st = Inr ()" "select_events events st = Some admitted"
    "foldE (lossless_step (adm_terminalBatch a) st) (0, 0) (map (\<lambda>e. length (json e))
       (filter isLosslessDriverEvent (withSourceEventIds fresh 0 (map (scopeDriverEvent run) admitted)))) = Inr (byteSum, count)"
    "fits = (if length admitted > length (filter isLosslessDriverEvent events)
        then best_effort_loop st (if adm_terminalBatch a then 0 else byteSum, if adm_terminalBatch a then 0 else count)
          (map (\<lambda>e. length (json e)) (filter (\<lambda>e. \<not> isLosslessDriverEvent e)
             (withSourceEventIds fresh 0 (map (scopeDriverEvent run) admitted))))
        else None)"
    "adm_terminalBatch a = list_ex isRunTerminalDriverEvent (filter isLosslessDriverEvent events)"
    "adm_events a = map (queue_event json owner (adm_terminalBatch a))
       (filter (\<lambda>e. fits \<noteq> None \<or> isLosslessDriverEvent e)
         (withSourceEventIds fresh 0 (map (scopeDriverEvent run) admitted)))"
    "adm_losslessCount a = (if adm_terminalBatch a then 0 else count)"
    "adm_losslessBytes a = driverEventBatchBytes (if adm_terminalBatch a then 0 else byteSum) (adm_losslessCount a)"
    "adm_eventCount a = (case fits of None \<Rightarrow> adm_losslessCount a | Some (_, n) \<Rightarrow> n)"
    "adm_eventBytes a = (case fits of None \<Rightarrow> adm_losslessBytes a | Some (b, n) \<Rightarrow> driverEventBatchBytes b n)"
    unfolding admitted_as_def by blast+
  define stamped where "stamped = withSourceEventIds fresh 0 (map (scopeDriverEvent run) admitted)"
  define tb where "tb = adm_terminalBatch a"
  define sz where "sz = (\<lambda>e. length (json e))"
  have q [simp]: "qe_event (queue_event json owner b e) = e" "qe_bytes (queue_event json owner b e) = sz e" for b e
    by (simp_all add: queue_event_def sz_def)
  note a' = a [folded stamped_def tb_def sz_def]
  have ls: "lossless = map (queue_event json owner tb) (filter isLosslessDriverEvent stamped)"
    unfolding lossless_def a'(6) by (subst map_filter_cong [of isLosslessDriverEvent]; cases fits) simp_all
  have len: "length (filter isLosslessDriverEvent stamped) = length (filter isLosslessDriverEvent events)"
    "length stamped = length admitted"
    using stamped_lossless [of run admitted fresh 0] withSourceEventIds_stamped [of "map (scopeDriverEvent run) admitted" fresh 0]
    by (auto simp: stamped_def select_lossless [OF a(2)] dest!: list_all2_lengthD)
  have sums: "byteSum = sum_list (map qe_bytes lossless)" "count = length lossless"
    using lossless_fold [OF a'(3)] by (simp_all add: ls comp_def)
  show ?thesis
  proof (cases tb)
    case True
    then have fits: "fits = None" using a'(4,5) select_length(1) [OF a(2)] by auto
    have "filter isLosslessDriverEvent stamped \<noteq> []"
      using True a'(5) len(1) by (cases "filter isLosslessDriverEvent events") auto
    then have "batch_size lossless \<le> MAX_RUN_TERMINAL_BATCH_BYTES"
      using lossless_fold [OF a'(3)] True by (simp add: batch_size_def ls comp_def sums)
    moreover have "adm_events a = lossless" using a'(6) ls fits True by simp
    moreover have "length lossless \<le> MAX_PENDING_DRIVER_EVENTS" "\<not> pendingTerminalBatch st" "queuedTerminalBatches st = 0"
      using a(1) True a'(5) len(1) ls
      by (auto simp: check_push_def Let_def list_ex_iff filter_empty_conv split: if_splits)
    ultimately show ?thesis using True a' fits by (simp add: tb_def driverEventBatchBytes_def)
  next
    case False
    have count: "pendingLosslessCount st + queuedLosslessCount st + count \<le> MAX_PENDING_DRIVER_EVENTS"
      using a(1) False a'(5) len(1) sums(2) ls
      by (auto simp: check_push_def Let_def list_ex_iff filter_empty_conv split: if_splits)
    have bytes: "pendingLosslessBytes st + queuedLosslessBytes st + adm_losslessBytes a \<le> MAX_PENDING_DRIVER_EVENT_BYTES"
      if "lossless \<noteq> []"
      using lossless_fold [OF a'(3)] False that a'(7,8) by (simp add: ls comp_def sums)
    have declared: "adm_losslessCount a = length lossless" "adm_losslessBytes a = batch_size lossless"
      using a'(7,8) False sums by (simp_all add: batch_size_def)
    have rest: "adm_eventCount a = length (adm_events a) \<and> adm_eventBytes a = batch_size (adm_events a)
       \<and> (adm_events a \<noteq> lossless \<longrightarrow>
            pendingLosslessCount st + queuedEventCount st + adm_eventCount a \<le> MAX_PENDING_DRIVER_EVENTS
            \<and> pendingLosslessBytes st + queuedEventBytes st + adm_eventBytes a \<le> MAX_PENDING_DRIVER_EVENT_BYTES)"
    proof (cases fits)
      case None
      then have "adm_events a = lossless" using a'(6) ls by simp
      with None declared a' show ?thesis by simp
    next
      case (Some p)
      obtain b n where p: "p = (b, n)" by (cases p)
      have more: "length admitted > length (filter isLosslessDriverEvent events)"
        and loop: "best_effort_loop st (byteSum, count) (map sz (filter (\<lambda>e. \<not> isLosslessDriverEvent e) stamped)) = Some (b, n)"
        using a'(4) Some p False by (auto split: if_splits)
      have ev: "adm_events a = map (queue_event json owner tb) stamped" using a'(6) Some by simp
      have n: "n = length stamped" and b: "b = sum_list (map sz stamped)"
        using best_effort_fold [OF loop] sums ls sum_length_filter_compl [of isLosslessDriverEvent stamped]
          size_filters [of sz isLosslessDriverEvent stamped] by (simp_all add: comp_def)
      have "filter (\<lambda>e. \<not> isLosslessDriverEvent e) stamped \<noteq> []"
        using more len sum_length_filter_compl [of isLosslessDriverEvent stamped] by auto
      then have "pendingLosslessBytes st + queuedEventBytes st + driverEventBatchBytes b n \<le> MAX_PENDING_DRIVER_EVENT_BYTES"
        using best_effort_fold [OF loop, THEN conjunct2, THEN conjunct2] by simp
      moreover have "adm_eventCount a = n" "adm_eventBytes a = driverEventBatchBytes b n"
        using a'(9,10) Some p by simp_all
      ultimately show ?thesis
        using select_length(2) [OF a(2) more] len(2) n b by (simp add: ev batch_size_def comp_def)
    qed
    show ?thesis using False count bytes declared rest sums(2) unfolding tb_def by clarsimp
  qed
qed

section \<open>Delivery\<close>

text \<open>
  \<open>pushEvents\<close> of the port is the parameter \<open>port\<close>: what its n-th call answers to a
  batch.  \<open>aborted n\<close> says whether the deadline has passed before that call.
\<close>

record driver_receipt =
  dr_eventId :: string
  dr_seq :: rat
  dr_type :: string

datatype port_reply = PortAccepts "driver_receipt list" | PortRejects | PortFails

datatype push_error =
  DeliveryAborted | EventRejected | OutcomeUnknown | NoProgress | TooManyReceipts | SeqNotSafe
  | SeqNegative | ReceiptTypeMismatch | ReceiptIdMismatch

datatype terminal_batch_error = MultipleTerminals | TerminalNotAlone

definition assertIsolatedRunTerminalBatch :: "'c driver_event list \<Rightarrow> terminal_batch_error + unit" where
  "assertIsolatedRunTerminalBatch events =
     (let terminals = filter isRunTerminalDriverEvent events in
      if length terminals > 1 then Inl MultipleTerminals
      else if length terminals = 1 \<and> length events \<noteq> 1 then Inl TerminalNotAlone
      else Inr ())"

definition delivered_id :: "'c driver_event \<Rightarrow> string option" where
  "delivered_id e = (case de_sourceEventId e of Some s \<Rightarrow> Some s | None \<Rightarrow> de_id e)"

fun receipts_loop :: "'c driver_event list \<Rightarrow> driver_receipt list \<Rightarrow> push_error + unit" where
  "receipts_loop events [] = Inr ()"
| "receipts_loop events (r # rs) =
     (if \<not> is_safe_integer (dr_seq r) then Inl SeqNotSafe
      else if dr_seq r < 0 then Inl SeqNegative
      else case events of
        [] \<Rightarrow> Inl ReceiptTypeMismatch
      | e # es \<Rightarrow>
          if dr_type r \<noteq> de_kind e then Inl ReceiptTypeMismatch
          else if Some (dr_eventId r) \<noteq> delivered_id e then Inl ReceiptIdMismatch
          else receipts_loop es rs)"

definition assertDriverEventReceiptPrefix ::
    "'c driver_event list \<Rightarrow> driver_receipt list \<Rightarrow> push_error + unit" where
  "assertDriverEventReceiptPrefix events receipts =
     (if length receipts > length events then Inl TooManyReceipts else receipts_loop events receipts)"

text \<open>
  The loop of \<open>pushLosslessEvents\<close>.  It answers with the receipts it passed on before it
  returned (\<open>None\<close>) or threw, and with the number of calls it made.
\<close>

function push_loop ::
    "(nat \<Rightarrow> 'c driver_event list \<Rightarrow> port_reply) \<Rightarrow> (nat \<Rightarrow> bool) \<Rightarrow> nat \<Rightarrow> 'c driver_event list
      \<Rightarrow> bool \<Rightarrow> driver_receipt list \<Rightarrow> driver_receipt list \<times> push_error option \<times> nat" where
  "push_loop port aborted n remaining retryTransport receipts =
     (if remaining = [] then (receipts, None, n)
      else if aborted n then (receipts, Some DeliveryAborted, n)
      else case port n remaining of
        PortRejects \<Rightarrow> (receipts, Some EventRejected, Suc n)
      | PortFails \<Rightarrow>
          if retryTransport then push_loop port aborted (Suc n) remaining False receipts
          else (receipts, Some OutcomeUnknown, Suc n)
      | PortAccepts accepted \<Rightarrow>
          (case assertDriverEventReceiptPrefix remaining accepted of
             Inl e \<Rightarrow> (receipts, Some e, Suc n)
           | Inr _ \<Rightarrow>
               if accepted = [] then (receipts, Some NoProgress, Suc n)
               else push_loop port aborted (Suc n) (drop (length accepted) remaining) True
                      (receipts @ accepted)))"
  by pat_completeness auto
termination
proof (relation "measure (\<lambda>(port, aborted, n, remaining, retry, receipts). 2 * length remaining + of_bool retry)",
    goal_cases)
  case (2 port aborted n remaining retryTransport receipts accepted u)
  then have "0 < length accepted" "0 < length remaining" by simp_all
  then have "2 * (length remaining - length accepted) + 1 < 2 * length remaining" by linarith
  then show ?case by (cases retryTransport) simp_all
qed simp_all

declare push_loop.simps [simp del]

definition pushLosslessEvents ::
    "(nat \<Rightarrow> 'c driver_event list \<Rightarrow> port_reply) \<Rightarrow> (nat \<Rightarrow> bool) \<Rightarrow> (nat \<Rightarrow> string) \<Rightarrow> 'c driver_event list
      \<Rightarrow> driver_receipt list \<times> push_error option \<times> nat" where
  "pushLosslessEvents port aborted fresh events =
     push_loop port aborted 0 (withSourceEventIds fresh 0 events) False []"

text \<open>A receipt answers an event.\<close>

definition receipt_of :: "'c driver_event \<Rightarrow> driver_receipt \<Rightarrow> bool" where
  "receipt_of e r \<longleftrightarrow> dr_type r = de_kind e \<and> delivered_id e = Some (dr_eventId r)
     \<and> is_safe_integer (dr_seq r) \<and> 0 \<le> dr_seq r"

lemma receipts_loop_ok:
  "length rs \<le> length es \<Longrightarrow> receipts_loop es rs = Inr () \<longleftrightarrow> list_all2 receipt_of (take (length rs) es) rs"
proof (induction es rs rule: receipts_loop.induct)
  case (2 es r rs)
  then obtain e es' where "es = e # es'" by (cases es) auto
  with 2 show ?case by (auto simp: receipt_of_def)
qed simp

lemma assertDriverEventReceiptPrefix_ok:
  "assertDriverEventReceiptPrefix es rs = Inr () \<longleftrightarrow>
     length rs \<le> length es \<and> list_all2 receipt_of (take (length rs) es) rs"
  using receipts_loop_ok [of rs es] by (auto simp: assertDriverEventReceiptPrefix_def)

lemma push_loop_result:
  assumes "list_all2 receipt_of done receipts"
    "push_loop port aborted n remaining retry receipts = (receipts', err, m)"
  shows "list_all2 receipt_of (take (length receipts') (done @ remaining)) receipts'
    \<and> length receipts' \<le> length (done @ remaining)
    \<and> (err = None \<longleftrightarrow> length receipts' = length (done @ remaining))
    \<and> m \<le> n + 2 * length remaining + of_bool retry"
  using assms
proof (induction port aborted n remaining retry receipts arbitrary: "done" rule: push_loop.induct)
  case (1 port aborted n remaining retry receipts)
  have len: "length done = length receipts" using "1.prems"(1) by (rule list_all2_lengthD)
  have here: "list_all2 receipt_of (take (length receipts) (done @ remaining)) receipts"
    using "1.prems"(1) len by simp
  show ?case
  proof (cases "remaining = [] \<or> aborted n")
    case True
    then show ?thesis using "1.prems"(2) here len by (subst (asm) push_loop.simps) (auto split: if_splits)
  next
    case False
    then have some: "1 \<le> length remaining" by (cases remaining) simp_all
    show ?thesis
    proof (cases "port n remaining")
      case (PortAccepts accepted)
      show ?thesis
      proof (cases "assertDriverEventReceiptPrefix remaining accepted = Inr () \<and> accepted \<noteq> []")
        case True
        then have acc: "length accepted \<le> length remaining"
          "list_all2 receipt_of (take (length accepted) remaining) accepted"
          by (simp_all add: assertDriverEventReceiptPrefix_ok)
        have loop: "push_loop port aborted (Suc n) (drop (length accepted) remaining) True (receipts @ accepted)
            = (receipts', err, m)"
          using "1.prems"(2) False PortAccepts True by (subst (asm) push_loop.simps) simp
        have "list_all2 receipt_of (done @ take (length accepted) remaining) (receipts @ accepted)"
          using "1.prems"(1) acc(2) by (rule list_all2_appendI)
        from "1.IH"(1) [OF _ _ PortAccepts _ _ this loop] False True
        have "list_all2 receipt_of (take (length receipts') (done @ remaining)) receipts'
          \<and> length receipts' \<le> length (done @ remaining)
          \<and> (err = None \<longleftrightarrow> length receipts' = length (done @ remaining))
          \<and> m \<le> Suc n + 2 * (length remaining - length accepted) + 1"
          by simp
        moreover have "1 \<le> length accepted" using True by (cases accepted) simp_all
        ultimately show ?thesis using acc(1) by auto
      next
        case bad: False
        then show ?thesis
          using "1.prems"(2) False PortAccepts here len some
          by (subst (asm) push_loop.simps) (auto split: sum.splits if_splits)
      qed
    next
      case PortRejects
      then show ?thesis using "1.prems"(2) False here len some by (subst (asm) push_loop.simps) auto
    next
      case PortFails
      show ?thesis
      proof (cases retry)
        case True
        then have "push_loop port aborted (Suc n) remaining False receipts = (receipts', err, m)"
          using "1.prems"(2) False PortFails by (subst (asm) push_loop.simps) simp
        from "1.IH"(2) [OF _ _ PortFails True "1.prems"(1) this] False True show ?thesis by simp
      next
        case no: False
        then show ?thesis using "1.prems"(2) False PortFails here len some by (subst (asm) push_loop.simps) auto
      qed
    qed
  qed
qed

lemma withSourceEventIds_length [simp]: "length (withSourceEventIds fresh n es) = length es"
  using list_all2_lengthD [OF withSourceEventIds_stamped [of es fresh n]] by simp

lemma pushLosslessEvents_result:
  assumes "pushLosslessEvents port aborted fresh events = (receipts, err, calls)"
  defines "sent \<equiv> withSourceEventIds fresh 0 events"
  shows "list_all2 receipt_of (take (length receipts) sent) receipts
    \<and> length receipts \<le> length events \<and> (err = None \<longleftrightarrow> length receipts = length events)
    \<and> calls \<le> 2 * length events"
  using push_loop_result [of "[]" "[]" port aborted 0 sent False receipts err calls] assms
  by (simp add: pushLosslessEvents_def)

end
