(* ===== verification/Sse_Decoder.thy ===== *)
theory Sse_Decoder
  imports Driver_Prelude "HOL-Library.Word"
begin

text \<open>
  src/src/surfaces/cma-sdk/sse-bytes-decoder.ts: the incremental decoder of a stream of
  server-sent events.  \<open>TextDecoder.decode\<close> and \<open>JSON.parse\<close> are the parameters
  \<open>decode\<close> and \<open>json\<close>; a stream is the list of the chunks the reader returns, not aborted.
  The second half relates the decoder, which looks for the end of a frame after every
  byte and only at the last bytes, to splitting the whole stream.
\<close>

section \<open>The code\<close>

definition CMA_MAX_EVENT_BYTES :: nat where
  "CMA_MAX_EVENT_BYTES = 1024 * 1024"

text \<open>\<open>split(/\r\n|\r|\n/u)\<close>\<close>

fun split_lines :: "string \<Rightarrow> string list" where
  "split_lines [] = [[]]"
| "split_lines (c # cs) =
     (if c = CHR 0x0D then
        (case cs of d # ds \<Rightarrow> if d = CHR 0x0A then [] # split_lines ds else [] # split_lines cs
         | [] \<Rightarrow> [] # split_lines cs)
      else if c = CHR 0x0A then [] # split_lines cs
      else case split_lines cs of [] \<Rightarrow> [[c]] | l # ls \<Rightarrow> (c # l) # ls)"

definition is_space :: "char \<Rightarrow> bool" where
  "is_space c \<longleftrightarrow> (let n = of_char c :: nat in 9 \<le> n \<and> n \<le> 13 \<or> n = 32 \<or> n = 160)"

definition trimStart :: "string \<Rightarrow> string" where
  "trimStart s = dropWhile is_space s"

fun join_lines :: "string list \<Rightarrow> string" where
  "join_lines [] = []"
| "join_lines [l] = l"
| "join_lines (l # ls) = l @ [CHR 0x0A] @ join_lines ls"

definition parseSseRecord ::
    "(8 word list \<Rightarrow> string) \<Rightarrow> (string \<Rightarrow> 'e + 'r) \<Rightarrow> 8 word list \<Rightarrow> 'e + 'r option" where
  "parseSseRecord decode json frame =
     (let dataLines = map (\<lambda>l. trimStart (drop 5 l))
            (filter (\<lambda>l. take 5 l = ''data:'') (split_lines (decode frame)))
      in if dataLines = [] then Inr None
         else bindE (json (join_lines dataLines)) (\<lambda>r. Inr (Some r)))"

text \<open>\<open>lineBreakLength\<close> and \<open>findSseSeparator\<close> on the bytes received so far.\<close>

definition lineBreakLength :: "bool \<Rightarrow> 8 word list \<Rightarrow> nat \<Rightarrow> nat" where
  "lineBreakLength atEof bytes i =
     (if i \<ge> length bytes then 0
      else if bytes ! i = 13 then
        if i + 1 \<ge> length bytes then (if atEof then 1 else 0)
        else if bytes ! (i + 1) = 10 then 2 else 1
      else if bytes ! i = 10 then 1 else 0)"

function findSseSeparator :: "bool \<Rightarrow> 8 word list \<Rightarrow> nat \<Rightarrow> (nat \<times> nat) option" where
  "findSseSeparator atEof bytes i =
     (if i < length bytes then
        let first = lineBreakLength atEof bytes i in
        if first = 0 then findSseSeparator atEof bytes (i + 1)
        else
          let second = lineBreakLength atEof bytes (i + first) in
          if second > 0 then Some (i, first + second)
          else findSseSeparator atEof bytes (i + first)
      else None)"
  by pat_completeness auto
termination
  by (relation "measure (\<lambda>(atEof, bytes, i). length bytes - i)") auto

declare findSseSeparator.simps [simp del]

datatype 'e sse_error = FrameTooLarge | ParseError 'e

definition consume ::
    "(8 word list \<Rightarrow> 'e + 'r option) \<Rightarrow> 8 word list \<Rightarrow> nat \<times> nat \<Rightarrow> 'e sse_error + 8 word list \<times> 'r option" where
  "consume parse frame = (\<lambda>(index, len).
     if index + len > CMA_MAX_EVENT_BYTES then Inl FrameTooLarge
     else case parse (take index frame) of
       Inl e \<Rightarrow> Inl (ParseError e)
     | Inr r \<Rightarrow> Inr (drop (index + len) frame, r))"

text \<open>One step of the loop of \<open>append\<close>: the frame and \<open>scanFrom\<close>, and the record it completes.\<close>

definition append_byte ::
    "(8 word list \<Rightarrow> 'e + 'r option) \<Rightarrow> 8 word list \<times> nat \<Rightarrow> 8 word
      \<Rightarrow> 'e sse_error + (8 word list \<times> nat) \<times> 'r option" where
  "append_byte parse = (\<lambda>(frame, scanFrom) byte.
     if length frame \<ge> CMA_MAX_EVENT_BYTES + 1 then Inl FrameTooLarge
     else
       let frame' = frame @ [byte] in
       case findSseSeparator False frame' scanFrom of
         None \<Rightarrow>
           if length frame' > CMA_MAX_EVENT_BYTES then Inl FrameTooLarge
           else Inr ((frame', length frame' - 3), None)
       | Some separator \<Rightarrow>
           bindE (consume parse frame' separator) (\<lambda>(frame'', r). Inr ((frame'', 0), r)))"

fun append_bytes ::
    "(8 word list \<Rightarrow> 'e + 'r option) \<Rightarrow> 8 word list \<times> nat \<Rightarrow> 8 word list
      \<Rightarrow> 'e sse_error + (8 word list \<times> nat) \<times> 'r list" where
  "append_bytes parse st [] = Inr (st, [])"
| "append_bytes parse st (byte # bytes) =
     bindE (append_byte parse st byte) (\<lambda>(st', r).
     bindE (append_bytes parse st' bytes) (\<lambda>(st'', rs).
       Inr (st'', (case r of None \<Rightarrow> rs | Some x \<Rightarrow> x # rs))))"

text \<open>The records the generator yields, and the error it ends with.\<close>

function decode_tail ::
    "(8 word list \<Rightarrow> 'e + 'r option) \<Rightarrow> 8 word list \<Rightarrow> 'r list \<times> 'e sse_error option" where
  "decode_tail parse frame =
     (case findSseSeparator True frame 0 of
        Some separator \<Rightarrow>
          (case consume parse frame separator of
             Inl e \<Rightarrow> ([], Some e)
           | Inr (frame', r) \<Rightarrow>
               let (rs, e) = decode_tail parse frame' in ((case r of None \<Rightarrow> rs | Some x \<Rightarrow> x # rs), e))
      | None \<Rightarrow>
          if frame = [] then ([], None)
          else case parse frame of
            Inl e \<Rightarrow> ([], Some (ParseError e))
          | Inr None \<Rightarrow> ([], None)
          | Inr (Some r) \<Rightarrow> ([r], None))"
  by pat_completeness auto

lemma findSseSeparator_bounds:
  "findSseSeparator atEof bytes i = Some (index, len) \<Longrightarrow> i \<le> index \<and> 2 \<le> len \<and> index + len \<le> length bytes"
proof (induction atEof bytes i rule: findSseSeparator.induct)
  case (1 atEof bytes i)
  from "1.prems" have i: "i < length bytes"
    by (subst (asm) findSseSeparator.simps) (simp split: if_splits)
  let ?first = "lineBreakLength atEof bytes i"
  let ?second = "lineBreakLength atEof bytes (i + ?first)"
  show ?case
  proof (cases "?first = 0")
    case True
    then have "findSseSeparator atEof bytes (i + 1) = Some (index, len)"
      using "1.prems" i by (subst (asm) findSseSeparator.simps) simp
    from "1.IH"(1) [OF i refl True this] show ?thesis by simp
  next
    case first: False
    show ?thesis
    proof (cases "?second > 0")
      case True
      then have "index = i \<and> len = ?first + ?second"
        using "1.prems" i first by (subst (asm) findSseSeparator.simps) (auto simp: Let_def)
      moreover have "i + ?first + ?second \<le> length bytes"
        using True by (simp add: lineBreakLength_def split: if_splits)
      ultimately show ?thesis using i True first by linarith
    next
      case False
      then have "findSseSeparator atEof bytes (i + ?first) = Some (index, len)"
        using "1.prems" i first by (subst (asm) findSseSeparator.simps) (simp add: Let_def)
      from "1.IH"(2) [OF i refl first refl False this] show ?thesis by simp
    qed
  qed
qed

termination decode_tail
proof (relation "measure (\<lambda>(parse, frame). length frame)", goal_cases)
  case (2 parse frame separator p frame' r)
  then obtain index len where "separator = (index, len)" "frame' = drop (index + len) frame"
    "index + len \<le> length frame" "2 \<le> len"
    using findSseSeparator_bounds
    by (cases separator) (auto simp: consume_def split: if_splits sum.splits)
  then show ?case by simp
qed simp

declare decode_tail.simps [simp del]

fun decode_chunks ::
    "(8 word list \<Rightarrow> 'e + 'r option) \<Rightarrow> 8 word list \<times> nat \<Rightarrow> 8 word list list
      \<Rightarrow> 'r list \<times> 'e sse_error option" where
  "decode_chunks parse st [] = decode_tail parse (fst st)"
| "decode_chunks parse st (chunk # chunks) =
     (case append_bytes parse st chunk of
        Inl e \<Rightarrow> ([], Some e)
      | Inr (st', records) \<Rightarrow>
          let (rs, e) = decode_chunks parse st' chunks in (records @ rs, e))"

definition decodeCmaSseBytes ::
    "(8 word list \<Rightarrow> string) \<Rightarrow> (string \<Rightarrow> 'e + 'r) \<Rightarrow> 8 word list list \<Rightarrow> 'r list \<times> 'e sse_error option" where
  "decodeCmaSseBytes decode json chunks = decode_chunks (parseSseRecord decode json) ([], 0) chunks"

section \<open>Looking for the end of a frame\<close>

abbreviation find_end :: "bool \<Rightarrow> 8 word list \<Rightarrow> nat \<Rightarrow> (nat \<times> nat) option" where
  "find_end \<equiv> findSseSeparator"

lemma find_end_here:
  "i < length bytes \<Longrightarrow> lineBreakLength e bytes i = 0 \<Longrightarrow> find_end e bytes i = find_end e bytes (Suc i)"
  "i < length bytes \<Longrightarrow> 0 < lineBreakLength e bytes i \<Longrightarrow>
     0 < lineBreakLength e bytes (i + lineBreakLength e bytes i) \<Longrightarrow>
     find_end e bytes i = Some (i, lineBreakLength e bytes i + lineBreakLength e bytes (i + lineBreakLength e bytes i))"
  "i < length bytes \<Longrightarrow> 0 < lineBreakLength e bytes i \<Longrightarrow>
     lineBreakLength e bytes (i + lineBreakLength e bytes i) = 0 \<Longrightarrow>
     find_end e bytes i = find_end e bytes (i + lineBreakLength e bytes i)"
  by (simp_all add: findSseSeparator.simps [of e bytes i] Let_def)

lemma find_end_beyond: "length bytes \<le> i \<Longrightarrow> find_end e bytes i = None"
  by (simp add: findSseSeparator.simps)

lemma line_break_definite:
  "i + 1 < length xs \<Longrightarrow> lineBreakLength e (xs @ ys) i = lineBreakLength e' xs i"
  "0 < lineBreakLength False xs i \<Longrightarrow> lineBreakLength e (xs @ ys) i = lineBreakLength False xs i"
  by (auto simp: lineBreakLength_def nth_append split: if_splits)

lemma line_break_le2: "lineBreakLength e xs i \<le> 2"
  by (simp add: lineBreakLength_def)

text \<open>An end that was found stays where it is, whatever follows.\<close>

lemma find_end_stable:
  "find_end False xs i = Some (j, l) \<Longrightarrow> find_end e (xs @ ys) i = Some (j, l)"
proof (induction "False" xs i rule: findSseSeparator.induct)
  case (1 xs i)
  from "1.prems" have i: "i < length xs"
    by (subst (asm) findSseSeparator.simps) (simp split: if_splits)
  let ?first = "lineBreakLength False xs i"
  let ?second = "lineBreakLength False xs (i + ?first)"
  show ?case
  proof (cases "?first = 0")
    case True
    then have rest: "find_end False xs (i + 1) = Some (j, l)"
      using "1.prems" i find_end_here(1) by simp
    then have "i + 1 < length xs" using findSseSeparator_bounds by fastforce
    then have "lineBreakLength e (xs @ ys) i = 0" using True line_break_definite(1) [of i xs e ys False] by simp
    moreover have "i < length (xs @ ys)" using i by simp
    ultimately show ?thesis using "1.hyps"(1) [OF i refl True rest] find_end_here(1) by simp
  next
    case first: False
    then have first': "lineBreakLength e (xs @ ys) i = ?first" using line_break_definite(2) by blast
    show ?thesis
    proof (cases "?second > 0")
      case True
      then have "lineBreakLength e (xs @ ys) (i + ?first) = ?second" using line_break_definite(2) by blast
      then show ?thesis
        using "1.prems" i first first' True find_end_here(2) [of i xs False] find_end_here(2) [of i "xs @ ys" e]
        by auto
    next
      case False
      then have rest: "find_end False xs (i + ?first) = Some (j, l)"
        using "1.prems" i first find_end_here(3) by simp
      then have "i + ?first + 1 < length xs" using findSseSeparator_bounds by fastforce
      then have "lineBreakLength e (xs @ ys) (i + ?first) = 0"
        using False line_break_definite(1) [of "i + ?first" xs e ys False] by simp
      moreover have "i < length (xs @ ys)" using i by simp
      ultimately show ?thesis
        using "1.hyps"(2) [OF i refl first refl False rest] first first' find_end_here(3) [of i "xs @ ys" e] by simp
    qed
  qed
qed

text \<open>An end that lies before the last byte received was there to be found.\<close>

lemma find_end_early:
  "find_end e (xs @ ys) i = Some (j, l) \<Longrightarrow> j + l < length xs \<Longrightarrow> find_end False xs i = Some (j, l)"
proof (induction e "xs @ ys" i rule: findSseSeparator.induct)
  case (1 e i)
  note bounds = findSseSeparator_bounds [OF "1.prems"(1)]
  then have i: "i < length (xs @ ys)" "i < length xs" "i + 1 < length xs" using "1.prems"(2) by linarith+
  let ?first = "lineBreakLength e (xs @ ys) i"
  let ?second = "lineBreakLength e (xs @ ys) (i + ?first)"
  have first': "lineBreakLength False xs i = ?first" using line_break_definite(1) [OF i(3)] by metis
  show ?case
  proof (cases "?first = 0")
    case True
    then have "find_end e (xs @ ys) (i + 1) = Some (j, l)" using "1.prems"(1) i find_end_here(1) by simp
    from "1.hyps"(1) [OF i(1) refl True this "1.prems"(2)] show ?thesis
      using True first' i find_end_here(1) by simp
  next
    case first: False
    show ?thesis
    proof (cases "?second > 0")
      case True
      then have jl: "j = i" "l = ?first + ?second"
        using "1.prems"(1) i first find_end_here(2) [of i "xs @ ys" e] by auto
      then have "i + ?first + 1 < length xs" using "1.prems"(2) True by linarith
      then have "lineBreakLength False xs (i + ?first) = ?second" using line_break_definite(1) by metis
      then show ?thesis using True first first' i jl find_end_here(2) [of i xs False] by simp
    next
      case False
      then have rest: "find_end e (xs @ ys) (i + ?first) = Some (j, l)"
        using "1.prems"(1) i first find_end_here(3) [of i "xs @ ys" e] by simp
      have "i + ?first + 1 < length xs" using findSseSeparator_bounds [OF rest] "1.prems"(2) by linarith
      then have "lineBreakLength False xs (i + ?first) = 0" using False line_break_definite(1) by (metis gr0I)
      moreover have "find_end False xs (i + ?first) = Some (j, l)"
        by (rule "1.hyps"(2) [OF i(1) refl first refl False rest "1.prems"(2)])
      ultimately show ?thesis using first first' i find_end_here(3) [of i xs False] by simp
    qed
  qed
qed

text \<open>Looking from the last three bytes on finds what looking from the start would.\<close>

lemma find_end_resume:
  "find_end False xs i = None \<Longrightarrow> i \<le> length xs - 3 \<Longrightarrow>
     find_end False (xs @ [b]) i = find_end False (xs @ [b]) (length xs - 3)"
proof (induction "length xs - 3 - i" arbitrary: i rule: less_induct)
  case less
  show ?case
  proof (cases "i = length xs - 3")
    case False
    then have i: "i + 3 < length xs" "i < length xs" "i < length (xs @ [b])" using less.prems(2) by simp_all
    let ?first = "lineBreakLength False xs i"
    have first': "lineBreakLength False (xs @ [b]) i = ?first" using line_break_definite(1) [of i xs False "[b]" False] i by simp
    show ?thesis
    proof (cases "?first = 0")
      case True
      then have "find_end False xs (Suc i) = None" using less.prems(1) i find_end_here(1) [of i xs False] by simp
      then show ?thesis
        using less.hyps [of "Suc i"] True first' i find_end_here(1) [of i "xs @ [b]" False] by simp
    next
      case first: False
      have second: "lineBreakLength False xs (i + ?first) = 0"
        using less.prems(1) i first find_end_here(2) [of i xs False] by (metis gr0I option.distinct(1))
      have le2: "?first \<le> 2" by (rule line_break_le2)
      then have "i + ?first + 1 < length xs" using i(1) by linarith
      then have second': "lineBreakLength False (xs @ [b]) (i + ?first) = 0"
        using second line_break_definite(1) [of "i + ?first" xs False "[b]" False] by simp
      have rest: "find_end False xs (i + ?first) = None"
        "find_end False (xs @ [b]) i = find_end False (xs @ [b]) (i + ?first)"
        using less.prems(1) i first first' second second' find_end_here(3) [of i xs False]
          find_end_here(3) [of i "xs @ [b]" False] by simp_all
      show ?thesis
      proof (cases "i + ?first \<le> length xs - 3")
        case True
        then show ?thesis using less.hyps [of "i + ?first"] rest first i by simp
      next
        case False
        then have two: "?first = 2" "length xs - 3 = Suc i" using i le2 by linarith+
        then have "xs ! i = 13" "xs ! Suc i = 10"
          using i by (auto simp: lineBreakLength_def split: if_splits)
        then have "lineBreakLength False (xs @ [b]) (Suc i) = 1"
          using i by (simp add: lineBreakLength_def nth_append)
        then have "find_end False (xs @ [b]) (Suc i) = find_end False (xs @ [b]) (i + 2)"
          using second' two i find_end_here(3) [of "Suc i" "xs @ [b]" False] by simp
        then show ?thesis using rest two by simp
      qed
    qed
  qed simp
qed

section \<open>Splitting a whole stream\<close>

text \<open>The frames of a complete stream, each with the bytes it takes with its end.\<close>

function split_frames :: "8 word list \<Rightarrow> (8 word list \<times> nat) list" where
  "split_frames bytes =
     (case findSseSeparator True bytes 0 of
        None \<Rightarrow> if bytes = [] then [] else [(bytes, length bytes)]
      | Some (index, len) \<Rightarrow> (take index bytes, index + len) # split_frames (drop (index + len) bytes))"
  by pat_completeness auto
termination
  by (relation "measure length") (auto dest!: findSseSeparator_bounds)

declare split_frames.simps [simp del]

definition prepend :: "'r option \<Rightarrow> 'r list \<times> 'x \<Rightarrow> 'r list \<times> 'x" where
  "prepend r = (\<lambda>(rs, e). (case r of None \<Rightarrow> rs | Some x \<Rightarrow> x # rs, e))"

fun read_frames ::
    "(8 word list \<Rightarrow> 'e + 'r option) \<Rightarrow> (8 word list \<times> nat) list \<Rightarrow> 'r list \<times> 'e sse_error option" where
  "read_frames parse [] = ([], None)"
| "read_frames parse ((frame, taken) # frames) =
     (if taken > CMA_MAX_EVENT_BYTES then ([], Some FrameTooLarge)
      else case parse frame of
        Inl e \<Rightarrow> ([], Some (ParseError e))
      | Inr r \<Rightarrow> prepend r (read_frames parse frames))"

abbreviation read_stream ::
    "(8 word list \<Rightarrow> 'e + 'r option) \<Rightarrow> 8 word list \<Rightarrow> 'r list \<times> 'e sse_error option" where
  "read_stream parse bytes \<equiv> read_frames parse (split_frames bytes)"

lemma decode_tail_read:
  "length frame \<le> CMA_MAX_EVENT_BYTES \<Longrightarrow> decode_tail parse frame = read_stream parse frame"
proof (induction parse frame rule: decode_tail.induct)
  case (1 parse frame)
  show ?case
  proof (cases "findSseSeparator True frame 0")
    case None
    then show ?thesis
      using 1(2) by (subst decode_tail.simps, subst split_frames.simps)
        (auto simp: prepend_def split: sum.splits option.splits)
  next
    case (Some sep)
    obtain index len where sep: "sep = (index, len)" by (cases sep)
    have split: "split_frames frame = (take index frame, index + len) # split_frames (drop (index + len) frame)"
      using Some sep by (subst split_frames.simps) simp
    show ?thesis
    proof (cases "consume parse frame sep")
      case (Inl e)
      then show ?thesis
        using Some sep split by (subst decode_tail.simps) (auto simp: consume_def split: if_splits sum.splits)
    next
      case (Inr p)
      obtain frame' r where p: "p = (frame', r)" by (cases p)
      have c: "index + len \<le> CMA_MAX_EVENT_BYTES" "parse (take index frame) = Inr r" "frame' = drop (index + len) frame"
        using Inr p sep by (auto simp: consume_def split: if_splits sum.splits)
      have "decode_tail parse frame = prepend r (decode_tail parse frame')"
        using Some Inr p by (subst decode_tail.simps) (simp add: prepend_def Let_def split: prod.splits)
      moreover have "decode_tail parse frame' = read_stream parse frame'"
        using 1(1) [OF Some Inr p [symmetric]] 1(2) c(3) by simp
      ultimately show ?thesis using c split by simp
    qed
  qed
qed

section \<open>The incremental decoder splits the whole stream\<close>

text \<open>Between two bytes no end is in sight, and \<open>scanFrom\<close> leaves three bytes to look at again.\<close>

definition waiting :: "8 word list \<times> nat \<Rightarrow> bool" where
  "waiting st \<longleftrightarrow> findSseSeparator False (fst st) 0 = None \<and> snd st = length (fst st) - 3
     \<and> length (fst st) \<le> CMA_MAX_EVENT_BYTES"

lemma waiting_start: "waiting ([], 0)"
  by (simp add: waiting_def find_end_beyond)

lemma split_frames_Some:
  "findSseSeparator False xs 0 = Some (i, l) \<Longrightarrow>
     split_frames (xs @ ys) = (take i xs, i + l) # split_frames (drop (i + l) xs @ ys)"
  using find_end_stable [of xs 0 i l True ys] findSseSeparator_bounds [of False xs 0 i l]
  by (subst split_frames.simps) simp

lemma append_byte_split:
  assumes "waiting st"
  shows "case append_byte parse st b of
      Inl e \<Rightarrow> \<forall>ys. read_stream parse (fst st @ b # ys) = ([], Some e)
    | Inr (st', r) \<Rightarrow> waiting st' \<and>
        (\<forall>ys. read_stream parse (fst st @ b # ys) = prepend r (read_stream parse (fst st' @ ys)))"
proof -
  obtain frame scan where st: "st = (frame, scan)" by (cases st)
  let ?frame = "frame @ [b]"
  have w: "findSseSeparator False frame 0 = None" "scan = length frame - 3" "length frame \<le> CMA_MAX_EVENT_BYTES"
    using assms by (simp_all add: waiting_def st)
  have resume: "findSseSeparator False ?frame scan = findSseSeparator False ?frame 0"
    using find_end_resume [OF w(1), of b] w(2) by simp
  show ?thesis
  proof (cases "findSseSeparator False ?frame 0")
    case None
    show ?thesis
    proof (cases "length ?frame > CMA_MAX_EVENT_BYTES")
      case True
      have "read_stream parse (?frame @ ys) = ([], Some FrameTooLarge)" for ys
      proof (cases "findSseSeparator True (?frame @ ys) 0")
        case no: None
        then show ?thesis using True by (subst split_frames.simps) simp
      next
        case (Some p)
        obtain i l where p: "p = (i, l)" by (cases p)
        have "\<not> i + l < length ?frame"
          using find_end_early [of True ?frame ys 0 i l] Some p None by auto
        then show ?thesis using True Some p by (subst split_frames.simps) simp
      qed
      then show ?thesis using st w None resume True by (simp add: append_byte_def Let_def)
    next
      case False
      then have "append_byte parse st b = Inr ((?frame, length ?frame - 3), None)"
        using st w None resume by (simp add: append_byte_def Let_def)
      moreover have "waiting (?frame, length ?frame - 3)" using False None by (simp add: waiting_def)
      ultimately show ?thesis using st by (simp add: prepend_def)
    qed
  next
    case (Some p)
    obtain i l where p: "p = (i, l)" by (cases p)
    have split: "split_frames (?frame @ ys) = (take i ?frame, i + l) # split_frames (drop (i + l) ?frame @ ys)" for ys
      using split_frames_Some [of ?frame i l ys] Some p by (simp del: append_assoc)
    have "\<not> i + l < length frame"
      using find_end_early [of False frame "[b]" 0 i l] Some p w(1) by auto
    then have short: "length (drop (i + l) ?frame) \<le> 1" by simp
    have "findSseSeparator False (drop (i + l) ?frame) 0 = None"
    proof (rule ccontr)
      assume "findSseSeparator False (drop (i + l) ?frame) 0 \<noteq> None"
      then show False using findSseSeparator_bounds short by fastforce
    qed
    then have wait: "waiting (drop (i + l) ?frame, 0)"
      using short by (simp add: waiting_def CMA_MAX_EVENT_BYTES_def)
    have app: "append_byte parse st b = bindE (consume parse ?frame (i, l)) (\<lambda>(frame'', r). Inr ((frame'', 0), r))"
      using st w Some p resume by (simp add: append_byte_def Let_def)
    show ?thesis
    proof (cases "i + l > CMA_MAX_EVENT_BYTES")
      case True
      then show ?thesis using app split st by (simp add: consume_def)
    next
      case False
      then show ?thesis
        using app split st wait by (cases "parse (take i ?frame)") (simp_all add: consume_def)
    qed
  qed
qed

definition prepend_all :: "'r list \<Rightarrow> 'r list \<times> 'x \<Rightarrow> 'r list \<times> 'x" where
  "prepend_all rs p = (rs @ fst p, snd p)"

lemma append_bytes_split:
  "waiting st \<Longrightarrow> case append_bytes parse st bytes of
      Inl e \<Rightarrow> \<forall>ys. snd (read_stream parse (fst st @ bytes @ ys)) = Some e
    | Inr (st', rs) \<Rightarrow> waiting st' \<and>
        (\<forall>ys. read_stream parse (fst st @ bytes @ ys) = prepend_all rs (read_stream parse (fst st' @ ys)))"
proof (induction bytes arbitrary: st)
  case Nil
  then show ?case by (simp add: prepend_all_def)
next
  case (Cons b bytes)
  note step = append_byte_split [OF Cons.prems, of parse b]
  show ?case
  proof (cases "append_byte parse st b")
    case (Inl e)
    then show ?thesis using step by simp
  next
    case (Inr p)
    obtain st' r where p: "p = (st', r)" by (cases p)
    with Inr step have s: "waiting st'"
      "\<And>ys. read_stream parse (fst st @ b # ys) = prepend r (read_stream parse (fst st' @ ys))" by simp_all
    show ?thesis
    proof (cases "append_bytes parse st' bytes")
      case Inl': (Inl e)
      then show ?thesis
        using Cons.IH [OF s(1)] s(2) Inr p by (simp add: prepend_def case_prod_beta)
    next
      case Inr': (Inr q)
      obtain st'' rs where q: "q = (st'', rs)" by (cases q)
      then show ?thesis
        using Cons.IH [OF s(1)] s(2) Inr Inr' p
        by (cases r) (simp_all add: prepend_def prepend_all_def case_prod_beta)
    qed
  qed
qed

lemma decode_chunks_split:
  "waiting st \<Longrightarrow>
     \<exists>lost. read_stream parse (fst st @ concat chunks)
         = (fst (decode_chunks parse st chunks) @ lost, snd (decode_chunks parse st chunks))
       \<and> (snd (decode_chunks parse st chunks) = None \<longrightarrow> lost = [])"
proof (induction chunks arbitrary: st)
  case Nil
  then have "length (fst st) \<le> CMA_MAX_EVENT_BYTES" by (simp add: waiting_def)
  then show ?case
    by (intro exI [of _ "[]"]) (simp add: decode_tail_read)
next
  case (Cons chunk chunks)
  note step = append_bytes_split [OF Cons.prems, of parse chunk]
  show ?case
  proof (cases "append_bytes parse st chunk")
    case (Inl e)
    then have "snd (read_stream parse (fst st @ chunk @ concat chunks)) = Some e" using step by simp
    then show ?thesis using Inl by (cases "read_stream parse (fst st @ chunk @ concat chunks)") simp
  next
    case (Inr p)
    obtain st' rs where p: "p = (st', rs)" by (cases p)
    with Inr step have s: "waiting st'"
      "read_stream parse (fst st @ chunk @ concat chunks) = prepend_all rs (read_stream parse (fst st' @ concat chunks))"
      by simp_all
    obtain rs' e where D: "decode_chunks parse st' chunks = (rs', e)" by (cases "decode_chunks parse st' chunks")
    with Cons.IH [OF s(1)] obtain lost where
      "read_stream parse (fst st' @ concat chunks) = (rs' @ lost, e)" "e = None \<longrightarrow> lost = []" by auto
    moreover have "decode_chunks parse st (chunk # chunks) = (rs @ rs', e)" using Inr p D by simp
    ultimately show ?thesis using s(2) by (simp add: prepend_all_def)
  qed
qed

section \<open>Reading back what the server writes\<close>

text \<open>
  \<open>encodeCmaSseRecord\<close> of src/src/stores/cma-store.ts.  \<open>TextEncoder.encode\<close> and
  \<open>JSON.stringify\<close> are the parameters \<open>utf8\<close> and \<open>stringify\<close>.
\<close>

definition LF :: char where
  "LF = CHR 0x0A"

definition encodeCmaSseRecord ::
    "(string \<Rightarrow> 8 word list) \<Rightarrow> ('r \<Rightarrow> string) \<Rightarrow> ('r \<Rightarrow> string) \<Rightarrow> ('r \<Rightarrow> string) \<Rightarrow> 'r
      \<Rightarrow> unit + 8 word list" where
  "encodeCmaSseRecord utf8 stringify cursor event_type r =
     (let bytes = utf8 (''id: '' @ cursor r @ [LF] @ ''event: '' @ event_type r @ [LF]
                        @ ''data: '' @ stringify r @ [LF, LF])
      in if length bytes > CMA_MAX_EVENT_BYTES then Inl () else Inr bytes)"

definition one_line :: "string \<Rightarrow> bool" where
  "one_line t \<longleftrightarrow> LF \<notin> set t \<and> CHR 0x0D \<notin> set t"

text \<open>What the code relies on of UTF-8.\<close>

definition utf8_codec :: "(string \<Rightarrow> 8 word list) \<Rightarrow> (8 word list \<Rightarrow> string) \<Rightarrow> bool" where
  "utf8_codec utf8 decode \<longleftrightarrow>
     (\<forall>s t. utf8 (s @ t) = utf8 s @ utf8 t) \<and> (\<forall>t. decode (utf8 t) = t) \<and> utf8 [LF] = [10]
     \<and> (\<forall>t. one_line t \<longrightarrow> 10 \<notin> set (utf8 t) \<and> 13 \<notin> set (utf8 t))"

lemma line_break_none:
  "i < length xs \<Longrightarrow> xs ! i \<noteq> 10 \<Longrightarrow> xs ! i \<noteq> 13 \<Longrightarrow> lineBreakLength e xs i = 0"
  by (simp add: lineBreakLength_def)

lemma find_end_skip:
  "10 \<notin> set l \<Longrightarrow> 13 \<notin> set l \<Longrightarrow>
     find_end e (pre @ l @ rest) (length pre) = find_end e (pre @ l @ rest) (length (pre @ l))"
proof (induction l arbitrary: pre)
  case (Cons b l)
  have "find_end e (pre @ (b # l) @ rest) (length pre) = find_end e (pre @ (b # l) @ rest) (Suc (length pre))"
    using Cons.prems by (intro find_end_here(1) line_break_none) (auto simp: nth_append)
  also have "\<dots> = find_end e (pre @ (b # l) @ rest) (length (pre @ b # l))"
    using Cons.IH [of "pre @ [b]"] Cons.prems by simp
  finally show ?case .
qed simp

text \<open>A break between two lines of a frame is passed over, the empty line ends it.\<close>

lemma find_end_line:
  assumes "b \<noteq> 10" "b \<noteq> 13"
  shows "find_end e (pre @ 10 # b # rest) (length pre) = find_end e (pre @ 10 # b # rest) (length (pre @ [10]))"
proof -
  have "lineBreakLength e (pre @ 10 # b # rest) (length pre) = 1"
    by (simp add: lineBreakLength_def nth_append)
  moreover have "lineBreakLength e (pre @ 10 # b # rest) (Suc (length pre)) = 0"
    using assms by (intro line_break_none) (simp_all add: nth_append)
  ultimately show ?thesis using find_end_here(3) [of "length pre" "pre @ 10 # b # rest" e] by simp
qed

lemma find_end_empty_line: "find_end e (pre @ 10 # 10 # rest) (length pre) = Some (length pre, 2)"
proof -
  have "lineBreakLength e (pre @ 10 # 10 # rest) (length pre) = 1"
    "lineBreakLength e (pre @ 10 # 10 # rest) (Suc (length pre)) = 1"
    by (simp_all add: lineBreakLength_def nth_append)
  then show ?thesis using find_end_here(2) [of "length pre" "pre @ 10 # 10 # rest" e] by simp
qed

lemma find_end_three_lines:
  assumes "\<forall>l\<in>{a, b, c}. l \<noteq> [] \<and> 10 \<notin> set l \<and> 13 \<notin> set l"
  shows "find_end e (a @ 10 # b @ 10 # c @ 10 # 10 # rest) 0 = Some (length (a @ 10 # b @ 10 # c), 2)"
proof -
  obtain b0 b' c0 c' where bc: "b = b0 # b'" "c = c0 # c'" using assms by (cases b; cases c) auto
  have "find_end e (a @ 10 # b @ 10 # c @ 10 # 10 # rest) 0
      = find_end e (a @ 10 # b @ 10 # c @ 10 # 10 # rest) (length a)"
    using assms find_end_skip [of a e "[]" "10 # b @ 10 # c @ 10 # 10 # rest"] by simp
  also have "\<dots> = find_end e (a @ 10 # b @ 10 # c @ 10 # 10 # rest) (length (a @ [10]))"
    using assms bc find_end_line [of b0 e a "b' @ 10 # c @ 10 # 10 # rest"] by simp
  also have "\<dots> = find_end e (a @ 10 # b @ 10 # c @ 10 # 10 # rest) (length (a @ 10 # b))"
    using assms find_end_skip [of b e "a @ [10]" "10 # c @ 10 # 10 # rest"] by simp
  also have "\<dots> = find_end e (a @ 10 # b @ 10 # c @ 10 # 10 # rest) (length (a @ 10 # b @ [10]))"
    using assms bc find_end_line [of c0 e "a @ 10 # b" "c' @ 10 # 10 # rest"] by simp
  also have "\<dots> = find_end e (a @ 10 # b @ 10 # c @ 10 # 10 # rest) (length (a @ 10 # b @ 10 # c))"
    using assms find_end_skip [of c e "a @ 10 # b @ [10]" "10 # 10 # rest"] by simp
  also have "\<dots> = Some (length (a @ 10 # b @ 10 # c), 2)"
    using find_end_empty_line [of e "a @ 10 # b @ 10 # c" rest] by simp
  finally show ?thesis .
qed

lemma split_frames_three_lines:
  assumes "\<forall>l\<in>{a, b, c}. l \<noteq> [] \<and> 10 \<notin> set l \<and> 13 \<notin> set l"
  shows "split_frames (a @ 10 # b @ 10 # c @ 10 # 10 # rest)
    = (a @ 10 # b @ 10 # c, length (a @ 10 # b @ 10 # c) + 2) # split_frames rest"
  using find_end_three_lines [OF assms, of True rest] by (subst split_frames.simps) simp

lemma split_lines_line: "one_line l \<Longrightarrow> split_lines (l @ LF # rest) = l # split_lines rest"
  by (induction l) (auto simp: one_line_def LF_def split: list.splits)

lemma split_lines_last: "one_line l \<Longrightarrow> split_lines l = [l]"
  by (induction l) (auto simp: one_line_def LF_def split: list.splits)

lemma parseSseRecord_encoded:
  assumes "one_line c" "one_line t" "one_line j" "j = CHR ''{'' # j'" "json j = Inr r"
    "decode frame = ''id: '' @ c @ LF # ''event: '' @ t @ LF # ''data: '' @ j"
  shows "parseSseRecord decode json frame = Inr (Some r)"
proof -
  have one: "one_line (''id: '' @ c)" "one_line (''event: '' @ t)" "one_line (''data: '' @ j)"
    using assms(1-3) by (auto simp: one_line_def LF_def)
  have "split_lines (decode frame) = [''id: '' @ c, ''event: '' @ t, ''data: '' @ j]"
    using split_lines_line [OF one(1), of "''event: '' @ t @ LF # ''data: '' @ j"]
      split_lines_line [OF one(2), of "''data: '' @ j"] split_lines_last [OF one(3)] assms(6) by simp
  moreover have "trimStart ('' '' @ j) = j" using assms(4) by (simp add: trimStart_def is_space_def)
  ultimately show ?thesis using assms(5) by (simp add: parseSseRecord_def Let_def)
qed

text \<open>A record whose texts have one line and whose JSON text is an object it can be read from.\<close>

definition encodable ::
    "('r \<Rightarrow> string) \<Rightarrow> ('r \<Rightarrow> string) \<Rightarrow> ('r \<Rightarrow> string) \<Rightarrow> (string \<Rightarrow> 'e + 'r) \<Rightarrow> 'r \<Rightarrow> bool" where
  "encodable stringify cursor event_type json r \<longleftrightarrow>
     one_line (cursor r) \<and> one_line (event_type r) \<and> one_line (stringify r)
     \<and> take 1 (stringify r) = ''{'' \<and> json (stringify r) = Inr r"

lemma read_encoded:
  assumes codec: "utf8_codec utf8 decode"
  shows "mapE (encodeCmaSseRecord utf8 stringify cursor event_type) rs = Inr frames \<Longrightarrow>
    list_all (encodable stringify cursor event_type json) rs \<Longrightarrow>
    read_stream (parseSseRecord decode json) (concat frames) = (rs, None)"
proof (induction rs arbitrary: frames)
  case Nil
  then show ?case by (simp add: split_frames.simps find_end_beyond)
next
  case (Cons r rs)
  define a where "a = utf8 (''id: '' @ cursor r)"
  define b where "b = utf8 (''event: '' @ event_type r)"
  define c where "c = utf8 (''data: '' @ stringify r)"
  from codec have u: "\<And>s t. utf8 (s @ t) = utf8 s @ utf8 t" "\<And>t. decode (utf8 t) = t" "utf8 [LF] = [10]"
    "\<And>t. one_line t \<Longrightarrow> 10 \<notin> set (utf8 t) \<and> 13 \<notin> set (utf8 t)"
    by (auto simp: utf8_codec_def)
  have enc: "one_line (cursor r)" "one_line (event_type r)" "one_line (stringify r)"
    "take 1 (stringify r) = ''{''" "json (stringify r) = Inr r"
    using Cons.prems(2) by (simp_all add: encodable_def)
  have nonempty: "utf8 t \<noteq> []" if "t \<noteq> []" for t
    using u(1) [of "[]" "[]"] u(2) [of t] u(2) [of "[]"] that by auto
  have lines: "\<forall>l\<in>{a, b, c}. l \<noteq> [] \<and> 10 \<notin> set l \<and> 13 \<notin> set l"
    using nonempty u(4) [of "''id: '' @ cursor r"] u(4) [of "''event: '' @ event_type r"]
      u(4) [of "''data: '' @ stringify r"] enc(1-3)
    by (simp add: a_def b_def c_def one_line_def LF_def)
  have enc_text: "utf8 (''id: '' @ cursor r @ [LF] @ ''event: '' @ event_type r @ [LF]
      @ ''data: '' @ stringify r @ [LF, LF]) = a @ 10 # b @ 10 # c @ [10, 10]"
  proof -
    have eq: "''id: '' @ cursor r @ [LF] @ ''event: '' @ event_type r @ [LF] @ ''data: '' @ stringify r @ [LF, LF]
      = (''id: '' @ cursor r) @ [LF] @ (''event: '' @ event_type r) @ [LF] @ (''data: '' @ stringify r) @ [LF] @ [LF]"
      by simp
    show ?thesis unfolding eq a_def b_def c_def by (simp only: u(1,3)) simp
  qed
  from Cons.prems(1) obtain bytes frames' where f: "frames = bytes # frames'"
    "encodeCmaSseRecord utf8 stringify cursor event_type r = Inr bytes"
    "mapE (encodeCmaSseRecord utf8 stringify cursor event_type) rs = Inr frames'" by auto
  have bytes: "bytes = a @ 10 # b @ 10 # c @ [10, 10]" "length bytes \<le> CMA_MAX_EVENT_BYTES"
    using f(2) unfolding encodeCmaSseRecord_def Let_def enc_text by (auto split: if_splits)
  have dec: "decode (a @ 10 # b @ 10 # c) = ''id: '' @ cursor r @ LF # ''event: '' @ event_type r @ LF # ''data: '' @ stringify r"
  proof -
    have "a @ 10 # b @ 10 # c = utf8 ((''id: '' @ cursor r) @ [LF] @ (''event: '' @ event_type r) @ [LF] @ (''data: '' @ stringify r))"
      unfolding a_def b_def c_def by (simp only: u(1,3)) simp
    then show ?thesis by (simp add: u(2))
  qed
  obtain j' where "stringify r = CHR ''{'' # j'" using enc(4) by (cases "stringify r") simp_all
  then have parse: "parseSseRecord decode json (a @ 10 # b @ 10 # c) = Inr (Some r)"
    using parseSseRecord_encoded [of "cursor r" "event_type r" "stringify r" j' json r decode "a @ 10 # b @ 10 # c"]
      enc(1-3,5) dec by (simp only:)
  have rest: "read_stream (parseSseRecord decode json) (concat frames') = (rs, None)"
    using Cons.IH f(3) Cons.prems(2) by simp
  have "split_frames (concat frames) = (a @ 10 # b @ 10 # c, length (a @ 10 # b @ 10 # c) + 2) # split_frames (concat frames')"
    using split_frames_three_lines [OF lines, of "concat frames'"] f(1) bytes(1) by simp
  then show ?case using parse rest bytes by (simp add: prepend_def)
qed

end
