(* ===== verification/Citation_Filter.thy ===== *)
theory Citation_Filter
  imports Driver_Prelude "HOL-Library.Word"
begin

text \<open>
  src/src/runtimes/openai/private-citation-filter.ts: the filter that takes the private
  citation markup out of a model's text, on a whole text and on a stream of deltas.  A
  text is the list of its UTF-16 code units, which is what the code's lengths and indices
  count.  The second half shows that the stream filter is the filter of the whole text.
\<close>

type_synonym utf16 = "16 word list"

section \<open>The code\<close>

definition MARKUP_START :: "16 word" where
  "MARKUP_START = 0xE200"

definition MARKUP_END :: "16 word" where
  "MARKUP_END = 0xE201"

text \<open>The start, the letters of \<open>cite\<close>, and U+E202.\<close>

definition CITATION_PREFIX :: utf16 where
  "CITATION_PREFIX = [MARKUP_START, 0x63, 0x69, 0x74, 0x65, 0xE202]"

definition MAX_PENDING_PRIVATE_CITATION_CHARS :: nat where
  "MAX_PENDING_PRIVATE_CITATION_CHARS = 4096"

record scan_result =
  sc_text :: utf16
  sc_count :: nat
  sc_pending :: utf16

text \<open>
  \<open>scanOpenAiPrivateCitations\<close> from the cursor on: what the rest of the loop adds to the
  text and to the count, and the markup it leaves pending.
\<close>

definition starts_with :: "utf16 \<Rightarrow> utf16 \<Rightarrow> bool" where
  "starts_with t p \<longleftrightarrow> take (length p) t = p"

function scan :: "bool \<Rightarrow> utf16 \<Rightarrow> scan_result" where
  "scan preserveIncompleteMarkup t =
     (let before = takeWhile (\<lambda>u. u \<noteq> MARKUP_START) t;
          remaining = dropWhile (\<lambda>u. u \<noteq> MARKUP_START) t
      in if remaining = [] then \<lparr>sc_text = t, sc_count = 0, sc_pending = []\<rparr>
         else if preserveIncompleteMarkup \<and> starts_with CITATION_PREFIX remaining
         then \<lparr>sc_text = before, sc_count = 0, sc_pending = remaining\<rparr>
         else if \<not> starts_with remaining CITATION_PREFIX
         then
           let r = scan preserveIncompleteMarkup (tl remaining)
           in r\<lparr>sc_text := before @ MARKUP_START # sc_text r\<rparr>
         else
           let ending = dropWhile (\<lambda>u. u \<noteq> MARKUP_END) (drop (length CITATION_PREFIX) remaining)
           in if ending = [] then
                if preserveIncompleteMarkup
                then \<lparr>sc_text = before, sc_count = 0, sc_pending = remaining\<rparr>
                else \<lparr>sc_text = before @ remaining, sc_count = 0, sc_pending = []\<rparr>
              else
                let r = scan preserveIncompleteMarkup (tl ending)
                in r\<lparr>sc_text := before @ sc_text r, sc_count := Suc (sc_count r)\<rparr>)"
  by pat_completeness auto
termination
proof (relation "measure (\<lambda>(preserve, t). length t)", goal_cases)
  case (2 preserve t before remaining)
  then have "remaining \<noteq> []" "length remaining \<le> length t" by (simp_all add: length_dropWhile_le)
  then have "length (tl remaining) < length t" by (cases remaining) simp_all
  then show ?case by simp
next
  case (3 preserve t before remaining ending)
  then have "remaining \<noteq> []" "length remaining \<le> length t" by (simp_all add: length_dropWhile_le)
  moreover have "ending \<noteq> []" "length ending \<le> length (drop (length CITATION_PREFIX) remaining)"
    using 3 length_dropWhile_le [of "\<lambda>u. u \<noteq> MARKUP_END" "drop (length CITATION_PREFIX) remaining"] by simp_all
  ultimately have "length (tl ending) < length t" by (cases ending) simp_all
  then show ?case by simp
qed simp

declare scan.simps [simp del]

record filter_result =
  fr_count :: nat
  fr_text :: utf16

definition filterOpenAiPrivateCitations :: "utf16 \<Rightarrow> filter_result" where
  "filterOpenAiPrivateCitations t =
     (let r = scan False t in \<lparr>fr_count = sc_count r, fr_text = sc_text r\<rparr>)"

record stream_filter =
  sf_discardUntilEnd :: bool
  sf_pendingMarkup :: utf16

definition new_stream_filter :: stream_filter where
  "new_stream_filter = \<lparr>sf_discardUntilEnd = False, sf_pendingMarkup = []\<rparr>"

definition filter_push :: "utf16 \<Rightarrow> stream_filter \<Rightarrow> stream_filter \<times> filter_result" where
  "filter_push delta f =
     (let ending = dropWhile (\<lambda>u. u \<noteq> MARKUP_END) delta in
      if sf_discardUntilEnd f \<and> ending = [] then (f, \<lparr>fr_count = 0, fr_text = []\<rparr>)
      else
        let discarded = (if sf_discardUntilEnd f then 1 else 0);
            input = (if sf_discardUntilEnd f then tl ending else delta);
            r = scan True (sf_pendingMarkup f @ input);
            f' = (if length (sc_pending r) > MAX_PENDING_PRIVATE_CITATION_CHARS
                  then \<lparr>sf_discardUntilEnd = True, sf_pendingMarkup = []\<rparr>
                  else \<lparr>sf_discardUntilEnd = False, sf_pendingMarkup = sc_pending r\<rparr>)
        in (f', \<lparr>fr_count = discarded + sc_count r, fr_text = sc_text r\<rparr>))"

definition previewFinish :: "stream_filter \<Rightarrow> filter_result" where
  "previewFinish f =
     (if sf_discardUntilEnd f then \<lparr>fr_count = 0, fr_text = []\<rparr>
      else let r = scan False (sf_pendingMarkup f) in \<lparr>fr_count = sc_count r, fr_text = sc_text r\<rparr>)"

definition filter_finish :: "stream_filter \<Rightarrow> stream_filter \<times> filter_result" where
  "filter_finish f = (new_stream_filter, previewFinish f)"

text \<open>All that a stream filter returns for the deltas of a message.\<close>

fun filter_stream :: "stream_filter \<Rightarrow> utf16 list \<Rightarrow> stream_filter \<times> filter_result" where
  "filter_stream f [] = (f, \<lparr>fr_count = 0, fr_text = []\<rparr>)"
| "filter_stream f (delta # deltas) =
     (let (f', r) = filter_push delta f;
          (f'', r') = filter_stream f' deltas
      in (f'', \<lparr>fr_count = fr_count r + fr_count r', fr_text = fr_text r @ fr_text r'\<rparr>))"

section \<open>Scanning a text in two parts\<close>

definition after_text :: "utf16 \<Rightarrow> nat \<Rightarrow> scan_result \<Rightarrow> scan_result" where
  "after_text t n r = r\<lparr>sc_text := t @ sc_text r, sc_count := n + sc_count r\<rparr>"

lemma after_text_twice [simp]: "after_text t n (after_text t' n' r) = after_text (t @ t') (n + n') r"
  by (simp add: after_text_def)

lemma after_text_nothing [simp]: "after_text [] 0 r = r"
  by (simp add: after_text_def)

lemma prefix_length [simp]: "length CITATION_PREFIX = 6"
  by (simp add: CITATION_PREFIX_def)

text \<open>The cases of a step of the scan, for a text split at its first markup start.\<close>

lemma scan_plain:
  assumes "MARKUP_START \<notin> set t"
  shows "scan e t = \<lparr>sc_text = t, sc_count = 0, sc_pending = []\<rparr>"
  using assms by (subst scan.simps) (auto simp: Let_def dropWhile_eq_Nil_conv)

lemma scan_text:
  assumes "MARKUP_START \<notin> set t"
  shows "scan e (t @ MARKUP_START # rest) = after_text t 0 (scan e (MARKUP_START # rest))"
proof -
  have "\<forall>u\<in>set t. u \<noteq> MARKUP_START" using assms by blast
  then have "takeWhile (\<lambda>u. u \<noteq> MARKUP_START) (t @ MARKUP_START # rest) = t"
    "dropWhile (\<lambda>u. u \<noteq> MARKUP_START) (t @ MARKUP_START # rest) = MARKUP_START # rest"
    by (simp_all add: takeWhile_append2 dropWhile_append2)
  then show ?thesis
    unfolding scan.simps [of e "t @ MARKUP_START # rest"] scan.simps [of e "MARKUP_START # rest"]
    by (auto simp: Let_def after_text_def)
qed

lemma scan_not_citation:
  assumes "\<not> starts_with (MARKUP_START # rest) CITATION_PREFIX"
    "e \<longrightarrow> \<not> starts_with CITATION_PREFIX (MARKUP_START # rest)"
  shows "scan e (MARKUP_START # rest) = after_text [MARKUP_START] 0 (scan e rest)"
  using assms by (subst scan.simps) (auto simp: Let_def after_text_def)

lemma scan_incomplete:
  "starts_with CITATION_PREFIX (MARKUP_START # rest) \<Longrightarrow>
     scan True (MARKUP_START # rest) = \<lparr>sc_text = [], sc_count = 0, sc_pending = MARKUP_START # rest\<rparr>"
  by (subst scan.simps) (simp add: Let_def)

lemma scan_open_citation:
  assumes "MARKUP_END \<notin> set body"
  shows "scan e (CITATION_PREFIX @ body) =
    (if e then \<lparr>sc_text = [], sc_count = 0, sc_pending = CITATION_PREFIX @ body\<rparr>
     else \<lparr>sc_text = CITATION_PREFIX @ body, sc_count = 0, sc_pending = []\<rparr>)"
proof -
  have "dropWhile (\<lambda>u. u \<noteq> MARKUP_END) body = []" using assms by (auto simp: dropWhile_eq_Nil_conv)
  then show ?thesis
    by (subst scan.simps) (simp add: Let_def CITATION_PREFIX_def starts_with_def)
qed

lemma scan_citation:
  assumes "MARKUP_END \<notin> set body"
  shows "scan e (CITATION_PREFIX @ body @ MARKUP_END # rest) = after_text [] 1 (scan e rest)"
proof -
  have "dropWhile (\<lambda>u. u \<noteq> MARKUP_END) (body @ MARKUP_END # rest) = MARKUP_END # rest"
    using assms by (subst dropWhile_append2) auto
  moreover have "\<not> starts_with CITATION_PREFIX (CITATION_PREFIX @ body @ MARKUP_END # rest)"
    by (simp add: starts_with_def CITATION_PREFIX_def)
  ultimately show ?thesis
    by (subst scan.simps) (simp add: Let_def CITATION_PREFIX_def starts_with_def after_text_def)
qed

text \<open>Every text is one of these.\<close>

lemma scan_induct [case_names plain skip markup opened closed]:
  assumes plain: "\<And>t. MARKUP_START \<notin> set t \<Longrightarrow> P t"
    and skip: "\<And>t rest. t \<noteq> [] \<Longrightarrow> MARKUP_START \<notin> set t \<Longrightarrow> P (MARKUP_START # rest) \<Longrightarrow> P (t @ MARKUP_START # rest)"
    and markup: "\<And>rest. \<not> starts_with (MARKUP_START # rest) CITATION_PREFIX \<Longrightarrow> P rest \<Longrightarrow> P (MARKUP_START # rest)"
    and opened: "\<And>body. MARKUP_END \<notin> set body \<Longrightarrow> P (CITATION_PREFIX @ body)"
    and closed: "\<And>body rest. MARKUP_END \<notin> set body \<Longrightarrow> P rest \<Longrightarrow> P (CITATION_PREFIX @ body @ MARKUP_END # rest)"
  shows "P t"
proof (induction t rule: length_induct)
  case (1 t)
  have start: "P (MARKUP_START # rest)" if "length (MARKUP_START # rest) \<le> length t" for rest
  proof (cases "starts_with (MARKUP_START # rest) CITATION_PREFIX")
    case False
    have "P rest" using 1 that by simp
    with False show ?thesis by (rule markup)
  next
    case True
    then obtain body where b: "MARKUP_START # rest = CITATION_PREFIX @ body"
      unfolding starts_with_def by (metis append_take_drop_id)
    show ?thesis
    proof (cases "MARKUP_END \<in> set body")
      case False
      then show ?thesis unfolding b by (rule opened)
    next
      case True
      then obtain xs ys where xy: "body = xs @ MARKUP_END # ys" "MARKUP_END \<notin> set xs"
        by (meson split_list_first)
      have "length ys < length (MARKUP_START # rest)" unfolding b xy by simp
      then have "P ys" using 1 that by simp
      then show ?thesis unfolding b xy by (rule closed [OF xy(2)])
    qed
  qed
  show ?case
  proof (cases "MARKUP_START \<in> set t")
    case False then show ?thesis by (rule plain)
  next
    case True
    then obtain xs ys where xy: "t = xs @ MARKUP_START # ys" "MARKUP_START \<notin> set xs"
      by (meson split_list_first)
    have "P (MARKUP_START # ys)" using start [of ys] xy by simp
    then show ?thesis unfolding xy(1) using skip [OF _ xy(2)] by (cases "xs = []") simp_all
  qed
qed

text \<open>
  Scanning a first part leaves nothing out: the whole text gives what the first part gave,
  then what the pending markup gives with the rest.
\<close>

lemma starts_with_iff: "starts_with t p \<longleftrightarrow> (\<exists>u. t = p @ u)"
  unfolding starts_with_def by (metis append_eq_conv_conj append_take_drop_id)

lemma prefix_of_prefix:
  assumes "\<not> starts_with t p" "\<not> starts_with p t"
  shows "\<not> starts_with (t @ u) p" "\<not> starts_with p (t @ u)"
  using assms by (auto simp: starts_with_iff append_eq_append_conv2)

lemma scan_append:
  "scan e (t @ u) = after_text (sc_text (scan True t)) (sc_count (scan True t)) (scan e (sc_pending (scan True t) @ u))"
proof (induction t rule: scan_induct)
  case (plain t)
  show ?case
  proof (cases "MARKUP_START \<in> set u")
    case False
    then show ?thesis using plain by (simp add: scan_plain after_text_def)
  next
    case True
    then obtain xs ys where u: "u = xs @ MARKUP_START # ys" "MARKUP_START \<notin> set xs"
      by (meson split_list_first)
    then have "scan e (t @ u) = after_text (t @ xs) 0 (scan e (MARKUP_START # ys))"
      using scan_text [of "t @ xs" e ys] plain by simp
    moreover have "scan e u = after_text xs 0 (scan e (MARKUP_START # ys))" using scan_text u by simp
    ultimately show ?thesis using plain by (simp add: scan_plain)
  qed
next
  case (skip t rest)
  have "scan e (t @ MARKUP_START # rest @ u) = after_text t 0 (scan e ((MARKUP_START # rest) @ u))"
    using scan_text [OF skip(2)] by simp
  moreover have "scan True (t @ MARKUP_START # rest) = after_text t 0 (scan True (MARKUP_START # rest))"
    using scan_text [OF skip(2)] by simp
  ultimately show ?case using skip(3) by (simp add: after_text_def)
next
  case (markup rest)
  show ?case
  proof (cases "starts_with CITATION_PREFIX (MARKUP_START # rest)")
    case True
    then show ?thesis by (simp add: scan_incomplete)
  next
    case False
    note no = prefix_of_prefix [OF markup(1) False, of u]
    have "scan e (MARKUP_START # rest @ u) = after_text [MARKUP_START] 0 (scan e (rest @ u))"
      using scan_not_citation [of "rest @ u" e] no by simp
    moreover have "scan True (MARKUP_START # rest) = after_text [MARKUP_START] 0 (scan True rest)"
      using scan_not_citation [of rest True] markup(1) False by simp
    ultimately show ?thesis using markup(2) by (simp add: after_text_def)
  qed
next
  case (opened body)
  then show ?case by (simp add: scan_open_citation)
next
  case (closed body rest)
  then show ?case
    using scan_citation [OF closed(1), of e "rest @ u"] scan_citation [OF closed(1), of True rest]
    by (simp add: after_text_def)
qed

section \<open>The stream filter\<close>

text \<open>What a scan may leave pending: a part of the prefix, or a citation without an end.\<close>

lemma pending_shape:
  "starts_with CITATION_PREFIX (sc_pending (scan True t))
   \<or> (\<exists>body. sc_pending (scan True t) = CITATION_PREFIX @ body \<and> MARKUP_END \<notin> set body)"
proof (induction t rule: scan_induct)
  case (plain t)
  then show ?case by (simp add: scan_plain starts_with_def)
next
  case (skip t rest)
  then show ?case by (simp add: scan_text after_text_def)
next
  case (markup rest)
  then show ?case
    by (cases "starts_with CITATION_PREFIX (MARKUP_START # rest)")
      (simp_all add: scan_incomplete scan_not_citation after_text_def)
next
  case (opened body)
  then show ?case by (simp add: scan_open_citation)
next
  case (closed body rest)
  then show ?case by (simp add: scan_citation after_text_def)
qed

lemma pending_long:
  assumes "length (sc_pending (scan True t)) > MAX_PENDING_PRIVATE_CITATION_CHARS"
  obtains body where "sc_pending (scan True t) = CITATION_PREFIX @ body" "MARKUP_END \<notin> set body"
proof -
  have "\<not> starts_with CITATION_PREFIX (sc_pending (scan True t))"
    using assms by (auto simp: starts_with_iff MAX_PENDING_PRIVATE_CITATION_CHARS_def dest!: arg_cong [of _ _ length])
  then show ?thesis using pending_shape [of t] that by blast
qed

text \<open>The markup the filter has taken in and not answered for.\<close>

definition stands_for :: "stream_filter \<Rightarrow> utf16 \<Rightarrow> bool" where
  "stands_for f m \<longleftrightarrow>
     (if sf_discardUntilEnd f
      then sf_pendingMarkup f = [] \<and> length m > MAX_PENDING_PRIVATE_CITATION_CHARS
        \<and> (\<exists>body. m = CITATION_PREFIX @ body \<and> MARKUP_END \<notin> set body)
      else m = sf_pendingMarkup f)"

lemma push_scanned:
  assumes "f' = (if length (sc_pending (scan True t)) > MAX_PENDING_PRIVATE_CITATION_CHARS
      then \<lparr>sf_discardUntilEnd = True, sf_pendingMarkup = []\<rparr>
      else \<lparr>sf_discardUntilEnd = False, sf_pendingMarkup = sc_pending (scan True t)\<rparr>)"
  shows "stands_for f' (sc_pending (scan True t))"
  using assms by (auto simp: stands_for_def intro: pending_long)

lemma filter_push_step:
  assumes "stands_for f m" "filter_push delta f = (f', r)"
  obtains m' where "stands_for f' m'"
    "\<And>e u. scan e (m @ delta @ u) = after_text (fr_text r) (fr_count r) (scan e (m' @ u))"
proof (cases "sf_discardUntilEnd f")
  case False
  let ?t = "m @ delta"
  have r: "r = \<lparr>fr_count = sc_count (scan True ?t), fr_text = sc_text (scan True ?t)\<rparr>"
    and f': "f' = (if length (sc_pending (scan True ?t)) > MAX_PENDING_PRIVATE_CITATION_CHARS
      then \<lparr>sf_discardUntilEnd = True, sf_pendingMarkup = []\<rparr>
      else \<lparr>sf_discardUntilEnd = False, sf_pendingMarkup = sc_pending (scan True ?t)\<rparr>)"
    using assms False by (auto simp: filter_push_def stands_for_def Let_def)
  have "scan e (m @ delta @ u) = after_text (fr_text r) (fr_count r) (scan e (sc_pending (scan True ?t) @ u))" for e u
    using scan_append [of e ?t u] by (simp add: r)
  then show ?thesis by (rule that [OF push_scanned [OF f']])
next
  case True
  with assms(1) obtain body where b: "m = CITATION_PREFIX @ body" "MARKUP_END \<notin> set body"
    "sf_pendingMarkup f = []" "length m > MAX_PENDING_PRIVATE_CITATION_CHARS"
    by (auto simp: stands_for_def)
  show ?thesis
  proof (cases "MARKUP_END \<in> set delta")
    case False
    then have "dropWhile (\<lambda>u. u \<noteq> MARKUP_END) delta = []" by (auto simp: dropWhile_eq_Nil_conv)
    then have "f' = f" "r = \<lparr>fr_count = 0, fr_text = []\<rparr>"
      using assms(2) True by (simp_all add: filter_push_def Let_def)
    moreover have "stands_for f (m @ delta)"
      using True False b by (auto simp: stands_for_def)
    ultimately show ?thesis using that [of "m @ delta"] by simp
  next
    case end_in: True
    then obtain xs ys where d: "delta = xs @ MARKUP_END # ys" "MARKUP_END \<notin> set xs"
      by (meson split_list_first)
    then have "dropWhile (\<lambda>u. u \<noteq> MARKUP_END) delta = MARKUP_END # ys"
      by (subst d(1), subst dropWhile_append2) auto
    then have r: "r = \<lparr>fr_count = 1 + sc_count (scan True ys), fr_text = sc_text (scan True ys)\<rparr>"
      and f': "f' = (if length (sc_pending (scan True ys)) > MAX_PENDING_PRIVATE_CITATION_CHARS
        then \<lparr>sf_discardUntilEnd = True, sf_pendingMarkup = []\<rparr>
        else \<lparr>sf_discardUntilEnd = False, sf_pendingMarkup = sc_pending (scan True ys)\<rparr>)"
      using assms(2) True b(3) by (auto simp: filter_push_def Let_def)
    have "scan e (m @ delta @ u) = after_text (fr_text r) (fr_count r) (scan e (sc_pending (scan True ys) @ u))" for e u
    proof -
      have "MARKUP_END \<notin> set (body @ xs)" using b(2) d(2) by simp
      then have "scan e (m @ delta @ u) = after_text [] 1 (scan e (ys @ u))"
        using scan_citation [of "body @ xs" e "ys @ u"] b(1) d(1) by simp
      then show ?thesis by (simp add: scan_append [of e ys u] r)
    qed
    then show ?thesis by (rule that [OF push_scanned [OF f']])
  qed
qed

lemma filter_stream_scan:
  "stands_for f m \<Longrightarrow> filter_stream f deltas = (f', r) \<Longrightarrow>
     \<exists>m'. stands_for f' m' \<and> scan e (m @ concat deltas) = after_text (fr_text r) (fr_count r) (scan e m')"
proof (induction deltas arbitrary: f m r f')
  case Nil
  then show ?case by (intro exI [of _ m]) auto
next
  case (Cons delta deltas)
  obtain f1 r1 where p: "filter_push delta f = (f1, r1)" by (cases "filter_push delta f")
  obtain f2 r2 where q: "filter_stream f1 deltas = (f2, r2)" by (cases "filter_stream f1 deltas")
  from Cons.prems(1) p obtain m1 where m1: "stands_for f1 m1"
    "\<And>e u. scan e (m @ delta @ u) = after_text (fr_text r1) (fr_count r1) (scan e (m1 @ u))"
    by (rule filter_push_step) blast
  have "f' = f2" "r = \<lparr>fr_count = fr_count r1 + fr_count r2, fr_text = fr_text r1 @ fr_text r2\<rparr>"
    using Cons.prems(2) p q by simp_all
  with Cons.IH [OF m1(1) q] show ?case by (auto simp: m1(2))
qed

lemma filter_stream_result:
  assumes "filter_stream new_stream_filter deltas = (f, r)"
  shows "\<exists>lost. filterOpenAiPrivateCitations (concat deltas)
       = \<lparr>fr_count = fr_count r + fr_count (previewFinish f),
          fr_text = fr_text r @ fr_text (previewFinish f) @ lost\<rparr>
     \<and> (if sf_discardUntilEnd f
         then starts_with lost CITATION_PREFIX \<and> MARKUP_END \<notin> set lost
           \<and> length lost > MAX_PENDING_PRIVATE_CITATION_CHARS
         else lost = [])"
proof -
  have "stands_for new_stream_filter []" by (simp add: stands_for_def new_stream_filter_def)
  from filter_stream_scan [OF this assms, of False] obtain m where
    m: "stands_for f m" "scan False (concat deltas) = after_text (fr_text r) (fr_count r) (scan False m)" by auto
  show ?thesis
  proof (cases "sf_discardUntilEnd f")
    case False
    then show ?thesis using m
      by (simp add: filterOpenAiPrivateCitations_def previewFinish_def stands_for_def after_text_def Let_def)
  next
    case True
    then obtain body where "m = CITATION_PREFIX @ body" "MARKUP_END \<notin> set body"
      "length m > MAX_PENDING_PRIVATE_CITATION_CHARS"
      using m(1) by (auto simp: stands_for_def)
    moreover have "MARKUP_END \<notin> set CITATION_PREFIX"
      by (simp add: CITATION_PREFIX_def MARKUP_START_def MARKUP_END_def)
    ultimately show ?thesis using m(2) True
      by (intro exI [of _ m])
        (auto simp: filterOpenAiPrivateCitations_def previewFinish_def after_text_def Let_def scan_open_citation starts_with_iff)
  qed
qed

end
