(* ===== verification/Texts.thy ===== *)
theory Texts
  imports Driver_Prelude "HOL-Library.Sublist"
begin

text \<open>
  The text operations the path code shares (\<open>startsWith\<close>, \<open>endsWith\<close>, \<open>includes\<close>, \<open>split\<close>, \<open>join\<close>)
  and how a text relates to its segments.
\<close>

definition startsWith :: "string \<Rightarrow> string \<Rightarrow> bool" where
  "startsWith s p \<longleftrightarrow> take (length p) s = p"

definition endsWith :: "string \<Rightarrow> string \<Rightarrow> bool" where
  "endsWith s p \<longleftrightarrow> length p \<le> length s \<and> drop (length s - length p) s = p"

fun includes_text :: "string \<Rightarrow> string \<Rightarrow> bool" where
  "includes_text [] p = (p = [])"
| "includes_text (c # s) p = (startsWith (c # s) p \<or> includes_text s p)"

fun join_on :: "char \<Rightarrow> string list \<Rightarrow> string" where
  "join_on c [] = []"
| "join_on c [s] = s"
| "join_on c (s # ss) = s @ c # join_on c ss"

lemma startsWith_iff: "startsWith s p \<longleftrightarrow> (\<exists>t. s = p @ t)"
  unfolding startsWith_def by (metis append_eq_conv_conj append_take_drop_id)

lemma endsWith_iff: "endsWith s p \<longleftrightarrow> (\<exists>t. s = t @ p)"
proof
  assume "endsWith s p"
  then show "\<exists>t. s = t @ p" unfolding endsWith_def by (metis append_take_drop_id)
qed (auto simp: endsWith_def)

lemma includes_iff: "includes_text s p \<longleftrightarrow> (\<exists>a b. s = a @ p @ b)"
proof (induction s)
  case (Cons c s)
  have "(\<exists>a b. c # s = a @ p @ b) \<longleftrightarrow> (\<exists>b. c # s = p @ b) \<or> (\<exists>a b. s = a @ p @ b)"
  proof
    assume "\<exists>a b. c # s = a @ p @ b"
    then obtain a b where "c # s = a @ p @ b" by blast
    then show "(\<exists>b. c # s = p @ b) \<or> (\<exists>a b. s = a @ p @ b)" by (cases a) auto
  qed (metis append_Cons append_Nil)
  then show ?case using Cons.IH by (simp add: startsWith_iff)
qed simp

lemma join_on_Cons: "ss \<noteq> [] \<Longrightarrow> join_on c (s # ss) = s @ c # join_on c ss"
  by (cases ss) simp_all

lemma join_on_append: "ss \<noteq> [] \<Longrightarrow> ts \<noteq> [] \<Longrightarrow> join_on c (ss @ ts) = join_on c ss @ c # join_on c ts"
  by (induction ss rule: join_on.induct) (auto simp: join_on_Cons neq_Nil_conv)

lemma join_split [simp]: "join_on c (split_on c s) = s"
proof (induction s)
  case (Cons x s)
  obtain seg segs where "split_on c s = seg # segs" using split_on_nonempty by (cases "split_on c s") blast+
  with Cons show ?case by (cases segs) (auto simp: join_on_Cons)
qed simp

lemma split_no_sep: "seg \<in> set (split_on c s) \<Longrightarrow> c \<notin> set seg"
  by (induction s arbitrary: seg) (auto split: list.splits if_splits)

lemma split_append: "split_on c (s @ c # t) = split_on c s @ split_on c t"
  by (induction s) (auto split: list.splits simp: append_eq_Cons_conv)

lemma split_plain: "c \<notin> set s \<Longrightarrow> split_on c s = [s]"
  by (induction s) auto

lemma split_join: "ss \<noteq> [] \<Longrightarrow> \<forall>s\<in>set ss. c \<notin> set s \<Longrightarrow> split_on c (join_on c ss) = ss"
  by (induction ss rule: join_on.induct) (auto simp: split_plain split_append)

text \<open>A path is a root or below it exactly when its segments start with those of the root.\<close>

lemma below_iff:
  "p = r \<or> startsWith p (r @ [c]) \<longleftrightarrow> prefix (split_on c r) (split_on c p)"
proof
  assume "p = r \<or> startsWith p (r @ [c])"
  then show "prefix (split_on c r) (split_on c p)"
    by (auto simp: startsWith_iff split_append)
next
  assume "prefix (split_on c r) (split_on c p)"
  then obtain ts where ts: "split_on c p = split_on c r @ ts" by (auto simp: prefix_def)
  show "p = r \<or> startsWith p (r @ [c])"
  proof (cases "ts = []")
    case True
    then have "join_on c (split_on c p) = join_on c (split_on c r)" using ts by simp
    then show ?thesis by simp
  next
    case False
    have "join_on c (split_on c p) = join_on c (split_on c r) @ c # join_on c ts"
      unfolding ts by (rule join_on_append [OF split_on_nonempty False])
    then show ?thesis by (auto simp: startsWith_iff)
  qed
qed

lemma empty_segment_iff:
  "[] \<in> set (split_on c s) \<longleftrightarrow> s = [] \<or> startsWith s [c] \<or> endsWith s [c] \<or> includes_text s [c, c]"
proof
  assume "[] \<in> set (split_on c s)"
  then obtain as bs where ab: "split_on c s = as @ [] # bs" by (meson split_list)
  have s: "s = join_on c (as @ [] # bs)" using join_split [of c s] ab by simp
  consider "as = []" "bs = []" | "as = []" "bs \<noteq> []" | "as \<noteq> []" "bs = []" | "as \<noteq> []" "bs \<noteq> []" by blast
  then show "s = [] \<or> startsWith s [c] \<or> endsWith s [c] \<or> includes_text s [c, c]"
  proof cases
    case 1 then show ?thesis using s by simp
  next
    case 2 then show ?thesis using s by (simp add: join_on_Cons startsWith_def)
  next
    case 3
    then have "s = join_on c as @ [c]" using s by (simp add: join_on_append)
    then show ?thesis by (auto simp: endsWith_iff)
  next
    case 4
    then have "s = join_on c as @ [c, c] @ join_on c bs" using s by (simp add: join_on_append join_on_Cons)
    then show ?thesis unfolding includes_iff by blast
  qed
next
  assume "s = [] \<or> startsWith s [c] \<or> endsWith s [c] \<or> includes_text s [c, c]"
  then consider "s = []" | t where "s = c # t" | t where "s = t @ [c]" | a b where "s = a @ [c, c] @ b"
    by (auto simp: startsWith_iff endsWith_iff includes_iff)
  then show "[] \<in> set (split_on c s)"
  proof cases
    case 3 then show ?thesis using split_append [of c t "[]"] by simp
  next
    case 4 then show ?thesis using split_append [of c a "c # b"] by simp
  qed simp_all
qed

lemma includes_single: "includes_text s [c] \<longleftrightarrow> c \<in> set s"
  by (auto simp: includes_iff in_set_conv_decomp)

lemma set_segments: "(\<Union>seg\<in>set (split_on c s). set seg) = set s - {c}"
proof (induction s)
  case (Cons x s)
  obtain seg segs where "split_on c s = seg # segs" using split_on_nonempty by (cases "split_on c s") blast+
  with Cons show ?case by (auto simp: insert_Diff_if)
qed simp

lemma in_segments:
  assumes "x \<in> set s" "x \<noteq> c"
  shows "\<exists>seg\<in>set (split_on c s). x \<in> set seg"
proof -
  have "x \<in> (\<Union>seg\<in>set (split_on c s). set seg)" unfolding set_segments using assms by simp
  then show ?thesis by (rule UN_E) blast
qed

end
