(* ===== verification/Sandbox_Paths.thy ===== *)
theory Sandbox_Paths
  imports Texts
begin

text \<open>
  src/src/protocol/paths/index.ts: the paths of a sandbox, and which of them the file
  browser may show.  The second half reads a path as its segments and says exactly which
  paths \<open>normalizeSandboxFileBrowserPath\<close> accepts.
\<close>

section \<open>The code\<close>

definition SANDBOX_ORGANIZATION_ROOT :: string where
  "SANDBOX_ORGANIZATION_ROOT = ''/organization''"

definition SANDBOX_WORKSPACE_ROOT :: string where
  "SANDBOX_WORKSPACE_ROOT = ''/workspace''"

definition SANDBOX_CACHE_PATH :: string where
  "SANDBOX_CACHE_PATH = SANDBOX_WORKSPACE_ROOT @ ''/cache''"

definition SANDBOX_MEMORY_PATH :: string where
  "SANDBOX_MEMORY_PATH = SANDBOX_WORKSPACE_ROOT @ ''/memory''"

definition SANDBOX_SESSION_STATE_DIR :: string where
  "SANDBOX_SESSION_STATE_DIR = ''.state''"

definition SANDBOX_SESSION_ROOT :: string where
  "SANDBOX_SESSION_ROOT = SANDBOX_WORKSPACE_ROOT @ ''/se''"

definition SESSION_RESOURCE_MOUNT_DIR :: string where
  "SESSION_RESOURCE_MOUNT_DIR = ''session-files''"

definition SESSION_RESOURCE_BACKING_ROOT :: string where
  "SESSION_RESOURCE_BACKING_ROOT = SANDBOX_WORKSPACE_ROOT @ ''/.mosoo/session-files''"

definition getSessionWorkspacePath :: "string \<Rightarrow> string" where
  "getSessionWorkspacePath sessionId = SANDBOX_SESSION_ROOT @ ''/'' @ sessionId"

definition getSessionOrganizationPath :: "string \<Rightarrow> string" where
  "getSessionOrganizationPath sessionId = getSessionWorkspacePath sessionId"

definition getSessionStateRootPath :: "string \<Rightarrow> string" where
  "getSessionStateRootPath sessionId = getSessionWorkspacePath sessionId @ ''/'' @ SANDBOX_SESSION_STATE_DIR"

definition getSessionResourceRootPath :: "string \<Rightarrow> string" where
  "getSessionResourceRootPath sessionId = getSessionWorkspacePath sessionId @ ''/'' @ SESSION_RESOURCE_MOUNT_DIR"

definition getSessionResourceBackingPath :: "string \<Rightarrow> string" where
  "getSessionResourceBackingPath sessionId = SESSION_RESOURCE_BACKING_ROOT @ ''/'' @ sessionId"

definition getSessionRuntimeStatePath :: "string \<Rightarrow> string \<Rightarrow> string" where
  "getSessionRuntimeStatePath sessionId runtimeId = getSessionStateRootPath sessionId @ ''/'' @ runtimeId"

definition hasConcreteChildPath :: "string \<Rightarrow> string \<Rightarrow> bool" where
  "hasConcreteChildPath path rootPath \<longleftrightarrow>
     startsWith path (rootPath @ ''/'') \<and> length path > length rootPath + 1"

definition isSandboxOrganizationPath :: "string \<Rightarrow> bool" where
  "isSandboxOrganizationPath path \<longleftrightarrow>
     path = SANDBOX_ORGANIZATION_ROOT \<or> startsWith path (SANDBOX_ORGANIZATION_ROOT @ ''/'')"

definition isSandboxCachePath :: "string \<Rightarrow> bool" where
  "isSandboxCachePath path \<longleftrightarrow> path = SANDBOX_CACHE_PATH \<or> startsWith path (SANDBOX_CACHE_PATH @ ''/'')"

definition isSandboxMemoryPath :: "string \<Rightarrow> bool" where
  "isSandboxMemoryPath path \<longleftrightarrow> path = SANDBOX_MEMORY_PATH \<or> startsWith path (SANDBOX_MEMORY_PATH @ ''/'')"

definition isSandboxSessionPath :: "string \<Rightarrow> bool" where
  "isSandboxSessionPath path \<longleftrightarrow> hasConcreteChildPath path SANDBOX_SESSION_ROOT"

definition isSandboxSessionStatePath :: "string \<Rightarrow> bool" where
  "isSandboxSessionStatePath path \<longleftrightarrow>
     isSandboxSessionPath path
     \<and> (case split_on CHR ''/'' (drop (length SANDBOX_SESSION_ROOT + 1) path) of
          sessionId # stateSegment # _ \<Rightarrow> sessionId \<noteq> [] \<and> stateSegment = SANDBOX_SESSION_STATE_DIR
        | _ \<Rightarrow> False)"

definition isSandboxSessionResourceBackingPath :: "string \<Rightarrow> bool" where
  "isSandboxSessionResourceBackingPath path \<longleftrightarrow> hasConcreteChildPath path SESSION_RESOURCE_BACKING_ROOT"

definition hasControlCharacter :: "string \<Rightarrow> bool" where
  "hasControlCharacter s \<longleftrightarrow> list_ex (\<lambda>c. (of_char c :: nat) < 32 \<or> (of_char c :: nat) = 127) s"

datatype path_error =
  NotAbsolute | ControlCharacter | BackslashSeparator | TrailingSeparator | EmptySegment
  | CurrentSegment | TraversalSegment | CacheHidden | StateHidden | BackingHidden | OutsideHome

definition readSandboxAbsolutePathOriginal :: "string option \<Rightarrow> string \<Rightarrow> path_error + string" where
  "readSandboxAbsolutePathOriginal emptyPath rawPath =
     (let path = (if rawPath = [] then (case emptyPath of Some p \<Rightarrow> p | None \<Rightarrow> rawPath) else rawPath)
      in if \<not> startsWith path ''/'' then Inl NotAbsolute
         else if hasControlCharacter path then Inl ControlCharacter
         else if includes_text path [CHR 0x5C] then Inl BackslashSeparator
         else if length path > 1 \<and> endsWith path ''/'' then Inl TrailingSeparator
         else if includes_text path ''//'' then Inl EmptySegment
         else if ''.'' \<in> set (split_on CHR ''/'' path) then Inl CurrentSegment
         else if ''..'' \<in> set (split_on CHR ''/'' path) then Inl TraversalSegment
         else Inr path)"

definition readSandboxFileBrowserPathOriginal :: "string \<Rightarrow> path_error + string" where
  "readSandboxFileBrowserPathOriginal rawPath = readSandboxAbsolutePathOriginal (Some ''/'') rawPath"

definition isAllowedSandboxFileBrowserPath :: "string \<Rightarrow> bool" where
  "isAllowedSandboxFileBrowserPath path \<longleftrightarrow>
     path = ''/'' \<or> path = SANDBOX_WORKSPACE_ROOT
     \<or> path = SANDBOX_MEMORY_PATH \<or> startsWith path (SANDBOX_MEMORY_PATH @ ''/'')
     \<or> path = SANDBOX_SESSION_ROOT \<or> startsWith path (SANDBOX_SESSION_ROOT @ ''/'')
     \<or> path = SANDBOX_ORGANIZATION_ROOT \<or> startsWith path (SANDBOX_ORGANIZATION_ROOT @ ''/'')"

definition normalizeSandboxFileBrowserPath :: "string \<Rightarrow> path_error + string" where
  "normalizeSandboxFileBrowserPath rawPath =
     bindE (readSandboxFileBrowserPathOriginal rawPath) (\<lambda>path.
       if isSandboxCachePath path then Inl CacheHidden
       else if isSandboxSessionStatePath path then Inl StateHidden
       else if isSandboxSessionResourceBackingPath path then Inl BackingHidden
       else if \<not> isAllowedSandboxFileBrowserPath path then Inl OutsideHome
       else Inr path)"

section \<open>What the file browser shows\<close>

definition proper_segment :: "string \<Rightarrow> bool" where
  "proper_segment s \<longleftrightarrow> s \<noteq> [] \<and> s \<noteq> ''.'' \<and> s \<noteq> ''..'' \<and> CHR 0x5C \<notin> set s \<and> \<not> hasControlCharacter s"

text \<open>The home itself, the memory, the sessions but for their runtime state, the organization.\<close>

definition visible_segments :: "string list \<Rightarrow> bool" where
  "visible_segments segs \<longleftrightarrow>
     segs = [''workspace''] \<or> prefix [''workspace'', ''memory''] segs
     \<or> prefix [''workspace'', ''se''] segs \<and> \<not> (length segs \<ge> 4 \<and> segs ! 3 = ''.state'')
     \<or> prefix [''organization''] segs"

lemma root_splits:
  "split_on CHR ''/'' SANDBOX_WORKSPACE_ROOT = [[], ''workspace'']"
  "split_on CHR ''/'' SANDBOX_CACHE_PATH = [[], ''workspace'', ''cache'']"
  "split_on CHR ''/'' SANDBOX_MEMORY_PATH = [[], ''workspace'', ''memory'']"
  "split_on CHR ''/'' SANDBOX_SESSION_ROOT = [[], ''workspace'', ''se'']"
  "split_on CHR ''/'' SANDBOX_ORGANIZATION_ROOT = [[], ''organization'']"
  "split_on CHR ''/'' SESSION_RESOURCE_BACKING_ROOT = [[], ''workspace'', ''.mosoo'', ''session-files'']"
  by code_simp+

lemma control_segments: "hasControlCharacter s \<longleftrightarrow> list_ex hasControlCharacter (split_on CHR ''/'' s)"
proof -
  have "\<not> ((of_char CHR ''/'' :: nat) < 32 \<or> (of_char CHR ''/'' :: nat) = 127)" by simp
  then have "hasControlCharacter s \<longleftrightarrow>
      (\<exists>c\<in>set s - {CHR ''/''}. (of_char c :: nat) < 32 \<or> (of_char c :: nat) = 127)"
    unfolding hasControlCharacter_def list_ex_iff by blast
  also have "\<dots> \<longleftrightarrow> list_ex hasControlCharacter (split_on CHR ''/'' s)"
    unfolding set_segments [symmetric] hasControlCharacter_def list_ex_iff by blast
  finally show ?thesis .
qed

text \<open>The checks of \<open>readSandboxAbsolutePathOriginal\<close>, on the segments.\<close>

lemma read_path_iff:
  "readSandboxFileBrowserPathOriginal raw = Inr path \<longleftrightarrow>
     path = (if raw = [] then ''/'' else raw)
     \<and> (\<exists>segs. split_on CHR ''/'' path = [] # segs \<and> (path = ''/'' \<or> list_all proper_segment segs))"
proof -
  define p where "p = (if raw = [] then ''/'' else raw)"
  have code: "readSandboxFileBrowserPathOriginal raw = Inr path \<longleftrightarrow> path = p \<and> startsWith p ''/''
      \<and> \<not> hasControlCharacter p \<and> CHR 0x5C \<notin> set p \<and> \<not> (length p > 1 \<and> endsWith p ''/'')
      \<and> \<not> includes_text p ''//'' \<and> ''.'' \<notin> set (split_on CHR ''/'' p) \<and> ''..'' \<notin> set (split_on CHR ''/'' p)"
    by (auto simp: readSandboxFileBrowserPathOriginal_def readSandboxAbsolutePathOriginal_def Let_def p_def
        includes_single)
  show ?thesis
  proof (cases "startsWith p ''/''")
    case False
    have "p = ''/'' @ join_on CHR ''/'' segs" if "split_on CHR ''/'' p = [] # segs" "segs \<noteq> []" for segs
      using join_split [of "CHR ''/''" p] that by (simp add: join_on_Cons)
    moreover have "segs \<noteq> []" if "split_on CHR ''/'' p = [] # segs" for segs
    proof
      assume "segs = []"
      then have "p = []" using join_split [of "CHR ''/''" p] that by simp
      then show False by (simp add: p_def split: if_splits)
    qed
    ultimately have "split_on CHR ''/'' p \<noteq> [] # segs" for segs
      using False by (auto simp: startsWith_iff)
    then show ?thesis using code False by (auto simp: p_def)
  next
    case True
    then obtain r where r: "p = CHR ''/'' # r" by (auto simp: startsWith_iff)
    have split: "split_on CHR ''/'' p = [] # split_on CHR ''/'' r" by (simp add: r)
    have "\<not> (length p > 1 \<and> endsWith p ''/'') \<and> \<not> includes_text p ''//''
        \<longleftrightarrow> r = [] \<or> \<not> (startsWith r ''/'' \<or> endsWith r ''/'' \<or> includes_text r ''//'')"
    proof -
      have "endsWith p ''/'' \<longleftrightarrow> r = [] \<or> endsWith r ''/''"
        unfolding r endsWith_iff by (auto simp: Cons_eq_append_conv)
      moreover have "includes_text p ''//'' \<longleftrightarrow> startsWith r ''/'' \<or> includes_text r ''//''"
        unfolding r by (simp add: startsWith_def)
      moreover have "\<not> startsWith [] ''/'' \<and> \<not> includes_text [] ''//''" by (simp add: startsWith_def)
      moreover have "length p > 1 \<longleftrightarrow> r \<noteq> []" by (simp add: r)
      ultimately show ?thesis by blast
    qed
    also have "\<dots> \<longleftrightarrow> p = ''/'' \<or> [] \<notin> set (split_on CHR ''/'' r)"
    proof -
      have "p = ''/'' \<longleftrightarrow> r = []" by (simp add: r)
      then show ?thesis unfolding empty_segment_iff by blast
    qed
    finally have empty: "\<not> (length p > 1 \<and> endsWith p ''/'') \<and> \<not> includes_text p ''//''
        \<longleftrightarrow> p = ''/'' \<or> [] \<notin> set (split_on CHR ''/'' r)" .
    have slash: "CHR 0x5C \<notin> set p \<longleftrightarrow> (\<forall>seg\<in>set (split_on CHR ''/'' r). CHR 0x5C \<notin> set seg)"
    proof -
      have "CHR 0x5C \<notin> set p \<longleftrightarrow> CHR 0x5C \<notin> (\<Union>seg\<in>set (split_on CHR ''/'' r). set seg)"
        unfolding set_segments by (simp add: r)
      then show ?thesis by blast
    qed
    have control: "\<not> hasControlCharacter p \<longleftrightarrow> (\<forall>seg\<in>set (split_on CHR ''/'' r). \<not> hasControlCharacter seg)"
      using control_segments [of p] by (simp add: split list_ex_iff hasControlCharacter_def [of "[]"])
    show ?thesis
    proof (cases "p = ''/''")
      case True
      have "\<not> hasControlCharacter ''/'' \<and> split_on CHR ''/'' ''/'' = [[], []]"
        by (simp add: hasControlCharacter_def)
      then have "readSandboxFileBrowserPathOriginal raw = Inr path \<longleftrightarrow> path = p"
        using code by (simp add: True startsWith_def)
      then show ?thesis using split by (auto simp: p_def [symmetric] True)
    next
      case False
      have "path = p \<Longrightarrow> readSandboxFileBrowserPathOriginal raw = Inr path
          \<longleftrightarrow> list_all proper_segment (split_on CHR ''/'' r)"
        using code \<open>startsWith p ''/''\<close> empty slash control False
        by (simp add: list_all_iff proper_segment_def split) blast
      then show ?thesis using code False split by (auto simp: p_def [symmetric])
    qed
  qed
qed

text \<open>The runtime state of a session: the segment \<open>.state\<close> after the session's.\<close>

lemma state_path_iff:
  assumes "split_on CHR ''/'' path = [] # segs" "list_all proper_segment segs"
  shows "isSandboxSessionStatePath path \<longleftrightarrow>
    prefix [''workspace'', ''se''] segs \<and> length segs \<ge> 4 \<and> segs ! 3 = ''.state''"
proof (cases "startsWith path (SANDBOX_SESSION_ROOT @ ''/'')")
  case True
  then obtain t where t: "path = SANDBOX_SESSION_ROOT @ CHR ''/'' # t" by (auto simp: startsWith_iff)
  have segs: "segs = [''workspace'', ''se''] @ split_on CHR ''/'' t"
    using assms(1) unfolding t split_append root_splits by simp
  then have proper: "list_all proper_segment (split_on CHR ''/'' t)" using assms(2) by simp
  have "t \<noteq> []" using proper by (auto simp: proper_segment_def)
  then have "isSandboxSessionPath path"
    by (simp add: isSandboxSessionPath_def hasConcreteChildPath_def t startsWith_iff)
  moreover have "drop (length SANDBOX_SESSION_ROOT + 1) path = t" by (simp add: t)
  ultimately show ?thesis
    using proper segs unfolding isSandboxSessionStatePath_def SANDBOX_SESSION_STATE_DIR_def
    by (auto simp: proper_segment_def split: list.splits)
next
  case False
  have "\<not> (prefix [''workspace'', ''se''] segs \<and> length segs \<ge> 4)"
  proof
    assume *: "prefix [''workspace'', ''se''] segs \<and> length segs \<ge> 4"
    then have "prefix (split_on CHR ''/'' SANDBOX_SESSION_ROOT) (split_on CHR ''/'' path)"
      by (simp add: root_splits assms(1))
    then have "path = SANDBOX_SESSION_ROOT" using False below_iff by blast
    then show False using * assms(1) by (auto simp: root_splits)
  qed
  with False show ?thesis
    by (auto simp: isSandboxSessionStatePath_def isSandboxSessionPath_def hasConcreteChildPath_def)
qed

lemma allowed_iff:
  assumes "split_on CHR ''/'' path = [] # segs"
  shows "isAllowedSandboxFileBrowserPath path \<longleftrightarrow> path = ''/'' \<or> segs = [''workspace'']
    \<or> prefix [''workspace'', ''memory''] segs \<or> prefix [''workspace'', ''se''] segs
    \<or> prefix [''organization''] segs"
proof -
  have "path = SANDBOX_WORKSPACE_ROOT \<longleftrightarrow> segs = [''workspace'']"
    using join_split [of "CHR ''/''" path] join_split [of "CHR ''/''" SANDBOX_WORKSPACE_ROOT] assms
    by (metis list.inject root_splits(1))
  moreover have below: "path = r \<or> startsWith path (r @ ''/'') \<longleftrightarrow> prefix (split_on CHR ''/'' r) ([] # segs)" for r
    unfolding below_iff assms ..
  have "path = SANDBOX_MEMORY_PATH \<or> startsWith path (SANDBOX_MEMORY_PATH @ ''/'')
      \<longleftrightarrow> prefix [''workspace'', ''memory''] segs"
    "path = SANDBOX_SESSION_ROOT \<or> startsWith path (SANDBOX_SESSION_ROOT @ ''/'')
      \<longleftrightarrow> prefix [''workspace'', ''se''] segs"
    "path = SANDBOX_ORGANIZATION_ROOT \<or> startsWith path (SANDBOX_ORGANIZATION_ROOT @ ''/'')
      \<longleftrightarrow> prefix [''organization''] segs"
    unfolding below root_splits by simp_all
  ultimately show ?thesis
    unfolding isAllowedSandboxFileBrowserPath_def by blast
qed

lemma cache_path_iff:
  assumes "split_on CHR ''/'' path = [] # segs"
  shows "isSandboxCachePath path \<longleftrightarrow> prefix [''workspace'', ''cache''] segs"
  using below_iff [of path SANDBOX_CACHE_PATH "CHR ''/''"] assms
  by (simp add: isSandboxCachePath_def root_splits)

lemma backing_path_prefix:
  assumes "split_on CHR ''/'' path = [] # segs" "isSandboxSessionResourceBackingPath path"
  shows "prefix [''workspace'', ''.mosoo'', ''session-files''] segs"
  using below_iff [of path SESSION_RESOURCE_BACKING_ROOT "CHR ''/''"] assms
  by (simp add: isSandboxSessionResourceBackingPath_def hasConcreteChildPath_def root_splits)

lemma visible_excludes:
  assumes "visible_segments segs"
  shows "\<not> prefix [''workspace'', ''cache''] segs"
    "\<not> prefix [''workspace'', ''.mosoo'', ''session-files''] segs"
  using assms unfolding visible_segments_def by (auto simp: prefix_def)

lemma session_excludes:
  "prefix [''workspace'', ''se''] segs \<Longrightarrow> segs \<noteq> [''workspace'']
     \<and> \<not> prefix [''workspace'', ''memory''] segs \<and> \<not> prefix [''organization''] segs"
  by (auto simp: prefix_def)

lemma normalize_path_iff:
  "normalizeSandboxFileBrowserPath raw = Inr path \<longleftrightarrow>
     path = (if raw = [] then ''/'' else raw)
     \<and> (\<exists>segs. split_on CHR ''/'' path = [] # segs
          \<and> (path = ''/'' \<or> list_all proper_segment segs \<and> visible_segments segs))"
proof -
  have "normalizeSandboxFileBrowserPath raw = Inr path \<longleftrightarrow> readSandboxFileBrowserPathOriginal raw = Inr path
      \<and> \<not> isSandboxCachePath path \<and> \<not> isSandboxSessionStatePath path
      \<and> \<not> isSandboxSessionResourceBackingPath path \<and> isAllowedSandboxFileBrowserPath path"
    by (cases "readSandboxFileBrowserPathOriginal raw") (auto simp: normalizeSandboxFileBrowserPath_def)
  moreover have "(\<not> isSandboxCachePath path \<and> \<not> isSandboxSessionStatePath path
      \<and> \<not> isSandboxSessionResourceBackingPath path \<and> isAllowedSandboxFileBrowserPath path)
      \<longleftrightarrow> visible_segments segs"
    if "split_on CHR ''/'' path = [] # segs" "path \<noteq> ''/''" "list_all proper_segment segs" for segs
    using that(2) visible_excludes [of segs] session_excludes [of segs] backing_path_prefix [OF that(1)]
    unfolding cache_path_iff [OF that(1)] allowed_iff [OF that(1)] state_path_iff [OF that(1,3)]
      visible_segments_def by blast
  moreover have "\<not> isSandboxCachePath ''/'' \<and> \<not> isSandboxSessionStatePath ''/''
      \<and> \<not> isSandboxSessionResourceBackingPath ''/'' \<and> isAllowedSandboxFileBrowserPath ''/''"
    by code_simp
  ultimately show ?thesis unfolding read_path_iff by metis
qed

end
