(* ===== verification/Skill_Paths.thy ===== *)
theory Skill_Paths
  imports Texts
begin

text \<open>
  src/src/skill-package/path-admission.ts: which paths a skill package may contain.  An
  admission holds the entries admitted so far (a Map, kept in insertion order); every admitted
  path is relative, has no traversal and no reserved segment, and the entries together form a
  tree in which only directories have children.  Characters are the 8-bit ones, so the
  replacement character U+FFFD, which the code also refuses, has no instance here.
\<close>

section \<open>The code\<close>

datatype skill_path_kind = SkillDirectory | SkillFile

record admitted_path =
  entry_kind :: skill_path_kind
  entry_path :: string

datatype skill_error =
  EmptyPath | InvalidPath string | ReservedKey string | DuplicatePath string | FileAndChild string
  | ManifestNotFile | ManifestChild string

type_synonym skill_entries = "(string \<times> skill_path_kind) list"

definition SKILL_PACKAGE_MANIFEST_PATH :: string where
  "SKILL_PACKAGE_MANIFEST_PATH = ''SKILL.md''"

definition RESERVED_PATH_KEYS :: "string list" where
  "RESERVED_PATH_KEYS =
    [''__proto__'', ''constructor'', ''credential'', ''credentials'', ''private'', ''prototype'',
     ''provenance'', ''runtime-state'', ''secret'', ''secrets'', ''session'', ''sessions'',
     ''token'', ''tokens'', ''vault'']"

definition inferSkillPackagePathKind :: "string \<Rightarrow> skill_path_kind" where
  "inferSkillPackagePathKind path =
     (if endsWith path ''/'' \<or> endsWith path [CHR 0x5C] then SkillDirectory else SkillFile)"

definition normalized_separators :: "string \<Rightarrow> string" where
  "normalized_separators path = map (\<lambda>c. if c = CHR 0x5C then CHR ''/'' else c) path"

definition readPathSegments :: "string \<Rightarrow> skill_path_kind \<Rightarrow> string list" where
  "readPathSegments path entryKind =
     (let normalizedSeparators = normalized_separators path;
          segmentSource = (if entryKind = SkillDirectory \<and> endsWith normalizedSeparators ''/''
                           then butlast normalizedSeparators else normalizedSeparators)
      in split_on CHR ''/'' segmentSource)"

definition is_letter :: "char \<Rightarrow> bool" where
  "is_letter c \<longleftrightarrow> (let n = (of_char c :: nat) in 65 \<le> n \<and> n \<le> 90 \<or> 97 \<le> n \<and> n \<le> 122)"

definition isAbsolutePath :: "string \<Rightarrow> bool" where
  "isAbsolutePath path \<longleftrightarrow>
     startsWith path ''/'' \<or> startsWith path [CHR 0x5C]
     \<or> (case path of a # b # _ \<Rightarrow> is_letter a \<and> b = CHR '':'' | _ \<Rightarrow> False)"

definition unsafe_character :: "char \<Rightarrow> bool" where
  "unsafe_character c \<longleftrightarrow> (of_char c :: nat) < 0x20 \<or> (of_char c :: nat) = 0x7F"

definition hasUnsafePathCharacter :: "string \<Rightarrow> bool" where
  "hasUnsafePathCharacter path \<longleftrightarrow> list_ex unsafe_character path"

definition lower_case :: "char \<Rightarrow> char" where
  "lower_case c =
     (let n = (of_char c :: nat)
      in if 65 \<le> n \<and> n \<le> 90 \<or> 192 \<le> n \<and> n \<le> 222 \<and> n \<noteq> 215 then char_of (n + 32) else c)"

definition normalized_key :: "string \<Rightarrow> string" where
  "normalized_key segment = map (\<lambda>c. if c = CHR ''_'' then CHR ''-'' else c) (map lower_case segment)"

definition readReservedPathKey :: "string \<Rightarrow> string option" where
  "readReservedPathKey segment =
     (let normalized = normalized_key segment
      in if normalized \<in> set RESERVED_PATH_KEYS \<or> startsWith normalized ''.''
            \<or> startsWith normalized ''.env'' \<or> startsWith normalized ''.state''
            \<or> endsWith normalized ''.key'' \<or> endsWith normalized ''.pem''
         then Some segment else None)"

definition check_segment :: "string \<Rightarrow> string \<Rightarrow> skill_error + unit" where
  "check_segment path segment =
     (if segment = [] \<or> segment = ''.'' \<or> segment = ''..'' then Inl (InvalidPath path)
      else case readReservedPathKey segment of
             Some reservedKey \<Rightarrow> Inl (ReservedKey reservedKey)
           | None \<Rightarrow> Inr ())"

definition admitSkillPackagePath :: "string \<Rightarrow> skill_path_kind option \<Rightarrow> skill_error + admitted_path" where
  "admitSkillPackagePath path kind =
     (let entryKind = (case kind of Some k \<Rightarrow> k | None \<Rightarrow> inferSkillPackagePathKind path)
      in if path = [] then Inl EmptyPath
         else if isAbsolutePath path \<or> hasUnsafePathCharacter path then Inl (InvalidPath path)
         else let segments = readPathSegments path entryKind
              in if segments = [] then Inl EmptyPath
                 else bindE (each (check_segment path) segments) (\<lambda>_.
                        Inr \<lparr>entry_kind = entryKind, entry_path = join_on CHR ''/'' segments\<rparr>))"

definition hasDescendant :: "skill_entries \<Rightarrow> string \<Rightarrow> bool" where
  "hasDescendant entries path \<longleftrightarrow> list_ex (\<lambda>(p, _). startsWith p (path @ ''/'')) entries"

definition readAncestorPaths :: "string \<Rightarrow> string list" where
  "readAncestorPaths path =
     (let segments = split_on CHR ''/'' path
      in map (\<lambda>index. join_on CHR ''/'' (take index segments)) [1..<length segments])"

definition rejectDuplicateOrCollision ::
    "skill_entries \<Rightarrow> string \<Rightarrow> skill_path_kind \<Rightarrow> skill_error + unit" where
  "rejectDuplicateOrCollision entries path entryKind =
     (if map_of entries path \<noteq> None then Inl (DuplicatePath path)
      else if entryKind = SkillFile \<and> hasDescendant entries path then Inl (FileAndChild path)
      else each (\<lambda>ancestor. if map_of entries ancestor = Some SkillFile
                             then Inl (FileAndChild ancestor) else Inr ()) (readAncestorPaths path))"

definition admit :: "skill_entries \<Rightarrow> string \<times> skill_path_kind option \<Rightarrow> skill_error + skill_entries" where
  "admit entries input =
     bindE (admitSkillPackagePath (fst input) (snd input)) (\<lambda>admitted.
     bindE (rejectDuplicateOrCollision entries (entry_path admitted) (entry_kind admitted)) (\<lambda>_.
       Inr (entries @ [(entry_path admitted, entry_kind admitted)])))"

definition createSkillPackagePathAdmission ::
    "(string \<times> skill_path_kind option) list \<Rightarrow> skill_error + skill_entries" where
  "createSkillPackagePathAdmission inputs = foldE admit [] inputs"

definition rejectUnsupportedArchivePath :: "admitted_path \<Rightarrow> skill_error + unit" where
  "rejectUnsupportedArchivePath admitted =
     (if entry_path admitted = SKILL_PACKAGE_MANIFEST_PATH
      then (if entry_kind admitted \<noteq> SkillFile then Inl ManifestNotFile else Inr ())
      else if startsWith (entry_path admitted) (SKILL_PACKAGE_MANIFEST_PATH @ ''/'')
           then Inl (ManifestChild (entry_path admitted))
      else Inr ())"

section \<open>One path\<close>

definition safe_segment :: "string \<Rightarrow> bool" where
  "safe_segment s \<longleftrightarrow> s \<noteq> [] \<and> s \<noteq> ''.'' \<and> s \<noteq> ''..'' \<and> readReservedPathKey s = None
     \<and> CHR 0x5C \<notin> set s \<and> CHR ''/'' \<notin> set s \<and> \<not> list_ex unsafe_character s"

definition safe_path :: "string \<Rightarrow> bool" where
  "safe_path p \<longleftrightarrow> list_all safe_segment (split_on CHR ''/'' p) \<and> \<not> isAbsolutePath p"

lemma check_segment_ok:
  "check_segment path s = Inr () \<longleftrightarrow> s \<noteq> [] \<and> s \<noteq> ''.'' \<and> s \<noteq> ''..'' \<and> readReservedPathKey s = None"
  by (auto simp: check_segment_def split: option.splits)

lemma normalized_source:
  "\<exists>e. normalized_separators path = join_on CHR ''/'' (readPathSegments path k) @ e \<and> (e = [] \<or> e = ''/'')"
proof (cases "k = SkillDirectory \<and> endsWith (normalized_separators path) ''/''")
  case True
  then obtain t where "normalized_separators path = t @ ''/''" by (auto simp: endsWith_iff)
  then show ?thesis using True by (simp add: readPathSegments_def)
next
  case False
  then have "join_on CHR ''/'' (readPathSegments path k) = normalized_separators path"
    by (auto simp: readPathSegments_def)
  then show ?thesis by simp
qed

lemma absolute_append: "isAbsolutePath p \<Longrightarrow> isAbsolutePath (p @ e)"
  by (auto simp: isAbsolutePath_def startsWith_iff split: list.splits)

lemma absolute_normalized: "isAbsolutePath (normalized_separators p) \<Longrightarrow> isAbsolutePath p"
proof (cases p)
  case (Cons c cs)
  have "\<not> is_letter CHR ''/''" by code_simp
  then show "isAbsolutePath (normalized_separators p) \<Longrightarrow> isAbsolutePath p"
    using Cons by (cases cs) (auto simp: isAbsolutePath_def startsWith_def normalized_separators_def split: if_splits)
qed (simp add: normalized_separators_def)

lemma slash_safe [simp]: "\<not> unsafe_character CHR ''/''"
  by code_simp

lemma normalized_set:
  "set (normalized_separators p) \<subseteq> set p \<union> {CHR ''/''}" "CHR 0x5C \<notin> set (normalized_separators p)"
  by (auto simp: normalized_separators_def)

lemma segments_set: "set s \<subseteq> set (join_on c ss)" if "s \<in> set ss"
  using that by (induction ss rule: join_on.induct) auto

lemma admitted_path_safe:
  assumes "admitSkillPackagePath path kind = Inr a"
  shows "safe_path (entry_path a)"
proof -
  define k where "k = (case kind of Some k \<Rightarrow> k | None \<Rightarrow> inferSkillPackagePathKind path)"
  define segs where "segs = readPathSegments path k"
  have ok: "\<not> isAbsolutePath path" "\<not> hasUnsafePathCharacter path" "segs \<noteq> []"
      "\<forall>s\<in>set segs. check_segment path s = Inr ()" and a: "entry_path a = join_on CHR ''/'' segs"
    using assms by (auto simp: admitSkillPackagePath_def Let_def k_def segs_def split: if_splits)
  obtain e where e: "normalized_separators path = join_on CHR ''/'' segs @ e"
    using normalized_source unfolding segs_def by blast
  have slash: "\<forall>s\<in>set segs. CHR ''/'' \<notin> set s"
    unfolding segs_def readPathSegments_def Let_def by (blast dest: split_no_sep)
  then have split: "split_on CHR ''/'' (entry_path a) = segs"
    unfolding a by (rule split_join [OF ok(3)])
  have "\<not> isAbsolutePath (entry_path a)"
    using absolute_append [of "entry_path a" e] absolute_normalized [of path] ok(1) by (auto simp: a e)
  moreover have "safe_segment s" if "s \<in> set segs" for s
  proof -
    have sub: "set s \<subseteq> set (normalized_separators path)"
      using segments_set [OF that, of "CHR ''/''"] by (auto simp: e)
    then have "CHR 0x5C \<notin> set s" using normalized_set(2) by blast
    moreover have "\<not> list_ex unsafe_character s"
      using sub normalized_set(1) [of path] ok(2) slash_safe
      unfolding hasUnsafePathCharacter_def list_ex_iff by blast
    ultimately show ?thesis
      using ok(4) slash that by (simp add: safe_segment_def check_segment_ok)
  qed
  ultimately show ?thesis by (simp add: safe_path_def split list_all_iff)
qed

lemma safe_path_admitted:
  assumes "safe_path p"
  shows "admitSkillPackagePath p (Some k) = Inr \<lparr>entry_kind = k, entry_path = p\<rparr>"
proof -
  let ?segs = "split_on CHR ''/'' p"
  have segs: "\<forall>s\<in>set ?segs. safe_segment s" and absolute: "\<not> isAbsolutePath p"
    using assms by (auto simp: safe_path_def list_all_iff)
  have chars: "c \<noteq> CHR 0x5C \<and> \<not> unsafe_character c" if "c \<in> set p" for c
  proof (cases "c = CHR ''/''")
    case False
    from in_segments [OF that False] obtain s where "s \<in> set ?segs" "c \<in> set s" by blast
    with segs show ?thesis by (auto simp: safe_segment_def list_ex_iff)
  qed simp
  then have norm: "normalized_separators p = p"
    unfolding normalized_separators_def by (intro map_idI) auto
  have empty: "\<not> safe_segment []" by (simp add: safe_segment_def)
  have ends: "\<not> endsWith p ''/''"
  proof
    assume "endsWith p ''/''"
    then have "[] \<in> set ?segs" by (simp add: empty_segment_iff)
    with segs empty show False by blast
  qed
  have "p \<noteq> []"
  proof
    assume "p = []"
    then have "[] \<in> set ?segs" by simp
    with segs empty show False by blast
  qed
  moreover have "\<forall>s\<in>set ?segs. check_segment p s = Inr ()"
    using segs by (simp add: check_segment_ok safe_segment_def)
  moreover have "\<not> hasUnsafePathCharacter p"
    using chars by (simp add: hasUnsafePathCharacter_def list_ex_iff)
  moreover have "readPathSegments p k = ?segs"
    by (simp add: readPathSegments_def norm ends)
  ultimately show ?thesis
    using absolute by (simp add: admitSkillPackagePath_def split_on_nonempty)
qed

section \<open>The tree of entries\<close>

abbreviation segments_of :: "string \<Rightarrow> string list" where
  "segments_of \<equiv> split_on CHR ''/''"

definition skill_tree :: "skill_entries \<Rightarrow> bool" where
  "skill_tree es \<longleftrightarrow> distinct (map fst es) \<and> list_all (\<lambda>(p, _). safe_path p) es
     \<and> list_all (\<lambda>(p, k). list_all (\<lambda>(q, _).
          strict_prefix (segments_of p) (segments_of q) \<longrightarrow> k = SkillDirectory) es) es"

lemma tree_snoc:
  assumes "skill_tree es"
  shows "skill_tree (es @ [(p, k)]) \<longleftrightarrow> p \<notin> fst ` set es \<and> safe_path p
    \<and> (\<forall>(q, l)\<in>set es. (strict_prefix (segments_of p) (segments_of q) \<longrightarrow> k = SkillDirectory)
        \<and> (strict_prefix (segments_of q) (segments_of p) \<longrightarrow> l = SkillDirectory))"
  using assms unfolding skill_tree_def list_all_iff by (auto simp: case_prod_beta)

lemma tree_butlast: "skill_tree (es @ fs) \<Longrightarrow> skill_tree es"
  unfolding skill_tree_def list_all_iff by (auto simp: case_prod_beta)

lemma segments_inject: "segments_of p = segments_of q \<longleftrightarrow> p = q"
  by (metis join_split)

lemma descendant_iff: "startsWith q (p @ ''/'') \<longleftrightarrow> strict_prefix (segments_of p) (segments_of q)"
proof -
  have "startsWith q (p @ ''/'') \<Longrightarrow> q \<noteq> p" by (auto simp: startsWith_iff)
  then show ?thesis
    using below_iff [of q p "CHR ''/''"] segments_inject [of p q] by (auto simp: strict_prefix_def)
qed

lemma ancestors_iff:
  "a \<in> set (readAncestorPaths p) \<longleftrightarrow> strict_prefix (segments_of a) (segments_of p)"
proof
  assume "a \<in> set (readAncestorPaths p)"
  then obtain i where i: "0 < i" "i < length (segments_of p)"
      "a = join_on CHR ''/'' (take i (segments_of p))"
    unfolding readAncestorPaths_def Let_def by (fastforce simp: Suc_le_eq)
  have "\<forall>s\<in>set (take i (segments_of p)). CHR ''/'' \<notin> set s"
    by (meson in_set_takeD split_no_sep)
  moreover have "take i (segments_of p) \<noteq> []" using i by (cases "segments_of p") auto
  ultimately have "segments_of a = take i (segments_of p)" unfolding i(3) by (intro split_join)
  then show "strict_prefix (segments_of a) (segments_of p)"
    using i(2) by (metis length_take min.absorb4 nat_neq_iff strict_prefixI take_is_prefix)
next
  assume *: "strict_prefix (segments_of a) (segments_of p)"
  have "segments_of a = take (length (segments_of a)) (segments_of p)"
    using * by (metis append_eq_conv_conj prefixE strict_prefixE)
  moreover have "length (segments_of a) < length (segments_of p)"
    using * by (rule prefix_length_less)
  moreover have "0 < length (segments_of a)" using split_on_nonempty by simp
  ultimately show "a \<in> set (readAncestorPaths p)"
    unfolding readAncestorPaths_def Let_def
    by (metis (no_types, lifting) One_nat_def Suc_leI atLeastLessThan_iff image_eqI join_split set_map set_upt)
qed

lemma no_collision_iff:
  assumes "distinct (map fst es)"
  shows "rejectDuplicateOrCollision es p k = Inr () \<longleftrightarrow> p \<notin> fst ` set es
    \<and> (\<forall>(q, l)\<in>set es. (strict_prefix (segments_of p) (segments_of q) \<longrightarrow> k = SkillDirectory)
        \<and> (strict_prefix (segments_of q) (segments_of p) \<longrightarrow> l = SkillDirectory))"
proof -
  have kinds: "x \<noteq> SkillFile \<longleftrightarrow> x = SkillDirectory" for x by (cases x) auto
  have "(\<forall>a\<in>set (readAncestorPaths p). map_of es a \<noteq> Some SkillFile) \<longleftrightarrow>
      (\<forall>(q, l)\<in>set es. strict_prefix (segments_of q) (segments_of p) \<longrightarrow> l = SkillDirectory)"
    using map_of_eq_Some_iff [OF assms] kinds unfolding ancestors_iff [symmetric] by fast
  moreover have "map_of es p = None \<longleftrightarrow> p \<notin> fst ` set es" by (simp add: map_of_eq_None_iff)
  moreover have "\<not> (k = SkillFile \<and> hasDescendant es p) \<longleftrightarrow>
      (\<forall>(q, l)\<in>set es. strict_prefix (segments_of p) (segments_of q) \<longrightarrow> k = SkillDirectory)"
    using kinds [of k] unfolding hasDescendant_def list_ex_iff descendant_iff by fast
  ultimately show ?thesis
    unfolding rejectDuplicateOrCollision_def by auto
qed

text \<open>One call of \<open>admit\<close>: it succeeds exactly when the path is one the package may hold and
  the entries with it are still a tree.\<close>

lemma admit_iff:
  assumes "skill_tree es"
  shows "admit es input = Inr es' \<longleftrightarrow>
    (\<exists>a. admitSkillPackagePath (fst input) (snd input) = Inr a
         \<and> es' = es @ [(entry_path a, entry_kind a)] \<and> skill_tree es')"
proof -
  have "distinct (map fst es)" using assms by (simp add: skill_tree_def)
  then show ?thesis
    unfolding admit_def using admitted_path_safe tree_snoc [OF assms]
    by (auto simp: no_collision_iff)
qed

definition entry_of :: "admitted_path \<Rightarrow> string \<times> skill_path_kind" where
  "entry_of a = (entry_path a, entry_kind a)"

lemma admission_iff_from:
  assumes "skill_tree es"
  shows "foldE admit es inputs = Inr es' \<longleftrightarrow>
    (\<exists>as. mapE (\<lambda>i. admitSkillPackagePath (fst i) (snd i)) inputs = Inr as
         \<and> es' = es @ map entry_of as \<and> skill_tree es')"
  using assms
proof (induction inputs arbitrary: es)
  case (Cons i inputs)
  have "foldE admit es (i # inputs) = Inr es' \<longleftrightarrow>
      (\<exists>a. admitSkillPackagePath (fst i) (snd i) = Inr a \<and> skill_tree (es @ [entry_of a])
           \<and> foldE admit (es @ [entry_of a]) inputs = Inr es')"
    using admit_iff [OF Cons.prems, of i] by (auto simp: entry_of_def)
  also have "\<dots> \<longleftrightarrow> (\<exists>a as. admitSkillPackagePath (fst i) (snd i) = Inr a
      \<and> mapE (\<lambda>i. admitSkillPackagePath (fst i) (snd i)) inputs = Inr as
      \<and> es' = es @ entry_of a # map entry_of as \<and> skill_tree es')"
    using Cons.IH tree_butlast [of "es @ [entry_of _]" "map entry_of _"] by (auto 0 4)
  also have "\<dots> \<longleftrightarrow> (\<exists>as. mapE (\<lambda>i. admitSkillPackagePath (fst i) (snd i)) (i # inputs) = Inr as
      \<and> es' = es @ map entry_of as \<and> skill_tree es')"
    by auto
  finally show ?case .
qed auto

lemma admission_iff:
  "createSkillPackagePathAdmission inputs = Inr es \<longleftrightarrow>
    (\<exists>as. mapE (\<lambda>i. admitSkillPackagePath (fst i) (snd i)) inputs = Inr as
         \<and> es = map entry_of as \<and> skill_tree es)"
  unfolding createSkillPackagePathAdmission_def
  by (subst admission_iff_from) (auto simp: skill_tree_def)

text \<open>The reserved key \<open>__proto__\<close> is compared after underscores have become hyphens, so no
  segment equals it: the path it names is admitted.\<close>

lemma proto_segment_admitted:
  "''__proto__'' \<in> set RESERVED_PATH_KEYS"
  "admitSkillPackagePath ''__proto__'' None = Inr \<lparr>entry_kind = SkillFile, entry_path = ''__proto__''\<rparr>"
  by code_simp+

end
