(* ===== verification/Permission_Broker.thy ===== *)
theory Permission_Broker
  imports Driver_Prelude "HOL-Library.AList"
begin

text \<open>
  src/src/core/driver-permission-broker.ts: the permission requests of a runtime.

  \<open>request\<close> is an asynchronous function, so each call is a record whose \<open>phase\<close> says which
  \<open>await\<close> it stands at; what runs between two awaits is one operation of the broker.  The
  operation that resumes a call says how the awaited promise settled (\<open>settlePromiseWithTimeout\<close>)
  and what \<open>isCurrentRun()\<close> answers at that moment; operations that do not fit the phase change
  nothing.  The order of operations is free.

  Parameters: the byte length of the JSON of a request and of its event, and the digest.
  The logging and the timeouts' lengths are left out.
\<close>

section \<open>Data\<close>

datatype permission_decision = AllowOnce | RejectOnce

datatype resolution_reason = ReasonApproved | ReasonCancelled | ReasonRejected | ReasonTimedOut

datatype delivery_phase = PhaseRequested | PhaseResolved

record permission_resolution =
  rs_decision :: permission_decision
  rs_reason :: resolution_reason

record 'i permission_request =
  pq_requestId :: string
  pq_details :: 'i

datatype 'i permission_event =
  RequestedEvent "'i permission_request" "string option" string
| ResolvedEvent "'i permission_request" permission_resolution "string option" string
| DiagnosticEvent "'i permission_request" resolution_reason "string option" string

record broker_options =
  bo_eventDeliveryTimeoutMs :: rat
  bo_interactiveRequests :: bool
  bo_maxPendingRequestBytes :: rat
  bo_maxPendingRequests :: rat
  bo_requestTimeoutMs :: rat

text \<open>What a call returns or throws.\<close>

datatype request_error =
  AlreadyPending | TooManyPending | ByteBudgetExhausted | EventTooLarge | DeliveryFailed delivery_phase

datatype late_stage = LateRequested | LateResolution | LateSent

datatype call_phase =
  AwaitRequested | AwaitRecovery | AwaitDecision
| AwaitResolution
| Finished "request_error + permission_decision" "late_stage option"

record 'i permission_call =
  pc_input :: "'i permission_request"
  pc_runId :: "string option"
  pc_lifecycleId :: string
  pc_bytes :: nat
  pc_deferred :: "permission_resolution option"
  pc_fullBudget :: bool
  pc_turnTimer :: bool
  pc_resolution :: "permission_resolution option"
  pc_phase :: call_phase

record 'i broker =
  br_activeRequestIds :: "string list"
  br_activeRequestBytes :: nat
  br_cancellationDeliveries :: "(string \<times> nat) list"
  br_cancellationTask :: "nat option"
  br_closedRunId :: "string option"
  br_deliveryFailures :: "(string \<times> nat \<times> delivery_phase) list"
  br_idle :: bool
  br_resolvers :: "(string \<times> nat) list"
  br_calls :: "'i permission_call list"
  br_sent :: "(nat \<times> 'i permission_event list) list"
  br_tasks :: nat

definition PERMISSION_REQUEST_TIMEOUT_MS :: rat where
  "PERMISSION_REQUEST_TIMEOUT_MS = 5 * 60 * 1000"

definition PERMISSION_EVENT_DELIVERY_TIMEOUT_MS :: rat where
  "PERMISSION_EVENT_DELIVERY_TIMEOUT_MS = 10000"

definition MAX_PENDING_PERMISSION_REQUEST_BYTES :: rat where
  "MAX_PENDING_PERMISSION_REQUEST_BYTES = 8 * 1024 * 1024"

definition MAX_PENDING_PERMISSION_REQUESTS :: rat where
  "MAX_PENDING_PERMISSION_REQUESTS = 1024"

definition MAX_PERMISSION_REQUEST_EVENT_BYTES :: nat where
  "MAX_PERMISSION_REQUEST_EVENT_BYTES = 512 * 1024"

definition default_broker_options :: broker_options where
  "default_broker_options =
     \<lparr>bo_eventDeliveryTimeoutMs = PERMISSION_EVENT_DELIVERY_TIMEOUT_MS, bo_interactiveRequests = True,
      bo_maxPendingRequestBytes = MAX_PENDING_PERMISSION_REQUEST_BYTES,
      bo_maxPendingRequests = MAX_PENDING_PERMISSION_REQUESTS,
      bo_requestTimeoutMs = PERMISSION_REQUEST_TIMEOUT_MS\<rparr>"

text \<open>The constructor.\<close>

definition new_broker :: "'i broker" where
  "new_broker =
     \<lparr>br_activeRequestIds = [], br_activeRequestBytes = 0, br_cancellationDeliveries = [],
      br_cancellationTask = None, br_closedRunId = None, br_deliveryFailures = [], br_idle = False,
      br_resolvers = [], br_calls = [], br_sent = [], br_tasks = 0\<rparr>"

datatype broker_option_error = LimitsRange | RequestTimeoutRange | DeliveryTimeoutRange

definition createPermissionBroker :: "broker_options \<Rightarrow> broker_option_error + 'i broker" where
  "createPermissionBroker opts =
     (if list_ex (\<lambda>limit. \<not> is_safe_integer limit \<or> limit < 1)
           [bo_maxPendingRequestBytes opts, bo_maxPendingRequests opts] then Inl LimitsRange
      else if \<not> is_safe_integer (bo_requestTimeoutMs opts) \<or> bo_requestTimeoutMs opts < 0
      then Inl RequestTimeoutRange
      else if \<not> is_safe_integer (bo_eventDeliveryTimeoutMs opts) \<or> bo_eventDeliveryTimeoutMs opts < 0
      then Inl DeliveryTimeoutRange
      else Inr new_broker)"

section \<open>Events\<close>

definition resolution_diagnostics ::
    "'i permission_request \<Rightarrow> resolution_reason \<Rightarrow> string option \<Rightarrow> string \<Rightarrow> 'i permission_event list" where
  "resolution_diagnostics input reason runId lifecycleId =
     (if reason \<noteq> ReasonCancelled \<and> reason \<noteq> ReasonTimedOut then []
      else [DiagnosticEvent input reason runId lifecycleId])"

definition toResolutionEvents ::
    "'i permission_request \<Rightarrow> permission_resolution \<Rightarrow> string option \<Rightarrow> string \<Rightarrow> 'i permission_event list" where
  "toResolutionEvents input resolution runId lifecycleId =
     ResolvedEvent input resolution runId lifecycleId
       # resolution_diagnostics input (rs_reason resolution) runId lifecycleId"

text \<open>How \<open>pushLosslessEvents\<close> ended, and \<open>pushPermissionEvents\<close>, which tries once more when the
  outcome is unknown.\<close>

datatype push_outcome = PushOk | PushUnknown | PushFailed

definition pushPermissionEvents :: "push_outcome \<Rightarrow> push_outcome \<Rightarrow> push_outcome" where
  "pushPermissionEvents first again =
     (case first of
        PushUnknown \<Rightarrow> (case again of PushOk \<Rightarrow> PushOk | _ \<Rightarrow> PushUnknown)
      | outcome \<Rightarrow> outcome)"

definition permissionLifecycleId :: "(string option \<times> string \<Rightarrow> string) \<Rightarrow> string option \<Rightarrow> string \<Rightarrow> string" where
  "permissionLifecycleId digest runId requestId = ''permission:'' @ digest (runId, requestId)"

definition cancelled_resolution :: permission_resolution where
  "cancelled_resolution = \<lparr>rs_decision = RejectOnce, rs_reason = ReasonCancelled\<rparr>"

section \<open>Operations\<close>

text \<open>\<open>resolveRequest\<close>: a deferred keeps the first value it is given.\<close>

definition settle_deferred :: "permission_resolution \<Rightarrow> 'i permission_call \<Rightarrow> 'i permission_call" where
  "settle_deferred resolution c =
     (case pc_deferred c of None \<Rightarrow> c\<lparr>pc_deferred := Some resolution\<rparr> | Some _ \<Rightarrow> c)"

definition update_call :: "nat \<Rightarrow> ('i permission_call \<Rightarrow> 'i permission_call) \<Rightarrow> 'i broker \<Rightarrow> 'i broker" where
  "update_call i f st =
     (if i < length (br_calls st) then st\<lparr>br_calls := (br_calls st)[i := f (br_calls st ! i)]\<rparr> else st)"

definition resolveRequest :: "string \<Rightarrow> permission_resolution \<Rightarrow> 'i broker \<Rightarrow> bool \<times> 'i broker" where
  "resolveRequest requestId resolution st =
     (case map_of (br_resolvers st) requestId of
        None \<Rightarrow> (False, st)
      | Some i \<Rightarrow> (True, update_call i (settle_deferred resolution)
                      (st\<lparr>br_resolvers := AList.delete requestId (br_resolvers st)\<rparr>)))"

definition broker_resolve :: "string \<Rightarrow> permission_decision \<Rightarrow> 'i broker \<Rightarrow> bool \<times> 'i broker" where
  "broker_resolve requestId decision =
     resolveRequest requestId
       \<lparr>rs_decision = decision,
        rs_reason = (if decision = AllowOnce then ReasonApproved else ReasonRejected)\<rparr>"

definition hasPending :: "'i broker \<Rightarrow> bool" where
  "hasPending st \<longleftrightarrow> br_activeRequestIds st \<noteq> []"

definition useFullBudget :: "'i permission_call \<Rightarrow> 'i permission_call" where
  "useFullBudget c = c\<lparr>pc_fullBudget := True, pc_turnTimer := False\<rparr>"

definition useTurnBudget :: "'i permission_call \<Rightarrow> 'i permission_call" where
  "useTurnBudget c = (if pc_fullBudget c \<or> pc_turnTimer c then c else c\<lparr>pc_turnTimer := True\<rparr>)"

definition broker_reject_all :: "resolution_reason \<Rightarrow> bool \<Rightarrow> 'i broker \<Rightarrow> 'i broker" where
  "broker_reject_all reason turnBudget st =
     (let st' = fold (\<lambda>(_, i). update_call i (if turnBudget then useTurnBudget else useFullBudget))
                  (br_cancellationDeliveries st) st
      in fold (\<lambda>(requestId, _). snd \<circ> resolveRequest requestId \<lparr>rs_decision = RejectOnce, rs_reason = reason\<rparr>)
           (br_resolvers st') st')"

definition send_events :: "nat \<Rightarrow> 'i permission_event list \<Rightarrow> 'i broker \<Rightarrow> 'i broker" where
  "send_events i events st = st\<lparr>br_sent := br_sent st @ [(i, events)]\<rparr>"

definition requested_events :: "'i permission_call \<Rightarrow> 'i permission_event list" where
  "requested_events c = [RequestedEvent (pc_input c) (pc_runId c) (pc_lifecycleId c)]"

text \<open>The local \<open>resolutionEvents\<close>, made of the call's resolution once it has one.\<close>

definition resolution_events :: "'i permission_call \<Rightarrow> 'i permission_event list" where
  "resolution_events c =
     (case pc_resolution c of
        None \<Rightarrow> []
      | Some resolution \<Rightarrow> toResolutionEvents (pc_input c) resolution (pc_runId c) (pc_lifecycleId c))"

text \<open>The events a failed delivery is recovered with.\<close>

definition recovery_events :: "'i permission_call \<Rightarrow> delivery_phase \<Rightarrow> 'i permission_event list" where
  "recovery_events c failed =
     (case failed of
        PhaseRequested \<Rightarrow> requested_events c @ resolution_events c
      | PhaseResolved \<Rightarrow> resolution_events c)"

text \<open>\<open>#recoverDeliveryFailures\<close>: every recovery starts; one that succeeds deletes its failure,
  if the entry is still the same; the first failure left is thrown.\<close>

definition recover_starts :: "'i broker \<Rightarrow> 'i broker" where
  "recover_starts st =
     fold (\<lambda>(_, i, failed) st. if i < length (br_calls st)
                               then send_events i (recovery_events (br_calls st ! i) failed) st else st)
       (br_deliveryFailures st) st"

definition recover_succeeds :: "string \<Rightarrow> nat \<Rightarrow> 'i broker \<Rightarrow> 'i broker" where
  "recover_succeeds lifecycleId i st =
     (case map_of (br_deliveryFailures st) lifecycleId of
        Some (j, _) \<Rightarrow> if i = j then st\<lparr>br_deliveryFailures := AList.delete lifecycleId (br_deliveryFailures st)\<rparr>
                       else st
      | None \<Rightarrow> st)"

definition recover_result :: "'i broker \<Rightarrow> delivery_phase + unit" where
  "recover_result st =
     (case br_deliveryFailures st of
        [] \<Rightarrow> Inr ()
      | (_, _, failed) # _ \<Rightarrow> Inl failed)"

text \<open>\<open>rejectAllAndWait\<close>: with nothing pending the recovery starts at once, otherwise a task waits
  for \<open>#idle\<close>, one task for all callers; a task that settles is forgotten if it is still the
  current one.\<close>

definition rejectAllAndWait :: "resolution_reason \<Rightarrow> 'i broker \<Rightarrow> 'i broker" where
  "rejectAllAndWait reason st =
     (let st' = broker_reject_all reason False st
      in if \<not> hasPending st' then recover_starts st'
         else if br_cancellationTask st' \<noteq> None then st'
         else st'\<lparr>br_cancellationTask := Some (br_tasks st'), br_tasks := Suc (br_tasks st')\<rparr>)"

definition cancellation_settles :: "nat \<Rightarrow> 'i broker \<Rightarrow> 'i broker" where
  "cancellation_settles task st =
     (if br_cancellationTask st = Some task then st\<lparr>br_cancellationTask := None\<rparr> else st)"

definition rejectRunAndWait :: "string \<Rightarrow> resolution_reason \<Rightarrow> 'i broker \<Rightarrow> 'i broker" where
  "rejectRunAndWait runId reason st =
     (let st' = st\<lparr>br_closedRunId := Some runId\<rparr>
      in if \<not> hasPending st' \<and> br_deliveryFailures st' = [] then broker_reject_all reason False st'
         else rejectAllAndWait reason st')"

section \<open>A request\<close>

text \<open>Up to the first await.\<close>

datatype request_start = Starts nat | Returns permission_decision | Throws request_error

definition cancel_call :: "nat \<Rightarrow> 'i broker \<Rightarrow> 'i broker" where
  "cancel_call i st =
     (if i < length (br_calls st) then
        let requestId = pq_requestId (pc_input (br_calls st ! i));
            st' = update_call i useTurnBudget st
        in if map_of (br_resolvers st') requestId = Some i
           then snd (resolveRequest requestId cancelled_resolution st')
           else st'
      else st)"

text \<open>The checks that return or throw at once.\<close>

definition refuse_request ::
    "broker_options \<Rightarrow> ('i permission_request \<Rightarrow> nat) \<Rightarrow> ('i permission_event \<Rightarrow> nat)
      \<Rightarrow> (string option \<times> string \<Rightarrow> string) \<Rightarrow> 'i permission_request \<Rightarrow> string option \<Rightarrow> bool
      \<Rightarrow> 'i broker \<Rightarrow> request_start option" where
  "refuse_request opts json_bytes event_bytes digest input runId isCurrentRun st =
     (let requestId = pq_requestId input
      in if \<not> bo_interactiveRequests opts then Some (Returns RejectOnce)
         else if \<not> isCurrentRun \<or> (runId \<noteq> None \<and> br_closedRunId st = runId) then Some (Returns RejectOnce)
         else if requestId \<in> set (br_activeRequestIds st) then Some (Throws AlreadyPending)
         else if of_nat (length (br_activeRequestIds st)) \<ge> bo_maxPendingRequests opts
         then Some (Throws TooManyPending)
         else if of_nat (json_bytes input)
                 > bo_maxPendingRequestBytes opts - of_nat (br_activeRequestBytes st)
         then Some (Throws ByteBudgetExhausted)
         else if event_bytes (RequestedEvent input runId (permissionLifecycleId digest runId requestId))
                 > MAX_PERMISSION_REQUEST_EVENT_BYTES
         then Some (Throws EventTooLarge)
         else None)"

definition new_call ::
    "('i permission_request \<Rightarrow> nat) \<Rightarrow> (string option \<times> string \<Rightarrow> string) \<Rightarrow> 'i permission_request
      \<Rightarrow> string option \<Rightarrow> 'i permission_call" where
  "new_call json_bytes digest input runId =
     \<lparr>pc_input = input, pc_runId = runId,
      pc_lifecycleId = permissionLifecycleId digest runId (pq_requestId input),
      pc_bytes = json_bytes input, pc_deferred = None, pc_fullBudget = False, pc_turnTimer = False,
      pc_resolution = None, pc_phase = AwaitRequested\<rparr>"

definition register_call :: "'i permission_call \<Rightarrow> 'i broker \<Rightarrow> 'i broker" where
  "register_call c st =
     (let i = length (br_calls st);
          requestId = pq_requestId (pc_input c);
          st' = (if hasPending st then st else st\<lparr>br_cancellationTask := None, br_idle := True\<rparr>)
      in st'\<lparr>br_calls := br_calls st' @ [c],
             br_cancellationDeliveries := AList.update requestId i (br_cancellationDeliveries st'),
             br_resolvers := AList.update requestId i (br_resolvers st'),
             br_activeRequestIds := br_activeRequestIds st' @ [requestId],
             br_activeRequestBytes := br_activeRequestBytes st' + pc_bytes c\<rparr>)"

definition broker_request ::
    "broker_options \<Rightarrow> ('i permission_request \<Rightarrow> nat) \<Rightarrow> ('i permission_event \<Rightarrow> nat)
      \<Rightarrow> (string option \<times> string \<Rightarrow> string) \<Rightarrow> 'i permission_request \<Rightarrow> bool \<Rightarrow> string option \<Rightarrow> bool
      \<Rightarrow> 'i broker \<Rightarrow> request_start \<times> 'i broker" where
  "broker_request opts json_bytes event_bytes digest input aborted runId isCurrentRun st =
     (case refuse_request opts json_bytes event_bytes digest input runId isCurrentRun st of
        Some refused \<Rightarrow> (refused, st)
      | None \<Rightarrow>
          let i = length (br_calls st);
              c = new_call json_bytes digest input runId;
              registered = register_call c st;
              st' = (if aborted then cancel_call i registered else registered)
          in (Starts i, send_events i (requested_events c) st'))"

text \<open>\<open>releaseLease\<close> and the \<open>finally\<close> block, which leaves the lease to a late delivery.\<close>

definition releaseLease :: "'i permission_call \<Rightarrow> 'i broker \<Rightarrow> 'i broker" where
  "releaseLease c st =
     (let requestId = pq_requestId (pc_input c);
          st' = st\<lparr>br_activeRequestIds := removeAll requestId (br_activeRequestIds st),
                   br_activeRequestBytes := br_activeRequestBytes st - pc_bytes c,
                   br_cancellationDeliveries := AList.delete requestId (br_cancellationDeliveries st)\<rparr>
      in if \<not> hasPending st' then st'\<lparr>br_idle := False\<rparr> else st')"

definition unregister :: "nat \<Rightarrow> 'i permission_call \<Rightarrow> 'i broker \<Rightarrow> 'i broker" where
  "unregister i c st =
     (if map_of (br_resolvers st) (pq_requestId (pc_input c)) = Some i
      then st\<lparr>br_resolvers := AList.delete (pq_requestId (pc_input c)) (br_resolvers st)\<rparr> else st)"

definition finish_call ::
    "nat \<Rightarrow> 'i permission_call \<Rightarrow> request_error + permission_decision \<Rightarrow> late_stage option
      \<Rightarrow> 'i broker \<Rightarrow> 'i broker" where
  "finish_call i c result late st =
     (let st' = update_call i (\<lambda>_. c\<lparr>pc_phase := Finished result late\<rparr>) (unregister i c st)
      in if late = None then releaseLease c st' else st')"

text \<open>The resolution is sent, and the call waits for its delivery.\<close>

definition send_resolution ::
    "nat \<Rightarrow> 'i permission_call \<Rightarrow> permission_resolution \<Rightarrow> bool \<Rightarrow> 'i broker \<Rightarrow> 'i broker" where
  "send_resolution i c value isCurrentRun st =
     (let resolution = (if isCurrentRun then value else cancelled_resolution);
          c' = c\<lparr>pc_resolution := Some resolution, pc_phase := AwaitResolution\<rparr>
      in send_events i (resolution_events c') (update_call i (\<lambda>_. c') (unregister i c st)))"

definition set_failure :: "nat \<Rightarrow> 'i permission_call \<Rightarrow> delivery_phase \<Rightarrow> 'i broker \<Rightarrow> 'i broker" where
  "set_failure i c failed st =
     st\<lparr>br_deliveryFailures := AList.update (pc_lifecycleId c) (i, failed) (br_deliveryFailures st)\<rparr>"

definition delete_failure :: "'i permission_call \<Rightarrow> 'i broker \<Rightarrow> 'i broker" where
  "delete_failure c st = st\<lparr>br_deliveryFailures := AList.delete (pc_lifecycleId c) (br_deliveryFailures st)\<rparr>"

text \<open>How \<open>settlePromiseWithTimeout\<close> of a delivery ended.\<close>

datatype delivery_settled = SettledOk | SettledUnknown | SettledFailed | SettledTimedOut

definition requested_settles :: "nat \<Rightarrow> delivery_settled \<Rightarrow> bool \<Rightarrow> 'i permission_call \<Rightarrow> 'i broker \<Rightarrow> 'i broker" where
  "requested_settles i delivery isCurrentRun c st =
     (let cancelled = c\<lparr>pc_resolution := Some cancelled_resolution\<rparr>
      in case delivery of
        SettledOk \<Rightarrow>
          if isCurrentRun then update_call i (\<lambda>_. c\<lparr>pc_phase := AwaitDecision\<rparr>) st
          else send_resolution i c cancelled_resolution isCurrentRun st
      | SettledFailed \<Rightarrow> finish_call i c (Inl (DeliveryFailed PhaseRequested)) None st
      | SettledTimedOut \<Rightarrow>
          finish_call i cancelled (Inl (DeliveryFailed PhaseRequested)) (Some LateRequested)
            (set_failure i c PhaseRequested st)
      | SettledUnknown \<Rightarrow>
          send_events i (recovery_events cancelled PhaseRequested)
            (update_call i (\<lambda>_. cancelled\<lparr>pc_phase := AwaitRecovery\<rparr>) (set_failure i c PhaseRequested st)))"

definition recovery_settles :: "nat \<Rightarrow> delivery_settled \<Rightarrow> 'i permission_call \<Rightarrow> 'i broker \<Rightarrow> 'i broker" where
  "recovery_settles i delivery c st =
     (case delivery of
        SettledOk \<Rightarrow> finish_call i c (Inr RejectOnce) None (delete_failure c st)
      | SettledTimedOut \<Rightarrow> finish_call i c (Inl (DeliveryFailed PhaseRequested)) (Some LateSent) st
      | _ \<Rightarrow> finish_call i c (Inl (DeliveryFailed PhaseRequested)) None st)"

definition decision_settles :: "nat \<Rightarrow> bool \<Rightarrow> bool \<Rightarrow> 'i permission_call \<Rightarrow> 'i broker \<Rightarrow> 'i broker" where
  "decision_settles i timedOut isCurrentRun c st =
     (if timedOut
      then send_resolution i c \<lparr>rs_decision = RejectOnce, rs_reason = ReasonTimedOut\<rparr> isCurrentRun st
      else case pc_deferred c of
        None \<Rightarrow> st
      | Some value \<Rightarrow> send_resolution i c value isCurrentRun st)"

definition resolution_settles ::
    "nat \<Rightarrow> delivery_settled \<Rightarrow> bool \<Rightarrow> 'i permission_call \<Rightarrow> 'i broker \<Rightarrow> 'i broker" where
  "resolution_settles i delivery isCurrentRun c st =
     (case delivery of
        SettledOk \<Rightarrow>
          finish_call i c
            (Inr (case pc_resolution c of
                    Some resolution \<Rightarrow> if isCurrentRun then rs_decision resolution else RejectOnce
                  | None \<Rightarrow> RejectOnce))
            None (delete_failure c st)
      | SettledTimedOut \<Rightarrow>
          finish_call i c (Inl (DeliveryFailed PhaseResolved)) (Some LateResolution)
            (set_failure i c PhaseResolved st)
      | _ \<Rightarrow> finish_call i c (Inl (DeliveryFailed PhaseResolved)) None (set_failure i c PhaseResolved st))"

text \<open>A late delivery settles: the first one is followed by what closes the lifecycle, and the
  lease is released when that settles.\<close>

definition late_again :: "nat \<Rightarrow> 'i permission_call \<Rightarrow> 'i permission_event list \<Rightarrow> request_error + permission_decision \<Rightarrow> 'i broker \<Rightarrow> 'i broker" where
  "late_again i c events result st =
     send_events i events (update_call i (\<lambda>_. c\<lparr>pc_phase := Finished result (Some LateSent)\<rparr>) st)"

definition late_over :: "nat \<Rightarrow> 'i permission_call \<Rightarrow> request_error + permission_decision \<Rightarrow> 'i broker \<Rightarrow> 'i broker" where
  "late_over i c result st =
     releaseLease c (update_call i (\<lambda>_. c\<lparr>pc_phase := Finished result None\<rparr>) st)"

definition late_settles ::
    "nat \<Rightarrow> bool \<Rightarrow> request_error + permission_decision \<Rightarrow> late_stage \<Rightarrow> 'i permission_call \<Rightarrow> 'i broker \<Rightarrow> 'i broker" where
  "late_settles i ok result stage c st =
     (case stage of
        LateRequested \<Rightarrow>
          late_again i c (if ok then resolution_events c else recovery_events c PhaseRequested) result st
      | LateResolution \<Rightarrow>
          if ok then late_over i c result (delete_failure c st)
          else late_again i c (resolution_events c) result st
      | LateSent \<Rightarrow> late_over i c result (if ok then delete_failure c st else st))"

section \<open>Sequences of operations\<close>

datatype 'i broker_op =
  OpRequest "'i permission_request" bool "string option" bool
| OpRequestedSettles nat delivery_settled bool
| OpRecoverySettles nat delivery_settled
| OpDecisionSettles nat bool bool
| OpResolutionSettles nat delivery_settled bool
| OpLateSettles nat bool
| OpAbort nat
| OpResolve string permission_decision
| OpRejectAll resolution_reason
| OpRejectAllAndWait resolution_reason
| OpRejectRunAndWait string resolution_reason
| OpIdleSettles
| OpCancellationSettles nat
| OpRecovered string nat

text \<open>An operation on a call applies when the call stands where the operation resumes it.\<close>

definition on_call :: "nat \<Rightarrow> ('i permission_call \<Rightarrow> 'i broker \<Rightarrow> 'i broker) \<Rightarrow> 'i broker \<Rightarrow> 'i broker" where
  "on_call i f st = (if i < length (br_calls st) then f (br_calls st ! i) st else st)"

fun broker_step ::
    "broker_options \<Rightarrow> ('i permission_request \<Rightarrow> nat) \<Rightarrow> ('i permission_event \<Rightarrow> nat)
      \<Rightarrow> (string option \<times> string \<Rightarrow> string) \<Rightarrow> 'i broker_op \<Rightarrow> 'i broker \<Rightarrow> 'i broker" where
  "broker_step opts jb eb digest (OpRequest input aborted runId current) st =
     snd (broker_request opts jb eb digest input aborted runId current st)"
| "broker_step opts jb eb digest (OpRequestedSettles i delivery current) st =
     on_call i (\<lambda>c. if pc_phase c = AwaitRequested then requested_settles i delivery current c else id) st"
| "broker_step opts jb eb digest (OpRecoverySettles i delivery) st =
     on_call i (\<lambda>c. if pc_phase c = AwaitRecovery then recovery_settles i delivery c else id) st"
| "broker_step opts jb eb digest (OpDecisionSettles i timedOut current) st =
     on_call i (\<lambda>c. if pc_phase c = AwaitDecision then decision_settles i timedOut current c else id) st"
| "broker_step opts jb eb digest (OpResolutionSettles i delivery current) st =
     on_call i (\<lambda>c. case pc_phase c of
         AwaitResolution \<Rightarrow> resolution_settles i delivery current c
       | _ \<Rightarrow> id) st"
| "broker_step opts jb eb digest (OpLateSettles i ok) st =
     on_call i (\<lambda>c. case pc_phase c of
         Finished result (Some stage) \<Rightarrow> late_settles i ok result stage c
       | _ \<Rightarrow> id) st"
| "broker_step opts jb eb digest (OpAbort i) st =
     on_call i (\<lambda>c. case pc_phase c of Finished _ _ \<Rightarrow> id | _ \<Rightarrow> cancel_call i) st"
| "broker_step opts jb eb digest (OpResolve requestId decision) st = snd (broker_resolve requestId decision st)"
| "broker_step opts jb eb digest (OpRejectAll reason) st = broker_reject_all reason True st"
| "broker_step opts jb eb digest (OpRejectAllAndWait reason) st = rejectAllAndWait reason st"
| "broker_step opts jb eb digest (OpRejectRunAndWait runId reason) st = rejectRunAndWait runId reason st"
| "broker_step opts jb eb digest OpIdleSettles st = recover_starts st"
| "broker_step opts jb eb digest (OpCancellationSettles task) st = cancellation_settles task st"
| "broker_step opts jb eb digest (OpRecovered lifecycleId i) st = recover_succeeds lifecycleId i st"

definition broker_run ::
    "broker_options \<Rightarrow> ('i permission_request \<Rightarrow> nat) \<Rightarrow> ('i permission_event \<Rightarrow> nat)
      \<Rightarrow> (string option \<times> string \<Rightarrow> string) \<Rightarrow> 'i broker_op list \<Rightarrow> 'i broker \<Rightarrow> 'i broker" where
  "broker_run opts jb eb digest ops st = fold (broker_step opts jb eb digest) ops st"

section \<open>The invariant\<close>

text \<open>A call holds its lease until it has finished with nothing late.\<close>

definition leased :: "'i permission_call \<Rightarrow> bool" where
  "leased c \<longleftrightarrow> (case pc_phase c of Finished _ None \<Rightarrow> False | _ \<Rightarrow> True)"

definition call_id :: "'i permission_call \<Rightarrow> string" where
  "call_id c = pq_requestId (pc_input c)"

definition deciding :: "'i permission_call \<Rightarrow> bool" where
  "deciding c \<longleftrightarrow> pc_phase c = AwaitRequested \<or> pc_phase c = AwaitRecovery \<or> pc_phase c = AwaitDecision"

text \<open>The bytes of the leased calls, and their identifiers, each once.\<close>

definition leased_bytes :: "'i permission_call list \<Rightarrow> nat" where
  "leased_bytes cs = sum_list (map pc_bytes (filter leased cs))"

definition leases_ok :: "'i broker \<Rightarrow> bool" where
  "leases_ok st \<longleftrightarrow>
     distinct (br_activeRequestIds st) \<and> distinct (map call_id (filter leased (br_calls st)))
     \<and> set (br_activeRequestIds st) = call_id ` set (filter leased (br_calls st))
     \<and> br_activeRequestBytes st = leased_bytes (br_calls st)
     \<and> (br_idle st \<longleftrightarrow> br_activeRequestIds st \<noteq> [])"

text \<open>Exactly the undecided calls are registered.\<close>

definition resolvers_ok :: "'i broker \<Rightarrow> bool" where
  "resolvers_ok st \<longleftrightarrow>
     (\<forall>requestId i. map_of (br_resolvers st) requestId = Some i \<longleftrightarrow>
        i < length (br_calls st) \<and> call_id (br_calls st ! i) = requestId
        \<and> deciding (br_calls st ! i) \<and> pc_deferred (br_calls st ! i) = None)"

section \<open>Operations that keep every lease\<close>

definition same_lease :: "'i permission_call \<Rightarrow> 'i permission_call \<Rightarrow> bool" where
  "same_lease c d \<longleftrightarrow> leased d = leased c \<and> pc_input d = pc_input c \<and> pc_bytes d = pc_bytes c"

definition calm :: "'i broker \<Rightarrow> 'i broker \<Rightarrow> bool" where
  "calm st st' \<longleftrightarrow> br_activeRequestIds st' = br_activeRequestIds st
     \<and> br_activeRequestBytes st' = br_activeRequestBytes st \<and> br_idle st' = br_idle st
     \<and> list_all2 same_lease (br_calls st) (br_calls st')"

lemma same_lease_refl [simp]: "same_lease c c"
  by (simp add: same_lease_def)

lemma same_lease_trans: "same_lease c d \<Longrightarrow> same_lease d e \<Longrightarrow> same_lease c e"
  by (simp add: same_lease_def)

lemma calm_refl [simp, intro]: "calm st st"
  by (simp add: calm_def list_all2_refl)

lemma calm_trans:
  assumes "calm st st'" "calm st' st''"
  shows "calm st st''"
proof -
  have "list_all2 same_lease (br_calls st) (br_calls st'')"
    by (rule list_all2_trans [OF same_lease_trans]) (use assms in \<open>auto simp: calm_def\<close>)
  with assms show ?thesis by (simp add: calm_def)
qed

lemma calm_update_call:
  assumes "\<And>c. same_lease c (f c)"
  shows "calm st (update_call i f st)"
proof (cases "i < length (br_calls st)")
  case True
  have "list_all2 same_lease (br_calls st) ((br_calls st)[i := f (br_calls st ! i)])"
    unfolding list_all2_conv_all_nth using True assms by (simp add: nth_list_update)
  with True show ?thesis by (simp add: update_call_def calm_def)
qed (simp add: update_call_def)

lemma calm_fields [intro]:
  assumes "calm st s"
  shows "calm st (s\<lparr>br_resolvers := r\<rparr>)" "calm st (s\<lparr>br_closedRunId := x\<rparr>)"
    "calm st (s\<lparr>br_deliveryFailures := f\<rparr>)" "calm st (s\<lparr>br_cancellationTask := t\<rparr>)"
    "calm st (s\<lparr>br_cancellationTask := t, br_tasks := n\<rparr>)" "calm st (send_events i es s)"
  using assms by (simp_all add: calm_def send_events_def)

lemma calm_update [intro]: "calm st s \<Longrightarrow> (\<And>c. same_lease c (f c)) \<Longrightarrow> calm st (update_call i f s)"
  by (rule calm_trans [OF _ calm_update_call])

lemma calm_fold [intro]: "calm st s \<Longrightarrow> (\<And>x s. calm st s \<Longrightarrow> calm st (f x s)) \<Longrightarrow> calm st (fold f xs s)"
  by (induction xs arbitrary: s) auto

lemma same_lease_budget [simp, intro]:
  "same_lease c (settle_deferred r c)" "same_lease c (useTurnBudget c)" "same_lease c (useFullBudget c)"
  by (simp_all add: same_lease_def settle_deferred_def useTurnBudget_def useFullBudget_def leased_def
      split: option.split)

lemma calm_resolveRequest [intro]: "calm st s \<Longrightarrow> calm st (snd (resolveRequest requestId resolution s))"
  by (auto simp: resolveRequest_def split: option.split)

lemma calm_reject_all [intro]: "calm st s \<Longrightarrow> calm st (broker_reject_all reason turn s)"
  unfolding broker_reject_all_def Let_def by (intro calm_fold) (auto split: prod.split)

lemma calm_recover_starts [intro]: "calm st s \<Longrightarrow> calm st (recover_starts s)"
  unfolding recover_starts_def by (rule calm_fold) (auto split: prod.split)

lemma calm_unregister [intro]: "calm st s \<Longrightarrow> calm st (unregister i c s)"
  by (auto simp: unregister_def)

lemma calm_cancel_call [intro]: "calm st s \<Longrightarrow> calm st (cancel_call i s)"
  by (auto simp: cancel_call_def Let_def)

lemma calm_rejectAllAndWait [intro]: "calm st s \<Longrightarrow> calm st (rejectAllAndWait reason s)"
  by (auto simp: rejectAllAndWait_def Let_def)

lemma calm_leases:
  assumes "calm st st'" "leases_ok st"
  shows "leases_ok st'"
proof -
  have "list_all2 same_lease cs ds \<Longrightarrow>
      map call_id (filter leased ds) = map call_id (filter leased cs) \<and> leased_bytes ds = leased_bytes cs"
    for cs ds :: "'a permission_call list"
    by (induction rule: list_all2_induct) (auto simp: same_lease_def call_id_def leased_bytes_def)
  then have same: "map call_id (filter leased (br_calls st')) = map call_id (filter leased (br_calls st))"
      "leased_bytes (br_calls st') = leased_bytes (br_calls st)"
    using assms(1) by (auto simp: calm_def)
  then have "call_id ` set (filter leased (br_calls st')) = call_id ` set (filter leased (br_calls st))"
    by (metis list.set_map)
  with same assms show ?thesis unfolding leases_ok_def calm_def by simp
qed

section \<open>A lease taken and given back\<close>

lemma register_leases:
  assumes "leases_ok st" "leased c" "call_id c \<notin> set (br_activeRequestIds st)"
  shows "leases_ok (register_call c st)"
proof -
  have "call_id c \<notin> call_id ` set (filter leased (br_calls st))"
    using assms(1,3) by (simp add: leases_ok_def)
  then show ?thesis
    using assms unfolding leases_ok_def leased_bytes_def hasPending_def register_call_def Let_def call_id_def
    by auto
qed

lemma refuse_None: "refuse_request opts jb eb digest input runId current st = None \<Longrightarrow>
    pq_requestId input \<notin> set (br_activeRequestIds st)
    \<and> of_nat (length (br_activeRequestIds st)) < bo_maxPendingRequests opts
    \<and> of_nat (jb input) \<le> bo_maxPendingRequestBytes opts - of_nat (br_activeRequestBytes st)"
  by (auto simp: refuse_request_def Let_def split: if_splits)

lemma new_call_simps [simp]:
  "leased (new_call jb digest input runId)" "call_id (new_call jb digest input runId) = pq_requestId input"
  "pc_bytes (new_call jb digest input runId) = jb input" "pc_input (new_call jb digest input runId) = input"
  "pc_phase (new_call jb digest input runId) = AwaitRequested"
  "pc_deferred (new_call jb digest input runId) = None" "pc_resolution (new_call jb digest input runId) = None"
  by (simp_all add: new_call_def leased_def call_id_def)

text \<open>A request is refused, or registers a call whose identifier is free.\<close>

lemma request_cases:
  assumes "broker_request opts jb eb digest input aborted runId current st = (start, st')"
  obtains "st' = st"
  | c where "c = new_call jb digest input runId" "start = Starts (length (br_calls st))"
      "refuse_request opts jb eb digest input runId current st = None"
      "st' = send_events (length (br_calls st)) (requested_events c)
         (if aborted then cancel_call (length (br_calls st)) (register_call c st) else register_call c st)"
  using assms by (auto simp: broker_request_def Let_def split: option.splits)

lemma request_leases:
  assumes "leases_ok st"
  shows "leases_ok (snd (broker_request opts jb eb digest input aborted runId current st))"
proof -
  obtain start st' where req: "broker_request opts jb eb digest input aborted runId current st = (start, st')"
    by (rule prod.exhaust)
  then show ?thesis
  proof (cases rule: request_cases)
    case (2 c)
    have "leases_ok (register_call c st)"
      using refuse_None [OF 2(3)] assms by (intro register_leases) (simp_all add: 2(1))
    moreover have "calm (register_call c st) st'" unfolding 2(4) by auto
    ultimately show ?thesis using calm_leases req by simp
  qed (use assms req in simp)
qed

lemma leased_update:
  assumes "i < length cs" "leased (cs ! i)" "\<not> leased d" "distinct (map call_id (filter leased cs))"
  shows "distinct (map call_id (filter leased (cs[i := d])))"
    "call_id ` set (filter leased (cs[i := d])) = call_id ` set (filter leased cs) - {call_id (cs ! i)}"
    "leased_bytes (cs[i := d]) = leased_bytes cs - pc_bytes (cs ! i)"
proof -
  obtain xs ys where cs: "cs = xs @ cs ! i # ys" "length xs = i"
    using assms(1) id_take_nth_drop [of i cs] by auto
  then have upd: "cs[i := d] = xs @ d # ys" by (metis list_update_length)
  have fil: "filter leased (cs[i := d]) = filter leased (xs @ ys)"
      "map call_id (filter leased cs) = map call_id (filter leased xs) @ call_id (cs ! i) # map call_id (filter leased ys)"
    using assms(2,3) by (simp add: upd, subst cs(1), simp)
  show "distinct (map call_id (filter leased (cs[i := d])))"
    using assms(4) unfolding fil by (simp add: fil(1))
  have "set (map call_id (filter leased (xs @ ys))) = set (map call_id (filter leased cs)) - {call_id (cs ! i)}"
    using assms(4) unfolding fil(2) by auto
  then show "call_id ` set (filter leased (cs[i := d])) = call_id ` set (filter leased cs) - {call_id (cs ! i)}"
    unfolding fil(1) by (metis list.set_map)
  have "leased_bytes cs = leased_bytes (xs @ ys) + pc_bytes (cs ! i)"
    using assms(2) by (subst cs(1)) (simp add: leased_bytes_def)
  then show "leased_bytes (cs[i := d]) = leased_bytes cs - pc_bytes (cs ! i)"
    by (simp add: leased_bytes_def fil(1))
qed

lemma release_leases:
  assumes "leases_ok st" "i < length (br_calls st)" "leased c" "same_lease (br_calls st ! i) c"
  shows "leases_ok (releaseLease c (update_call i (\<lambda>_. c\<lparr>pc_phase := Finished result None\<rparr>) st))"
proof -
  let ?d = "c\<lparr>pc_phase := Finished result None\<rparr>"
  have c: "leased (br_calls st ! i)" "call_id (br_calls st ! i) = call_id c" "pc_bytes (br_calls st ! i) = pc_bytes c"
    using assms(3,4) by (simp_all add: same_lease_def call_id_def)
  have not: "\<not> leased ?d" by (simp add: leased_def)
  have dist: "distinct (map call_id (filter leased (br_calls st)))" using assms(1) by (simp add: leases_ok_def)
  note upd = leased_update [OF assms(2) c(1) not dist, unfolded c(2,3)]
  let ?st = "releaseLease c (update_call i (\<lambda>_. c\<lparr>pc_phase := Finished result None\<rparr>) st)"
  let ?ids = "removeAll (call_id c) (br_activeRequestIds st)"
  have st: "br_activeRequestIds ?st = ?ids" "br_calls ?st = (br_calls st)[i := ?d]"
    "br_activeRequestBytes ?st = br_activeRequestBytes st - pc_bytes c"
    "br_idle ?st = (if ?ids = [] then False else br_idle st)"
    using assms(2) by (simp_all add: releaseLease_def Let_def update_call_def hasPending_def call_id_def)
  have "set ?ids = call_id ` set (filter leased ((br_calls st)[i := ?d]))"
    unfolding upd(2) using assms(1) by (simp add: leases_ok_def)
  moreover have "distinct ?ids" using assms(1) by (simp add: leases_ok_def distinct_removeAll)
  moreover have "br_idle st" if "?ids \<noteq> []"
  proof -
    have "br_activeRequestIds st \<noteq> []" using that by auto
    then show ?thesis using assms(1) by (simp add: leases_ok_def)
  qed
  ultimately show ?thesis
    using assms(1) upd(1,3) unfolding leases_ok_def st by simp
qed

text \<open>The operations on a call, given how the call stands.\<close>

lemma same_lease_change [intro]:
  assumes "same_lease c d" "leased c" "\<forall>r. phase \<noteq> Finished r None"
  shows "same_lease c (d\<lparr>pc_phase := phase\<rparr>)" "same_lease c (d\<lparr>pc_resolution := r, pc_phase := phase\<rparr>)"
  using assms by (auto simp: same_lease_def leased_def split: call_phase.splits option.splits)

lemma same_lease_resolution [simp]: "same_lease c (c\<lparr>pc_resolution := r\<rparr>)"
  by (simp add: same_lease_def leased_def)

lemma calm_put:
  assumes "calm st s" "i < length (br_calls st)" "same_lease (br_calls st ! i) d"
  shows "calm st (update_call i (\<lambda>_. d) s)"
proof -
  have "list_all2 same_lease ((br_calls st)[i := br_calls st ! i]) ((br_calls s)[i := d])"
    using assms by (intro list_all2_update_cong) (simp_all add: calm_def)
  with assms(1) show ?thesis by (simp add: calm_def update_call_def)
qed

lemma calm_send_resolution:
  assumes "i < length (br_calls st)" "leased (br_calls st ! i)"
  shows "calm st (send_resolution i (br_calls st ! i) value current st)"
proof -
  have "calm st (unregister i (br_calls st ! i) st)" by auto
  from calm_put [OF this assms(1)] assms(2) show ?thesis
    unfolding send_resolution_def Let_def by (intro calm_fields(6)) (auto simp: leased_def same_lease_def)
qed

lemma calm_failures [intro]:
  "calm st s \<Longrightarrow> calm st (set_failure i c failed s)" "calm st s \<Longrightarrow> calm st (delete_failure c s)"
  by (auto simp: set_failure_def delete_failure_def)

text \<open>What one operation does to the leases: nothing, or the lease of one call ends.\<close>

definition lease_ends :: "'i broker \<Rightarrow> 'i broker \<Rightarrow> bool" where
  "lease_ends st st' \<longleftrightarrow>
     (\<exists>i s c result. st' = releaseLease c (update_call i (\<lambda>_. c\<lparr>pc_phase := Finished result None\<rparr>) s)
        \<and> calm st s \<and> i < length (br_calls st) \<and> leased (br_calls st ! i) \<and> same_lease (br_calls st ! i) c)"

definition steady :: "'i broker \<Rightarrow> 'i broker \<Rightarrow> bool" where
  "steady st st' \<longleftrightarrow> calm st st' \<or> lease_ends st st'"

lemma steady_calm: "calm st st' \<Longrightarrow> steady st st'"
  by (simp add: steady_def)

lemma steady_finish:
  assumes "calm st s" "i < length (br_calls st)" "leased (br_calls st ! i)" "same_lease (br_calls st ! i) c"
  shows "steady st (finish_call i c result late s)"
proof -
  have u: "calm st (unregister i c s)" using assms(1) by auto
  show ?thesis
  proof (cases late)
    case None
    then show ?thesis
      using assms u unfolding steady_def lease_ends_def finish_call_def by auto
  next
    case (Some stage)
    have "calm st (update_call i (\<lambda>_. c\<lparr>pc_phase := Finished result (Some stage)\<rparr>) (unregister i c s))"
      using assms(3,4) by (intro calm_put [OF u assms(2)]) auto
    with Some show ?thesis by (simp add: finish_call_def steady_calm)
  qed
qed

lemma steady_late_over:
  "calm st s \<Longrightarrow> i < length (br_calls st) \<Longrightarrow> leased (br_calls st ! i) \<Longrightarrow>
     steady st (late_over i (br_calls st ! i) result s)"
  unfolding steady_def lease_ends_def late_over_def
  by (intro disjI2 exI conjI, rule refl) simp_all

lemma steady_leases:
  assumes "steady st st'" "leases_ok st"
  shows "leases_ok st'"
  using assms(1) unfolding steady_def
proof
  assume "lease_ends st st'"
  then obtain i s c result where
    st': "st' = releaseLease c (update_call i (\<lambda>_. c\<lparr>pc_phase := Finished result None\<rparr>) s)" and
    s: "calm st s" "i < length (br_calls st)" "leased (br_calls st ! i)" "same_lease (br_calls st ! i) c"
    unfolding lease_ends_def by blast
  then have "i < length (br_calls s)" "same_lease (br_calls s ! i) c" "leased c"
    by (auto simp: calm_def list_all2_conv_all_nth same_lease_def)
  then show ?thesis
    unfolding st' by (intro release_leases calm_leases [OF s(1) assms(2)])
qed (rule calm_leases [OF _ assms(2)])

lemma steady_counts:
  "steady st st' \<Longrightarrow> length (br_activeRequestIds st') \<le> length (br_activeRequestIds st)
     \<and> br_activeRequestBytes st' \<le> br_activeRequestBytes st"
  unfolding steady_def lease_ends_def
  by (auto simp: calm_def releaseLease_def Let_def update_call_def)

lemma step_steady:
  assumes "\<forall>input aborted runId current. op \<noteq> OpRequest input aborted runId current"
  shows "steady st (broker_step opts jb eb digest op st)"
proof (cases op)
  case (OpRequestedSettles i delivery current)
  have "steady st (requested_settles i delivery current (br_calls st ! i) st)"
    if "i < length (br_calls st)" "pc_phase (br_calls st ! i) = AwaitRequested"
  proof -
    have l: "leased (br_calls st ! i)" using that(2) by (simp add: leased_def)
    show ?thesis
    proof (cases delivery)
      case SettledOk
      have "calm st (update_call i (\<lambda>_. (br_calls st ! i)\<lparr>pc_phase := AwaitDecision\<rparr>) st)"
        using l that(1) by (intro calm_put) auto
      with SettledOk show ?thesis unfolding requested_settles_def using l that(1)
        by (auto simp: Let_def intro!: steady_calm calm_send_resolution)
    next
      case SettledUnknown
      have "calm st (update_call i (\<lambda>_. (br_calls st ! i)\<lparr>pc_resolution := Some cancelled_resolution,
          pc_phase := AwaitRecovery\<rparr>) (set_failure i (br_calls st ! i) PhaseRequested st))"
        using l that(1) by (intro calm_put) auto
      with SettledUnknown show ?thesis unfolding requested_settles_def
        by (auto simp: Let_def intro!: steady_calm calm_fields(6))
    qed (auto simp: requested_settles_def Let_def that l intro!: steady_finish)
  qed
  then show ?thesis using OpRequestedSettles by (simp add: on_call_def steady_calm)
next
  case (OpRecoverySettles i delivery)
  have "steady st (recovery_settles i delivery (br_calls st ! i) st)"
    if "i < length (br_calls st)" "pc_phase (br_calls st ! i) = AwaitRecovery"
    unfolding recovery_settles_def using that
    by (auto simp: leased_def split: delivery_settled.split intro!: steady_finish)
  then show ?thesis using OpRecoverySettles by (simp add: on_call_def steady_calm)
next
  case (OpDecisionSettles i timedOut current)
  have "steady st (decision_settles i timedOut current (br_calls st ! i) st)"
    if "i < length (br_calls st)" "pc_phase (br_calls st ! i) = AwaitDecision"
    unfolding decision_settles_def using that
    by (auto simp: leased_def split: option.split intro!: steady_calm calm_send_resolution)
  then show ?thesis using OpDecisionSettles by (simp add: on_call_def steady_calm)
next
  case (OpResolutionSettles i delivery current)
  have "steady st (resolution_settles i delivery current (br_calls st ! i) st)"
    if "i < length (br_calls st)" "pc_phase (br_calls st ! i) = AwaitResolution"
    unfolding resolution_settles_def using that
    by (auto simp: leased_def split: delivery_settled.split intro!: steady_finish)
  then show ?thesis using OpResolutionSettles by (auto simp: on_call_def steady_calm split: call_phase.split)
next
  case (OpLateSettles i ok)
  have "steady st (late_settles i ok result stage (br_calls st ! i) st)"
    if "i < length (br_calls st)" "pc_phase (br_calls st ! i) = Finished result (Some stage)" for result stage
  proof -
    have l: "leased (br_calls st ! i)" using that(2) by (simp add: leased_def)
    have "calm st (late_again i (br_calls st ! i) es result st)" for es
      unfolding late_again_def using l that(1) by (intro calm_fields(6) calm_put) auto
    with that l show ?thesis
      unfolding late_settles_def
      by (auto split: late_stage.split intro!: steady_late_over intro: steady_calm)
  qed
  then show ?thesis
    using OpLateSettles by (auto simp: on_call_def steady_calm split: call_phase.split option.split)
next
  case (OpAbort i)
  have "steady st (cancel_call i st)" by (rule steady_calm) auto
  then show ?thesis using OpAbort by (auto simp: on_call_def steady_calm split: call_phase.split)
qed (use assms in \<open>auto intro!: steady_calm simp: broker_resolve_def rejectRunAndWait_def Let_def
      cancellation_settles_def recover_succeeds_def split: option.split\<close>)

section \<open>Every sequence of operations\<close>

definition within_limits :: "broker_options \<Rightarrow> 'i broker \<Rightarrow> bool" where
  "within_limits opts st \<longleftrightarrow>
     of_nat (length (br_activeRequestIds st)) \<le> bo_maxPendingRequests opts
     \<and> of_nat (br_activeRequestBytes st) \<le> bo_maxPendingRequestBytes opts"

lemma of_nat_less_integer:
  assumes "is_safe_integer q" "of_nat n < (q :: rat)"
  shows "of_nat (Suc n) \<le> q"
proof -
  have q: "q = of_int \<lfloor>q\<rfloor>" using assms(1) unfolding is_safe_integer_def by (elim conjE) (rule sym)
  then have "of_int (int n) < (of_int \<lfloor>q\<rfloor> :: rat)" using assms(2) by simp
  then have "int n + 1 \<le> \<lfloor>q\<rfloor>" by linarith
  then have "of_int (int n + 1) \<le> (of_int \<lfloor>q\<rfloor> :: rat)" by (simp only: of_int_le_iff)
  then show ?thesis using q by simp
qed

lemma calm_counts: "calm st s \<Longrightarrow> br_activeRequestIds s = br_activeRequestIds st
    \<and> br_activeRequestBytes s = br_activeRequestBytes st"
  by (simp add: calm_def)

lemma cancel_counts [simp]:
  "br_activeRequestIds (cancel_call i st) = br_activeRequestIds st"
  "br_activeRequestBytes (cancel_call i st) = br_activeRequestBytes st"
  using calm_counts [OF calm_cancel_call [OF calm_refl]] by blast+

lemma request_limits:
  assumes "is_safe_integer (bo_maxPendingRequests opts)" "within_limits opts st"
  shows "within_limits opts (snd (broker_request opts jb eb digest input aborted runId current st))"
proof -
  obtain start st' where req: "broker_request opts jb eb digest input aborted runId current st = (start, st')"
    by (rule prod.exhaust)
  then show ?thesis
  proof (cases rule: request_cases)
    case (2 c)
    have "of_nat (Suc (length (br_activeRequestIds st))) \<le> bo_maxPendingRequests opts"
      using of_nat_less_integer [OF assms(1)] refuse_None [OF 2(3)] by blast
    moreover have "length (br_activeRequestIds st') = Suc (length (br_activeRequestIds st))"
        "br_activeRequestBytes st' = br_activeRequestBytes st + jb input"
      by (simp_all add: 2 send_events_def register_call_def Let_def)
    ultimately show ?thesis
      using req refuse_None [OF 2(3)] by (simp add: within_limits_def algebra_simps)
  qed (use assms(2) req in simp)
qed

lemma step_leases:
  "leases_ok st \<Longrightarrow> leases_ok (broker_step opts jb eb digest op st)"
  by (cases "\<exists>input aborted runId current. op = OpRequest input aborted runId current")
    (auto simp: request_leases intro: steady_leases [OF step_steady])

lemma step_limits:
  assumes "is_safe_integer (bo_maxPendingRequests opts)" "within_limits opts st"
  shows "within_limits opts (broker_step opts jb eb digest op st)"
proof (cases "\<exists>input aborted runId current. op = OpRequest input aborted runId current")
  case False
  from steady_counts [OF step_steady [where op = op and st = st and opts = opts and jb = jb and eb = eb and digest = digest]] False
  have "length (br_activeRequestIds (broker_step opts jb eb digest op st)) \<le> length (br_activeRequestIds st)"
    "br_activeRequestBytes (broker_step opts jb eb digest op st) \<le> br_activeRequestBytes st"
    by auto
  then have "(of_nat (length (br_activeRequestIds (broker_step opts jb eb digest op st))) :: rat)
        \<le> of_nat (length (br_activeRequestIds st))"
    "(of_nat (br_activeRequestBytes (broker_step opts jb eb digest op st)) :: rat)
        \<le> of_nat (br_activeRequestBytes st)"
    by (simp_all only: of_nat_le_iff)
  with assms(2) show ?thesis unfolding within_limits_def by linarith
qed (auto simp: request_limits assms)

lemma run_append: "broker_run opts jb eb digest (ops @ ops') st
    = broker_run opts jb eb digest ops' (broker_run opts jb eb digest ops st)"
  by (simp add: broker_run_def)

text \<open>A property that holds at first and that every operation keeps holds after any sequence.\<close>

lemma run_invariant:
  assumes "I st" "\<And>op st. I st \<Longrightarrow> I (broker_step opts jb eb digest op st)"
  shows "I (broker_run opts jb eb digest ops st)"
  unfolding broker_run_def using assms(1) by (induction ops arbitrary: st) (auto simp: assms(2))

lemma created: "createPermissionBroker opts = Inr st \<Longrightarrow> st = new_broker
    \<and> is_safe_integer (bo_maxPendingRequests opts) \<and> within_limits opts st"
  by (auto simp: createPermissionBroker_def within_limits_def new_broker_def split: if_splits)

lemma new_leases: "leases_ok new_broker"
  by (simp add: leases_ok_def new_broker_def leased_bytes_def)

lemma broker_accounts:
  assumes "createPermissionBroker opts = Inr st0"
  shows "leases_ok (broker_run opts jb eb digest ops st0) \<and> within_limits opts (broker_run opts jb eb digest ops st0)"
  using run_invariant [of leases_ok, OF _ step_leases] created [OF assms] new_leases
    run_invariant [of "within_limits opts", OF _ step_limits] by blast

section \<open>The policy\<close>

text \<open>
  src/src/core/driver-permission-policy.ts: what answers a permission request, the policy
  itself (\<open>Some\<close>) or the broker (\<open>None\<close>); a matched ask rule always goes to the broker.
\<close>

datatype permission_policy = FullAccess | Supervised

definition isDriverFullAccess :: "permission_policy \<Rightarrow> bool" where
  "isDriverFullAccess policy \<longleftrightarrow> policy = FullAccess"

definition createDriverPermissionRequestHandler ::
    "permission_policy \<Rightarrow> 'rule option \<Rightarrow> permission_decision option" where
  "createDriverPermissionRequestHandler policy matchedAskRule =
     (if isDriverFullAccess policy then if matchedAskRule = None then Some AllowOnce else None
      else None)"

lemma policy_never_rejects: "createDriverPermissionRequestHandler policy rule \<noteq> Some RejectOnce"
  by (simp add: createDriverPermissionRequestHandler_def)

end
