(* ===== verification/Permission_Safety.thy ===== *)
theory Permission_Safety
  imports Permission_Broker
begin

text \<open>
  What the permission broker may answer: a call returns \<open>allow_once\<close> only when it was approved,
  and no request is ever reported resolved in two ways.  \<open>honest G K\<close> is the invariant; \<open>G\<close> says
  which call an approval reached, \<open>K\<close> which resolution was delivered while its run was current.
\<close>

section \<open>Honest calls\<close>

fun announces :: "'i permission_event \<Rightarrow> permission_resolution option" where
  "announces (ResolvedEvent _ resolution _ _) = Some resolution"
| "announces _ = None"

fun returned_allow :: "call_phase \<Rightarrow> bool" where
  "returned_allow (Finished (Inr AllowOnce) _) = True"
| "returned_allow _ = False"

definition call_honest :: "bool \<Rightarrow> bool \<Rightarrow> 'i permission_call \<Rightarrow> bool" where
  "call_honest granted current c \<longleftrightarrow>
     (pc_phase c = AwaitRequested \<or> pc_phase c = AwaitDecision \<longrightarrow> pc_resolution c = None)
     \<and> opt_all (\<lambda>r. rs_decision r = AllowOnce \<longrightarrow> pc_deferred c = Some r) (pc_resolution c)
     \<and> opt_all (\<lambda>r. rs_decision r = AllowOnce \<longrightarrow> granted) (pc_deferred c)
     \<and> (returned_allow (pc_phase c) \<longrightarrow>
          current \<and> map_option rs_decision (pc_resolution c) = Some AllowOnce)"

definition honest :: "(string \<Rightarrow> nat \<Rightarrow> bool) \<Rightarrow> (nat \<Rightarrow> bool) \<Rightarrow> 'i broker \<Rightarrow> bool" where
  "honest G K st \<longleftrightarrow>
     (\<forall>requestId i. map_of (br_resolvers st) requestId = Some i \<longrightarrow>
        i < length (br_calls st) \<and> call_id (br_calls st ! i) = requestId)
     \<and> (\<forall>i<length (br_calls st). call_honest (G (call_id (br_calls st ! i)) i) (K i) (br_calls st ! i))
     \<and> (\<forall>(i, es)\<in>set (br_sent st). i < length (br_calls st)
          \<and> (\<forall>e\<in>set es. announces e \<noteq> None \<longrightarrow> announces e = pc_resolution (br_calls st ! i)))"

lemma honest_call: "honest G K st \<Longrightarrow> i < length (br_calls st) \<Longrightarrow>
    call_honest (G (call_id (br_calls st ! i)) i) (K i) (br_calls st ! i)"
  by (simp add: honest_def)

lemma honest_resolver: "honest G K st \<Longrightarrow> map_of (br_resolvers st) requestId = Some i \<Longrightarrow>
    i < length (br_calls st) \<and> call_id (br_calls st ! i) = requestId"
  by (simp add: honest_def)

lemma honest_sent: "honest G K st \<Longrightarrow> (i, es) \<in> set (br_sent st) \<Longrightarrow> e \<in> set es \<Longrightarrow> announces e \<noteq> None \<Longrightarrow>
    announces e = pc_resolution (br_calls st ! i)"
  unfolding honest_def by blast

text \<open>Only the calls, the events sent and the resolvers matter.\<close>

lemma honest_same:
  assumes "honest G K st" "br_calls st' = br_calls st" "br_sent st' = br_sent st"
    "map_of (br_resolvers st') \<subseteq>\<^sub>m map_of (br_resolvers st)"
  shows "honest G K st'"
proof -
  have "map_of (br_resolvers st) requestId = Some i" if "map_of (br_resolvers st') requestId = Some i" for requestId i
    using assms(4) that by (auto simp: map_le_def dom_def)
  then show ?thesis using assms(1) unfolding honest_def assms(2,3) by blast
qed

lemma honest_put:
  assumes "honest G K st" "i < length (br_calls st)" "pc_input d = pc_input (br_calls st ! i)"
    "call_honest (G (call_id d) i) (K i) d"
    "pc_resolution (br_calls st ! i) \<noteq> None \<longrightarrow> pc_resolution d = pc_resolution (br_calls st ! i)"
  shows "honest G K (update_call i (\<lambda>_. d) st)"
proof -
  have "call_id d = call_id (br_calls st ! i)" using assms(3) by (simp add: call_id_def)
  with assms show ?thesis
    unfolding honest_def update_call_def by (fastforce simp: nth_list_update)
qed

lemma honest_send:
  assumes "honest G K st" "i < length (br_calls st)"
    "\<forall>e\<in>set es. announces e \<noteq> None \<longrightarrow> announces e = pc_resolution (br_calls st ! i)"
  shows "honest G K (send_events i es st)"
  using assms unfolding honest_def send_events_def by auto

lemma update_call_put: "i < length (br_calls st) \<Longrightarrow>
    update_call i f st = update_call i (\<lambda>_. f (br_calls st ! i)) st"
  by (simp add: update_call_def)

lemma honest_budget:
  assumes "honest G K st" "f = useTurnBudget \<or> f = useFullBudget"
  shows "honest G K (update_call i f st)"
proof (cases "i < length (br_calls st)")
  case True
  let ?d = "f (br_calls st ! i)"
  have d: "pc_input ?d = pc_input (br_calls st ! i)" "pc_resolution ?d = pc_resolution (br_calls st ! i)"
      "pc_deferred ?d = pc_deferred (br_calls st ! i)" "pc_phase ?d = pc_phase (br_calls st ! i)"
    using assms(2) by (auto simp: useTurnBudget_def useFullBudget_def)
  have "call_honest (G (call_id ?d) i) (K i) ?d"
    using honest_call [OF assms(1) True] unfolding call_honest_def call_id_def d .
  then show ?thesis
    unfolding update_call_put [OF True, of f] by (intro honest_put [OF assms(1) True]) (simp_all add: d)
qed (simp add: update_call_def assms(1))

lemma map_of_delete: "map_of (AList.delete k xs) \<subseteq>\<^sub>m map_of xs"
  by (auto simp: delete_conv map_le_def split: if_splits)

lemma honest_settle:
  assumes "call_honest g k c" "rs_decision r = AllowOnce \<longrightarrow> g"
  shows "call_honest g k (settle_deferred r c)"
proof (cases "pc_deferred c")
  case None
  have "rs_decision q \<noteq> AllowOnce" if "pc_resolution c = Some q" for q
    using assms(1) None that by (auto simp: call_honest_def)
  then have "opt_all (\<lambda>q. rs_decision q = AllowOnce \<longrightarrow> Some r = Some q) (pc_resolution c)"
    by (cases "pc_resolution c") simp_all
  with assms None show ?thesis by (simp add: call_honest_def settle_deferred_def)
qed (simp add: settle_deferred_def assms(1))

lemma settle_id [simp]: "call_id (settle_deferred r c) = call_id c"
  by (simp add: settle_deferred_def call_id_def split: option.split)

lemma honest_resolve:
  assumes "honest G K st"
    "rs_decision r = AllowOnce \<longrightarrow> (\<forall>i. map_of (br_resolvers st) requestId = Some i \<longrightarrow> G requestId i)"
  shows "honest G K (snd (resolveRequest requestId r st))"
proof (cases "map_of (br_resolvers st) requestId")
  case (Some i)
  let ?st = "st\<lparr>br_resolvers := AList.delete requestId (br_resolvers st)\<rparr>"
  let ?c = "br_calls st ! i"
  let ?d = "settle_deferred r ?c"
  have st: "honest G K ?st" by (rule honest_same [OF assms(1)]) (simp_all add: map_of_delete)
  have i: "i < length (br_calls ?st)" "call_id ?c = requestId" using honest_resolver [OF assms(1) Some] by simp_all
  have "call_honest (G (call_id ?c) i) (K i) ?c" using honest_call [OF assms(1)] i(1) by simp
  moreover have "rs_decision r = AllowOnce \<longrightarrow> G (call_id ?c) i" using assms(2) Some i(2) by simp
  ultimately have "call_honest (G (call_id ?d) i) (K i) ?d"
    by (simp add: honest_settle)
  moreover have "pc_input ?d = pc_input ?c" "pc_resolution ?d = pc_resolution ?c"
    by (simp_all add: settle_deferred_def split: option.split)
  ultimately have "honest G K (update_call i (\<lambda>_. ?d) ?st)"
    by (intro honest_put [OF st i(1)]) simp_all
  then have "honest G K (update_call i (settle_deferred r) ?st)"
    unfolding update_call_put [OF i(1), of "settle_deferred r"] by simp
  then show ?thesis by (simp add: resolveRequest_def Some)
qed (simp add: resolveRequest_def assms(1))

lemma honest_fold:
  assumes "honest G K st" "\<And>x st. honest G K st \<Longrightarrow> honest G K (f x st)"
  shows "honest G K (fold f xs st)"
  using assms(1) by (induction xs arbitrary: st) (auto simp: assms(2))

section \<open>Every operation keeps the calls honest\<close>

lemma honest_reject_all: "honest G K st \<Longrightarrow> honest G K (broker_reject_all reason turn st)"
  unfolding broker_reject_all_def Let_def
  by (intro honest_fold) (auto split: prod.split intro: honest_budget honest_resolve)

lemma announces_resolution: "e \<in> set (resolution_events c) \<Longrightarrow> announces e \<noteq> None \<Longrightarrow> announces e = pc_resolution c"
  by (auto simp: resolution_events_def toResolutionEvents_def resolution_diagnostics_def split: option.splits if_splits)

lemma announces_recovery: "e \<in> set (recovery_events c failed) \<Longrightarrow> announces e \<noteq> None \<Longrightarrow> announces e = pc_resolution c"
  by (auto simp: recovery_events_def requested_events_def split: delivery_phase.splits dest: announces_resolution)

lemma honest_recover_starts: "honest G K st \<Longrightarrow> honest G K (recover_starts st)"
  unfolding recover_starts_def
  by (rule honest_fold) (auto split: prod.split intro!: honest_send announces_recovery)

lemma honest_rejectAllAndWait: "honest G K st \<Longrightarrow> honest G K (rejectAllAndWait reason st)"
  using honest_reject_all [of G K st reason False]
  by (auto simp: rejectAllAndWait_def Let_def intro: honest_recover_starts honest_same)

lemma honest_cancel: "honest G K st \<Longrightarrow> honest G K (cancel_call i st)"
  by (auto simp: cancel_call_def Let_def cancelled_resolution_def intro!: honest_resolve honest_budget)

lemma honest_unregister: "honest G K st \<Longrightarrow> honest G K (unregister i c st)"
  by (auto simp: unregister_def map_of_delete intro: honest_same)

lemma unregister_calls [simp]: "br_calls (unregister i c st) = br_calls st"
  by (simp add: unregister_def)

lemma honest_release: "honest G K st \<Longrightarrow> honest G K (releaseLease c st)"
  by (auto simp: releaseLease_def Let_def intro: honest_same)

lemma honest_failures:
  "honest G K st \<Longrightarrow> honest G K (set_failure i c failed st)" "honest G K st \<Longrightarrow> honest G K (delete_failure c st)"
  by (auto simp: set_failure_def delete_failure_def intro: honest_same)

lemma failure_calls [simp]:
  "br_calls (set_failure i c failed st) = br_calls st" "br_calls (delete_failure c st) = br_calls st"
  by (simp_all add: set_failure_def delete_failure_def)

text \<open>What a call may become.\<close>

definition may_become :: "bool \<Rightarrow> bool \<Rightarrow> 'i permission_call \<Rightarrow> 'i permission_call \<Rightarrow> bool" where
  "may_become granted current c d \<longleftrightarrow> pc_input d = pc_input c \<and> call_honest granted current d
     \<and> (pc_resolution c \<noteq> None \<longrightarrow> pc_resolution d = pc_resolution c)"

lemma honest_becomes:
  assumes "honest G K st" "i < length (br_calls st)"
    "may_become (G (call_id (br_calls st ! i)) i) (K i) (br_calls st ! i) d"
  shows "honest G K (update_call i (\<lambda>_. d) st)"
  using assms(3) honest_put [OF assms(1,2), of d] by (simp add: may_become_def call_id_def)

lemma honest_finish:
  assumes "honest G K st" "i < length (br_calls st)"
    "may_become (G (call_id (br_calls st ! i)) i) (K i) (br_calls st ! i) (c\<lparr>pc_phase := Finished result late\<rparr>)"
  shows "honest G K (finish_call i c result late st)"
proof -
  have "honest G K (update_call i (\<lambda>_. c\<lparr>pc_phase := Finished result late\<rparr>) (unregister i c st))"
    using assms by (intro honest_becomes honest_unregister) simp_all
  then show ?thesis by (auto simp: finish_call_def Let_def intro: honest_release)
qed

lemma honest_send_resolution:
  assumes "honest G K st" "i < length (br_calls st)" "pc_resolution (br_calls st ! i) = None"
    "rs_decision value = AllowOnce \<longrightarrow> pc_deferred (br_calls st ! i) = Some value"
  shows "honest G K (send_resolution i (br_calls st ! i) value current st)"
proof -
  let ?r = "if current then value else cancelled_resolution"
  let ?d = "(br_calls st ! i)\<lparr>pc_resolution := Some ?r, pc_phase := AwaitResolution\<rparr>"
  have "call_honest (G (call_id (br_calls st ! i)) i) (K i) (br_calls st ! i)" by (rule honest_call [OF assms(1,2)])
  then have "may_become (G (call_id (br_calls st ! i)) i) (K i) (br_calls st ! i) ?d"
    using assms(3,4) by (auto simp: may_become_def call_honest_def cancelled_resolution_def)
  then have "honest G K (update_call i (\<lambda>_. ?d) (unregister i (br_calls st ! i) st))"
    using assms(2) by (intro honest_becomes honest_unregister assms(1)) simp_all
  moreover have "br_calls (update_call i (\<lambda>_. ?d) (unregister i (br_calls st ! i) st)) ! i = ?d"
      "i < length (br_calls (update_call i (\<lambda>_. ?d) (unregister i (br_calls st ! i) st)))"
    using assms(2) by (simp_all add: update_call_def)
  ultimately show ?thesis
    unfolding send_resolution_def Let_def by (intro honest_send) (auto dest: announces_resolution)
qed

lemma honest_late_again:
  assumes "honest G K st" "i < length (br_calls st)" "pc_phase (br_calls st ! i) = Finished result late"
    "\<forall>e\<in>set es. announces e \<noteq> None \<longrightarrow> announces e = pc_resolution (br_calls st ! i)"
  shows "honest G K (late_again i (br_calls st ! i) es result st)"
proof -
  let ?d = "(br_calls st ! i)\<lparr>pc_phase := Finished result (Some LateSent)\<rparr>"
  have same: "returned_allow (Finished result (Some LateSent)) = returned_allow (Finished result late)"
    by (cases "Finished result late" rule: returned_allow.cases) simp_all
  have "may_become (G (call_id (br_calls st ! i)) i) (K i) (br_calls st ! i) ?d"
    using honest_call [OF assms(1,2)] assms(3) same by (simp add: may_become_def call_honest_def)
  from honest_becomes [OF assms(1,2) this] show ?thesis
    unfolding late_again_def using assms(2,4) by (intro honest_send) (auto simp: update_call_def)
qed

lemma honest_late_over:
  assumes "honest G K st" "honest G K s" "br_calls s = br_calls st" "i < length (br_calls st)"
    "pc_phase (br_calls st ! i) = Finished result late"
  shows "honest G K (late_over i (br_calls st ! i) result s)"
proof -
  let ?d = "(br_calls st ! i)\<lparr>pc_phase := Finished result None\<rparr>"
  have same: "returned_allow (Finished result None) = returned_allow (Finished result late)"
    by (cases "Finished result late" rule: returned_allow.cases) simp_all
  have "may_become (G (call_id (br_calls st ! i)) i) (K i) (br_calls st ! i) ?d"
    using honest_call [OF assms(1,4)] assms(5) same by (simp add: may_become_def call_honest_def)
  then show ?thesis
    unfolding late_over_def using assms(3,4) by (intro honest_release honest_becomes [OF assms(2)]) simp_all
qed

lemma honest_requested_settles:
  assumes "honest G K st" "i < length (br_calls st)" "pc_phase (br_calls st ! i) = AwaitRequested"
  shows "honest G K (requested_settles i delivery current (br_calls st ! i) st)"
proof -
  let ?c = "br_calls st ! i"
  have c: "call_honest (G (call_id ?c) i) (K i) ?c" by (rule honest_call [OF assms(1,2)])
  then have none: "pc_resolution ?c = None" using assms(3) by (simp add: call_honest_def)
  have become: "may_become (G (call_id ?c) i) (K i) ?c (?c\<lparr>pc_phase := AwaitDecision\<rparr>)"
    "may_become (G (call_id ?c) i) (K i) ?c
       (?c\<lparr>pc_resolution := Some cancelled_resolution, pc_phase := AwaitRecovery\<rparr>)"
    "may_become (G (call_id ?c) i) (K i) ?c (?c\<lparr>pc_phase := Finished (Inl err) late\<rparr>)"
    "may_become (G (call_id ?c) i) (K i) ?c
       (?c\<lparr>pc_resolution := Some cancelled_resolution, pc_phase := Finished (Inl err) late\<rparr>)" for err late
    using c none by (simp_all add: may_become_def call_honest_def cancelled_resolution_def)
  let ?s = "set_failure i ?c PhaseRequested st"
  have s: "honest G K ?s" by (rule honest_failures [OF assms(1)])
  show ?thesis
  proof (cases delivery)
    case SettledOk
    have "honest G K (update_call i (\<lambda>_. ?c\<lparr>pc_phase := AwaitDecision\<rparr>) st)"
      by (rule honest_becomes [OF assms(1,2) become(1)])
    moreover have "honest G K (send_resolution i ?c cancelled_resolution current st)"
      by (rule honest_send_resolution [OF assms(1,2) none]) (simp add: cancelled_resolution_def)
    ultimately show ?thesis by (cases current) (simp_all add: requested_settles_def SettledOk)
  next
    case SettledUnknown
    let ?d = "?c\<lparr>pc_resolution := Some cancelled_resolution, pc_phase := AwaitRecovery\<rparr>"
    have "honest G K (update_call i (\<lambda>_. ?d) ?s)"
      using become(2) assms(2) by (intro honest_becomes [OF s]) simp_all
    then show ?thesis
      unfolding requested_settles_def SettledUnknown Let_def delivery_settled.case
      using assms(2) by (intro honest_send) (auto simp: update_call_def dest: announces_recovery)
  next
    case SettledFailed
    show ?thesis
      unfolding requested_settles_def SettledFailed Let_def delivery_settled.case
      by (rule honest_finish [OF assms(1,2) become(3)])
  next
    case SettledTimedOut
    show ?thesis
      unfolding requested_settles_def SettledTimedOut Let_def delivery_settled.case
      using become(4) assms(2) by (intro honest_finish [OF s]) simp_all
  qed
qed

lemma honest_recovery_settles:
  assumes "honest G K st" "i < length (br_calls st)" "pc_phase (br_calls st ! i) = AwaitRecovery"
  shows "honest G K (recovery_settles i delivery (br_calls st ! i) st)"
proof -
  have become: "may_become (G (call_id (br_calls st ! i)) i) (K i) (br_calls st ! i)
      ((br_calls st ! i)\<lparr>pc_phase := Finished result late\<rparr>)" if "result \<noteq> Inr AllowOnce" for result late
  proof -
    have "\<not> returned_allow (Finished result late)"
      using that by (cases "Finished result late" rule: returned_allow.cases) simp_all
    then show ?thesis
      using honest_call [OF assms(1,2)] by (simp add: may_become_def call_honest_def)
  qed
  show ?thesis
    unfolding recovery_settles_def using assms(2)
    by (auto split: delivery_settled.split intro!: honest_finish honest_failures assms(1) become)
qed

lemma honest_resolution_settles:
  assumes "honest G K st" "i < length (br_calls st)" "pc_phase (br_calls st ! i) = AwaitResolution"
    "delivery = SettledOk \<longrightarrow> current \<longrightarrow> K i"
  shows "honest G K (resolution_settles i delivery current (br_calls st ! i) st)"
proof -
  let ?c = "br_calls st ! i"
  have c: "call_honest (G (call_id ?c) i) (K i) ?c" by (rule honest_call [OF assms(1,2)])
  have become: "may_become (G (call_id ?c) i) (K i) ?c (?c\<lparr>pc_phase := Finished (Inl err) late\<rparr>)" for err late
    using c by (simp add: may_become_def call_honest_def)
  let ?answer = "case pc_resolution ?c of
      Some resolution \<Rightarrow> if current then rs_decision resolution else RejectOnce | None \<Rightarrow> RejectOnce"
  have answer: "may_become (G (call_id ?c) i) (K i) ?c (?c\<lparr>pc_phase := Finished (Inr ?answer) None\<rparr>)"
    if "delivery = SettledOk"
  proof (cases "?answer = AllowOnce")
    case True
    then have "current" "map_option rs_decision (pc_resolution ?c) = Some AllowOnce"
      by (auto split: option.splits if_splits)
    with c assms(4) that True show ?thesis by (simp add: may_become_def call_honest_def)
  next
    case False
    then have "?answer = RejectOnce" by (cases ?answer) simp_all
    then show ?thesis using c by (simp add: may_become_def call_honest_def)
  qed
  show ?thesis
  proof (cases delivery)
    case SettledOk
    then show ?thesis
      unfolding resolution_settles_def using assms(2) answer
      by (simp add: honest_finish honest_failures(2) assms(1))
  qed (use assms(2) in \<open>auto simp: resolution_settles_def
         intro!: honest_finish honest_failures assms(1) become\<close>)
qed

lemma honest_register:
  assumes "honest G K st" "c = new_call jb digest input runId"
  shows "honest G K (register_call c st)"
proof -
  have c: "call_honest g k c" for g k by (simp add: assms(2) call_honest_def)
  let ?n = "length (br_calls st)"
  have calls: "br_calls (register_call c st) = br_calls st @ [c]"
    "br_sent (register_call c st) = br_sent st"
    "map_of (br_resolvers (register_call c st)) = (map_of (br_resolvers st))(call_id c \<mapsto> ?n)"
    by (simp_all add: register_call_def Let_def call_id_def update_conv')
  show ?thesis
    unfolding honest_def calls using assms(1) c unfolding honest_def
    by (auto simp: nth_append less_Suc_eq)
qed

lemma honest_request:
  assumes "honest G K st"
  shows "honest G K (snd (broker_request opts jb eb digest input aborted runId current st))"
proof -
  obtain start st' where req: "broker_request opts jb eb digest input aborted runId current st = (start, st')"
    by (rule prod.exhaust)
  then show ?thesis
  proof (cases rule: request_cases)
    case (2 c)
    let ?n = "length (br_calls st)"
    let ?s = "if aborted then cancel_call ?n (register_call c st) else register_call c st"
    have "honest G K ?s" using honest_register [OF assms 2(1)] honest_cancel by auto
    moreover have "calm (register_call c st) ?s" by auto
    then have "length (br_calls ?s) = Suc ?n"
      unfolding calm_def by (auto dest!: list_all2_lengthD simp: register_call_def Let_def)
    ultimately have "honest G K st'"
      unfolding 2(4) by (intro honest_send) (auto simp: requested_events_def)
    then show ?thesis using req by simp
  qed (use assms req in simp)
qed

lemma honest_step:
  assumes "honest G K st"
    and "\<And>requestId i. op = OpResolve requestId AllowOnce \<Longrightarrow> map_of (br_resolvers st) requestId = Some i \<Longrightarrow> G requestId i"
    and "\<And>i. op = OpResolutionSettles i SettledOk True \<Longrightarrow> K i"
  shows "honest G K (broker_step opts jb eb digest op st)"
proof (cases op)
  case (OpRequestedSettles i delivery current)
  then show ?thesis using assms(1) by (simp add: on_call_def honest_requested_settles)
next
  case (OpRecoverySettles i delivery)
  then show ?thesis using assms(1) by (simp add: on_call_def honest_recovery_settles)
next
  case (OpDecisionSettles i timedOut current)
  have "honest G K (decision_settles i timedOut current (br_calls st ! i) st)"
    if "i < length (br_calls st)" "pc_phase (br_calls st ! i) = AwaitDecision"
  proof -
    have "pc_resolution (br_calls st ! i) = None"
      using honest_call [OF assms(1) that(1)] that(2) by (simp add: call_honest_def)
    then show ?thesis
      unfolding decision_settles_def
      by (auto split: option.split intro!: honest_send_resolution [OF assms(1) that(1)] assms(1))
  qed
  then show ?thesis using OpDecisionSettles assms(1) by (simp add: on_call_def)
next
  case (OpResolutionSettles i delivery current)
  have "honest G K (resolution_settles i delivery current (br_calls st ! i) st)"
    if "i < length (br_calls st)" "pc_phase (br_calls st ! i) = AwaitResolution"
    using assms(3) [of i] OpResolutionSettles by (intro honest_resolution_settles [OF assms(1) that]) simp
  then show ?thesis using OpResolutionSettles assms(1) by (auto simp: on_call_def split: call_phase.split)
next
  case (OpLateSettles i ok)
  have "honest G K (late_settles i ok result stage (br_calls st ! i) st)"
    if "i < length (br_calls st)" "pc_phase (br_calls st ! i) = Finished result (Some stage)" for result stage
    unfolding late_settles_def using that
    by (auto split: late_stage.split simp del: announces.simps dest: announces_resolution announces_recovery
        intro!: honest_late_again [OF assms(1)] honest_late_over [OF assms(1)] honest_failures assms(1))
  then show ?thesis
    using OpLateSettles assms(1) by (auto simp: on_call_def split: call_phase.split option.split)
next
  case (OpAbort i)
  then show ?thesis using assms(1) honest_cancel by (auto simp: on_call_def split: call_phase.split)
next
  case (OpResolve requestId decision)
  then show ?thesis
    using assms(2) by (auto simp: broker_resolve_def intro!: honest_resolve assms(1))
next
  case (OpRejectRunAndWait runId reason)
  have "honest G K (st\<lparr>br_closedRunId := Some runId\<rparr>)" by (rule honest_same [OF assms(1)]) simp_all
  then show ?thesis
    using OpRejectRunAndWait honest_reject_all honest_rejectAllAndWait by (auto simp: rejectRunAndWait_def Let_def)
qed (use assms(1) honest_request honest_reject_all honest_rejectAllAndWait honest_recover_starts in
      \<open>auto simp: cancellation_settles_def recover_succeeds_def map_of_delete split: option.split
        intro: honest_same\<close>)

section \<open>Over a sequence of operations\<close>

lemma honest_mono:
  assumes "honest G K st" "\<And>requestId i. G requestId i \<Longrightarrow> G' requestId i" "\<And>i. K i \<Longrightarrow> K' i"
  shows "honest G' K' st"
proof -
  have "call_honest g' k' c" if "call_honest g k c" "g \<longrightarrow> g'" "k \<longrightarrow> k'" for g g' k k' and c :: "'a permission_call"
    using that by (cases "pc_deferred c") (auto simp: call_honest_def)
  with assms show ?thesis unfolding honest_def by (metis (no_types, lifting))
qed

text \<open>An approval reached the call, and its resolution was delivered while the run was current.\<close>

definition approved ::
    "broker_options \<Rightarrow> ('i permission_request \<Rightarrow> nat) \<Rightarrow> ('i permission_event \<Rightarrow> nat)
      \<Rightarrow> (string option \<times> string \<Rightarrow> string) \<Rightarrow> 'i broker_op list \<Rightarrow> string \<Rightarrow> nat \<Rightarrow> bool" where
  "approved opts jb eb digest ops requestId i \<longleftrightarrow>
     (\<exists>before after. ops = before @ OpResolve requestId AllowOnce # after
        \<and> map_of (br_resolvers (broker_run opts jb eb digest before new_broker)) requestId = Some i)"

definition delivered_current :: "'i broker_op list \<Rightarrow> nat \<Rightarrow> bool" where
  "delivered_current ops i \<longleftrightarrow> OpResolutionSettles i SettledOk True \<in> set ops"

lemma approved_snoc: "approved opts jb eb digest ops requestId i \<Longrightarrow> approved opts jb eb digest (ops @ [op]) requestId i"
  unfolding approved_def by (metis append.assoc append_Cons)

lemma honest_new: "honest G K new_broker"
  by (simp add: honest_def new_broker_def)

lemma run_honest:
  "honest (approved opts jb eb digest ops) (delivered_current ops)
     (broker_run opts jb eb digest ops new_broker)"
proof (induction ops rule: rev_induct)
  case Nil
  show ?case by (simp add: broker_run_def honest_new)
next
  case (snoc op ops)
  let ?st = "broker_run opts jb eb digest ops new_broker"
  have "honest (approved opts jb eb digest (ops @ [op])) (delivered_current (ops @ [op])) ?st"
    by (rule honest_mono [OF snoc]) (auto simp: delivered_current_def intro: approved_snoc)
  then have "honest (approved opts jb eb digest (ops @ [op])) (delivered_current (ops @ [op]))
      (broker_step opts jb eb digest op ?st)"
    by (rule honest_step) (auto simp: approved_def delivered_current_def)
  then show ?case by (simp add: broker_run_def)
qed

lemma allowed_only_approved:
  assumes "broker_run opts jb eb digest ops new_broker = st" "i < length (br_calls st)"
    "pc_phase (br_calls st ! i) = Finished (Inr AllowOnce) late"
  shows "approved opts jb eb digest ops (call_id (br_calls st ! i)) i \<and> delivered_current ops i"
proof -
  have "call_honest (approved opts jb eb digest ops (call_id (br_calls st ! i)) i) (delivered_current ops i)
      (br_calls st ! i)"
    using honest_call [OF run_honest] assms(1,2) by blast
  then show ?thesis
    using assms(3) by (cases "pc_resolution (br_calls st ! i)") (auto simp: call_honest_def)
qed

lemma one_resolution:
  assumes "broker_run opts jb eb digest ops new_broker = st"
    "(i, es) \<in> set (br_sent st)" "(i, fs) \<in> set (br_sent st)"
    "announces e = Some r" "e \<in> set es" "announces f = Some q" "f \<in> set fs"
  shows "r = q"
proof -
  have "honest (approved opts jb eb digest ops) (delivered_current ops) st" using run_honest assms(1) by blast
  then have "announces e = pc_resolution (br_calls st ! i)" "announces f = pc_resolution (br_calls st ! i)"
    using honest_sent [OF _ assms(2,5)] honest_sent [OF _ assms(3,7)] assms(4,6) by simp_all
  then have "Some r = Some q" using assms(4,6) by metis
  then show ?thesis by simp
qed

end
