(* ===== verification/Runtime_Events.thy ===== *)
theory Runtime_Events
  imports Driver_Id Instants Texts
begin

text \<open>
  src/src/protocol/events/runtime-events.ts and runtime-event-validation.ts, with the parts of
  runtime.ts and native-checkpoint.ts they call: the admission of runtime events.  A value of
  type \<open>unknown\<close> is a JSON value, a property that is \<open>undefined\<close> is absent, and an \<open>Error\<close> is
  its message.  An object has no key order here: where the code names the first offending key
  the model names the least.

  The parameters are \<open>iso_datetime\<close>, the schema \<open>z.iso.datetime({ offset: true })\<close>;
  \<open>prettify\<close>, the text Zod gives for a rejected value; and \<open>utf8_bytes\<close> and \<open>json_bytes\<close>, the
  UTF-8 length of a text and of the JSON text of a value.  They are the fields of \<open>event_env\<close>.
\<close>

section \<open>Vocabulary\<close>

definition RUNTIME_EVENT_SCHEMA_VERSION :: string where
  "RUNTIME_EVENT_SCHEMA_VERSION = ''2026-10-10''"

definition MAX_THOUGHT_CONTENT_BYTES :: int where
  "MAX_THOUGHT_CONTENT_BYTES = 16 * 1024 * 1024"

definition MAX_THOUGHT_UPDATE_BYTES :: nat where
  "MAX_THOUGHT_UPDATE_BYTES = 512 * 1024"

definition MAX_AGENT_TASKS_REPLACED_PAYLOAD_BYTES :: nat where
  "MAX_AGENT_TASKS_REPLACED_PAYLOAD_BYTES = 1020 * 1024"

definition RUNTIME_EVENT_KINDS :: "string list" where
  "RUNTIME_EVENT_KINDS =
    [''account.limits.updated'', ''account.updated'', ''agent.task.updated'', ''agent.tasks.replaced'',
     ''auth.methods.updated'', ''auth.session.updated'', ''catalog.updated'', ''context.added'',
     ''context.compacted'', ''context.usage.updated'', ''diagnostic.reported'',
     ''driver.command.updated'', ''driver.connected'', ''driver.disconnected'', ''driver.heartbeat'',
     ''driver.log.recorded'', ''driver.ready'', ''file.change.updated'', ''file.changed'',
     ''file.indexed'', ''hook.completed'', ''hook.started'', ''item.completed'', ''item.started'',
     ''item.updated'', ''mcp.oauth.completed'', ''mcp.server.updated'', ''mcp.tool.updated'',
     ''message.added'', ''message.cancelled'', ''message.completed'', ''message.delta'',
     ''message.failed'', ''message.started'', ''model.routing.updated'', ''model.verification.updated'',
     ''oauth.updated'', ''permission.requested'', ''permission.resolved'',
     ''permission.review.completed'', ''permission.review.started'', ''plan.updated'',
     ''process.exited'', ''process.output.delta'', ''realtime.audio.delta'', ''realtime.closed'',
     ''realtime.failed'', ''realtime.sdp.updated'', ''realtime.session.updated'',
     ''realtime.transcript.completed'', ''realtime.transcript.delta'', ''remote.control.updated'',
     ''review.updated'', ''run.cancel.requested'', ''run.cancelled'', ''run.completed'',
     ''run.dispatched'', ''run.failed'', ''run.queued'', ''run.started'', ''run.steered'',
     ''run.waiting'', ''runtime.capabilities.updated'', ''runtime.config.updated'',
     ''runtime.driver.updated'', ''runtime.provisioning.updated'', ''runtime.resume.updated'',
     ''runtime.sandbox.released'', ''runtime.sandbox.updated'', ''runtime.session.reset'',
     ''runtime.timing.recorded'', ''runtime.transport.updated'', ''search.session.completed'',
     ''search.session.updated'', ''session.archived'', ''session.capabilities.updated'',
     ''session.closed'', ''session.commands.updated'', ''session.config.updated'', ''session.created'',
     ''session.files.updated'', ''session.info.updated'', ''session.lifecycle.updated'',
     ''session.mode.updated'', ''session.models.updated'', ''session.readiness.updated'',
     ''session.resumed'', ''session.unarchived'', ''shell.command.updated'', ''terminal.created'',
     ''terminal.exited'', ''terminal.killed'', ''terminal.output.delta'', ''terminal.released'',
     ''thought.completed'', ''thought.cancelled'', ''thought.delta'', ''thought.started'',
     ''thought.updated'', ''tool.call.updated'', ''tool.dynamic.updated'', ''usage.updated'',
     ''user.input.requested'', ''user.input.resolved'', ''web.search.updated'',
     ''workspace.files.changed'']"

definition runtimeEventActors :: "string list" where
  "runtimeEventActors = [''agent'', ''api'', ''driver'', ''system'', ''tool'', ''user'']"

definition runtimeEventOrigins :: "string list" where
  "runtimeEventOrigins = [''api'', ''driver'', ''file'', ''runtime'', ''system'', ''viewer'']"

definition runtimeEventVisibilities :: "string list" where
  "runtimeEventVisibilities = [''owner_debug'', ''participant'', ''public'', ''system_internal'']"

definition runtimeEventDeliveries :: "string list" where
  "runtimeEventDeliveries = [''best_effort'', ''lossless'']"

definition ownerDiagnosticRuntimeEventKinds :: "string list" where
  "ownerDiagnosticRuntimeEventKinds =
     [''diagnostic.reported'', ''driver.log.recorded'', ''runtime.config.updated'',
      ''runtime.driver.updated'', ''runtime.provisioning.updated'', ''runtime.sandbox.released'',
      ''runtime.sandbox.updated'', ''runtime.transport.updated'']"

definition systemInternalRuntimeEventKinds :: "string list" where
  "systemInternalRuntimeEventKinds =
     [''driver.command.updated'', ''driver.connected'', ''driver.disconnected'', ''driver.heartbeat'',
      ''driver.ready'']"

definition runtimeTimingPaths :: "string list" where
  "runtimeTimingPaths = [''cold'', ''prewarm'', ''unknown'', ''warm'']"

definition runtimeTimingSources :: "string list" where
  "runtimeTimingSources = [''api'', ''driver'']"

definition runtimeTimingStages :: "string list" where
  "runtimeTimingStages =
     [''context_hydration'', ''driver_backend'', ''driver_turn'', ''prepare_run'', ''prewarm'']"

definition runLifecycleStatuses :: "string list" where
  "runLifecycleStatuses = [''IDLE'', ''RESCHEDULING'', ''RUNNING'', ''TERMINATED'']"

definition runStatuses :: "string list" where
  "runStatuses = [''booting'', ''cancelled'', ''completed'', ''expired'', ''failed'', ''idle'', ''queued'',
      ''running'', ''waiting_input'']"

definition toolStatuses :: "string list" where
  "toolStatuses = [''cancelled'', ''completed'', ''failed'', ''running'']"

definition fileChangeKinds :: "string list" where
  "fileChangeKinds = [''delete'', ''upsert'']"

definition runtimeEventEnvelopeKeys :: "string list" where
  "runtimeEventEnvelopeKeys =
     [''actor'', ''correlationId'', ''delivery'', ''driverInstanceId'', ''id'', ''kind'', ''native'',
      ''occurredAt'', ''origin'', ''payload'', ''receivedAt'', ''runId'', ''runtimeId'', ''schemaVersion'',
      ''sessionId'', ''sourceEventId'', ''traceId'', ''visibility'']"

definition payloadIdentityFields :: "string list" where
  "payloadIdentityFields = [''occurredAt'', ''receivedAt'', ''runId'', ''runtimeId'', ''sessionId'', ''traceId'']"

record event_env =
  iso_datetime :: "string \<Rightarrow> bool"
  prettify :: "json option \<Rightarrow> string"
  utf8_bytes :: "string \<Rightarrow> nat"
  json_bytes :: "json \<Rightarrow> nat"

record native_ref =
  nf_eventName :: "string option"
  nf_itemId :: "string option"
  nf_protocolVersion :: "string option"
  nf_provider :: string
  nf_requestId :: "string option"
  nf_sequence :: "rat option"
  nf_threadId :: "string option"
  nf_turnId :: "string option"

record runtime_event =
  re_actor :: string
  re_correlationId :: "string option"
  re_delivery :: string
  re_driverInstanceId :: "string option"
  re_id :: string
  re_kind :: string
  re_native :: "native_ref option"
  re_occurredAt :: string
  re_origin :: string
  re_payload :: json
  re_receivedAt :: "string option"
  re_runId :: "string option"
  re_runtimeId :: "string option"
  re_sessionId :: string
  re_sourceEventId :: "string option"
  re_traceId :: "string option"
  re_visibility :: string

type_synonym 'a parsed = "string + 'a"

section \<open>Validation helpers\<close>

definition requireExactKeys :: "json_object \<Rightarrow> string list \<Rightarrow> string \<Rightarrow> unit parsed" where
  "requireExactKeys val allowedKeys label =
     (case sorted_list_of_fset (ffilter (\<lambda>k. k \<notin> set allowedKeys) (fmdom val)) of
        [] \<Rightarrow> Inr ()
      | unexpected # _ \<Rightarrow> Inl (label @ '' '' @ unexpected @ '' is not allowed.''))"

fun isRuntimeEventRecord :: "json \<Rightarrow> bool" where
  "isRuntimeEventRecord (JObj _) = True"
| "isRuntimeEventRecord _ = False"

definition event_readString :: "json_object \<Rightarrow> string \<Rightarrow> string option" where
  "event_readString val field =
     (case fmlookup val field of
        Some (JStr entry) \<Rightarrow> if entry = [] then None else Some entry
      | _ \<Rightarrow> None)"

definition requireString :: "json_object \<Rightarrow> string \<Rightarrow> string \<Rightarrow> string parsed" where
  "requireString val field label =
     (case event_readString val field of
        Some entry \<Rightarrow> Inr entry
      | None \<Rightarrow> Inl (label @ '' '' @ field @ '' must be a non-empty string.''))"

definition requireEnumValue :: "json_object \<Rightarrow> string \<Rightarrow> string list \<Rightarrow> string \<Rightarrow> string parsed" where
  "requireEnumValue val field vals label =
     bindE (requireString val field label) (\<lambda>entry.
       if entry \<in> set vals then Inr entry else Inl (label @ '' '' @ field @ '' is unsupported.''))"

text \<open>The guard of every \<open>requireOptional\<close>: the field is read only when it is there.\<close>

definition when_present :: "json_object \<Rightarrow> string \<Rightarrow> 'a parsed \<Rightarrow> unit parsed" where
  "when_present val field check =
     (case fmlookup val field of None \<Rightarrow> Inr () | Some _ \<Rightarrow> bindE check (\<lambda>_. Inr ()))"

definition when_present_and_not_null :: "json_object \<Rightarrow> string \<Rightarrow> 'a parsed \<Rightarrow> unit parsed" where
  "when_present_and_not_null val field check =
     (if fmlookup val field = Some JNull then Inr () else when_present val field check)"

definition requireOptionalEnumValue :: "json_object \<Rightarrow> string \<Rightarrow> string list \<Rightarrow> string \<Rightarrow> unit parsed" where
  "requireOptionalEnumValue val field vals label = when_present val field (requireEnumValue val field vals label)"

definition requireOptionalString :: "json_object \<Rightarrow> string \<Rightarrow> string \<Rightarrow> unit parsed" where
  "requireOptionalString val field label = when_present val field (requireString val field label)"

definition requireOptionalBoolean :: "json_object \<Rightarrow> string \<Rightarrow> string \<Rightarrow> unit parsed" where
  "requireOptionalBoolean val field label =
     when_present val field
       (case fmlookup val field of
          Some (JBool _) \<Rightarrow> Inr ()
        | _ \<Rightarrow> Inl (label @ '' '' @ field @ '' must be a boolean.''))"

definition requireOptionalContentString :: "json_object \<Rightarrow> string \<Rightarrow> string \<Rightarrow> unit parsed" where
  "requireOptionalContentString val field label =
     when_present_and_not_null val field
       (case fmlookup val field of
          Some (JStr _) \<Rightarrow> Inr ()
        | _ \<Rightarrow> Inl (label @ '' '' @ field @ '' must be a string.''))"

definition requireOptionalNullableString :: "json_object \<Rightarrow> string \<Rightarrow> string \<Rightarrow> unit parsed" where
  "requireOptionalNullableString val field label =
     when_present_and_not_null val field (requireString val field label)"

fun is_string :: "json \<Rightarrow> bool" where
  "is_string (JStr _) = True"
| "is_string _ = False"

definition requireOptionalStringArray :: "json_object \<Rightarrow> string \<Rightarrow> string \<Rightarrow> unit parsed" where
  "requireOptionalStringArray val field label =
     when_present val field
       (case fmlookup val field of
          Some (JArr entries) \<Rightarrow>
            if list_all is_string entries then Inr () else Inl (label @ '' '' @ field @ '' must be an array of strings.'')
        | _ \<Rightarrow> Inl (label @ '' '' @ field @ '' must be an array of strings.''))"

definition assertTimestamp :: "event_env \<Rightarrow> string \<Rightarrow> string \<Rightarrow> unit parsed" where
  "assertTimestamp env val label =
     (if iso_datetime env val then Inr ()
      else Inl (label @ '' must be an ISO 8601 timestamp with a timezone offset.''))"

definition requireTimestamp :: "event_env \<Rightarrow> json_object \<Rightarrow> string \<Rightarrow> string \<Rightarrow> string parsed" where
  "requireTimestamp env val field label =
     bindE (requireString val field label) (\<lambda>timestamp.
     bindE (assertTimestamp env timestamp (label @ '' '' @ field)) (\<lambda>_. Inr timestamp))"

definition requireOptionalTimestamp :: "event_env \<Rightarrow> json_object \<Rightarrow> string \<Rightarrow> string \<Rightarrow> unit parsed" where
  "requireOptionalTimestamp env val field label = when_present val field (requireTimestamp env val field label)"

definition requireNullableTimestamp ::
    "event_env \<Rightarrow> json_object \<Rightarrow> string \<Rightarrow> string \<Rightarrow> string \<Rightarrow> string option parsed" where
  "requireNullableTimestamp env val field label nullableLabel =
     (if fmlookup val field = Some JNull then Inr None
      else bindE (requireTimestamp env val field (label @ '' '' @ nullableLabel)) (\<lambda>t. Inr (Some t)))"

definition requireNonNegativeInt :: "json_object \<Rightarrow> string \<Rightarrow> rat parsed" where
  "requireNonNegativeInt val field =
     (case fmlookup val field of
        Some (JNum entry) \<Rightarrow>
          if is_safe_integer entry \<and> entry \<ge> 0 then Inr entry
          else Inl (''Runtime event runtime.timing.recorded '' @ field @ '' must be a non-negative safe integer.'')
      | _ \<Rightarrow> Inl (''Runtime event runtime.timing.recorded '' @ field @ '' must be a non-negative safe integer.''))"

definition event_readOptionalString :: "json_object \<Rightarrow> string \<Rightarrow> string \<Rightarrow> string option parsed" where
  "event_readOptionalString val field label =
     (case fmlookup val field of
        None \<Rightarrow> Inr None
      | Some _ \<Rightarrow> bindE (requireString val field label) (\<lambda>entry. Inr (Some entry)))"

definition readOptionalNumber :: "json_object \<Rightarrow> string \<Rightarrow> string \<Rightarrow> rat option parsed" where
  "readOptionalNumber val field label =
     (case fmlookup val field of
        None \<Rightarrow> Inr None
      | Some (JNum entry) \<Rightarrow> Inr (Some entry)
      | Some _ \<Rightarrow> Inl (label @ '' '' @ field @ '' must be a finite number.''))"

text \<open>\<open>parseDriverId\<close> of src/src/protocol/id/index.ts with its messages; the labels used are not blank.\<close>

definition parseDriverId :: "json option \<Rightarrow> string \<Rightarrow> string parsed" where
  "parseDriverId val label =
     (case val of
        Some (JStr s) \<Rightarrow>
          (case normalizeDriverId s of
             Inr i \<Rightarrow> Inr i
           | Inl _ \<Rightarrow> Inl (label @ '' must be a valid ULID.''))
      | _ \<Rightarrow> Inl (label @ '' must be a ULID string.''))"

definition parseRunId :: "json option \<Rightarrow> string parsed" where
  "parseRunId val = parseDriverId val ''Run ID''"

definition readDriverId :: "json_object \<Rightarrow> string \<Rightarrow> string parsed" where
  "readDriverId val field = parseDriverId (fmlookup val field) (''Runtime event '' @ field)"

definition readOptionalDriverId :: "json_object \<Rightarrow> string \<Rightarrow> string option parsed" where
  "readOptionalDriverId val field =
     (case fmlookup val field of
        None \<Rightarrow> Inr None
      | entry \<Rightarrow> bindE (parseDriverId entry (''Runtime event '' @ field)) (\<lambda>i. Inr (Some i)))"

fun is_primitive :: "json \<Rightarrow> bool" where
  "is_primitive (JArr _) = False"
| "is_primitive (JObj _) = False"
| "is_primitive _ = True"

definition readPrimitiveRecord :: "json option \<Rightarrow> string \<Rightarrow> json_object parsed" where
  "readPrimitiveRecord val label =
     (case val of
        None \<Rightarrow> Inr fmempty
      | Some (JObj m) \<Rightarrow>
          (case sorted_list_of_fset (ffilter (\<lambda>k. \<not> is_primitive (the (fmlookup m k))) (fmdom m)) of
             [] \<Rightarrow> Inr m
           | field # _ \<Rightarrow> Inl (label @ ''.'' @ field @ '' must be a primitive JSON value.''))
      | _ \<Rightarrow> Inl (label @ '' must be an object.''))"

definition native_ref_keys :: "string list" where
  "native_ref_keys = [''eventName'', ''itemId'', ''protocolVersion'', ''provider'', ''requestId'', ''sequence'',
     ''threadId'', ''turnId'']"

definition parseNativeRef :: "json_object \<Rightarrow> native_ref parsed" where
  "parseNativeRef val =
     (let label = ''Runtime event native reference'' in
      bindE (requireExactKeys val native_ref_keys label) (\<lambda>_.
      bindE (event_readOptionalString val ''eventName'' label) (\<lambda>eventName.
      bindE (event_readOptionalString val ''itemId'' label) (\<lambda>itemId.
      bindE (event_readOptionalString val ''protocolVersion'' label) (\<lambda>protocolVersion.
      bindE (requireString val ''provider'' label) (\<lambda>provider.
      bindE (event_readOptionalString val ''requestId'' label) (\<lambda>requestId.
      bindE (readOptionalNumber val ''sequence'' label) (\<lambda>sequence.
      bindE (event_readOptionalString val ''threadId'' label) (\<lambda>threadId.
      bindE (event_readOptionalString val ''turnId'' label) (\<lambda>turnId.
        Inr \<lparr>nf_eventName = eventName, nf_itemId = itemId, nf_protocolVersion = protocolVersion,
          nf_provider = provider, nf_requestId = requestId, nf_sequence = sequence,
          nf_threadId = threadId, nf_turnId = turnId\<rparr>))))))))))"

fun block_text :: "json \<Rightarrow> string" where
  "block_text (JObj m) = (case event_readString m ''text'' of None \<Rightarrow> [] | Some t \<Rightarrow> t)"
| "block_text _ = []"

fun readTextBlocks :: "json option \<Rightarrow> string option" where
  "readTextBlocks (Some (JArr entries)) =
     (let txt = concat (map block_text entries) in if txt = [] then None else Some txt)"
| "readTextBlocks _ = None"

definition hasTextContent :: "json_object \<Rightarrow> bool" where
  "hasTextContent payload \<longleftrightarrow>
     event_readString payload ''contentDelta'' \<noteq> None \<or> event_readString payload ''content'' \<noteq> None
     \<or> readTextBlocks (fmlookup payload ''content'') \<noteq> None"

definition hasRunStartedAt :: "json_object \<Rightarrow> bool" where
  "hasRunStartedAt rec \<longleftrightarrow>
     event_readString rec ''startedAt'' \<noteq> None
     \<or> (case fmlookup rec ''run'' of
          Some (JObj run) \<Rightarrow> event_readString run ''startedAt'' \<noteq> None
        | _ \<Rightarrow> False)"

definition omitPayloadIdentity :: "json_object \<Rightarrow> json_object" where
  "omitPayloadIdentity = fmfilter (\<lambda>key. key \<notin> set payloadIdentityFields)"

definition requirePayloadRecord :: "string \<Rightarrow> json option \<Rightarrow> string \<Rightarrow> json_object parsed" where
  "requirePayloadRecord kind val label =
     (case val of
        Some (JObj m) \<Rightarrow> Inr m
      | _ \<Rightarrow> Inl (''Runtime event '' @ kind @ '' '' @ label @ '' must be an object.''))"

section \<open>Native runtime references and checkpoints\<close>

definition SUPPORTED_DRIVER_RUNTIMES :: "string list" where
  "SUPPORTED_DRIVER_RUNTIMES = [''openai-runtime'', ''claude-agent-sdk'', ''acp-fallback'', ''pi'']"

definition SUPPORTED_DRIVER_NATIVE_RUNTIME_REF_KINDS :: "string list" where
  "SUPPORTED_DRIVER_NATIVE_RUNTIME_REF_KINDS =
     [''openai_thread_id'', ''claude_session_id'', ''acp_session_id'', ''pi_session_path'']"

definition getExpectedDriverNativeRuntimeRefKind :: "string \<Rightarrow> string" where
  "getExpectedDriverNativeRuntimeRefKind runtimeId =
     (if runtimeId = ''openai-runtime'' then ''openai_thread_id''
      else if runtimeId = ''claude-agent-sdk'' then ''claude_session_id''
      else if runtimeId = ''acp-fallback'' then ''acp_session_id''
      else ''pi_session_path'')"

record runtime_ref =
  rr_kind :: string
  rr_runtimeId :: string
  rr_value :: string

text \<open>The schema reads the three fields of an object and ignores the others.\<close>

definition read_runtime_ref :: "json \<Rightarrow> runtime_ref option" where
  "read_runtime_ref val =
     (case val of
        JObj m \<Rightarrow>
          (case (fmlookup m ''kind'', fmlookup m ''runtimeId'', fmlookup m ''value'') of
             (Some (JStr kind), Some (JStr runtimeId), Some (JStr v)) \<Rightarrow>
               if kind \<in> set SUPPORTED_DRIVER_NATIVE_RUNTIME_REF_KINDS
                  \<and> runtimeId \<in> set SUPPORTED_DRIVER_RUNTIMES \<and> v \<noteq> []
                  \<and> kind = getExpectedDriverNativeRuntimeRefKind runtimeId
               then Some \<lparr>rr_kind = kind, rr_runtimeId = runtimeId, rr_value = v\<rparr> else None
           | _ \<Rightarrow> None)
      | _ \<Rightarrow> None)"

definition parseDriverNativeRuntimeRef :: "event_env \<Rightarrow> json option \<Rightarrow> runtime_ref parsed" where
  "parseDriverNativeRuntimeRef env val =
     (case Option.bind val read_runtime_ref of Some r \<Rightarrow> Inr r | None \<Rightarrow> Inl (prettify env val))"

record native_checkpoint =
  nc_nativeRef :: runtime_ref
  nc_runId :: string

definition checkpoint_keys :: "string list" where
  "checkpoint_keys = [''formatVersion'', ''nativeRef'', ''runId'']"

definition parseNativeCheckpoint :: "event_env \<Rightarrow> json option \<Rightarrow> native_checkpoint parsed" where
  "parseNativeCheckpoint env val =
     (case val of
        Some (JObj m) \<Rightarrow>
          if list_ex (\<lambda>key. fmlookup m key = None) checkpoint_keys
          then Inl ''Native checkpoint requires its own formatVersion, nativeRef, and runId.''
          else if fmlookup m ''formatVersion'' \<noteq> Some (JNum 1) \<or> \<not> fmdom m |\<subseteq>| fset_of_list checkpoint_keys
          then Inl (''Native checkpoint is invalid: '' @ prettify env val)
          else
          bindE (parseDriverNativeRuntimeRef env (fmlookup m ''nativeRef'')) (\<lambda>nativeRef.
          bindE (parseRunId (fmlookup m ''runId'')) (\<lambda>runId.
            Inr \<lparr>nc_nativeRef = nativeRef, nc_runId = runId\<rparr>))
      | _ \<Rightarrow> Inl ''Native checkpoint requires its own formatVersion, nativeRef, and runId.'')"

definition nativeRuntimeRefsEqual :: "runtime_ref \<Rightarrow> runtime_ref \<Rightarrow> bool" where
  "nativeRuntimeRefsEqual left right \<longleftrightarrow>
     rr_kind left = rr_kind right \<and> rr_runtimeId left = rr_runtimeId right \<and> rr_value left = rr_value right"

definition runtime_ref_json :: "runtime_ref \<Rightarrow> json" where
  "runtime_ref_json r = JObj (fmap_of_list
     [(''kind'', JStr (rr_kind r)), (''runtimeId'', JStr (rr_runtimeId r)), (''value'', JStr (rr_value r))])"

definition checkpoint_json :: "native_checkpoint \<Rightarrow> json" where
  "checkpoint_json c = JObj (fmap_of_list
     [(''formatVersion'', JNum 1), (''nativeRef'', runtime_ref_json (nc_nativeRef c)),
      (''runId'', JStr (nc_runId c))])"

section \<open>Payloads\<close>

text \<open>What the payload of an event is admitted against.\<close>

record payload_context =
  pc_delivery :: string
  pc_driverInstanceId :: "string option"
  pc_kind :: string
  pc_runId :: "string option"
  pc_runtimeId :: "string option"
  pc_sessionId :: string
  pc_traceId :: "string option"
  pc_visibility :: string

definition nullable :: "string option \<Rightarrow> json" where
  "nullable s = (case s of None \<Rightarrow> JNull | Some t \<Rightarrow> JStr t)"

definition isRunStatusAllowedForKind :: "string \<Rightarrow> string \<Rightarrow> bool" where
  "isRunStatusAllowedForKind kind status \<longleftrightarrow>
     (if kind \<in> set [''run.cancel.requested'', ''run.dispatched'', ''run.started'', ''run.steered'', ''run.waiting'']
      then status \<in> set [''booting'', ''running'', ''waiting_input'']
      else if kind = ''run.cancelled'' then status = ''cancelled'' \<or> status = ''expired''
      else if kind = ''run.completed'' then status = ''completed''
      else if kind = ''run.failed'' then status = ''failed''
      else if kind = ''run.queued'' then status = ''queued''
      else False)"

definition readRunError :: "string \<Rightarrow> json option \<Rightarrow> string \<Rightarrow> json_object parsed" where
  "readRunError kind val label =
     bindE (requirePayloadRecord kind val label) (\<lambda>rec.
       case fmlookup rec ''retryable'' of
         Some (JBool retryable) \<Rightarrow>
           bindE (requireString rec ''code'' kind) (\<lambda>code.
           bindE (readPrimitiveRecord (fmlookup rec ''details'')
                    (''Runtime event '' @ kind @ '' payload '' @ label @ ''.details'')) (\<lambda>details.
           bindE (requireString rec ''message'' kind) (\<lambda>message.
             Inr (fmap_of_list [(''code'', JStr code), (''details'', JObj details), (''message'', JStr message),
               (''retryable'', JBool retryable)]))))
       | _ \<Rightarrow> Inl (''Runtime event '' @ kind @ '' payload '' @ label @ ''.retryable must be a boolean.''))"

definition run_view_error :: "string \<Rightarrow> json_object \<Rightarrow> json parsed" where
  "run_view_error kind rec =
     (if fmlookup rec ''error'' = Some JNull then Inr JNull
      else bindE (readRunError kind (fmlookup rec ''error'') ''run.error'') (\<lambda>e. Inr (JObj e)))"

definition readRunView :: "event_env \<Rightarrow> payload_context \<Rightarrow> json \<Rightarrow> json_object parsed" where
  "readRunView env ctx val =
     (let kind = pc_kind ctx in
      bindE (requirePayloadRecord kind (Some val) ''run'') (\<lambda>rec.
      bindE (requireEnumValue rec ''status'' runStatuses kind) (\<lambda>status.
      if \<not> isRunStatusAllowedForKind kind status
      then Inl (''Runtime event '' @ kind @ '' payload run.status is inconsistent.'')
      else
      bindE (requireNullableTimestamp env rec ''completedAt'' kind ''run.completedAt'') (\<lambda>completedAt.
      bindE (run_view_error kind rec) (\<lambda>error.
      bindE (requireNullableTimestamp env rec ''startedAt'' kind ''run.startedAt'') (\<lambda>startedAt.
        Inr (fmap_of_list
          [(''completedAt'', nullable completedAt), (''error'', error), (''id'', nullable (pc_runId ctx)),
           (''startedAt'', nullable startedAt), (''status'', JStr status),
           (''traceId'', nullable (pc_traceId ctx))])))))))"

text \<open>The steps of \<open>readRunPayload\<close>: the checks of the fields, the completed run's checkpoint, the run view and the error, and the checks of the admitted payload.\<close>

definition run_fields :: "event_env \<Rightarrow> payload_context \<Rightarrow> json_object \<Rightarrow> unit parsed" where
  "run_fields env ctx rec =
     (let kind = pc_kind ctx in checks
       [requireOptionalEnumValue rec ''lifecycle'' runLifecycleStatuses kind,
        when_present rec ''status''
          (bindE (requireEnumValue rec ''status'' runStatuses kind) (\<lambda>status.
             if isRunStatusAllowedForKind kind status then Inr ()
             else Inl (''Runtime event '' @ kind @ '' payload status is inconsistent.''))),
        requireOptionalString rec ''inputSummary'' kind,
        requireOptionalString rec ''reason'' kind,
        requireOptionalString rec ''requestedBy'' kind,
        requireOptionalString rec ''stopReason'' kind,
        requireOptionalString rec ''targetRunId'' kind,
        requireOptionalString rec ''userMessageId'' kind,
        requireOptionalStringArray rec ''inputItemIds'' kind,
        requireOptionalTimestamp env rec ''completedAt'' kind,
        requireOptionalTimestamp env rec ''startedAt'' kind,
        if kind = ''run.completed'' then requireOptionalString rec ''finalMessageId'' kind else Inr (),
        if kind = ''run.completed'' \<and> fmlookup rec ''finalMessageText'' \<noteq> None
        then Inl ''Runtime event run.completed payload finalMessageText is unsupported.'' else Inr ()])"

definition run_checkpoint :: "event_env \<Rightarrow> payload_context \<Rightarrow> json_object \<Rightarrow> json_object \<Rightarrow> json_object parsed" where
  "run_checkpoint env ctx rec admitted =
     (if pc_kind ctx = ''run.completed''
      then bindE (parseNativeCheckpoint env (fmlookup rec ''checkpoint'')) (\<lambda>checkpoint.
        if Some (nc_runId checkpoint) \<noteq> pc_runId ctx
        then Inl ''Runtime event run.completed checkpoint must match the event run.''
        else if Some (rr_runtimeId (nc_nativeRef checkpoint)) \<noteq> pc_runtimeId ctx
        then Inl ''Runtime event run.completed checkpoint must match the event runtime.''
        else Inr (fmupd ''checkpoint'' (checkpoint_json checkpoint) admitted))
      else Inr admitted)"

definition run_view :: "event_env \<Rightarrow> payload_context \<Rightarrow> json_object \<Rightarrow> json_object \<Rightarrow> json_object parsed" where
  "run_view env ctx rec admitted =
     (case fmlookup rec ''run'' of
        None \<Rightarrow> Inr admitted
      | Some run \<Rightarrow> bindE (readRunView env ctx run) (\<lambda>view. Inr (fmupd ''run'' (JObj view) admitted)))"

definition run_error :: "payload_context \<Rightarrow> json_object \<Rightarrow> json_object \<Rightarrow> json_object parsed" where
  "run_error ctx rec admitted =
     (case fmlookup rec ''error'' of
        None \<Rightarrow> Inr admitted
      | Some JNull \<Rightarrow> Inr admitted
      | Some error \<Rightarrow> bindE (readRunError (pc_kind ctx) (Some error) ''error'') (\<lambda>e.
          Inr (fmupd ''error'' (JObj e) admitted)))"

definition run_admitted :: "payload_context \<Rightarrow> json_object \<Rightarrow> json_object \<Rightarrow> unit parsed" where
  "run_admitted ctx rec admitted =
     (if pc_kind ctx = ''run.started'' \<and> \<not> hasRunStartedAt admitted
      then Inl ''Runtime event run.started payload must include a start time.''
      else if pc_kind ctx = ''run.failed'' then
        (case fmlookup admitted ''error'' of
           Some (JObj error) \<Rightarrow>
             (case fmlookup rec ''recoverable'' of
                Some (JBool recoverable) \<Rightarrow>
                  if fmlookup error ''retryable'' = Some (JBool recoverable) then Inr ()
                  else Inl ''Runtime event run.failed payload recoverable must agree with error.retryable.''
              | _ \<Rightarrow> Inl ''Runtime event run.failed payload recoverable must be a boolean.'')
         | _ \<Rightarrow> Inl ''Runtime event run.failed payload must include an error.'')
      else Inr ())"

definition readRunPayload :: "event_env \<Rightarrow> payload_context \<Rightarrow> json \<Rightarrow> json parsed" where
  "readRunPayload env ctx payload =
     bindE (requirePayloadRecord (pc_kind ctx) (Some payload) ''payload'') (\<lambda>rec.
     if pc_runId ctx = None then Inl (''Runtime event '' @ pc_kind ctx @ '' requires a run ID.'')
     else
     bindE (run_fields env ctx rec) (\<lambda>_.
     bindE (run_checkpoint env ctx rec (omitPayloadIdentity rec)) (\<lambda>admitted1.
     bindE (run_view env ctx rec admitted1) (\<lambda>admitted2.
     bindE (run_error ctx rec admitted2) (\<lambda>admitted3.
     bindE (run_admitted ctx rec admitted3) (\<lambda>_. Inr (JObj admitted3)))))))"

definition readTimingPhase :: "json \<Rightarrow> json parsed" where
  "readTimingPhase phase =
     bindE (requirePayloadRecord ''runtime.timing.recorded'' (Some phase) ''phase'') (\<lambda>rec.
     bindE (requireNonNegativeInt rec ''durationMs'') (\<lambda>durationMs.
     bindE (requireString rec ''name'' ''runtime.timing.recorded'') (\<lambda>name.
       Inr (JObj (fmap_of_list [(''durationMs'', JNum durationMs), (''name'', JStr name)])))))"

definition readTimingPhases :: "json option \<Rightarrow> json list parsed" where
  "readTimingPhases val =
     (case val of
        Some (JArr phases) \<Rightarrow> mapE readTimingPhase phases
      | _ \<Rightarrow> Inl ''Runtime event runtime.timing.recorded phases must be an array.'')"

text \<open>
  \<open>Date.parse\<close> of a timestamp the schema admits: the seconds may be left out.  \<open>None\<close> is \<open>NaN\<close>,
  which is below no number.
\<close>

definition date_parse_value :: "string \<Rightarrow> int option" where
  "date_parse_value t =
     (case date_parse_ms t of Some ms \<Rightarrow> Some ms | None \<Rightarrow> date_parse_ms (take 16 t @ '':00'' @ drop 16 t))"

definition date_before :: "string \<Rightarrow> string \<Rightarrow> bool" where
  "date_before a b =
     (case (date_parse_value a, date_parse_value b) of (Some x, Some y) \<Rightarrow> x < y | _ \<Rightarrow> False)"

definition readTimingPayload :: "event_env \<Rightarrow> payload_context \<Rightarrow> json \<Rightarrow> json parsed" where
  "readTimingPayload env ctx payload =
     (let kind = ''runtime.timing.recorded'' in
      bindE (requirePayloadRecord kind (Some payload) ''payload'') (\<lambda>rec.
      bindE (requireTimestamp env rec ''completedAt'' kind) (\<lambda>completedAt.
      bindE (requireEnumValue rec ''path'' runtimeTimingPaths kind) (\<lambda>path.
      bindE (requireEnumValue rec ''source'' runtimeTimingSources kind) (\<lambda>source.
      bindE (requireEnumValue rec ''stage'' runtimeTimingStages kind) (\<lambda>stage.
      bindE (requireTimestamp env rec ''startedAt'' kind) (\<lambda>startedAt.
      bindE (requireNonNegativeInt rec ''totalMs'') (\<lambda>totalMs.
      bindE (readTimingPhases (fmlookup rec ''phases'')) (\<lambda>phases.
      if date_before completedAt startedAt
      then Inl ''Runtime event runtime.timing.recorded payload completedAt must not precede startedAt.''
      else Inr (JObj (fmap_of_list
        [(''completedAt'', JStr completedAt), (''path'', JStr path), (''phases'', JArr phases),
         (''runId'', nullable (pc_runId ctx)), (''sessionId'', JStr (pc_sessionId ctx)),
         (''source'', JStr source), (''stage'', JStr stage), (''startedAt'', JStr startedAt),
         (''totalMs'', JNum totalMs), (''traceId'', nullable (pc_traceId ctx))])))))))))))"

definition previous_checkpoint :: "event_env \<Rightarrow> json_object \<Rightarrow> native_checkpoint option parsed" where
  "previous_checkpoint env rec =
     (if fmlookup rec ''previousCheckpoint'' = Some JNull then Inr None
      else bindE (parseNativeCheckpoint env (fmlookup rec ''previousCheckpoint'')) (\<lambda>c. Inr (Some c)))"

definition readSessionReset :: "event_env \<Rightarrow> payload_context \<Rightarrow> json \<Rightarrow> json parsed" where
  "readSessionReset env ctx payload =
     (if pc_runId ctx \<noteq> None
      then Inl ''Runtime event runtime.session.reset must be scoped to the session.''
      else if pc_driverInstanceId ctx = None \<or> pc_runtimeId ctx = None
      then Inl ''Runtime event runtime.session.reset requires driver and runtime IDs.''
      else if pc_delivery ctx \<noteq> ''lossless''
      then Inl ''Runtime event runtime.session.reset must be lossless.''
      else
      bindE (requirePayloadRecord (pc_kind ctx) (Some payload) ''payload'') (\<lambda>rec.
      bindE (requireExactKeys rec [''previousCheckpoint'', ''previousNativeRef'', ''newNativeRef'']
               ''Runtime event runtime.session.reset payload'') (\<lambda>_.
      bindE (previous_checkpoint env rec) (\<lambda>previousCheckpoint.
      bindE (parseDriverNativeRuntimeRef env (fmlookup rec ''previousNativeRef'')) (\<lambda>previousNativeRef.
      bindE (parseDriverNativeRuntimeRef env (fmlookup rec ''newNativeRef'')) (\<lambda>newNativeRef.
      if Some (rr_runtimeId previousNativeRef) \<noteq> pc_runtimeId ctx
         \<or> Some (rr_runtimeId newNativeRef) \<noteq> pc_runtimeId ctx
      then Inl ''Runtime event runtime.session.reset refs must match the event runtime.''
      else if (case previousCheckpoint of
                 None \<Rightarrow> False
               | Some c \<Rightarrow> \<not> nativeRuntimeRefsEqual (nc_nativeRef c) previousNativeRef)
      then Inl ''Runtime event runtime.session.reset checkpoint must match the previous ref.''
      else Inr (JObj (fmap_of_list
        [(''previousCheckpoint'', case previousCheckpoint of None \<Rightarrow> JNull | Some c \<Rightarrow> checkpoint_json c),
         (''previousNativeRef'', runtime_ref_json previousNativeRef),
         (''newNativeRef'', runtime_ref_json newNativeRef)]))))))))"

definition readContextUsage :: "payload_context \<Rightarrow> json \<Rightarrow> json parsed" where
  "readContextUsage ctx payload =
     bindE (requirePayloadRecord (pc_kind ctx) (Some payload) ''payload'') (\<lambda>rec.
     bindE (requireExactKeys rec [''used'', ''size''] ''Runtime context usage payload'') (\<lambda>_.
     bindE (each (\<lambda>field.
         case fmlookup rec field of
           Some (JNum n) \<Rightarrow>
             if is_safe_integer n \<and> n \<ge> 0 then Inr ()
             else Inl (''Runtime context usage '' @ field @ '' must be a non-negative safe integer.'')
         | _ \<Rightarrow> Inl (''Runtime context usage '' @ field @ '' must be a non-negative safe integer.''))
       [''used'', ''size'']) (\<lambda>_. Inr (JObj rec))))"

text \<open>The schema of an agent's task list.\<close>

definition optional_text_ok :: "json option \<Rightarrow> bool" where
  "optional_text_ok val =
     (case val of
        None \<Rightarrow> True
      | Some (JStr s) \<Rightarrow> s \<noteq> [] \<and> length s \<le> 4096
      | _ \<Rightarrow> False)"

definition task_ok :: "event_env \<Rightarrow> json \<Rightarrow> bool" where
  "task_ok env task =
     (case task of
        JObj m \<Rightarrow>
          (case fmlookup m ''taskId'' of Some (JStr i) \<Rightarrow> i \<noteq> [] \<and> utf8_bytes env i \<le> 256 | _ \<Rightarrow> False)
          \<and> optional_text_ok (fmlookup m ''taskType'') \<and> optional_text_ok (fmlookup m ''title'')
          \<and> fmdom m |\<subseteq>| fset_of_list [''taskId'', ''taskType'', ''title'']
      | _ \<Rightarrow> False)"

fun task_id :: "json \<Rightarrow> json option" where
  "task_id (JObj m) = fmlookup m ''taskId''"
| "task_id _ = None"

definition agentTasksReplacedPayload_ok :: "event_env \<Rightarrow> json_object \<Rightarrow> bool" where
  "agentTasksReplacedPayload_ok env m \<longleftrightarrow>
     (case fmlookup m ''tasks'' of
        Some (JArr tasks) \<Rightarrow> list_all (task_ok env) tasks \<and> length tasks \<le> 256 \<and> distinct (map task_id tasks)
      | _ \<Rightarrow> False)
     \<and> fmdom m |\<subseteq>| {|''tasks''|}
     \<and> json_bytes env (JObj m) \<le> MAX_AGENT_TASKS_REPLACED_PAYLOAD_BYTES"

definition readAgentTasks :: "event_env \<Rightarrow> payload_context \<Rightarrow> json \<Rightarrow> json parsed" where
  "readAgentTasks env ctx payload =
     (if pc_delivery ctx \<noteq> ''lossless'' \<or> pc_visibility ctx \<noteq> ''participant''
      then Inl (''Runtime event '' @ pc_kind ctx @ '' must be lossless and participant-visible.'')
      else if pc_driverInstanceId ctx = None \<or> pc_runId ctx = None
      then Inl (''Runtime event '' @ pc_kind ctx @ '' requires a run ID and driver instance ID.'')
      else
      bindE (requirePayloadRecord (pc_kind ctx) (Some payload) ''payload'') (\<lambda>rec.
        if agentTasksReplacedPayload_ok env (omitPayloadIdentity rec) then Inr (JObj (omitPayloadIdentity rec))
        else Inl (''Runtime event '' @ pc_kind ctx @ '' payload is invalid.'')))"

definition readMessageFailed :: "payload_context \<Rightarrow> json \<Rightarrow> json parsed" where
  "readMessageFailed ctx payload =
     bindE (requirePayloadRecord (pc_kind ctx) (Some payload) ''payload'') (\<lambda>rec.
     bindE (requireString rec ''messageId'' (pc_kind ctx)) (\<lambda>_.
     bindE (requireOptionalEnumValue rec ''role'' [''agent'', ''user''] (pc_kind ctx)) (\<lambda>_.
     bindE (readRunError (pc_kind ctx) (fmlookup rec ''error'') ''error'') (\<lambda>error.
       Inr (JObj (fmupd ''error'' (JObj error) (omitPayloadIdentity rec)))))))"

text \<open>The kinds whose payload is checked field by field and admitted without its identity fields.\<close>

definition ignore_value :: "'a parsed \<Rightarrow> unit parsed" where
  "ignore_value c = bindE c (\<lambda>_. Inr ())"

definition task_fields :: "string \<Rightarrow> json_object \<Rightarrow> unit parsed" where
  "task_fields kind rec = checks
     [ignore_value (requireString rec ''taskId'' kind),
      requireOptionalBoolean rec ''active'' kind,
      requireOptionalEnumValue rec ''status'' toolStatuses kind,
      each (\<lambda>field. requireOptionalString rec field kind)
        [''activityKind'', ''agentId'', ''agentPath'', ''taskType'', ''title'']]"

definition diagnostic_fields :: "string \<Rightarrow> json_object \<Rightarrow> unit parsed" where
  "diagnostic_fields kind rec = checks
     [requireOptionalString rec ''code'' kind, requireOptionalString rec ''message'' kind,
      requireOptionalString rec ''severity'' kind]"

definition file_change_fields :: "string \<Rightarrow> json_object \<Rightarrow> unit parsed" where
  "file_change_fields kind rec =
     (let changes = (case fmlookup rec ''changes'' of Some (JArr cs) \<Rightarrow> cs | _ \<Rightarrow> [JObj rec])
      in if changes = [] then Inl (''Runtime event '' @ kind @ '' payload must include a file change.'')
         else each (\<lambda>change.
           bindE (requirePayloadRecord kind (Some change) ''file change'') (\<lambda>fileChange. checks
             [ignore_value (requireString fileChange ''path'' kind),
              ignore_value (requireEnumValue fileChange ''change'' fileChangeKinds kind)])) changes)"

definition message_text_fields :: "string \<Rightarrow> json_object \<Rightarrow> unit parsed" where
  "message_text_fields kind rec =
     (if \<not> hasTextContent rec then Inl (''Runtime event '' @ kind @ '' payload must include text content.'')
      else checks
       [ignore_value (requireString rec ''messageId'' kind),
        requireOptionalEnumValue rec ''level'' [''info'', ''notice'', ''suggestion'', ''warning''] kind,
        requireOptionalBoolean rec ''preventContinuation'' kind,
        requireOptionalEnumValue rec ''role'' [''agent'', ''user''] kind,
        requireOptionalString rec ''subtype'' kind,
        requireOptionalString rec ''toolCallId'' kind,
        requireOptionalEnumValue rec ''phase'' [''commentary'', ''final''] kind])"

definition message_state_fields :: "string \<Rightarrow> json_object \<Rightarrow> unit parsed" where
  "message_state_fields kind rec = checks
     [ignore_value (requireString rec ''messageId'' kind),
      requireOptionalEnumValue rec ''role'' [''agent'', ''user''] kind]"

definition thought_state_fields :: "string \<Rightarrow> json_object \<Rightarrow> unit parsed" where
  "thought_state_fields kind rec = checks
     [ignore_value (requireString rec ''thoughtId'' kind),
      requireOptionalEnumValue rec ''role'' [''agent'', ''user''] kind]"

definition thought_delta_fields :: "string \<Rightarrow> json_object \<Rightarrow> unit parsed" where
  "thought_delta_fields kind rec =
     (if \<not> hasTextContent rec then Inl ''Runtime event thought.delta payload must include text content.''
      else ignore_value (requireString rec ''thoughtId'' kind))"

definition thought_updated_fields :: "event_env \<Rightarrow> string \<Rightarrow> string \<Rightarrow> json_object \<Rightarrow> unit parsed" where
  "thought_updated_fields env delivery kind rec =
     bindE (requireString rec ''thoughtId'' kind) (\<lambda>_.
     bindE (requireNonNegativeInt rec ''offset'') (\<lambda>offset.
       if delivery \<noteq> ''lossless''
          \<or> (case fmlookup rec ''content'' of
               Some (JStr content) \<Rightarrow> offset + of_nat (length content) > of_int MAX_THOUGHT_CONTENT_BYTES
             | _ \<Rightarrow> True)
          \<or> json_bytes env (JObj rec) > MAX_THOUGHT_UPDATE_BYTES
       then Inl ''Runtime event thought.updated requires bounded lossless text content.''
       else Inr ()))"

definition permission_requested_fields :: "string \<Rightarrow> json_object \<Rightarrow> unit parsed" where
  "permission_requested_fields kind rec = checks
     [ignore_value (requireString rec ''requestId'' kind),
      ignore_value (requireString rec ''title'' kind),
      requireOptionalString rec ''agentId'' kind,
      requireOptionalString rec ''blockedPath'' kind,
      requireOptionalString rec ''decisionReason'' kind,
      requireOptionalString rec ''description'' kind,
      requireOptionalNullableString rec ''details'' kind,
      requireOptionalNullableString rec ''targetItemId'' kind,
      when_present rec ''matchedAskRule''
        (bindE (requirePayloadRecord kind (fmlookup rec ''matchedAskRule'') ''matchedAskRule'') (\<lambda>rule. checks
          [ignore_value (requireString rule ''source'' kind),
           ignore_value (requireString rule ''toolName'' kind),
           requireOptionalString rule ''ruleContent'' kind])),
      when_present rec ''options''
        (case fmlookup rec ''options'' of
           Some (JArr _) \<Rightarrow> Inr ()
         | _ \<Rightarrow> Inl ''Runtime event permission.requested payload options must be an array.''),
      when_present_and_not_null rec ''toolCall''
        (bindE (requirePayloadRecord kind (fmlookup rec ''toolCall'') ''toolCall'') (\<lambda>toolCall. checks
          [requireOptionalString toolCall ''kind'' kind, requireOptionalString toolCall ''toolCallId'' kind]))]"

definition permission_resolved_fields :: "string \<Rightarrow> json_object \<Rightarrow> unit parsed" where
  "permission_resolved_fields kind rec = checks
     [ignore_value (requireString rec ''requestId'' kind),
      ignore_value (requireString rec ''outcome'' kind),
      requireOptionalString rec ''optionId'' kind,
      requireOptionalString rec ''optionKind'' kind]"

definition session_info_fields :: "event_env \<Rightarrow> string \<Rightarrow> json_object \<Rightarrow> unit parsed" where
  "session_info_fields env kind rec = checks
     [requireOptionalNullableString rec ''title'' kind,
      when_present rec ''updatedAt'' (requireNullableTimestamp env rec ''updatedAt'' kind ''updatedAt'')]"

definition runtime_status_fields :: "string \<Rightarrow> json_object \<Rightarrow> unit parsed" where
  "runtime_status_fields kind rec = checks
     [ignore_value (requireString rec ''status'' kind),
      ignore_value (if kind = ''runtime.transport.updated'' then requireString rec ''channel'' kind
                    else requireString rec ''phase'' kind)]"

definition tool_call_fields :: "string \<Rightarrow> json_object \<Rightarrow> unit parsed" where
  "tool_call_fields kind rec = checks
     [ignore_value (requireEnumValue rec ''status'' toolStatuses kind),
      ignore_value (requireString rec ''toolCallId'' kind),
      requireOptionalContentString rec ''content'' kind,
      requireOptionalString rec ''agentId'' kind,
      requireOptionalString rec ''decisionReason'' kind,
      requireOptionalString rec ''decisionReasonType'' kind,
      requireOptionalString rec ''kind'' kind,
      requireOptionalString rec ''messageId'' kind,
      requireOptionalString rec ''name'' kind,
      requireOptionalString rec ''nonExecutionKind'' kind,
      requireOptionalString rec ''parentMessageId'' kind,
      requireOptionalString rec ''rawInput'' kind,
      requireOptionalString rec ''rawInputDelta'' kind,
      requireOptionalString rec ''rawOutput'' kind,
      requireOptionalString rec ''rawOutputDelta'' kind,
      requireOptionalNullableString rec ''title'' kind,
      requireOptionalString rec ''userFeedback'' kind,
      if fmlookup rec ''rawInput'' \<noteq> None \<and> fmlookup rec ''rawInputDelta'' \<noteq> None
      then Inl ''Runtime event tool.call.updated payload cannot contain both rawInput and rawInputDelta.'' else Inr (),
      if fmlookup rec ''rawOutput'' \<noteq> None \<and> fmlookup rec ''rawOutputDelta'' \<noteq> None
      then Inl ''Runtime event tool.call.updated payload cannot contain both rawOutput and rawOutputDelta.'' else Inr ()]"

definition runtime_status_kinds :: "string list" where
  "runtime_status_kinds = [''runtime.config.updated'', ''runtime.driver.updated'',
     ''runtime.provisioning.updated'', ''runtime.sandbox.updated'', ''runtime.transport.updated'']"

definition run_kinds :: "string list" where
  "run_kinds = [''run.cancel.requested'', ''run.cancelled'', ''run.completed'', ''run.dispatched'',
     ''run.failed'', ''run.queued'', ''run.started'', ''run.steered'', ''run.waiting'']"

text \<open>The checks of a kind that is admitted field by field; \<open>None\<close> for the other kinds.\<close>

definition field_checks :: "event_env \<Rightarrow> payload_context \<Rightarrow> (json_object \<Rightarrow> unit parsed) option" where
  "field_checks env ctx =
     (let kind = pc_kind ctx in
      if kind = ''agent.task.updated'' then Some (task_fields kind)
      else if kind = ''diagnostic.reported'' then Some (diagnostic_fields kind)
      else if kind = ''file.change.updated'' \<or> kind = ''file.changed'' then Some (file_change_fields kind)
      else if kind = ''message.added'' \<or> kind = ''message.delta'' then Some (message_text_fields kind)
      else if kind \<in> set [''message.cancelled'', ''message.completed'', ''message.started'']
      then Some (message_state_fields kind)
      else if kind \<in> set [''thought.cancelled'', ''thought.completed'', ''thought.started'']
      then Some (thought_state_fields kind)
      else if kind = ''thought.delta'' then Some (thought_delta_fields kind)
      else if kind = ''thought.updated'' then Some (thought_updated_fields env (pc_delivery ctx) kind)
      else if kind = ''permission.requested'' then Some (permission_requested_fields kind)
      else if kind = ''permission.resolved'' then Some (permission_resolved_fields kind)
      else if kind = ''session.info.updated'' then Some (session_info_fields env kind)
      else if kind \<in> set runtime_status_kinds then Some (runtime_status_fields kind)
      else if kind = ''tool.call.updated'' then Some (tool_call_fields kind)
      else None)"

text \<open>The checks of the event around the payload.\<close>

definition scope_check :: "payload_context \<Rightarrow> unit parsed" where
  "scope_check ctx =
     (if pc_kind ctx = ''permission.requested'' then
        (if pc_driverInstanceId ctx = None
         then Inl ''Runtime event permission.requested requires a driver instance ID.''
         else if pc_runId ctx = None then Inl ''Runtime event permission.requested requires a run ID.''
         else Inr ())
      else Inr ())"

definition admitRuntimeEventPayload :: "event_env \<Rightarrow> payload_context \<Rightarrow> json \<Rightarrow> json parsed" where
  "admitRuntimeEventPayload env ctx payload =
     (let kind = pc_kind ctx in
      if kind = ''context.usage.updated'' then readContextUsage ctx payload
      else if kind = ''agent.tasks.replaced'' then readAgentTasks env ctx payload
      else if kind = ''message.failed'' then readMessageFailed ctx payload
      else if kind \<in> set run_kinds then readRunPayload env ctx payload
      else if kind = ''runtime.timing.recorded'' then readTimingPayload env ctx payload
      else if kind = ''runtime.session.reset'' then readSessionReset env ctx payload
      else case field_checks env ctx of
        Some check \<Rightarrow>
          bindE (scope_check ctx) (\<lambda>_.
          bindE (requirePayloadRecord kind (Some payload) ''payload'') (\<lambda>rec.
          bindE (check rec) (\<lambda>_. Inr (JObj (omitPayloadIdentity rec)))))
      | None \<Rightarrow> Inr (case payload of JObj m \<Rightarrow> JObj (omitPayloadIdentity m) | p \<Rightarrow> p))"

section \<open>Events\<close>

definition read_native :: "json_object \<Rightarrow> native_ref option parsed" where
  "read_native val =
     (case fmlookup val ''native'' of
        None \<Rightarrow> Inr None
      | Some (JObj m) \<Rightarrow> bindE (parseNativeRef m) (\<lambda>r. Inr (Some r))
      | Some _ \<Rightarrow> Inl ''Runtime event native reference must be an object.'')"

definition parseRuntimeEventEnvelope :: "event_env \<Rightarrow> json \<Rightarrow> runtime_event parsed" where
  "parseRuntimeEventEnvelope env input =
     (let label = ''Runtime event'' in case input of JObj val \<Rightarrow>
      bindE (requireExactKeys val runtimeEventEnvelopeKeys label) (\<lambda>_.
      bindE (if fmlookup val ''schemaVersion'' \<noteq> Some (JStr RUNTIME_EVENT_SCHEMA_VERSION)
             then Inl ''Runtime event schema version is unsupported.'' else Inr ()) (\<lambda>_.
      bindE (requireEnumValue val ''kind'' RUNTIME_EVENT_KINDS label) (\<lambda>kind.
      bindE (requireEnumValue val ''actor'' runtimeEventActors label) (\<lambda>actor.
      bindE (requireEnumValue val ''origin'' runtimeEventOrigins label) (\<lambda>origin.
      bindE (requireEnumValue val ''visibility'' runtimeEventVisibilities label) (\<lambda>visibility.
      bindE (requireEnumValue val ''delivery'' runtimeEventDeliveries label) (\<lambda>delivery.
      bindE (readDriverId val ''id'') (\<lambda>eventId.
      bindE (readDriverId val ''sessionId'') (\<lambda>sessionId.
      bindE (requireString val ''occurredAt'' label) (\<lambda>occurredAt.
      bindE (assertTimestamp env occurredAt ''Runtime event occurrence time'') (\<lambda>_.
      bindE (case fmlookup val ''payload'' of None \<Rightarrow> Inl ''Runtime event payload is required.''
             | Some p \<Rightarrow> Inr p) (\<lambda>rawPayload.
      bindE (event_readOptionalString val ''correlationId'' label) (\<lambda>correlationId.
      bindE (readOptionalDriverId val ''driverInstanceId'') (\<lambda>driverInstanceId.
      bindE (event_readOptionalString val ''receivedAt'' label) (\<lambda>receivedAt.
      bindE (readOptionalDriverId val ''runId'') (\<lambda>runId.
      bindE (event_readOptionalString val ''runtimeId'' label) (\<lambda>runtimeId.
      bindE (event_readOptionalString val ''sourceEventId'' label) (\<lambda>sourceEventId.
      bindE (event_readOptionalString val ''traceId'' label) (\<lambda>traceId.
      bindE (case receivedAt of None \<Rightarrow> Inr () | Some t \<Rightarrow> assertTimestamp env t ''Runtime event received time'') (\<lambda>_.
      bindE (admitRuntimeEventPayload env
          \<lparr>pc_delivery = delivery, pc_driverInstanceId = driverInstanceId, pc_kind = kind, pc_runId = runId,
           pc_runtimeId = runtimeId, pc_sessionId = sessionId, pc_traceId = traceId,
           pc_visibility = visibility\<rparr> rawPayload) (\<lambda>payload.
      bindE (read_native val) (\<lambda>native.
        Inr \<lparr>re_actor = actor, re_correlationId = correlationId, re_delivery = delivery,
          re_driverInstanceId = driverInstanceId, re_id = eventId, re_kind = kind, re_native = native,
          re_occurredAt = occurredAt, re_origin = origin, re_payload = payload, re_receivedAt = receivedAt,
          re_runId = runId, re_runtimeId = runtimeId, re_sessionId = sessionId,
          re_sourceEventId = sourceEventId, re_traceId = traceId, re_visibility = visibility\<rparr>))))))))))))))))))))))
      | _ \<Rightarrow> Inl ''Runtime event must be an object.'')"

definition isRuntimeEventEnvelope :: "event_env \<Rightarrow> json \<Rightarrow> bool" where
  "isRuntimeEventEnvelope env input \<longleftrightarrow> \<not> isl (parseRuntimeEventEnvelope env input)"

text \<open>The JSON of an event.\<close>

definition opt_field :: "string \<Rightarrow> ('a \<Rightarrow> json) \<Rightarrow> 'a option \<Rightarrow> (string \<times> json) list" where
  "opt_field key f val = (case val of None \<Rightarrow> [] | Some x \<Rightarrow> [(key, f x)])"

definition native_fields :: "native_ref \<Rightarrow> (string \<times> json) list" where
  "native_fields r =
     opt_field ''eventName'' JStr (nf_eventName r) @ opt_field ''itemId'' JStr (nf_itemId r)
     @ opt_field ''protocolVersion'' JStr (nf_protocolVersion r) @ [(''provider'', JStr (nf_provider r))]
     @ opt_field ''requestId'' JStr (nf_requestId r) @ opt_field ''sequence'' JNum (nf_sequence r)
     @ opt_field ''threadId'' JStr (nf_threadId r) @ opt_field ''turnId'' JStr (nf_turnId r)"

definition native_ref_json :: "native_ref \<Rightarrow> json" where
  "native_ref_json r = JObj (fmap_of_list (native_fields r))"

definition event_fields :: "runtime_event \<Rightarrow> (string \<times> json) list" where
  "event_fields e =
     [(''actor'', JStr (re_actor e))] @ opt_field ''correlationId'' JStr (re_correlationId e)
     @ [(''delivery'', JStr (re_delivery e))] @ opt_field ''driverInstanceId'' JStr (re_driverInstanceId e)
     @ [(''id'', JStr (re_id e)), (''kind'', JStr (re_kind e))]
     @ opt_field ''native'' native_ref_json (re_native e)
     @ [(''occurredAt'', JStr (re_occurredAt e)), (''origin'', JStr (re_origin e)), (''payload'', re_payload e)]
     @ opt_field ''receivedAt'' JStr (re_receivedAt e) @ opt_field ''runId'' JStr (re_runId e)
     @ opt_field ''runtimeId'' JStr (re_runtimeId e)
     @ [(''schemaVersion'', JStr RUNTIME_EVENT_SCHEMA_VERSION), (''sessionId'', JStr (re_sessionId e))]
     @ opt_field ''sourceEventId'' JStr (re_sourceEventId e) @ opt_field ''traceId'' JStr (re_traceId e)
     @ [(''visibility'', JStr (re_visibility e))]"

definition event_json :: "runtime_event \<Rightarrow> json" where
  "event_json e = JObj (fmap_of_list (event_fields e))"

section \<open>Ingestion\<close>

datatype run_id_policy = AdmitDraftRunId | IgnoreDraftRunId

record build_context =
  bc_createId :: string  \<comment> \<open>the identifier \<open>createId\<close> returns when it is called\<close>
  bc_draftRunIdPolicy :: run_id_policy
  bc_driverInstanceId :: "string option"
  bc_occurredAt :: string
  bc_origin :: "string option"
  bc_runId :: "string option"
  bc_runtimeId :: "string option"
  bc_sessionId :: string
  bc_sourceEventId :: "string option"
  bc_traceId :: "string option"

datatype rejection_code = InvalidInput | MalformedEvent | UnsupportedKind | UnsupportedSchema

record rejection =
  rj_code :: rejection_code
  rj_kind :: "string option"
  rj_message :: string

definition defaultVisibility :: "string \<Rightarrow> string" where
  "defaultVisibility kind =
     (if kind \<in> set ownerDiagnosticRuntimeEventKinds then ''owner_debug''
      else if kind \<in> set systemInternalRuntimeEventKinds then ''system_internal''
      else ''participant'')"

text \<open>\<open>a ?? b\<close>, and the fields of an object literal that are not \<open>undefined\<close>.\<close>

definition coalesce :: "json option \<Rightarrow> json option \<Rightarrow> json option" where
  "coalesce a b = (if a = None \<or> a = Some JNull then b else a)"

definition object_of :: "(string \<times> json option) list \<Rightarrow> json" where
  "object_of fs =
     JObj (fmap_of_list (concat (map (\<lambda>(k, v). case v of None \<Rightarrow> [] | Some x \<Rightarrow> [(k, x)]) fs)))"

definition created_fields :: "(string \<Rightarrow> json option) \<Rightarrow> (string \<times> json option) list" where
  "created_fields draft =
       [(''actor'', coalesce (draft ''actor'') (Some (JStr ''driver''))),
        (''correlationId'', draft ''correlationId''),
        (''delivery'', coalesce (draft ''delivery'') (Some (JStr ''lossless''))),
        (''driverInstanceId'', draft ''driverInstanceId''),
        (''id'', draft ''id''),
        (''kind'', draft ''kind''),
        (''native'', draft ''native''),
        (''occurredAt'', draft ''occurredAt''),
        (''origin'', coalesce (draft ''origin'') (Some (JStr ''driver''))),
        (''payload'', draft ''payload''),
        (''receivedAt'', draft ''receivedAt''),
        (''runId'', draft ''runId''),
        (''runtimeId'', draft ''runtimeId''),
        (''schemaVersion'', Some (JStr RUNTIME_EVENT_SCHEMA_VERSION)),
        (''sessionId'', draft ''sessionId''),
        (''sourceEventId'', draft ''sourceEventId''),
        (''traceId'', draft ''traceId''),
        (''visibility'', coalesce (draft ''visibility'')
           (Some (JStr (case draft ''kind'' of Some (JStr kind) \<Rightarrow> defaultVisibility kind | _ \<Rightarrow> ''participant''))))]"

definition createRuntimeEvent :: "(string \<Rightarrow> json option) \<Rightarrow> json" where
  "createRuntimeEvent draft = object_of (created_fields draft)"

definition text_field :: "string option \<Rightarrow> json option" where
  "text_field = map_option JStr"

definition eventFromDraft :: "build_context \<Rightarrow> json_object \<Rightarrow> json" where
  "eventFromDraft ctx draft =
     (let get = fmlookup draft;
          runId = coalesce (text_field (bc_runId ctx))
            (if bc_draftRunIdPolicy ctx = IgnoreDraftRunId then None else get ''runId'')
      in createRuntimeEvent (get
           (''driverInstanceId'' := text_field (bc_driverInstanceId ctx),
            ''id'' := coalesce (get ''id'') (Some (JStr (bc_createId ctx))),
            ''occurredAt'' := coalesce (get ''occurredAt'') (Some (JStr (bc_occurredAt ctx))),
            ''origin'' := coalesce (coalesce (get ''origin'') (text_field (bc_origin ctx))) (Some (JStr ''driver'')),
            ''runId'' := runId,
            ''runtimeId'' := text_field (bc_runtimeId ctx),
            ''sessionId'' := Some (JStr (bc_sessionId ctx)),
            ''sourceEventId'' := coalesce (get ''sourceEventId'') (text_field (bc_sourceEventId ctx)),
            ''traceId'' := coalesce (get ''traceId'') (text_field (bc_traceId ctx)))))"

fun readRuntimeEventInputKind :: "json \<Rightarrow> string option" where
  "readRuntimeEventInputKind (JObj m) = (case fmlookup m ''kind'' of Some (JStr kind) \<Rightarrow> Some kind | _ \<Rightarrow> None)"
| "readRuntimeEventInputKind _ = None"

fun isRuntimeEventInputDraft :: "json \<Rightarrow> bool" where
  "isRuntimeEventInputDraft (JObj m) \<longleftrightarrow>
     (case fmlookup m ''kind'' of Some (JStr _) \<Rightarrow> True | _ \<Rightarrow> False) \<and> fmlookup m ''payload'' \<noteq> None"
| "isRuntimeEventInputDraft _ \<longleftrightarrow> False"

definition classifyIngressError :: "json \<Rightarrow> string \<Rightarrow> rejection" where
  "classifyIngressError input message =
     \<lparr>rj_code =
        (if includes_text message ''schema version'' then UnsupportedSchema
         else if includes_text message ''kind is unsupported'' then UnsupportedKind
         else if includes_text message ''canonical runtime event draft'' then InvalidInput
         else MalformedEvent),
      rj_kind = readRuntimeEventInputKind input, rj_message = message\<rparr>"

fun has_schema_version :: "json \<Rightarrow> bool" where
  "has_schema_version (JObj m) \<longleftrightarrow> fmlookup m ''schemaVersion'' \<noteq> None"
| "has_schema_version _ \<longleftrightarrow> False"

definition parse_input :: "event_env \<Rightarrow> build_context \<Rightarrow> json \<Rightarrow> runtime_event parsed" where
  "parse_input env ctx input =
     parseRuntimeEventEnvelope env
       (if has_schema_version input then input
        else eventFromDraft ctx (case input of JObj m \<Rightarrow> m | _ \<Rightarrow> fmempty))"

definition ingestRuntimeEventInput :: "event_env \<Rightarrow> build_context \<Rightarrow> json \<Rightarrow> rejection + runtime_event" where
  "ingestRuntimeEventInput env ctx input =
     (if \<not> has_schema_version input \<and> \<not> isRuntimeEventInputDraft input
      then Inl \<lparr>rj_code = InvalidInput, rj_kind = readRuntimeEventInputKind input,
             rj_message = ''Driver runtime event input must be a canonical runtime event draft.''\<rparr>
      else case parse_input env ctx input of
        Inr event \<Rightarrow> Inr event
      | Inl message \<Rightarrow> Inl (classifyIngressError input message))"

definition toRuntimeEventInput :: "event_env \<Rightarrow> build_context \<Rightarrow> json \<Rightarrow> runtime_event list parsed" where
  "toRuntimeEventInput env ctx input =
     (case ingestRuntimeEventInput env ctx input of
        Inr event \<Rightarrow> Inr [event]
      | Inl r \<Rightarrow> Inl (rj_message r))"

end
