(* ===== verification/Event_Admission.thy ===== *)
theory Event_Admission
  imports Runtime_Events
begin

text \<open>
  What the admission of runtime events (theory Runtime_Events) guarantees: an admitted event
  reads its own JSON back unchanged, an event made from a draft has the identity of its
  context, and the code of a rejection says what was wrong.
\<close>

section \<open>Admission of an event\<close>

definition event_context :: "runtime_event \<Rightarrow> payload_context" where
  "event_context e =
     \<lparr>pc_delivery = re_delivery e, pc_driverInstanceId = re_driverInstanceId e, pc_kind = re_kind e,
      pc_runId = re_runId e, pc_runtimeId = re_runtimeId e, pc_sessionId = re_sessionId e,
      pc_traceId = re_traceId e, pc_visibility = re_visibility e\<rparr>"

text \<open>What each field of an admitted event was read from.\<close>

definition event_read :: "event_env \<Rightarrow> json_object \<Rightarrow> runtime_event \<Rightarrow> bool" where
  "event_read env val e \<longleftrightarrow>
     (let label = ''Runtime event'' in
      requireExactKeys val runtimeEventEnvelopeKeys label = Inr ()
      \<and> fmlookup val ''schemaVersion'' = Some (JStr RUNTIME_EVENT_SCHEMA_VERSION)
      \<and> requireEnumValue val ''kind'' RUNTIME_EVENT_KINDS label = Inr (re_kind e)
      \<and> requireEnumValue val ''actor'' runtimeEventActors label = Inr (re_actor e)
      \<and> requireEnumValue val ''origin'' runtimeEventOrigins label = Inr (re_origin e)
      \<and> requireEnumValue val ''visibility'' runtimeEventVisibilities label = Inr (re_visibility e)
      \<and> requireEnumValue val ''delivery'' runtimeEventDeliveries label = Inr (re_delivery e)
      \<and> readDriverId val ''id'' = Inr (re_id e)
      \<and> readDriverId val ''sessionId'' = Inr (re_sessionId e)
      \<and> requireString val ''occurredAt'' label = Inr (re_occurredAt e)
      \<and> assertTimestamp env (re_occurredAt e) ''Runtime event occurrence time'' = Inr ()
      \<and> event_readOptionalString val ''correlationId'' label = Inr (re_correlationId e)
      \<and> readOptionalDriverId val ''driverInstanceId'' = Inr (re_driverInstanceId e)
      \<and> event_readOptionalString val ''receivedAt'' label = Inr (re_receivedAt e)
      \<and> readOptionalDriverId val ''runId'' = Inr (re_runId e)
      \<and> event_readOptionalString val ''runtimeId'' label = Inr (re_runtimeId e)
      \<and> event_readOptionalString val ''sourceEventId'' label = Inr (re_sourceEventId e)
      \<and> event_readOptionalString val ''traceId'' label = Inr (re_traceId e)
      \<and> opt_all (\<lambda>t. assertTimestamp env t ''Runtime event received time'' = Inr ()) (re_receivedAt e)
      \<and> (\<exists>p. fmlookup val ''payload'' = Some p
           \<and> admitRuntimeEventPayload env (event_context e) p = Inr (re_payload e))
      \<and> read_native val = Inr (re_native e))"

lemma parse_reads:
  assumes "parseRuntimeEventEnvelope env (JObj val) = Inr e"
  shows "event_read env val e"
  using assms unfolding parseRuntimeEventEnvelope_def Let_def json.case
  by (elim bindE_InrE)
    (cases e, simp add: event_read_def event_context_def split: if_splits option.splits)

lemma parse_of_reads:
  assumes "event_read env val e"
  shows "parseRuntimeEventEnvelope env (JObj val) = Inr e"
proof -
  obtain p where p: "fmlookup val ''payload'' = Some p"
    "admitRuntimeEventPayload env (event_context e) p = Inr (re_payload e)"
    using assms by (auto simp: event_read_def Let_def)
  have r: "(case re_receivedAt e of None \<Rightarrow> Inr () | Some t \<Rightarrow> assertTimestamp env t ''Runtime event received time'') = Inr ()"
    using assms by (cases "re_receivedAt e") (simp_all add: event_read_def Let_def)
  show ?thesis
    using assms p r unfolding parseRuntimeEventEnvelope_def Let_def json.case event_read_def event_context_def
    by simp
qed

section \<open>Reading the JSON of an event\<close>

lemma requireString_iff: "requireString m k l = Inr s \<longleftrightarrow> fmlookup m k = Some (JStr s) \<and> s \<noteq> []"
  by (auto simp: requireString_def event_readString_def split: option.split json.split)

lemma requireEnumValue_iff:
  "requireEnumValue m k vals l = Inr s \<longleftrightarrow> fmlookup m k = Some (JStr s) \<and> s \<noteq> [] \<and> s \<in> set vals"
  by (auto simp: requireEnumValue_def requireString_iff)

lemma event_readOptionalString_iff:
  "event_readOptionalString m k l = Inr s \<longleftrightarrow> fmlookup m k = map_option JStr s \<and> s \<noteq> Some []"
  by (cases s) (auto simp: event_readOptionalString_def requireString_iff split: option.split)

lemma readOptionalNumber_iff:
  "readOptionalNumber m k l = Inr n \<longleftrightarrow> fmlookup m k = map_option JNum n"
  by (cases n) (auto simp: readOptionalNumber_def split: option.split json.split)

lemma parseDriverId_result:
  assumes "parseDriverId v l = Inr i"
  shows "isDriverId i"
proof -
  obtain s where v: "v = Some (JStr s)"
    using assms unfolding parseDriverId_def by (cases v; cases "the v"; simp)
  then have "normalizeDriverId s = Inr i"
    using assms unfolding parseDriverId_def by (cases "normalizeDriverId s") simp_all
  then show ?thesis using normalizeDriverId_ok by blast
qed

lemma parseDriverId_accepts: "isDriverId i \<Longrightarrow> parseDriverId (Some (JStr i)) l = Inr i"
  by (simp add: parseDriverId_def normalizeDriverId_driver_id)

lemma readOptionalDriverId_result: "readOptionalDriverId m k = Inr i \<Longrightarrow> opt_all isDriverId i"
  using parseDriverId_result by (cases "fmlookup m k") (force simp: readOptionalDriverId_def)+

lemma readOptionalDriverId_accepts:
  "opt_all isDriverId i \<Longrightarrow> fmlookup m k = map_option JStr i \<Longrightarrow> readOptionalDriverId m k = Inr i"
  by (cases i) (simp_all add: readOptionalDriverId_def parseDriverId_accepts)

lemma requireExactKeys_iff:
  "requireExactKeys m keys l = Inr () \<longleftrightarrow> (\<forall>k. k \<notin> set keys \<longrightarrow> fmlookup m k = None)"
proof -
  have "sorted_list_of_fset F = [] \<longleftrightarrow> (\<forall>k. k |\<notin>| F)" for F :: "string fset"
    by (metis all_not_in_conv list.set(1) set_empty sorted_list_of_fset_simps(1))
  then have "sorted_list_of_fset (ffilter (\<lambda>k. k \<notin> set keys) (fmdom m)) = []
    \<longleftrightarrow> (\<forall>k. k |\<in>| fmdom m \<longrightarrow> k \<in> set keys)"
    by (simp only: ffmember_filter) blast
  also have "\<dots> \<longleftrightarrow> (\<forall>k. k \<notin> set keys \<longrightarrow> fmlookup m k = None)"
    by (metis fmdom_notD fmdom_notI)
  finally have nil: "sorted_list_of_fset (ffilter (\<lambda>k. k \<notin> set keys) (fmdom m)) = []
    \<longleftrightarrow> (\<forall>k. k \<notin> set keys \<longrightarrow> fmlookup m k = None)" .
  have "requireExactKeys m keys l = Inr ()
    \<longleftrightarrow> sorted_list_of_fset (ffilter (\<lambda>k. k \<notin> set keys) (fmdom m)) = []"
    by (simp add: requireExactKeys_def split: list.split)
  with nil show ?thesis by (simp only:)
qed

lemma map_of_opt_field:
  "map_of (opt_field key f v @ xs) k = (if k = key \<and> v \<noteq> None then map_option f v else map_of xs k)"
  "map_of (opt_field key f v) k = (if k = key then map_option f v else None)"
  by (cases v; simp add: opt_field_def)+

lemma opt_field_names: "key \<in> keys \<Longrightarrow> fst ` set (opt_field key f v) \<subseteq> keys"
  by (cases v) (simp_all add: opt_field_def)

lemma exact_fields:
  assumes "fst ` set xs \<subseteq> set keys"
  shows "requireExactKeys (fmap_of_list xs) keys l = Inr ()"
  unfolding requireExactKeys_iff
proof (intro allI impI)
  fix k
  assume "k \<notin> set keys"
  then have "k \<notin> fst ` set xs" using assms by blast
  then have "map_of xs k = None" by (simp add: map_of_eq_None_iff)
  then show "fmlookup (fmap_of_list xs) k = None" by (simp add: fmlookup_of_list)
qed

lemma native_field:
  "map_of (native_fields r) ''eventName'' = map_option JStr (nf_eventName r)"
  "map_of (native_fields r) ''itemId'' = map_option JStr (nf_itemId r)"
  "map_of (native_fields r) ''protocolVersion'' = map_option JStr (nf_protocolVersion r)"
  "map_of (native_fields r) ''provider'' = Some (JStr (nf_provider r))"
  "map_of (native_fields r) ''requestId'' = map_option JStr (nf_requestId r)"
  "map_of (native_fields r) ''sequence'' = map_option JNum (nf_sequence r)"
  "map_of (native_fields r) ''threadId'' = map_option JStr (nf_threadId r)"
  "map_of (native_fields r) ''turnId'' = map_option JStr (nf_turnId r)"
  by (simp_all add: native_fields_def map_of_opt_field del: map_of_append)

lemma native_names: "fst ` set (native_fields r) \<subseteq> set native_ref_keys"
  by (simp add: native_fields_def native_ref_keys_def image_Un opt_field_names)

lemma parseNativeRef_stable:
  assumes "parseNativeRef m = Inr r"
  shows "parseNativeRef (fmap_of_list (native_fields r)) = Inr r"
proof -
  have m: "event_readOptionalString m ''eventName'' l = Inr (nf_eventName r)"
      "event_readOptionalString m ''itemId'' l = Inr (nf_itemId r)"
      "event_readOptionalString m ''protocolVersion'' l = Inr (nf_protocolVersion r)"
      "requireString m ''provider'' l = Inr (nf_provider r)"
      "event_readOptionalString m ''requestId'' l = Inr (nf_requestId r)"
      "readOptionalNumber m ''sequence'' l = Inr (nf_sequence r)"
      "event_readOptionalString m ''threadId'' l = Inr (nf_threadId r)"
      "event_readOptionalString m ''turnId'' l = Inr (nf_turnId r)" for l
    using assms unfolding parseNativeRef_def Let_def
    by (auto elim!: bindE_InrE simp: event_readOptionalString_iff requireString_iff readOptionalNumber_iff)
  let ?m = "fmap_of_list (native_fields r)"
  have "event_readOptionalString ?m ''eventName'' l = Inr (nf_eventName r)"
      "event_readOptionalString ?m ''itemId'' l = Inr (nf_itemId r)"
      "event_readOptionalString ?m ''protocolVersion'' l = Inr (nf_protocolVersion r)"
      "requireString ?m ''provider'' l = Inr (nf_provider r)"
      "event_readOptionalString ?m ''requestId'' l = Inr (nf_requestId r)"
      "readOptionalNumber ?m ''sequence'' l = Inr (nf_sequence r)"
      "event_readOptionalString ?m ''threadId'' l = Inr (nf_threadId r)"
      "event_readOptionalString ?m ''turnId'' l = Inr (nf_turnId r)" for l
    using m unfolding event_readOptionalString_iff requireString_iff readOptionalNumber_iff fmlookup_of_list native_field
    by simp_all
  then show ?thesis
    by (simp add: parseNativeRef_def Let_def exact_fields [OF native_names])
qed

lemma event_field:
  "map_of (event_fields e) ''actor'' = Some (JStr (re_actor e))"
  "map_of (event_fields e) ''correlationId'' = map_option JStr (re_correlationId e)"
  "map_of (event_fields e) ''delivery'' = Some (JStr (re_delivery e))"
  "map_of (event_fields e) ''driverInstanceId'' = map_option JStr (re_driverInstanceId e)"
  "map_of (event_fields e) ''id'' = Some (JStr (re_id e))"
  "map_of (event_fields e) ''kind'' = Some (JStr (re_kind e))"
  "map_of (event_fields e) ''native'' = map_option native_ref_json (re_native e)"
  "map_of (event_fields e) ''occurredAt'' = Some (JStr (re_occurredAt e))"
  "map_of (event_fields e) ''origin'' = Some (JStr (re_origin e))"
  "map_of (event_fields e) ''payload'' = Some (re_payload e)"
  "map_of (event_fields e) ''receivedAt'' = map_option JStr (re_receivedAt e)"
  "map_of (event_fields e) ''runId'' = map_option JStr (re_runId e)"
  "map_of (event_fields e) ''runtimeId'' = map_option JStr (re_runtimeId e)"
  "map_of (event_fields e) ''schemaVersion'' = Some (JStr RUNTIME_EVENT_SCHEMA_VERSION)"
  "map_of (event_fields e) ''sessionId'' = Some (JStr (re_sessionId e))"
  "map_of (event_fields e) ''sourceEventId'' = map_option JStr (re_sourceEventId e)"
  "map_of (event_fields e) ''traceId'' = map_option JStr (re_traceId e)"
  "map_of (event_fields e) ''visibility'' = Some (JStr (re_visibility e))"
  by (simp_all add: event_fields_def map_of_opt_field del: map_of_append)

lemma event_names: "fst ` set (event_fields e) \<subseteq> set runtimeEventEnvelopeKeys"
  by (simp add: event_fields_def runtimeEventEnvelopeKeys_def image_Un opt_field_names)

lemma read_native_stable:
  assumes "read_native val = Inr r" "fmlookup m ''native'' = map_option native_ref_json r"
  shows "read_native m = Inr r"
proof (cases r)
  case (Some n)
  obtain v where "fmlookup val ''native'' = Some (JObj v)" "parseNativeRef v = Inr n"
    using assms(1) Some unfolding read_native_def
    by (cases "fmlookup val ''native''"; cases "the (fmlookup val ''native'')"; simp)
  then show ?thesis using assms(2) Some parseNativeRef_stable
    by (simp add: read_native_def native_ref_json_def)
qed (use assms in \<open>simp add: read_native_def\<close>)

text \<open>An event reads its own JSON back when its payload is admitted as it stands.\<close>

lemma event_reads_itself:
  assumes "event_read env val e" "admitRuntimeEventPayload env (event_context e) (re_payload e) = Inr (re_payload e)"
  shows "event_read env (fmap_of_list (event_fields e)) e"
proof -
  note read = assms(1) [unfolded event_read_def Let_def]
  have raw: "readDriverId val ''id'' = Inr (re_id e)" "readDriverId val ''sessionId'' = Inr (re_sessionId e)"
    "readOptionalDriverId val ''driverInstanceId'' = Inr (re_driverInstanceId e)"
    "readOptionalDriverId val ''runId'' = Inr (re_runId e)" "read_native val = Inr (re_native e)"
    using read by simp_all
  have ids: "isDriverId (re_id e)" "isDriverId (re_sessionId e)" "opt_all isDriverId (re_driverInstanceId e)"
    "opt_all isDriverId (re_runId e)"
    using raw(1,2) [unfolded readDriverId_def, THEN parseDriverId_result]
      raw(3,4) [THEN readOptionalDriverId_result] by this+
  note enums = requireEnumValue_iff requireString_iff event_readOptionalString_iff fmlookup_of_list event_field
  have native: "read_native (fmap_of_list (event_fields e)) = Inr (re_native e)"
    by (rule read_native_stable [OF raw(5)]) (simp only: fmlookup_of_list event_field)
  have driver: "readDriverId (fmap_of_list (event_fields e)) ''id'' = Inr (re_id e)"
    "readDriverId (fmap_of_list (event_fields e)) ''sessionId'' = Inr (re_sessionId e)"
    "readOptionalDriverId (fmap_of_list (event_fields e)) ''driverInstanceId'' = Inr (re_driverInstanceId e)"
    "readOptionalDriverId (fmap_of_list (event_fields e)) ''runId'' = Inr (re_runId e)"
    using ids by (simp_all add: readDriverId_def parseDriverId_accepts readOptionalDriverId_accepts
      fmlookup_of_list event_field)
  show ?thesis
    using read assms(2) native driver exact_fields [OF event_names]
    unfolding event_read_def Let_def enums by simp
qed

theorem parse_stable_if:
  assumes "parseRuntimeEventEnvelope env input = Inr e"
    "admitRuntimeEventPayload env (event_context e) (re_payload e) = Inr (re_payload e)"
  shows "parseRuntimeEventEnvelope env (event_json e) = Inr e"
proof (cases input)
  case (JObj val)
  then show ?thesis
    using parse_of_reads event_reads_itself [OF parse_reads assms(2)] assms(1) by (simp add: event_json_def)
qed (use assms(1) in \<open>simp_all add: parseRuntimeEventEnvelope_def\<close>)


section \<open>Payloads are admitted once\<close>

lemma omit_lookup:
  "fmlookup (omitPayloadIdentity m) k = (if k \<in> set payloadIdentityFields then None else fmlookup m k)"
  by (simp add: omitPayloadIdentity_def)

lemma omit_omit [simp]: "omitPayloadIdentity (omitPayloadIdentity m) = omitPayloadIdentity m"
  by (rule fmap_ext) (simp add: omit_lookup)

lemma omit_upd:
  "k \<notin> set payloadIdentityFields \<Longrightarrow>
     omitPayloadIdentity (fmupd k v m) = fmupd k v (omitPayloadIdentity m)"
  by (rule fmap_ext) (auto simp: omit_lookup)

text \<open>A check that reads a field sees the same in two objects that agree on it.\<close>

named_theorems same_field

lemma require_same [same_field]:
  assumes "fmlookup m k = fmlookup m' k"
  shows "requireString m k l = requireString m' k l"
    "requireEnumValue m k vals l = requireEnumValue m' k vals l"
    "requireOptionalString m k l = requireOptionalString m' k l"
    "requireOptionalEnumValue m k vals l = requireOptionalEnumValue m' k vals l"
    "requireOptionalBoolean m k l = requireOptionalBoolean m' k l"
    "requireOptionalContentString m k l = requireOptionalContentString m' k l"
    "requireOptionalNullableString m k l = requireOptionalNullableString m' k l"
    "requireOptionalStringArray m k l = requireOptionalStringArray m' k l"
    "requireOptionalTimestamp env m k l = requireOptionalTimestamp env m' k l"
    "requireNullableTimestamp env m k l n = requireNullableTimestamp env m' k l n"
    "requireTimestamp env m k l = requireTimestamp env m' k l"
    "requireNonNegativeInt m k = requireNonNegativeInt m' k"
    "when_present m k c = when_present m' k c"
    "when_present_and_not_null m k c = when_present_and_not_null m' k c"
    "event_readString m k = event_readString m' k"
  using assms
  by (simp_all add: requireString_def requireEnumValue_def requireOptionalString_def
    requireOptionalEnumValue_def requireOptionalBoolean_def requireOptionalContentString_def
    requireOptionalNullableString_def requireOptionalStringArray_def requireOptionalTimestamp_def
    requireNullableTimestamp_def requireTimestamp_def requireNonNegativeInt_def when_present_def
    when_present_and_not_null_def event_readString_def)

lemma omit_same:
  assumes "k \<notin> set payloadIdentityFields"
  shows "fmlookup (omitPayloadIdentity m) k = fmlookup m k"
  using assms by (simp add: omit_lookup)

lemmas omit_reads = require_same [OF omit_same] omit_same payloadIdentityFields_def

lemma hasTextContent_omit [simp]: "hasTextContent (omitPayloadIdentity m) = hasTextContent m"
  by (simp add: hasTextContent_def omit_reads)

lemma fields_omit:
  "task_fields kind (omitPayloadIdentity m) = task_fields kind m"
  "diagnostic_fields kind (omitPayloadIdentity m) = diagnostic_fields kind m"
  "message_text_fields kind (omitPayloadIdentity m) = message_text_fields kind m"
  "message_state_fields kind (omitPayloadIdentity m) = message_state_fields kind m"
  "thought_state_fields kind (omitPayloadIdentity m) = thought_state_fields kind m"
  "thought_delta_fields kind (omitPayloadIdentity m) = thought_delta_fields kind m"
  "permission_requested_fields kind (omitPayloadIdentity m) = permission_requested_fields kind m"
  "permission_resolved_fields kind (omitPayloadIdentity m) = permission_resolved_fields kind m"
  "session_info_fields env kind (omitPayloadIdentity m) = session_info_fields env kind m"
  "runtime_status_fields kind (omitPayloadIdentity m) = runtime_status_fields kind m"
  "tool_call_fields kind (omitPayloadIdentity m) = tool_call_fields kind m"
  by (simp_all only: task_fields_def diagnostic_fields_def message_text_fields_def
    message_state_fields_def thought_state_fields_def thought_delta_fields_def
    permission_requested_fields_def permission_resolved_fields_def session_info_fields_def
    runtime_status_fields_def tool_call_fields_def each.simps hasTextContent_omit)
    (simp_all add: omit_reads)

lemma file_change_fields_omit [simp]:
  "file_change_fields kind (omitPayloadIdentity m) = file_change_fields kind m"
proof (cases "\<exists>cs. fmlookup m ''changes'' = Some (JArr cs)")
  case True
  then show ?thesis by (auto simp: file_change_fields_def omit_reads)
next
  case False
  then have "(case fmlookup m ''changes'' of Some (JArr cs) \<Rightarrow> cs | _ \<Rightarrow> [JObj r]) = [JObj r]" for r
    by (simp split: option.split json.split)
  moreover have "fmlookup (omitPayloadIdentity m) ''changes'' = fmlookup m ''changes''" by (simp add: omit_reads)
  ultimately show ?thesis by (simp add: file_change_fields_def requirePayloadRecord_def omit_reads)
qed

text \<open>What the code relies on of \<open>JSON.stringify\<close>: leaving members out does not lengthen it.\<close>

definition omission_shortens :: "event_env \<Rightarrow> bool" where
  "omission_shortens env \<longleftrightarrow> (\<forall>m. json_bytes env (JObj (omitPayloadIdentity m)) \<le> json_bytes env (JObj m))"

lemma thought_updated_omit:
  assumes "omission_shortens env" "thought_updated_fields env d kind m = Inr ()"
  shows "thought_updated_fields env d kind (omitPayloadIdentity m) = Inr ()"
proof -
  have "json_bytes env (JObj (omitPayloadIdentity m)) \<le> json_bytes env (JObj m)"
    using assms(1) by (simp add: omission_shortens_def)
  moreover have "fmlookup (omitPayloadIdentity m) ''content'' = fmlookup m ''content''" by (simp add: omit_reads)
  ultimately show ?thesis using assms(2)
    by (auto simp: thought_updated_fields_def omit_reads split: if_splits)
qed

lemma field_checks_omit:
  assumes "omission_shortens env" "field_checks env ctx = Some check" "check m = Inr ()"
  shows "check (omitPayloadIdentity m) = Inr ()"
proof (cases "pc_kind ctx = ''thought.updated''")
  case True
  then have "check = thought_updated_fields env (pc_delivery ctx) ''thought.updated''"
    using assms(2) by (simp add: field_checks_def)
  then show ?thesis using assms(1,3) thought_updated_omit by simp
next
  case False
  then have "check (omitPayloadIdentity m) = check m"
    using assms(2) by (simp add: field_checks_def Let_def fields_omit split: if_split_asm) (auto simp: fields_omit)
  with assms(3) show ?thesis by simp
qed

subsection \<open>Run payloads\<close>

lemma runtime_ref_stable:
  assumes "parseDriverNativeRuntimeRef env v = Inr r"
  shows "parseDriverNativeRuntimeRef env (Some (runtime_ref_json r)) = Inr r"
proof -
  have "Option.bind v read_runtime_ref = Some r"
    using assms unfolding parseDriverNativeRuntimeRef_def by (simp split: option.splits)
  then obtain m where "read_runtime_ref (JObj m) = Some r"
    by (cases v; cases "the v") (simp_all add: read_runtime_ref_def)
  then have "read_runtime_ref (runtime_ref_json r) = Some r"
    by (cases r) (simp add: read_runtime_ref_def runtime_ref_json_def fmlookup_of_list split: option.splits json.splits if_splits)
  then show ?thesis by (simp add: parseDriverNativeRuntimeRef_def)
qed

lemma checkpoint_stable:
  assumes "parseNativeCheckpoint env v = Inr c"
  shows "parseNativeCheckpoint env (Some (checkpoint_json c)) = Inr c"
proof -
  obtain m where v: "v = Some (JObj m)"
    using assms unfolding parseNativeCheckpoint_def by (cases v; cases "the v"; simp)
  then obtain r i where parts: "parseDriverNativeRuntimeRef env (fmlookup m ''nativeRef'') = Inr r"
      "parseRunId (fmlookup m ''runId'') = Inr i" "c = \<lparr>nc_nativeRef = r, nc_runId = i\<rparr>"
    using assms unfolding parseNativeCheckpoint_def by (auto elim!: bindE_InrE split: if_split_asm)
  have "parseRunId (Some (JStr i)) = Inr i"
    using parts(2) parseDriverId_result parseDriverId_accepts unfolding parseRunId_def by blast
  then show ?thesis
    using parts(3) runtime_ref_stable [OF parts(1)]
    by (simp add: parseNativeCheckpoint_def checkpoint_json_def fmlookup_of_list checkpoint_keys_def)
qed

lemma primitive_record_stable:
  assumes "readPrimitiveRecord v l = Inr m"
  shows "readPrimitiveRecord (Some (JObj m)) l = Inr m"
proof (cases v)
  case None
  have "sorted_list_of_fset ({||} :: string fset) = []"
    by (metis bot_fset.rep_eq set_empty sorted_list_of_fset_simps(1))
  moreover have "ffilter p {||} = {||}" for p :: "string \<Rightarrow> bool" by auto
  ultimately show ?thesis using assms None by (auto simp: readPrimitiveRecord_def)
next
  case (Some j)
  then show ?thesis using assms
    by (cases j) (auto simp: readPrimitiveRecord_def split: list.splits)
qed

lemma run_error_stable:
  assumes "readRunError kind v l = Inr e"
  shows "readRunError kind (Some (JObj e)) l = Inr e"
proof -
  obtain m where v: "v = Some (JObj m)"
    using assms unfolding readRunError_def requirePayloadRecord_def by (cases v; cases "the v"; simp)
  obtain b where b: "fmlookup m ''retryable'' = Some (JBool b)"
    using assms v unfolding readRunError_def requirePayloadRecord_def
    by (cases "fmlookup m ''retryable''"; cases "the (fmlookup m ''retryable'')"; simp)
  define dl where "dl = ''Runtime event '' @ kind @ '' payload '' @ l @ ''.details''"
  obtain code details message where parts: "requireString m ''code'' kind = Inr code"
      "readPrimitiveRecord (fmlookup m ''details'') dl = Inr details"
      "requireString m ''message'' kind = Inr message"
      "e = fmap_of_list [(''code'', JStr code), (''details'', JObj details), (''message'', JStr message),
             (''retryable'', JBool b)]"
    using assms v b unfolding readRunError_def requirePayloadRecord_def dl_def [symmetric] by (auto elim!: bindE_InrE)
  have "requireString e ''code'' kind = Inr code" "requireString e ''message'' kind = Inr message"
    "fmlookup e ''details'' = Some (JObj details)" "fmlookup e ''retryable'' = Some (JBool b)"
    using parts(1,3) by (simp_all add: parts(4) requireString_iff fmlookup_of_list)
  then show ?thesis
    using primitive_record_stable [OF parts(2)] parts(4)
    by (simp add: readRunError_def requirePayloadRecord_def dl_def)
qed

lemma nullable_cases: "(nullable t = JNull \<longleftrightarrow> t = None) \<and> (nullable t = JStr s \<longleftrightarrow> t = Some s)"
  by (cases t) (auto simp: nullable_def)

lemma requireTimestamp_iff:
  "requireTimestamp env m k l = Inr t \<longleftrightarrow>
     fmlookup m k = Some (JStr t) \<and> t \<noteq> [] \<and> assertTimestamp env t (l @ '' '' @ k) = Inr ()"
  by (auto simp: requireTimestamp_def requireString_iff)

lemma requireNullableTimestamp_iff:
  "requireNullableTimestamp env m k l n = Inr t \<longleftrightarrow>
     (case t of
        None \<Rightarrow> fmlookup m k = Some JNull
      | Some s \<Rightarrow> requireTimestamp env m k (l @ '' '' @ n) = Inr s)"
  by (cases t) (auto simp: requireNullableTimestamp_def requireTimestamp_iff)

lemma nullable_timestamp_stable:
  assumes "requireNullableTimestamp env m k l n = Inr t" "fmlookup m' k = Some (nullable t)"
  shows "requireNullableTimestamp env m' k l n = Inr t"
  using assms by (cases t) (simp_all add: requireNullableTimestamp_iff requireTimestamp_iff nullable_def)

lemma run_view_error_stable:
  assumes "run_view_error kind m = Inr err" "fmlookup r ''error'' = Some err"
  shows "run_view_error kind r = Inr err"
proof (cases "fmlookup m ''error'' = Some JNull")
  case True
  then show ?thesis using assms by (auto simp: run_view_error_def)
next
  case False
  then obtain e where e: "readRunError kind (fmlookup m ''error'') ''run.error'' = Inr e" "err = JObj e"
    using assms(1) by (auto simp: run_view_error_def elim!: bindE_InrE)
  then show ?thesis using run_error_stable [OF e(1)] assms(2) by (simp add: run_view_error_def)
qed

lemma run_view_stable:
  assumes "readRunView env ctx v = Inr r"
  shows "readRunView env ctx (JObj r) = Inr r"
proof -
  obtain m where v: "v = JObj m"
    using assms unfolding readRunView_def requirePayloadRecord_def Let_def by (cases v) simp_all
  let ?k = "pc_kind ctx"
  obtain status completedAt err startedAt where parts:
      "requireEnumValue m ''status'' runStatuses ?k = Inr status" "isRunStatusAllowedForKind ?k status"
      "requireNullableTimestamp env m ''completedAt'' ?k ''run.completedAt'' = Inr completedAt"
      "run_view_error ?k m = Inr err"
      "requireNullableTimestamp env m ''startedAt'' ?k ''run.startedAt'' = Inr startedAt"
      "fmap_of_list
          [(''completedAt'', nullable completedAt), (''error'', err), (''id'', nullable (pc_runId ctx)),
           (''startedAt'', nullable startedAt), (''status'', JStr status),
           (''traceId'', nullable (pc_traceId ctx))] = r"
    using assms v unfolding readRunView_def requirePayloadRecord_def Let_def
    by (auto elim!: bindE_InrE split: if_split_asm)
  have look: "fmlookup r ''completedAt'' = Some (nullable completedAt)" "fmlookup r ''error'' = Some err"
    "fmlookup r ''startedAt'' = Some (nullable startedAt)" "fmlookup r ''status'' = Some (JStr status)"
    by (simp_all add: parts(6) [symmetric] fmlookup_of_list)
  have "requireEnumValue r ''status'' runStatuses ?k = Inr status"
    using parts(1) look(4) by (simp add: requireEnumValue_iff)
  moreover have "run_view_error ?k r = Inr err" using run_view_error_stable [OF parts(4)] look(2) by simp
  ultimately show ?thesis
    using parts(2) nullable_timestamp_stable [OF parts(3) look(1)] nullable_timestamp_stable [OF parts(5) look(3)]
    unfolding readRunView_def requirePayloadRecord_def Let_def
    by (simp only: option.case json.case bindE.simps parts(6) not_True_eq_False if_False)
qed

lemma upd_same: "fmlookup m k = Some v \<Longrightarrow> fmupd k v m = m"
  by (rule fmap_ext) auto

text \<open>The fields a run payload keeps as they are.\<close>

definition kept_field :: "string \<Rightarrow> bool" where
  "kept_field k \<longleftrightarrow> k \<notin> set payloadIdentityFields \<and> k \<noteq> ''checkpoint'' \<and> k \<noteq> ''run'' \<and> k \<noteq> ''error''"

lemma run_fields_same:
  assumes "\<And>k. kept_field k \<Longrightarrow> fmlookup m k = fmlookup m' k"
  shows "run_fields env ctx m = run_fields env ctx m'"
  unfolding run_fields_def Let_def
  by (simp add: require_same [OF assms] assms kept_field_def payloadIdentityFields_def)

lemma run_checkpoint_result:
  assumes "run_checkpoint env ctx rec a = Inr b"
  shows "k \<noteq> ''checkpoint'' \<Longrightarrow> fmlookup b k = fmlookup a k"
    and "omitPayloadIdentity a = a \<Longrightarrow> omitPayloadIdentity b = b"
    and "fmlookup m ''checkpoint'' = fmlookup b ''checkpoint'' \<Longrightarrow> fmlookup n ''checkpoint'' = fmlookup b ''checkpoint'' \<Longrightarrow>
      run_checkpoint env ctx m n = Inr n"
proof -
  have kc: "''checkpoint'' \<notin> set payloadIdentityFields" by (simp add: payloadIdentityFields_def)
  have "(pc_kind ctx \<noteq> ''run.completed'' \<and> b = a) \<or>
    (pc_kind ctx = ''run.completed'' \<and> (\<exists>c. parseNativeCheckpoint env (fmlookup rec ''checkpoint'') = Inr c
      \<and> Some (nc_runId c) = pc_runId ctx \<and> Some (rr_runtimeId (nc_nativeRef c)) = pc_runtimeId ctx
      \<and> b = fmupd ''checkpoint'' (checkpoint_json c) a))"
    using assms unfolding run_checkpoint_def by (auto elim!: bindE_InrE split: if_split_asm)
  then consider "pc_kind ctx \<noteq> ''run.completed''" "b = a"
    | c where "pc_kind ctx = ''run.completed''" "parseNativeCheckpoint env (fmlookup rec ''checkpoint'') = Inr c"
        "Some (nc_runId c) = pc_runId ctx" "Some (rr_runtimeId (nc_nativeRef c)) = pc_runtimeId ctx"
        "b = fmupd ''checkpoint'' (checkpoint_json c) a"
    by blast
  note split = this
  show "k \<noteq> ''checkpoint'' \<Longrightarrow> fmlookup b k = fmlookup a k" using split by cases simp_all
  show "omitPayloadIdentity a = a \<Longrightarrow> omitPayloadIdentity b = b" using split by cases (simp_all add: omit_upd [OF kc])
  show "run_checkpoint env ctx m n = Inr n"
    if "fmlookup m ''checkpoint'' = fmlookup b ''checkpoint''" "fmlookup n ''checkpoint'' = fmlookup b ''checkpoint''"
    using split
  proof cases
    case 1
    then show ?thesis by (simp add: run_checkpoint_def)
  next
    case (2 c)
    then have "fmlookup n ''checkpoint'' = Some (checkpoint_json c)"
      "fmlookup m ''checkpoint'' = Some (checkpoint_json c)" using that by simp_all
    then show ?thesis
      using 2(1,3,4) checkpoint_stable [OF 2(2)] by (simp add: run_checkpoint_def upd_same)
  qed
qed

lemma run_view_result:
  assumes "run_view env ctx rec a = Inr b" "fmlookup a ''run'' = fmlookup rec ''run''"
  shows "k \<noteq> ''run'' \<Longrightarrow> fmlookup b k = fmlookup a k"
    and "omitPayloadIdentity a = a \<Longrightarrow> omitPayloadIdentity b = b"
    and "fmlookup m ''run'' = fmlookup b ''run'' \<Longrightarrow> run_view env ctx m m = Inr m"
proof -
  have kc: "''run'' \<notin> set payloadIdentityFields" by (simp add: payloadIdentityFields_def)
  consider "fmlookup rec ''run'' = None" "b = a"
    | v r where "fmlookup rec ''run'' = Some v" "readRunView env ctx v = Inr r" "b = fmupd ''run'' (JObj r) a"
    using assms(1) unfolding run_view_def by (auto elim!: bindE_InrE split: option.splits)
  note split = this
  show "k \<noteq> ''run'' \<Longrightarrow> fmlookup b k = fmlookup a k" using split by cases simp_all
  show "omitPayloadIdentity a = a \<Longrightarrow> omitPayloadIdentity b = b" using split by cases (simp_all add: omit_upd [OF kc])
  show "run_view env ctx m m = Inr m" if "fmlookup m ''run'' = fmlookup b ''run''"
    using split
  proof cases
    case 1
    then show ?thesis using that assms(2) by (simp add: run_view_def)
  next
    case (2 v r)
    then have "fmlookup m ''run'' = Some (JObj r)" using that by simp
    then show ?thesis using run_view_stable [OF 2(2)] by (simp add: run_view_def upd_same)
  qed
qed

lemma run_error_result:
  assumes "run_error ctx rec a = Inr b" "fmlookup a ''error'' = fmlookup rec ''error''"
  shows "k \<noteq> ''error'' \<Longrightarrow> fmlookup b k = fmlookup a k"
    and "omitPayloadIdentity a = a \<Longrightarrow> omitPayloadIdentity b = b"
    and "run_error ctx b b = Inr b"
proof -
  have kc: "''error'' \<notin> set payloadIdentityFields" by (simp add: payloadIdentityFields_def)
  consider "fmlookup rec ''error'' = None \<or> fmlookup rec ''error'' = Some JNull" "b = a"
    | v r where "readRunError (pc_kind ctx) v ''error'' = Inr r" "b = fmupd ''error'' (JObj r) a"
    using assms(1) unfolding run_error_def by (auto elim!: bindE_InrE split: option.splits json.splits)
  note split = this
  show "k \<noteq> ''error'' \<Longrightarrow> fmlookup b k = fmlookup a k" using split by cases simp_all
  show "omitPayloadIdentity a = a \<Longrightarrow> omitPayloadIdentity b = b" using split by cases (simp_all add: omit_upd [OF kc])
  show "run_error ctx b b = Inr b"
    using split
  proof cases
    case 1
    then show ?thesis using assms(2) by (auto simp: run_error_def)
  next
    case (2 v r)
    then show ?thesis using run_error_stable [OF 2(1)] by (simp add: run_error_def upd_same)
  qed
qed

lemma run_payload_stable:
  assumes "readRunPayload env ctx p = Inr q"
  shows "readRunPayload env ctx q = Inr q"
proof -
  obtain rec where p: "p = JObj rec"
    using assms unfolding readRunPayload_def requirePayloadRecord_def by (cases p) simp_all
  obtain a b c where steps: "pc_runId ctx \<noteq> None" "run_fields env ctx rec = Inr ()"
      "run_checkpoint env ctx rec (omitPayloadIdentity rec) = Inr a"
      "run_view env ctx rec a = Inr b" "run_error ctx rec b = Inr c" "run_admitted ctx rec c = Inr ()" "q = JObj c"
    using assms unfolding p readRunPayload_def requirePayloadRecord_def by (auto elim!: bindE_InrE split: if_split_asm)
  note cp = run_checkpoint_result [OF steps(3)]
  have a_run: "fmlookup a ''run'' = fmlookup rec ''run''" and a_error: "fmlookup a ''error'' = fmlookup rec ''error''"
    by (simp_all add: cp(1) omit_reads)
  note vw = run_view_result [OF steps(4) a_run]
  have b_error: "fmlookup b ''error'' = fmlookup rec ''error''" using a_error by (simp add: vw(1))
  note er = run_error_result [OF steps(5) b_error]
  have kept: "fmlookup c k = fmlookup rec k" if "kept_field k" for k
    using that by (simp add: er(1) vw(1) cp(1) kept_field_def omit_same)
  have omit: "omitPayloadIdentity c = c" by (intro er(2) vw(2) cp(2)) simp
  have "run_fields env ctx c = Inr ()" using steps(2) run_fields_same [of c rec] kept by simp
  moreover have "run_checkpoint env ctx c c = Inr c" by (rule cp(3)) (simp_all add: er(1) vw(1))
  moreover have "run_view env ctx c c = Inr c" by (rule vw(3)) (simp add: er(1))
  moreover have "run_error ctx c c = Inr c" by (rule er(3))
  moreover have "run_admitted ctx c c = Inr ()"
  proof -
    have "fmlookup c ''recoverable'' = fmlookup rec ''recoverable''"
      by (rule kept) (simp add: kept_field_def payloadIdentityFields_def)
    then have "run_admitted ctx c c = run_admitted ctx rec c"
      by (simp only: run_admitted_def cong: option.case_cong json.case_cong)
    with steps(6) show ?thesis by simp
  qed
  ultimately show ?thesis
    using steps(1) by (simp add: readRunPayload_def requirePayloadRecord_def steps(7) omit)
qed

subsection \<open>The other payloads\<close>

lemma requireNonNegativeInt_iff:
  "requireNonNegativeInt m k = Inr n \<longleftrightarrow> fmlookup m k = Some (JNum n) \<and> is_safe_integer n \<and> 0 \<le> n"
  by (auto simp: requireNonNegativeInt_def split: option.split json.split)

lemma timing_phase_stable:
  assumes "readTimingPhase v = Inr r"
  shows "readTimingPhase r = Inr r"
proof -
  obtain m where v: "v = JObj m"
    using assms unfolding readTimingPhase_def requirePayloadRecord_def by (cases v) simp_all
  obtain d n where parts: "requireNonNegativeInt m ''durationMs'' = Inr d"
      "requireString m ''name'' ''runtime.timing.recorded'' = Inr n"
      "r = JObj (fmap_of_list [(''durationMs'', JNum d), (''name'', JStr n)])"
    using assms v unfolding readTimingPhase_def requirePayloadRecord_def by (auto elim!: bindE_InrE)
  then show ?thesis
    by (simp add: readTimingPhase_def requirePayloadRecord_def requireNonNegativeInt_iff requireString_iff)
qed

lemma timing_payload_stable:
  assumes "readTimingPayload env ctx p = Inr q"
  shows "readTimingPayload env ctx q = Inr q"
proof -
  let ?k = "''runtime.timing.recorded''"
  obtain m where p: "p = JObj m"
    using assms unfolding readTimingPayload_def requirePayloadRecord_def Let_def by (cases p) simp_all
  obtain completedAt path source stage startedAt totalMs phases where parts:
      "requireTimestamp env m ''completedAt'' ?k = Inr completedAt"
      "requireEnumValue m ''path'' runtimeTimingPaths ?k = Inr path"
      "requireEnumValue m ''source'' runtimeTimingSources ?k = Inr source"
      "requireEnumValue m ''stage'' runtimeTimingStages ?k = Inr stage"
      "requireTimestamp env m ''startedAt'' ?k = Inr startedAt"
      "requireNonNegativeInt m ''totalMs'' = Inr totalMs"
      "readTimingPhases (fmlookup m ''phases'') = Inr phases" "\<not> date_before completedAt startedAt"
    and q: "q = JObj (fmap_of_list
        [(''completedAt'', JStr completedAt), (''path'', JStr path), (''phases'', JArr phases),
         (''runId'', nullable (pc_runId ctx)), (''sessionId'', JStr (pc_sessionId ctx)),
         (''source'', JStr source), (''stage'', JStr stage), (''startedAt'', JStr startedAt),
         (''totalMs'', JNum totalMs), (''traceId'', nullable (pc_traceId ctx))])"
    using assms unfolding p readTimingPayload_def requirePayloadRecord_def Let_def
    by (auto elim!: bindE_InrE split: if_split_asm)
  define r where "r = fmap_of_list
        [(''completedAt'', JStr completedAt), (''path'', JStr path), (''phases'', JArr phases),
         (''runId'', nullable (pc_runId ctx)), (''sessionId'', JStr (pc_sessionId ctx)),
         (''source'', JStr source), (''stage'', JStr stage), (''startedAt'', JStr startedAt),
         (''totalMs'', JNum totalMs), (''traceId'', nullable (pc_traceId ctx))]"
  have look: "fmlookup r ''completedAt'' = Some (JStr completedAt)" "fmlookup r ''path'' = Some (JStr path)"
    "fmlookup r ''phases'' = Some (JArr phases)" "fmlookup r ''source'' = Some (JStr source)"
    "fmlookup r ''stage'' = Some (JStr stage)" "fmlookup r ''startedAt'' = Some (JStr startedAt)"
    "fmlookup r ''totalMs'' = Some (JNum totalMs)"
    by (simp_all add: r_def fmlookup_of_list)
  obtain vs where "mapE readTimingPhase vs = Inr phases"
    using parts(7) unfolding readTimingPhases_def by (simp split: option.splits json.splits)
  then have "mapE readTimingPhase phases = Inr phases"
    unfolding mapE_list_all2 using timing_phase_stable
    by (auto simp: list_all2_conv_all_nth)
  then have "readTimingPhases (fmlookup r ''phases'') = Inr phases" by (simp add: readTimingPhases_def look)
  moreover have "requireTimestamp env r ''completedAt'' ?k = Inr completedAt"
      "requireEnumValue r ''path'' runtimeTimingPaths ?k = Inr path"
      "requireEnumValue r ''source'' runtimeTimingSources ?k = Inr source"
      "requireEnumValue r ''stage'' runtimeTimingStages ?k = Inr stage"
      "requireTimestamp env r ''startedAt'' ?k = Inr startedAt"
      "requireNonNegativeInt r ''totalMs'' = Inr totalMs"
    using parts(1-6) unfolding requireTimestamp_iff requireEnumValue_iff requireNonNegativeInt_iff
    by (simp_all only: look simp_thms)
  ultimately show ?thesis
    unfolding q r_def [symmetric] readTimingPayload_def requirePayloadRecord_def Let_def
    by (simp only: option.case json.case bindE.simps parts(8) if_False r_def [symmetric])
qed

lemma session_reset_stable:
  assumes "readSessionReset env ctx p = Inr q"
  shows "readSessionReset env ctx q = Inr q"
proof -
  let ?ks = "[''previousCheckpoint'', ''previousNativeRef'', ''newNativeRef'']"
  have scope: "pc_runId ctx = None" "\<not> (pc_driverInstanceId ctx = None \<or> pc_runtimeId ctx = None)"
      "pc_delivery ctx = ''lossless''"
    using assms unfolding readSessionReset_def by (simp_all split: if_split_asm)
  obtain m where p: "p = JObj m"
    using assms scope unfolding readSessionReset_def requirePayloadRecord_def by (cases p) simp_all
  obtain pc old new where parts:
      "previous_checkpoint env m = Inr pc"
      "parseDriverNativeRuntimeRef env (fmlookup m ''previousNativeRef'') = Inr old"
      "parseDriverNativeRuntimeRef env (fmlookup m ''newNativeRef'') = Inr new"
      "\<not> (Some (rr_runtimeId old) \<noteq> pc_runtimeId ctx \<or> Some (rr_runtimeId new) \<noteq> pc_runtimeId ctx)"
      "\<not> (case pc of None \<Rightarrow> False | Some c \<Rightarrow> \<not> nativeRuntimeRefsEqual (nc_nativeRef c) old)"
    and q: "q = JObj (fmap_of_list
        [(''previousCheckpoint'', case pc of None \<Rightarrow> JNull | Some c \<Rightarrow> checkpoint_json c),
         (''previousNativeRef'', runtime_ref_json old), (''newNativeRef'', runtime_ref_json new)])"
    using assms scope unfolding p readSessionReset_def requirePayloadRecord_def
    by (auto elim!: bindE_InrE split: if_split_asm)
  define r where "r = fmap_of_list
        [(''previousCheckpoint'', case pc of None \<Rightarrow> JNull | Some c \<Rightarrow> checkpoint_json c),
         (''previousNativeRef'', runtime_ref_json old), (''newNativeRef'', runtime_ref_json new)]"
  have look: "fmlookup r ''previousCheckpoint'' = Some (case pc of None \<Rightarrow> JNull | Some c \<Rightarrow> checkpoint_json c)"
    "fmlookup r ''previousNativeRef'' = Some (runtime_ref_json old)"
    "fmlookup r ''newNativeRef'' = Some (runtime_ref_json new)"
    by (simp_all add: r_def fmlookup_of_list)
  have keys: "requireExactKeys r ?ks l = Inr ()" for l unfolding r_def by (rule exact_fields) simp
  have "previous_checkpoint env r = Inr pc"
  proof (cases pc)
    case (Some c)
    then have "parseNativeCheckpoint env (fmlookup m ''previousCheckpoint'') = Inr c"
      using parts(1) unfolding previous_checkpoint_def by (auto elim!: bindE_InrE split: if_split_asm)
    then show ?thesis using Some checkpoint_stable look(1) by (simp add: previous_checkpoint_def checkpoint_json_def)
  qed (simp add: previous_checkpoint_def look)
  moreover have "parseDriverNativeRuntimeRef env (fmlookup r ''previousNativeRef'') = Inr old"
    "parseDriverNativeRuntimeRef env (fmlookup r ''newNativeRef'') = Inr new"
    using runtime_ref_stable [OF parts(2)] runtime_ref_stable [OF parts(3)] by (simp_all add: look)
  ultimately show ?thesis
    unfolding q r_def [symmetric] readSessionReset_def requirePayloadRecord_def
    by (simp only: scope option.case json.case bindE.simps keys parts(4,5) if_False not_True_eq_False
        simp_thms r_def [symmetric])
qed

lemma agent_tasks_stable:
  assumes "readAgentTasks env ctx p = Inr q"
  shows "readAgentTasks env ctx q = Inr q"
  using assms unfolding readAgentTasks_def requirePayloadRecord_def
  by (cases p) (auto split: if_split_asm)

lemma message_failed_stable:
  assumes "readMessageFailed ctx p = Inr q"
  shows "readMessageFailed ctx q = Inr q"
proof -
  obtain m where p: "p = JObj m"
    using assms unfolding readMessageFailed_def requirePayloadRecord_def by (cases p) simp_all
  obtain i e where parts: "requireString m ''messageId'' (pc_kind ctx) = Inr i"
      "requireOptionalEnumValue m ''role'' [''agent'', ''user''] (pc_kind ctx) = Inr ()"
      "readRunError (pc_kind ctx) (fmlookup m ''error'') ''error'' = Inr e"
      "q = JObj (fmupd ''error'' (JObj e) (omitPayloadIdentity m))"
    using assms unfolding p readMessageFailed_def requirePayloadRecord_def by (auto elim!: bindE_InrE)
  define r where "r = fmupd ''error'' (JObj e) (omitPayloadIdentity m)"
  have "fmlookup r ''messageId'' = fmlookup m ''messageId''" "fmlookup r ''role'' = fmlookup m ''role''"
    by (simp_all add: r_def omit_reads)
  then have "requireString r ''messageId'' (pc_kind ctx) = Inr i"
    "requireOptionalEnumValue r ''role'' [''agent'', ''user''] (pc_kind ctx) = Inr ()"
    using parts(1,2) require_same [of r _ m] by simp_all
  moreover have "readRunError (pc_kind ctx) (fmlookup r ''error'') ''error'' = Inr e"
    using run_error_stable [OF parts(3)] by (simp add: r_def)
  moreover have "omitPayloadIdentity r = r"
    unfolding r_def by (subst omit_upd) (simp_all add: payloadIdentityFields_def)
  moreover have "fmupd ''error'' (JObj e) r = r" by (rule upd_same) (simp add: r_def)
  ultimately show ?thesis
    by (simp add: parts(4) r_def [symmetric] readMessageFailed_def requirePayloadRecord_def)
qed

lemma context_usage_stable:
  assumes "readContextUsage ctx p = Inr q"
  shows "readContextUsage ctx q = Inr q"
proof -
  have "q = p"
    using assms unfolding readContextUsage_def requirePayloadRecord_def
    by (cases p) (auto elim!: bindE_InrE simp del: each_iff)
  with assms show ?thesis by simp
qed

definition whole_payload_kinds :: "string list" where
  "whole_payload_kinds = [''context.usage.updated'', ''agent.tasks.replaced'', ''message.failed'',
     ''runtime.timing.recorded'', ''runtime.session.reset''] @ run_kinds"

lemma admit_whole:
  assumes "pc_kind ctx \<in> set whole_payload_kinds"
  obtains f where "\<And>p. admitRuntimeEventPayload env ctx p = f p" "\<And>p q. f p = Inr q \<Longrightarrow> f q = Inr q"
proof -
  let ?k = "pc_kind ctx"
  consider "?k = ''context.usage.updated''" | "?k = ''agent.tasks.replaced''" | "?k = ''message.failed''"
    | "?k = ''runtime.timing.recorded''" | "?k = ''runtime.session.reset''" | "?k \<in> set run_kinds"
    using assms by (simp only: whole_payload_kinds_def set_append list.set Un_iff insert_iff empty_iff) blast
  then show thesis
  proof cases
    case 1
    show thesis by (rule that [of "readContextUsage ctx"]) (simp_all add: 1 admitRuntimeEventPayload_def context_usage_stable)
  next
    case 2
    show thesis by (rule that [of "readAgentTasks env ctx"]) (simp_all add: 2 admitRuntimeEventPayload_def agent_tasks_stable)
  next
    case 3
    show thesis by (rule that [of "readMessageFailed ctx"]) (simp_all add: 3 admitRuntimeEventPayload_def message_failed_stable)
  next
    case 4
    show thesis by (rule that [of "readTimingPayload env ctx"])
      (simp_all add: 4 admitRuntimeEventPayload_def timing_payload_stable run_kinds_def)
  next
    case 5
    show thesis by (rule that [of "readSessionReset env ctx"])
      (simp_all add: 5 admitRuntimeEventPayload_def session_reset_stable run_kinds_def)
  next
    case 6
    then have "?k \<noteq> ''context.usage.updated''" "?k \<noteq> ''agent.tasks.replaced''" "?k \<noteq> ''message.failed''"
      by (auto simp: run_kinds_def)
    with 6 show thesis by (intro that [of "readRunPayload env ctx"])
      (simp_all add: admitRuntimeEventPayload_def run_payload_stable)
  qed
qed

lemma admit_fields:
  assumes "pc_kind ctx \<notin> set whole_payload_kinds"
  shows "admitRuntimeEventPayload env ctx p =
    (case field_checks env ctx of
       Some check \<Rightarrow>
          bindE (scope_check ctx) (\<lambda>_.
          bindE (requirePayloadRecord (pc_kind ctx) (Some p) ''payload'') (\<lambda>rec.
          bindE (check rec) (\<lambda>_. Inr (JObj (omitPayloadIdentity rec)))))
     | None \<Rightarrow> Inr (case p of JObj m \<Rightarrow> JObj (omitPayloadIdentity m) | v \<Rightarrow> v))"
proof -
  have "pc_kind ctx \<noteq> ''context.usage.updated''" "pc_kind ctx \<noteq> ''agent.tasks.replaced''"
    "pc_kind ctx \<noteq> ''message.failed''" "pc_kind ctx \<noteq> ''runtime.timing.recorded''"
    "pc_kind ctx \<noteq> ''runtime.session.reset''" "pc_kind ctx \<notin> set run_kinds"
    using assms by (simp_all add: whole_payload_kinds_def)
  then show ?thesis by (simp only: admitRuntimeEventPayload_def Let_def if_False)
qed

lemma payload_stable:
  assumes "omission_shortens env" "admitRuntimeEventPayload env ctx p = Inr q"
  shows "admitRuntimeEventPayload env ctx q = Inr q"
proof (cases "pc_kind ctx \<in> set whole_payload_kinds")
  case True
  then obtain f where "\<And>p. admitRuntimeEventPayload env ctx p = f p" "\<And>p q. f p = Inr q \<Longrightarrow> f q = Inr q"
    by (rule admit_whole [where env = env]) blast
  with assms(2) show ?thesis by simp
next
  case False
  note admit = admit_fields [OF False]
  show ?thesis
  proof (cases "field_checks env ctx")
    case None
    then show ?thesis using assms(2) unfolding admit by (cases p) auto
  next
    case (Some check)
    then obtain m where "p = JObj m" "scope_check ctx = Inr ()" "check m = Inr ()" "q = JObj (omitPayloadIdentity m)"
      using assms(2) unfolding admit requirePayloadRecord_def by (cases p) (auto elim!: bindE_InrE)
    then show ?thesis
      using Some field_checks_omit [OF assms(1) Some] unfolding admit requirePayloadRecord_def by simp
  qed
qed

theorem parse_stable:
  assumes "omission_shortens env" "parseRuntimeEventEnvelope env input = Inr e"
  shows "parseRuntimeEventEnvelope env (event_json e) = Inr e"
proof (cases input)
  case (JObj val)
  then obtain p where "admitRuntimeEventPayload env (event_context e) p = Inr (re_payload e)"
    using parse_reads assms(2) unfolding event_read_def Let_def by blast
  then show ?thesis using parse_stable_if [OF assms(2)] payload_stable [OF assms(1)] by blast
qed (use assms(2) in \<open>simp_all add: parseRuntimeEventEnvelope_def\<close>)


section \<open>Drafts\<close>

lemma object_lookup:
  assumes "distinct (map fst fs)"
  shows "map_of (concat (map (\<lambda>(k, v). case v of None \<Rightarrow> [] | Some x \<Rightarrow> [(k, x)]) fs)) k
    = Option.bind (map_of fs k) id"
  using assms
proof (induction fs)
  case (Cons f fs)
  obtain k' v where f: "f = (k', v)" by (cases f)
  have "map_of fs k' = None" using Cons.prems f by (simp add: map_of_eq_None_iff)
  then show ?case using Cons f by (cases v) auto
qed simp

lemma object_names:
  "fst ` set (concat (map (\<lambda>(k, v). case v of None \<Rightarrow> [] | Some x \<Rightarrow> [(k, x)]) fs)) \<subseteq> fst ` set fs"
  by (force split: option.splits)

definition draft_fields :: "build_context \<Rightarrow> json_object \<Rightarrow> string \<Rightarrow> json option" where
  "draft_fields ctx draft =
     (let get = fmlookup draft;
          runId = coalesce (text_field (bc_runId ctx))
            (if bc_draftRunIdPolicy ctx = IgnoreDraftRunId then None else get ''runId'')
      in get
           (''driverInstanceId'' := text_field (bc_driverInstanceId ctx),
            ''id'' := coalesce (get ''id'') (Some (JStr (bc_createId ctx))),
            ''occurredAt'' := coalesce (get ''occurredAt'') (Some (JStr (bc_occurredAt ctx))),
            ''origin'' := coalesce (coalesce (get ''origin'') (text_field (bc_origin ctx))) (Some (JStr ''driver'')),
            ''runId'' := runId,
            ''runtimeId'' := text_field (bc_runtimeId ctx),
            ''sessionId'' := Some (JStr (bc_sessionId ctx)),
            ''sourceEventId'' := coalesce (get ''sourceEventId'') (text_field (bc_sourceEventId ctx)),
            ''traceId'' := coalesce (get ''traceId'') (text_field (bc_traceId ctx))))"

lemma draft_object:
  obtains m where "eventFromDraft ctx draft = JObj m"
    "\<And>k. fmlookup m k = Option.bind (map_of (created_fields (draft_fields ctx draft)) k) id"
    "\<And>l. requireExactKeys m runtimeEventEnvelopeKeys l = Inr ()"
proof -
  let ?fs = "created_fields (draft_fields ctx draft)"
  define xs where "xs = concat (map (\<lambda>(k, v). case v of None \<Rightarrow> [] | Some x \<Rightarrow> [(k, x)]) ?fs)"
  have e: "eventFromDraft ctx draft = JObj (fmap_of_list xs)"
    by (simp only: eventFromDraft_def draft_fields_def Let_def createRuntimeEvent_def object_of_def xs_def)
  have "distinct (map fst ?fs)" by (simp add: created_fields_def)
  then have "fmlookup (fmap_of_list xs) k = Option.bind (map_of ?fs k) id" for k
    by (simp only: fmlookup_of_list xs_def object_lookup)
  moreover have "fst ` set ?fs = set runtimeEventEnvelopeKeys"
    by (simp add: created_fields_def runtimeEventEnvelopeKeys_def)
  then have "requireExactKeys (fmap_of_list xs) runtimeEventEnvelopeKeys l = Inr ()" for l
    using object_names [of ?fs] by (intro exact_fields) (simp add: xs_def)
  ultimately show thesis using that e by blast
qed

lemma parseDriverId_value:
  assumes "parseDriverId (Some (JStr s)) l = Inr i"
  shows "i = map upper_char s"
  using assms normalizeDriverId_ok unfolding parseDriverId_def by (cases "normalizeDriverId s") auto

text \<open>An event made from a draft has the identity of its context, whatever the draft says.\<close>

lemma draft_identity:
  assumes "\<not> has_schema_version input" "ingestRuntimeEventInput env ctx input = Inr e"
  shows "re_sessionId e = map upper_char (bc_sessionId ctx)
    \<and> re_driverInstanceId e = map_option (map upper_char) (bc_driverInstanceId ctx)
    \<and> re_runtimeId e = bc_runtimeId ctx
    \<and> (\<forall>r. bc_runId ctx = Some r \<longrightarrow> re_runId e = Some (map upper_char r))
    \<and> (bc_runId ctx = None \<and> bc_draftRunIdPolicy ctx = IgnoreDraftRunId \<longrightarrow> re_runId e = None)"
proof -
  obtain d where d: "input = JObj d" and parsed: "parse_input env ctx input = Inr e"
    using assms unfolding ingestRuntimeEventInput_def
    by (cases input) (simp_all split: if_split_asm sum.splits)
  obtain m where m: "eventFromDraft ctx d = JObj m"
    "\<And>k. fmlookup m k = Option.bind (map_of (created_fields (draft_fields ctx d)) k) id"
    by (rule draft_object) blast
  have "event_read env m e"
    using parsed assms(1) m(1) d parse_reads by (simp add: parse_input_def)
  then have read: "readDriverId m ''sessionId'' = Inr (re_sessionId e)"
    "readOptionalDriverId m ''driverInstanceId'' = Inr (re_driverInstanceId e)"
    "event_readOptionalString m ''runtimeId'' ''Runtime event'' = Inr (re_runtimeId e)"
    "readOptionalDriverId m ''runId'' = Inr (re_runId e)"
    unfolding event_read_def Let_def by simp_all
  have look: "fmlookup m ''sessionId'' = Some (JStr (bc_sessionId ctx))"
    "fmlookup m ''driverInstanceId'' = text_field (bc_driverInstanceId ctx)"
    "fmlookup m ''runtimeId'' = text_field (bc_runtimeId ctx)"
    "fmlookup m ''runId'' = coalesce (text_field (bc_runId ctx))
       (if bc_draftRunIdPolicy ctx = IgnoreDraftRunId then None else fmlookup d ''runId'')"
    unfolding m(2) by (simp_all add: created_fields_def draft_fields_def Let_def)
  have driver: "i = map_option (map upper_char) s"
    if "readOptionalDriverId m k = Inr i" "fmlookup m k = text_field s" for k i s
    using that parseDriverId_value by (cases s) (auto simp: readOptionalDriverId_def text_field_def elim!: bindE_InrE)
  have run: "fmlookup m ''runId'' = text_field (bc_runId ctx)"
    if "bc_runId ctx \<noteq> None \<or> bc_draftRunIdPolicy ctx = IgnoreDraftRunId"
    using that look(4) by (auto simp: coalesce_def text_field_def)
  have "re_sessionId e = map upper_char (bc_sessionId ctx)"
    using read(1) look(1) parseDriverId_value by (simp add: readDriverId_def)
  moreover have "re_runtimeId e = bc_runtimeId ctx"
  proof -
    have "map_option JStr (re_runtimeId e) = map_option JStr (bc_runtimeId ctx)"
      using read(3) look(3) by (simp add: event_readOptionalString_iff text_field_def)
    then show ?thesis by (cases "re_runtimeId e"; cases "bc_runtimeId ctx") simp_all
  qed
  ultimately show ?thesis
    using driver [OF read(2) look(2)] driver [OF read(4) run] by auto
qed

text \<open>Why an input is rejected.\<close>

lemma exact_of_dom: "fmdom m |\<subseteq>| fset_of_list keys \<Longrightarrow> requireExactKeys m keys l = Inr ()"
  unfolding requireExactKeys_iff by (metis fmdom_notD fset_of_list_elem fsubsetD)

lemma parse_unsupported_schema:
  assumes "requireExactKeys m runtimeEventEnvelopeKeys ''Runtime event'' = Inr ()"
    "fmlookup m ''schemaVersion'' \<noteq> Some (JStr RUNTIME_EVENT_SCHEMA_VERSION)"
  shows "parseRuntimeEventEnvelope env (JObj m) = Inl ''Runtime event schema version is unsupported.''"
  using assms by (simp add: parseRuntimeEventEnvelope_def)

lemma parse_unsupported_kind:
  assumes "requireExactKeys m runtimeEventEnvelopeKeys ''Runtime event'' = Inr ()"
    "fmlookup m ''schemaVersion'' = Some (JStr RUNTIME_EVENT_SCHEMA_VERSION)"
    "fmlookup m ''kind'' = Some (JStr k)" "k \<noteq> []" "k \<notin> set RUNTIME_EVENT_KINDS"
  shows "parseRuntimeEventEnvelope env (JObj m) = Inl ''Runtime event kind is unsupported.''"
proof -
  have "requireString m ''kind'' ''Runtime event'' = Inr k" using assms(3,4) by (simp add: requireString_iff)
  then have "requireEnumValue m ''kind'' RUNTIME_EVENT_KINDS ''Runtime event'' = Inl ''Runtime event kind is unsupported.''"
    using assms(5) by (simp add: requireEnumValue_def)
  then show ?thesis using assms(1,2) by (simp add: parseRuntimeEventEnvelope_def)
qed

lemma rejection_texts:
  "includes_text ''Runtime event schema version is unsupported.'' ''schema version''"
  "\<not> includes_text ''Runtime event kind is unsupported.'' ''schema version''"
  "includes_text ''Runtime event kind is unsupported.'' ''kind is unsupported''"
  by (simp_all add: startsWith_def)

definition rejected_with :: "event_env \<Rightarrow> build_context \<Rightarrow> json \<Rightarrow> rejection_code \<Rightarrow> bool" where
  "rejected_with env ctx input code \<longleftrightarrow>
     (case ingestRuntimeEventInput env ctx input of Inl r \<Rightarrow> rj_code r = code | Inr _ \<Rightarrow> False)"

lemma rejected_parse:
  assumes "has_schema_version input \<or> isRuntimeEventInputDraft input" "parse_input env ctx input = Inl message"
  shows "rejected_with env ctx input (rj_code (classifyIngressError input message))"
  using assms by (auto simp: rejected_with_def ingestRuntimeEventInput_def)

lemma rejected_kind:
  assumes "has_schema_version input \<or> isRuntimeEventInputDraft input"
    "parse_input env ctx input = Inl ''Runtime event kind is unsupported.''"
  shows "rejected_with env ctx input UnsupportedKind"
  using rejected_parse [OF assms] by (simp only: classifyIngressError_def rejection.simps rejection_texts if_True if_False)

lemma rejection_codes:
  shows "(\<not> has_schema_version input \<and> \<not> isRuntimeEventInputDraft input
        \<longrightarrow> rejected_with env ctx input InvalidInput)
    \<and> (\<forall>m. input = JObj m \<and> fmdom m |\<subseteq>| fset_of_list runtimeEventEnvelopeKeys
        \<and> fmlookup m ''schemaVersion'' \<noteq> None
        \<and> fmlookup m ''schemaVersion'' \<noteq> Some (JStr RUNTIME_EVENT_SCHEMA_VERSION)
        \<longrightarrow> rejected_with env ctx input UnsupportedSchema)
    \<and> (\<forall>m k. input = JObj m \<and> fmdom m |\<subseteq>| fset_of_list runtimeEventEnvelopeKeys
        \<and> fmlookup m ''schemaVersion'' = Some (JStr RUNTIME_EVENT_SCHEMA_VERSION)
        \<and> fmlookup m ''kind'' = Some (JStr k) \<and> k \<noteq> [] \<and> k \<notin> set RUNTIME_EVENT_KINDS
        \<longrightarrow> rejected_with env ctx input UnsupportedKind)
    \<and> (\<forall>m k. input = JObj m \<and> fmlookup m ''schemaVersion'' = None \<and> fmlookup m ''payload'' \<noteq> None
        \<and> fmlookup m ''kind'' = Some (JStr k) \<and> k \<noteq> [] \<and> k \<notin> set RUNTIME_EVENT_KINDS
        \<longrightarrow> rejected_with env ctx input UnsupportedKind)"
proof (intro conjI allI impI; elim conjE)
  assume "\<not> has_schema_version input" "\<not> isRuntimeEventInputDraft input"
  then show "rejected_with env ctx input InvalidInput" by (simp add: rejected_with_def ingestRuntimeEventInput_def)
next
  fix m
  assume a: "input = JObj m" "fmdom m |\<subseteq>| fset_of_list runtimeEventEnvelopeKeys"
    "fmlookup m ''schemaVersion'' \<noteq> None"
    "fmlookup m ''schemaVersion'' \<noteq> Some (JStr RUNTIME_EVENT_SCHEMA_VERSION)"
  have "parse_input env ctx input = Inl ''Runtime event schema version is unsupported.''"
    using a(1,3) parse_unsupported_schema [OF exact_of_dom [OF a(2)] a(4)] by (simp add: parse_input_def)
  then have "rejected_with env ctx input
      (rj_code (classifyIngressError input ''Runtime event schema version is unsupported.''))"
    by (intro rejected_parse) (use a(1,3) in simp_all)
  then show "rejected_with env ctx input UnsupportedSchema"
    by (simp only: classifyIngressError_def rejection.simps rejection_texts if_True)
next
  fix m k
  assume a: "input = JObj m" "fmdom m |\<subseteq>| fset_of_list runtimeEventEnvelopeKeys"
    "fmlookup m ''schemaVersion'' = Some (JStr RUNTIME_EVENT_SCHEMA_VERSION)"
    "fmlookup m ''kind'' = Some (JStr k)" "k \<noteq> []" "k \<notin> set RUNTIME_EVENT_KINDS"
  show "rejected_with env ctx input UnsupportedKind"
    using a(1,3) parse_unsupported_kind [OF exact_of_dom [OF a(2)] a(3-6)]
    by (intro rejected_kind) (simp_all add: parse_input_def)
next
  fix m k
  assume a: "input = JObj m" "fmlookup m ''schemaVersion'' = None" "fmlookup m ''payload'' \<noteq> None"
    "fmlookup m ''kind'' = Some (JStr k)" "k \<noteq> []" "k \<notin> set RUNTIME_EVENT_KINDS"
  obtain d where d: "eventFromDraft ctx m = JObj d"
    "\<And>k. fmlookup d k = Option.bind (map_of (created_fields (draft_fields ctx m)) k) id"
    "\<And>l. requireExactKeys d runtimeEventEnvelopeKeys l = Inr ()"
    by (rule draft_object [of ctx m]) blast
  have look: "fmlookup d ''schemaVersion'' = Some (JStr RUNTIME_EVENT_SCHEMA_VERSION)"
    "fmlookup d ''kind'' = Some (JStr k)"
    unfolding d(2) using a(4) by (simp_all add: created_fields_def draft_fields_def Let_def)
  show "rejected_with env ctx input UnsupportedKind"
    using a(1-4) d(1) parse_unsupported_kind [OF d(3) look a(5,6)]
    by (intro rejected_kind) (simp_all add: parse_input_def)
qed

end
