(* ===== verification/Event_Properties.thy ===== *)
theory Event_Properties
  imports Permission_Safety Event_Admission
begin

text \<open>Properties of the permission broker and of the admission of runtime events.\<close>

section \<open>Permissions\<close>

text \<open>
  C20.  A permission request ends with \<open>allow_once\<close> only if an approval was given to the
  broker for that very request while it was waiting, and its resolution was delivered
  while the run it belongs to was current; and no request is announced with two different
  resolutions, whatever is retried, recovered, aborted or timed out.
\<close>

theorem permissions_need_approval:
  assumes "broker_run opts requestBytes eventBytes digest ops new_broker = st"
  shows "(\<forall>i late. i < length (br_calls st) \<longrightarrow> pc_phase (br_calls st ! i) = Finished (Inr AllowOnce) late
        \<longrightarrow> approved opts requestBytes eventBytes digest ops (call_id (br_calls st ! i)) i \<and> delivered_current ops i)
    \<and> (\<forall>i es fs e f r q. (i, es) \<in> set (br_sent st) \<longrightarrow> (i, fs) \<in> set (br_sent st) \<longrightarrow> e \<in> set es \<longrightarrow> f \<in> set fs
        \<longrightarrow> announces e = Some r \<longrightarrow> announces f = Some q \<longrightarrow> r = q)"
  using allowed_only_approved [OF assms] one_resolution [OF assms] by blast

lemmas broker_evaluation =
  broker_run_def broker_request_def refuse_request_def register_call_def new_call_def hasPending_def
  send_events_def requested_events_def on_call_def requested_settles_def update_call_def broker_resolve_def
  resolveRequest_def settle_deferred_def decision_settles_def send_resolution_def unregister_def
  resolution_settles_def finish_call_def releaseLease_def delete_failure_def new_broker_def
  default_broker_options_def MAX_PERMISSION_REQUEST_EVENT_BYTES_def MAX_PENDING_PERMISSION_REQUEST_BYTES_def
  MAX_PENDING_PERMISSION_REQUESTS_def

definition ex_permission :: "unit permission_request" where
  "ex_permission = \<lparr>pq_requestId = ''p'', pq_details = ()\<rparr>"

definition ex_permission_ops :: "unit broker_op list" where
  "ex_permission_ops =
     [OpRequest ex_permission False (Some ''r'') True, OpRequestedSettles 0 SettledOk True,
      OpResolve ''p'' AllowOnce, OpDecisionSettles 0 False True, OpResolutionSettles 0 SettledOk True]"

definition ex_permission_run :: "unit broker" where
  "ex_permission_run = broker_run default_broker_options (\<lambda>_. 1) (\<lambda>_. 1) snd ex_permission_ops new_broker"

lemma ex_permission_allowed:
  "length (br_calls ex_permission_run) = 1 \<and> pc_phase (br_calls ex_permission_run ! 0) = Finished (Inr AllowOnce) None"
  by (simp add: ex_permission_run_def ex_permission_ops_def ex_permission_def broker_evaluation Let_def)

lemma permissions_need_approval_witness:
  "approved default_broker_options (\<lambda>_. 1) (\<lambda>_. 1) snd ex_permission_ops (call_id (br_calls ex_permission_run ! 0)) 0"
  using permissions_need_approval [OF ex_permission_run_def [symmetric]] ex_permission_allowed by simp

text \<open>
  C21.  Whatever happens to the requests of a broker it was possible to create, its leases
  are exactly those of the calls still under way or with a delivery outstanding, with
  different request identifiers; the count and the bytes it keeps are theirs and stay
  within the limits of its options.
\<close>

theorem permission_broker_accounts:
  assumes "createPermissionBroker opts = Inr st0"
  shows "let st = broker_run opts requestBytes eventBytes digest ops st0; held = filter leased (br_calls st)
    in distinct (br_activeRequestIds st) \<and> distinct (map call_id held)
     \<and> set (br_activeRequestIds st) = call_id ` set held
     \<and> br_activeRequestBytes st = sum_list (map pc_bytes held)
     \<and> of_nat (length (br_activeRequestIds st)) \<le> bo_maxPendingRequests opts
     \<and> of_nat (br_activeRequestBytes st) \<le> bo_maxPendingRequestBytes opts"
  using broker_accounts [OF assms]
  unfolding Let_def leases_ok_def within_limits_def leased_bytes_def by blast

lemma permission_broker_accounts_witness:
  "br_activeRequestIds (broker_run default_broker_options (\<lambda>_. 1) (\<lambda>_. 1) snd (take 2 ex_permission_ops) new_broker)
     = [''p'']
   \<and> distinct [''p'']"
proof -
  have "createPermissionBroker default_broker_options = Inr (new_broker :: unit broker)"
    by (simp add: createPermissionBroker_def default_broker_options_def is_safe_integer_def max_safe_integer_def
        MAX_PENDING_PERMISSION_REQUEST_BYTES_def MAX_PENDING_PERMISSION_REQUESTS_def
        PERMISSION_REQUEST_TIMEOUT_MS_def PERMISSION_EVENT_DELIVERY_TIMEOUT_MS_def)
  note accounts = permission_broker_accounts [OF this, of "\<lambda>_. 1" "\<lambda>_. 1" snd "take 2 ex_permission_ops"]
  have ids: "br_activeRequestIds (broker_run default_broker_options (\<lambda>_. 1) (\<lambda>_. 1) snd (take 2 ex_permission_ops) new_broker)
     = [''p'']"
    by (simp add: ex_permission_ops_def ex_permission_def broker_evaluation Let_def)
  show ?thesis using accounts unfolding Let_def ids by simp
qed

section \<open>Runtime events\<close>

text \<open>
  C22.  Parsing an event that was parsed before changes nothing: the JSON of an accepted
  event is accepted as that same event, provided leaving fields out of an object does not
  lengthen its JSON text.
\<close>

theorem parsed_events_are_stable:
  assumes "omission_shortens env" "parseRuntimeEventEnvelope env input = Inr e"
  shows "parseRuntimeEventEnvelope env (event_json e) = Inr e"
  by (rule parse_stable [OF assms])

definition ex_event_env :: event_env where
  "ex_event_env = \<lparr>iso_datetime = (\<lambda>_. True), prettify = (\<lambda>_. []), utf8_bytes = length, json_bytes = (\<lambda>_. 0)\<rparr>"

definition ex_event_json :: json where
  "ex_event_json = JObj (fmap_of_list
     [(''actor'', JStr ''driver''), (''delivery'', JStr ''lossless''), (''id'', JStr ''01ARZ3NDEKTSV4RRFFQ69G5FAV''),
      (''kind'', JStr ''session.closed''), (''occurredAt'', JStr ''2026-01-01T00:00:00.000Z''),
      (''origin'', JStr ''driver''), (''payload'', JObj fmempty),
      (''schemaVersion'', JStr RUNTIME_EVENT_SCHEMA_VERSION),
      (''sessionId'', JStr ''01ARZ3NDEKTSV4RRFFQ69G5FAV''), (''visibility'', JStr ''public'')])"

lemma ex_event_parsed: "\<not> isl (parseRuntimeEventEnvelope ex_event_env ex_event_json)"
  by code_simp

lemma parsed_events_are_stable_witness:
  "\<exists>e. parseRuntimeEventEnvelope ex_event_env ex_event_json = Inr e
    \<and> parseRuntimeEventEnvelope ex_event_env (event_json e) = Inr e"
proof -
  obtain e where e: "parseRuntimeEventEnvelope ex_event_env ex_event_json = Inr e"
    using ex_event_parsed by (cases "parseRuntimeEventEnvelope ex_event_env ex_event_json") simp_all
  have "omission_shortens ex_event_env" by (simp add: omission_shortens_def ex_event_env_def)
  from parsed_events_are_stable [OF this e] e show ?thesis by blast
qed








end
