(* ===== verification/Cma_Projection.thy ===== *)
theory Cma_Projection
  imports Driver_Prelude
begin

text \<open>
  src/src/projections/cma/inbound.ts and outbound.ts: how the events a CMA client sends become
  driver commands, and how driver events become the events it sees.  A value of type
  \<open>unknown\<close> is a JSON value; a property that is \<open>undefined\<close> is absent.  A JSON object has no
  key order here, so the error for an unsupported field does not name the field.
\<close>

section \<open>Reading JSON\<close>

fun isRecord :: "json \<Rightarrow> bool" where
  "isRecord (JObj _) = True"
| "isRecord _ = False"

fun record_of :: "json \<Rightarrow> json_object" where
  "record_of (JObj m) = m"
| "record_of _ = fmempty"

section \<open>Inbound events\<close>

datatype cma_inbound_type = UserCustomToolResult | UserInterrupt | UserMessage | UserToolConfirmation

datatype confirmation_decision = ConfirmAllowOnce | ConfirmRejectOnce

record user_message =
  um_commandId :: string
  um_requestId :: string
  um_runId :: string
  um_text :: string

record user_interrupt =
  ui_commandId :: string
  ui_reason :: "string option"

record user_tool_confirmation =
  uc_commandId :: string
  uc_decision :: confirmation_decision
  uc_requestId :: string

record user_custom_tool_result =
  ur_argumentsJson :: string
  ur_commandId :: string
  ur_requestId :: string
  ur_serverId :: string
  ur_toolCallId :: string
  ur_toolName :: string

datatype cma_inbound_event =
  InMessage user_message
| InInterrupt user_interrupt
| InToolConfirmation user_tool_confirmation
| InCustomToolResult user_custom_tool_result

datatype cma_projection_error =
  NonEmptyStringRequired string | StringRequired string | ObjectRequired | UnsupportedEventType
| UnsupportedField | DecisionInvalid

fun type_name :: "cma_inbound_type \<Rightarrow> string" where
  "type_name UserCustomToolResult = ''user.custom_tool_result''"
| "type_name UserInterrupt = ''user.interrupt''"
| "type_name UserMessage = ''user.message''"
| "type_name UserToolConfirmation = ''user.tool_confirmation''"

fun supportedFieldsByInboundType :: "cma_inbound_type \<Rightarrow> string list" where
  "supportedFieldsByInboundType UserCustomToolResult =
     [''argumentsJson'', ''commandId'', ''requestId'', ''serverId'', ''toolCallId'', ''toolName'', ''type'']"
| "supportedFieldsByInboundType UserInterrupt = [''commandId'', ''reason'', ''type'']"
| "supportedFieldsByInboundType UserMessage = [''commandId'', ''requestId'', ''runId'', ''text'', ''type'']"
| "supportedFieldsByInboundType UserToolConfirmation = [''commandId'', ''decision'', ''requestId'', ''type'']"

definition readString :: "json_object \<Rightarrow> string \<Rightarrow> cma_projection_error + string" where
  "readString m field =
     (case fmlookup m field of
        Some (JStr s) \<Rightarrow> if s = [] then Inl (NonEmptyStringRequired field) else Inr s
      | _ \<Rightarrow> Inl (NonEmptyStringRequired field))"

definition readOptionalString :: "json_object \<Rightarrow> string \<Rightarrow> cma_projection_error + string option" where
  "readOptionalString m field =
     (case fmlookup m field of
        None \<Rightarrow> Inr None
      | Some (JStr s) \<Rightarrow> Inr (Some s)
      | _ \<Rightarrow> Inl (StringRequired field))"

definition readInboundType :: "json \<Rightarrow> cma_projection_error + cma_inbound_type" where
  "readInboundType input =
     (if \<not> isRecord input then Inl ObjectRequired
      else case find (\<lambda>t. fmlookup (record_of input) ''type'' = Some (JStr (type_name t)))
             [UserCustomToolResult, UserInterrupt, UserMessage, UserToolConfirmation] of
        Some t \<Rightarrow> Inr t
      | None \<Rightarrow> Inl UnsupportedEventType)"

definition assertSupportedFields :: "cma_inbound_type \<Rightarrow> json_object \<Rightarrow> cma_projection_error + unit" where
  "assertSupportedFields t input =
     (if fmdom input |\<subseteq>| fset_of_list (supportedFieldsByInboundType t) then Inr () else Inl UnsupportedField)"

definition read_inbound_fields :: "cma_inbound_type \<Rightarrow> json_object \<Rightarrow> cma_projection_error + cma_inbound_event" where
  "read_inbound_fields t m =
     (case t of
        UserMessage \<Rightarrow>
          bindE (readString m ''commandId'') (\<lambda>commandId.
          bindE (readString m ''requestId'') (\<lambda>requestId.
          bindE (readString m ''runId'') (\<lambda>runId.
          bindE (readString m ''text'') (\<lambda>txt.
            Inr (InMessage \<lparr>um_commandId = commandId, um_requestId = requestId, um_runId = runId,
              um_text = txt\<rparr>)))))
      | UserInterrupt \<Rightarrow>
          bindE (readOptionalString m ''reason'') (\<lambda>reason.
          bindE (readString m ''commandId'') (\<lambda>commandId.
            Inr (InInterrupt \<lparr>ui_commandId = commandId, ui_reason = reason\<rparr>)))
      | UserToolConfirmation \<Rightarrow>
          bindE (readString m ''decision'') (\<lambda>decision.
          if decision \<noteq> ''allow_once'' \<and> decision \<noteq> ''reject_once'' then Inl DecisionInvalid
          else
          bindE (readString m ''commandId'') (\<lambda>commandId.
          bindE (readString m ''requestId'') (\<lambda>requestId.
            Inr (InToolConfirmation \<lparr>uc_commandId = commandId,
              uc_decision = (if decision = ''allow_once'' then ConfirmAllowOnce else ConfirmRejectOnce),
              uc_requestId = requestId\<rparr>))))
      | UserCustomToolResult \<Rightarrow>
          bindE (readString m ''argumentsJson'') (\<lambda>argumentsJson.
          bindE (readString m ''commandId'') (\<lambda>commandId.
          bindE (readString m ''requestId'') (\<lambda>requestId.
          bindE (readString m ''serverId'') (\<lambda>serverId.
          bindE (readString m ''toolCallId'') (\<lambda>toolCallId.
          bindE (readString m ''toolName'') (\<lambda>toolName.
            Inr (InCustomToolResult \<lparr>ur_argumentsJson = argumentsJson, ur_commandId = commandId,
              ur_requestId = requestId, ur_serverId = serverId, ur_toolCallId = toolCallId,
              ur_toolName = toolName\<rparr>))))))))"

definition parseCmaInboundEvent :: "json \<Rightarrow> cma_projection_error + cma_inbound_event" where
  "parseCmaInboundEvent input =
     bindE (readInboundType input) (\<lambda>t.
     bindE (assertSupportedFields t (record_of input)) (\<lambda>_.
       read_inbound_fields t (record_of input)))"

text \<open>The commands.\<close>

datatype cma_driver_command =
  InputStart string string string string  \<comment> \<open>commandId, text, requestId, runId\<close>
| TurnCancelCommand string "string option"  \<comment> \<open>commandId, reason\<close>
| PermissionResolve string confirmation_decision string  \<comment> \<open>commandId, decision, requestId\<close>
| McpExecute string string string string string string
    \<comment> \<open>argumentsJson, commandId, requestId, serverId, toolCallId, toolName\<close>

definition projectCmaInboundToDriverCommand :: "json \<Rightarrow> cma_projection_error + cma_driver_command" where
  "projectCmaInboundToDriverCommand input =
     bindE (parseCmaInboundEvent input) (\<lambda>event. Inr (case event of
       InMessage m \<Rightarrow> InputStart (um_commandId m) (um_text m) (um_requestId m) (um_runId m)
     | InInterrupt i \<Rightarrow> TurnCancelCommand (ui_commandId i) (ui_reason i)
     | InToolConfirmation c \<Rightarrow> PermissionResolve (uc_commandId c) (uc_decision c) (uc_requestId c)
     | InCustomToolResult r \<Rightarrow> McpExecute (ur_argumentsJson r) (ur_commandId r) (ur_requestId r)
         (ur_serverId r) (ur_toolCallId r) (ur_toolName r)))"

section \<open>Outbound events\<close>

datatype cma_session_status = StatusIdle | StatusRescheduling | StatusRunning | StatusTerminated

datatype cma_outbound_type =
  AgentCustomToolUse | AgentMcpToolUse | AgentMessage | AgentThinking | AgentToolUse | SessionError
| SessionStatus cma_session_status | SessionUsage

record cma_outbound_event =
  oe_error :: "json option"
  oe_message :: "json option"
  oe_metadata :: "json option"
  oe_requiresAction :: "json option"
  oe_sessionStatus :: "cma_session_status option"
  oe_sourceEventKind :: string
  oe_type :: cma_outbound_type
  oe_usage :: "json option"

definition outbound :: "string \<Rightarrow> cma_outbound_type \<Rightarrow> cma_outbound_event" where
  "outbound kind t =
     \<lparr>oe_error = None, oe_message = None, oe_metadata = None, oe_requiresAction = None,
      oe_sessionStatus = None, oe_sourceEventKind = kind, oe_type = t, oe_usage = None\<rparr>"

definition readToolEventType :: "json_object \<Rightarrow> cma_outbound_type" where
  "readToolEventType payload =
     (if fmlookup payload ''kind'' = Some (JStr ''mcp'') then AgentMcpToolUse
      else if fmlookup payload ''kind'' = Some (JStr ''custom'') then AgentCustomToolUse
      else AgentToolUse)"

definition isRecoverableFailure :: "json_object \<Rightarrow> bool" where
  "isRecoverableFailure payload \<longleftrightarrow>
     fmlookup payload ''recoverable'' = Some (JBool True)
     \<or> (case fmlookup payload ''error'' of
          Some error \<Rightarrow> isRecord error \<and> fmlookup (record_of error) ''retryable'' = Some (JBool True)
        | None \<Rightarrow> False)"

definition required_action_fields :: "string list" where
  "required_action_fields =
    [''agentId'', ''blockedPath'', ''decisionReason'', ''details'', ''description'', ''matchedAskRule'',
     ''requestId'', ''targetItemId'', ''title'', ''toolCall'']"

definition message_kinds :: "string list" where
  "message_kinds = [''message.added'', ''message.cancelled'', ''message.completed'', ''message.delta'',
     ''message.failed'', ''message.started'']"

definition thought_kinds :: "string list" where
  "thought_kinds = [''thought.cancelled'', ''thought.completed'', ''thought.delta'', ''thought.started'',
     ''thought.updated'']"

definition projectDriverEventToCma :: "string \<Rightarrow> json \<Rightarrow> cma_outbound_event list" where
  "projectDriverEventToCma kind payloadValue =
     (let payload = record_of payloadValue; body = Some (JObj payload)
      in if kind \<in> set message_kinds then [(outbound kind AgentMessage)\<lparr>oe_message := body\<rparr>]
         else if kind \<in> set thought_kinds then [(outbound kind AgentThinking)\<lparr>oe_message := body\<rparr>]
         else if kind = ''tool.call.updated''
         then [(outbound kind (readToolEventType payload))\<lparr>oe_message := body\<rparr>]
         else if kind = ''permission.requested''
         then [(outbound kind (SessionStatus StatusIdle))
                 \<lparr>oe_requiresAction := Some (JObj (fmfilter (\<lambda>k. k \<in> set required_action_fields) payload)),
                  oe_sessionStatus := Some StatusIdle\<rparr>]
         else if kind = ''permission.resolved''
         then [(outbound kind (SessionStatus StatusRunning))
                 \<lparr>oe_metadata := Some (JObj (fmap_of_list [(''permissionResult'', JObj payload)])),
                  oe_sessionStatus := Some StatusRunning\<rparr>]
         else if kind = ''run.started''
         then [(outbound kind (SessionStatus StatusRunning))
                 \<lparr>oe_metadata := body, oe_sessionStatus := Some StatusRunning\<rparr>]
         else if kind = ''run.waiting'' \<or> kind = ''run.cancelled'' \<or> kind = ''run.completed''
         then [(outbound kind (SessionStatus StatusIdle))
                 \<lparr>oe_metadata := Some (JObj (fmfilter (\<lambda>k. k \<noteq> ''checkpoint'') payload)),
                  oe_sessionStatus := Some StatusIdle\<rparr>]
         else if kind = ''run.failed''
         then (let recoverable = isRecoverableFailure payload
               in [(outbound kind (if recoverable then SessionStatus StatusRescheduling else SessionError))
                     \<lparr>oe_error := body,
                      oe_sessionStatus := Some (if recoverable then StatusRescheduling else StatusTerminated)\<rparr>])
         else if kind = ''usage.updated'' then [(outbound kind SessionUsage)\<lparr>oe_usage := body\<rparr>]
         else [])"

section \<open>Parsing is exact\<close>

text \<open>The JSON a client sends for an event.\<close>

fun inbound_fields :: "cma_inbound_event \<Rightarrow> (string \<times> json) list" where
  "inbound_fields (InMessage m) =
     [(''commandId'', JStr (um_commandId m)), (''requestId'', JStr (um_requestId m)),
      (''runId'', JStr (um_runId m)), (''text'', JStr (um_text m)), (''type'', JStr ''user.message'')]"
| "inbound_fields (InInterrupt i) =
     (''commandId'', JStr (ui_commandId i)) # (''type'', JStr ''user.interrupt'')
      # (case ui_reason i of None \<Rightarrow> [] | Some reason \<Rightarrow> [(''reason'', JStr reason)])"
| "inbound_fields (InToolConfirmation c) =
     [(''commandId'', JStr (uc_commandId c)),
      (''decision'', JStr (case uc_decision c of ConfirmAllowOnce \<Rightarrow> ''allow_once'' | ConfirmRejectOnce \<Rightarrow> ''reject_once'')),
      (''requestId'', JStr (uc_requestId c)), (''type'', JStr ''user.tool_confirmation'')]"
| "inbound_fields (InCustomToolResult r) =
     [(''argumentsJson'', JStr (ur_argumentsJson r)), (''commandId'', JStr (ur_commandId r)),
      (''requestId'', JStr (ur_requestId r)), (''serverId'', JStr (ur_serverId r)),
      (''toolCallId'', JStr (ur_toolCallId r)), (''toolName'', JStr (ur_toolName r)),
      (''type'', JStr ''user.custom_tool_result'')]"

definition inbound_json :: "cma_inbound_event \<Rightarrow> json" where
  "inbound_json e = JObj (fmap_of_list (inbound_fields e))"

fun inbound_ok :: "cma_inbound_event \<Rightarrow> bool" where
  "inbound_ok (InMessage m) \<longleftrightarrow>
     um_commandId m \<noteq> [] \<and> um_requestId m \<noteq> [] \<and> um_runId m \<noteq> [] \<and> um_text m \<noteq> []"
| "inbound_ok (InInterrupt i) \<longleftrightarrow> ui_commandId i \<noteq> []"
| "inbound_ok (InToolConfirmation c) \<longleftrightarrow> uc_commandId c \<noteq> [] \<and> uc_requestId c \<noteq> []"
| "inbound_ok (InCustomToolResult r) \<longleftrightarrow> ur_argumentsJson r \<noteq> [] \<and> ur_commandId r \<noteq> []
     \<and> ur_requestId r \<noteq> [] \<and> ur_serverId r \<noteq> [] \<and> ur_toolCallId r \<noteq> [] \<and> ur_toolName r \<noteq> []"

lemma readString_iff: "readString m k = Inr s \<longleftrightarrow> fmlookup m k = Some (JStr s) \<and> s \<noteq> []"
  by (auto simp: readString_def split: option.split json.split)

lemma readOptionalString_iff: "readOptionalString m k = Inr s \<longleftrightarrow> fmlookup m k = map_option JStr s"
  by (cases s) (auto simp: readOptionalString_def split: option.split json.split)

lemma assertSupportedFields_iff:
  "assertSupportedFields t m = Inr () \<longleftrightarrow> (\<forall>k. k \<notin> set (supportedFieldsByInboundType t) \<longrightarrow> fmlookup m k = None)"
proof -
  have "fmdom m |\<subseteq>| fset_of_list xs \<longleftrightarrow> (\<forall>k. k \<notin> set xs \<longrightarrow> fmlookup m k = None)" for xs
    by (auto simp: fsubset_iff fset_of_list_elem fmlookup_dom_iff)
  then show ?thesis by (simp add: assertSupportedFields_def)
qed

lemma readInboundType_iff:
  "readInboundType input = Inr t \<longleftrightarrow> (\<exists>m. input = JObj m \<and> fmlookup m ''type'' = Some (JStr (type_name t)))"
  by (cases input; cases t) (auto simp: readInboundType_def)

lemma fmap_of_list_eqI:
  assumes "\<forall>k. k \<notin> set ks \<longrightarrow> fmlookup m k = None" "fst ` set xs \<subseteq> set ks"
    "\<forall>k\<in>set ks. fmlookup m k = map_of xs k"
  shows "m = fmap_of_list xs"
proof (rule fmap_ext)
  fix k
  show "fmlookup m k = fmlookup (fmap_of_list xs) k"
  proof (cases "k \<in> set ks")
    case False
    then have "k \<notin> fst ` set xs" using assms(2) by blast
    then have "map_of xs k = None" by (simp add: map_of_eq_None_iff)
    then show ?thesis using assms(1) False by (simp add: fmlookup_of_list)
  qed (use assms(3) in \<open>simp add: fmlookup_of_list\<close>)
qed

fun inbound_type :: "cma_inbound_event \<Rightarrow> cma_inbound_type" where
  "inbound_type (InMessage _) = UserMessage"
| "inbound_type (InInterrupt _) = UserInterrupt"
| "inbound_type (InToolConfirmation _) = UserToolConfirmation"
| "inbound_type (InCustomToolResult _) = UserCustomToolResult"

lemma inbound_json_type: "map_of (inbound_fields e) ''type'' = Some (JStr (type_name (inbound_type e)))"
  by (cases e) (simp_all split: option.split)

lemma inbound_json_names: "fst ` set (inbound_fields e) \<subseteq> set (supportedFieldsByInboundType (inbound_type e))"
proof (cases e)
  case (InInterrupt i)
  then show ?thesis by (cases "ui_reason i") simp_all
qed simp_all

lemma inbound_json_fields:
  assumes "k \<notin> set (supportedFieldsByInboundType (inbound_type e))"
  shows "map_of (inbound_fields e) k = None"
proof -
  have "k \<notin> fst ` set (inbound_fields e)" using assms inbound_json_names by blast
  then show ?thesis by (simp add: map_of_eq_None_iff)
qed

lemma parse_accepts:
  assumes "inbound_ok e"
  shows "parseCmaInboundEvent (inbound_json e) = Inr e"
proof -
  have "readInboundType (inbound_json e) = Inr (inbound_type e)"
    by (simp add: readInboundType_iff inbound_json_def fmlookup_of_list inbound_json_type)
  moreover have "assertSupportedFields (inbound_type e) (record_of (inbound_json e)) = Inr ()"
    by (simp add: assertSupportedFields_iff inbound_json_def fmlookup_of_list inbound_json_fields)
  ultimately have parsed: "parseCmaInboundEvent (inbound_json e)
      = read_inbound_fields (inbound_type e) (record_of (inbound_json e))"
    by (simp add: parseCmaInboundEvent_def)
  show ?thesis
  proof (cases e)
    case (InMessage r)
    then show ?thesis using assms parsed
      by (simp add: inbound_json_def read_inbound_fields_def readString_def fmlookup_of_list)
  next
    case (InInterrupt r)
    then show ?thesis using assms parsed
      by (cases "ui_reason r")
        (simp_all add: inbound_json_def read_inbound_fields_def readString_def readOptionalString_def fmlookup_of_list)
  next
    case (InToolConfirmation r)
    then show ?thesis using assms parsed
      by (cases "uc_decision r") (simp_all add: inbound_json_def read_inbound_fields_def readString_def fmlookup_of_list)
  next
    case (InCustomToolResult r)
    then show ?thesis using assms parsed
      by (simp add: inbound_json_def read_inbound_fields_def readString_def fmlookup_of_list)
  qed
qed

lemma parse_result:
  assumes "parseCmaInboundEvent input = Inr e"
  shows "input = inbound_json e \<and> inbound_ok e"
proof -
  obtain t where t: "readInboundType input = Inr t" and fields: "assertSupportedFields t (record_of input) = Inr ()"
    and read: "read_inbound_fields t (record_of input) = Inr e"
    using assms unfolding parseCmaInboundEvent_def by (auto elim!: bindE_InrE)
  obtain m' where m': "input = JObj m'" "fmlookup m' ''type'' = Some (JStr (type_name t))"
    using t by (auto simp: readInboundType_iff)
  define m where "m = m'"
  have m: "input = JObj m" "fmlookup m ''type'' = Some (JStr (type_name t))"
    "\<forall>k. k \<notin> set (supportedFieldsByInboundType t) \<longrightarrow> fmlookup m k = None"
    using m' fields by (simp_all add: m_def assertSupportedFields_iff)
  have parsed: "read_inbound_fields t m = Inr e" using read m(1) by simp
  show ?thesis
  proof (cases t)
    case UserMessage
    then obtain a b c d where abcd: "fmlookup m ''commandId'' = Some (JStr a)" "fmlookup m ''requestId'' = Some (JStr b)"
        "fmlookup m ''runId'' = Some (JStr c)" "fmlookup m ''text'' = Some (JStr d)"
        "a \<noteq> [] \<and> b \<noteq> [] \<and> c \<noteq> [] \<and> d \<noteq> []"
        "e = InMessage \<lparr>um_commandId = a, um_requestId = b, um_runId = c, um_text = d\<rparr>"
      using parsed by (auto simp: read_inbound_fields_def readString_iff)
    have "m = fmap_of_list [(''commandId'', JStr a), (''requestId'', JStr b), (''runId'', JStr c),
        (''text'', JStr d), (''type'', JStr ''user.message'')]"
      by (rule fmap_of_list_eqI [OF m(3)]) (use UserMessage m(2) abcd in simp_all)
    with abcd m(1) show ?thesis by (simp add: inbound_json_def)
  next
    case UserInterrupt
    then obtain a r where ar: "fmlookup m ''commandId'' = Some (JStr a)" "fmlookup m ''reason'' = map_option JStr r"
        "a \<noteq> []" "e = InInterrupt \<lparr>ui_commandId = a, ui_reason = r\<rparr>"
      using parsed by (auto simp: read_inbound_fields_def readString_iff readOptionalString_iff)
    have "m = fmap_of_list ((''commandId'', JStr a) # (''type'', JStr ''user.interrupt'')
        # (case r of None \<Rightarrow> [] | Some reason \<Rightarrow> [(''reason'', JStr reason)]))"
      by (rule fmap_of_list_eqI [OF m(3)]) (use UserInterrupt m(2) ar in \<open>auto split: option.split\<close>)
    with ar m(1) show ?thesis by (simp add: inbound_json_def)
  next
    case UserToolConfirmation
    then obtain a d b where adb: "fmlookup m ''commandId'' = Some (JStr a)" "fmlookup m ''requestId'' = Some (JStr b)"
        "fmlookup m ''decision'' = Some (JStr (case d of ConfirmAllowOnce \<Rightarrow> ''allow_once'' | ConfirmRejectOnce \<Rightarrow> ''reject_once''))"
        "a \<noteq> []" "b \<noteq> []" "e = InToolConfirmation \<lparr>uc_commandId = a, uc_decision = d, uc_requestId = b\<rparr>"
      using parsed by (auto simp: read_inbound_fields_def readString_iff split: if_splits)
    have "m = fmap_of_list [(''commandId'', JStr a),
        (''decision'', JStr (case d of ConfirmAllowOnce \<Rightarrow> ''allow_once'' | ConfirmRejectOnce \<Rightarrow> ''reject_once'')),
        (''requestId'', JStr b), (''type'', JStr ''user.tool_confirmation'')]"
      by (rule fmap_of_list_eqI [OF m(3)]) (use UserToolConfirmation m(2) adb in simp_all)
    with adb m(1) show ?thesis by (simp add: inbound_json_def)
  next
    case UserCustomToolResult
    then obtain a b c d f g where ag: "fmlookup m ''argumentsJson'' = Some (JStr a)"
        "fmlookup m ''commandId'' = Some (JStr b)" "fmlookup m ''requestId'' = Some (JStr c)"
        "fmlookup m ''serverId'' = Some (JStr d)" "fmlookup m ''toolCallId'' = Some (JStr f)"
        "fmlookup m ''toolName'' = Some (JStr g)"
        "a \<noteq> [] \<and> b \<noteq> [] \<and> c \<noteq> [] \<and> d \<noteq> [] \<and> f \<noteq> [] \<and> g \<noteq> []"
        "e = InCustomToolResult \<lparr>ur_argumentsJson = a, ur_commandId = b, ur_requestId = c, ur_serverId = d,
           ur_toolCallId = f, ur_toolName = g\<rparr>"
      using parsed by (auto simp: read_inbound_fields_def readString_iff)
    have "m = fmap_of_list [(''argumentsJson'', JStr a), (''commandId'', JStr b), (''requestId'', JStr c),
        (''serverId'', JStr d), (''toolCallId'', JStr f), (''toolName'', JStr g),
        (''type'', JStr ''user.custom_tool_result'')]"
      by (rule fmap_of_list_eqI [OF m(3)]) (use UserCustomToolResult m(2) ag in simp_all)
    with ag m(1) show ?thesis by (simp add: inbound_json_def)
  qed
qed

lemma parse_exact: "parseCmaInboundEvent input = Inr e \<longleftrightarrow> input = inbound_json e \<and> inbound_ok e"
  using parse_accepts parse_result by blast

end
