(* ===== verification/Cma_Broker.thy ===== *)
theory Cma_Broker
  imports Cma_Projection Sse_Decoder
begin

text \<open>
  src/src/stores/memory/cma-event-broker.ts with the record types and limits of
  src/src/stores/cma-store.ts: the event log of each session and the live streams that replay
  it and follow it.  A platform stream calls \<open>pull\<close> when a read waits and \<open>cancel\<close> when its
  reader leaves; \<open>st_delivered\<close> is what the reader has been given.  The set of a session's
  subscribers is the set of its streams that are \<open>st_subscribed\<close>.  The record \<open>cma_codec\<close>
  holds \<open>TextEncoder.encode\<close> and \<open>JSON.stringify\<close>.
\<close>

section \<open>Records and errors\<close>

datatype command_status = CommandAccepted | CommandCompleted | CommandFailed

datatype event_direction = Inbound | Outbound

datatype cma_event = InboundEvent cma_inbound_event | OutboundEvent cma_outbound_event

record event_record =
  sr_command :: "cma_driver_command option"
  sr_commandResult :: "json option"
  sr_commandStatus :: "command_status option"
  sr_createdAt :: string
  sr_cursor :: string
  sr_direction :: event_direction
  sr_event :: cma_event
  sr_id :: string
  sr_sessionId :: string
  sr_updatedAt :: string

datatype cma_resource = AgentResource | EnvironmentResource | EventResource | SessionResource

datatype store_error =
  StoreConflict cma_resource string
| StoreNotFound cma_resource string
| SessionTerminated string
| RecordTooLarge
| EventTooLarge
| ReplayTooLarge
| TooManyStreams
| EventOfOtherSession string string
| MustBeLossless string
| InvalidDriverEvent string

definition CMA_MAX_REPLAY_BYTES :: nat where
  "CMA_MAX_REPLAY_BYTES = 8 * CMA_MAX_EVENT_BYTES"

definition CMA_MAX_STREAMS :: nat where
  "CMA_MAX_STREAMS = 64"

definition MAX_PENDING_SUBSCRIBER_EVENTS :: nat where
  "MAX_PENDING_SUBSCRIBER_EVENTS = 64"

record cma_codec =
  codec_utf8 :: "string \<Rightarrow> 8 word list"
  codec_stringify :: "event_record \<Rightarrow> string"

fun status_name :: "cma_session_status \<Rightarrow> string" where
  "status_name StatusIdle = ''idle''"
| "status_name StatusRescheduling = ''rescheduling''"
| "status_name StatusRunning = ''running''"
| "status_name StatusTerminated = ''terminated''"

fun outbound_type_name :: "cma_outbound_type \<Rightarrow> string" where
  "outbound_type_name AgentCustomToolUse = ''agent.custom_tool_use''"
| "outbound_type_name AgentMcpToolUse = ''agent.mcp_tool_use''"
| "outbound_type_name AgentMessage = ''agent.message''"
| "outbound_type_name AgentThinking = ''agent.thinking''"
| "outbound_type_name AgentToolUse = ''agent.tool_use''"
| "outbound_type_name SessionError = ''session.error''"
| "outbound_type_name (SessionStatus s) = ''session.status_'' @ status_name s"
| "outbound_type_name SessionUsage = ''session.usage''"

fun inbound_event_type :: "cma_inbound_event \<Rightarrow> cma_inbound_type" where
  "inbound_event_type (InMessage _) = UserMessage"
| "inbound_event_type (InInterrupt _) = UserInterrupt"
| "inbound_event_type (InToolConfirmation _) = UserToolConfirmation"
| "inbound_event_type (InCustomToolResult _) = UserCustomToolResult"

fun event_type_name :: "cma_event \<Rightarrow> string" where
  "event_type_name (InboundEvent e) = type_name (inbound_event_type e)"
| "event_type_name (OutboundEvent e) = outbound_type_name (oe_type e)"

fun event_status :: "cma_event \<Rightarrow> cma_session_status option" where
  "event_status (InboundEvent _) = None"
| "event_status (OutboundEvent e) = oe_sessionStatus e"

definition isTerminalEvent :: "event_record \<Rightarrow> bool" where
  "isTerminalEvent r \<longleftrightarrow> event_status (sr_event r) = Some StatusTerminated"

definition assertFrame :: "cma_codec \<Rightarrow> event_record \<Rightarrow> store_error + nat" where
  "assertFrame codec r =
     (case encodeCmaSseRecord (codec_utf8 codec) (codec_stringify codec) sr_cursor
             (\<lambda>r. event_type_name (sr_event r)) r of
        Inl _ \<Rightarrow> Inl RecordTooLarge
      | Inr bytes \<Rightarrow> Inr (length bytes))"

section \<open>Logs\<close>

datatype stream_error = SubscriberByteLimit | SlowConsumerLimit

record cma_stream =
  st_sessionId :: string
  st_replay :: "event_record list"
  st_replayIndex :: nat
  st_pending :: "(nat \<times> event_record) list"
  st_pendingBytes :: nat
  st_accepting :: bool
  st_closed :: bool
  st_demanded :: bool
  st_registered :: bool
  st_subscribed :: bool
  st_error :: "stream_error option"
  st_delivered :: "event_record list"

record cma_broker =
  cb_events :: "string \<Rightarrow> event_record list"  \<comment> \<open>\<open>#eventsBySessionId\<close>, \<open>[]\<close> where it has no entry\<close>
  cb_streams :: "cma_stream list"
  cb_subscriberCount :: nat

definition new_cma_broker :: cma_broker where
  "new_cma_broker = \<lparr>cb_events = (\<lambda>_. []), cb_streams = [], cb_subscriberCount = 0\<rparr>"

definition broker_persist :: "cma_codec \<Rightarrow> event_record \<Rightarrow> cma_broker \<Rightarrow> store_error + cma_broker" where
  "broker_persist codec r b =
     bindE (assertFrame codec r) (\<lambda>_.
       Inr (b\<lparr>cb_events := (cb_events b)(sr_sessionId r := cb_events b (sr_sessionId r) @ [r])\<rparr>))"

fun find_record :: "string \<Rightarrow> event_record list \<Rightarrow> nat option" where
  "find_record i [] = None"
| "find_record i (r # rs) = (if sr_id r = i then Some 0 else map_option Suc (find_record i rs))"

definition broker_replace ::
    "cma_codec \<Rightarrow> string \<Rightarrow> string \<Rightarrow> event_record \<Rightarrow> cma_broker \<Rightarrow> store_error + cma_broker" where
  "broker_replace codec sessionId previousId updated b =
     bindE (assertFrame codec updated) (\<lambda>_.
       case find_record previousId (cb_events b sessionId) of
         None \<Rightarrow> Inl (StoreNotFound EventResource previousId)
       | Some i \<Rightarrow>
           Inr (b\<lparr>cb_events := (cb_events b)(sessionId :=
             take i (cb_events b sessionId) @ drop (Suc i) (cb_events b sessionId) @ [updated])\<rparr>))"

definition list_step ::
    "cma_codec \<Rightarrow> string option \<Rightarrow> nat \<times> event_record list \<Rightarrow> event_record
      \<Rightarrow> store_error + (nat \<times> event_record list)" where
  "list_step codec afterCursor acc event =
     (if (case afterCursor of None \<Rightarrow> False | Some c \<Rightarrow> sr_cursor event \<le> c) then Inr acc
      else bindE (assertFrame codec event) (\<lambda>eventBytes.
        if fst acc + eventBytes > CMA_MAX_REPLAY_BYTES then Inl ReplayTooLarge
        else Inr (fst acc + eventBytes, snd acc @ [event])))"

definition broker_list :: "cma_codec \<Rightarrow> string \<Rightarrow> string option \<Rightarrow> cma_broker \<Rightarrow> store_error + event_record list" where
  "broker_list codec sessionId afterCursor b =
     bindE (foldE (list_step codec afterCursor) (0, []) (cb_events b sessionId)) (\<lambda>(_, replay). Inr replay)"

section \<open>Streams\<close>

text \<open>\<open>release\<close> also unsubscribes; the second part is the number of streams given back.\<close>

definition release_stream :: "cma_stream \<Rightarrow> cma_stream \<times> nat" where
  "release_stream s =
     (if st_registered s then (s\<lparr>st_registered := False, st_subscribed := False\<rparr>, 1) else (s, 0))"

definition take_next :: "cma_stream \<Rightarrow> cma_stream" where
  "take_next s =
     (if st_replayIndex s < length (st_replay s)
      then s\<lparr>st_replayIndex := Suc (st_replayIndex s), st_demanded := False,
             st_delivered := st_delivered s @ [st_replay s ! st_replayIndex s]\<rparr>
      else case st_pending s of
        [] \<Rightarrow> s
      | (bytes, r) # rest \<Rightarrow>
          s\<lparr>st_pending := rest, st_pendingBytes := st_pendingBytes s - bytes, st_demanded := False,
            st_delivered := st_delivered s @ [r]\<rparr>)"

definition drain_stream :: "cma_stream \<Rightarrow> cma_stream \<times> nat" where
  "drain_stream s =
     (if st_closed s \<or> \<not> st_demanded s then (s, 0)
      else let t = take_next s in
        if st_replayIndex t \<ge> length (st_replay t) \<and> st_pending t = [] \<and> \<not> st_accepting t
        then release_stream (t\<lparr>st_closed := True\<rparr>)
        else (t, 0))"

definition push_record :: "nat \<Rightarrow> event_record \<Rightarrow> cma_stream \<Rightarrow> cma_stream \<times> nat" where
  "push_record bytes r s =
     (if \<not> st_accepting s then (s, 0)
      else if length (st_pending s) \<ge> MAX_PENDING_SUBSCRIBER_EVENTS
              \<or> st_pendingBytes s + bytes > CMA_MAX_EVENT_BYTES
      then release_stream (s\<lparr>st_accepting := False, st_closed := True,
             st_error := Some (if st_pendingBytes s + bytes > CMA_MAX_EVENT_BYTES
                               then SubscriberByteLimit else SlowConsumerLimit)\<rparr>)
      else let t = s\<lparr>st_pending := st_pending s @ [(bytes, r)], st_pendingBytes := st_pendingBytes s + bytes\<rparr>
           in drain_stream (if isTerminalEvent r then t\<lparr>st_accepting := False, st_subscribed := False\<rparr> else t))"

definition subscribed_to :: "string \<Rightarrow> cma_stream \<Rightarrow> bool" where
  "subscribed_to sessionId s \<longleftrightarrow> st_subscribed s \<and> st_sessionId s = sessionId"

definition map_streams :: "(cma_stream \<Rightarrow> cma_stream \<times> nat) \<Rightarrow> cma_broker \<Rightarrow> cma_broker" where
  "map_streams f b =
     b\<lparr>cb_streams := map (fst \<circ> f) (cb_streams b),
       cb_subscriberCount := cb_subscriberCount b - sum_list (map (snd \<circ> f) (cb_streams b))\<rparr>"

definition broker_publish :: "cma_codec \<Rightarrow> event_record \<Rightarrow> cma_broker \<Rightarrow> store_error + cma_broker" where
  "broker_publish codec r b =
     (if list_ex (subscribed_to (sr_sessionId r)) (cb_streams b)
      then bindE (assertFrame codec r) (\<lambda>bytes.
        Inr (map_streams (\<lambda>s. if subscribed_to (sr_sessionId r) s then push_record bytes r s else (s, 0)) b))
      else Inr b)"

definition new_stream :: "string \<Rightarrow> event_record list \<Rightarrow> bool \<Rightarrow> cma_stream" where
  "new_stream sessionId replay accepting =
     \<lparr>st_sessionId = sessionId, st_replay = replay, st_replayIndex = 0, st_pending = [], st_pendingBytes = 0,
      st_accepting = accepting, st_closed = False, st_demanded = False, st_registered = True,
      st_subscribed = accepting, st_error = None, st_delivered = []\<rparr>"

text \<open>\<open>[Symbol.asyncIterator]()\<close>: the new stream is the last.\<close>

definition broker_stream ::
    "cma_codec \<Rightarrow> string \<Rightarrow> string option \<Rightarrow> bool \<Rightarrow> cma_broker \<Rightarrow> store_error + cma_broker" where
  "broker_stream codec sessionId afterCursor acceptingInitially b =
     bindE (broker_list codec sessionId afterCursor b) (\<lambda>replay.
       if cb_subscriberCount b \<ge> CMA_MAX_STREAMS then Inl TooManyStreams
       else Inr (b\<lparr>cb_streams := cb_streams b @ [new_stream sessionId replay acceptingInitially],
                   cb_subscriberCount := Suc (cb_subscriberCount b)\<rparr>))"

definition pull_stream :: "cma_stream \<Rightarrow> cma_stream \<times> nat" where
  "pull_stream s = (if st_closed s then (s, 0) else drain_stream (s\<lparr>st_demanded := True\<rparr>))"

definition cancel_stream :: "cma_stream \<Rightarrow> cma_stream \<times> nat" where
  "cancel_stream s =
     (if st_closed s then (s, 0) else release_stream (s\<lparr>st_accepting := False, st_closed := True\<rparr>))"

definition on_stream :: "nat \<Rightarrow> (cma_stream \<Rightarrow> cma_stream \<times> nat) \<Rightarrow> cma_broker \<Rightarrow> cma_broker" where
  "on_stream k f b =
     (if k < length (cb_streams b)
      then b\<lparr>cb_streams := (cb_streams b)[k := fst (f (cb_streams b ! k))],
             cb_subscriberCount := cb_subscriberCount b - snd (f (cb_streams b ! k))\<rparr>
      else b)"

definition broker_pull :: "nat \<Rightarrow> cma_broker \<Rightarrow> cma_broker" where
  "broker_pull k = on_stream k pull_stream"

definition broker_cancel :: "nat \<Rightarrow> cma_broker \<Rightarrow> cma_broker" where
  "broker_cancel k = on_stream k cancel_stream"

section \<open>Any sequence of calls\<close>

datatype cma_broker_op =
  OpPersist event_record
| OpReplace string string event_record
| OpPublish event_record
| OpStream string "string option" bool
| OpPull nat
| OpCancel nat

text \<open>A call that throws leaves the broker as it was.\<close>

definition kept_if_thrown :: "store_error + cma_broker \<Rightarrow> cma_broker \<Rightarrow> cma_broker" where
  "kept_if_thrown r b = (case r of Inl _ \<Rightarrow> b | Inr b' \<Rightarrow> b')"

fun cma_broker_step :: "cma_codec \<Rightarrow> cma_broker \<Rightarrow> cma_broker_op \<Rightarrow> cma_broker" where
  "cma_broker_step codec b (OpPersist r) = kept_if_thrown (broker_persist codec r b) b"
| "cma_broker_step codec b (OpReplace sid i r) = kept_if_thrown (broker_replace codec sid i r b) b"
| "cma_broker_step codec b (OpPublish r) = kept_if_thrown (broker_publish codec r b) b"
| "cma_broker_step codec b (OpStream sid after acc) = kept_if_thrown (broker_stream codec sid after acc b) b"
| "cma_broker_step codec b (OpPull k) = broker_pull k b"
| "cma_broker_step codec b (OpCancel k) = broker_cancel k b"

definition cma_broker_run :: "cma_codec \<Rightarrow> cma_broker_op list \<Rightarrow> cma_broker \<Rightarrow> cma_broker" where
  "cma_broker_run codec ops b = foldl (cma_broker_step codec) b ops"

section \<open>Streams stay within their limits\<close>

definition stream_rest :: "cma_stream \<Rightarrow> event_record list" where
  "stream_rest s = drop (st_replayIndex s) (st_replay s) @ map snd (st_pending s)"

definition stream_ok :: "cma_stream \<Rightarrow> bool" where
  "stream_ok s \<longleftrightarrow>
     st_replayIndex s \<le> length (st_replay s)
     \<and> st_pendingBytes s = sum_list (map fst (st_pending s))
     \<and> st_pendingBytes s \<le> CMA_MAX_EVENT_BYTES
     \<and> length (st_pending s) \<le> MAX_PENDING_SUBSCRIBER_EVENTS
     \<and> st_registered s = (\<not> st_closed s)
     \<and> st_subscribed s = st_accepting s
     \<and> (st_accepting s \<longrightarrow> \<not> st_closed s)"

definition registered_count :: "cma_stream list \<Rightarrow> nat" where
  "registered_count ss = length (filter st_registered ss)"

definition cma_broker_ok :: "cma_broker \<Rightarrow> bool" where
  "cma_broker_ok b \<longleftrightarrow> list_all stream_ok (cb_streams b)
     \<and> cb_subscriberCount b = registered_count (cb_streams b) \<and> cb_subscriberCount b \<le> CMA_MAX_STREAMS"

text \<open>What one call does to one stream: it stays in order, and the count follows its registration.\<close>

definition stream_kept :: "(cma_stream \<Rightarrow> cma_stream \<times> nat) \<Rightarrow> cma_stream \<Rightarrow> bool" where
  "stream_kept f s \<longleftrightarrow>
     stream_ok (fst (f s))
     \<and> of_bool (st_registered (fst (f s))) + snd (f s) = (of_bool (st_registered s) :: nat)
     \<and> st_sessionId (fst (f s)) = st_sessionId s \<and> st_replay (fst (f s)) = st_replay s"

lemma take_next_ok:
  assumes "stream_ok s"
  shows "stream_ok (take_next s)" "st_registered (take_next s) = st_registered s"
    "st_closed (take_next s) = st_closed s" "st_accepting (take_next s) = st_accepting s"
    "st_sessionId (take_next s) = st_sessionId s" "st_replay (take_next s) = st_replay s"
    "st_subscribed (take_next s) = st_subscribed s" "st_error (take_next s) = st_error s"
    "st_delivered (take_next s) @ stream_rest (take_next s) = st_delivered s @ stream_rest s"
  using assms
  by (auto simp: take_next_def stream_ok_def stream_rest_def Cons_nth_drop_Suc [symmetric] split: list.split)

lemma drain_ok:
  assumes "stream_ok s"
  shows "stream_kept drain_stream s"
  using assms take_next_ok [OF assms]
  unfolding stream_kept_def drain_stream_def Let_def release_stream_def
  by (auto simp: stream_ok_def)

lemma push_ok:
  assumes "stream_ok s"
  shows "stream_kept (push_record bytes r) s"
proof (cases "st_accepting s \<and> length (st_pending s) < MAX_PENDING_SUBSCRIBER_EVENTS
    \<and> st_pendingBytes s + bytes \<le> CMA_MAX_EVENT_BYTES")
  case True
  define t where "t = s\<lparr>st_pending := st_pending s @ [(bytes, r)], st_pendingBytes := st_pendingBytes s + bytes\<rparr>"
  define u where "u = (if isTerminalEvent r then t\<lparr>st_accepting := False, st_subscribed := False\<rparr> else t)"
  have "stream_ok u" using assms True by (auto simp: u_def t_def stream_ok_def)
  moreover have "st_registered u = st_registered s" "st_sessionId u = st_sessionId s" "st_replay u = st_replay s"
    by (simp_all add: u_def t_def)
  moreover have "push_record bytes r s = drain_stream u"
    using True by (simp add: push_record_def u_def t_def)
  ultimately show ?thesis using drain_ok [of u] by (simp add: stream_kept_def)
next
  case False
  then show ?thesis using assms
    by (auto simp: stream_kept_def push_record_def release_stream_def stream_ok_def)
qed

lemma pull_ok: "stream_ok s \<Longrightarrow> stream_kept pull_stream s"
  using drain_ok [of "s\<lparr>st_demanded := True\<rparr>"]
  by (auto simp: stream_kept_def pull_stream_def stream_ok_def)

lemma cancel_ok: "stream_ok s \<Longrightarrow> stream_kept cancel_stream s"
  by (auto simp: stream_kept_def cancel_stream_def release_stream_def stream_ok_def)

lemma registered_count_map:
  assumes "list_all (stream_kept f) ss"
  shows "registered_count (map (fst \<circ> f) ss) + sum_list (map (snd \<circ> f) ss) = registered_count ss"
  using assms by (induction ss) (auto simp: registered_count_def stream_kept_def of_bool_def split: if_split_asm)

lemma map_streams_ok:
  assumes "cma_broker_ok b" "\<And>s. stream_ok s \<Longrightarrow> stream_kept f s"
  shows "cma_broker_ok (map_streams f b)"
proof -
  have "list_all (stream_kept f) (cb_streams b)"
    using assms by (auto simp: cma_broker_ok_def list_all_iff)
  from registered_count_map [OF this] this show ?thesis
    using assms(1) by (auto simp: cma_broker_ok_def map_streams_def list_all_iff stream_kept_def)
qed

lemma registered_count_update:
  assumes "k < length ss" "stream_kept f (ss ! k)"
  shows "registered_count (ss[k := fst (f (ss ! k))]) + snd (f (ss ! k)) = registered_count ss"
  using assms
proof (induction ss arbitrary: k)
  case (Cons s ss)
  then show ?case
    by (cases k) (auto simp: registered_count_def stream_kept_def of_bool_def split: if_split_asm)
qed simp

lemma on_stream_ok:
  assumes "cma_broker_ok b" "\<And>s. stream_ok s \<Longrightarrow> stream_kept f s"
  shows "cma_broker_ok (on_stream k f b)"
proof (cases "k < length (cb_streams b)")
  case True
  then have kept: "stream_kept f (cb_streams b ! k)"
    using assms by (simp add: cma_broker_ok_def list_all_length)
  then have "list_all stream_ok ((cb_streams b)[k := fst (f (cb_streams b ! k))])"
    using assms(1) True by (auto simp: cma_broker_ok_def list_all_length nth_list_update stream_kept_def)
  then show ?thesis
    using registered_count_update [OF True kept] assms(1) True
    by (auto simp: on_stream_def cma_broker_ok_def)
qed (use assms(1) in \<open>simp add: on_stream_def\<close>)

lemma cma_broker_step_ok:
  assumes "cma_broker_ok b"
  shows "cma_broker_ok (cma_broker_step codec b op)"
proof (cases op)
  case (OpPersist r)
  then show ?thesis using assms
    by (auto simp: kept_if_thrown_def broker_persist_def cma_broker_ok_def split: sum.split elim!: bindE_InrE)
next
  case (OpReplace sid i r)
  then show ?thesis using assms
    by (auto simp: kept_if_thrown_def broker_replace_def cma_broker_ok_def split: sum.split option.splits elim!: bindE_InrE)
next
  case (OpPublish r)
  have "cma_broker_ok b'" if "broker_publish codec r b = Inr b'" for b'
  proof (cases "list_ex (subscribed_to (sr_sessionId r)) (cb_streams b)")
    case True
    have "bindE (assertFrame codec r) (\<lambda>bytes. Inr (map_streams
        (\<lambda>s. if subscribed_to (sr_sessionId r) s then push_record bytes r s else (s, 0)) b)) = Inr b'"
      using that unfolding broker_publish_def if_P [OF True] .
    then obtain bytes where "b' = map_streams
        (\<lambda>s. if subscribed_to (sr_sessionId r) s then push_record bytes r s else (s, 0)) b"
      by (auto elim!: bindE_InrE)
    moreover have "cma_broker_ok (map_streams
        (\<lambda>s. if subscribed_to (sr_sessionId r) s then push_record bytes r s else (s, 0)) b)"
      by (rule map_streams_ok [OF assms]) (use push_ok in \<open>auto simp: stream_kept_def\<close>)
    ultimately show ?thesis by simp
  qed (use that assms in \<open>simp add: broker_publish_def\<close>)
  then show ?thesis using OpPublish assms by (auto simp: kept_if_thrown_def split: sum.split)
next
  case (OpStream sid after acc)
  then show ?thesis using assms
    by (auto simp: kept_if_thrown_def broker_stream_def cma_broker_ok_def new_stream_def stream_ok_def registered_count_def
      CMA_MAX_STREAMS_def split: sum.split if_splits elim!: bindE_InrE)
next
  case (OpPull k)
  then show ?thesis using on_stream_ok [OF assms pull_ok] by (simp add: broker_pull_def)
next
  case (OpCancel k)
  then show ?thesis using on_stream_ok [OF assms cancel_ok] by (simp add: broker_cancel_def)
qed

lemma cma_broker_run_ok: "cma_broker_ok b \<Longrightarrow> cma_broker_ok (cma_broker_run codec ops b)"
  by (induction ops arbitrary: b) (simp_all add: cma_broker_run_def cma_broker_step_ok)

lemma new_cma_broker_ok: "cma_broker_ok new_cma_broker"
  by (simp add: cma_broker_ok_def new_cma_broker_def registered_count_def CMA_MAX_STREAMS_def)

section \<open>A stream delivers its session in order\<close>

definition fits :: "cma_codec \<Rightarrow> event_record \<Rightarrow> bool" where
  "fits codec r \<longleftrightarrow> \<not> isl (assertFrame codec r)"

text \<open>The records published to a session by a sequence of calls.\<close>

fun published_to :: "cma_codec \<Rightarrow> string \<Rightarrow> cma_broker_op list \<Rightarrow> event_record list" where
  "published_to codec sid [] = []"
| "published_to codec sid (op # ops) =
     (case op of OpPublish r \<Rightarrow> if sr_sessionId r = sid \<and> fits codec r then [r] else [] | _ \<Rightarrow> [])
     @ published_to codec sid ops"

text \<open>
  The stream has been given, or still holds, its replay and the first \<open>n\<close> records published
  since it was opened, and all of them while it accepts.
\<close>

definition follows :: "event_record list \<Rightarrow> event_record list \<Rightarrow> cma_stream \<Rightarrow> bool" where
  "follows replay pubs s \<longleftrightarrow>
     (\<exists>n \<le> length pubs. st_delivered s @ stream_rest s = replay @ take n pubs
        \<and> (st_accepting s \<longrightarrow> n = length pubs))"

lemma follows_unchanged:
  assumes "follows replay pubs s" "st_delivered t @ stream_rest t = st_delivered s @ stream_rest s"
    "st_accepting t = st_accepting s \<or> \<not> st_accepting t"
  shows "follows replay pubs t"
  using assms unfolding follows_def by auto

lemma follows_skip:
  assumes "follows replay pubs s" "\<not> st_accepting s"
  shows "follows replay (pubs @ [r]) s"
  using assms unfolding follows_def by (metis append_eq_appendI le_SucI length_append_singleton take_append diff_is_0_eq take0 append_Nil2)

lemma release_view:
  "stream_rest (fst (release_stream s)) = stream_rest s"
  "st_delivered (fst (release_stream s)) = st_delivered s"
  "st_accepting (fst (release_stream s)) = st_accepting s"
  by (simp_all add: release_stream_def stream_rest_def)

lemma drain_view:
  assumes "stream_ok s"
  shows "st_delivered (fst (drain_stream s)) @ stream_rest (fst (drain_stream s)) = st_delivered s @ stream_rest s"
    and "st_accepting (fst (drain_stream s)) = st_accepting s"
  using take_next_ok(9,4) [OF assms]
  by (auto simp: drain_stream_def Let_def release_stream_def stream_rest_def)

lemma pull_follows:
  assumes "stream_ok s" "follows replay pubs s"
  shows "follows replay pubs (fst (pull_stream s))"
proof (cases "st_closed s")
  case False
  have ok: "stream_ok (s\<lparr>st_demanded := True\<rparr>)" using assms(1) by (simp add: stream_ok_def)
  show ?thesis
    by (rule follows_unchanged [OF assms(2)])
      (use drain_view [OF ok] False in \<open>simp_all add: pull_stream_def stream_rest_def\<close>)
qed (use assms(2) in \<open>simp add: pull_stream_def\<close>)

lemma cancel_follows:
  assumes "follows replay pubs s"
  shows "follows replay pubs (fst (cancel_stream s))"
  by (rule follows_unchanged [OF assms])
    (auto simp: cancel_stream_def release_stream_def stream_rest_def)

lemma push_follows:
  assumes "stream_ok s" "follows replay pubs s"
  shows "follows replay (pubs @ [r]) (fst (push_record bytes r s))"
proof (cases "st_accepting s")
  case False
  then show ?thesis using follows_skip [OF assms(2)] by (simp add: push_record_def)
next
  case True
  show ?thesis
  proof (cases "length (st_pending s) < MAX_PENDING_SUBSCRIBER_EVENTS
      \<and> st_pendingBytes s + bytes \<le> CMA_MAX_EVENT_BYTES")
    case fit: True
    define t where "t = s\<lparr>st_pending := st_pending s @ [(bytes, r)], st_pendingBytes := st_pendingBytes s + bytes\<rparr>"
    define u where "u = (if isTerminalEvent r then t\<lparr>st_accepting := False, st_subscribed := False\<rparr> else t)"
    have ok: "stream_ok u" using assms(1) fit True by (auto simp: u_def t_def stream_ok_def)
    have "st_delivered u @ stream_rest u = (st_delivered s @ stream_rest s) @ [r]"
      by (simp add: u_def t_def stream_rest_def)
    also have "\<dots> = replay @ pubs @ [r]" using assms(2) True by (auto simp: follows_def)
    finally have "follows replay (pubs @ [r]) u" unfolding follows_def by (intro exI [of _ "length (pubs @ [r])"]) simp
    then have "follows replay (pubs @ [r]) (fst (drain_stream u))"
      by (rule follows_unchanged) (use drain_view [OF ok] in simp_all)
    moreover have "push_record bytes r s = drain_stream u"
      using True fit by (simp add: push_record_def u_def t_def)
    ultimately show ?thesis by simp
  next
    case unfit: False
    define t where "t = s\<lparr>st_accepting := False, st_closed := True,
             st_error := Some (if st_pendingBytes s + bytes > CMA_MAX_EVENT_BYTES
                               then SubscriberByteLimit else SlowConsumerLimit)\<rparr>"
    have "follows replay pubs t" by (rule follows_unchanged [OF assms(2)]) (simp_all add: t_def stream_rest_def)
    then have "follows replay (pubs @ [r]) t" by (rule follows_skip) (simp add: t_def)
    then have "follows replay (pubs @ [r]) (fst (release_stream t))"
      by (rule follows_unchanged) (simp_all add: release_view)
    then show ?thesis using True unfit by (auto simp: push_record_def t_def)
  qed
qed

lemma broker_ok_stream: "cma_broker_ok b \<Longrightarrow> k < length (cb_streams b) \<Longrightarrow> stream_ok (cb_streams b ! k)"
  by (simp add: cma_broker_ok_def list_all_length)

text \<open>One call: the stream stays where it is and follows what the call published.\<close>

lemma step_follows:
  assumes "cma_broker_ok b" "k < length (cb_streams b)"
    "follows replay pubs (cb_streams b ! k)" "st_sessionId (cb_streams b ! k) = sid"
  shows "k < length (cb_streams (cma_broker_step codec b op))
    \<and> follows replay (pubs @ published_to codec sid [op]) (cb_streams (cma_broker_step codec b op) ! k)
    \<and> st_sessionId (cb_streams (cma_broker_step codec b op) ! k) = sid"
proof -
  let ?s = "cb_streams b ! k"
  have ok: "stream_ok ?s" using broker_ok_stream [OF assms(1,2)] .
  have on: ?thesis
    if "cma_broker_step codec b op = on_stream j f b" "published_to codec sid [op] = []"
      "stream_kept f ?s" "follows replay pubs (fst (f ?s))" for j f
    using that assms by (auto simp: on_stream_def nth_list_update stream_kept_def)
  show ?thesis
  proof (cases op)
    case (OpPersist r)
    then show ?thesis using assms
      by (auto simp: kept_if_thrown_def broker_persist_def split: sum.split elim!: bindE_InrE)
  next
    case (OpReplace sid' i r)
    then show ?thesis using assms
      by (auto simp: kept_if_thrown_def broker_replace_def split: sum.split option.splits elim!: bindE_InrE)
  next
    case (OpStream sid' after acc)
    then show ?thesis using assms
      by (auto simp: kept_if_thrown_def broker_stream_def nth_append split: sum.split if_splits elim!: bindE_InrE)
  next
    case (OpPull j)
    then show ?thesis using on [of j pull_stream] pull_ok [OF ok] pull_follows [OF ok assms(3)]
      by (simp add: broker_pull_def)
  next
    case (OpCancel j)
    then show ?thesis using on [of j cancel_stream] cancel_ok [OF ok] cancel_follows [OF assms(3)]
      by (simp add: broker_cancel_def)
  next
    case (OpPublish r)
    define f where "f = (\<lambda>bytes s. if subscribed_to (sr_sessionId r) s then push_record bytes r s else (s, 0))"
    consider bytes where "assertFrame codec r = Inr bytes"
        "cma_broker_step codec b op = map_streams (f bytes) b" "list_ex (subscribed_to (sr_sessionId r)) (cb_streams b)"
      | "cma_broker_step codec b op = b" "list_ex (subscribed_to (sr_sessionId r)) (cb_streams b)" "\<not> fits codec r"
      | "cma_broker_step codec b op = b" "\<not> list_ex (subscribed_to (sr_sessionId r)) (cb_streams b)"
      by (cases "list_ex (subscribed_to (sr_sessionId r)) (cb_streams b)"; cases "assertFrame codec r")
        (simp_all add: OpPublish broker_publish_def kept_if_thrown_def f_def fits_def)
    then show ?thesis
    proof cases
      case (1 bytes)
      have fit: "fits codec r" using 1(1) by (simp add: fits_def)
      have nth: "cb_streams (cma_broker_step codec b op) ! k = fst (f bytes ?s)"
        using 1(2) assms(2) by (simp add: map_streams_def)
      have "follows replay (pubs @ published_to codec sid [op]) (fst (f bytes ?s)) \<and> st_sessionId (fst (f bytes ?s)) = sid"
      proof (cases "subscribed_to (sr_sessionId r) ?s")
        case True
        then show ?thesis
          using push_follows [OF ok assms(3)] push_ok [OF ok, of bytes r] fit assms(4) OpPublish
          by (simp add: f_def stream_kept_def subscribed_to_def)
      next
        case False
        then have "sr_sessionId r = sid \<Longrightarrow> \<not> st_accepting ?s"
          using ok assms(4) by (simp add: subscribed_to_def stream_ok_def)
        then show ?thesis
          using False assms(3,4) follows_skip [OF assms(3)] fit OpPublish by (simp add: f_def)
      qed
      then show ?thesis using nth 1(2) assms(2) by (simp add: map_streams_def)
    next
      case 2
      then show ?thesis using assms OpPublish by simp
    next
      case 3
      then have "\<not> subscribed_to (sr_sessionId r) ?s" using assms(2) by (auto simp: list_ex_length)
      then have "sr_sessionId r = sid \<Longrightarrow> \<not> st_accepting ?s"
        using ok assms(4) by (simp add: subscribed_to_def stream_ok_def)
      then show ?thesis using 3 assms OpPublish follows_skip [OF assms(3)] by simp
    qed
  qed
qed

lemma published_to_append:
  "published_to codec sid (xs @ ys) = published_to codec sid xs @ published_to codec sid ys"
  by (induction xs) simp_all

lemma run_follows:
  assumes "cma_broker_ok b" "k < length (cb_streams b)"
    "follows replay pubs (cb_streams b ! k)" "st_sessionId (cb_streams b ! k) = sid"
  shows "k < length (cb_streams (cma_broker_run codec ops b))
    \<and> follows replay (pubs @ published_to codec sid ops) (cb_streams (cma_broker_run codec ops b) ! k)"
  using assms
proof (induction ops arbitrary: b pubs)
  case Nil
  then show ?case by (simp add: cma_broker_run_def)
next
  case (Cons op ops)
  note step = step_follows [OF Cons.prems, of codec op]
  have "published_to codec sid (op # ops) = published_to codec sid [op] @ published_to codec sid ops" by simp
  then show ?case
    using Cons.IH [of "cma_broker_step codec b op" "pubs @ published_to codec sid [op]"] step
      cma_broker_step_ok [OF Cons.prems(1)] by (simp add: cma_broker_run_def)
qed

lemma stream_delivers:
  assumes "cma_broker_ok b" "broker_list codec sid after b = Inr replay"
    "broker_stream codec sid after acc b = Inr b'"
  shows "length (cb_streams b) < length (cb_streams (cma_broker_run codec ops b'))
    \<and> follows replay (published_to codec sid ops) (cb_streams (cma_broker_run codec ops b') ! length (cb_streams b))"
proof -
  have b': "cb_streams b' = cb_streams b @ [new_stream sid replay acc]"
    using assms(2,3) by (auto simp: broker_stream_def split: if_split_asm)
  have "cma_broker_step codec b (OpStream sid after acc) = b'" using assms(3) by (simp add: kept_if_thrown_def)
  then have ok: "cma_broker_ok b'" using cma_broker_step_ok [OF assms(1)] by metis
  have "follows replay [] (new_stream sid replay acc)" by (simp add: follows_def new_stream_def stream_rest_def)
  then show ?thesis using run_follows [OF ok, of "length (cb_streams b)" replay "[]" sid] b'
    by (simp add: new_stream_def)
qed

section \<open>Reading a stream to its end\<close>

lemma take_next_rest:
  assumes "stream_ok s"
  shows "stream_rest (take_next s) = tl (stream_rest s)"
    "st_delivered (take_next s) = st_delivered s @ take 1 (stream_rest s)"
    "st_demanded (take_next s) = (st_demanded s \<and> stream_rest s = [])"
  using assms
  by (auto simp: take_next_def stream_ok_def stream_rest_def Cons_nth_drop_Suc [symmetric] tl_append split: list.split)

lemma rest_nil: "stream_ok s \<Longrightarrow> stream_rest s = [] \<longleftrightarrow> length (st_replay s) \<le> st_replayIndex s \<and> st_pending s = []"
  by (auto simp: stream_rest_def)

lemma pull_next:
  assumes "stream_ok s" "\<not> st_closed s"
  shows "stream_ok (fst (pull_stream s))"
    "st_delivered (fst (pull_stream s)) = st_delivered s @ take 1 (stream_rest s)"
    "stream_rest (fst (pull_stream s)) = tl (stream_rest s)"
    "st_accepting (fst (pull_stream s)) = st_accepting s"
    "st_closed (fst (pull_stream s)) = (\<not> st_accepting s \<and> tl (stream_rest s) = [])"
proof -
  define t where "t = take_next (s\<lparr>st_demanded := True\<rparr>)"
  have ok: "stream_ok (s\<lparr>st_demanded := True\<rparr>)" using assms(1) by (simp add: stream_ok_def)
  note t = take_next_ok [OF ok, folded t_def] take_next_rest [OF ok, folded t_def]
  have rest: "stream_rest (s\<lparr>st_demanded := True\<rparr>) = stream_rest s" by (simp add: stream_rest_def)
  have nil: "length (st_replay t) \<le> st_replayIndex t \<and> st_pending t = [] \<longleftrightarrow> tl (stream_rest s) = []"
    using rest_nil [OF t(1)] t(10) rest by simp
  have closed_rest: "stream_rest (t\<lparr>st_closed := True\<rparr>) = stream_rest t" by (simp add: stream_rest_def)
  have released: "st_closed (fst (release_stream u)) = st_closed u" for u by (simp add: release_stream_def)
  have pulled: "fst (pull_stream s) = (if tl (stream_rest s) = [] \<and> \<not> st_accepting s
      then fst (release_stream (t\<lparr>st_closed := True\<rparr>)) else t)"
    using assms(2) nil t(4) by (auto simp: pull_stream_def drain_stream_def Let_def t_def [symmetric])
  show "st_delivered (fst (pull_stream s)) = st_delivered s @ take 1 (stream_rest s)"
    "stream_rest (fst (pull_stream s)) = tl (stream_rest s)"
    "st_accepting (fst (pull_stream s)) = st_accepting s"
    "st_closed (fst (pull_stream s)) = (\<not> st_accepting s \<and> tl (stream_rest s) = [])"
    using t(3,4,10,11) rest assms(2) closed_rest released unfolding pulled
    by (auto simp: release_view)
  show "stream_ok (fst (pull_stream s))" using pull_ok [OF assms(1)] by (simp add: stream_kept_def)
qed

text \<open>
  A reader that keeps reading gets every record the stream holds, in order; a stream that
  accepts no more records closes with its last one.
\<close>

lemma pulls_drain:
  assumes "stream_ok s" "\<not> st_closed s"
  shows "st_delivered (((\<lambda>s. fst (pull_stream s)) ^^ n) s) = st_delivered s @ take n (stream_rest s)
    \<and> (st_closed (((\<lambda>s. fst (pull_stream s)) ^^ n) s)
         \<longleftrightarrow> \<not> st_accepting s \<and> 0 < n \<and> length (stream_rest s) \<le> n)"
  using assms
proof (induction n arbitrary: s)
  case 0
  then show ?case by simp
next
  case (Suc n)
  note next_s = pull_next [OF Suc.prems]
  let ?t = "fst (pull_stream s)"
  show ?case
  proof (cases "st_closed ?t")
    case True
    then have "((\<lambda>s. fst (pull_stream s)) ^^ n) ?t = ?t" by (induction n) (simp_all add: pull_stream_def funpow_swap1)
    moreover have "stream_rest s = [] \<or> (\<exists>r. stream_rest s = [r])"
      using True next_s(5) by (cases "stream_rest s") auto
    ultimately show ?thesis using True next_s by (auto simp: funpow_Suc_right simp del: funpow.simps)
  next
    case False
    have "take 1 xs @ take n (tl xs) = take (Suc n) xs" for xs :: "event_record list" by (cases xs) simp_all
    moreover have "\<not> st_accepting s \<Longrightarrow> 1 < length (stream_rest s)"
      using False next_s(5) by (cases "stream_rest s"; cases "tl (stream_rest s)") auto
    ultimately show ?thesis
      using Suc.IH [OF next_s(1) False] next_s by (auto simp: funpow_Suc_right simp del: funpow.simps)
  qed
qed

end
