(* ===== verification/Cma_Store.thy ===== *)
theory Cma_Store
  imports Cma_Broker Event_Admission "HOL-Library.AList"
begin

text \<open>
  src/src/stores/memory/cma-memory-store.ts: agents, environments and sessions, the driver
  events of a session as the records a client sees, and the claims that hand each inbound
  command to one worker.  Every operation runs without suspension, so it is a function of the
  store; it returns what it throws or answers together with the store it leaves, because
  some operations change the store before they throw.

  \<open>cma_world\<close> holds what the store reads from outside: \<open>w_now k\<close> is the \<open>k\<close>-th reading of the
  clock in milliseconds (of a year with four digits), \<open>w_ids k\<close> the \<open>k\<close>-th identifier that
  \<open>createDriverId\<close> (theory Driver_Id) returns to the store, \<open>w_factory\<close> the option
  \<open>idFactory\<close> (the \<open>k\<close>-th call), and the codecs.  \<open>listAgents\<close> and \<open>listEnvironments\<close>, which
  sort by the collation of the locale, are left out.
\<close>

section \<open>The store\<close>

record cma_world =
  w_now :: "nat \<Rightarrow> int"
  w_ids :: "nat \<Rightarrow> string"
  w_factory :: "(cma_resource \<Rightarrow> nat \<Rightarrow> string) option"
  w_codec :: cma_codec
  w_events :: event_env

record cma_agent =
  ca_createdAt :: string
  ca_id :: string
  ca_metadata :: json_object
  ca_name :: string
  ca_updatedAt :: string

record cma_environment =
  ce_archivedAt :: "string option"
  ce_config :: json
  ce_createdAt :: string
  ce_id :: string
  ce_metadata :: json_object
  ce_name :: string
  ce_updatedAt :: string

record cma_session =
  cs_agentId :: "string option"
  cs_createdAt :: string
  cs_environmentId :: "string option"
  cs_id :: string
  cs_metadata :: json_object
  cs_status :: cma_session_status
  cs_updatedAt :: string

record event_lease =
  el_expiresAt :: string
  el_id :: string
  el_renewAfter :: string

record inbound_claim =
  ic_lease :: event_lease
  ic_record :: event_record

record cma_store =
  sto_agents :: "string \<rightharpoonup> cma_agent"
  sto_environments :: "string \<rightharpoonup> cma_environment"
  sto_broker :: cma_broker
  sto_claims :: "string \<rightharpoonup> inbound_claim"
  sto_permissions :: "string \<rightharpoonup> (string \<times> json) list"
  sto_sessions :: "string \<rightharpoonup> cma_session"
  sto_sources :: "string \<rightharpoonup> runtime_event \<times> event_record list"
  sto_reads :: nat
  sto_calls :: nat
  sto_made :: nat

definition empty_store :: cma_store where
  "empty_store =
     \<lparr>sto_agents = Map.empty, sto_environments = Map.empty, sto_broker = new_cma_broker,
      sto_claims = Map.empty, sto_permissions = Map.empty, sto_sessions = Map.empty,
      sto_sources = Map.empty, sto_reads = 0, sto_calls = 0, sto_made = 0\<rparr>"

type_synonym 'a cma = "cma_store \<Rightarrow> (store_error + 'a) \<times> cma_store"

definition ret :: "'a \<Rightarrow> 'a cma" where
  "ret x s = (Inr x, s)"

definition throw :: "store_error \<Rightarrow> 'a cma" where
  "throw e s = (Inl e, s)"

definition bindC :: "'a cma \<Rightarrow> ('a \<Rightarrow> 'b cma) \<Rightarrow> 'b cma" where
  "bindC m f s = (case m s of (Inl e, s') \<Rightarrow> (Inl e, s') | (Inr x, s') \<Rightarrow> f x s')"

definition change :: "(cma_store \<Rightarrow> cma_store) \<Rightarrow> unit cma" where
  "change f s = (Inr (), f s)"

definition reading :: "(cma_store \<Rightarrow> 'a) \<Rightarrow> 'a cma" where
  "reading f s = (Inr (f s), s)"

definition lift_result :: "store_error + 'a \<Rightarrow> 'a cma" where
  "lift_result r s = (r, s)"

definition on_broker :: "(cma_broker \<Rightarrow> store_error + cma_broker) \<Rightarrow> unit cma" where
  "on_broker f s =
     (case f (sto_broker s) of Inl e \<Rightarrow> (Inl e, s) | Inr b \<Rightarrow> (Inr (), s\<lparr>sto_broker := b\<rparr>))"

section \<open>Identifiers, times and events\<close>

definition CLAIM_LEASE_MS :: int where
  "CLAIM_LEASE_MS = 30000"

definition CLAIM_RENEW_MS :: int where
  "CLAIM_RENEW_MS = 10000"

definition eventKey :: "string \<Rightarrow> string \<Rightarrow> string" where
  "eventKey sessionId i = sessionId @ [CHR 0x00] @ i"

definition read_clock :: "cma_world \<Rightarrow> int cma" where
  "read_clock w s = (Inr (w_now w (sto_reads s)), s\<lparr>sto_reads := Suc (sto_reads s)\<rparr>)"

definition nowIso :: "cma_world \<Rightarrow> string cma" where
  "nowIso w = bindC (read_clock w) (\<lambda>now. ret (toISOString now))"

definition newDriverId :: "cma_world \<Rightarrow> string cma" where
  "newDriverId w s = (Inr (w_ids w (sto_calls s)), s\<lparr>sto_calls := Suc (sto_calls s)\<rparr>)"

definition newId :: "cma_world \<Rightarrow> cma_resource \<Rightarrow> string cma" where
  "newId w resource s =
     (case w_factory w of
        None \<Rightarrow> newDriverId w s
      | Some f \<Rightarrow> (Inr (f resource (sto_made s)), s\<lparr>sto_made := Suc (sto_made s)\<rparr>))"

definition requireSession :: "string \<Rightarrow> cma_session cma" where
  "requireSession i s =
     (case sto_sessions s i of None \<Rightarrow> (Inl (StoreNotFound SessionResource i), s) | Some x \<Rightarrow> (Inr x, s))"

definition requireEnvironment :: "string \<Rightarrow> cma_environment cma" where
  "requireEnvironment i s =
     (case sto_environments s i of None \<Rightarrow> (Inl (StoreNotFound EnvironmentResource i), s) | Some x \<Rightarrow> (Inr x, s))"

definition requireClaim :: "string \<Rightarrow> string \<Rightarrow> inbound_claim cma" where
  "requireClaim sessionId commandId s =
     (case sto_claims s (eventKey sessionId commandId) of
        None \<Rightarrow> (Inl (StoreNotFound EventResource commandId), s)
      | Some x \<Rightarrow> (Inr x, s))"

definition createEvent ::
    "cma_world \<Rightarrow> cma_driver_command option \<Rightarrow> command_status option \<Rightarrow> event_direction \<Rightarrow> cma_event
      \<Rightarrow> string \<Rightarrow> event_record cma" where
  "createEvent w command commandStatus direction event sessionId =
     bindC (nowIso w) (\<lambda>now.
     bindC (newDriverId w) (\<lambda>cursor.
     bindC (newId w EventResource) (\<lambda>i.
       let r = \<lparr>sr_command = command, sr_commandResult = None, sr_commandStatus = commandStatus,
                sr_createdAt = now, sr_cursor = cursor, sr_direction = direction, sr_event = event,
                sr_id = i, sr_sessionId = sessionId, sr_updatedAt = now\<rparr>
       in bindC (lift_result (assertFrame (w_codec w) r)) (\<lambda>_. ret r))))"

definition createLease :: "cma_world \<Rightarrow> string option \<Rightarrow> event_lease cma" where
  "createLease w given =
     bindC (case given of None \<Rightarrow> newDriverId w | Some i \<Rightarrow> ret i) (\<lambda>i.
     bindC (read_clock w) (\<lambda>now.
       ret \<lparr>el_expiresAt = toISOString (now + CLAIM_LEASE_MS), el_id = i,
            el_renewAfter = toISOString (now + CLAIM_RENEW_MS)\<rparr>))"

section \<open>Agents, environments and sessions\<close>

definition given_or_new :: "cma_world \<Rightarrow> cma_resource \<Rightarrow> string option \<Rightarrow> string cma" where
  "given_or_new w resource given = (case given of None \<Rightarrow> newId w resource | Some i \<Rightarrow> ret i)"

definition putAgent :: "cma_world \<Rightarrow> string option \<Rightarrow> json_object option \<Rightarrow> string \<Rightarrow> cma_agent cma" where
  "putAgent w given metadata name =
     bindC (given_or_new w AgentResource given) (\<lambda>i.
     bindC (reading (\<lambda>s. sto_agents s i \<noteq> None)) (\<lambda>taken.
     if taken then throw (StoreConflict AgentResource i)
     else bindC (nowIso w) (\<lambda>now.
       let r = \<lparr>ca_createdAt = now, ca_id = i, ca_metadata = (case metadata of None \<Rightarrow> fmempty | Some m \<Rightarrow> m),
                ca_name = name, ca_updatedAt = now\<rparr>
       in bindC (change (\<lambda>s. s\<lparr>sto_agents := (sto_agents s)(i \<mapsto> r)\<rparr>)) (\<lambda>_. ret r))))"

text \<open>\<open>createDefaultCmaEnvironmentConfig\<close>.\<close>

definition default_environment_config :: json where
  "default_environment_config = JObj (fmap_of_list
     [(''networking'', JObj (fmap_of_list [(''type'', JStr ''unrestricted'')])),
      (''packages'', JObj fmempty), (''type'', JStr ''cloud'')])"

definition putEnvironment ::
    "cma_world \<Rightarrow> string option \<Rightarrow> json option \<Rightarrow> json_object option \<Rightarrow> string \<Rightarrow> cma_environment cma" where
  "putEnvironment w given config metadata name =
     bindC (given_or_new w EnvironmentResource given) (\<lambda>i.
     bindC (reading (\<lambda>s. sto_environments s i \<noteq> None)) (\<lambda>taken.
     if taken then throw (StoreConflict EnvironmentResource i)
     else bindC (nowIso w) (\<lambda>now.
       let r = \<lparr>ce_archivedAt = None,
                ce_config = (case config of None \<Rightarrow> default_environment_config | Some c \<Rightarrow> c),
                ce_createdAt = now, ce_id = i,
                ce_metadata = (case metadata of None \<Rightarrow> fmempty | Some m \<Rightarrow> m),
                ce_name = name, ce_updatedAt = now\<rparr>
       in bindC (change (\<lambda>s. s\<lparr>sto_environments := (sto_environments s)(i \<mapsto> r)\<rparr>)) (\<lambda>_. ret r))))"

definition putSession ::
    "cma_world \<Rightarrow> string option \<Rightarrow> string option \<Rightarrow> string option \<Rightarrow> json_object option \<Rightarrow> cma_session cma" where
  "putSession w given agentId environmentId metadata =
     bindC (given_or_new w SessionResource given) (\<lambda>i.
     bindC (reading (\<lambda>s. s)) (\<lambda>s.
     if sto_sessions s i \<noteq> None then throw (StoreConflict SessionResource i)
     else if (case agentId of None \<Rightarrow> False | Some a \<Rightarrow> sto_agents s a = None)
     then throw (StoreNotFound AgentResource (the agentId))
     else if (case environmentId of None \<Rightarrow> False | Some e \<Rightarrow> sto_environments s e = None)
     then throw (StoreNotFound EnvironmentResource (the environmentId))
     else bindC (nowIso w) (\<lambda>now.
       let r = \<lparr>cs_agentId = agentId, cs_createdAt = now, cs_environmentId = environmentId, cs_id = i,
                cs_metadata = (case metadata of None \<Rightarrow> fmempty | Some m \<Rightarrow> m), cs_status = StatusIdle,
                cs_updatedAt = now\<rparr>
       in bindC (change (\<lambda>s. s\<lparr>sto_sessions := (sto_sessions s)(i \<mapsto> r)\<rparr>)) (\<lambda>_. ret r))))"

definition archiveEnvironment :: "cma_world \<Rightarrow> string \<Rightarrow> cma_environment cma" where
  "archiveEnvironment w i =
     bindC (requireEnvironment i) (\<lambda>environment.
     bindC (case ce_archivedAt environment of None \<Rightarrow> nowIso w | Some t \<Rightarrow> ret t) (\<lambda>archivedAt.
     bindC (nowIso w) (\<lambda>now.
       let updated = environment\<lparr>ce_archivedAt := Some archivedAt, ce_updatedAt := now\<rparr>
       in bindC (change (\<lambda>s. s\<lparr>sto_environments := (sto_environments s)(i \<mapsto> updated)\<rparr>)) (\<lambda>_. ret updated))))"

definition deleteEnvironment :: "string \<Rightarrow> bool cma" where
  "deleteEnvironment i =
     bindC (reading (\<lambda>s. sto_environments s i \<noteq> None)) (\<lambda>present.
     bindC (change (\<lambda>s. s\<lparr>sto_environments := (sto_environments s)(i := None)\<rparr>)) (\<lambda>_. ret present))"

definition getAgent :: "string \<Rightarrow> cma_agent option cma" where
  "getAgent i = reading (\<lambda>s. sto_agents s i)"

definition getEnvironment :: "string \<Rightarrow> cma_environment option cma" where
  "getEnvironment i = reading (\<lambda>s. sto_environments s i)"

definition getSession :: "string \<Rightarrow> cma_session option cma" where
  "getSession i = reading (\<lambda>s. sto_sessions s i)"

section \<open>Driver events\<close>

text \<open>\<open>#nextSessionStatus\<close>: the new status, if any, and the pending permissions, which the code updates in place.\<close>

definition nextSessionStatus ::
    "cma_session_status \<Rightarrow> runtime_event \<Rightarrow> cma_session_status option \<Rightarrow> json option \<Rightarrow> (string \<times> json) list
      \<Rightarrow> cma_session_status option \<times> (string \<times> json) list" where
  "nextSessionStatus current event proposed requiresAction pending =
     (let payload = record_of (re_payload event);
          requestId = (case fmlookup payload ''requestId'' of Some (JStr i) \<Rightarrow> Some i | _ \<Rightarrow> None);
          kind = re_kind event
      in if kind = ''permission.requested'' then
           (Some (if current = StatusRescheduling then current else StatusIdle),
            case (requestId, requiresAction) of
              (Some i, Some action) \<Rightarrow> AList.update i action pending
            | _ \<Rightarrow> pending)
         else if kind = ''permission.resolved'' then
           (case requestId of
              None \<Rightarrow> (Some current, pending)
            | Some i \<Rightarrow>
                if i \<notin> fst ` set pending then (Some current, pending)
                else if current = StatusRescheduling then (Some current, AList.delete i pending)
                else (Some (if AList.delete i pending \<noteq> [] then StatusIdle else StatusRunning), AList.delete i pending))
         else if kind = ''run.started'' then (Some StatusRunning, [])
         else if kind = ''run.waiting''
         then (Some (if current = StatusRescheduling then current else StatusIdle), pending)
         else if kind = ''run.cancelled'' \<or> kind = ''run.completed'' then (Some StatusIdle, [])
         else if kind = ''run.failed'' then (proposed, [])
         else (proposed, pending))"

text \<open>The event a record shows: the type and status of the transition, and the action a session still waits for.\<close>

definition transition_event ::
    "cma_outbound_event \<Rightarrow> cma_session_status option \<Rightarrow> (string \<times> json) list \<Rightarrow> cma_outbound_event" where
  "transition_event projected status pending =
     (let pendingAction =
            (if status = Some StatusIdle then (case pending of [] \<Rightarrow> None | (_, a) # _ \<Rightarrow> Some a) else None);
          statusEvent =
            (case status of
               None \<Rightarrow> projected
             | Some s \<Rightarrow>
                 if oe_sessionStatus projected = None \<or> oe_sessionStatus projected = Some s then projected
                 else projected\<lparr>oe_sessionStatus := Some s, oe_type := SessionStatus s\<rparr>)
      in if pendingAction = None \<or> oe_requiresAction statusEvent \<noteq> None then statusEvent
         else statusEvent\<lparr>oe_requiresAction := pendingAction\<rparr>)"

fun transitions ::
    "cma_world \<Rightarrow> runtime_event \<Rightarrow> string \<Rightarrow> cma_outbound_event list \<Rightarrow> cma_session_status \<Rightarrow> (string \<times> json) list
      \<Rightarrow> ((event_record \<times> cma_session_status option) list \<times> (string \<times> json) list) cma" where
  "transitions w event sessionId [] current pending = ret ([], pending)"
| "transitions w event sessionId (projected # ps) current pending =
     (let (status, pending') = nextSessionStatus current event (oe_sessionStatus projected)
            (oe_requiresAction projected) pending;
          current' = (case status of None \<Rightarrow> current | Some s \<Rightarrow> s)
      in bindC (createEvent w None None Outbound (OutboundEvent (transition_event projected status pending')) sessionId) (\<lambda>r.
         bindC (transitions w event sessionId ps current' pending') (\<lambda>(rs, pending'').
           ret ((r, status) # rs, pending''))))"

definition updateSessionStatus :: "string \<Rightarrow> cma_session_status option \<Rightarrow> string \<Rightarrow> unit cma" where
  "updateSessionStatus sessionId status updatedAt =
     (case status of
        None \<Rightarrow> ret ()
      | Some st \<Rightarrow>
          bindC (requireSession sessionId) (\<lambda>session.
            change (\<lambda>s. s\<lparr>sto_sessions :=
              (sto_sessions s)(sessionId \<mapsto> session\<lparr>cs_status := st, cs_updatedAt := updatedAt\<rparr>)\<rparr>)))"

fun commit_transitions ::
    "cma_world \<Rightarrow> bool \<Rightarrow> string \<Rightarrow> (event_record \<times> cma_session_status option) list \<Rightarrow> unit cma" where
  "commit_transitions w persistent sessionId [] = ret ()"
| "commit_transitions w persistent sessionId ((r, status) # rest) =
     bindC (if persistent then on_broker (broker_persist (w_codec w) r) else ret ()) (\<lambda>_.
     bindC (updateSessionStatus sessionId status (sr_createdAt r)) (\<lambda>_.
     bindC (on_broker (broker_publish (w_codec w) r)) (\<lambda>_.
       commit_transitions w persistent sessionId rest)))"

definition remember_source :: "string option \<Rightarrow> runtime_event \<Rightarrow> event_record list \<Rightarrow> unit cma" where
  "remember_source sourceKey event records =
     (case sourceKey of
        None \<Rightarrow> ret ()
      | Some k \<Rightarrow> change (\<lambda>s. s\<lparr>sto_sources := (sto_sources s)(k \<mapsto> (event, records))\<rparr>))"

definition set_permissions :: "string \<Rightarrow> (string \<times> json) list \<Rightarrow> unit cma" where
  "set_permissions sessionId pending =
     change (\<lambda>s. s\<lparr>sto_permissions :=
       (sto_permissions s)(sessionId := (if pending = [] then None else Some pending))\<rparr>)"

text \<open>The checks of \<open>appendDriverEvent\<close> before it looks for an earlier delivery.\<close>

definition admit_driver_event :: "cma_world \<Rightarrow> string \<Rightarrow> json \<Rightarrow> store_error + runtime_event" where
  "admit_driver_event w sessionId driverEvent =
     (case parseRuntimeEventEnvelope (w_events w) driverEvent of
        Inl message \<Rightarrow> Inl (InvalidDriverEvent message)
      | Inr event \<Rightarrow>
          if re_sessionId event \<noteq> sessionId then Inl (EventOfOtherSession (re_sessionId event) sessionId)
          else if json_bytes (w_events w) (event_json event) > CMA_MAX_EVENT_BYTES then Inl EventTooLarge
          else if re_delivery event \<noteq> ''lossless''
                  \<and> list_ex (\<lambda>e. oe_sessionStatus e \<noteq> None)
                      (projectDriverEventToCma (re_kind event) (re_payload event))
          then Inl (MustBeLossless (re_kind event))
          else Inr event)"

definition source_of :: "runtime_event \<Rightarrow> string" where
  "source_of event = (case re_sourceEventId event of None \<Rightarrow> re_id event | Some i \<Rightarrow> i)"

definition source_key :: "string \<Rightarrow> runtime_event \<Rightarrow> string option" where
  "source_key sessionId event =
     (if re_delivery event = ''lossless'' then Some (eventKey sessionId (source_of event)) else None)"

definition append_new :: "cma_world \<Rightarrow> string \<Rightarrow> cma_session \<Rightarrow> runtime_event \<Rightarrow> event_record list cma" where
  "append_new w sessionId session event =
     bindC (reading (\<lambda>s. case sto_permissions s sessionId of None \<Rightarrow> [] | Some ps \<Rightarrow> ps)) (\<lambda>permissions.
     bindC (transitions w event sessionId (projectDriverEventToCma (re_kind event) (re_payload event))
              (cs_status session) permissions) (\<lambda>(ts, pending).
     bindC (set_permissions sessionId pending) (\<lambda>_.
     bindC (commit_transitions w (re_delivery event = ''lossless'') sessionId ts) (\<lambda>_.
     bindC (remember_source (source_key sessionId event) event (map fst ts)) (\<lambda>_.
       ret (map fst ts))))))"

definition appendDriverEvent :: "cma_world \<Rightarrow> string \<Rightarrow> json \<Rightarrow> event_record list cma" where
  "appendDriverEvent w sessionId driverEvent =
     bindC (requireSession sessionId) (\<lambda>session.
     bindC (lift_result (admit_driver_event w sessionId driverEvent)) (\<lambda>event.
     bindC (reading (\<lambda>s. Option.bind (source_key sessionId event) (sto_sources s))) (\<lambda>existing.
     case existing of
       Some (old, records) \<Rightarrow>
         if old\<lparr>re_id := re_id event, re_occurredAt := re_occurredAt event\<rparr> \<noteq> event
         then throw (StoreConflict EventResource (source_of event))
         else ret records
     | None \<Rightarrow>
         if cs_status session = StatusTerminated
            \<or> (re_visibility event \<noteq> ''participant'' \<and> re_visibility event \<noteq> ''public'')
         then bindC (remember_source (source_key sessionId event) event []) (\<lambda>_. ret [])
         else append_new w sessionId session event)))"

section \<open>Inbound commands\<close>

fun command_id :: "cma_driver_command \<Rightarrow> string" where
  "command_id (InputStart i _ _ _) = i"
| "command_id (TurnCancelCommand i _) = i"
| "command_id (PermissionResolve i _ _) = i"
| "command_id (McpExecute _ i _ _ _ _) = i"

datatype claim_result = Claimed event_record event_lease | AlreadyClaimed event_record

definition claimInboundEvent :: "cma_world \<Rightarrow> string \<Rightarrow> cma_driver_command \<Rightarrow> cma_inbound_event \<Rightarrow> claim_result cma" where
  "claimInboundEvent w sessionId command event =
     bindC (requireSession sessionId) (\<lambda>session.
     bindC (reading (\<lambda>s. sto_claims s (eventKey sessionId (command_id command)))) (\<lambda>existing.
     case existing of
       Some claim \<Rightarrow>
         if sr_command (ic_record claim) \<noteq> Some command \<or> sr_event (ic_record claim) \<noteq> InboundEvent event
         then throw (StoreConflict EventResource (command_id command))
         else if sr_commandStatus (ic_record claim) = Some CommandAccepted \<and> cs_status session = StatusTerminated
         then throw (SessionTerminated sessionId)
         else ret (AlreadyClaimed (ic_record claim))
     | None \<Rightarrow>
         if cs_status session = StatusTerminated then throw (SessionTerminated sessionId)
         else
         bindC (createEvent w (Some command) (Some CommandAccepted) Inbound (InboundEvent event) sessionId) (\<lambda>r.
         bindC (on_broker (broker_persist (w_codec w) r)) (\<lambda>_.
         bindC (createLease w None) (\<lambda>lease.
         bindC (change (\<lambda>s. s\<lparr>sto_claims :=
                  (sto_claims s)(eventKey sessionId (command_id command) \<mapsto> \<lparr>ic_lease = lease, ic_record = r\<rparr>)\<rparr>)) (\<lambda>_.
         bindC (on_broker (broker_publish (w_codec w) r)) (\<lambda>_.
           ret (Claimed r lease))))))))"

definition renewInboundEventClaim :: "cma_world \<Rightarrow> string \<Rightarrow> string \<Rightarrow> string \<Rightarrow> event_lease cma" where
  "renewInboundEventClaim w sessionId commandId leaseId =
     bindC (requireClaim sessionId commandId) (\<lambda>claim.
     bindC (if sr_commandStatus (ic_record claim) \<noteq> Some CommandAccepted \<or> el_id (ic_lease claim) \<noteq> leaseId
            then ret True
            else bindC (nowIso w) (\<lambda>now. ret (el_expiresAt (ic_lease claim) \<le> now))) (\<lambda>lost.
     if lost then throw (StoreConflict EventResource commandId)
     else
     bindC (requireSession sessionId) (\<lambda>session.
     if cs_status session = StatusTerminated then throw (SessionTerminated sessionId)
     else
     bindC (createLease w (Some leaseId)) (\<lambda>lease.
     bindC (change (\<lambda>s. s\<lparr>sto_claims :=
              (sto_claims s)(eventKey sessionId commandId \<mapsto> claim\<lparr>ic_lease := lease\<rparr>)\<rparr>)) (\<lambda>_. ret lease)))))"

datatype settle_status = SettleCompleted | SettleFailed

fun settled_as :: "settle_status \<Rightarrow> command_status" where
  "settled_as SettleCompleted = CommandCompleted"
| "settled_as SettleFailed = CommandFailed"

definition settleInboundEvent ::
    "cma_world \<Rightarrow> string \<Rightarrow> string \<Rightarrow> string \<Rightarrow> settle_status \<Rightarrow> json option \<Rightarrow> event_record cma" where
  "settleInboundEvent w sessionId commandId leaseId status givenResult =
     bindC (requireClaim sessionId commandId) (\<lambda>claim.
     if el_id (ic_lease claim) \<noteq> leaseId then throw (StoreConflict EventResource commandId)
     else
     let commandResult = (if status = SettleFailed then None else givenResult) in
     if sr_commandStatus (ic_record claim) \<noteq> Some CommandAccepted
     then if sr_commandStatus (ic_record claim) \<noteq> Some (settled_as status)
             \<or> sr_commandResult (ic_record claim) \<noteq> commandResult
          then throw (StoreConflict EventResource commandId)
          else ret (ic_record claim)
     else
     bindC (nowIso w) (\<lambda>now.
     if el_expiresAt (ic_lease claim) \<le> now then throw (StoreConflict EventResource commandId)
     else
     bindC (newDriverId w) (\<lambda>cursor.
     bindC (nowIso w) (\<lambda>updatedAt.
     let updated = (ic_record claim)\<lparr>sr_commandResult := commandResult,
           sr_commandStatus := Some (settled_as status), sr_cursor := cursor, sr_updatedAt := updatedAt\<rparr>;
         failure = (case assertFrame (w_codec w) updated of Inl e \<Rightarrow> Some e | Inr _ \<Rightarrow> None);
         written = (if failure = None then updated
                    else updated\<lparr>sr_commandResult := None, sr_commandStatus := Some CommandFailed\<rparr>)
     in if failure \<noteq> None \<and> status = SettleFailed then throw (the failure)
        else
        bindC (on_broker (broker_replace (w_codec w) sessionId (sr_id (ic_record claim)) written)) (\<lambda>_.
        bindC (change (\<lambda>s. s\<lparr>sto_claims :=
                 (sto_claims s)(eventKey sessionId commandId \<mapsto> claim\<lparr>ic_record := written\<rparr>)\<rparr>)) (\<lambda>_.
        bindC (on_broker (broker_publish (w_codec w) written)) (\<lambda>_.
          case failure of Some e \<Rightarrow> throw e | None \<Rightarrow> ret written)))))))"

section \<open>Reading a session\<close>

definition listSessionEvents :: "cma_world \<Rightarrow> string \<Rightarrow> event_record list cma" where
  "listSessionEvents w sessionId =
     bindC (requireSession sessionId) (\<lambda>_.
     bindC (reading sto_broker) (\<lambda>b. lift_result (broker_list (w_codec w) sessionId None b)))"

definition streamSessionEvents :: "cma_world \<Rightarrow> string \<Rightarrow> string option \<Rightarrow> unit cma" where
  "streamSessionEvents w sessionId afterCursor =
     bindC (requireSession sessionId) (\<lambda>session.
       on_broker (broker_stream (w_codec w) sessionId afterCursor (cs_status session \<noteq> StatusTerminated)))"

section \<open>The constructor and any sequence of calls\<close>

record create_session =
  in_agentId :: "string option"
  in_environmentId :: "string option"
  in_sessionId :: "string option"
  in_metadata :: "json_object option"

fun each_cma :: "('a \<Rightarrow> 'b cma) \<Rightarrow> 'a list \<Rightarrow> unit cma" where
  "each_cma f [] = ret ()"
| "each_cma f (x # xs) = bindC (f x) (\<lambda>_. each_cma f xs)"

definition createCmaMemoryStore ::
    "cma_world \<Rightarrow> (string option \<times> json_object option \<times> string) list
      \<Rightarrow> (string option \<times> json option \<times> json_object option \<times> string) list \<Rightarrow> create_session list
      \<Rightarrow> store_error + cma_store" where
  "createCmaMemoryStore w agents environments sessions =
     (case bindC (each_cma (\<lambda>(i, metadata, name). putAgent w i metadata name) agents) (\<lambda>_.
           bindC (each_cma (\<lambda>(i, config, metadata, name). putEnvironment w i config metadata name) environments) (\<lambda>_.
             each_cma (\<lambda>c. putSession w (in_sessionId c) (in_agentId c) (in_environmentId c) (in_metadata c)) sessions))
           empty_store of
        (Inl e, _) \<Rightarrow> Inl e
      | (Inr _, s) \<Rightarrow> Inr s)"

datatype store_op =
  CreateAgent "string option" "json_object option" string
| CreateEnvironment "string option" "json option" "json_object option" string
| CreateSession "string option" "string option" "string option" "json_object option"
| ArchiveEnvironment string
| DeleteEnvironment string
| AppendDriverEvent string json
| ClaimInboundEvent string cma_driver_command cma_inbound_event
| RenewInboundEventClaim string string string
| SettleInboundEvent string string string settle_status "json option"
| StreamSessionEvents string "string option"
| PullStream nat
| CancelStream nat

fun store_step :: "cma_world \<Rightarrow> cma_store \<Rightarrow> store_op \<Rightarrow> cma_store" where
  "store_step w s (CreateAgent i metadata name) = snd (putAgent w i metadata name s)"
| "store_step w s (CreateEnvironment i config metadata name) = snd (putEnvironment w i config metadata name s)"
| "store_step w s (CreateSession i a e metadata) = snd (putSession w i a e metadata s)"
| "store_step w s (ArchiveEnvironment i) = snd (archiveEnvironment w i s)"
| "store_step w s (DeleteEnvironment i) = snd (deleteEnvironment i s)"
| "store_step w s (AppendDriverEvent sid event) = snd (appendDriverEvent w sid event s)"
| "store_step w s (ClaimInboundEvent sid command event) = snd (claimInboundEvent w sid command event s)"
| "store_step w s (RenewInboundEventClaim sid c l) = snd (renewInboundEventClaim w sid c l s)"
| "store_step w s (SettleInboundEvent sid c l status result) = snd (settleInboundEvent w sid c l status result s)"
| "store_step w s (StreamSessionEvents sid after) = snd (streamSessionEvents w sid after s)"
| "store_step w s (PullStream k) = s\<lparr>sto_broker := broker_pull k (sto_broker s)\<rparr>"
| "store_step w s (CancelStream k) = s\<lparr>sto_broker := broker_cancel k (sto_broker s)\<rparr>"

definition store_run :: "cma_world \<Rightarrow> store_op list \<Rightarrow> cma_store \<Rightarrow> cma_store" where
  "store_run w ops s = foldl (store_step w) s ops"

end
