(* ===== verification/Cma_Safety.thy ===== *)
theory Cma_Safety
  imports Cma_Store
begin

text \<open>
  What the memory store (theory Cma_Store) guarantees over any sequence of calls: a failed
  append changes nothing, an event delivered twice is recorded once, a command is handed out
  once and settled once, a terminated session stays so, and the cursors of a session's log
  increase.
\<close>

section \<open>Steps of an operation\<close>

lemma bindC_Inr:
  "fst (bindC m f s) = Inr y \<longleftrightarrow> (\<exists>x s'. m s = (Inr x, s') \<and> fst (f x s') = Inr y)"
  by (auto simp: bindC_def split: prod.split sum.split)

lemma bindC_run:
  "m s = (Inr x, s') \<Longrightarrow> bindC m f s = f x s'"
  "m s = (Inl e, s') \<Longrightarrow> bindC m f s = (Inl e, s')"
  by (simp_all add: bindC_def)

lemma bindC_cases:
  obtains (Throws) e s' where "m s = (Inl e, s')" "bindC m f s = (Inl e, s')"
    | (Goes) x s' where "m s = (Inr x, s')" "bindC m f s = f x s'"
proof (cases "m s")
  case (Pair r s')
  then show thesis using that by (cases r) (simp_all add: bindC_def)
qed

lemma bindC_simple [simp]:
  "bindC (ret x) f s = f x s"
  "bindC (throw e) f s = (Inl e, s)"
  "bindC (change g) h s = h () (g s)"
  "bindC (reading p) f s = f (p s) s"
  "bindC (lift_result (Inr x)) f s = f x s"
  "bindC (lift_result (Inl e)) f s = (Inl e, s)"
  by (simp_all add: bindC_def ret_def throw_def change_def reading_def lift_result_def)

lemma ends_simple [simp]:
  "fst (ret x s) = Inr x" "snd (ret x s) = s" "fst (throw e s) = Inl e" "snd (throw e s) = s"
  by (simp_all add: ret_def throw_def)

text \<open>Only the clock and the identifiers were used.\<close>

definition quiet :: "cma_store \<Rightarrow> cma_store \<Rightarrow> bool" where
  "quiet s t \<longleftrightarrow>
     sto_agents t = sto_agents s \<and> sto_environments t = sto_environments s \<and> sto_broker t = sto_broker s
     \<and> sto_claims t = sto_claims s \<and> sto_permissions t = sto_permissions s \<and> sto_sessions t = sto_sessions s
     \<and> sto_sources t = sto_sources s \<and> sto_calls s \<le> sto_calls t"

lemma quiet_refl [simp]: "quiet s s"
  by (simp add: quiet_def)

lemma quiet_trans: "quiet s t \<Longrightarrow> quiet t u \<Longrightarrow> quiet s u"
  by (simp add: quiet_def)

lemma quiet_fields:
  assumes "quiet s t"
  shows "sto_agents t = sto_agents s" "sto_environments t = sto_environments s" "sto_broker t = sto_broker s"
    "sto_claims t = sto_claims s" "sto_permissions t = sto_permissions s" "sto_sessions t = sto_sessions s"
    "sto_sources t = sto_sources s" "sto_calls s \<le> sto_calls t"
  using assms by (simp_all add: quiet_def)

lemma nowIso_quiet: "\<exists>t s'. nowIso w s = (Inr t, s') \<and> quiet s s'"
  by (simp add: nowIso_def read_clock_def bindC_def ret_def quiet_def)

lemma newDriverId_quiet: "newDriverId w s = (Inr (w_ids w (sto_calls s)), s\<lparr>sto_calls := Suc (sto_calls s)\<rparr>)"
  by (simp add: newDriverId_def)

lemma newId_quiet: "\<exists>i s'. newId w resource s = (Inr i, s') \<and> quiet s s'"
  by (simp add: newId_def newDriverId_def quiet_def split: option.split)

lemma createLease_quiet: "\<exists>l s'. createLease w given s = (Inr l, s') \<and> quiet s s' \<and> (\<forall>i. given = Some i \<longrightarrow> el_id l = i)"
  by (simp add: createLease_def newDriverId_def read_clock_def bindC_def ret_def quiet_def split: option.split)

text \<open>A created record fits, and its cursor is an identifier the call took.\<close>

definition record_made :: "cma_world \<Rightarrow> cma_store \<Rightarrow> cma_store \<Rightarrow> event_record \<Rightarrow> bool" where
  "record_made w s t r \<longleftrightarrow>
     (\<exists>n. assertFrame (w_codec w) r = Inr n)
     \<and> (\<exists>k. sto_calls s \<le> k \<and> k < sto_calls t \<and> sr_cursor r = w_ids w k)"

lemma createEvent_cases:
  obtains (Throws) e t where "createEvent w c st d ev sid s = (Inl e, t)" "quiet s t"
    | (Makes) r t where "createEvent w c st d ev sid s = (Inr r, t)" "quiet s t" "record_made w s t r"
        "sr_command r = c" "sr_commandResult r = None" "sr_commandStatus r = st" "sr_event r = ev"
        "sr_sessionId r = sid"
proof -
  obtain now s1 where 1: "nowIso w s = (Inr now, s1)" "quiet s s1" using nowIso_quiet by blast
  define s2 where "s2 = s1\<lparr>sto_calls := Suc (sto_calls s1)\<rparr>"
  have 2: "newDriverId w s1 = (Inr (w_ids w (sto_calls s1)), s2)" "quiet s1 s2"
    by (simp_all add: newDriverId_def s2_def quiet_def)
  obtain i s3 where 3: "newId w EventResource s2 = (Inr i, s3)" "quiet s2 s3" using newId_quiet by blast
  define r where "r = \<lparr>sr_command = c, sr_commandResult = None, sr_commandStatus = st,
                sr_createdAt = now, sr_cursor = w_ids w (sto_calls s1), sr_direction = d, sr_event = ev,
                sr_id = i, sr_sessionId = sid, sr_updatedAt = now\<rparr>"
  have q: "quiet s s3" using 1(2) 2(2) 3(2) quiet_trans by blast
  have calls: "sto_calls s \<le> sto_calls s1" "sto_calls s1 < sto_calls s3"
    using quiet_fields(8) [OF 1(2)] quiet_fields(8) [OF 3(2)] by (simp_all add: s2_def)
  have run: "createEvent w c st d ev sid s = bindC (lift_result (assertFrame (w_codec w) r)) (\<lambda>_. ret r) s3"
    unfolding createEvent_def by (simp add: bindC_run(1) [where m = "nowIso w", OF 1(1)] bindC_run(1) [where m = "newDriverId w", OF 2(1)]
      bindC_run(1) [where m = "newId w EventResource", OF 3(1)] r_def Let_def)
  show thesis
  proof (cases "assertFrame (w_codec w) r")
    case (Inl e)
    then show thesis using Throws run q by simp
  next
    case (Inr n)
    then have "createEvent w c st d ev sid s = (Inr r, s3)" using run by (simp add: ret_def)
    moreover have "record_made w s s3 r" using Inr calls by (auto simp: record_made_def r_def)
    ultimately show thesis using Makes q by (simp add: r_def)
  qed
qed

text \<open>The transitions of an event.\<close>

lemma transitions_cases:
  obtains (Throws) e t where "transitions w ev sid ps current pending s = (Inl e, t)" "quiet s t"
    | (Makes) ts pending' t where "transitions w ev sid ps current pending s = (Inr (ts, pending'), t)" "quiet s t"
        "\<forall>(r, st)\<in>set ts. (\<exists>n. assertFrame (w_codec w) r = Inr n) \<and> sr_sessionId r = sid \<and> sr_command r = None"
        "\<exists>ks. map (sr_cursor \<circ> fst) ts = map (w_ids w) ks \<and> sorted_wrt (<) ks
           \<and> (\<forall>k\<in>set ks. sto_calls s \<le> k \<and> k < sto_calls t)"
proof (induction ps arbitrary: current pending s thesis)
  case Nil
  then show ?case by (simp add: ret_def)
next
  case (Cons p ps)
  obtain status pending1 where n: "nextSessionStatus current ev (oe_sessionStatus p) (oe_requiresAction p) pending
      = (status, pending1)" by (metis surj_pair)
  define current1 where "current1 = (case status of None \<Rightarrow> current | Some s \<Rightarrow> s)"
  let ?make = "createEvent w None None Outbound (OutboundEvent (transition_event p status pending1)) sid"
  have run: "transitions w ev sid (p # ps) current pending s =
      bindC ?make (\<lambda>r. bindC (transitions w ev sid ps current1 pending1) (\<lambda>(rs, pending'').
           ret ((r, status) # rs, pending''))) s"
    by (simp add: n current1_def)
  show ?case
  proof (cases rule: createEvent_cases [of w None None Outbound "OutboundEvent (transition_event p status pending1)" sid s])
    case (Throws e t)
    then show ?thesis using Cons.prems(1) [of e t] unfolding run bindC_run(2) [where m = ?make, OF Throws(1)] by simp
  next
    case (Makes r t)
    note made = this
    show ?thesis
    proof (rule Cons.IH [where current = current1 and pending = pending1 and s = t])
      fix e t'
      assume "transitions w ev sid ps current1 pending1 t = (Inl e, t')" "quiet t t'"
      then show ?thesis
        using Cons.prems(1) [of e t'] quiet_trans [OF made(2)] unfolding run bindC_run(1) [where m = ?make, OF made(1)]
        by (simp add: bindC_def)
    next
      fix ts pending' t'
      assume rest: "transitions w ev sid ps current1 pending1 t = (Inr (ts, pending'), t')" "quiet t t'"
        "\<forall>(r, st)\<in>set ts. (\<exists>n. assertFrame (w_codec w) r = Inr n) \<and> sr_sessionId r = sid \<and> sr_command r = None"
        "\<exists>ks. map (sr_cursor \<circ> fst) ts = map (w_ids w) ks \<and> sorted_wrt (<) ks
           \<and> (\<forall>k\<in>set ks. sto_calls t \<le> k \<and> k < sto_calls t')"
      obtain k where k: "sto_calls s \<le> k" "k < sto_calls t" "sr_cursor r = w_ids w k"
        using made(3) by (auto simp: record_made_def)
      obtain ks where ks: "map (sr_cursor \<circ> fst) ts = map (w_ids w) ks" "sorted_wrt (<) ks"
        "\<forall>k\<in>set ks. sto_calls t \<le> k \<and> k < sto_calls t'" using rest(4) by blast
      have "transitions w ev sid (p # ps) current pending s = (Inr ((r, status) # ts, pending'), t')"
        unfolding run bindC_run(1) [where m = ?make, OF made(1)] by (simp add: bindC_def rest(1) ret_def)
      moreover have "quiet s t'" using made(2) rest(2) quiet_trans by blast
      moreover have "\<forall>(r', st)\<in>set ((r, status) # ts). (\<exists>n. assertFrame (w_codec w) r' = Inr n)
          \<and> sr_sessionId r' = sid \<and> sr_command r' = None"
        using rest(3) made(3,4,8) by (simp add: record_made_def)
      moreover have "\<exists>ks. map (sr_cursor \<circ> fst) ((r, status) # ts) = map (w_ids w) ks \<and> sorted_wrt (<) ks
           \<and> (\<forall>k\<in>set ks. sto_calls s \<le> k \<and> k < sto_calls t')"
      proof (intro exI [of _ "k # ks"] conjI)
        show "sorted_wrt (<) (k # ks)" using ks(2,3) k(2) by force
        show "\<forall>j\<in>set (k # ks). sto_calls s \<le> j \<and> j < sto_calls t'"
          using ks(3) k quiet_fields(8) [OF made(2)] quiet_fields(8) [OF rest(2)] by force
      qed (use ks(1) k(3) in simp)
      ultimately show ?thesis by (rule Cons.prems(2))
    qed
  qed
qed

section \<open>Committing\<close>

lemma on_broker_persist:
  assumes "assertFrame (w_codec w) r = Inr n"
  shows "on_broker (broker_persist (w_codec w) r) s = (Inr (), s\<lparr>sto_broker := (sto_broker s)
    \<lparr>cb_events := (cb_events (sto_broker s))(sr_sessionId r := cb_events (sto_broker s) (sr_sessionId r) @ [r])\<rparr>\<rparr>)"
  using assms by (simp add: on_broker_def broker_persist_def)

lemma on_broker_publish:
  assumes "assertFrame (w_codec w) r = Inr n"
  obtains b where "on_broker (broker_publish (w_codec w) r) s = (Inr (), s\<lparr>sto_broker := b\<rparr>)"
    "cb_events b = cb_events (sto_broker s)"
    "b = cma_broker_step (w_codec w) (sto_broker s) (OpPublish r)"
proof -
  obtain b where "broker_publish (w_codec w) r (sto_broker s) = Inr b" "cb_events b = cb_events (sto_broker s)"
    using assms by (cases "list_ex (subscribed_to (sr_sessionId r)) (cb_streams (sto_broker s))")
      (simp_all add: broker_publish_def map_streams_def)
  then show thesis by (intro that [of b]) (simp_all add: on_broker_def kept_if_thrown_def)
qed

text \<open>What committing leaves: the log longer by the records when they are persisted, the session with its last status.\<close>

definition committed :: "bool \<Rightarrow> string \<Rightarrow> (event_record \<times> cma_session_status option) list \<Rightarrow> cma_store \<Rightarrow> cma_store \<Rightarrow> bool" where
  "committed persistent sid ts s t \<longleftrightarrow>
     cb_events (sto_broker t) = (cb_events (sto_broker s))
       (sid := cb_events (sto_broker s) sid @ (if persistent then map fst ts else []))
     \<and> sto_agents t = sto_agents s \<and> sto_environments t = sto_environments s \<and> sto_claims t = sto_claims s
     \<and> sto_permissions t = sto_permissions s \<and> sto_sources t = sto_sources s \<and> sto_calls t = sto_calls s
     \<and> (\<forall>i. i \<noteq> sid \<longrightarrow> sto_sessions t i = sto_sessions s i)
     \<and> map_option cs_status (sto_sessions t sid) =
         map_option (\<lambda>x. foldl (\<lambda>c (_, st). case st of None \<Rightarrow> c | Some st \<Rightarrow> st) (cs_status x) ts) (sto_sessions s sid)
     \<and> (cma_broker_ok (sto_broker s) \<longrightarrow> cma_broker_ok (sto_broker t))"

lemma commit_ok:
  assumes "\<forall>(r, st)\<in>set ts. (\<exists>n. assertFrame (w_codec w) r = Inr n) \<and> sr_sessionId r = sid"
    "sto_sessions s sid \<noteq> None"
  shows "\<exists>t. commit_transitions w persistent sid ts s = (Inr (), t) \<and> committed persistent sid ts s t"
  using assms
proof (induction ts arbitrary: s)
  case Nil
  then show ?case by (simp add: ret_def committed_def)
next
  case (Cons x ts)
  obtain r st where x: "x = (r, st)" by (cases x)
  obtain n where n: "assertFrame (w_codec w) r = Inr n" and sid: "sr_sessionId r = sid"
    using Cons.prems(1) x by auto
  obtain session where session: "sto_sessions s sid = Some session" using Cons.prems(2) by blast
  define s1 where "s1 = (if persistent then s\<lparr>sto_broker := (sto_broker s)
      \<lparr>cb_events := (cb_events (sto_broker s))(sid := cb_events (sto_broker s) sid @ [r])\<rparr>\<rparr> else s)"
  have 1: "(if persistent then on_broker (broker_persist (w_codec w) r) else ret ()) s = (Inr (), s1)"
    using on_broker_persist [OF n] sid by (simp add: s1_def ret_def)
  have ok1: "cma_broker_ok (sto_broker s) \<longrightarrow> cma_broker_ok (sto_broker s1)" by (simp add: s1_def cma_broker_ok_def)
  define s2 where "s2 = (case st of None \<Rightarrow> s1 | Some y \<Rightarrow>
      s1\<lparr>sto_sessions := (sto_sessions s1)(sid \<mapsto> session\<lparr>cs_status := y, cs_updatedAt := sr_createdAt r\<rparr>)\<rparr>)"
  have session1: "sto_sessions s1 sid = Some session" using session by (simp add: s1_def)
  have 2: "updateSessionStatus sid st (sr_createdAt r) s1 = (Inr (), s2)"
    using session1 by (simp add: updateSessionStatus_def s2_def requireSession_def bindC_def change_def ret_def split: option.split)
  obtain b where 3: "on_broker (broker_publish (w_codec w) r) s2 = (Inr (), s2\<lparr>sto_broker := b\<rparr>)"
    "cb_events b = cb_events (sto_broker s2)" "b = cma_broker_step (w_codec w) (sto_broker s2) (OpPublish r)"
    by (rule on_broker_publish [OF n])
  define s3 where "s3 = s2\<lparr>sto_broker := b\<rparr>"
  have ok3: "cma_broker_ok (sto_broker s2) \<longrightarrow> cma_broker_ok (sto_broker s3)"
    using cma_broker_step_ok [of "sto_broker s2" "w_codec w" "OpPublish r"] 3(3) by (simp add: s3_def del: cma_broker_step.simps)
  have same: "sto_agents s3 = sto_agents s" "sto_environments s3 = sto_environments s" "sto_claims s3 = sto_claims s"
      "sto_permissions s3 = sto_permissions s" "sto_sources s3 = sto_sources s" "sto_calls s3 = sto_calls s"
      "\<forall>i. i \<noteq> sid \<longrightarrow> sto_sessions s3 i = sto_sessions s i" "sto_broker s2 = sto_broker s1"
    by (simp_all add: s3_def s2_def s1_def split: option.split)
  have status: "map_option cs_status (sto_sessions s3 sid) = Some (case st of None \<Rightarrow> cs_status session | Some y \<Rightarrow> y)"
    using session1 by (simp add: s3_def s2_def split: option.split)
  have events: "cb_events (sto_broker s3) = (cb_events (sto_broker s))
      (sid := cb_events (sto_broker s) sid @ (if persistent then [r] else []))"
    using 3(2) same(8) by (simp add: s3_def s1_def)
  have "\<forall>(r, st)\<in>set ts. (\<exists>n. assertFrame (w_codec w) r = Inr n) \<and> sr_sessionId r = sid"
    using Cons.prems(1) by auto
  moreover have "sto_sessions s3 sid \<noteq> None" using status by auto
  ultimately obtain t where t: "commit_transitions w persistent sid ts s3 = (Inr (), t)" "committed persistent sid ts s3 t"
    using Cons.IH by blast
  have "commit_transitions w persistent sid (x # ts) s = (Inr (), t)"
    using 1 2 3(1) t(1) by (simp add: x bindC_def s3_def)
  moreover obtain y where "sto_sessions s3 sid = Some y" "cs_status y = (case st of None \<Rightarrow> cs_status session | Some y \<Rightarrow> y)"
    using status by auto
  then have "committed persistent sid (x # ts) s t"
    using t(2) same events ok1 ok3 session unfolding committed_def by (simp add: x)
  ultimately show ?case by blast
qed

section \<open>Appending a driver event\<close>

lemma requireSession_run:
  "requireSession i s = (case sto_sessions s i of None \<Rightarrow> (Inl (StoreNotFound SessionResource i), s) | Some x \<Rightarrow> (Inr x, s))"
  by (simp add: requireSession_def)

definition remembered :: "string option \<Rightarrow> runtime_event \<Rightarrow> event_record list \<Rightarrow> cma_store \<Rightarrow> cma_store" where
  "remembered k event records s =
     (case k of None \<Rightarrow> s | Some k \<Rightarrow> s\<lparr>sto_sources := (sto_sources s)(k \<mapsto> (event, records))\<rparr>)"

lemma remember_source_run: "remember_source k event records s = (Inr (), remembered k event records s)"
  by (simp add: remember_source_def remembered_def ret_def change_def split: option.split)

definition with_permissions :: "string \<Rightarrow> (string \<times> json) list \<Rightarrow> cma_store \<Rightarrow> cma_store" where
  "with_permissions sid pending s =
     s\<lparr>sto_permissions := (sto_permissions s)(sid := (if pending = [] then None else Some pending))\<rparr>"

definition pending_of :: "cma_store \<Rightarrow> string \<Rightarrow> (string \<times> json) list" where
  "pending_of s sid = (case sto_permissions s sid of None \<Rightarrow> [] | Some ps \<Rightarrow> ps)"

lemma append_cases:
  obtains
    (Fails) e t where "appendDriverEvent w sid input s = (Inl e, t)" "quiet s t"
  | (Known) session event old records where "appendDriverEvent w sid input s = (Inr records, s)"
      "sto_sessions s sid = Some session" "admit_driver_event w sid input = Inr event"
      "Option.bind (source_key sid event) (sto_sources s) = Some (old, records)"
      "old\<lparr>re_id := re_id event, re_occurredAt := re_occurredAt event\<rparr> = event"
  | (Ignored) session event where
      "appendDriverEvent w sid input s = (Inr [], remembered (source_key sid event) event [] s)"
      "sto_sessions s sid = Some session" "admit_driver_event w sid input = Inr event"
      "Option.bind (source_key sid event) (sto_sources s) = None"
      "cs_status session = StatusTerminated \<or> (re_visibility event \<noteq> ''participant'' \<and> re_visibility event \<noteq> ''public'')"
  | (New) session event ts pending s1 s2 where
      "appendDriverEvent w sid input s = (Inr (map fst ts), remembered (source_key sid event) event (map fst ts) s2)"
      "sto_sessions s sid = Some session" "admit_driver_event w sid input = Inr event"
      "Option.bind (source_key sid event) (sto_sources s) = None"
      "cs_status session \<noteq> StatusTerminated"
      "transitions w event sid (projectDriverEventToCma (re_kind event) (re_payload event)) (cs_status session)
         (pending_of s sid) s = (Inr (ts, pending), s1)" "quiet s s1"
      "\<forall>(r, st)\<in>set ts. (\<exists>n. assertFrame (w_codec w) r = Inr n) \<and> sr_sessionId r = sid \<and> sr_command r = None"
      "\<exists>ks. map (sr_cursor \<circ> fst) ts = map (w_ids w) ks \<and> sorted_wrt (<) ks
         \<and> (\<forall>k\<in>set ks. sto_calls s \<le> k \<and> k < sto_calls s1)"
      "committed (re_delivery event = ''lossless'') sid ts (with_permissions sid pending s1) s2"
proof (cases "sto_sessions s sid")
  case None
  then have "appendDriverEvent w sid input s = (Inl (StoreNotFound SessionResource sid), s)"
    by (simp add: appendDriverEvent_def bindC_def requireSession_run)
  then show thesis using Fails by simp
next
  case session: (Some session)
  show thesis
  proof (cases "admit_driver_event w sid input")
    case (Inl e)
    then have "appendDriverEvent w sid input s = (Inl e, s)"
      using session by (simp add: appendDriverEvent_def bindC_def requireSession_run lift_result_def)
    then show thesis using Fails by simp
  next
    case event: (Inr event)
    define k where "k = source_key sid event"
    have run: "appendDriverEvent w sid input s =
        (case Option.bind k (sto_sources s) of
           Some (old, records) \<Rightarrow>
             if old\<lparr>re_id := re_id event, re_occurredAt := re_occurredAt event\<rparr> \<noteq> event
             then throw (StoreConflict EventResource (source_of event))
             else ret records
         | None \<Rightarrow>
             if cs_status session = StatusTerminated
                \<or> (re_visibility event \<noteq> ''participant'' \<and> re_visibility event \<noteq> ''public'')
             then bindC (remember_source k event []) (\<lambda>_. ret [])
             else append_new w sid session event) s"
      using session event unfolding k_def
      by (simp add: appendDriverEvent_def bindC_run(1) [where m = "requireSession sid" and x = session and s' = s] requireSession_run)
    show thesis
    proof (cases "Option.bind k (sto_sources s)")
      case (Some known)
      obtain old records where known: "known = (old, records)" by (cases known)
      show thesis
      proof (cases "old\<lparr>re_id := re_id event, re_occurredAt := re_occurredAt event\<rparr> = event")
        case True
        then show thesis using Known [OF _ session event] Some known run k_def by (simp add: ret_def)
      next
        case False
        then show thesis using Fails Some known run by (simp add: throw_def)
      qed
    next
      case none: None
      show thesis
      proof (cases "cs_status session = StatusTerminated
          \<or> (re_visibility event \<noteq> ''participant'' \<and> re_visibility event \<noteq> ''public'')")
        case True
        then show thesis
          using Ignored [OF _ session event] none run k_def by (simp add: bindC_def remember_source_run ret_def)
      next
        case False
        have new: "appendDriverEvent w sid input s = append_new w sid session event s"
          unfolding run none option.case if_not_P [OF False] ..
        let ?ps = "projectDriverEventToCma (re_kind event) (re_payload event)"
        have go: "append_new w sid session event s =
            bindC (transitions w event sid ?ps (cs_status session) (pending_of s sid)) (\<lambda>(ts, pending).
            bindC (set_permissions sid pending) (\<lambda>_.
            bindC (commit_transitions w (re_delivery event = ''lossless'') sid ts) (\<lambda>_.
            bindC (remember_source k event (map fst ts)) (\<lambda>_. ret (map fst ts))))) s"
          by (simp add: append_new_def pending_of_def k_def)
        show thesis
        proof (cases rule: transitions_cases [of w event sid ?ps "cs_status session" "pending_of s sid" s])
          case (Throws e t)
          then show thesis using Fails new go by (simp add: bindC_def)
        next
          case (Makes ts pending s1)
          note made = this
          let ?s = "with_permissions sid pending s1"
          have "sto_sessions ?s sid \<noteq> None"
            using session quiet_fields(6) [OF made(2)] by (simp add: with_permissions_def)
          moreover have "\<forall>(r, st)\<in>set ts. (\<exists>n. assertFrame (w_codec w) r = Inr n) \<and> sr_sessionId r = sid"
            using made(3) by auto
          ultimately obtain s2 where s2: "commit_transitions w (re_delivery event = ''lossless'') sid ts ?s = (Inr (), s2)"
              "committed (re_delivery event = ''lossless'') sid ts ?s s2"
            using commit_ok by blast
          have "append_new w sid session event s = (Inr (map fst ts), remembered k event (map fst ts) s2)"
            unfolding go using made(1) s2(1)
            by (simp add: bindC_def set_permissions_def change_def with_permissions_def remember_source_run ret_def)
          then show thesis
            using New [OF _ session event _ _ made s2(2)] none new False k_def by simp
        qed
      qed
    qed
  qed
qed

section \<open>Claiming and settling a command\<close>

definition claim_key :: "string \<Rightarrow> cma_driver_command \<Rightarrow> string" where
  "claim_key sid command = eventKey sid (command_id command)"

lemma claim_cases:
  obtains
    (Fails) e t where "claimInboundEvent w sid command event s = (Inl e, t)" "quiet s t"
  | (Known) session claim where "claimInboundEvent w sid command event s = (Inr (AlreadyClaimed (ic_record claim)), s)"
      "sto_sessions s sid = Some session" "sto_claims s (claim_key sid command) = Some claim"
      "\<not> (sr_commandStatus (ic_record claim) = Some CommandAccepted \<and> cs_status session = StatusTerminated)"
  | (New) session r lease s1 t where "claimInboundEvent w sid command event s = (Inr (Claimed r lease), t)"
      "sto_sessions s sid = Some session" "cs_status session \<noteq> StatusTerminated"
      "sto_claims s (claim_key sid command) = None" "quiet s s1" "record_made w s s1 r"
      "sr_command r = Some command" "sr_event r = InboundEvent event" "sr_commandStatus r = Some CommandAccepted"
      "sr_sessionId r = sid"
      "quiet (s1\<lparr>sto_claims := (sto_claims s)(claim_key sid command \<mapsto> \<lparr>ic_lease = lease, ic_record = r\<rparr>),
                sto_broker := sto_broker t\<rparr>) t"
      "cb_events (sto_broker t) = (cb_events (sto_broker s))(sid := cb_events (sto_broker s) sid @ [r])"
      "cma_broker_ok (sto_broker s) \<longrightarrow> cma_broker_ok (sto_broker t)"
proof (cases "sto_sessions s sid")
  case None
  then have "claimInboundEvent w sid command event s = (Inl (StoreNotFound SessionResource sid), s)"
    by (simp add: claimInboundEvent_def bindC_def requireSession_run)
  then show thesis using Fails by simp
next
  case session: (Some session)
  have found: "requireSession sid s = (Inr session, s)" using session by (simp add: requireSession_run)
  define k where "k = claim_key sid command"
  let ?make = "createEvent w (Some command) (Some CommandAccepted) Inbound (InboundEvent event) sid"
  have run: "claimInboundEvent w sid command event s =
      (case sto_claims s k of
         Some claim \<Rightarrow>
           if sr_command (ic_record claim) \<noteq> Some command \<or> sr_event (ic_record claim) \<noteq> InboundEvent event
           then throw (StoreConflict EventResource (command_id command))
           else if sr_commandStatus (ic_record claim) = Some CommandAccepted \<and> cs_status session = StatusTerminated
           then throw (SessionTerminated sid)
           else ret (AlreadyClaimed (ic_record claim))
       | None \<Rightarrow>
           if cs_status session = StatusTerminated then throw (SessionTerminated sid)
           else
           bindC ?make (\<lambda>r.
           bindC (on_broker (broker_persist (w_codec w) r)) (\<lambda>_.
           bindC (createLease w None) (\<lambda>lease.
           bindC (change (\<lambda>s. s\<lparr>sto_claims := (sto_claims s)(k \<mapsto> \<lparr>ic_lease = lease, ic_record = r\<rparr>)\<rparr>)) (\<lambda>_.
           bindC (on_broker (broker_publish (w_codec w) r)) (\<lambda>_.
             ret (Claimed r lease))))))) s"
    unfolding k_def claim_key_def claimInboundEvent_def bindC_run(1) [where m = "requireSession sid", OF found]
      bindC_simple(4) ..
  show thesis
  proof (cases "sto_claims s k")
    case (Some claim)
    show thesis
    proof (cases "sr_command (ic_record claim) \<noteq> Some command \<or> sr_event (ic_record claim) \<noteq> InboundEvent event
        \<or> (sr_commandStatus (ic_record claim) = Some CommandAccepted \<and> cs_status session = StatusTerminated)")
      case True
      then have "\<exists>e. claimInboundEvent w sid command event s = (Inl e, s)"
        unfolding run Some option.case by (auto simp: throw_def split: if_split)
      then show thesis using Fails by fastforce
    next
      case False
      then have "claimInboundEvent w sid command event s = (Inr (AlreadyClaimed (ic_record claim)), s)"
        unfolding run Some option.case by (auto simp: ret_def)
      then show thesis using Known [OF _ session] Some False k_def by blast
    qed
  next
    case none: None
    show thesis
    proof (cases "cs_status session = StatusTerminated")
      case True
      then show thesis using Fails none run by (simp add: throw_def)
    next
      case alive: False
      show thesis
      proof (cases rule: createEvent_cases [of w "Some command" "Some CommandAccepted" Inbound "InboundEvent event" sid s])
        case (Throws e t)
        then show thesis using Fails none alive run by (simp add: bindC_def)
      next
        case (Makes r s1)
        note made = this
        obtain n where n: "assertFrame (w_codec w) r = Inr n" using made(3) by (auto simp: record_made_def)
        define s2 where "s2 = s1\<lparr>sto_broker := (sto_broker s1)
            \<lparr>cb_events := (cb_events (sto_broker s1))(sid := cb_events (sto_broker s1) sid @ [r])\<rparr>\<rparr>"
        have 2: "on_broker (broker_persist (w_codec w) r) s1 = (Inr (), s2)"
          using on_broker_persist [OF n] made(8) by (simp add: s2_def)
        obtain lease s3 where 3: "createLease w None s2 = (Inr lease, s3)" "quiet s2 s3" using createLease_quiet by blast
        define s4 where "s4 = s3\<lparr>sto_claims := (sto_claims s3)(k \<mapsto> \<lparr>ic_lease = lease, ic_record = r\<rparr>)\<rparr>"
        obtain b where 5: "on_broker (broker_publish (w_codec w) r) s4 = (Inr (), s4\<lparr>sto_broker := b\<rparr>)"
          "cb_events b = cb_events (sto_broker s4)" "b = cma_broker_step (w_codec w) (sto_broker s4) (OpPublish r)"
          by (rule on_broker_publish [OF n])
        have "claimInboundEvent w sid command event s = (Inr (Claimed r lease), s4\<lparr>sto_broker := b\<rparr>)"
          using run none alive made(1) 2 3(1) 5(1) by (simp add: bindC_def change_def s4_def ret_def)
        moreover have "quiet (s1\<lparr>sto_claims := (sto_claims s)(k \<mapsto> \<lparr>ic_lease = lease, ic_record = r\<rparr>),
                sto_broker := sto_broker (s4\<lparr>sto_broker := b\<rparr>)\<rparr>) (s4\<lparr>sto_broker := b\<rparr>)"
          using 3(2) made(2) by (simp add: quiet_def s4_def s2_def)
        moreover have "cb_events (sto_broker (s4\<lparr>sto_broker := b\<rparr>))
            = (cb_events (sto_broker s))(sid := cb_events (sto_broker s) sid @ [r])"
          using 5(2) 3(2) made(2) by (simp add: quiet_def s4_def s2_def)
        moreover have "cma_broker_ok (sto_broker s4)" if "cma_broker_ok (sto_broker s)"
          using that 3(2) made(2) by (simp add: quiet_def s4_def s2_def cma_broker_ok_def)
        then have "cma_broker_ok (sto_broker s) \<longrightarrow> cma_broker_ok (sto_broker (s4\<lparr>sto_broker := b\<rparr>))"
          using cma_broker_step_ok [of "sto_broker s4" "w_codec w" "OpPublish r"] 5(3)
          by (simp del: cma_broker_step.simps)
        ultimately show thesis
          using New [OF _ session alive none [unfolded k_def] made(2,3)] made(4-8) k_def by blast
      qed
    qed
  qed
qed

lemma renew_cases:
  obtains
    (Fails) e t where "renewInboundEventClaim w sid c l s = (Inl e, t)" "quiet s t"
  | (Renews) claim lease t where "renewInboundEventClaim w sid c l s = (Inr lease, t)"
      "sto_claims s (eventKey sid c) = Some claim" "el_id lease = l"
      "quiet (s\<lparr>sto_claims := (sto_claims s)(eventKey sid c \<mapsto> claim\<lparr>ic_lease := lease\<rparr>)\<rparr>) t"
proof (cases "sto_claims s (eventKey sid c)")
  case None
  then show thesis using Fails by (simp add: renewInboundEventClaim_def requireClaim_def bindC_def)
next
  case (Some claim)
  let ?lost = "if sr_commandStatus (ic_record claim) \<noteq> Some CommandAccepted \<or> el_id (ic_lease claim) \<noteq> l
      then ret True else bindC (nowIso w) (\<lambda>now. ret (el_expiresAt (ic_lease claim) \<le> now))"
  obtain lost s1 where 1: "?lost s = (Inr lost, s1)" "quiet s s1"
  proof (cases "sr_commandStatus (ic_record claim) \<noteq> Some CommandAccepted \<or> el_id (ic_lease claim) \<noteq> l")
    case True
    then have "?lost s = (Inr True, s)" by (simp add: ret_def)
    then show thesis using that by simp
  next
    case False
    obtain now s1 where "nowIso w s = (Inr now, s1)" "quiet s s1" using nowIso_quiet by blast
    then have "?lost s = (Inr (el_expiresAt (ic_lease claim) \<le> now), s1)" using False by (simp add: bindC_def ret_def)
    then show thesis using that \<open>quiet s s1\<close> by blast
  qed
  have found: "requireClaim sid c s = (Inr claim, s)" using Some by (simp add: requireClaim_def)
  define rest where "rest = (\<lambda>lost. if lost then throw (StoreConflict EventResource c)
     else bindC (requireSession sid) (\<lambda>session.
     if cs_status session = StatusTerminated then throw (SessionTerminated sid)
     else bindC (createLease w (Some l)) (\<lambda>lease.
     bindC (change (\<lambda>s. s\<lparr>sto_claims := (sto_claims s)(eventKey sid c \<mapsto> claim\<lparr>ic_lease := lease\<rparr>)\<rparr>)) (\<lambda>_. ret lease))))"
  have run: "renewInboundEventClaim w sid c l s = rest lost s1"
    unfolding renewInboundEventClaim_def bindC_run(1) [where m = "requireClaim sid c", OF found]
      bindC_run(1) [where m = ?lost, OF 1(1)] rest_def ..
  show thesis
  proof (cases "lost \<or> (case sto_sessions s1 sid of None \<Rightarrow> True | Some x \<Rightarrow> cs_status x = StatusTerminated)")
    case True
    then have "\<exists>e. renewInboundEventClaim w sid c l s = (Inl e, s1)"
      unfolding run rest_def
      by (cases "sto_sessions s1 sid") (auto simp: throw_def bindC_def requireSession_run)
    then show thesis using Fails 1(2) by blast
  next
    case False
    then obtain x where x: "requireSession sid s1 = (Inr x, s1)" "cs_status x \<noteq> StatusTerminated"
      by (cases "sto_sessions s1 sid") (auto simp: requireSession_run)
    obtain lease s2 where 2: "createLease w (Some l) s1 = (Inr lease, s2)" "quiet s1 s2" "el_id lease = l"
      using createLease_quiet by blast
    define t where "t = s2\<lparr>sto_claims := (sto_claims s2)(eventKey sid c \<mapsto> claim\<lparr>ic_lease := lease\<rparr>)\<rparr>"
    have "renewInboundEventClaim w sid c l s = (Inr lease, t)"
      using False x 2(1) unfolding run rest_def by (simp add: bindC_def change_def ret_def t_def)
    moreover have "quiet (s\<lparr>sto_claims := (sto_claims s)(eventKey sid c \<mapsto> claim\<lparr>ic_lease := lease\<rparr>)\<rparr>) t"
      using 1(2) 2(2) by (simp add: quiet_def t_def)
    ultimately show thesis using Renews Some 2(3) by blast
  qed
qed

text \<open>A settled record is written in the place of the accepted one, at the end of the log.\<close>

lemma settle_cases:
  obtains
    (Quiet) res t where "settleInboundEvent w sid c l st given s = (res, t)" "quiet s t"
      "\<And>r. res = Inr r \<Longrightarrow> \<exists>claim. sto_claims s (eventKey sid c) = Some claim \<and> r = ic_record claim
         \<and> sr_commandStatus r = Some (settled_as st)"
  | (Settles) claim written res t i k where "settleInboundEvent w sid c l st given s = (res, t)"
      "sto_claims s (eventKey sid c) = Some claim" "sr_commandStatus (ic_record claim) = Some CommandAccepted"
      "el_id (ic_lease claim) = l"
      "res = Inr written \<or> (\<exists>e. res = Inl e)" "sr_commandStatus written \<in> {Some CommandCompleted, Some CommandFailed}"
      "sr_command written = sr_command (ic_record claim)" "sr_event written = sr_event (ic_record claim)"
      "sr_cursor written = w_ids w k" "sto_calls s \<le> k" "k < sto_calls t"
      "find_record (sr_id (ic_record claim)) (cb_events (sto_broker s) sid) = Some i"
      "quiet (s\<lparr>sto_claims := (sto_claims s)(eventKey sid c \<mapsto> claim\<lparr>ic_record := written\<rparr>),
                sto_broker := sto_broker t\<rparr>) t"
      "cb_events (sto_broker t) = (cb_events (sto_broker s))(sid := take i (cb_events (sto_broker s) sid)
         @ drop (Suc i) (cb_events (sto_broker s) sid) @ [written])"
      "cma_broker_ok (sto_broker s) \<longrightarrow> cma_broker_ok (sto_broker t)"
proof (cases "sto_claims s (eventKey sid c)")
  case None
  then have "settleInboundEvent w sid c l st given s = (Inl (StoreNotFound EventResource c), s)"
    by (simp add: settleInboundEvent_def requireClaim_def bindC_def)
  then show thesis using Quiet by simp
next
  case (Some claim)
  have found: "requireClaim sid c s = (Inr claim, s)" using Some by (simp add: requireClaim_def)
  define result where "result = (if st = SettleFailed then None else given)"
  define settle where "settle = (\<lambda>now. if el_expiresAt (ic_lease claim) \<le> now then throw (StoreConflict EventResource c)
     else bindC (newDriverId w) (\<lambda>cursor. bindC (nowIso w) (\<lambda>updatedAt.
     let updated = (ic_record claim)\<lparr>sr_commandResult := result,
           sr_commandStatus := Some (settled_as st), sr_cursor := cursor, sr_updatedAt := updatedAt\<rparr>;
         failure = (case assertFrame (w_codec w) updated of Inl e \<Rightarrow> Some e | Inr _ \<Rightarrow> None);
         written = (if failure = None then updated
                    else updated\<lparr>sr_commandResult := None, sr_commandStatus := Some CommandFailed\<rparr>)
     in if failure \<noteq> None \<and> st = SettleFailed then throw (the failure)
        else
        bindC (on_broker (broker_replace (w_codec w) sid (sr_id (ic_record claim)) written)) (\<lambda>_.
        bindC (change (\<lambda>s. s\<lparr>sto_claims :=
                 (sto_claims s)(eventKey sid c \<mapsto> claim\<lparr>ic_record := written\<rparr>)\<rparr>)) (\<lambda>_.
        bindC (on_broker (broker_publish (w_codec w) written)) (\<lambda>_.
          case failure of Some e \<Rightarrow> throw e | None \<Rightarrow> ret written))))))"
  have run: "settleInboundEvent w sid c l st given s =
      (if el_id (ic_lease claim) \<noteq> l then throw (StoreConflict EventResource c)
       else if sr_commandStatus (ic_record claim) \<noteq> Some CommandAccepted
       then if sr_commandStatus (ic_record claim) \<noteq> Some (settled_as st) \<or> sr_commandResult (ic_record claim) \<noteq> result
            then throw (StoreConflict EventResource c)
            else ret (ic_record claim)
       else bindC (nowIso w) settle) s"
    unfolding settleInboundEvent_def bindC_run(1) [where m = "requireClaim sid c", OF found] result_def settle_def Let_def ..
  show thesis
  proof (cases "el_id (ic_lease claim) \<noteq> l \<or> sr_commandStatus (ic_record claim) \<noteq> Some CommandAccepted")
    case True
    then have "\<exists>res. settleInboundEvent w sid c l st given s = (res, s)
        \<and> (\<forall>r. res = Inr r \<longrightarrow> r = ic_record claim \<and> sr_commandStatus r = Some (settled_as st))"
      unfolding run by (auto simp: throw_def ret_def)
    then obtain res where res: "settleInboundEvent w sid c l st given s = (res, s)"
      "\<forall>r. res = Inr r \<longrightarrow> r = ic_record claim \<and> sr_commandStatus r = Some (settled_as st)" by blast
    show thesis by (rule Quiet [OF res(1)]) (use res(2) Some in auto)
  next
    case False
    then have acc: "sr_commandStatus (ic_record claim) = Some CommandAccepted" and lease: "el_id (ic_lease claim) = l" by auto
    obtain now s1 where 1: "nowIso w s = (Inr now, s1)" "quiet s s1" using nowIso_quiet by blast
    have go: "settleInboundEvent w sid c l st given s = settle now s1"
      unfolding run using acc lease bindC_run(1) [where m = "nowIso w", OF 1(1)] by simp
    show thesis
    proof (cases "el_expiresAt (ic_lease claim) \<le> now")
      case True
      then show thesis using Quiet go 1(2) by (simp add: settle_def throw_def)
    next
      case live: False
      define s2 where "s2 = s1\<lparr>sto_calls := Suc (sto_calls s1)\<rparr>"
      define k where "k = sto_calls s1"
      have 2: "newDriverId w s1 = (Inr (w_ids w k), s2)" by (simp add: newDriverId_def s2_def k_def)
      obtain updatedAt s3 where 3: "nowIso w s2 = (Inr updatedAt, s3)" "quiet s2 s3" using nowIso_quiet by blast
      define updated where "updated = (ic_record claim)\<lparr>sr_commandResult := result,
           sr_commandStatus := Some (settled_as st), sr_cursor := w_ids w k, sr_updatedAt := updatedAt\<rparr>"
      define failure where "failure = (case assertFrame (w_codec w) updated of Inl e \<Rightarrow> Some e | Inr _ \<Rightarrow> None)"
      define written where "written = (if failure = None then updated
                    else updated\<lparr>sr_commandResult := None, sr_commandStatus := Some CommandFailed\<rparr>)"
      have q3: "quiet s s3" using 1(2) 3(2) by (simp add: quiet_def s2_def)
      have k: "sto_calls s \<le> k" "k < sto_calls s3" using 1(2) 3(2) by (simp_all add: quiet_def s2_def k_def)
      have step: "settle now s1 =
          (if failure \<noteq> None \<and> st = SettleFailed then throw (the failure)
           else bindC (on_broker (broker_replace (w_codec w) sid (sr_id (ic_record claim)) written)) (\<lambda>_.
             bindC (change (\<lambda>s. s\<lparr>sto_claims :=
                 (sto_claims s)(eventKey sid c \<mapsto> claim\<lparr>ic_record := written\<rparr>)\<rparr>)) (\<lambda>_.
             bindC (on_broker (broker_publish (w_codec w) written)) (\<lambda>_.
               case failure of Some e \<Rightarrow> throw e | None \<Rightarrow> ret written)))) s3"
        unfolding settle_def if_not_P [OF live] bindC_run(1) [where m = "newDriverId w", OF 2]
          bindC_run(1) [where m = "nowIso w", OF 3(1)] Let_def updated_def [symmetric]
          failure_def [symmetric] written_def [symmetric] ..
      show thesis
      proof (cases "failure \<noteq> None \<and> st = SettleFailed")
        case True
        then show thesis using Quiet go step q3 by (simp add: throw_def)
      next
        case keep: False
        show thesis
        proof (cases "broker_replace (w_codec w) sid (sr_id (ic_record claim)) written (sto_broker s3)")
          case (Inl e)
          then show thesis using Quiet go step q3 keep by (auto simp: bindC_def on_broker_def)
        next
          case (Inr b)
          have sb: "sto_broker s3 = sto_broker s" using q3 by (simp add: quiet_def)
          obtain n where n: "assertFrame (w_codec w) written = Inr n"
            using Inr unfolding broker_replace_def by (auto elim!: bindE_InrE)
          obtain i where i: "find_record (sr_id (ic_record claim)) (cb_events (sto_broker s) sid) = Some i"
              "b = (sto_broker s)\<lparr>cb_events := (cb_events (sto_broker s))(sid := take i (cb_events (sto_broker s) sid)
                 @ drop (Suc i) (cb_events (sto_broker s) sid) @ [written])\<rparr>"
            using Inr sb unfolding broker_replace_def by (auto elim!: bindE_InrE split: option.splits)
          define s4 where "s4 = s3\<lparr>sto_broker := b,
              sto_claims := (sto_claims s3)(eventKey sid c \<mapsto> claim\<lparr>ic_record := written\<rparr>)\<rparr>"
          obtain b2 where 5: "on_broker (broker_publish (w_codec w) written) s4 = (Inr (), s4\<lparr>sto_broker := b2\<rparr>)"
            "cb_events b2 = cb_events (sto_broker s4)" "b2 = cma_broker_step (w_codec w) (sto_broker s4) (OpPublish written)"
            by (rule on_broker_publish [OF n])
          define t where "t = s4\<lparr>sto_broker := b2\<rparr>"
          define res where "res = (case failure of Some e \<Rightarrow> Inl e | None \<Rightarrow> Inr written)"
          let ?replace = "on_broker (broker_replace (w_codec w) sid (sr_id (ic_record claim)) written)"
          have replaced: "?replace s3 = (Inr (), s3\<lparr>sto_broker := b\<rparr>)" using Inr by (simp add: on_broker_def)
          have s4: "(s3\<lparr>sto_broker := b\<rparr>)\<lparr>sto_claims := (sto_claims (s3\<lparr>sto_broker := b\<rparr>))
              (eventKey sid c \<mapsto> claim\<lparr>ic_record := written\<rparr>)\<rparr> = s4" by (simp add: s4_def)
          have "settle now s1 = (case failure of Some e \<Rightarrow> throw e | None \<Rightarrow> ret written) t"
            unfolding step if_not_P [OF keep] bindC_run(1) [where m = ?replace, OF replaced] bindC_simple(3) s4
              bindC_run(1) [where m = "on_broker (broker_publish (w_codec w) written)", OF 5(1)] t_def [symmetric] ..
          then have r: "settleInboundEvent w sid c l st given s = (res, t)"
            using go by (cases failure) (simp_all add: res_def throw_def ret_def)
          have q: "quiet (s\<lparr>sto_claims := (sto_claims s)(eventKey sid c \<mapsto> claim\<lparr>ic_record := written\<rparr>),
                sto_broker := sto_broker t\<rparr>) t"
            using q3 by (simp add: quiet_def t_def s4_def)
          have ev: "cb_events (sto_broker t) = (cb_events (sto_broker s))(sid := take i (cb_events (sto_broker s) sid)
             @ drop (Suc i) (cb_events (sto_broker s) sid) @ [written])"
            using 5(2) i(2) by (simp add: t_def s4_def)
          have "cma_broker_ok (sto_broker s4)" if "cma_broker_ok (sto_broker s)"
            using that i(2) by (simp add: s4_def cma_broker_ok_def)
          then have ok: "cma_broker_ok (sto_broker s) \<longrightarrow> cma_broker_ok (sto_broker t)"
            using cma_broker_step_ok [of "sto_broker s4" "w_codec w" "OpPublish written"] 5(3)
            by (simp add: t_def del: cma_broker_step.simps)
          have status: "sr_commandStatus written \<in> {Some CommandCompleted, Some CommandFailed}"
            by (cases st) (auto simp: written_def updated_def)
          have outcome: "res = Inr written \<or> (\<exists>e. res = Inl e)" by (cases failure) (simp_all add: res_def)
          have kt: "k < sto_calls t" using k(2) by (simp add: t_def s4_def)
          have same: "sr_command written = sr_command (ic_record claim)" "sr_event written = sr_event (ic_record claim)"
            "sr_cursor written = w_ids w k" by (simp_all add: written_def updated_def)
          show thesis by (rule Settles [OF r Some acc lease outcome status same k(1) kt i(1) q ev ok])
        qed
      qed
    qed
  qed
qed

end
