(* ===== verification/Cma_Invariants.thy ===== *)
theory Cma_Invariants
  imports Cma_Safety
begin

text \<open>
  The memory store over any sequence of calls: what never goes back, and the invariants of
  the reachable stores.
\<close>

section \<open>What never goes back\<close>

definition settled_claim :: "inbound_claim \<Rightarrow> bool" where
  "settled_claim c \<longleftrightarrow> sr_commandStatus (ic_record c) \<noteq> Some CommandAccepted"

definition evolves :: "cma_store \<Rightarrow> cma_store \<Rightarrow> bool" where
  "evolves s t \<longleftrightarrow>
     (\<forall>k x. sto_sources s k = Some x \<longrightarrow> sto_sources t k = Some x)
     \<and> (\<forall>i x. sto_sessions s i = Some x \<longrightarrow>
          (\<exists>y. sto_sessions t i = Some y \<and> (cs_status x = StatusTerminated \<longrightarrow> cs_status y = StatusTerminated)))
     \<and> (\<forall>k c. sto_claims s k = Some c \<longrightarrow>
          (\<exists>d. sto_claims t k = Some d \<and> sr_command (ic_record d) = sr_command (ic_record c)
             \<and> sr_event (ic_record d) = sr_event (ic_record c)
             \<and> (settled_claim c \<longrightarrow> ic_record d = ic_record c)))
     \<and> sto_calls s \<le> sto_calls t"

lemma evolves_refl: "evolves s s"
  by (auto simp: evolves_def)

lemma evolves_trans:
  assumes "evolves s t" "evolves t u"
  shows "evolves s u"
proof -
  have "\<exists>y. sto_sessions u i = Some y \<and> (cs_status x = StatusTerminated \<longrightarrow> cs_status y = StatusTerminated)"
    if "sto_sessions s i = Some x" for i x
    using that assms unfolding evolves_def by meson
  moreover have "\<exists>d. sto_claims u k = Some d \<and> sr_command (ic_record d) = sr_command (ic_record c)
      \<and> sr_event (ic_record d) = sr_event (ic_record c) \<and> (settled_claim c \<longrightarrow> ic_record d = ic_record c)"
    if claim: "sto_claims s k = Some c" for k c
  proof -
    obtain d where d: "sto_claims t k = Some d" "sr_command (ic_record d) = sr_command (ic_record c)"
        "sr_event (ic_record d) = sr_event (ic_record c)" "settled_claim c \<longrightarrow> ic_record d = ic_record c"
      using claim assms(1) unfolding evolves_def by blast
    obtain e where "sto_claims u k = Some e" "sr_command (ic_record e) = sr_command (ic_record d)"
        "sr_event (ic_record e) = sr_event (ic_record d)" "settled_claim d \<longrightarrow> ic_record e = ic_record d"
      using d(1) assms(2) unfolding evolves_def by blast
    with d show ?thesis by (auto simp: settled_claim_def)
  qed
  moreover have "sto_calls s \<le> sto_calls u" using assms by (simp add: evolves_def)
  ultimately show ?thesis using assms unfolding evolves_def by blast
qed

lemma quiet_evolves: "quiet s t \<Longrightarrow> evolves s t"
  by (auto simp: quiet_def evolves_def)

lemma evolves_fields:
  assumes "sto_sources t = sto_sources s" "sto_sessions t = sto_sessions s" "sto_claims t = sto_claims s"
    "sto_calls s \<le> sto_calls t"
  shows "evolves s t"
  using assms by (auto simp: evolves_def)

lemma append_evolves: "evolves s (snd (appendDriverEvent w sid input s))"
proof (cases rule: append_cases [of w sid input s])
  case (Fails e t)
  then show ?thesis by (simp add: quiet_evolves)
next
  case (Known session event old records)
  then show ?thesis by (simp add: evolves_refl)
next
  case (Ignored session event)
  then show ?thesis
    by (auto simp: evolves_def remembered_def source_key_def split: option.split if_splits)
next
  case (New session event ts pending s1 s2)
  let ?k = "source_key sid event"
  let ?t = "remembered ?k event (map fst ts) s2"
  note c = New(10) [unfolded committed_def with_permissions_def] and q = quiet_fields [OF New(7)]
  have sources: "sto_sources ?t k = Some x" if "sto_sources s k = Some x" for k x
    using that New(4) c q by (cases ?k) (auto simp: remembered_def)
  have other: "sto_sessions ?t i = sto_sessions s i" if "i \<noteq> sid" for i
    using that c q by (simp add: remembered_def split: option.split)
  have own: "sto_sessions ?t sid \<noteq> None"
  proof -
    have "map_option cs_status (sto_sessions s2 sid) \<noteq> None" using c q New(2) by (simp del: map_option_eq_Some not_None_eq)
    then have "sto_sessions s2 sid \<noteq> None" by (cases "sto_sessions s2 sid") simp_all
    then show ?thesis by (simp add: remembered_def split: option.split)
  qed
  have "\<exists>y. sto_sessions ?t i = Some y \<and> (cs_status x = StatusTerminated \<longrightarrow> cs_status y = StatusTerminated)"
    if "sto_sessions s i = Some x" for i x
    using that other [of i] own New(2,5) by (cases "i = sid") auto
  moreover have "sto_claims ?t = sto_claims s" "sto_calls s \<le> sto_calls ?t"
    using c q by (simp_all add: remembered_def split: option.split)
  ultimately have "evolves s ?t" using sources by (auto simp: evolves_def)
  with New(1) show ?thesis by simp
qed

lemma claim_evolves: "evolves s (snd (claimInboundEvent w sid command event s))"
proof (cases rule: claim_cases [of w sid command event s])
  case (Fails e t)
  then show ?thesis by (simp add: quiet_evolves)
next
  case (Known session claim)
  then show ?thesis by (simp add: evolves_refl)
next
  case (New session r lease s1 t)
  note q1 = quiet_fields [OF New(5)] and q2 = quiet_fields [OF New(11)]
  have "sto_claims t = (sto_claims s)(claim_key sid command \<mapsto> \<lparr>ic_lease = lease, ic_record = r\<rparr>)" using q2 by simp
  moreover have "sto_sources t = sto_sources s" "sto_sessions t = sto_sessions s" "sto_calls s \<le> sto_calls t"
    using q1 q2 by simp_all
  ultimately have "evolves s t" using New(4) by (auto simp: evolves_def)
  with New(1) show ?thesis by simp
qed

lemma renew_evolves: "evolves s (snd (renewInboundEventClaim w sid c l s))"
proof (cases rule: renew_cases [of w sid c l s])
  case (Fails e t)
  then show ?thesis by (simp add: quiet_evolves)
next
  case (Renews claim lease t)
  note q = quiet_fields [OF Renews(4)]
  have "sto_claims t = (sto_claims s)(eventKey sid c \<mapsto> claim\<lparr>ic_lease := lease\<rparr>)"
    "sto_sources t = sto_sources s" "sto_sessions t = sto_sessions s" "sto_calls s \<le> sto_calls t"
    using q by simp_all
  then have "evolves s t" using Renews(2) by (auto simp: evolves_def)
  with Renews(1) show ?thesis by simp
qed

lemma settle_evolves: "evolves s (snd (settleInboundEvent w sid c l st given s))"
proof (cases rule: settle_cases [of w sid c l st given s])
  case (Quiet res t)
  then show ?thesis by (simp add: quiet_evolves)
next
  case (Settles claim written res t i k)
  note q = quiet_fields [OF Settles(13)]
  have "sto_claims t = (sto_claims s)(eventKey sid c \<mapsto> claim\<lparr>ic_record := written\<rparr>)"
    "sto_sources t = sto_sources s" "sto_sessions t = sto_sessions s" "sto_calls s \<le> sto_calls t"
    using q by simp_all
  then have "evolves s t" using Settles(2,3,7,8) by (auto simp: evolves_def settled_claim_def)
  with Settles(1) show ?thesis by simp
qed

text \<open>The calls that touch neither logs nor claims nor the status of a session that exists.\<close>

definition plain :: "cma_store \<Rightarrow> cma_store \<Rightarrow> bool" where
  "plain s t \<longleftrightarrow>
     sto_sources t = sto_sources s \<and> sto_claims t = sto_claims s \<and> sto_permissions t = sto_permissions s
     \<and> cb_events (sto_broker t) = cb_events (sto_broker s)
     \<and> (\<forall>i x. sto_sessions s i = Some x \<longrightarrow> sto_sessions t i = Some x)
     \<and> sto_calls s \<le> sto_calls t
     \<and> (cma_broker_ok (sto_broker s) \<longrightarrow> cma_broker_ok (sto_broker t))"

lemma plain_evolves: "plain s t \<Longrightarrow> evolves s t"
  by (auto simp: plain_def evolves_def)

lemma quiet_plain: "quiet s t \<Longrightarrow> plain s t"
  by (simp add: quiet_def plain_def)

lemma plain_trans: "plain s t \<Longrightarrow> plain t u \<Longrightarrow> plain s u"
  by (simp add: plain_def)

lemma given_or_new_quiet: "\<exists>i s'. given_or_new w resource given s = (Inr i, s') \<and> quiet s s'"
  using newId_quiet [of w resource s] by (cases given) (auto simp: given_or_new_def ret_def)

text \<open>A call that reads an identifier, may refuse it, reads the clock and makes one change.\<close>

lemma make_plain:
  assumes "\<And>i s' now u. quiet s u \<Longrightarrow> plain s (change_to i now u)"
    and "m = bindC (given_or_new w resource given) (\<lambda>i. bindC (reading (refused i)) (\<lambda>e.
      case e of Some e \<Rightarrow> throw e
      | None \<Rightarrow> bindC (nowIso w) (\<lambda>now. bindC (change (change_to i now)) (\<lambda>_. ret (made i now)))))"
  shows "plain s (snd (m s))"
proof -
  obtain i s1 where 1: "given_or_new w resource given s = (Inr i, s1)" "quiet s s1"
    using given_or_new_quiet by blast
  obtain now s2 where 2: "nowIso w s1 = (Inr now, s2)" "quiet s1 s2" using nowIso_quiet by blast
  have "quiet s s2" using 1(2) 2(2) quiet_trans by blast
  then have "plain s (change_to i now s2)" by (rule assms(1))
  then show ?thesis
    using 1 2 quiet_plain unfolding assms(2)
    by (cases "refused i s1") (simp_all add: bindC_def reading_def throw_def change_def ret_def)
qed

lemma bindC_if_throw:
  "bindC (reading p) (\<lambda>b. if b then throw e else f) = bindC (reading (\<lambda>s. if p s then Some e else None))
     (\<lambda>r. case r of Some e \<Rightarrow> throw e | None \<Rightarrow> f)"
  by (rule ext) (simp add: bindC_def reading_def)

lemma putAgent_plain: "plain s (snd (putAgent w given metadata name s))"
  by (rule make_plain [OF _ putAgent_def [unfolded Let_def bindC_if_throw]])
    (simp add: quiet_def plain_def)

lemma putEnvironment_plain: "plain s (snd (putEnvironment w given config metadata name s))"
  by (rule make_plain [OF _ putEnvironment_def [unfolded Let_def bindC_if_throw]])
    (simp add: quiet_def plain_def)

lemma deleteEnvironment_plain: "plain s (snd (deleteEnvironment i s))"
  by (simp add: deleteEnvironment_def plain_def)

lemma archiveEnvironment_plain: "plain s (snd (archiveEnvironment w i s))"
proof (cases "sto_environments s i")
  case None
  then show ?thesis by (simp add: archiveEnvironment_def requireEnvironment_def bindC_def plain_def)
next
  case (Some x)
  obtain t1 s1 where 1: "(case ce_archivedAt x of None \<Rightarrow> nowIso w | Some t \<Rightarrow> ret t) s = (Inr t1, s1)" "quiet s s1"
    using nowIso_quiet [of w s] by (cases "ce_archivedAt x") (auto simp: ret_def)
  obtain now s2 where 2: "nowIso w s1 = (Inr now, s2)" "quiet s1 s2" using nowIso_quiet by blast
  have "requireEnvironment i s = (Inr x, s)" using Some by (simp add: requireEnvironment_def)
  then have "snd (archiveEnvironment w i s)
      = s2\<lparr>sto_environments := (sto_environments s2)(i \<mapsto> x\<lparr>ce_archivedAt := Some t1, ce_updatedAt := now\<rparr>)\<rparr>"
    using 1(1) 2(1) by (simp add: archiveEnvironment_def bindC_def change_def ret_def Let_def)
  then show ?thesis using 1(2) 2(2) by (simp add: quiet_def plain_def)
qed

lemma stream_plain: "plain s (snd (streamSessionEvents w sid after s))"
proof (cases "sto_sessions s sid")
  case None
  then show ?thesis by (simp add: streamSessionEvents_def requireSession_def bindC_def plain_def)
next
  case (Some x)
  let ?op = "OpStream sid after (cs_status x \<noteq> StatusTerminated)"
  have "snd (streamSessionEvents w sid after s) = s\<lparr>sto_broker := cma_broker_step (w_codec w) (sto_broker s) ?op\<rparr>"
    using Some by (simp add: streamSessionEvents_def requireSession_def bindC_def on_broker_def kept_if_thrown_def split: sum.split)
  moreover have "cb_events (cma_broker_step (w_codec w) (sto_broker s) ?op) = cb_events (sto_broker s)"
    by (auto simp: kept_if_thrown_def broker_stream_def split: sum.split if_splits elim!: bindE_InrE)
  ultimately show ?thesis
    using cma_broker_step_ok [of "sto_broker s" "w_codec w" ?op] by (simp add: plain_def del: cma_broker_step.simps)
qed

lemma pull_plain: "plain s (s\<lparr>sto_broker := broker_pull k (sto_broker s)\<rparr>)"
  using on_stream_ok [OF _ pull_ok, of "sto_broker s" k]
  by (simp add: plain_def broker_pull_def) (simp add: on_stream_def)

lemma cancel_plain: "plain s (s\<lparr>sto_broker := broker_cancel k (sto_broker s)\<rparr>)"
  using on_stream_ok [OF _ cancel_ok, of "sto_broker s" k]
  by (simp add: plain_def broker_cancel_def) (simp add: on_stream_def)

lemma putSession_plain: "plain s (snd (putSession w given a e metadata s))"
proof -
  obtain i s1 where 1: "given_or_new w SessionResource given s = (Inr i, s1)" "quiet s s1"
    using given_or_new_quiet by blast
  obtain now s2 where 2: "nowIso w s1 = (Inr now, s2)" "quiet s1 s2" using nowIso_quiet by blast
  have q: "quiet s s2" using 1(2) 2(2) quiet_trans by blast
  show ?thesis
  proof (cases "sto_sessions s1 i = None \<and> (case a of None \<Rightarrow> True | Some a \<Rightarrow> sto_agents s1 a \<noteq> None)
      \<and> (case e of None \<Rightarrow> True | Some e \<Rightarrow> sto_environments s1 e \<noteq> None)")
    case True
    then have fresh: "sto_sessions s1 i = None" by simp
    have "\<exists>r. snd (putSession w given a e metadata s) = s2\<lparr>sto_sessions := (sto_sessions s2)(i \<mapsto> r)\<rparr>"
      using True 1(1) 2(1) by (auto simp: putSession_def bindC_def reading_def change_def ret_def Let_def split: option.splits)
    then show ?thesis using q fresh quiet_fields(6) [OF 1(2)] quiet_fields [OF q] by (auto simp: plain_def)
  next
    case False
    then have "snd (putSession w given a e metadata s) = s1"
      using 1(1) by (auto simp: putSession_def bindC_def reading_def throw_def split: option.splits)
    then show ?thesis using quiet_plain [OF 1(2)] by simp
  qed
qed

lemma step_evolves: "evolves s (store_step w s op)"
  by (cases op) (simp_all add: plain_evolves putAgent_plain putEnvironment_plain putSession_plain
    archiveEnvironment_plain deleteEnvironment_plain stream_plain pull_plain cancel_plain
    append_evolves claim_evolves renew_evolves settle_evolves)

lemma run_evolves: "evolves s (store_run w ops s)"
proof (induction ops arbitrary: s)
  case Nil
  then show ?case by (simp add: store_run_def evolves_refl)
next
  case (Cons op ops)
  then show ?case using step_evolves [of s w op] evolves_trans by (force simp: store_run_def)
qed

section \<open>Waiting sessions\<close>

definition may_wait :: "cma_session_status \<Rightarrow> bool" where
  "may_wait st \<longleftrightarrow> st = StatusIdle \<or> st = StatusRescheduling"

lemma update_nonempty: "AList.update k v xs \<noteq> []"
  by (induction xs) auto

lemma next_status_waits:
  assumes "pending \<noteq> [] \<longrightarrow> may_wait current"
    "nextSessionStatus current event proposed action pending = (status, pending')"
    "proposed \<noteq> None \<longrightarrow> re_kind event \<in> set [''permission.requested'', ''permission.resolved'', ''run.started'',
       ''run.waiting'', ''run.cancelled'', ''run.completed'', ''run.failed'']"
  shows "pending' \<noteq> [] \<longrightarrow> may_wait (case status of None \<Rightarrow> current | Some st \<Rightarrow> st)"
proof (cases "re_kind event \<in> set [''permission.requested'', ''permission.resolved'', ''run.started'',
       ''run.waiting'', ''run.cancelled'', ''run.completed'', ''run.failed'']")
  case True
  then show ?thesis using assms(1,2)
    by (auto simp: nextSessionStatus_def may_wait_def Let_def split: if_split_asm option.split_asm json.split_asm)
next
  case False
  then have "nextSessionStatus current event proposed action pending = (proposed, pending)"
    by (simp add: nextSessionStatus_def Let_def)
  then show ?thesis using assms False by auto
qed

lemma projected_status:
  assumes "p \<in> set (projectDriverEventToCma kind payload)" "oe_sessionStatus p \<noteq> None"
  shows "kind \<in> set [''permission.requested'', ''permission.resolved'', ''run.started'',
       ''run.waiting'', ''run.cancelled'', ''run.completed'', ''run.failed'']"
proof (rule ccontr)
  assume "kind \<notin> set [''permission.requested'', ''permission.resolved'', ''run.started'',
       ''run.waiting'', ''run.cancelled'', ''run.completed'', ''run.failed'']"
  then have "oe_sessionStatus p = None"
    using assms(1) by (auto simp: projectDriverEventToCma_def Let_def outbound_def split: if_split_asm)
  with assms(2) show False by simp
qed

definition last_status :: "cma_session_status \<Rightarrow> ('r \<times> cma_session_status option) list \<Rightarrow> cma_session_status" where
  "last_status = foldl (\<lambda>c (_, st). case st of None \<Rightarrow> c | Some st \<Rightarrow> st)"

lemma transitions_wait:
  assumes "transitions w event sid ps current pending s = (Inr (ts, pending'), t)"
    "pending \<noteq> [] \<longrightarrow> may_wait current"
    "\<forall>p\<in>set ps. oe_sessionStatus p \<noteq> None \<longrightarrow> re_kind event \<in> set [''permission.requested'', ''permission.resolved'',
       ''run.started'', ''run.waiting'', ''run.cancelled'', ''run.completed'', ''run.failed'']"
  shows "pending' \<noteq> [] \<longrightarrow> may_wait (last_status current ts)"
  using assms
proof (induction ps arbitrary: current pending s ts)
  case Nil
  then show ?case by (simp add: ret_def last_status_def)
next
  case (Cons p ps)
  obtain status pending1 where n: "nextSessionStatus current event (oe_sessionStatus p) (oe_requiresAction p) pending
      = (status, pending1)" by (metis surj_pair)
  define current1 where "current1 = (case status of None \<Rightarrow> current | Some s \<Rightarrow> s)"
  have w1: "pending1 \<noteq> [] \<longrightarrow> may_wait current1"
    using next_status_waits [OF Cons.prems(2) n] Cons.prems(3) by (simp add: current1_def)
  let ?make = "createEvent w None None Outbound (OutboundEvent (transition_event p status pending1)) sid"
  have run: "bindC ?make (\<lambda>r. bindC (transitions w event sid ps current1 pending1) (\<lambda>(rs, pending'').
           ret ((r, status) # rs, pending''))) s = (Inr (ts, pending'), t)"
    using Cons.prems(1) by (simp add: n current1_def)
  obtain r s1 where 1: "?make s = (Inr r, s1)"
    "bindC (transitions w event sid ps current1 pending1) (\<lambda>(rs, pending''). ret ((r, status) # rs, pending'')) s1
       = (Inr (ts, pending'), t)"
    using run by (auto simp: bindC_def split: prod.splits sum.splits)
  obtain rs s2 where 2: "transitions w event sid ps current1 pending1 s1 = (Inr (rs, pending'), s2)"
    "ts = (r, status) # rs" "s2 = t"
    using 1(2) by (auto simp: bindC_def ret_def split: prod.splits sum.splits)
  have "pending' \<noteq> [] \<longrightarrow> may_wait (last_status current1 rs)"
    using Cons.IH [OF _ w1] 2(1,3) Cons.prems(3) by simp
  then show ?case by (simp add: 2(2) last_status_def current1_def)
qed

section \<open>The invariant of the store\<close>

definition log_of :: "cma_store \<Rightarrow> string \<Rightarrow> event_record list" where
  "log_of s sid = cb_events (sto_broker s) sid"

definition cursors_ok :: "cma_world \<Rightarrow> nat \<Rightarrow> event_record list \<Rightarrow> bool" where
  "cursors_ok w n rs \<longleftrightarrow>
     (\<exists>ks. map sr_cursor rs = map (w_ids w) ks \<and> sorted_wrt (<) ks \<and> (\<forall>k\<in>set ks. k < n))"

definition store_ok :: "cma_world \<Rightarrow> cma_store \<Rightarrow> bool" where
  "store_ok w s \<longleftrightarrow>
     cma_broker_ok (sto_broker s)
     \<and> (\<forall>sid. cursors_ok w (sto_calls s) (log_of s sid))
     \<and> (\<forall>sid. pending_of s sid \<noteq> [] \<longrightarrow> (\<exists>x. sto_sessions s sid = Some x \<and> may_wait (cs_status x)))"

lemma cursors_ok_mono: "cursors_ok w n rs \<Longrightarrow> n \<le> m \<Longrightarrow> cursors_ok w m rs"
  unfolding cursors_ok_def by (meson order_less_le_trans)

lemma cursors_ok_append:
  assumes "cursors_ok w n rs" "map sr_cursor qs = map (w_ids w) ks" "sorted_wrt (<) ks" "\<forall>k\<in>set ks. n \<le> k \<and> k < m" "n \<le> m"
  shows "cursors_ok w m (rs @ qs)"
proof -
  obtain js where "map sr_cursor rs = map (w_ids w) js" "sorted_wrt (<) js" "\<forall>k\<in>set js. k < n"
    using assms(1) by (auto simp: cursors_ok_def)
  then show ?thesis using assms(2-5) unfolding cursors_ok_def
    by (intro exI [of _ "js @ ks"]) (auto simp: sorted_wrt_append intro: less_le_trans)
qed

lemma cursors_ok_delete:
  assumes "cursors_ok w n rs"
  shows "cursors_ok w n (take i rs @ drop (Suc i) rs)"
proof -
  obtain ks where ks: "map sr_cursor rs = map (w_ids w) ks" "sorted_wrt (<) ks" "\<forall>k\<in>set ks. k < n"
    using assms by (auto simp: cursors_ok_def)
  have split: "sorted_wrt (<) (take i ks @ drop i ks)" using ks(2) by (simp only: append_take_drop_id)
  have tail: "drop (Suc i) ks = drop 1 (drop i ks)" by simp
  have "sorted_wrt (<) (take i ks @ drop (Suc i) ks)"
    unfolding sorted_wrt_append
  proof (intro conjI ballI)
    show "sorted_wrt (<) (take i ks)" using split by (simp only: sorted_wrt_append)
    show "sorted_wrt (<) (drop (Suc i) ks)" unfolding tail by (rule sorted_wrt_drop) (use split in \<open>simp only: sorted_wrt_append\<close>)
    fix x y
    assume "x \<in> set (take i ks)" "y \<in> set (drop (Suc i) ks)"
    moreover have "set (drop (Suc i) ks) \<subseteq> set (drop i ks)" unfolding tail by (rule set_drop_subset)
    ultimately show "x < y" using split unfolding sorted_wrt_append by blast
  qed
  moreover have "map sr_cursor (take i rs @ drop (Suc i) rs) = map (w_ids w) (take i ks @ drop (Suc i) ks)"
    by (simp add: take_map [symmetric] drop_map [symmetric] ks(1))
  moreover have "\<forall>k\<in>set (take i ks @ drop (Suc i) ks). k < n" using ks(3) by (auto dest: in_set_takeD in_set_dropD)
  ultimately show ?thesis unfolding cursors_ok_def by blast
qed

lemma store_ok_plain:
  assumes "store_ok w s" "plain s t"
  shows "store_ok w t"
proof -
  have "cursors_ok w (sto_calls t) (log_of t sid)" for sid
    using assms cursors_ok_mono unfolding store_ok_def plain_def log_of_def by metis
  moreover have "pending_of t sid = pending_of s sid" for sid
    using assms(2) by (simp add: plain_def pending_of_def)
  ultimately show ?thesis using assms unfolding store_ok_def plain_def by metis
qed

lemma store_ok_quiet: "store_ok w s \<Longrightarrow> quiet s t \<Longrightarrow> store_ok w t"
  using store_ok_plain quiet_plain by blast

lemma append_ok:
  assumes "store_ok w s"
  shows "store_ok w (snd (appendDriverEvent w sid input s))"
proof (cases rule: append_cases [of w sid input s])
  case (Fails e t)
  then show ?thesis using store_ok_quiet [OF assms] by simp
next
  case (Known session event old records)
  then show ?thesis using assms by simp
next
  case (Ignored session event)
  then show ?thesis using assms
    by (auto simp: store_ok_def remembered_def log_of_def pending_of_def split: option.split)
next
  case (New session event ts pending s1 s2)
  let ?t = "remembered (source_key sid event) event (map fst ts) s2"
  note c = New(10) [unfolded committed_def with_permissions_def] and q = quiet_fields [OF New(7)]
  have t: "sto_broker ?t = sto_broker s2" "sto_calls ?t = sto_calls s2" "sto_sessions ?t = sto_sessions s2"
    "sto_permissions ?t = sto_permissions s2"
    by (simp_all add: remembered_def split: option.split)
  have "cma_broker_ok (sto_broker ?t)" using assms c q t by (simp add: store_ok_def)
  moreover have "cursors_ok w (sto_calls ?t) (log_of ?t i)" for i
  proof -
    have calls: "sto_calls ?t = sto_calls s1" using c t by simp
    obtain ks where ks: "map (sr_cursor \<circ> fst) ts = map (w_ids w) ks" "sorted_wrt (<) ks"
      "\<forall>k\<in>set ks. sto_calls s \<le> k \<and> k < sto_calls s1" using New(9) by blast
    have old: "cursors_ok w (sto_calls s) (log_of s j)" for j using assms by (simp add: store_ok_def)
    have "cursors_ok w (sto_calls s1) (log_of s sid @ map fst ts)"
      by (rule cursors_ok_append [OF old _ ks(2,3) q(8)]) (use ks(1) in simp)
    moreover have "log_of ?t i = (if i = sid then log_of s sid @ (if re_delivery event = ''lossless'' then map fst ts else [])
        else log_of s i)"
      using c q t by (simp add: log_of_def)
    ultimately show ?thesis using cursors_ok_mono [OF old q(8)] calls by simp
  qed
  moreover have "\<exists>x. sto_sessions ?t i = Some x \<and> may_wait (cs_status x)" if waits: "pending_of ?t i \<noteq> []" for i
  proof (cases "i = sid")
    case False
    have "pending_of ?t i = pending_of s i" using False c q t by (simp add: pending_of_def)
    moreover have "sto_sessions ?t i = sto_sessions s i" using False c q t by simp
    ultimately show ?thesis using assms waits by (simp add: store_ok_def)
  next
    case True
    have "sto_permissions ?t sid = (if pending = [] then None else Some pending)" using c t by simp
    then have "pending \<noteq> []" using waits True by (auto simp: pending_of_def split: if_split_asm)
    moreover have "pending_of s sid \<noteq> [] \<longrightarrow> may_wait (cs_status session)"
      using assms New(2) by (auto simp: store_ok_def)
    then have "pending \<noteq> [] \<longrightarrow> may_wait (last_status (cs_status session) ts)"
      using transitions_wait [OF New(6)] projected_status by blast
    ultimately have "may_wait (last_status (cs_status session) ts)" by blast
    moreover have "map_option cs_status (sto_sessions ?t sid) = Some (last_status (cs_status session) ts)"
      using c q t New(2) by (simp add: last_status_def del: map_option_eq_Some)
    ultimately show ?thesis using True by auto
  qed
  ultimately show ?thesis using New(1) by (simp add: store_ok_def)
qed

lemma claim_ok:
  assumes "store_ok w s"
  shows "store_ok w (snd (claimInboundEvent w sid command event s))"
proof (cases rule: claim_cases [of w sid command event s])
  case (Fails e t)
  then show ?thesis using store_ok_quiet [OF assms] by simp
next
  case (Known session claim)
  then show ?thesis using assms by simp
next
  case (New session r lease s1 t)
  note q1 = quiet_fields [OF New(5)] and q2 = quiet_fields [OF New(11)]
  obtain k where k: "sto_calls s \<le> k" "k < sto_calls s1" "sr_cursor r = w_ids w k"
    using New(6) by (auto simp: record_made_def)
  have calls: "sto_calls s1 \<le> sto_calls t" "sto_calls s \<le> sto_calls t" using q1(8) q2(8) by simp_all
  have old: "cursors_ok w (sto_calls s) (log_of s j)" for j using assms by (simp add: store_ok_def)
  have "cursors_ok w (sto_calls t) (log_of s sid @ [r])"
    by (rule cursors_ok_append [OF old, of _ "[k]"]) (use k calls in auto)
  then have "cursors_ok w (sto_calls t) (log_of t i)" for i
    using New(12) cursors_ok_mono [OF old calls(2), of i] by (simp add: log_of_def)
  moreover have "pending_of t i = pending_of s i" "sto_sessions t i = sto_sessions s i" for i
    using q1 q2 by (simp_all add: pending_of_def)
  ultimately show ?thesis using assms New(1,13) by (simp add: store_ok_def)
qed

lemma renew_ok:
  assumes "store_ok w s"
  shows "store_ok w (snd (renewInboundEventClaim w sid c l s))"
proof (cases rule: renew_cases [of w sid c l s])
  case (Fails e t)
  then show ?thesis using store_ok_quiet [OF assms] by simp
next
  case (Renews claim lease t)
  have "store_ok w (s\<lparr>sto_claims := (sto_claims s)(eventKey sid c \<mapsto> claim\<lparr>ic_lease := lease\<rparr>)\<rparr>)"
    using assms by (simp add: store_ok_def log_of_def pending_of_def)
  then show ?thesis using Renews(1) store_ok_quiet [OF _ Renews(4)] by simp
qed

lemma settle_ok:
  assumes "store_ok w s"
  shows "store_ok w (snd (settleInboundEvent w sid c l st given s))"
proof (cases rule: settle_cases [of w sid c l st given s])
  case (Quiet res t)
  then show ?thesis using store_ok_quiet [OF assms] by simp
next
  case (Settles claim written res t i k)
  note q = quiet_fields [OF Settles(13)]
  have calls: "sto_calls s \<le> sto_calls t" using q(8) by simp
  have old: "cursors_ok w (sto_calls s) (log_of s j)" for j using assms by (simp add: store_ok_def)
  have "cursors_ok w (sto_calls t) ((take i (log_of s sid) @ drop (Suc i) (log_of s sid)) @ [written])"
    by (rule cursors_ok_append [OF cursors_ok_delete [OF old], of _ "[k]"]) (use Settles(9,10,11) calls in auto)
  then have "cursors_ok w (sto_calls t) (log_of t j)" for j
    using Settles(14) cursors_ok_mono [OF old calls, of j] by (simp add: log_of_def)
  moreover have "pending_of t j = pending_of s j" "sto_sessions t j = sto_sessions s j" for j
    using q by (simp_all add: pending_of_def)
  ultimately show ?thesis using assms Settles(1,15) by (simp add: store_ok_def)
qed

lemma step_ok: "store_ok w s \<Longrightarrow> store_ok w (store_step w s op)"
  by (cases op) (simp_all add: store_ok_plain [OF _ putAgent_plain] store_ok_plain [OF _ putEnvironment_plain]
    store_ok_plain [OF _ putSession_plain] store_ok_plain [OF _ archiveEnvironment_plain]
    store_ok_plain [OF _ deleteEnvironment_plain] store_ok_plain [OF _ stream_plain]
    store_ok_plain [OF _ pull_plain] store_ok_plain [OF _ cancel_plain] append_ok claim_ok renew_ok settle_ok)

lemma store_run_ok: "store_ok w s \<Longrightarrow> store_ok w (store_run w ops s)"
  by (induction ops arbitrary: s) (simp_all add: store_run_def step_ok)

lemma empty_store_ok: "store_ok w empty_store"
  using new_cma_broker_ok
  by (simp add: store_ok_def empty_store_def log_of_def cursors_ok_def pending_of_def) (simp add: new_cma_broker_def)

lemma each_cma_plain:
  assumes "\<And>x s. plain s (snd (f x s))"
  shows "plain s (snd (each_cma f xs s))"
proof (induction xs arbitrary: s)
  case (Cons x xs)
  show ?case
  proof (cases "f x s")
    case (Pair r s')
    then have "plain s s'" using assms [of s x] by simp
    then show ?thesis using Cons [of s'] Pair plain_trans by (cases r) (auto simp: bindC_def)
  qed
qed (simp add: plain_def)

lemma bindC_plain: "plain s (snd (m s)) \<Longrightarrow> (\<And>x t. plain t (snd (f x t))) \<Longrightarrow> plain s (snd (bindC m f s))"
  by (auto simp: bindC_def intro: plain_trans split: prod.split sum.split)

lemma created_store_ok:
  assumes "createCmaMemoryStore w as es ss = Inr s"
  shows "store_ok w s"
proof -
  let ?m = "bindC (each_cma (\<lambda>(i, metadata, name). putAgent w i metadata name) as) (\<lambda>_.
           bindC (each_cma (\<lambda>(i, config, metadata, name). putEnvironment w i config metadata name) es) (\<lambda>_.
             each_cma (\<lambda>c. putSession w (in_sessionId c) (in_agentId c) (in_environmentId c) (in_metadata c)) ss))"
  have "plain empty_store (snd (?m empty_store))"
    by (intro bindC_plain each_cma_plain) (auto simp: putAgent_plain putEnvironment_plain putSession_plain)
  moreover have "s = snd (?m empty_store)"
    using assms unfolding createCmaMemoryStore_def by (simp split: prod.splits sum.splits)
  ultimately show ?thesis using store_ok_plain [OF empty_store_ok] by simp
qed

end
