(* ===== verification/Cma_Behaviour.thy ===== *)
theory Cma_Behaviour
  imports Cma_Invariants
begin

text \<open>
  The contract of the memory store: redelivered events, commands handed out and settled once,
  terminated sessions, and reading a session's log from a cursor.
\<close>

section \<open>Redelivery\<close>

lemma append_remembers:
  assumes "appendDriverEvent w sid input s = (Inr records, t)"
    "admit_driver_event w sid input = Inr event" "re_delivery event = ''lossless''"
  obtains old where "sto_sources t (eventKey sid (source_of event)) = Some (old, records)"
    "old\<lparr>re_id := re_id event, re_occurredAt := re_occurredAt event\<rparr> = event" "sto_sessions t sid \<noteq> None"
proof -
  have key: "source_key sid event = Some (eventKey sid (source_of event))"
    using assms(3) by (simp add: source_key_def)
  have self: "event\<lparr>re_id := re_id event, re_occurredAt := re_occurredAt event\<rparr> = event" by simp
  have alive: "sto_sessions t sid \<noteq> None" if "sto_sessions s sid = Some x" for x
  proof -
    have "evolves s t" using append_evolves [of s w sid input] assms(1) by simp
    then show ?thesis using that unfolding evolves_def by blast
  qed
  show thesis
  proof (cases rule: append_cases [of w sid input s])
    case (Fails e u)
    then show thesis using assms(1) by simp
  next
    case (Known session event' old records')
    then show thesis using that [of old] assms(1,2) key alive by simp
  next
    case (Ignored session event')
    then show thesis using that [of event] assms(1,2) key alive self by (auto simp: remembered_def)
  next
    case (New session event' ts pending s1 s2)
    then show thesis using that [of event] assms(1,2) key alive self by (auto simp: remembered_def)
  qed
qed

lemma redelivered:
  assumes "appendDriverEvent w sid input s = (Inr records, t)"
    "admit_driver_event w sid input = Inr event" "re_delivery event = ''lossless''"
  shows "appendDriverEvent w sid input (store_run w ops t) = (Inr records, store_run w ops t)"
proof -
  obtain old where old: "sto_sources t (eventKey sid (source_of event)) = Some (old, records)"
    "old\<lparr>re_id := re_id event, re_occurredAt := re_occurredAt event\<rparr> = event" "sto_sessions t sid \<noteq> None"
    by (rule append_remembers [OF assms])
  let ?u = "store_run w ops t"
  have ev: "evolves t ?u" by (rule run_evolves)
  have src: "sto_sources ?u (eventKey sid (source_of event)) = Some (old, records)"
    using ev old(1) unfolding evolves_def by blast
  obtain x where x: "sto_sessions ?u sid = Some x" using ev old(3) unfolding evolves_def by blast
  have found: "requireSession sid ?u = (Inr x, ?u)" using x by (simp add: requireSession_run)
  have key: "Option.bind (source_key sid event) (sto_sources ?u) = Some (old, records)"
    using src assms(3) by (simp add: source_key_def)
  show ?thesis
    unfolding appendDriverEvent_def bindC_run(1) [where m = "requireSession sid", OF found] assms(2) bindC_simple(4,5) key
    using old(2) by (simp add: ret_def)
qed

section \<open>A failed append\<close>

lemma append_failed: "appendDriverEvent w sid input s = (Inl e, t) \<Longrightarrow> quiet s t"
  by (cases rule: append_cases [of w sid input s]) auto

section \<open>Commands\<close>

lemma claimed_once:
  assumes "claimInboundEvent w sid command event s = (Inr (Claimed r lease), t)"
    "command_id command' = command_id command"
  shows "fst (claimInboundEvent w sid command' event' (store_run w ops t)) \<noteq> Inr (Claimed r' lease')"
proof -
  have "sto_claims t (claim_key sid command) \<noteq> None"
  proof (cases rule: claim_cases [of w sid command event s])
    case (New session r1 lease1 s1 t1)
    have "t1 = t" using New(1) assms(1) by simp
    then show ?thesis using quiet_fields(4) [OF New(11)] by simp
  qed (use assms(1) in simp_all)
  then have "sto_claims (store_run w ops t) (claim_key sid command') \<noteq> None"
    using run_evolves [of t w ops] assms(2) unfolding evolves_def claim_key_def by fastforce
  then show ?thesis
    by (cases rule: claim_cases [of w sid command' event' "store_run w ops t"]) auto
qed

lemma settled_record:
  assumes "settleInboundEvent w sid c l st given s = (Inr r, t)"
  shows "\<exists>claim. sto_claims t (eventKey sid c) = Some claim \<and> ic_record claim = r \<and> settled_claim claim"
proof (cases rule: settle_cases [of w sid c l st given s])
  case (Quiet res u)
  then have tu: "res = Inr r" "u = t" using assms by simp_all
  obtain claim where "sto_claims s (eventKey sid c) = Some claim" "r = ic_record claim"
      "sr_commandStatus r = Some (settled_as st)"
    using Quiet(3) [OF tu(1)] by blast
  then show ?thesis using quiet_fields(4) [OF Quiet(2)] tu(2) by (cases st) (auto simp: settled_claim_def)
next
  case (Settles claim written res u i k)
  then have "res = Inr r" "u = t" using assms by simp_all
  moreover have "written = r" using Settles(5) calculation(1) by auto
  moreover have "sto_claims u (eventKey sid c) = Some (claim\<lparr>ic_record := written\<rparr>)"
    using quiet_fields(4) [OF Settles(13)] by simp
  ultimately show ?thesis using Settles(6) by (auto simp: settled_claim_def)
qed

lemma settled_once:
  assumes "settleInboundEvent w sid c l st given s = (Inr r, t)"
    "settleInboundEvent w sid c l' st' given' (store_run w ops t) = (Inr r', u)"
  shows "r' = r"
proof -
  obtain claim where claim: "sto_claims t (eventKey sid c) = Some claim" "ic_record claim = r" "settled_claim claim"
    using settled_record [OF assms(1)] by blast
  obtain d where d: "sto_claims (store_run w ops t) (eventKey sid c) = Some d" "ic_record d = r"
    using run_evolves [of t w ops] claim unfolding evolves_def by blast
  show ?thesis
  proof (cases rule: settle_cases [of w sid c l' st' given' "store_run w ops t"])
    case (Quiet res v)
    then have "res = Inr r'" using assms(2) by simp
    then show ?thesis using Quiet(3) d by force
  next
    case (Settles claim' written res v i k)
    then have "sr_commandStatus r = Some CommandAccepted" using d by simp
    then show ?thesis using claim by (simp add: settled_claim_def)
  qed
qed

section \<open>Terminated sessions\<close>

lemma terminated_run:
  assumes "sto_sessions s sid = Some x" "cs_status x = StatusTerminated"
  shows "\<exists>y. sto_sessions (store_run w ops s) sid = Some y \<and> cs_status y = StatusTerminated"
  using run_evolves [of s w ops] assms unfolding evolves_def by blast

lemma terminated_append:
  assumes "sto_sessions s sid = Some x" "cs_status x = StatusTerminated"
  shows "log_of (snd (appendDriverEvent w sid input s)) i = log_of s i"
proof (cases rule: append_cases [of w sid input s])
  case (Fails e t)
  then show ?thesis using quiet_fields(3) by (simp add: log_of_def)
next
  case (Known session event old records)
  then show ?thesis by simp
next
  case (Ignored session event)
  then show ?thesis by (simp add: log_of_def remembered_def split: option.split)
next
  case (New session event ts pending s1 s2)
  then show ?thesis using assms by simp
qed

lemma terminated_claim:
  assumes "sto_sessions s sid = Some x" "cs_status x = StatusTerminated"
  shows "fst (claimInboundEvent w sid command event s) \<noteq> Inr (Claimed r lease)"
  using assms by (cases rule: claim_cases [of w sid command event s]) auto

section \<open>Reading a log from a cursor\<close>

definition record_bytes :: "cma_codec \<Rightarrow> event_record \<Rightarrow> nat" where
  "record_bytes codec r = (case assertFrame codec r of Inl _ \<Rightarrow> 0 | Inr n \<Rightarrow> n)"

lemma list_step_pair:
  "list_step codec after (n, acc) r =
     (if (case after of None \<Rightarrow> False | Some c \<Rightarrow> sr_cursor r \<le> c) then Inr (n, acc)
      else bindE (assertFrame codec r) (\<lambda>b.
        if n + b > CMA_MAX_REPLAY_BYTES then Inl ReplayTooLarge else Inr (n + b, acc @ [r])))"
  unfolding list_step_def fst_conv snd_conv ..

lemma list_loop:
  assumes "foldE (list_step codec after) (n, acc) rs = Inr (m, replay)"
  shows "replay = acc @ filter (\<lambda>r. \<not> (case after of None \<Rightarrow> False | Some c \<Rightarrow> sr_cursor r \<le> c)) rs"
  using assms
proof (induction rs arbitrary: n acc)
  case (Cons r rs)
  show ?case
  proof (cases "case after of None \<Rightarrow> False | Some c \<Rightarrow> sr_cursor r \<le> c")
    case True
    then show ?thesis using Cons by (simp add: list_step_pair)
  next
    case False
    then obtain b where "foldE (list_step codec after) (n + b, acc @ [r]) rs = Inr (m, replay)"
      using Cons.prems by (auto simp: list_step_pair split: if_split_asm)
    from Cons.IH [OF this] show ?thesis using False by simp
  qed
qed simp

lemma list_loop_ok:
  assumes "\<forall>r\<in>set rs. fits codec r"
    "n + sum_list (map (record_bytes codec) (filter (\<lambda>r. \<not> (case after of None \<Rightarrow> False | Some c \<Rightarrow> sr_cursor r \<le> c)) rs))
       \<le> CMA_MAX_REPLAY_BYTES"
  shows "\<exists>m replay. foldE (list_step codec after) (n, acc) rs = Inr (m, replay)"
  using assms
proof (induction rs arbitrary: n acc)
  case (Cons r rs)
  obtain b where b: "assertFrame codec r = Inr b" using Cons.prems(1) by (cases "assertFrame codec r") (auto simp: fits_def)
  show ?case
  proof (cases "case after of None \<Rightarrow> False | Some c \<Rightarrow> sr_cursor r \<le> c")
    case True
    then have "list_step codec after (n, acc) r = Inr (n, acc)" by (simp add: list_step_pair)
    then show ?thesis using Cons.IH [of n acc] Cons.prems True by simp
  next
    case False
    then have "list_step codec after (n, acc) r = Inr (n + b, acc @ [r])"
      using Cons.prems(2) b by (simp add: list_step_pair record_bytes_def)
    then show ?thesis using Cons.IH [of "n + b" "acc @ [r]"] Cons.prems False b by (simp add: record_bytes_def)
  qed
qed simp

lemma list_loop_bytes:
  assumes "foldE (list_step codec None) (n, acc) rs = Inr (m, replay)" "n \<le> CMA_MAX_REPLAY_BYTES"
  shows "n + sum_list (map (record_bytes codec) rs) \<le> CMA_MAX_REPLAY_BYTES \<and> (\<forall>r\<in>set rs. fits codec r)"
  using assms
proof (induction rs arbitrary: n acc)
  case (Cons r rs)
  obtain b where b: "assertFrame codec r = Inr b" "n + b \<le> CMA_MAX_REPLAY_BYTES"
    "foldE (list_step codec None) (n + b, acc @ [r]) rs = Inr (m, replay)"
    using Cons.prems(1) by (auto simp: list_step_pair split: if_split_asm)
  then show ?case using Cons.IH [OF b(3,2)] by (simp add: record_bytes_def fits_def)
qed simp

lemma sorted_after:
  assumes "sorted_wrt (<) (map sr_cursor rs)" "i < length rs"
  shows "filter (\<lambda>r. \<not> sr_cursor r \<le> sr_cursor (rs ! i)) rs = drop (Suc i) rs"
  using assms
proof (induction rs arbitrary: i)
  case (Cons r rs)
  show ?case
  proof (cases i)
    case 0
    then have "\<forall>q\<in>set rs. sr_cursor r < sr_cursor q" using Cons.prems(1) by simp
    then have "filter (\<lambda>q. \<not> sr_cursor q \<le> sr_cursor r) rs = rs" by (auto intro!: filter_True)
    then show ?thesis using 0 by simp
  next
    case (Suc j)
    then have "rs ! j \<in> set rs" using Cons.prems(2) by simp
    then have "sr_cursor r \<le> sr_cursor (rs ! j)" using Cons.prems(1) by (auto intro: less_imp_le)
    then show ?thesis using Suc Cons.IH [of j] Cons.prems by simp
  qed
qed simp

lemma resume_list:
  assumes "sorted_wrt (<) (map sr_cursor (cb_events b sid))" "broker_list codec sid None b = Inr rs" "i < length rs"
  shows "rs = cb_events b sid \<and> broker_list codec sid (Some (sr_cursor (rs ! i))) b = Inr (drop (Suc i) rs)"
proof -
  obtain m where m: "foldE (list_step codec None) (0, []) (cb_events b sid) = Inr (m, rs)"
    using assms(2) by (auto simp: broker_list_def elim!: bindE_InrE)
  have rs: "rs = cb_events b sid" using list_loop [OF m] by simp
  have fit: "\<forall>r\<in>set rs. fits codec r" and bytes: "sum_list (map (record_bytes codec) rs) \<le> CMA_MAX_REPLAY_BYTES"
    using list_loop_bytes [OF m] rs by simp_all
  let ?after = "Some (sr_cursor (rs ! i))"
  have flt: "filter (\<lambda>r. \<not> (case ?after of None \<Rightarrow> False | Some c \<Rightarrow> sr_cursor r \<le> c)) rs = drop (Suc i) rs"
    using sorted_after [of rs i] assms(1,3) rs by simp
  have "sum_list (map (record_bytes codec) (drop (Suc i) rs)) \<le> sum_list (map (record_bytes codec) rs)"
    by (metis append_take_drop_id le_add2 map_append sum_list_append)
  then have "0 + sum_list (map (record_bytes codec) (filter (\<lambda>r. \<not> (case ?after of None \<Rightarrow> False | Some c \<Rightarrow> sr_cursor r \<le> c)) rs))
      \<le> CMA_MAX_REPLAY_BYTES"
    using bytes unfolding flt by linarith
  from list_loop_ok [OF fit this, of "[]"] obtain n replay where
    r: "foldE (list_step codec ?after) (0, []) rs = Inr (n, replay)" by blast
  have "replay = drop (Suc i) rs" using list_loop [OF r] flt by simp
  then show ?thesis using r rs by (simp add: broker_list_def)
qed

lemma ids_sorted:
  assumes "list_all (\<lambda>(now, _). 0 \<le> now \<and> now \<le> maxDriverIdTimeMs) calls"
    "create_ids calls new_id_state = Inr is" "list_all (\<lambda>i. \<not> exhausted i) is"
  shows "sorted_wrt (<) is"
proof -
  have "list_all (\<lambda>i. \<not> exhausted i) (butlast is)" using assms(3) by (auto simp: list_all_iff dest: in_set_butlastD)
  then show ?thesis using create_ids_ok [OF id_state_ok_new assms(1)] assms(2) by auto
qed

lemma cursors_sorted:
  assumes "store_ok w s" "sorted_wrt (<) is" "sto_calls s \<le> length is" "\<And>k. k < sto_calls s \<Longrightarrow> w_ids w k = is ! k"
  shows "sorted_wrt (<) (map sr_cursor (log_of s sid))"
proof -
  obtain ks where ks: "map sr_cursor (log_of s sid) = map (w_ids w) ks" "sorted_wrt (<) ks" "\<forall>k\<in>set ks. k < sto_calls s"
    using assms(1) unfolding store_ok_def cursors_ok_def by blast
  have "w_ids w a < w_ids w b" if "a < b" "a \<in> set ks" "b \<in> set ks" for a b
    using that ks(3) assms(2-4) by (metis order_less_le_trans sorted_wrt_nth_less)
  then have "sorted_wrt (\<lambda>a b. w_ids w a < w_ids w b) ks"
    using ks(2) by (auto simp: sorted_wrt_iff_nth_less)
  then show ?thesis using ks(1) by (simp add: sorted_wrt_map)
qed

end
