(* ===== verification/Cma_Properties.thy ===== *)
theory Cma_Properties
  imports Cma_Behaviour Cma_Projection
begin

text \<open>Properties of the CMA projection, of the event broker and of the memory store.\<close>

section \<open>The projection\<close>

text \<open>
  The parser of inbound client events accepts exactly the JSON of the four kinds of
  event with their required texts not empty, and gives back the event that JSON stands for.
\<close>

theorem cma_parser_exact:
  "parseCmaInboundEvent input = Inr e \<longleftrightarrow> input = inbound_json e \<and> inbound_ok e"
  by (rule parse_exact)

section \<open>The event broker\<close>

definition ex_codec :: cma_codec where
  "ex_codec = \<lparr>codec_utf8 = (\<lambda>_. [0]), codec_stringify = (\<lambda>_. [])\<rparr>"

text \<open>
  C25.  A stream opened on a session's log hands out, in order and without a gap, the records
  listed when it was opened and then those published to the session since, and misses none
  while it accepts, whatever else the broker does.
\<close>

theorem cma_streams_have_no_gap:
  assumes "broker_list codec sid after (cma_broker_run codec earlier new_cma_broker) = Inr replay"
    and "broker_stream codec sid after acc (cma_broker_run codec earlier new_cma_broker) = Inr b"
  defines "k \<equiv> length (cb_streams (cma_broker_run codec earlier new_cma_broker))"
    and "later \<equiv> (\<lambda>ops. cma_broker_run codec ops b)"
  shows "k < length (cb_streams (later ops))
    \<and> (\<exists>n \<le> length (published_to codec sid ops).
         st_delivered (cb_streams (later ops) ! k) @ stream_rest (cb_streams (later ops) ! k)
           = replay @ take n (published_to codec sid ops)
         \<and> (st_accepting (cb_streams (later ops) ! k) \<longrightarrow> n = length (published_to codec sid ops)))"
  using stream_delivers [OF cma_broker_run_ok [OF new_cma_broker_ok] assms(1,2), of ops]
  unfolding follows_def k_def later_def .

lemma cma_streams_have_no_gap_witness:
  "\<exists>b. broker_stream ex_codec ''s'' None True (new_cma_broker :: cma_broker) = Inr b
     \<and> 0 < length (cb_streams (cma_broker_run ex_codec [OpPull 0] b))"
proof -
  have empty: "cma_broker_run ex_codec [] new_cma_broker = new_cma_broker" by (simp add: cma_broker_run_def)
  have list: "broker_list ex_codec ''s'' None new_cma_broker = Inr []"
    by (simp add: broker_list_def new_cma_broker_def)
  then obtain b where b: "broker_stream ex_codec ''s'' None True new_cma_broker = Inr b"
    by (simp add: broker_stream_def new_cma_broker_def CMA_MAX_STREAMS_def)
  show ?thesis
    using cma_streams_have_no_gap [of ex_codec "''s''" None "[]" "[]" True b "[OpPull 0]", unfolded empty, OF list b] b
    by auto
qed

text \<open>
  A reader that keeps reading an open stream gets every record the stream holds, in
  order, and the stream closes with its last record when it accepts no more, not before.
\<close>

theorem cma_streams_drain:
  assumes "k < length (cb_streams (cma_broker_run codec ops new_cma_broker))"
  defines "s \<equiv> cb_streams (cma_broker_run codec ops new_cma_broker) ! k"
    and "pull \<equiv> (\<lambda>n. ((\<lambda>s. fst (pull_stream s)) ^^ n))"
  assumes "\<not> st_closed s"
  shows "st_delivered (pull n s) = st_delivered s @ take n (stream_rest s)
    \<and> (st_closed (pull n s) \<longleftrightarrow> \<not> st_accepting s \<and> 0 < n \<and> length (stream_rest s) \<le> n)"
proof -
  have "stream_ok s"
    unfolding s_def using broker_ok_stream [OF cma_broker_run_ok [OF new_cma_broker_ok] assms(1)] .
  from pulls_drain [OF this assms(4)] show ?thesis unfolding pull_def .
qed

lemma cma_streams_drain_witness:
  "st_closed (fst (pull_stream (new_stream ''s'' [] False)))"
proof -
  let ?ops = "[OpStream ''s'' None False]"
  have run: "cb_streams (cma_broker_run ex_codec ?ops new_cma_broker) = [new_stream ''s'' [] False]"
    by (simp add: cma_broker_run_def broker_stream_def broker_list_def new_cma_broker_def kept_if_thrown_def
        CMA_MAX_STREAMS_def)
  have "\<not> st_closed (new_stream ''s'' [] False)" "stream_rest (new_stream ''s'' [] False) = []"
    "\<not> st_accepting (new_stream ''s'' [] False)"
    by (simp_all add: new_stream_def stream_rest_def)
  then show ?thesis
    using cma_streams_drain [of 0 ex_codec ?ops 1, unfolded run] by simp
qed

section \<open>The memory store\<close>

definition ex_calls :: "(int \<times> (nat \<Rightarrow> 8 word)) list" where
  "ex_calls = [(1, \<lambda>_. 0), (2, \<lambda>_. 0), (3, \<lambda>_. 0), (4, \<lambda>_. 0)]"

definition ex_ids :: "string list" where
  "ex_ids = (case create_ids ex_calls new_id_state of
     Inr is \<Rightarrow> is | Inl _ \<Rightarrow> [])"

definition ex_world :: cma_world where
  "ex_world = \<lparr>w_now = (\<lambda>_. 1767225600000), w_ids = (\<lambda>k. ex_ids ! k), w_factory = None, w_codec = ex_codec,
     w_events = \<lparr>iso_datetime = (\<lambda>_. True), prettify = (\<lambda>_. []), utf8_bytes = length, json_bytes = (\<lambda>_. 0)\<rparr>\<rparr>"

definition ex_sid :: string where
  "ex_sid = ''01ARZ3NDEKTSV4RRFFQ69G5FAV''"

definition ex_store :: cma_store where
  "ex_store =
     (case createCmaMemoryStore ex_world [] []
        [\<lparr>in_agentId = None, in_environmentId = None, in_sessionId = Some ex_sid, in_metadata = None\<rparr>] of
        Inr s \<Rightarrow> s
      | Inl _ \<Rightarrow> empty_store)"

lemma ex_store_created: "createCmaMemoryStore ex_world [] []
    [\<lparr>in_agentId = None, in_environmentId = None, in_sessionId = Some ex_sid, in_metadata = None\<rparr>] = Inr ex_store"
  by (simp add: ex_store_def createCmaMemoryStore_def putSession_def given_or_new_def bindC_def ret_def
      reading_def change_def throw_def empty_store_def nowIso_def read_clock_def Let_def)

definition ex_usage :: json where
  "ex_usage = JObj (fmap_of_list
     [(''actor'', JStr ''driver''), (''delivery'', JStr ''lossless''), (''id'', JStr ''01ARZ3NDEKTSV4RRFFQ69G5FAV''),
      (''kind'', JStr ''usage.updated''), (''occurredAt'', JStr ''2026-01-01T00:00:00.000Z''),
      (''origin'', JStr ''driver''), (''payload'', JObj fmempty),
      (''schemaVersion'', JStr RUNTIME_EVENT_SCHEMA_VERSION),
      (''sessionId'', JStr ex_sid), (''visibility'', JStr ''public'')])"

lemma ex_usage_parsed: "case parseRuntimeEventEnvelope (w_events ex_world) ex_usage of
    Inr event \<Rightarrow> re_delivery event = ''lossless'' \<and> re_kind event = ''usage.updated'' \<and> re_visibility event = ''public''
      \<and> re_sessionId event = ex_sid
  | _ \<Rightarrow> False"
  by code_simp

lemma ex_admitted:
  obtains event where "admit_driver_event ex_world ex_sid ex_usage = Inr event" "re_delivery event = ''lossless''"
    "re_kind event = ''usage.updated''" "re_visibility event = ''public''"
proof -
  obtain event where e: "parseRuntimeEventEnvelope (w_events ex_world) ex_usage = Inr event"
    "re_delivery event = ''lossless''" "re_kind event = ''usage.updated''" "re_visibility event = ''public''"
    "re_sessionId event = ex_sid"
    using ex_usage_parsed by (auto split: sum.splits)
  then have "admit_driver_event ex_world ex_sid ex_usage = Inr event"
    by (simp add: admit_driver_event_def) (simp add: ex_world_def)
  with e that show thesis by blast
qed

lemmas store_evaluation =
  createEvent_def createLease_def nowIso_def read_clock_def newDriverId_def newId_def requireSession_def
  bindC_def ret_def throw_def reading_def change_def lift_result_def on_broker_def Let_def
  assertFrame_def encodeCmaSseRecord_def broker_persist_def broker_publish_def map_streams_def ex_codec_def
  CMA_MAX_EVENT_BYTES_def new_cma_broker_def empty_store_def

lemma ex_store_fields:
  "sto_sources ex_store = Map.empty" "sto_claims ex_store = Map.empty" "sto_permissions ex_store = Map.empty"
  "sto_calls ex_store = 0" "sto_broker ex_store = new_cma_broker"
  "\<exists>x. sto_sessions ex_store ex_sid = Some x \<and> cs_status x = StatusIdle"
  by (simp_all add: ex_store_def createCmaMemoryStore_def putSession_def given_or_new_def store_evaluation)

lemma ex_world_simps [simp]: "w_codec ex_world = ex_codec" "w_factory ex_world = None" "w_ids ex_world k = ex_ids ! k"
  by (simp_all add: ex_world_def)

lemma ex_appended: "case appendDriverEvent ex_world ex_sid ex_usage ex_store of (Inr rs, t) \<Rightarrow> length rs = 1 | _ \<Rightarrow> False"
proof -
  obtain event where e: "admit_driver_event ex_world ex_sid ex_usage = Inr event" "re_delivery event = ''lossless''"
    "re_kind event = ''usage.updated''" "re_visibility event = ''public''"
    by (rule ex_admitted)
  obtain x where x: "sto_sessions ex_store ex_sid = Some x" "cs_status x = StatusIdle" using ex_store_fields(6) by blast
  show ?thesis
    using e x ex_store_fields
    by (simp add: appendDriverEvent_def append_new_def source_key_def projectDriverEventToCma_def outbound_def
      nextSessionStatus_def transition_event_def updateSessionStatus_def remember_source_def set_permissions_def store_evaluation)
qed

definition ex_interrupt :: cma_inbound_event where
  "ex_interrupt = InInterrupt \<lparr>ui_commandId = ''c'', ui_reason = None\<rparr>"

lemma ex_claimed: "case claimInboundEvent ex_world ex_sid (TurnCancelCommand ''c'' None) ex_interrupt ex_store of
    (Inr (Claimed r lease), t) \<Rightarrow> sto_calls t = 3 \<and> sr_cursor r = ex_ids ! 0 \<and> cb_events (sto_broker t) ex_sid = [r]
      \<and> cb_streams (sto_broker t) = [] \<and> cb_subscriberCount (sto_broker t) = 0 \<and> sto_sessions t = sto_sessions ex_store
  | _ \<Rightarrow> False"
  using ex_store_fields by (auto simp: claimInboundEvent_def store_evaluation)

text \<open>
  C26.  Redelivering a lossless event, at any later time, appends nothing: it answers with the
  records of the first delivery and leaves the store as it is.
\<close>

theorem redelivery_changes_nothing:
  assumes "appendDriverEvent w sid input s = (Inr records, t)"
    and "admit_driver_event w sid input = Inr event" "re_delivery event = ''lossless''"
  shows "appendDriverEvent w sid input (store_run w ops t) = (Inr records, store_run w ops t)"
  by (rule redelivered [OF assms])

lemma redelivery_changes_nothing_witness:
  "\<exists>records t. length records = 1 \<and> appendDriverEvent ex_world ex_sid ex_usage t = (Inr records, t)"
proof -
  obtain event where e: "admit_driver_event ex_world ex_sid ex_usage = Inr event" "re_delivery event = ''lossless''"
    by (rule ex_admitted)
  obtain records t where r: "appendDriverEvent ex_world ex_sid ex_usage ex_store = (Inr records, t)" "length records = 1"
    using ex_appended by (auto split: prod.splits sum.splits)
  from redelivery_changes_nothing [OF r(1) e, of "[]"] r(2) show ?thesis by (auto simp: store_run_def)
qed

text \<open>
  C27.  A command is handed out once and settled once: after it was claimed no claim of the
  same command succeeds again, whatever happens in between, and every settlement that
  succeeds answers with the record of the first.
\<close>

theorem commands_are_claimed_and_settled_once:
  assumes "claimInboundEvent w sid command event s = (Inr (Claimed r lease), t)"
  shows "(\<forall>ops command' event' r' lease'. command_id command' = command_id command \<longrightarrow>
        fst (claimInboundEvent w sid command' event' (store_run w ops t)) \<noteq> Inr (Claimed r' lease'))
    \<and> (\<forall>u c l st given r1 u1 ops l' st' given' r2 u2.
        settleInboundEvent w sid c l st given u = (Inr r1, u1) \<longrightarrow>
        settleInboundEvent w sid c l' st' given' (store_run w ops u1) = (Inr r2, u2) \<longrightarrow> r2 = r1)"
  using claimed_once [OF assms] settled_once by blast

lemma commands_are_claimed_and_settled_once_witness:
  "\<exists>t r lease. claimInboundEvent ex_world ex_sid (TurnCancelCommand ''c'' None) ex_interrupt ex_store
       = (Inr (Claimed r lease), t)
     \<and> (\<forall>r' lease'. fst (claimInboundEvent ex_world ex_sid (TurnCancelCommand ''c'' None) ex_interrupt t)
          \<noteq> Inr (Claimed r' lease'))"
proof -
  obtain t r lease where c: "claimInboundEvent ex_world ex_sid (TurnCancelCommand ''c'' None) ex_interrupt ex_store
       = (Inr (Claimed r lease), t)"
    using ex_claimed by (auto split: prod.splits sum.splits claim_result.splits)
  have "fst (claimInboundEvent ex_world ex_sid (TurnCancelCommand ''c'' None) ex_interrupt (store_run ex_world [] t))
      \<noteq> Inr (Claimed r' lease')" for r' lease'
    using commands_are_claimed_and_settled_once [OF c, THEN conjunct1] by blast
  with c show ?thesis by (auto simp: store_run_def)
qed

text \<open>
  C28.  A terminated Session stays terminated whatever is called, and from then on no driver
  event adds to its log and no command is handed out for it.
\<close>

theorem terminated_sessions_stay_quiet:
  assumes "sto_sessions s sid = Some x" "cs_status x = StatusTerminated"
  shows "(\<exists>y. sto_sessions (store_run w ops s) sid = Some y \<and> cs_status y = StatusTerminated)
    \<and> log_of (snd (appendDriverEvent w sid input (store_run w ops s))) sid = log_of (store_run w ops s) sid
    \<and> fst (claimInboundEvent w sid command event (store_run w ops s)) \<noteq> Inr (Claimed r lease)"
proof -
  obtain y where y: "sto_sessions (store_run w ops s) sid = Some y" "cs_status y = StatusTerminated"
    using terminated_run [OF assms(1,2)] by blast
  with terminated_append [OF y] terminated_claim [OF y] show ?thesis by blast
qed

definition ex_terminated :: cma_store where
  "ex_terminated = empty_store\<lparr>sto_sessions := [ex_sid \<mapsto>
     \<lparr>cs_agentId = None, cs_createdAt = [], cs_environmentId = None, cs_id = ex_sid, cs_metadata = fmempty,
      cs_status = StatusTerminated, cs_updatedAt = []\<rparr>]\<rparr>"

lemma terminated_sessions_stay_quiet_witness:
  "log_of (snd (appendDriverEvent ex_world ex_sid ex_usage ex_terminated)) ex_sid = log_of ex_terminated ex_sid"
proof -
  obtain x where "sto_sessions ex_terminated ex_sid = Some x" "cs_status x = StatusTerminated"
    by (simp add: ex_terminated_def)
  from terminated_sessions_stay_quiet [OF this, of ex_world "[]"] show ?thesis by (simp add: store_run_def)
qed

text \<open>
  C29.  Whatever calls a store goes through, no session that waits for a permission is
  running or terminated, no more streams are open than the limit allows, and every stream
  holds at most 64 records and 1 MiB that it was not asked for yet, has its place while it
  is open, and is subscribed exactly while it accepts.
\<close>

theorem store_stays_well_formed:
  assumes "createCmaMemoryStore w agents environments sessions = Inr s"
  defines "t \<equiv> (\<lambda>ops. store_run w ops s)"
  shows "(\<forall>sid pending. sto_permissions (t ops) sid = Some pending \<longrightarrow> pending \<noteq> [] \<longrightarrow>
        (\<exists>x. sto_sessions (t ops) sid = Some x \<and> cs_status x \<in> {StatusIdle, StatusRescheduling}))
    \<and> cb_subscriberCount (sto_broker (t ops)) = length (filter st_registered (cb_streams (sto_broker (t ops))))
    \<and> cb_subscriberCount (sto_broker (t ops)) \<le> CMA_MAX_STREAMS
    \<and> list_all stream_ok (cb_streams (sto_broker (t ops)))"
proof -
  have "store_ok w (t ops)" unfolding t_def by (rule store_run_ok [OF created_store_ok [OF assms(1)]])
  then show ?thesis
    unfolding store_ok_def cma_broker_ok_def registered_count_def pending_of_def may_wait_def by auto
qed

lemma store_stays_well_formed_witness:
  "cb_subscriberCount (sto_broker (store_run ex_world [AppendDriverEvent ex_sid ex_usage] ex_store)) \<le> CMA_MAX_STREAMS"
  using store_stays_well_formed [OF ex_store_created] by blast

text \<open>
  C30.  A client that has read a session's log up to some record and opens a stream with that
  record's cursor is given exactly the records after it, when the identifiers the store
  draws are those of a run of \<open>createDriverId\<close> that did not use up its random part.
\<close>

theorem streams_resume_after_the_cursor:
  assumes "createCmaMemoryStore w agents environments sessions = Inr s0"
    and "create_ids calls new_id_state = Inr ids" "list_all (\<lambda>i. \<not> exhausted i) ids"
      "list_all (\<lambda>(now, _). 0 \<le> now \<and> now \<le> maxDriverIdTimeMs) calls"
    and "sto_calls (store_run w ops s0) \<le> length ids" "\<And>k. k < length ids \<Longrightarrow> w_ids w k = ids ! k"
    and "fst (listSessionEvents w sid (store_run w ops s0)) = Inr records" "i < length records"
    and "streamSessionEvents w sid (Some (sr_cursor (records ! i))) (store_run w ops s0) = (Inr (), t)"
  shows "cb_streams (sto_broker t) = cb_streams (sto_broker (store_run w ops s0)) @ [last (cb_streams (sto_broker t))]
    \<and> st_replay (last (cb_streams (sto_broker t))) = drop (Suc i) records"
proof -
  let ?s = "store_run w ops s0"
  have "store_ok w ?s" by (rule store_run_ok [OF created_store_ok [OF assms(1)]])
  then have sorted: "sorted_wrt (<) (map sr_cursor (cb_events (sto_broker ?s) sid))"
    using cursors_sorted [OF _ ids_sorted [OF assms(4,2,3)] assms(5), of w] assms(5,6)
    by (simp add: log_of_def)
  have list: "broker_list (w_codec w) sid None (sto_broker ?s) = Inr records"
    using assms(7) by (auto simp: listSessionEvents_def requireSession_def bindC_def reading_def lift_result_def
        split: option.splits)
  obtain x where x: "sto_sessions ?s sid = Some x"
    using assms(9) by (auto simp: streamSessionEvents_def requireSession_def bindC_def split: option.splits)
  have "broker_stream (w_codec w) sid (Some (sr_cursor (records ! i))) (cs_status x \<noteq> StatusTerminated) (sto_broker ?s)
      = Inr (sto_broker t)"
    using assms(9) x by (auto simp: streamSessionEvents_def requireSession_def bindC_def on_broker_def split: sum.splits)
  moreover have "broker_list (w_codec w) sid (Some (sr_cursor (records ! i))) (sto_broker ?s) = Inr (drop (Suc i) records)"
    using resume_list [OF sorted list assms(8)] by blast
  ultimately have "cb_streams (sto_broker t) = cb_streams (sto_broker ?s)
      @ [new_stream sid (drop (Suc i) records) (cs_status x \<noteq> StatusTerminated)]"
    by (auto simp: broker_stream_def split: if_splits) (drule sym, simp)
  then show ?thesis by (simp add: new_stream_def)
qed

lemma ex_ids_eval: "case create_ids ex_calls new_id_state of
    Inr ids \<Rightarrow> length ids = 4 \<and> list_all (\<lambda>i. \<not> exhausted i) ids | _ \<Rightarrow> False"
  by code_simp

lemma ex_ids: "create_ids ex_calls new_id_state = Inr ex_ids" "length ex_ids = 4" "list_all (\<lambda>i. \<not> exhausted i) ex_ids"
  using ex_ids_eval by (auto simp: ex_ids_def split: sum.splits)

lemma streams_resume_after_the_cursor_witness:
  "\<exists>s r t. fst (listSessionEvents ex_world ex_sid s) = Inr [r]
     \<and> streamSessionEvents ex_world ex_sid (Some (sr_cursor r)) s = (Inr (), t)
     \<and> st_replay (last (cb_streams (sto_broker t))) = []"
proof -
  let ?ops = "[ClaimInboundEvent ex_sid (TurnCancelCommand ''c'' None) ex_interrupt]"
  let ?s = "store_run ex_world ?ops ex_store"
  obtain r where r: "sto_calls ?s = 3" "cb_events (sto_broker ?s) ex_sid = [r]" "cb_streams (sto_broker ?s) = []"
    "cb_subscriberCount (sto_broker ?s) = 0" "sto_sessions ?s = sto_sessions ex_store"
    using ex_claimed by (auto simp: store_run_def split: prod.splits sum.splits claim_result.splits)
  obtain x where x: "sto_sessions ?s ex_sid = Some x" using ex_store_fields(6) r(5) by auto
  have frame: "assertFrame ex_codec r = Inr 1"
    by (simp add: assertFrame_def encodeCmaSseRecord_def ex_codec_def CMA_MAX_EVENT_BYTES_def)
  have list: "fst (listSessionEvents ex_world ex_sid ?s) = Inr [r]"
    using r x frame by (simp add: listSessionEvents_def requireSession_def bindC_def reading_def lift_result_def
        broker_list_def list_step_def CMA_MAX_REPLAY_BYTES_def CMA_MAX_EVENT_BYTES_def)
  have "\<exists>t. streamSessionEvents ex_world ex_sid (Some (sr_cursor r)) ?s = (Inr (), t)"
    using r x by (simp add: streamSessionEvents_def requireSession_def bindC_def on_broker_def broker_stream_def
        broker_list_def list_step_def CMA_MAX_STREAMS_def)
  then obtain t where t: "streamSessionEvents ex_world ex_sid (Some (sr_cursor r)) ?s = (Inr (), t)" by blast
  have calls: "list_all (\<lambda>(now, _). 0 \<le> now \<and> now \<le> maxDriverIdTimeMs) ex_calls"
    by (simp add: ex_calls_def maxDriverIdTimeMs_def)
  have drawn: "sto_calls ?s \<le> length ex_ids" using r(1) ex_ids(2) by simp
  have "st_replay (last (cb_streams (sto_broker t))) = drop (Suc 0) [r]"
    using streams_resume_after_the_cursor [OF ex_store_created ex_ids(1,3) calls drawn _ list, of 0 t] t by simp
  with list t show ?thesis by auto
qed

end
