(* ===== verification/Json_Text.thy ===== *)
theory Json_Text
  imports Main
begin

text \<open>
  src/src/runtimes/provider-json.ts, \<open>chunkJsonText\<close>: a text is cut into chunks whose JSON
  strings fit a number of bytes.  A text is a list of code units; \<open>text_coding\<close> says which
  units are the halves of a surrogate pair, and gives \<open>jsonStringContentBytes\<close>, the length of
  a text's JSON string in UTF-8 without its quotes.
\<close>

section \<open>The code\<close>

record 'u text_coding =
  tc_high :: "'u \<Rightarrow> bool"
  tc_low :: "'u \<Rightarrow> bool"
  tc_bytes :: "'u list \<Rightarrow> nat"

definition slice :: "'u list \<Rightarrow> nat \<Rightarrow> nat \<Rightarrow> 'u list" where
  "slice str from to = take (to - from) (drop from str)"

text \<open>A cut that would part a surrogate pair is moved before it.\<close>

definition candidate_end :: "'u text_coding \<Rightarrow> 'u list \<Rightarrow> nat \<Rightarrow> nat" where
  "candidate_end c str probe =
     (if probe < length str \<and> tc_high c (str ! (probe - 1)) \<and> tc_low c (str ! probe) then probe - 1
      else probe)"

text \<open>The binary search of the end of a chunk; \<open>bound\<close> is \<open>high + 1\<close>.\<close>

function search_end :: "'u text_coding \<Rightarrow> 'u list \<Rightarrow> nat \<Rightarrow> nat \<Rightarrow> nat \<Rightarrow> nat \<Rightarrow> nat \<Rightarrow> nat" where
  "search_end c str offset chunkBytes found low bound =
     (if low < bound then
        let probe = (low + bound - 1) div 2; candidate = candidate_end c str probe
        in if tc_bytes c (slice str offset candidate) \<le> chunkBytes
           then search_end c str offset chunkBytes candidate (probe + 1) bound
           else search_end c str offset chunkBytes found low probe
      else found)"
  by pat_completeness auto
termination
  by (relation "measure (\<lambda>(_, _, _, _, _, low, bound). bound - low)") auto

declare search_end.simps [simp del]

definition chunk_end :: "'u text_coding \<Rightarrow> 'u list \<Rightarrow> nat \<Rightarrow> nat \<Rightarrow> nat" where
  "chunk_end c str offset chunkBytes =
     search_end c str offset chunkBytes offset (offset + 1) (min (length str) (offset + chunkBytes) + 1)"

datatype chunk_error = ChunkBudgetTooSmall

lemma candidate_bounds: "probe - 1 \<le> candidate_end c str probe" "candidate_end c str probe \<le> probe"
  by (auto simp: candidate_end_def)

text \<open>The search ends at its start or at a candidate that fits.\<close>

lemma search_end_result:
  assumes "offset < low" "bound \<le> length str + 1"
  shows "search_end c str offset chunkBytes found low bound = found
    \<or> (\<exists>probe. offset < probe \<and> probe \<le> length str
        \<and> search_end c str offset chunkBytes found low bound = candidate_end c str probe
        \<and> tc_bytes c (slice str offset (candidate_end c str probe)) \<le> chunkBytes)"
  using assms
proof (induction c str offset chunkBytes found low bound rule: search_end.induct)
  case (1 c str offset chunkBytes found low bound)
  show ?case
  proof (cases "low < bound")
    case True
    let ?probe = "(low + bound - 1) div 2"
    have probe: "offset < ?probe" "?probe \<le> length str" "?probe < bound" using True 1(3,4) by auto
    show ?thesis
    proof (cases "tc_bytes c (slice str offset (candidate_end c str ?probe)) \<le> chunkBytes")
      case fits: True
      have "search_end c str offset chunkBytes found low bound
          = search_end c str offset chunkBytes (candidate_end c str ?probe) (?probe + 1) bound"
        using True fits by (subst search_end.simps) (simp add: Let_def)
      with 1(1) [OF True refl refl fits] probe 1(4) fits show ?thesis by auto
    next
      case False
      have "search_end c str offset chunkBytes found low bound
          = search_end c str offset chunkBytes found low ?probe"
        using True False by (subst search_end.simps) (simp add: Let_def)
      with 1(2) [OF True refl refl False 1(3)] probe 1(4) show ?thesis by auto
    qed
  next
    case False
    then show ?thesis by (subst search_end.simps) simp
  qed
qed

lemma chunk_end_result:
  "chunk_end c str offset chunkBytes = offset
    \<or> (\<exists>probe. offset < probe \<and> probe \<le> length str
        \<and> chunk_end c str offset chunkBytes = candidate_end c str probe
        \<and> tc_bytes c (slice str offset (candidate_end c str probe)) \<le> chunkBytes)"
  unfolding chunk_end_def by (rule search_end_result) auto

lemma chunk_end_bounds:
  shows "offset \<le> chunk_end c str offset chunkBytes"
    and "offset \<le> length str \<Longrightarrow> chunk_end c str offset chunkBytes \<le> length str"
proof -
  have "offset \<le> chunk_end c str offset chunkBytes
      \<and> (offset \<le> length str \<longrightarrow> chunk_end c str offset chunkBytes \<le> length str)"
    using chunk_end_result [of c str offset chunkBytes]
  proof
    assume "\<exists>probe. offset < probe \<and> probe \<le> length str
        \<and> chunk_end c str offset chunkBytes = candidate_end c str probe
        \<and> tc_bytes c (slice str offset (candidate_end c str probe)) \<le> chunkBytes"
    then obtain probe where "offset < probe" "probe \<le> length str"
      "chunk_end c str offset chunkBytes = candidate_end c str probe" by blast
    then show ?thesis using candidate_bounds(1) [of probe c str] candidate_bounds(2) [of c str probe] by simp
  qed simp
  then show "offset \<le> chunk_end c str offset chunkBytes"
    "offset \<le> length str \<Longrightarrow> chunk_end c str offset chunkBytes \<le> length str" by blast+
qed

function chunk_loop ::
    "'u text_coding \<Rightarrow> 'u list \<Rightarrow> nat \<Rightarrow> nat \<Rightarrow> nat \<Rightarrow> 'u list list \<Rightarrow> chunk_error + 'u list list" where
  "chunk_loop c str remainingChunkBytes offset chunkBytes chunks =
     (if offset < length str then
        let e = chunk_end c str offset chunkBytes
        in if e = offset
           then if chunks \<noteq> [] then Inl ChunkBudgetTooSmall
                else chunk_loop c str remainingChunkBytes offset remainingChunkBytes (chunks @ [[]])
           else chunk_loop c str remainingChunkBytes e remainingChunkBytes (chunks @ [slice str offset e])
      else Inr chunks)"
  by pat_completeness auto
termination
proof (relation "measure (\<lambda>(c, str, _, offset, _, chunks). 2 * (length str - offset) + of_bool (chunks = []))",
    goal_cases)
  case (3 c str remainingChunkBytes offset chunkBytes chunks e)
  then have "offset < e" "e \<le> length str"
    using chunk_end_bounds(1) [of offset c str chunkBytes] chunk_end_bounds(2) [of offset str c chunkBytes]
    by simp_all
  then show ?case using 3 by auto
qed auto

declare chunk_loop.simps [simp del]

definition chunkJsonText :: "'u text_coding \<Rightarrow> 'u list \<Rightarrow> nat \<Rightarrow> nat \<Rightarrow> chunk_error + 'u list list" where
  "chunkJsonText c str firstChunkBytes remainingChunkBytes =
     (if str = [] \<or> tc_bytes c str \<le> firstChunkBytes then Inr [str]
      else chunk_loop c str remainingChunkBytes 0 firstChunkBytes [])"

section \<open>The chunks are the text\<close>

lemma slice_append: "offset \<le> e \<Longrightarrow> take offset str @ slice str offset e = take e str"
  unfolding slice_def by (metis le_add_diff_inverse take_add)

lemma chunk_end_fits:
  assumes "chunk_end c str offset chunkBytes \<noteq> offset"
  shows "tc_bytes c (slice str offset (chunk_end c str offset chunkBytes)) \<le> chunkBytes"
  using chunk_end_result [of c str offset chunkBytes] assms by auto

text \<open>A cut between two chunks that are not empty does not part a surrogate pair.\<close>

definition clean_cut :: "'u text_coding \<Rightarrow> 'u list \<Rightarrow> nat \<Rightarrow> bool" where
  "clean_cut c str k \<longleftrightarrow> \<not> (0 < k \<and> k < length str \<and> tc_high c (str ! (k - 1)) \<and> tc_low c (str ! k))"

lemma chunk_end_clean:
  assumes "\<And>u. tc_high c u \<Longrightarrow> \<not> tc_low c u" "chunk_end c str offset chunkBytes \<noteq> offset"
  shows "clean_cut c str (chunk_end c str offset chunkBytes)"
proof -
  obtain probe where probe: "offset < probe" "probe \<le> length str"
    "chunk_end c str offset chunkBytes = candidate_end c str probe"
    using chunk_end_result [of c str offset chunkBytes] assms(2) by auto
  then show ?thesis using assms(1) by (auto simp: clean_cut_def candidate_end_def)
qed

definition budgets_ok :: "'u text_coding \<Rightarrow> nat \<Rightarrow> nat \<Rightarrow> 'u list list \<Rightarrow> bool" where
  "budgets_ok c first rest chunks \<longleftrightarrow>
     (\<forall>i<length chunks. tc_bytes c (chunks ! i) \<le> (if i = 0 then first else rest))"

lemma budgets_snoc:
  assumes "budgets_ok c first rest chunks" "tc_bytes c x \<le> (if chunks = [] then first else rest)"
  shows "budgets_ok c first rest (chunks @ [x])"
  using assms by (auto simp: budgets_ok_def nth_append less_Suc_eq)

definition cuts :: "'u list list \<Rightarrow> nat list" where
  "cuts chunks = map (\<lambda>i. length (concat (take i chunks))) [0..<Suc (length chunks)]"

lemma clean_ends [simp]: "clean_cut c str 0" "clean_cut c str (length str)"
  by (simp_all add: clean_cut_def)

lemma cuts_snoc: "cuts (chunks @ [x]) = cuts chunks @ [length (concat chunks) + length x]"
  by (simp add: cuts_def)

lemma chunk_loop_ok:
  assumes "chunk_loop c str rest offset chunkBytes chunks = Inr result"
    and "tc_bytes c [] = 0" "\<And>u. tc_high c u \<Longrightarrow> \<not> tc_low c u"
    and "concat chunks = take offset str" "offset \<le> length str"
      "chunkBytes = (if chunks = [] then first else rest)"
    and "budgets_ok c first rest chunks" "\<forall>k\<in>set (cuts chunks). clean_cut c str k"
  shows "concat result = str \<and> budgets_ok c first rest result \<and> (\<forall>k\<in>set (cuts result). clean_cut c str k)"
  using assms
proof (induction c str rest offset chunkBytes chunks rule: chunk_loop.induct)
  case (1 c str rest offset chunkBytes chunks)
  show ?case
  proof (cases "offset < length str")
    case True
    let ?e = "chunk_end c str offset chunkBytes"
    show ?thesis
    proof (cases "?e = offset")
      case stuck: True
      have empty: "chunks = []"
        using True stuck 1(3) by (subst (asm) chunk_loop.simps) (simp add: Let_def split: if_splits)
      then have "chunk_loop c str rest offset rest (chunks @ [[]]) = Inr result"
        using True stuck 1(3) by (subst (asm) chunk_loop.simps) (simp add: Let_def)
      moreover have "\<not> chunks \<noteq> []" using empty by simp
      ultimately show ?thesis
        using 1(1) [OF True refl stuck] 1(4-10) empty by (simp add: budgets_ok_def cuts_def)
    next
      case False
      then have "chunk_loop c str rest ?e rest (chunks @ [slice str offset ?e]) = Inr result"
        using True 1(3) by (subst (asm) chunk_loop.simps) (simp add: Let_def)
      moreover have "concat (chunks @ [slice str offset ?e]) = take ?e str"
        using 1(6) by (simp add: slice_append chunk_end_bounds(1))
      moreover have "?e \<le> length str" by (rule chunk_end_bounds(2) [OF 1(7)])
      moreover have "budgets_ok c first rest (chunks @ [slice str offset ?e])"
        using budgets_snoc [OF 1(9)] chunk_end_fits [OF False] 1(8) by simp
      moreover have "length (concat chunks) + length (slice str offset ?e) = ?e"
        using 1(6,7) \<open>?e \<le> length str\<close> chunk_end_bounds(1) [of offset c str chunkBytes]
        by (simp add: slice_def)
      then have "\<forall>k\<in>set (cuts (chunks @ [slice str offset ?e])). clean_cut c str k"
        using 1(10) chunk_end_clean [OF 1(5) False] by (simp add: cuts_snoc)
      ultimately show ?thesis using 1(2) [OF True refl False _ 1(4,5)] by simp
    qed
  next
    case False
    then have "result = chunks" using 1(3) by (subst (asm) chunk_loop.simps) simp
    then show ?thesis using 1(6-10) False by simp
  qed
qed

lemma chunkJsonText_ok:
  assumes "chunkJsonText c str first rest = Inr chunks" "tc_bytes c [] = 0" "\<And>u. tc_high c u \<Longrightarrow> \<not> tc_low c u"
  shows "concat chunks = str \<and> budgets_ok c first rest chunks \<and> (\<forall>k\<in>set (cuts chunks). clean_cut c str k)"
proof (cases "str = [] \<or> tc_bytes c str \<le> first")
  case True
  then have "chunks = [str]" using assms(1) by (simp add: chunkJsonText_def)
  then show ?thesis using True assms(2) by (auto simp: budgets_ok_def cuts_def clean_cut_def)
next
  case False
  then have loop: "chunk_loop c str rest 0 first [] = Inr chunks" using assms(1) by (simp add: chunkJsonText_def)
  show ?thesis by (rule chunk_loop_ok [OF loop assms(2,3)]) (auto simp: budgets_ok_def cuts_def clean_cut_def)
qed

section \<open>Chunking succeeds\<close>

text \<open>Every unit and every surrogate pair fits the budget.\<close>

definition units_fit :: "'u text_coding \<Rightarrow> nat \<Rightarrow> bool" where
  "units_fit c budget \<longleftrightarrow> (\<forall>u. tc_bytes c [u] \<le> budget)
     \<and> (\<forall>u v. tc_high c u \<longrightarrow> tc_low c v \<longrightarrow> tc_bytes c [u, v] \<le> budget)"

lemma search_end_moves_on:
  assumes "q < low" "q < b" "bound \<le> b"
  shows "\<exists>p. q \<le> p \<and> p < b \<and> search_end c str offset chunkBytes (candidate_end c str q) low bound = candidate_end c str p"
  using assms
proof (induction "bound - low" arbitrary: q low bound rule: less_induct)
  case less
  let ?p = "(low + bound - 1) div 2"
  show ?case
  proof (cases "low < bound")
    case True
    then have p: "low \<le> ?p" "?p < bound" by auto
    show ?thesis
    proof (cases "tc_bytes c (slice str offset (candidate_end c str ?p)) \<le> chunkBytes")
      case fits: True
      have "search_end c str offset chunkBytes (candidate_end c str q) low bound
          = search_end c str offset chunkBytes (candidate_end c str ?p) (?p + 1) bound"
        using True fits by (subst search_end.simps) (simp add: Let_def)
      moreover have "\<exists>r. ?p \<le> r \<and> r < b
          \<and> search_end c str offset chunkBytes (candidate_end c str ?p) (?p + 1) bound = candidate_end c str r"
        by (rule less(1)) (use p less(4) True in auto)
      ultimately show ?thesis using p(1) less(2) le_trans by (metis less_imp_le)
    next
      case False
      have "search_end c str offset chunkBytes (candidate_end c str q) low bound
          = search_end c str offset chunkBytes (candidate_end c str q) low ?p"
        using True False by (subst search_end.simps) (simp add: Let_def)
      moreover have "\<exists>r. q \<le> r \<and> r < b
          \<and> search_end c str offset chunkBytes (candidate_end c str q) low ?p = candidate_end c str r"
        by (rule less(1)) (use p less(2-4) True in auto)
      ultimately show ?thesis by simp
    qed
  next
    case False
    then have "search_end c str offset chunkBytes (candidate_end c str q) low bound = candidate_end c str q"
      by (subst search_end.simps) simp
    then show ?thesis using less(3) by auto
  qed
qed

lemma search_end_progress:
  assumes "\<And>k. low \<le> k \<Longrightarrow> k \<le> m \<Longrightarrow> tc_bytes c (slice str offset (candidate_end c str k)) \<le> chunkBytes"
    and "low \<le> m" "m < bound"
  shows "\<exists>p. m \<le> p \<and> p < bound \<and> search_end c str offset chunkBytes found low bound = candidate_end c str p"
  using assms
proof (induction "bound - low" arbitrary: found low bound rule: less_induct)
  case less
  let ?p = "(low + bound - 1) div 2"
  have low: "low < bound" using less(3,4) by simp
  then have p: "low \<le> ?p" "?p < bound" by auto
  show ?case
  proof (cases "tc_bytes c (slice str offset (candidate_end c str ?p)) \<le> chunkBytes")
    case fits: True
    have step: "search_end c str offset chunkBytes found low bound
        = search_end c str offset chunkBytes (candidate_end c str ?p) (?p + 1) bound"
      using low fits by (subst search_end.simps) (simp add: Let_def)
    show ?thesis
    proof (cases "?p + 1 \<le> m")
      case True
      have "\<exists>r. m \<le> r \<and> r < bound
          \<and> search_end c str offset chunkBytes (candidate_end c str ?p) (?p + 1) bound = candidate_end c str r"
        by (rule less(1)) (use p low less(2-4) True in auto)
      then show ?thesis using step by simp
    next
      case False
      have "\<exists>r. ?p \<le> r \<and> r < bound
          \<and> search_end c str offset chunkBytes (candidate_end c str ?p) (?p + 1) bound = candidate_end c str r"
        by (rule search_end_moves_on) (use p in auto)
      then obtain r where "?p \<le> r" "r < bound"
        "search_end c str offset chunkBytes (candidate_end c str ?p) (?p + 1) bound = candidate_end c str r" by blast
      then show ?thesis using step False by (intro exI [of _ r]) simp
    qed
  next
    case False
    have step: "search_end c str offset chunkBytes found low bound = search_end c str offset chunkBytes found low ?p"
      using low False by (subst search_end.simps) (simp add: Let_def)
    have "m < ?p" using less(2) [OF p(1)] False by (meson not_le)
    then have "\<exists>r. m \<le> r \<and> r < ?p \<and> search_end c str offset chunkBytes found low ?p = candidate_end c str r"
      by (intro less(1)) (use p low less(2,3) in auto)
    then obtain r where "m \<le> r" "r < ?p" "search_end c str offset chunkBytes found low ?p = candidate_end c str r"
      by blast
    then show ?thesis using step p(2) by (intro exI [of _ r]) simp
  qed
qed

lemma slice_one: "k < length str \<Longrightarrow> slice str k (Suc k) = [str ! k]"
  by (simp add: slice_def take_Suc_conv_app_nth [of 0] hd_drop_conv_nth Cons_nth_drop_Suc [symmetric])

lemma slice_two: "Suc k < length str \<Longrightarrow> slice str k (Suc (Suc k)) = [str ! k, str ! Suc k]"
  by (simp add: slice_def numeral_2_eq_2 Cons_nth_drop_Suc [symmetric])

lemma chunk_end_progress:
  assumes "units_fit c chunkBytes" "tc_bytes c [] = 0" "\<And>u. tc_high c u \<Longrightarrow> \<not> tc_low c u" "2 \<le> chunkBytes"
    and "offset < length str"
  shows "chunk_end c str offset chunkBytes \<noteq> offset"
proof (cases "Suc offset < length str \<and> tc_high c (str ! offset) \<and> tc_low c (str ! Suc offset)")
  case True
  have one: "candidate_end c str (offset + 1) = offset" using True by (simp add: candidate_end_def)
  have two: "candidate_end c str (offset + 2) = offset + 2" using True assms(3) by (auto simp: candidate_end_def)
  have "tc_bytes c (slice str offset (candidate_end c str k)) \<le> chunkBytes" if "offset + 1 \<le> k" "k \<le> offset + 2" for k
  proof -
    have "k = offset + 1 \<or> k = offset + 2" using that by auto
    then show ?thesis
    proof
      assume "k = offset + 1"
      then show ?thesis using one assms(2) by (simp add: slice_def)
    next
      assume k: "k = offset + 2"
      have "slice str offset (offset + 2) = [str ! offset, str ! Suc offset]" using True by (simp add: slice_two)
      then show ?thesis using k two True assms(1) by (simp add: units_fit_def)
    qed
  qed
  then have "\<exists>p. offset + 2 \<le> p \<and> p < min (length str) (offset + chunkBytes) + 1
      \<and> chunk_end c str offset chunkBytes = candidate_end c str p"
    unfolding chunk_end_def by (intro search_end_progress) (use assms(4,5) True in auto)
  then obtain p where "offset + 2 \<le> p" "chunk_end c str offset chunkBytes = candidate_end c str p"
    by blast
  then show ?thesis using candidate_bounds(1) [of p c str] by simp
next
  case False
  then have one: "candidate_end c str (offset + 1) = offset + 1" by (auto simp: candidate_end_def)
  have "tc_bytes c (slice str offset (candidate_end c str k)) \<le> chunkBytes" if "offset + 1 \<le> k" "k \<le> offset + 1" for k
  proof -
    have "k = offset + 1" using that by simp
    then show ?thesis using one assms(1) slice_one [OF assms(5)] by (simp add: units_fit_def)
  qed
  then have "\<exists>p. offset + 1 \<le> p \<and> p < min (length str) (offset + chunkBytes) + 1
      \<and> chunk_end c str offset chunkBytes = candidate_end c str p"
    unfolding chunk_end_def by (intro search_end_progress) (use assms(4,5) in auto)
  then obtain p where p: "offset + 1 \<le> p" "chunk_end c str offset chunkBytes = candidate_end c str p"
    by blast
  show ?thesis
  proof (cases "p = offset + 1")
    case True
    then show ?thesis using p one by simp
  next
    case False
    then show ?thesis using p candidate_bounds(1) [of p c str] by simp
  qed
qed

lemma chunk_loop_total:
  assumes "units_fit c rest" "2 \<le> rest" "tc_bytes c [] = 0" "\<And>u. tc_high c u \<Longrightarrow> \<not> tc_low c u"
    and "chunks = [] \<or> chunkBytes = rest"
  shows "\<exists>result. chunk_loop c str rest offset chunkBytes chunks = Inr result"
  using assms
proof (induction c str rest offset chunkBytes chunks rule: chunk_loop.induct)
  case (1 c str rest offset chunkBytes chunks)
  let ?e = "chunk_end c str offset chunkBytes"
  consider "\<not> offset < length str" | "offset < length str" "?e = offset" | "offset < length str" "?e \<noteq> offset" by blast
  then show ?case
  proof cases
    case 1
    then show ?thesis by (subst chunk_loop.simps) simp
  next
    case 2
    have empty: "chunks = []"
    proof (rule ccontr)
      assume "chunks \<noteq> []"
      then have "chunkBytes = rest" using 1(7) by simp
      then show False using 2 chunk_end_progress [of c rest offset str] 1(3-6) by blast
    qed
    then have "\<not> chunks \<noteq> []" by simp
    from 1(1) [OF 2(1) refl 2(2) this 1(3-6)] show ?thesis
      using 2 empty by (subst chunk_loop.simps) (simp add: Let_def)
  next
    case 3
    from 1(2) [OF 3(1) refl 3(2) 1(3-6)] show ?thesis using 3 by (subst chunk_loop.simps) (simp add: Let_def)
  qed
qed

lemma chunkJsonText_total:
  assumes "units_fit c rest" "2 \<le> rest" "tc_bytes c [] = 0" "\<And>u. tc_high c u \<Longrightarrow> \<not> tc_low c u"
  shows "\<exists>chunks. chunkJsonText c str first rest = Inr chunks"
  using chunk_loop_total [OF assms, of "[]" first str 0] by (simp add: chunkJsonText_def)

end
