(* ===== verification/Thought_Content.thy ===== *)
theory Thought_Content
  imports Json_Text Runtime_Events
begin

text \<open>
  src/src/runtimes/thought-content.ts: a thought as the lossless updates that carry its whole
  content, in pieces that fit one event each.
\<close>

section \<open>Decimal numbers\<close>

fun decimal :: "nat \<Rightarrow> string" where
  "decimal n = (if n < 10 then [digits ! n] else decimal (n div 10) @ [digits ! (n mod 10)])"

declare decimal.simps [simp del]

section \<open>The code\<close>

record 'u thought_update =
  tu_thoughtId :: string
  tu_content :: "'u list"
  tu_offset :: nat
  tu_source :: "string option"

datatype thought_error = ThoughtTooLarge | ThoughtIdentityTooLarge | ThoughtChunk chunk_error

definition thoughtContentBytes :: "'u text_coding \<Rightarrow> 'u list \<Rightarrow> nat" where
  "thoughtContentBytes c t = tc_bytes c t"

text \<open>\<open>previous.slice(-1)\<close> is the last unit, or nothing.\<close>

definition last_unit :: "'u list \<Rightarrow> 'u list" where
  "last_unit t = drop (length t - 1) t"

definition thoughtContentDeltaBytes :: "'u text_coding \<Rightarrow> 'u list \<Rightarrow> 'u list \<Rightarrow> int" where
  "thoughtContentDeltaBytes c previous delta =
     int (thoughtContentBytes c (last_unit previous @ delta)) - int (thoughtContentBytes c (last_unit previous))"

definition thought_event :: "string \<Rightarrow> string option \<Rightarrow> 'u list \<Rightarrow> nat \<Rightarrow> nat \<Rightarrow> 'u thought_update" where
  "thought_event thoughtId sourcePrefix content offset index =
     \<lparr>tu_thoughtId = thoughtId, tu_content = content, tu_offset = offset,
      tu_source = map_option (\<lambda>p. p @ '':'' @ decimal index) sourcePrefix\<rparr>"

fun number_chunks :: "string \<Rightarrow> string option \<Rightarrow> nat \<Rightarrow> nat \<Rightarrow> 'u list list \<Rightarrow> 'u thought_update list" where
  "number_chunks thoughtId sourcePrefix offset index [] = []"
| "number_chunks thoughtId sourcePrefix offset index (content # rest) =
     thought_event thoughtId sourcePrefix content offset index
       # number_chunks thoughtId sourcePrefix (offset + length content) (Suc index) rest"

text \<open>\<open>event_bytes\<close> is the UTF-8 length of the JSON of an event.\<close>

definition createThoughtContentEvents ::
    "'u text_coding \<Rightarrow> ('u thought_update \<Rightarrow> nat) \<Rightarrow> string \<Rightarrow> 'u list \<Rightarrow> string option
      \<Rightarrow> thought_error + 'u thought_update list" where
  "createThoughtContentEvents c event_bytes thoughtId t sourcePrefix =
     (if int (thoughtContentBytes c t) > MAX_THOUGHT_CONTENT_BYTES then Inl ThoughtTooLarge
      else
        let bytes = int MAX_THOUGHT_UPDATE_BYTES - 1024
              - int (event_bytes (thought_event thoughtId sourcePrefix [] (length t) (length t)))
        in if bytes < 6 then Inl ThoughtIdentityTooLarge
           else case chunkJsonText c t (nat bytes) (nat bytes) of
             Inl e \<Rightarrow> Inl (ThoughtChunk e)
           | Inr chunks \<Rightarrow> Inr (number_chunks thoughtId sourcePrefix 0 0 chunks))"

section \<open>What the updates carry\<close>

lemma number_chunks_contents: "map tu_content (number_chunks i p offset index chunks) = chunks"
  by (induction chunks arbitrary: offset index) (simp_all add: thought_event_def)

lemma number_chunks_offsets:
  assumes "k < length chunks"
  shows "tu_offset (number_chunks i p offset index chunks ! k) = offset + length (concat (take k chunks))"
  using assms
proof (induction chunks arbitrary: offset index k)
  case (Cons x xs)
  then show ?case by (cases k) (simp_all add: thought_event_def)
qed simp

lemma number_chunks_id: "e \<in> set (number_chunks i p offset index chunks) \<Longrightarrow> tu_thoughtId e = i"
  by (induction chunks arbitrary: offset index) (auto simp: thought_event_def)

text \<open>What the code relies on of JSON and of the coding.\<close>

definition json_coding :: "'u text_coding \<Rightarrow> bool" where
  "json_coding c \<longleftrightarrow> tc_bytes c [] = 0 \<and> (\<forall>u. tc_high c u \<longrightarrow> \<not> tc_low c u) \<and> units_fit c 6"

lemma units_fit_mono: "units_fit c m \<Longrightarrow> m \<le> n \<Longrightarrow> units_fit c n"
  by (meson units_fit_def le_trans)

text \<open>
  The updates carry the whole thought, each at the place its content has in it, and no cut
  parts a surrogate pair; the only reasons to refuse are the two limits.
\<close>

lemma thought_content_events:
  assumes "json_coding c"
  shows "case createThoughtContentEvents c event_bytes i t p of
      Inr events \<Rightarrow> concat (map tu_content events) = t
        \<and> (\<forall>k<length events. tu_thoughtId (events ! k) = i
             \<and> tu_offset (events ! k) = length (concat (map tu_content (take k events)))
             \<and> clean_cut c t (tu_offset (events ! k)))
    | Inl e \<Rightarrow> e = ThoughtTooLarge \<and> MAX_THOUGHT_CONTENT_BYTES < int (tc_bytes c t)
        \<or> e = ThoughtIdentityTooLarge
           \<and> int MAX_THOUGHT_UPDATE_BYTES
               < int (event_bytes (thought_event i p [] (length t) (length t))) + 1030"
proof -
  let ?bytes = "int MAX_THOUGHT_UPDATE_BYTES - 1024 - int (event_bytes (thought_event i p [] (length t) (length t)))"
  have c: "tc_bytes c [] = 0" "tc_high c u \<Longrightarrow> \<not> tc_low c u" "units_fit c 6" for u
    using assms by (auto simp: json_coding_def)
  consider "MAX_THOUGHT_CONTENT_BYTES < int (tc_bytes c t)" | "\<not> MAX_THOUGHT_CONTENT_BYTES < int (tc_bytes c t)" "?bytes < 6"
    | "\<not> MAX_THOUGHT_CONTENT_BYTES < int (tc_bytes c t)" "6 \<le> ?bytes" by linarith
  then show ?thesis
  proof cases
    case 3
    have "units_fit c (nat ?bytes)" using units_fit_mono [OF c(3)] 3(2) by simp
    moreover have "2 \<le> nat ?bytes" using 3(2) by simp
    ultimately obtain chunks where chunks: "chunkJsonText c t (nat ?bytes) (nat ?bytes) = Inr chunks"
      using chunkJsonText_total [OF _ _ c(1,2)] by blast
    note ok = chunkJsonText_ok [OF chunks c(1,2)]
    let ?events = "number_chunks i p 0 0 chunks"
    have made: "createThoughtContentEvents c event_bytes i t p = Inr ?events"
      using 3 chunks unfolding createThoughtContentEvents_def thoughtContentBytes_def Let_def by simp
    have len: "length ?events = length chunks" by (metis length_map number_chunks_contents)
    have "tu_thoughtId (?events ! k) = i
        \<and> tu_offset (?events ! k) = length (concat (map tu_content (take k ?events)))
        \<and> clean_cut c t (tu_offset (?events ! k))" if "k < length ?events" for k
    proof -
      have k: "k < length chunks" using that len by simp
      have off: "tu_offset (?events ! k) = length (concat (take k chunks))"
        using number_chunks_offsets [OF k] by simp
      moreover have "length (concat (take k chunks)) \<in> set (cuts chunks)" using k by (auto simp: cuts_def)
      then have "clean_cut c t (length (concat (take k chunks)))" using ok by blast
      moreover have "map tu_content (take k ?events) = take k chunks"
        by (simp add: take_map [symmetric] number_chunks_contents)
      ultimately show ?thesis using number_chunks_id [OF nth_mem [OF that]] by simp
    qed
    moreover have "concat (map tu_content ?events) = t" using ok by (simp add: number_chunks_contents)
    ultimately show ?thesis unfolding made sum.case by blast
  qed (simp_all add: createThoughtContentEvents_def thoughtContentBytes_def Let_def)
qed

text \<open>The bytes a thought has grown by, when the JSON of a text is that of its units but for pairs.\<close>

definition local_bytes :: "'u text_coding \<Rightarrow> bool" where
  "local_bytes c \<longleftrightarrow> (\<forall>a u d. tc_bytes c (a @ u # d) + tc_bytes c [u] = tc_bytes c (a @ [u]) + tc_bytes c (u # d))"

lemma thought_delta_bytes:
  assumes "local_bytes c" "tc_bytes c [] = 0"
  shows "int (thoughtContentBytes c previous) + thoughtContentDeltaBytes c previous delta
    = int (thoughtContentBytes c (previous @ delta))"
proof (cases previous rule: rev_cases)
  case Nil
  then show ?thesis using assms(2) by (simp add: thoughtContentDeltaBytes_def thoughtContentBytes_def last_unit_def)
next
  case (snoc a u)
  have "tc_bytes c (a @ u # delta) + tc_bytes c [u] = tc_bytes c (a @ [u]) + tc_bytes c (u # delta)"
    using assms(1) unfolding local_bytes_def by blast
  then show ?thesis using snoc
    by (simp add: thoughtContentDeltaBytes_def thoughtContentBytes_def last_unit_def)
qed

end
