(* ===== verification/Acp_Events.thy ===== *)
theory Acp_Events
  imports Thought_Content
begin

text \<open>
  src/src/runtimes/acp: the events of an ACP session and how session updates, start-up answers
  and permission requests are projected to them (acp-types.ts, acp-session-update-events.ts,
  acp-lifecycle-events.ts, acp-permission-events.ts, the readers of provider-json.ts and
  \<open>toToolCallPayload\<close> of acp-tool-events.ts).

  An update of type \<open>unknown\<close> is a JSON value; a property that is \<open>undefined\<close> is absent.  The
  constructors of \<open>acp_body\<close> are the kinds of event whose payload the state machine makes
  itself, without the fields that are constant (\<open>role: agent\<close>, \<open>channel: summary\<close>,
  \<open>itemType: tool_call\<close>); \<open>Projected\<close> holds a kind and a payload made from an update.

  Parameters, the fields of \<open>acp_env\<close>: \<open>formatLogValue\<close> of observability, the schema of
  timestamps, the UTF-8 lengths of a text and of the JSON of a value and of an event, \<open>createDriverId\<close> and
  the clock.  Characters are the 8-bit ones, so no character is half of a surrogate pair.
\<close>

section \<open>Events\<close>

datatype acp_delivery = DeliverBestEffort | DeliverLossless

datatype tool_status = ToolCancelled | ToolCompleted | ToolFailed | ToolRunning

datatype acp_body =
  MessageStarted string
| MessageAdded string string  \<comment> \<open>messageId, content\<close>
| MessageDelta string string "json option"  \<comment> \<open>messageId, contentDelta, contentBlock\<close>
| MessageCompleted string
| MessageCancelled string string  \<comment> \<open>messageId, stopReason\<close>
| MessageFailed string string string bool "string option"  \<comment> \<open>messageId, code, message, retryable, stopReason\<close>
| ThoughtStarted string
| ThoughtDelta string string "json option"
| ThoughtCompleted string
| ThoughtCancelled string string "string option"  \<comment> \<open>thoughtId, reason, stopReason\<close>
| ThoughtUpdated "char thought_update"
| ItemStarted string "string option" string  \<comment> \<open>itemId, parentMessageId, title\<close>
| ItemCompleted string tool_status "string option"  \<comment> \<open>itemId, status, error\<close>
| ToolCallUpdated json_object
| RunCancelled string  \<comment> \<open>requestedBy\<close>
| RunFailed string string "nat option" bool "string option"
    \<comment> \<open>code, message, originalMessageUtf8Bytes, retryable and recoverable, stopReason\<close>
| RunCompleted "string option" string  \<comment> \<open>finalMessageId, stopReason\<close>
| UserMessageAdded string string  \<comment> \<open>messageId, text\<close>
| RunDispatched string string  \<comment> \<open>inputSummary, userMessageId\<close>
| RunStarted string string  \<comment> \<open>input item, startedAt\<close>
| Projected string json_object

record acp_event =
  ae_body :: acp_body
  ae_delivery :: "acp_delivery option"
  ae_runId :: "string option"
  ae_source :: "string option"
  ae_ownerDebug :: bool  \<comment> \<open>visibility: owner_debug\<close>

record acp_env =
  ac_display :: "json \<Rightarrow> string"
  ac_timestamp :: "string \<Rightarrow> bool"
  ac_utf8_bytes :: "string \<Rightarrow> nat"
  ac_json_bytes :: "json \<Rightarrow> nat"
  ac_event_bytes :: "acp_event \<Rightarrow> nat"
  ac_ids :: "nat \<Rightarrow> string"
  ac_startedAt :: string

definition plain_event :: "acp_body \<Rightarrow> string option \<Rightarrow> acp_event" where
  "plain_event body runId =
     \<lparr>ae_body = body, ae_delivery = None, ae_runId = runId, ae_source = None, ae_ownerDebug = False\<rparr>"

definition MAX_ACP_LOSSLESS_EVENT_BYTES :: nat where
  "MAX_ACP_LOSSLESS_EVENT_BYTES = 512 * 1024"

datatype acp_error =
  EventTooLarge acp_body | TurnStateLimit | RunNotInitialized | ThoughtNotInitialized
| ToolNotProjected | MessageChunk chunk_error | ThoughtContent thought_error

definition assertBoundedLosslessEvents :: "acp_env \<Rightarrow> acp_event list \<Rightarrow> acp_error + acp_event list" where
  "assertBoundedLosslessEvents env events =
     (case find (\<lambda>e. ae_delivery e \<noteq> Some DeliverBestEffort
                 \<and> ac_event_bytes env e > MAX_ACP_LOSSLESS_EVENT_BYTES) events of
        Some e \<Rightarrow> Inl (EventTooLarge (ae_body e))
      | None \<Rightarrow> Inr events)"

section \<open>Readers\<close>

definition json_field :: "json_object option \<Rightarrow> string \<Rightarrow> json option" where
  "json_field value key = Option.bind value (\<lambda>m. fmlookup m key)"

definition readArray :: "json_object option \<Rightarrow> string \<Rightarrow> json list" where
  "readArray value key = (case json_field value key of Some (JArr xs) \<Rightarrow> xs | _ \<Rightarrow> [])"

definition provider_readString :: "json_object option \<Rightarrow> string \<Rightarrow> string option" where
  "provider_readString value key = (case json_field value key of Some (JStr s) \<Rightarrow> Some s | _ \<Rightarrow> None)"

definition readNonEmptyString :: "json_object option \<Rightarrow> string \<Rightarrow> string option" where
  "readNonEmptyString value key =
     (case provider_readString value key of Some s \<Rightarrow> if s \<noteq> [] then Some s else None | None \<Rightarrow> None)"

definition readNumber :: "json_object option \<Rightarrow> string \<Rightarrow> rat option" where
  "readNumber value key = (case json_field value key of Some (JNum q) \<Rightarrow> Some q | _ \<Rightarrow> None)"

definition readRecord :: "json_object option \<Rightarrow> string \<Rightarrow> json_object option" where
  "readRecord value key = (case json_field value key of Some (JObj m) \<Rightarrow> Some m | _ \<Rightarrow> None)"

text \<open>\<open>null\<close> is \<open>Some None\<close>, \<open>undefined\<close> is \<open>None\<close>.\<close>

definition readNullableString :: "json_object option \<Rightarrow> string \<Rightarrow> string option option" where
  "readNullableString value key =
     (case json_field value key of Some JNull \<Rightarrow> Some None | Some (JStr s) \<Rightarrow> Some (Some s) | _ \<Rightarrow> None)"

definition nullable :: "string option \<Rightarrow> json" where
  "nullable v = (case v of None \<Rightarrow> JNull | Some s \<Rightarrow> JStr s)"

definition stringifyForDisplay :: "acp_env \<Rightarrow> json option \<Rightarrow> string" where
  "stringifyForDisplay env v =
     (case v of None \<Rightarrow> [] | Some JNull \<Rightarrow> [] | Some x \<Rightarrow> ac_display env x)"

text \<open>\<open>a ?? b\<close>.\<close>

definition or_else :: "'a option \<Rightarrow> 'a option \<Rightarrow> 'a option" where
  "or_else a b = (case a of None \<Rightarrow> b | Some x \<Rightarrow> Some x)"

text \<open>An object from its properties, those that are present.\<close>

definition object_fields :: "(string \<times> json option) list \<Rightarrow> json_object" where
  "object_fields fs = fmap_of_list (concat (map (\<lambda>(k, v). case v of None \<Rightarrow> [] | Some x \<Rightarrow> [(k, x)]) fs))"

definition is_count :: "rat \<Rightarrow> bool" where
  "is_count q \<longleftrightarrow> is_safe_integer q \<and> 0 \<le> q"

section \<open>Session updates\<close>

definition summarizeLabel :: "string \<Rightarrow> json_object \<Rightarrow> string" where
  "summarizeLabel label m =
     (case or_else (provider_readString (Some m) ''title'')
             (or_else (provider_readString (Some m) ''name'') (provider_readString (Some m) ''uri'')) of
        None \<Rightarrow> ''['' @ label @ '']''
      | Some title \<Rightarrow> ''['' @ label @ '': '' @ title @ '']'')"

definition summarizeContentBlock :: "acp_env \<Rightarrow> json option \<Rightarrow> string option" where
  "summarizeContentBlock env content =
     (case content of
        Some (JObj m) \<Rightarrow>
          (let type = fmlookup m ''type''
           in if type = Some (JStr ''text'') then readNonEmptyString (Some m) ''text''
              else if type = Some (JStr ''image'') then Some (summarizeLabel ''image'' m)
              else if type = Some (JStr ''audio'') then Some (summarizeLabel ''audio'' m)
              else if type = Some (JStr ''resource'') \<or> type = Some (JStr ''resource_link'')
              then Some (summarizeLabel ''resource'' m)
              else Some (stringifyForDisplay env content))
      | _ \<Rightarrow> None)"

definition normalizeCommand :: "json \<Rightarrow> json_object list" where
  "normalizeCommand entry =
     (case entry of
        JObj m \<Rightarrow>
          (case readNonEmptyString (Some m) ''name'' of
             None \<Rightarrow> []
           | Some name \<Rightarrow>
               [object_fields
                  [(''description'', Some (JStr (case readNullableString (Some m) ''description'' of
                                                   Some (Some d) \<Rightarrow> d | _ \<Rightarrow> []))),
                   (''input'', Some (case fmlookup m ''input'' of Some v \<Rightarrow> v | None \<Rightarrow> JNull)),
                   (''name'', Some (JStr name))]])
      | _ \<Rightarrow> [])"

definition normalizeCommands :: "json option \<Rightarrow> json_object list option" where
  "normalizeCommands raw =
     (case raw of Some (JArr xs) \<Rightarrow> Some (concat (map normalizeCommand xs)) | _ \<Rightarrow> None)"

lemma member_smaller: "fmlookup m k = Some v \<Longrightarrow> size v < size (JObj m)"
proof -
  assume look: "fmlookup m k = Some v"
  have "size v < (\<Sum>x\<in>fset (fset_of_fmap m). Suc (case x of (a, b) \<Rightarrow> f a + size b))" for f :: "string \<Rightarrow> nat"
  proof -
    have "(k, v) \<in> fset (fset_of_fmap m)" using look by simp
    then have "Suc (case (k, v) of (a, b) \<Rightarrow> f a + size b)
        \<le> (\<Sum>x\<in>fset (fset_of_fmap m). Suc (case x of (a, b) \<Rightarrow> f a + size b))"
      by (intro member_le_sum) auto
    then show ?thesis by simp
  qed
  from this [of "\<lambda>_. 0"] show ?thesis by simp
qed

lemma list_member_smaller: "x \<in> set xs \<Longrightarrow> size x < size (JArr xs)"
  by (induction xs) auto

text \<open>The choices of a select option; a group's choices name the group.\<close>

function normalizeChoices :: "json option \<Rightarrow> (string \<times> string) option \<Rightarrow> json_object list" where
  "normalizeChoices raw grp =
     (case raw of
        Some (JArr entries) \<Rightarrow>
          concat (map (\<lambda>entry.
            case entry of
              JObj m \<Rightarrow>
                (case (fmlookup m ''options'', readNonEmptyString (Some m) ''group'') of
                   (Some (JArr nested), Some groupId) \<Rightarrow>
                     normalizeChoices (Some (JArr nested))
                       (Some (groupId, case readNonEmptyString (Some m) ''name'' of Some n \<Rightarrow> n | None \<Rightarrow> groupId))
                 | _ \<Rightarrow>
                     (case readNonEmptyString (Some m) ''value'' of
                        None \<Rightarrow> []
                      | Some val \<Rightarrow>
                          [object_fields
                             [(''description'', map_option nullable (readNullableString (Some m) ''description'')),
                              (''group'', map_option (\<lambda>(i, _). JStr i) grp),
                              (''groupName'', map_option (\<lambda>(_, n). JStr n) grp),
                              (''name'', Some (JStr (case readNonEmptyString (Some m) ''name'' of
                                                       Some n \<Rightarrow> n | None \<Rightarrow> val))),
                              (''value'', Some (JStr val))]]))
            | _ \<Rightarrow> []) entries)
      | _ \<Rightarrow> [])"
  by pat_completeness auto
termination
proof (relation "measure (\<lambda>(raw, _). case raw of None \<Rightarrow> 0 | Some v \<Rightarrow> size v)", goal_cases)
  case (2 raw grp v entries entry m a b a' nested groupId)
  then have "size (JArr nested) < size (JObj m)" "size (JObj m) < size (JArr entries)"
    using member_smaller [of m "''options''" "JArr nested"] list_member_smaller [of entry entries] by simp_all
  then have "size (JArr nested) < size (JArr entries)" by (rule less_trans)
  then show ?case using 2(1,2) by simp
qed simp

declare normalizeChoices.simps [simp del]

definition normalizeConfigOption :: "json \<Rightarrow> json_object list" where
  "normalizeConfigOption entry =
     (case entry of
        JObj m \<Rightarrow>
          (case readNonEmptyString (Some m) ''id'' of
             None \<Rightarrow> []
           | Some i \<Rightarrow>
               let category = map_option nullable (readNullableString (Some m) ''category'');
                   description = map_option nullable (readNullableString (Some m) ''description'');
                   name = map_option JStr (readNonEmptyString (Some m) ''name'')
               in if fmlookup m ''type'' = Some (JStr ''boolean'') then
                    (case fmlookup m ''currentValue'' of
                       Some (JBool v) \<Rightarrow>
                         [object_fields
                            [(''category'', category), (''currentValue'', Some (JBool v)),
                             (''description'', description), (''id'', Some (JStr i)), (''name'', name),
                             (''type'', Some (JStr ''boolean''))]]
                     | _ \<Rightarrow> [])
                  else if fmlookup m ''type'' = Some (JStr ''select'') then
                    [object_fields
                       [(''category'', category),
                        (''currentValue'', map_option JStr (provider_readString (Some m) ''currentValue'')),
                        (''description'', description), (''id'', Some (JStr i)), (''name'', name),
                        (''type'', Some (JStr ''select'')),
                        (''values'', case fmlookup m ''options'' of
                           Some (JArr xs) \<Rightarrow> Some (JArr (map JObj (normalizeChoices (Some (JArr xs)) None)))
                         | _ \<Rightarrow> None)]]
                  else [])
      | _ \<Rightarrow> [])"

definition normalizeConfigOptions :: "json option \<Rightarrow> json_object list option" where
  "normalizeConfigOptions raw =
     (case raw of Some (JArr xs) \<Rightarrow> Some (concat (map normalizeConfigOption xs)) | _ \<Rightarrow> None)"

fun normalizePlanEntries :: "nat \<Rightarrow> json list \<Rightarrow> json_object list" where
  "normalizePlanEntries index [] = []"
| "normalizePlanEntries index (entry # rest) =
     (case entry of
        JObj m \<Rightarrow>
          (case readNonEmptyString (Some m) ''content'' of
             None \<Rightarrow> []
           | Some content \<Rightarrow>
               [object_fields
                  [(''content'', Some (JStr content)),
                   (''id'', Some (JStr (case readNonEmptyString (Some m) ''id'' of
                                          Some i \<Rightarrow> i | None \<Rightarrow> ''plan-'' @ decimal (index + 1)))),
                   (''priority'', Some (case readNullableString (Some m) ''priority'' of
                                          Some v \<Rightarrow> nullable v | None \<Rightarrow> JNull)),
                   (''status'', Some (JStr (case readNullableString (Some m) ''status'' of
                                          Some (Some st) \<Rightarrow> st | _ \<Rightarrow> ''pending'')))]])
      | _ \<Rightarrow> []) @ normalizePlanEntries (Suc index) rest"

definition normalizePlan :: "json option \<Rightarrow> json_object list" where
  "normalizePlan raw = (case raw of Some (JArr xs) \<Rightarrow> normalizePlanEntries 0 xs | _ \<Rightarrow> [])"

definition projected :: "string \<Rightarrow> json_object \<Rightarrow> acp_event" where
  "projected kind payload = plain_event (Projected kind payload) None"

definition sent_best_effort :: "acp_event \<Rightarrow> acp_event" where
  "sent_best_effort e = e\<lparr>ae_delivery := Some DeliverBestEffort\<rparr>"

definition owner_debug :: "acp_event \<Rightarrow> acp_event" where
  "owner_debug e = e\<lparr>ae_ownerDebug := True\<rparr>"

definition toCommandEvents :: "json_object option \<Rightarrow> acp_event list" where
  "toCommandEvents update =
     (case normalizeCommands (json_field update ''availableCommands'') of
        None \<Rightarrow> []
      | Some commands \<Rightarrow>
          [projected ''session.commands.updated'' (object_fields [(''commands'', Some (JArr (map JObj commands)))])])"

definition toPlanEvents :: "json_object option \<Rightarrow> acp_event list" where
  "toPlanEvents update =
     (let rawEntries = json_field update ''entries''; entries = normalizePlan rawEntries
      in case rawEntries of
           Some (JArr xs) \<Rightarrow>
             if xs \<noteq> [] \<and> entries = [] then []
             else [projected ''plan.updated''
                     (object_fields [(''entries'', Some (JArr (map JObj entries))), (''source'', Some (JStr ''acp''))])]
         | _ \<Rightarrow> [])"

definition toConfigEvents :: "json_object option \<Rightarrow> acp_event list" where
  "toConfigEvents update =
     (case normalizeConfigOptions (json_field update ''configOptions'') of
        None \<Rightarrow> []
      | Some options \<Rightarrow>
          [sent_best_effort (projected ''session.config.updated''
             (object_fields [(''options'', Some (JArr (map JObj options)))]))])"

definition toInfoEvents :: "acp_env \<Rightarrow> json_object option \<Rightarrow> acp_event list" where
  "toInfoEvents env update =
     (let rawTitle = readNullableString update ''title'';
          rawUpdatedAt = readNullableString update ''updatedAt'';
          title = (if rawTitle = Some (Some []) then None else rawTitle);
          updatedAt = (case rawUpdatedAt of
                         Some (Some t) \<Rightarrow> if ac_timestamp env t then rawUpdatedAt else None
                       | _ \<Rightarrow> rawUpdatedAt)
      in if title = None \<and> updatedAt = None then []
         else [projected ''session.info.updated''
                 (object_fields [(''title'', map_option nullable title), (''updatedAt'', map_option nullable updatedAt)])])"

definition toModeEvents :: "json_object option \<Rightarrow> acp_event list" where
  "toModeEvents update =
     (let currentMode = readNonEmptyString update ''currentModeId'';
          availableModes = (case json_field update ''availableModes'' of Some (JArr xs) \<Rightarrow> Some (JArr xs) | _ \<Rightarrow> None)
      in if currentMode = None \<and> availableModes = None then []
         else [sent_best_effort (projected ''session.mode.updated''
                 (object_fields [(''availableModes'', availableModes), (''currentMode'', map_option JStr currentMode)]))])"

definition toUsageEvents :: "json_object option \<Rightarrow> acp_event list" where
  "toUsageEvents update =
     (case (readNumber update ''used'', readNumber update ''size'') of
        (Some used, Some window) \<Rightarrow>
          if is_count used \<and> is_count window
          then [projected ''context.usage.updated''
                  (object_fields [(''size'', Some (JNum window)), (''used'', Some (JNum used))])]
          else []
      | _ \<Rightarrow> [])"

section \<open>The life of a session and of a prompt\<close>

definition record_param :: "json \<Rightarrow> json_object" where
  "record_param v = (case v of JObj m \<Rightarrow> m | _ \<Rightarrow> fmempty)"

definition toInitializeEvents :: "json_object \<Rightarrow> acp_event list" where
  "toInitializeEvents answer =
     owner_debug (sent_best_effort (projected ''runtime.capabilities.updated''
       (object_fields
          [(''capabilities'', Some (case fmlookup answer ''agentCapabilities'' of
                                      None \<Rightarrow> JObj fmempty | Some JNull \<Rightarrow> JObj fmempty | Some v \<Rightarrow> v)),
           (''protocolVersion'', fmlookup answer ''protocolVersion'')])))
     # (case fmlookup answer ''authMethods'' of
          Some (JArr (x # xs)) \<Rightarrow>
            [owner_debug (sent_best_effort (projected ''auth.methods.updated''
               (object_fields [(''methods'', Some (JArr (x # xs)))])))]
        | _ \<Rightarrow> [])"

definition toPromptStartEvents :: "acp_env \<Rightarrow> string \<Rightarrow> string \<Rightarrow> string \<Rightarrow> acp_error + acp_event list" where
  "toPromptStartEvents env messageId runId txt =
     assertBoundedLosslessEvents env
       [plain_event (UserMessageAdded messageId txt) (Some runId),
        plain_event (RunDispatched (take 240 txt) messageId) (Some runId),
        plain_event (RunStarted messageId (ac_startedAt env)) (Some runId)]"

datatype session_mode = SessionMadeNew | SessionLoaded | SessionResumed

definition toSessionReadyEvents ::
    "acp_env \<Rightarrow> session_mode \<Rightarrow> string \<Rightarrow> json_object \<Rightarrow> acp_error + acp_event list" where
  "toSessionReadyEvents env mode nativeSessionId setup =
     assertBoundedLosslessEvents env
       ([if mode = SessionMadeNew
         then projected ''session.created''
                (object_fields [(''mode'', Some (JStr ''acp'')), (''topology'', Some (JStr ''stdio''))])
         else projected ''session.resumed''
                (object_fields
                   [(''reason'', Some (JStr (if mode = SessionLoaded then ''loaded'' else ''resumed''))),
                    (''resumePointer'', Some (JStr nativeSessionId))]),
         owner_debug (projected ''runtime.resume.updated''
           (object_fields [(''resumePointer'', Some (JStr nativeSessionId))]))]
        @ toModeEvents (readRecord (Some setup) ''modes'') @ toConfigEvents (Some setup))"

definition toAuthEvent :: "acp_env \<Rightarrow> string \<Rightarrow> string \<Rightarrow> acp_error + acp_event" where
  "toAuthEvent env methodId status =
     bindE (assertBoundedLosslessEvents env
       [owner_debug (projected ''auth.session.updated''
          (object_fields [(''methodId'', Some (JStr methodId)), (''status'', Some (JStr status))]))])
       (\<lambda>events. Inr (hd events))"

definition isTurnScopedSessionUpdate :: "json \<Rightarrow> bool" where
  "isTurnScopedSessionUpdate params \<longleftrightarrow>
     (case provider_readString (readRecord (Some (record_param params)) ''update'') ''sessionUpdate'' of
        None \<Rightarrow> False
      | Some u \<Rightarrow> u \<in> set [''agent_message_chunk'', ''agent_thought_chunk'', ''plan'', ''tool_call'',
                          ''tool_call_update'', ''user_message_chunk''])"

definition readTokenCount :: "json_object \<Rightarrow> string \<Rightarrow> string \<Rightarrow> rat option" where
  "readTokenCount raw key snakeCaseKey =
     (case or_else (readNumber (Some raw) key) (readNumber (Some raw) snakeCaseKey) of
        Some v \<Rightarrow> if is_count v then Some v else None
      | None \<Rightarrow> None)"

definition normalizePromptUsage :: "json option \<Rightarrow> json_object option" where
  "normalizePromptUsage raw =
     (case raw of
        Some (JObj m) \<Rightarrow>
          let totalTokens = readTokenCount m ''totalTokens'' ''total_tokens'';
              inputTokens = readTokenCount m ''inputTokens'' ''input_tokens'';
              outputTokens = readTokenCount m ''outputTokens'' ''output_tokens'';
              cachedReadTokens = readTokenCount m ''cachedReadTokens'' ''cached_read_tokens'';
              cachedWriteTokens = readTokenCount m ''cachedWriteTokens'' ''cached_write_tokens'';
              thoughtTokens = readTokenCount m ''thoughtTokens'' ''thought_tokens''
          in if totalTokens = None \<and> inputTokens = None \<and> outputTokens = None \<and> cachedReadTokens = None
                \<and> cachedWriteTokens = None then None
             else Some (object_fields
               [(''cachedReadTokens'', map_option JNum cachedReadTokens),
                (''cachedWriteTokens'', map_option JNum cachedWriteTokens),
                (''inputTokens'', map_option JNum inputTokens), (''outputTokens'', map_option JNum outputTokens),
                (''source'', Some (JStr ''prompt_response'')), (''thoughtTokens'', map_option JNum thoughtTokens),
                (''totalTokens'', map_option JNum totalTokens),
                (''usageContract'', Some (JStr ''anthropic_bucketed''))])
      | _ \<Rightarrow> None)"

section \<open>Tool calls and permission requests\<close>

fun tool_status_name :: "tool_status \<Rightarrow> string" where
  "tool_status_name ToolCancelled = ''cancelled''"
| "tool_status_name ToolCompleted = ''completed''"
| "tool_status_name ToolFailed = ''failed''"
| "tool_status_name ToolRunning = ''running''"

definition toRuntimeToolStatus :: "string option \<Rightarrow> tool_status" where
  "toRuntimeToolStatus status =
     (if status = Some ''completed'' then ToolCompleted
      else if status = Some ''failed'' then ToolFailed else ToolRunning)"

definition readToolDisplayString :: "acp_env \<Rightarrow> json option \<Rightarrow> string option" where
  "readToolDisplayString env v =
     (let display = stringifyForDisplay env v in if display \<noteq> [] then Some display else None)"

definition readToolContentString :: "acp_env \<Rightarrow> json option \<Rightarrow> string option" where
  "readToolContentString env v =
     (case v of
        Some (JObj m) \<Rightarrow>
          (case readNonEmptyString (Some m) ''text'' of Some t \<Rightarrow> Some t | None \<Rightarrow> readToolDisplayString env v)
      | _ \<Rightarrow> readToolDisplayString env v)"

definition toToolCallPayload :: "acp_env \<Rightarrow> string \<Rightarrow> tool_status \<Rightarrow> json_object option \<Rightarrow> json_object" where
  "toToolCallPayload env toolCallId status update =
     (let content = readToolContentString env (json_field update ''content'');
          rawOutput = readToolDisplayString env (json_field update ''rawOutput'')
      in object_fields
        [(''content'', map_option JStr content),
         (''kind'', map_option JStr (readNonEmptyString update ''kind'')),
         (''locations'', case json_field update ''locations'' of Some JNull \<Rightarrow> None | v \<Rightarrow> v),
         (''rawInput'', map_option JStr (readToolDisplayString env (json_field update ''rawInput''))),
         (''rawOutput'', if rawOutput = content then None else map_option JStr rawOutput),
         (''name'', map_option JStr (readNonEmptyString update ''name'')),
         (''status'', Some (JStr (tool_status_name status))),
         (''title'', map_option JStr (readNonEmptyString update ''title'')),
         (''toolCallId'', Some (JStr toolCallId))])"

record acp_permission_option =
  po_kind :: string
  po_name :: string
  po_optionId :: string

record acp_permission_request =
  ap_rawInput :: string
  ap_requestId :: string
  ap_title :: string
  ap_toolCallId :: string
  ap_toolKind :: "string option"

record permission_translation =
  pt_events :: "acp_event list"
  pt_options :: "acp_permission_option list"
  pt_request :: acp_permission_request
  pt_targetItemId :: string
  pt_toolCall :: "json_object option"

definition normalizePermissionOption :: "json \<Rightarrow> acp_permission_option list" where
  "normalizePermissionOption entry =
     (case entry of
        JObj m \<Rightarrow>
          (case (readNonEmptyString (Some m) ''optionId'', readNonEmptyString (Some m) ''name'',
                 readNonEmptyString (Some m) ''kind'') of
             (Some optionId, Some name, Some kind) \<Rightarrow>
               [\<lparr>po_kind = kind, po_name = name, po_optionId = optionId\<rparr>]
           | _ \<Rightarrow> [])
      | _ \<Rightarrow> [])"

definition toPermissionRequest :: "acp_env \<Rightarrow> json \<Rightarrow> string \<Rightarrow> string option \<Rightarrow> permission_translation" where
  "toPermissionRequest env params requestId runId =
     (let m = Some (record_param params);
          toolCall = readRecord m ''toolCall'';
          toolCallId = (case readNonEmptyString toolCall ''toolCallId'' of Some i \<Rightarrow> i | None \<Rightarrow> requestId);
          title = (case or_else (readNonEmptyString toolCall ''title'') (readNonEmptyString toolCall ''kind'') of
                     Some t \<Rightarrow> t | None \<Rightarrow> ''Allow tool call?'')
      in \<lparr>pt_events =
            (case toolCall of
               None \<Rightarrow> []
             | Some _ \<Rightarrow>
                 [plain_event (ToolCallUpdated (toToolCallPayload env toolCallId
                    (toRuntimeToolStatus (provider_readString toolCall ''status'')) toolCall)) runId]),
          pt_options = concat (map normalizePermissionOption (readArray m ''options'')),
          pt_request =
            \<lparr>ap_rawInput = stringifyForDisplay env (json_field toolCall ''rawInput''), ap_requestId = requestId,
             ap_title = title, ap_toolCallId = toolCallId, ap_toolKind = readNonEmptyString toolCall ''kind''\<rparr>,
          pt_targetItemId = toolCallId, pt_toolCall = toolCall\<rparr>)"

end
