(* ===== verification/Effects.thy ===== *)
theory Effects
  imports Main
begin

text \<open>
  Code that changes a state and may throw: a function from the state to what it throws
  (\<open>Inl\<close>) or returns (\<open>Inr\<close>), with the state it leaves in either case.
\<close>

type_synonym ('s, 'e, 'a) effect = "'s \<Rightarrow> ('e + 'a) \<times> 's"

definition returnS :: "'a \<Rightarrow> ('s, 'e, 'a) effect" where
  "returnS x s = (Inr x, s)"

definition throwS :: "'e \<Rightarrow> ('s, 'e, 'a) effect" where
  "throwS e s = (Inl e, s)"

definition bindS :: "('s, 'e, 'a) effect \<Rightarrow> ('a \<Rightarrow> ('s, 'e, 'b) effect) \<Rightarrow> ('s, 'e, 'b) effect" where
  "bindS m f s = (case m s of (Inl e, s') \<Rightarrow> (Inl e, s') | (Inr x, s') \<Rightarrow> f x s')"

definition readS :: "('s \<Rightarrow> 'a) \<Rightarrow> ('s, 'e, 'a) effect" where
  "readS f s = (Inr (f s), s)"

definition changeS :: "('s \<Rightarrow> 's) \<Rightarrow> ('s, 'e, unit) effect" where
  "changeS f s = (Inr (), f s)"

definition liftS :: "'e + 'a \<Rightarrow> ('s, 'e, 'a) effect" where
  "liftS r s = (r, s)"

lemma bindS_Inr:
  "bindS m f s = (Inr y, t) \<longleftrightarrow> (\<exists>x u. m s = (Inr x, u) \<and> f x u = (Inr y, t))"
  by (auto simp: bindS_def split: prod.split sum.split)

lemma bindS_InrE:
  assumes "bindS m f s = (Inr y, t)"
  obtains x u where "m s = (Inr x, u)" "f x u = (Inr y, t)"
  using assms by (auto simp: bindS_Inr)

lemma effect_simps [simp]:
  "returnS x s = (Inr x, s)" "throwS e s = (Inl e, s)" "readS g s = (Inr (g s), s)"
  "changeS h s = (Inr (), h s)" "liftS r s = (r, s)"
  by (simp_all add: returnS_def throwS_def readS_def changeS_def liftS_def)

lemma bindS_returnS [simp]: "bindS (returnS x) f s = f x s"
  by (simp add: bindS_def)

lemma bindS_throwS [simp]: "bindS (throwS e) f s = (Inl e, s)"
  by (simp add: bindS_def)

lemma bindS_readS [simp]: "bindS (readS g) f s = f (g s) s"
  by (simp add: bindS_def)

lemma bindS_changeS [simp]: "bindS (changeS h) f s = f () (h s)"
  by (simp add: bindS_def)

lemma bindS_run: "m s = (Inr x, t) \<Longrightarrow> bindS m f s = f x t"
  by (simp add: bindS_def)

end
