(* ===== verification/Acp_Tools.thy ===== *)
theory Acp_Tools
  imports Acp_Events Effects "HOL-Library.AList"
begin

text \<open>
  src/src/runtimes/acp/acp-tool-events.ts, \<open>AcpToolEventState\<close>: the tool calls of a turn.  The
  \<open>Map\<close> of calls is an association list in the order of insertion; a checkpoint is the state
  itself.
\<close>

record tool_state =
  tl_completed :: bool
  tl_displayTitle :: "string option"
  tl_hasNonzeroExit :: bool
  tl_snapshot :: json_object
  tl_started :: bool

record acp_tools =
  ts_hadActivity :: bool
  ts_tools :: "(string \<times> tool_state) list"

definition no_tools :: acp_tools where
  "no_tools = \<lparr>ts_hadActivity = False, ts_tools = []\<rparr>"

definition MAX_ACP_COMPLETED_TOOL_HISTORY_ITEMS :: nat where
  "MAX_ACP_COMPLETED_TOOL_HISTORY_ITEMS = 1024"

definition hasNonzeroExecuteExit :: "json \<Rightarrow> json_object option \<Rightarrow> bool" where
  "hasNonzeroExecuteExit kind update \<longleftrightarrow>
     (case readNumber (readRecord (readRecord update ''rawOutput'') ''metadata'') ''exit'' of
        None \<Rightarrow> False
      | Some exitCode \<Rightarrow> kind = JStr ''execute'' \<and> exitCode \<noteq> 0)"

definition hasStarted :: "acp_tools \<Rightarrow> string \<Rightarrow> bool" where
  "hasStarted ts toolCallId = (case map_of (ts_tools ts) toolCallId of None \<Rightarrow> False | Some t \<Rightarrow> tl_started t)"

definition open_tool :: "tool_state \<Rightarrow> bool" where
  "open_tool t \<longleftrightarrow> tl_started t \<and> \<not> tl_completed t"

definition openItemCount :: "acp_tools \<Rightarrow> nat" where
  "openItemCount ts = length (filter (open_tool \<circ> snd) (ts_tools ts))"

definition retained_tool :: "tool_state \<Rightarrow> json_object" where
  "retained_tool t =
     (case tl_displayTitle t of
        None \<Rightarrow> tl_snapshot t
      | Some title \<Rightarrow>
          if fmlookup (tl_snapshot t) ''title'' = Some (JStr title) then tl_snapshot t
          else fmupd ''displayTitle'' (JStr title) (tl_snapshot t))"

definition retainedOpenState :: "acp_tools \<Rightarrow> json_object list" where
  "retainedOpenState ts = map (retained_tool \<circ> snd) (filter (open_tool \<circ> snd) (ts_tools ts))"

section \<open>The history of completed calls\<close>

definition history_bytes :: "acp_env \<Rightarrow> string \<times> tool_state \<Rightarrow> nat" where
  "history_bytes env = (\<lambda>(toolCallId, t). ac_json_bytes env
     (JArr [JStr toolCallId, JObj (tl_snapshot t), nullable (tl_displayTitle t)]))"

text \<open>The oldest completed calls go while there are too many or too long ones.\<close>

fun trim_loop :: "acp_env \<Rightarrow> nat \<Rightarrow> nat \<Rightarrow> (string \<times> tool_state) list \<Rightarrow> (string \<times> tool_state) list
    \<Rightarrow> (string \<times> tool_state) list" where
  "trim_loop env retainedItems bytes [] tools = tools"
| "trim_loop env retainedItems bytes (c # completed) tools =
     (if retainedItems \<le> MAX_ACP_COMPLETED_TOOL_HISTORY_ITEMS \<and> bytes \<le> MAX_ACP_LOSSLESS_EVENT_BYTES then tools
      else trim_loop env (retainedItems - 1) (bytes - history_bytes env c) completed
             (AList.delete (fst c) tools))"

definition trimCompletedHistory :: "acp_env \<Rightarrow> acp_tools \<Rightarrow> acp_tools" where
  "trimCompletedHistory env ts =
     (let completed = filter (tl_completed \<circ> snd) (ts_tools ts)
      in ts\<lparr>ts_tools := trim_loop env (length completed) (sum_list (map (history_bytes env) completed)) completed
           (ts_tools ts)\<rparr>)"

section \<open>Operations\<close>

definition terminal_tool_status :: "json option \<Rightarrow> tool_status option" where
  "terminal_tool_status v =
     (if v = Some (JStr ''cancelled'') then Some ToolCancelled
      else if v = Some (JStr ''completed'') then Some ToolCompleted
      else if v = Some (JStr ''failed'') then Some ToolFailed else None)"

definition present :: "json option \<Rightarrow> json option" where
  "present v = (if v = Some JNull then None else v)"

record tool_patch =
  tp_changed :: bool
  tp_payload :: json_object
  tp_status :: tool_status

definition tool_patch_of ::
    "acp_env \<Rightarrow> string option \<Rightarrow> tool_status option \<Rightarrow> string \<Rightarrow> json_object option \<Rightarrow> tool_state option
      \<Rightarrow> tool_patch \<times> tool_state" where
  "tool_patch_of env parentMessageId status toolCallId update previous =
     (let previousSnapshot = map_option tl_snapshot previous;
          kind = (case or_else (map_option JStr (readNonEmptyString update ''kind''))
                         (present (json_field previousSnapshot ''kind'')) of
                    Some k \<Rightarrow> k | None \<Rightarrow> JStr ''tool'');
          nextStatus = (case status of None \<Rightarrow> ToolRunning | Some st \<Rightarrow> st);
          hasNonzeroExit = ((case previous of None \<Rightarrow> False | Some t \<Rightarrow> tl_hasNonzeroExit t)
            \<or> hasNonzeroExecuteExit kind update);
          st = (case terminal_tool_status (json_field previousSnapshot ''status'') of
                  Some terminal \<Rightarrow> terminal
                | None \<Rightarrow> if nextStatus = ToolCompleted \<and> hasNonzeroExit then ToolFailed else nextStatus);
          parent = or_else (provider_readString previousSnapshot ''parentMessageId'') parentMessageId;
          latestTitle = or_else (readNonEmptyString update ''title'') (Option.bind previous tl_displayTitle);
          title = (if st = ToolRunning \<and> previous \<noteq> None
                   then or_else (present (json_field previousSnapshot ''title'')) (json_field previousSnapshot ''kind'')
                   else or_else (map_option JStr latestTitle) (json_field previousSnapshot ''title''));
          payload =
            ((case previousSnapshot of None \<Rightarrow> fmempty | Some m \<Rightarrow> m)
              ++\<^sub>f toToolCallPayload env toolCallId st update)
              ++\<^sub>f object_fields
                [(''kind'', Some kind), (''parentMessageId'', map_option JStr parent),
                 (''status'', Some (JStr (tool_status_name st))),
                 (''title'', case title of Some (JStr t) \<Rightarrow> Some (JStr t) | _ \<Rightarrow> None),
                 (''toolCallId'', Some (JStr toolCallId))]
      in (\<lparr>tp_changed = (previousSnapshot \<noteq> Some payload), tp_payload = payload, tp_status = st\<rparr>,
          \<lparr>tl_completed = (case previous of None \<Rightarrow> False | Some t \<Rightarrow> tl_completed t),
           tl_displayTitle = latestTitle, tl_hasNonzeroExit = hasNonzeroExit, tl_snapshot = payload,
           tl_started = (case previous of None \<Rightarrow> False | Some t \<Rightarrow> tl_started t)\<rparr>))"

text \<open>
  \<open>patch\<close>.  The code leaves the entry when neither the snapshot, the exit nor the title has
  changed; writing the same values again is the same.
\<close>

definition tools_patch ::
    "acp_env \<Rightarrow> string option \<Rightarrow> tool_status option \<Rightarrow> string \<Rightarrow> json_object option \<Rightarrow> acp_tools
      \<Rightarrow> tool_patch \<times> acp_tools" where
  "tools_patch env parentMessageId status toolCallId update ts =
     (let (patched, t) = tool_patch_of env parentMessageId status toolCallId update (map_of (ts_tools ts) toolCallId)
      in (patched, ts\<lparr>ts_tools := AList.update toolCallId t (ts_tools ts)\<rparr>))"

definition tools_complete ::
    "acp_env \<Rightarrow> string \<Rightarrow> tool_status \<Rightarrow> string \<Rightarrow> json_object option \<Rightarrow> (acp_tools, acp_error, acp_event option) effect" where
  "tools_complete env runId status toolCallId update ts =
     (case map_of (ts_tools ts) toolCallId of
        None \<Rightarrow> (Inl ToolNotProjected, ts)
      | Some t \<Rightarrow>
          if tl_completed t then (Inr None, trimCompletedHistory env ts)
          else (Inr (Some (plain_event (ItemCompleted toolCallId status
                       (if status = ToolFailed then provider_readString update ''error'' else None)) (Some runId))),
                trimCompletedHistory env
                  (ts\<lparr>ts_tools := AList.update toolCallId (t\<lparr>tl_completed := True\<rparr>) (ts_tools ts)\<rparr>)))"

definition closing_events :: "string option \<Rightarrow> string \<Rightarrow> tool_status \<Rightarrow> string \<Rightarrow> acp_event list" where
  "closing_events err runId status itemId =
     [plain_event (ToolCallUpdated (object_fields
        [(''error'', map_option JStr err), (''status'', Some (JStr (tool_status_name status))),
         (''toolCallId'', Some (JStr itemId))])) (Some runId),
      plain_event (ItemCompleted itemId status err) (Some runId)]"

definition tools_completeOpen :: "acp_env \<Rightarrow> string option \<Rightarrow> string \<Rightarrow> tool_status \<Rightarrow> acp_tools \<Rightarrow> acp_event list \<times> acp_tools" where
  "tools_completeOpen env err runId status ts =
     (concat (map (\<lambda>(itemId, t). if open_tool t then closing_events err runId status itemId else []) (ts_tools ts)),
      trimCompletedHistory env (ts\<lparr>ts_tools :=
        map (\<lambda>(itemId, t). (itemId, if open_tool t then t\<lparr>tl_completed := True\<rparr> else t)) (ts_tools ts)\<rparr>))"

definition tools_ensureStarted ::
    "string option \<Rightarrow> string \<Rightarrow> string \<Rightarrow> string \<Rightarrow> (acp_tools, acp_error, acp_event list) effect" where
  "tools_ensureStarted parentMessageId runId title toolCallId ts =
     (case map_of (ts_tools ts) toolCallId of
        None \<Rightarrow> (Inl ToolNotProjected, ts)
      | Some t \<Rightarrow>
          if tl_started t then (Inr [], ts)
          else (Inr [plain_event (ItemStarted toolCallId parentMessageId title) (Some runId)],
                ts\<lparr>ts_hadActivity := True,
                   ts_tools := AList.update toolCallId (t\<lparr>tl_started := True\<rparr>) (ts_tools ts)\<rparr>))"

end
