(* ===== verification/Acp_Transcript.thy ===== *)
theory Acp_Transcript
  imports Acp_Tools Event_Delivery
begin

text \<open>
  src/src/runtimes/acp/acp-assistant-transcript-state.ts: one prompt's messages, thought and
  tool calls, and the events a session update or the end of the prompt gives.

  An operation is an \<open>effect\<close> on the state.  A checkpoint is the state itself, and restoring
  it puts it back; it does not go back on the identifiers already drawn (\<open>as_drawn\<close> counts the
  calls of \<open>createDriverId\<close>).
\<close>

section \<open>State\<close>

record assistant_message =
  am_id :: string
  am_native :: "string option"
  am_text :: string

record acp_state =
  as_active :: "assistant_message option"
  as_last :: "(bool \<times> string) option"  \<comment> \<open>hasVisibleText, id\<close>
  as_promptMessageId :: "string option"
  as_runId :: "string option"
  as_sequence :: nat
  as_settled :: "string list"
  as_settledBytes :: nat
  as_thoughtBytes :: int
  as_thoughtCompleted :: bool
  as_fallbackText :: string
  as_fallbackNative :: "string option"
  as_thoughtId :: "string option"
  as_thoughtStarted :: bool
  as_thoughtText :: string
  as_tools :: acp_tools
  as_drawn :: nat

type_synonym 'a acp = "(acp_state, acp_error, 'a) effect"

definition new_acp_state :: acp_state where
  "new_acp_state =
     \<lparr>as_active = None, as_last = None, as_promptMessageId = None, as_runId = None, as_sequence = 0,
      as_settled = [], as_settledBytes = 0, as_thoughtBytes = 0, as_thoughtCompleted = False,
      as_fallbackText = [], as_fallbackNative = None, as_thoughtId = None, as_thoughtStarted = False,
      as_thoughtText = [], as_tools = no_tools, as_drawn = 0\<rparr>"

definition acp_clear :: "acp_state \<Rightarrow> acp_state" where
  "acp_clear s = new_acp_state\<lparr>as_drawn := as_drawn s\<rparr>"

definition acp_begin :: "string \<Rightarrow> string \<Rightarrow> acp_state \<Rightarrow> acp_state" where
  "acp_begin messageId runId s =
     (acp_clear s)\<lparr>as_promptMessageId := Some messageId, as_runId := Some runId,
                   as_thoughtId := Some (messageId @ '':thought'')\<rparr>"

text \<open>Failing, the code puts the checkpoint back: all but the identifiers drawn.\<close>

definition with_checkpoint :: "'a acp \<Rightarrow> 'a acp" where
  "with_checkpoint m s =
     (case m s of
        (Inl e, t) \<Rightarrow> (Inl e, s\<lparr>as_drawn := as_drawn t\<rparr>)
      | (Inr x, t) \<Rightarrow> (Inr x, t))"

definition MAX_ACP_MESSAGE_EVENT_TEXT_BYTES :: nat where
  "MAX_ACP_MESSAGE_EVENT_TEXT_BYTES = MAX_ACP_LOSSLESS_EVENT_BYTES - 1024"

definition MAX_RUN_TERMINAL_BATCH_EVENTS :: nat where
  "MAX_RUN_TERMINAL_BATCH_EVENTS = MAX_PENDING_DRIVER_EVENTS"

definition MAX_ACP_RETAINED_TURN_BYTES :: nat where
  "MAX_ACP_RETAINED_TURN_BYTES = MAX_RUN_TERMINAL_BATCH_BYTES * 3 div 8"

definition MAX_ACP_RETAINED_TURN_ITEMS :: nat where
  "MAX_ACP_RETAINED_TURN_ITEMS = (MAX_RUN_TERMINAL_BATCH_EVENTS - 4) div 2"

definition MAX_ACP_SETTLED_MESSAGE_HISTORY_ITEMS :: nat where
  "MAX_ACP_SETTLED_MESSAGE_HISTORY_ITEMS = 1024"

text \<open>Texts have no surrogate pairs here.\<close>

definition acp_coding :: "acp_env \<Rightarrow> char text_coding" where
  "acp_coding env =
     \<lparr>tc_high = (\<lambda>_. False), tc_low = (\<lambda>_. False), tc_bytes = (\<lambda>t. ac_json_bytes env (JStr t) - 2)\<rparr>"

text \<open>\<open>text.trim().length > 0\<close>.\<close>

definition visible_text :: "string \<Rightarrow> bool" where
  "visible_text t \<longleftrightarrow>
     list_ex (\<lambda>c. c \<notin> set [CHR 0x09, CHR 0x0A, CHR 0x0B, CHR 0x0C, CHR 0x0D, CHR 0x20, CHR 0xA0]) t"

section \<open>Parts\<close>

definition requireRunId :: "string acp" where
  "requireRunId s = (case as_runId s of None \<Rightarrow> (Inl RunNotInitialized, s) | Some r \<Rightarrow> (Inr r, s))"

definition requireThoughtId :: "string acp" where
  "requireThoughtId s = (case as_thoughtId s of None \<Rightarrow> (Inl ThoughtNotInitialized, s) | Some i \<Rightarrow> (Inr i, s))"

definition nextEventId :: "string \<Rightarrow> string acp" where
  "nextEventId kind s =
     (let n = as_sequence s + 1
      in (Inr (''acp:'' @ (case as_runId s of None \<Rightarrow> ''run'' | Some r \<Rightarrow> r) @ '':'' @ kind @ '':'' @ decimal n),
          s\<lparr>as_sequence := n\<rparr>))"

text \<open>The oldest settled identifiers go while there are too many or too long ones.\<close>

fun forget_settled :: "acp_env \<Rightarrow> string list \<Rightarrow> nat \<Rightarrow> string list \<times> nat" where
  "forget_settled env [] bytes = ([], bytes)"
| "forget_settled env (oldest # rest) bytes =
     (if length (oldest # rest) > MAX_ACP_SETTLED_MESSAGE_HISTORY_ITEMS \<or> bytes > MAX_ACP_LOSSLESS_EVENT_BYTES
      then forget_settled env rest (bytes - ac_json_bytes env (JStr oldest))
      else (oldest # rest, bytes))"

definition rememberSettledAssistantMessage :: "acp_env \<Rightarrow> string \<Rightarrow> acp_state \<Rightarrow> acp_state" where
  "rememberSettledAssistantMessage env native s =
     (if native \<in> set (as_settled s) then s
      else
        let (settled, bytes) = forget_settled env (as_settled s @ [native])
              (as_settledBytes s + ac_json_bytes env (JStr native))
        in s\<lparr>as_settled := settled, as_settledBytes := bytes\<rparr>)"

definition settle_native :: "acp_env \<Rightarrow> assistant_message \<Rightarrow> acp_state \<Rightarrow> acp_state" where
  "settle_native env m s =
     (case am_native m of None \<Rightarrow> s | Some native \<Rightarrow> rememberSettledAssistantMessage env native s)"

text \<open>The events that save a message's text: the first chunk adds it, the others extend it.\<close>

definition saved_text :: "string \<Rightarrow> string \<Rightarrow> string list \<Rightarrow> acp_event list" where
  "saved_text messageId runId chunks =
     (case chunks of
        [] \<Rightarrow> []
      | first # rest \<Rightarrow>
          (plain_event (MessageAdded messageId first) (Some runId))\<lparr>ae_delivery := Some DeliverLossless\<rparr>
          # map (\<lambda>delta. (plain_event (MessageDelta messageId delta None) (Some runId))
                   \<lparr>ae_delivery := Some DeliverLossless\<rparr>) rest)"

definition finishMessage :: "acp_env \<Rightarrow> acp_event list acp" where
  "finishMessage env =
     bindS (readS as_active) (\<lambda>active.
     case active of
       None \<Rightarrow> returnS []
     | Some m \<Rightarrow>
         bindS (changeS (\<lambda>s. (settle_native env m (s\<lparr>as_active := None\<rparr>))
           \<lparr>as_last := (if am_native m \<noteq> None then Some (visible_text (am_text m), am_id m) else None)\<rparr>)) (\<lambda>_.
         bindS (liftS (case (if am_text m = [] then Inr []
                        else chunkJsonText (acp_coding env) (am_text m) MAX_ACP_MESSAGE_EVENT_TEXT_BYTES
                               MAX_ACP_MESSAGE_EVENT_TEXT_BYTES) of
                   Inl e \<Rightarrow> Inl (MessageChunk e) | Inr chunks \<Rightarrow> Inr chunks)) (\<lambda>chunks.
         bindS requireRunId (\<lambda>runId.
           returnS (saved_text (am_id m) runId chunks @ [plain_event (MessageCompleted (am_id m)) (Some runId)])))))"

text \<open>A message ends without its text; \<open>ending\<close> makes the event from its identifier.\<close>

definition drop_message :: "acp_env \<Rightarrow> (string \<Rightarrow> acp_body) \<Rightarrow> acp_event list acp" where
  "drop_message env ending =
     bindS (readS as_active) (\<lambda>active.
     case active of
       None \<Rightarrow> returnS []
     | Some m \<Rightarrow>
         bindS (changeS (\<lambda>s. settle_native env m (s\<lparr>as_active := None, as_last := None\<rparr>))) (\<lambda>_.
         bindS requireRunId (\<lambda>runId. returnS [plain_event (ending (am_id m)) (Some runId)])))"

definition finishMessageWithOutcome :: "acp_env \<Rightarrow> string \<Rightarrow> string option \<Rightarrow> acp_event list acp" where
  "finishMessageWithOutcome env stopReason err =
     drop_message env (\<lambda>i.
       if stopReason = ''cancelled'' then MessageCancelled i stopReason
       else MessageFailed i (''acp.'' @ stopReason)
         (case err of Some e \<Rightarrow> e | None \<Rightarrow> ''ACP prompt stopped with '' @ stopReason @ ''.'') False (Some stopReason))"

definition failMessage :: "acp_env \<Rightarrow> string \<Rightarrow> string \<Rightarrow> bool \<Rightarrow> acp_event list acp" where
  "failMessage env code message recoverable =
     drop_message env (\<lambda>i. MessageFailed i code message recoverable None)"

definition clearThoughtFallback :: "acp_state \<Rightarrow> acp_state" where
  "clearThoughtFallback s = s\<lparr>as_fallbackNative := None, as_fallbackText := []\<rparr>"

definition startUnsettledMessage :: "acp_env \<Rightarrow> string option \<Rightarrow> acp_event list acp" where
  "startUnsettledMessage env native =
     bindS (readS as_active) (\<lambda>active.
     if (case active of None \<Rightarrow> False | Some m \<Rightarrow> am_native m = native) then returnS []
     else
     bindS (finishMessage env) (\<lambda>events.
     bindS (readS (\<lambda>s. ac_ids env (as_drawn s))) (\<lambda>i.
     bindS (changeS (\<lambda>s. clearThoughtFallback
              (s\<lparr>as_drawn := as_drawn s + 1,
                 as_active := Some \<lparr>am_id = i, am_native = native, am_text = []\<rparr>\<rparr>))) (\<lambda>_.
     bindS requireRunId (\<lambda>runId.
       returnS (events @ [plain_event (MessageStarted i) (Some runId)]))))))"

definition startMessage :: "acp_env \<Rightarrow> string \<Rightarrow> acp_event list option acp" where
  "startMessage env native =
     bindS (readS as_settled) (\<lambda>settled.
       if native \<in> set settled then returnS None
       else bindS (startUnsettledMessage env (Some native)) (\<lambda>events. returnS (Some events)))"

definition startAnonymousMessage :: "acp_env \<Rightarrow> acp_event list acp" where
  "startAnonymousMessage env = startUnsettledMessage env None"

text \<open>\<open>started.message\<close> is the active message.\<close>

definition append_text :: "string \<Rightarrow> acp_state \<Rightarrow> acp_state" where
  "append_text delta s = s\<lparr>as_active := map_option (\<lambda>m. m\<lparr>am_text := am_text m @ delta\<rparr>) (as_active s)\<rparr>"

definition active_id :: "acp_state \<Rightarrow> string" where
  "active_id s = (case as_active s of None \<Rightarrow> [] | Some m \<Rightarrow> am_id m)"

definition ensureThoughtStarted :: "acp_event list acp" where
  "ensureThoughtStarted =
     bindS (readS as_thoughtStarted) (\<lambda>started.
     if started then returnS []
     else
     bindS (changeS (\<lambda>s. s\<lparr>as_thoughtStarted := True\<rparr>)) (\<lambda>_.
     bindS requireThoughtId (\<lambda>thoughtId.
     bindS requireRunId (\<lambda>runId. returnS [plain_event (ThoughtStarted thoughtId) (Some runId)]))))"

definition toolParentMessageId :: "acp_state \<Rightarrow> string option" where
  "toolParentMessageId s = or_else (map_option am_id (as_active s)) (as_promptMessageId s)"

definition ensureToolParentMessage :: "acp_env \<Rightarrow> string \<Rightarrow> acp_event list acp" where
  "ensureToolParentMessage env toolCallId =
     bindS (readS (\<lambda>s. hasStarted (as_tools s) toolCallId \<or> as_active s \<noteq> None)) (\<lambda>skip.
       if skip then returnS [] else startAnonymousMessage env)"

definition promoteThought :: "acp_env \<Rightarrow> acp_event list acp" where
  "promoteThought env =
     bindS (readS (\<lambda>s. s)) (\<lambda>s.
     if as_active s \<noteq> None then returnS []
     else case as_fallbackNative s of
       None \<Rightarrow> returnS []
     | Some native \<Rightarrow>
         if \<not> visible_text (as_fallbackText s) then returnS []
         else
         bindS (changeS clearThoughtFallback) (\<lambda>_.
         bindS (startMessage env native) (\<lambda>started.
         case started of
           None \<Rightarrow> returnS []
         | Some events \<Rightarrow> bindS (changeS (append_text (as_fallbackText s))) (\<lambda>_. returnS events))))"

text \<open>An operation on the tools alone.\<close>

definition on_tools :: "(acp_tools, acp_error, 'a) effect \<Rightarrow> 'a acp" where
  "on_tools m s = (case m (as_tools s) of (r, ts) \<Rightarrow> (r, s\<lparr>as_tools := ts\<rparr>))"

definition total :: "('s \<Rightarrow> 'a \<times> 's) \<Rightarrow> ('s, 'e, 'a) effect" where
  "total f s = (case f s of (x, t) \<Rightarrow> (Inr x, t))"

section \<open>Updates\<close>

definition messageChunk :: "acp_env \<Rightarrow> json_object option \<Rightarrow> acp_event list acp" where
  "messageChunk env update =
     (case summarizeContentBlock env (json_field update ''content'') of
        None \<Rightarrow> returnS []
      | Some delta \<Rightarrow>
          bindS (case readNonEmptyString update ''messageId'' of
                   None \<Rightarrow> bindS (startAnonymousMessage env) (\<lambda>events. returnS (Some events))
                 | Some native \<Rightarrow> startMessage env native) (\<lambda>started.
          case started of
            None \<Rightarrow> returnS []
          | Some events \<Rightarrow>
              bindS (changeS (append_text delta)) (\<lambda>_.
              bindS (readS active_id) (\<lambda>messageId.
              bindS requireRunId (\<lambda>runId.
              bindS (nextEventId ''agent-message'') (\<lambda>source.
                returnS (events @ [(plain_event (MessageDelta messageId delta (json_field update ''content'')) (Some runId))
                  \<lparr>ae_delivery := Some DeliverBestEffort, ae_source := Some source\<rparr>])))))))"

text \<open>What a chunk of the thought does to the message; its text may have to stand in for one.\<close>

definition thought_message :: "acp_env \<Rightarrow> string option \<Rightarrow> string \<Rightarrow> acp_event list acp" where
  "thought_message env nativeMessageId delta =
     (case nativeMessageId of
        None \<Rightarrow>
          bindS (finishMessage env) (\<lambda>events.
          bindS (changeS (\<lambda>s. clearThoughtFallback (s\<lparr>as_last := None\<rparr>))) (\<lambda>_. returnS events))
      | Some native \<Rightarrow>
          bindS (readS (\<lambda>s. s)) (\<lambda>s.
          if native \<in> set (as_settled s) then returnS []
          else
          bindS (if (case as_active s of None \<Rightarrow> False | Some m \<Rightarrow> am_native m \<noteq> Some native)
                 then finishMessage env else returnS []) (\<lambda>events.
          bindS (changeS (\<lambda>s.
             if as_active s \<noteq> None then s
             else if as_fallbackNative s = Some native
             then s\<lparr>as_fallbackText := as_fallbackText s @ delta\<rparr>
             else s\<lparr>as_fallbackNative := Some native, as_fallbackText := delta\<rparr>)) (\<lambda>_.
          returnS events))))"

definition thoughtChunk :: "acp_env \<Rightarrow> json_object option \<Rightarrow> acp_event list acp" where
  "thoughtChunk env update =
     (case summarizeContentBlock env (json_field update ''content'') of
        None \<Rightarrow> returnS []
      | Some delta \<Rightarrow>
          bindS (readS (\<lambda>s. as_thoughtBytes s + thoughtContentDeltaBytes (acp_coding env) (as_thoughtText s) delta)) (\<lambda>bytes.
          if bytes > MAX_THOUGHT_CONTENT_BYTES then throwS TurnStateLimit
          else
          bindS (changeS (\<lambda>s. s\<lparr>as_thoughtBytes := bytes, as_thoughtText := as_thoughtText s @ delta\<rparr>)) (\<lambda>_.
          bindS (thought_message env (readNonEmptyString update ''messageId'') delta) (\<lambda>events.
          bindS ensureThoughtStarted (\<lambda>started.
          bindS requireThoughtId (\<lambda>thoughtId.
          bindS requireRunId (\<lambda>runId.
          bindS (nextEventId ''agent-thought'') (\<lambda>source.
            returnS (events @ started @ [(plain_event (ThoughtDelta thoughtId delta (json_field update ''content'')) (Some runId))
              \<lparr>ae_delivery := Some DeliverBestEffort, ae_source := Some source\<rparr>])))))))))"

definition tool_title :: "json_object \<Rightarrow> string" where
  "tool_title payload =
     (case or_else (provider_readString (Some payload) ''title'') (provider_readString (Some payload) ''kind'') of
        Some t \<Rightarrow> t | None \<Rightarrow> ''tool'')"

definition tool_update :: "acp_env \<Rightarrow> json_object option \<Rightarrow> bool \<Rightarrow> acp_event list acp" where
  "tool_update env update is_update =
     (case readNonEmptyString update ''toolCallId'' of
        None \<Rightarrow> returnS []
      | Some toolCallId \<Rightarrow>
          bindS requireRunId (\<lambda>runId.
          bindS (ensureToolParentMessage env toolCallId) (\<lambda>parentStart.
          bindS (readS toolParentMessageId) (\<lambda>parent.
          bindS (on_tools (total (tools_patch env parent
                   (map_option (toRuntimeToolStatus \<circ> Some) (provider_readString update ''status'')) toolCallId update)))
            (\<lambda>projected.
          if \<not> tp_changed projected then returnS parentStart
          else
          bindS (on_tools (tools_ensureStarted parent runId (tool_title (tp_payload projected)) toolCallId)) (\<lambda>started.
          bindS (nextEventId (if is_update then ''tool-call-update'' else ''tool-call'')) (\<lambda>source.
          let updated = (plain_event (ToolCallUpdated (tp_payload projected)) (Some runId))
                \<lparr>ae_delivery := (if is_update
                    then Some (if tp_status projected = ToolRunning then DeliverBestEffort else DeliverLossless)
                    else None), ae_source := Some source\<rparr>
          in bindS (if tp_status projected = ToolRunning then returnS None
                    else on_tools (tools_complete env runId (tp_status projected) toolCallId update)) (\<lambda>completion.
             returnS (parentStart @ started @ [updated] @ (case completion of None \<Rightarrow> [] | Some e \<Rightarrow> [e]))))))))))"

definition retained_state :: "acp_state \<Rightarrow> json" where
  "retained_state s = JObj (object_fields
     [(''activeAssistantMessage'', Some (case as_active s of
         None \<Rightarrow> JNull
       | Some m \<Rightarrow> JObj (object_fields [(''id'', Some (JStr (am_id m))), (''nativeMessageId'', Some (nullable (am_native m))),
           (''text'', Some (JStr (am_text m)))]))),
      (''thoughtFallback'', Some (case as_fallbackNative s of
         None \<Rightarrow> JNull
       | Some native \<Rightarrow> JObj (object_fields [(''nativeMessageId'', Some (JStr native)),
           (''text'', Some (JStr (as_fallbackText s)))]))),
      (''tools'', Some (JArr (map JObj (retainedOpenState (as_tools s)))))])"

definition retained_items :: "acp_state \<Rightarrow> nat" where
  "retained_items s = (if as_active s = None then 0 else 1) + (if as_fallbackNative s = None then 0 else 1)
     + openItemCount (as_tools s)"

definition assertRetainedTurnState :: "acp_env \<Rightarrow> unit acp" where
  "assertRetainedTurnState env =
     bindS (changeS (\<lambda>s. s\<lparr>as_tools := trimCompletedHistory env (as_tools s)\<rparr>)) (\<lambda>_.
     bindS (readS (\<lambda>s. s)) (\<lambda>s.
     if retained_items s > MAX_ACP_RETAINED_TURN_ITEMS then throwS TurnStateLimit
     else if ac_json_bytes env (retained_state s) > MAX_ACP_RETAINED_TURN_BYTES then throwS TurnStateLimit
     else returnS ()))"

text \<open>What an update of some kind does; \<open>None\<close> stands for no kind at all.\<close>

definition session_update :: "acp_env \<Rightarrow> json_object option \<Rightarrow> string option \<Rightarrow> acp_event list acp" where
  "session_update env update kind =
     (case kind of
        None \<Rightarrow> returnS []
      | Some k \<Rightarrow>
          if k = ''agent_message_chunk'' then messageChunk env update
          else if k = ''agent_thought_chunk'' then thoughtChunk env update
          else if k = ''available_commands_update'' then returnS (toCommandEvents update)
          else if k = ''config_option_update'' then returnS (toConfigEvents update)
          else if k = ''current_mode_update'' then returnS (toModeEvents update)
          else if k = ''plan'' then returnS (toPlanEvents update)
          else if k = ''session_info_update'' then returnS (toInfoEvents env update)
          else if k = ''tool_call'' then tool_update env update False
          else if k = ''tool_call_update'' then tool_update env update True
          else if k = ''usage_update'' then returnS (toUsageEvents update)
          else if k = ''user_message_chunk'' then returnS []
          else returnS [owner_debug (sent_best_effort (projected ''diagnostic.reported''
            (object_fields
               [(''message'', Some (JStr (''Unsupported ACP session update: '' @ k @ ''.''))),
                (''raw'', Some (case update of None \<Rightarrow> JNull | Some m \<Rightarrow> JObj m)),
                (''severity'', Some (JStr ''info''))])))])"

definition retaining_kinds :: "string list" where
  "retaining_kinds = [''agent_message_chunk'', ''agent_thought_chunk'', ''tool_call'', ''tool_call_update'']"

definition translateUpdate :: "acp_env \<Rightarrow> json \<Rightarrow> acp_event list acp" where
  "translateUpdate env params =
     bindS (readS as_runId) (\<lambda>runId.
     let update = readRecord (Some (record_param params)) ''update'';
         kind = provider_readString update ''sessionUpdate'';
         retains = (runId \<noteq> None \<and> (case kind of None \<Rightarrow> False | Some k \<Rightarrow> k \<in> set retaining_kinds));
         body = bindS (session_update env update kind) (\<lambda>events.
                bindS (if retains then assertRetainedTurnState env else returnS ()) (\<lambda>_.
                  liftS (assertBoundedLosslessEvents env events)))
     in if retains then with_checkpoint body else body)"

definition permission_events :: "acp_env \<Rightarrow> permission_translation \<Rightarrow> string \<Rightarrow> acp_event list acp" where
  "permission_events env translation runId =
     bindS (ensureToolParentMessage env (pt_targetItemId translation)) (\<lambda>parentStart.
     bindS (on_tools (total (tools_patch env None
              (Some (toRuntimeToolStatus (provider_readString (pt_toolCall translation) ''status'')))
              (pt_targetItemId translation) (pt_toolCall translation)))) (\<lambda>projected.
     bindS (readS toolParentMessageId) (\<lambda>parent.
     bindS (on_tools (tools_ensureStarted parent runId (ap_title (pt_request translation))
              (pt_targetItemId translation))) (\<lambda>started.
     bindS (assertRetainedTurnState env) (\<lambda>_.
     liftS (assertBoundedLosslessEvents env (parentStart @ started
       @ map (\<lambda>e. case ae_body e of ToolCallUpdated _ \<Rightarrow> e\<lparr>ae_body := ToolCallUpdated (tp_payload projected)\<rparr>
                   | _ \<Rightarrow> e) (pt_events translation))))))))"

definition translatePermission :: "acp_env \<Rightarrow> json \<Rightarrow> string \<Rightarrow> permission_translation acp" where
  "translatePermission env params requestId =
     bindS (readS as_runId) (\<lambda>runId.
     let translation = toPermissionRequest env params requestId runId
     in case (runId, pt_toolCall translation) of
          (Some r, Some _) \<Rightarrow>
            with_checkpoint (bindS (permission_events env translation r) (\<lambda>events.
              returnS (translation\<lparr>pt_events := events\<rparr>)))
        | _ \<Rightarrow>
            bindS (liftS (assertBoundedLosslessEvents env (pt_events translation))) (\<lambda>events.
              returnS (translation\<lparr>pt_events := events\<rparr>)))"

section \<open>The thought and the end of the prompt\<close>

definition thoughtContentEvents :: "acp_env \<Rightarrow> (char thought_update \<Rightarrow> nat) \<Rightarrow> acp_event list acp" where
  "thoughtContentEvents env update_bytes =
     bindS (readS (\<lambda>s. s)) (\<lambda>s.
     if \<not> as_thoughtStarted s then returnS []
     else
     bindS requireThoughtId (\<lambda>thoughtId.
     bindS (liftS (case createThoughtContentEvents (acp_coding env) update_bytes thoughtId (as_thoughtText s)
                          (Some (thoughtId @ '':snapshot'')) of
              Inl e \<Rightarrow> Inl (ThoughtContent e) | Inr updates \<Rightarrow> Inr updates)) (\<lambda>updates.
     bindS requireRunId (\<lambda>runId.
     liftS (assertBoundedLosslessEvents env
       (map (\<lambda>u. (plain_event (ThoughtUpdated u) (Some runId))
               \<lparr>ae_delivery := Some DeliverLossless, ae_source := tu_source u\<rparr>) updates))))))"

text \<open>The thought ends; \<open>ending\<close> makes the event from its identifier.\<close>

definition end_thought :: "(string \<Rightarrow> acp_body) \<Rightarrow> acp_event list acp" where
  "end_thought ending =
     bindS (readS (\<lambda>s. as_thoughtStarted s \<and> \<not> as_thoughtCompleted s)) (\<lambda>running.
     if \<not> running then returnS []
     else
     bindS (changeS (\<lambda>s. s\<lparr>as_thoughtCompleted := True\<rparr>)) (\<lambda>_.
     bindS requireThoughtId (\<lambda>thoughtId.
     bindS requireRunId (\<lambda>runId. returnS [plain_event (ending thoughtId) (Some runId)]))))"

definition run_ending :: "acp_state \<Rightarrow> string \<Rightarrow> string option \<Rightarrow> string \<Rightarrow> acp_body" where
  "run_ending s stopReason terminalError requestedBy =
     (let finalMessage = (case as_last s of Some (True, i) \<Rightarrow> Some i | _ \<Rightarrow> None)
      in if stopReason = ''cancelled'' then RunCancelled requestedBy
         else case terminalError of
           Some e \<Rightarrow> RunFailed (''acp.'' @ stopReason) e None False (Some stopReason)
         | None \<Rightarrow>
             if stopReason = ''end_turn'' \<and> finalMessage = None \<and> \<not> ts_hadActivity (as_tools s)
             then RunFailed ''acp.empty_turn'' ''ACP prompt ended without assistant output or tool activity.''
                    None True (Some stopReason)
             else RunCompleted finalMessage stopReason)"

definition completePrompt :: "acp_env \<Rightarrow> string \<Rightarrow> json option \<Rightarrow> string \<Rightarrow> acp_event list acp" where
  "completePrompt env stopReason usage requestedBy =
     bindS requireRunId (\<lambda>runId.
     let terminalError = (if stopReason = ''end_turn'' \<or> stopReason = ''cancelled'' then None
                          else Some (''ACP prompt stopped with '' @ stopReason @ ''.''))
     in
     bindS (promoteThought env) (\<lambda>promoted.
     bindS (if stopReason = ''end_turn'' then finishMessage env
            else finishMessageWithOutcome env stopReason terminalError) (\<lambda>finished.
     bindS (end_thought (\<lambda>i. if stopReason = ''end_turn'' then ThoughtCompleted i
              else ThoughtCancelled i (case terminalError of Some e \<Rightarrow> e | None \<Rightarrow> ''cancelled'') (Some stopReason)))
       (\<lambda>thought.
     bindS (on_tools (total (tools_completeOpen env terminalError runId
              (if stopReason = ''end_turn'' then ToolCompleted
               else if stopReason = ''cancelled'' then ToolCancelled else ToolFailed)))) (\<lambda>closed.
     bindS (readS (\<lambda>s. run_ending s stopReason terminalError requestedBy)) (\<lambda>ending.
     liftS (assertBoundedLosslessEvents env (promoted @ finished @ thought @ closed
       @ (case normalizePromptUsage usage of
            None \<Rightarrow> [] | Some payload \<Rightarrow> [plain_event (Projected ''usage.updated'' payload) (Some runId)])
       @ [plain_event ending (Some runId)]))))))))"

definition failure_message :: "acp_env \<Rightarrow> string \<Rightarrow> string" where
  "failure_message env message =
     (if ac_utf8_bytes env message \<le> 16 * 1024 then message
      else ''ACP failure exceeded durable event capacity (originalMessageUtf8Bytes=''
             @ decimal (ac_utf8_bytes env message) @ '').'')"

definition failPrompt :: "acp_env \<Rightarrow> string \<Rightarrow> string \<Rightarrow> bool \<Rightarrow> acp_event list acp" where
  "failPrompt env code originalMessage recoverable =
     bindS (readS as_runId) (\<lambda>run.
     case run of
       None \<Rightarrow> bindS (changeS acp_clear) (\<lambda>_. returnS [])
     | Some runId \<Rightarrow>
         let message = failure_message env originalMessage
         in
         bindS (failMessage env code message recoverable) (\<lambda>failed.
         bindS (readS as_thoughtId) (\<lambda>thoughtId.
         bindS (if thoughtId = None then returnS []
                else end_thought (\<lambda>i. ThoughtCancelled i message None)) (\<lambda>thought.
         bindS (on_tools (total (tools_completeOpen env None runId ToolFailed))) (\<lambda>closed.
         liftS (assertBoundedLosslessEvents env (failed @ thought @ closed
           @ [plain_event (RunFailed code message
                (if message = originalMessage then None else Some (ac_utf8_bytes env originalMessage)) recoverable None)
                (Some runId)])))))))"

end
