(* ===== verification/Acp_Lifecycle.thy ===== *)
theory Acp_Lifecycle
  imports Acp_Transcript
begin

text \<open>
  What a reader of the events of an ACP prompt may rely on: the protocol \<open>follow\<close>, and that
  the events of any sequence of updates keep to it.
\<close>

section \<open>The protocol\<close>

datatype thought_life = NoThought | OpenThought string | ClosedThought

record life =
  lf_message :: "string option"
  lf_live :: string
  lf_saved :: string
  lf_used :: "string set"
  lf_thought :: thought_life
  lf_tools :: "string set"
  lf_over :: bool

definition new_life :: life where
  "new_life = \<lparr>lf_message = None, lf_live = [], lf_saved = [], lf_used = {}, lf_thought = NoThought,
     lf_tools = {}, lf_over = False\<rparr>"

definition ends_message :: "life \<Rightarrow> string \<Rightarrow> life option" where
  "ends_message l m = (if lf_message l = Some m then Some (l\<lparr>lf_message := None\<rparr>) else None)"

definition ends_thought :: "life \<Rightarrow> string \<Rightarrow> life option" where
  "ends_thought l i = (if lf_thought l = OpenThought i then Some (l\<lparr>lf_thought := ClosedThought\<rparr>) else None)"

definition ends_run :: "life \<Rightarrow> life option" where
  "ends_run l = (if lf_message l = None \<and> (\<forall>i. lf_thought l \<noteq> OpenThought i) \<and> lf_tools l = {}
     then Some (l\<lparr>lf_over := True\<rparr>) else None)"

text \<open>
  One message at a time, each identifier once; text only while the message is open, and a
  message that completes has saved the text shown live; the thought starts and ends once;
  tool calls start when they are not open and complete when they are; the run ends last,
  with nothing open.
\<close>

definition advance :: "life \<Rightarrow> acp_event \<Rightarrow> life option" where
  "advance l e =
     (if lf_over l then None
      else case ae_body e of
        MessageStarted m \<Rightarrow>
          if lf_message l = None \<and> m \<notin> lf_used l
          then Some (l\<lparr>lf_message := Some m, lf_live := [], lf_saved := [], lf_used := insert m (lf_used l)\<rparr>)
          else None
      | MessageAdded m t \<Rightarrow>
          if lf_message l = Some m then Some (l\<lparr>lf_saved := lf_saved l @ t\<rparr>) else None
      | MessageDelta m t _ \<Rightarrow>
          if lf_message l \<noteq> Some m then None
          else if ae_delivery e = Some DeliverBestEffort then Some (l\<lparr>lf_live := lf_live l @ t\<rparr>)
          else Some (l\<lparr>lf_saved := lf_saved l @ t\<rparr>)
      | MessageCompleted m \<Rightarrow>
          if lf_live l = [] \<or> lf_saved l = lf_live l then ends_message l m else None
      | MessageCancelled m _ \<Rightarrow> ends_message l m
      | MessageFailed m _ _ _ _ \<Rightarrow> ends_message l m
      | ThoughtStarted i \<Rightarrow>
          if lf_thought l = NoThought then Some (l\<lparr>lf_thought := OpenThought i\<rparr>) else None
      | ThoughtDelta i _ _ \<Rightarrow> if lf_thought l = OpenThought i then Some l else None
      | ThoughtUpdated u \<Rightarrow> if lf_thought l = OpenThought (tu_thoughtId u) then Some l else None
      | ThoughtCompleted i \<Rightarrow> ends_thought l i
      | ThoughtCancelled i _ _ \<Rightarrow> ends_thought l i
      | ItemStarted i _ _ \<Rightarrow> if i \<notin> lf_tools l then Some (l\<lparr>lf_tools := insert i (lf_tools l)\<rparr>) else None
      | ItemCompleted i _ _ \<Rightarrow> if i \<in> lf_tools l then Some (l\<lparr>lf_tools := lf_tools l - {i}\<rparr>) else None
      | RunCancelled _ \<Rightarrow> ends_run l
      | RunFailed _ _ _ _ _ \<Rightarrow> ends_run l
      | RunCompleted _ _ \<Rightarrow> ends_run l
      | _ \<Rightarrow> Some l)"

fun follow :: "life \<Rightarrow> acp_event list \<Rightarrow> life option" where
  "follow l [] = Some l"
| "follow l (e # es) = Option.bind (advance l e) (\<lambda>l'. follow l' es)"

lemma follow_events_append: "follow l (es @ fs) = Option.bind (follow l es) (\<lambda>l'. follow l' fs)"
  by (induction es arbitrary: l) (auto split: Option.bind_split)

section \<open>Tools\<close>

definition open_ids :: "acp_tools \<Rightarrow> string set" where
  "open_ids ts = {i. \<exists>t. map_of (ts_tools ts) i = Some t \<and> \<not> tl_completed t}"

definition tools_ok :: "acp_tools \<Rightarrow> bool" where
  "tools_ok ts \<longleftrightarrow> distinct (map fst (ts_tools ts)) \<and> (\<forall>i t. map_of (ts_tools ts) i = Some t \<longrightarrow> tl_started t)"

lemma trim_loop_view:
  assumes "distinct (map fst tools)"
  shows "distinct (map fst (trim_loop env n b completed tools))
    \<and> (map_of (trim_loop env n b completed tools) i = map_of tools i
       \<or> map_of (trim_loop env n b completed tools) i = None \<and> i \<in> fst ` set completed)"
  using assms
proof (induction completed arbitrary: n b tools)
  case (Cons c completed)
  show ?case
  proof (cases "n \<le> MAX_ACP_COMPLETED_TOOL_HISTORY_ITEMS \<and> b \<le> MAX_ACP_LOSSLESS_EVENT_BYTES")
    case False
    have "distinct (map fst (AList.delete (fst c) tools))" using Cons.prems by (simp add: distinct_delete)
    from Cons.IH [OF this, of "n - 1" "b - history_bytes env c"] False show ?thesis
      by (auto simp: delete_conv' split: if_splits)
  qed (use Cons.prems in simp)
qed simp

lemma trim_view:
  assumes "distinct (map fst (ts_tools ts))"
  shows "distinct (map fst (ts_tools (trimCompletedHistory env ts)))"
    "map_of (ts_tools (trimCompletedHistory env ts)) i = map_of (ts_tools ts) i
     \<or> map_of (ts_tools (trimCompletedHistory env ts)) i = None
       \<and> (\<exists>t. map_of (ts_tools ts) i = Some t \<and> tl_completed t)"
    "ts_hadActivity (trimCompletedHistory env ts) = ts_hadActivity ts"
proof -
  let ?completed = "filter (tl_completed \<circ> snd) (ts_tools ts)"
  note view = trim_loop_view [OF assms, of env "length ?completed" "sum_list (map (history_bytes env) ?completed)" ?completed]
  have trimmed: "ts_tools (trimCompletedHistory env ts)
      = trim_loop env (length ?completed) (sum_list (map (history_bytes env) ?completed)) ?completed (ts_tools ts)"
    by (simp add: trimCompletedHistory_def Let_def)
  show "distinct (map fst (ts_tools (trimCompletedHistory env ts)))"
    unfolding trimmed using view by (rule conjunct1)
  show "ts_hadActivity (trimCompletedHistory env ts) = ts_hadActivity ts"
    by (simp add: trimCompletedHistory_def Let_def)
  have "\<exists>t. map_of (ts_tools ts) i = Some t \<and> tl_completed t" if "i \<in> fst ` set ?completed"
    using that assms by (force simp: map_of_eq_Some_iff)
  then show "map_of (ts_tools (trimCompletedHistory env ts)) i = map_of (ts_tools ts) i
     \<or> map_of (ts_tools (trimCompletedHistory env ts)) i = None
       \<and> (\<exists>t. map_of (ts_tools ts) i = Some t \<and> tl_completed t)"
    unfolding trimmed using view [of i] by blast
qed

lemma trim_ok:
  assumes "tools_ok ts"
  shows "tools_ok (trimCompletedHistory env ts)" "open_ids (trimCompletedHistory env ts) = open_ids ts"
proof -
  have d: "distinct (map fst (ts_tools ts))" using assms by (simp add: tools_ok_def)
  have view: "map_of (ts_tools (trimCompletedHistory env ts)) i = map_of (ts_tools ts) i
     \<or> map_of (ts_tools (trimCompletedHistory env ts)) i = None
       \<and> (\<exists>t. map_of (ts_tools ts) i = Some t \<and> tl_completed t)" for i
    by (rule trim_view(2) [OF d])
  then have "tl_started t" if "map_of (ts_tools (trimCompletedHistory env ts)) i = Some t" for i t
    using that assms by (metis option.distinct(1) tools_ok_def)
  with trim_view(1) [OF d] show "tools_ok (trimCompletedHistory env ts)" by (simp add: tools_ok_def)
  have "i \<in> open_ids (trimCompletedHistory env ts) \<longleftrightarrow> i \<in> open_ids ts" for i
    using view [of i] unfolding open_ids_def mem_Collect_eq by (elim disjE conjE exE) auto
  then show "open_ids (trimCompletedHistory env ts) = open_ids ts" by blast
qed

lemma patch_of_state:
  assumes "tool_patch_of env parent status i update previous = (patched, t)"
  shows "tl_started t = (case previous of None \<Rightarrow> False | Some p \<Rightarrow> tl_started p)"
    "tl_completed t = (case previous of None \<Rightarrow> False | Some p \<Rightarrow> tl_completed p)"
    "\<not> tp_changed patched \<Longrightarrow> previous \<noteq> None"
proof -
  have patched: "patched = fst (tool_patch_of env parent status i update previous)"
    and t: "t = snd (tool_patch_of env parent status i update previous)"
    using assms by simp_all
  show "tl_started t = (case previous of None \<Rightarrow> False | Some p \<Rightarrow> tl_started p)"
    "tl_completed t = (case previous of None \<Rightarrow> False | Some p \<Rightarrow> tl_completed p)"
    unfolding t tool_patch_of_def Let_def snd_conv by simp_all
  show "previous \<noteq> None" if "\<not> tp_changed patched"
    using that unfolding patched tool_patch_of_def Let_def fst_conv by (cases previous) simp_all
qed

lemma patch_state:
  assumes "tools_patch env parent status i update ts = (patched, ts')"
  shows "\<exists>t. map_of (ts_tools ts') = (map_of (ts_tools ts))(i \<mapsto> t)
      \<and> tl_started t = (case map_of (ts_tools ts) i of None \<Rightarrow> False | Some p \<Rightarrow> tl_started p)
      \<and> tl_completed t = (case map_of (ts_tools ts) i of None \<Rightarrow> False | Some p \<Rightarrow> tl_completed p)"
    "ts_hadActivity ts' = ts_hadActivity ts"
    "distinct (map fst (ts_tools ts)) \<Longrightarrow> distinct (map fst (ts_tools ts'))"
    "\<not> tp_changed patched \<Longrightarrow> map_of (ts_tools ts) i \<noteq> None"
proof -
  obtain t where "tool_patch_of env parent status i update (map_of (ts_tools ts) i) = (patched, t)"
    and "ts' = ts\<lparr>ts_tools := AList.update i t (ts_tools ts)\<rparr>"
    using assms by (auto simp: tools_patch_def split: prod.splits)
  with patch_of_state [OF this(1)] show
    "\<exists>t. map_of (ts_tools ts') = (map_of (ts_tools ts))(i \<mapsto> t)
      \<and> tl_started t = (case map_of (ts_tools ts) i of None \<Rightarrow> False | Some p \<Rightarrow> tl_started p)
      \<and> tl_completed t = (case map_of (ts_tools ts) i of None \<Rightarrow> False | Some p \<Rightarrow> tl_completed p)"
    "ts_hadActivity ts' = ts_hadActivity ts"
    "distinct (map fst (ts_tools ts)) \<Longrightarrow> distinct (map fst (ts_tools ts'))"
    "\<not> tp_changed patched \<Longrightarrow> map_of (ts_tools ts) i \<noteq> None"
    by (simp_all add: update_conv' distinct_update del: not_None_eq) blast
qed

text \<open>A patch followed by the start, when there is something new.\<close>

lemma patch_start:
  assumes "tools_ok ts" "tools_patch env parent status i update ts = (patched, ts1)"
    "tools_ensureStarted parent' runId title i ts1 = (Inr es, ts2)"
  shows "tools_ok ts2" "map_of (ts_tools ts2) i \<noteq> None"
    "if i \<in> dom (map_of (ts_tools ts)) then es = [] \<and> open_ids ts2 = open_ids ts
     else es = [plain_event (ItemStarted i parent' title) (Some runId)] \<and> open_ids ts2 = insert i (open_ids ts)"
proof -
  obtain t where t: "map_of (ts_tools ts1) = (map_of (ts_tools ts))(i \<mapsto> t)"
      "tl_started t = (case map_of (ts_tools ts) i of None \<Rightarrow> False | Some p \<Rightarrow> tl_started p)"
      "tl_completed t = (case map_of (ts_tools ts) i of None \<Rightarrow> False | Some p \<Rightarrow> tl_completed p)"
      "distinct (map fst (ts_tools ts1))"
    using patch_state(1) [OF assms(2)] patch_state(3) [OF assms(2)] assms(1) by (auto simp: tools_ok_def)
  show "tools_ok ts2" "map_of (ts_tools ts2) i \<noteq> None"
    using assms(1,3) t
    by (auto simp: tools_ensureStarted_def tools_ok_def update_conv' distinct_update split: if_splits)
  show "if i \<in> dom (map_of (ts_tools ts)) then es = [] \<and> open_ids ts2 = open_ids ts
     else es = [plain_event (ItemStarted i parent' title) (Some runId)] \<and> open_ids ts2 = insert i (open_ids ts)"
  proof (cases "map_of (ts_tools ts) i")
    case None
    then have "es = [plain_event (ItemStarted i parent' title) (Some runId)]"
      "map_of (ts_tools ts2) = (map_of (ts_tools ts))(i \<mapsto> t\<lparr>tl_started := True\<rparr>)"
      using assms(3) t by (auto simp: tools_ensureStarted_def update_conv')
    then show ?thesis using None t(3) by (auto simp: open_ids_def)
  next
    case (Some p)
    then have "tl_started p" using assms(1) by (simp add: tools_ok_def)
    then have "es = []" "ts2 = ts1" using assms(3) t(1,2) Some by (auto simp: tools_ensureStarted_def)
    then show ?thesis using Some t(1,3) by (auto simp: open_ids_def)
  qed
qed

lemma complete_ok:
  assumes "tools_ok ts" "tools_complete env runId status i update ts = (Inr result, ts')"
  shows "tools_ok ts'"
    "case result of None \<Rightarrow> open_ids ts' = open_ids ts
     | Some e \<Rightarrow> i \<in> open_ids ts \<and> open_ids ts' = open_ids ts - {i} \<and> (\<exists>err. ae_body e = ItemCompleted i status err)"
proof -
  obtain t where t: "map_of (ts_tools ts) i = Some t"
    using assms(2) by (auto simp: tools_complete_def split: option.splits)
  define ts1 where "ts1 = ts\<lparr>ts_tools := AList.update i (t\<lparr>tl_completed := True\<rparr>) (ts_tools ts)\<rparr>"
  have ok1: "tools_ok ts1" using assms(1) t by (auto simp: tools_ok_def ts1_def update_conv' distinct_update)
  have open1: "open_ids ts1 = open_ids ts - {i}" using t by (auto simp: open_ids_def ts1_def update_conv')
  show "tools_ok ts'" using assms trim_ok(1) ok1 t
    by (auto simp: tools_complete_def ts1_def [symmetric] split: if_splits)
  show "case result of None \<Rightarrow> open_ids ts' = open_ids ts
     | Some e \<Rightarrow> i \<in> open_ids ts \<and> open_ids ts' = open_ids ts - {i} \<and> (\<exists>err. ae_body e = ItemCompleted i status err)"
  proof (cases "tl_completed t")
    case True
    then show ?thesis using assms t trim_ok(2) by (auto simp: tools_complete_def)
  next
    case False
    then have "i \<in> open_ids ts" using t by (auto simp: open_ids_def)
    then show ?thesis
      using False assms(2) t trim_ok(2) [OF ok1] open1
      by (auto simp: tools_complete_def ts1_def [symmetric] plain_event_def)
  qed
qed

section \<open>The state keeps up with the protocol\<close>

text \<open>What the code relies on of JSON and of identifiers.\<close>

definition sound_env :: "acp_env \<Rightarrow> bool" where
  "sound_env env \<longleftrightarrow> inj (ac_ids env) \<and> ac_json_bytes env (JStr []) = 2"

text \<open>
  \<open>exact\<close> says that the open message's text is what was shown live; a thought that becomes
  a message at the end was not shown as one.
\<close>

definition mirrors :: "bool \<Rightarrow> acp_env \<Rightarrow> acp_state \<Rightarrow> life \<Rightarrow> bool" where
  "mirrors exact env s l \<longleftrightarrow>
     \<not> lf_over l \<and> lf_message l = map_option am_id (as_active s)
     \<and> (\<forall>m. as_active s = Some m \<longrightarrow> lf_saved l = [] \<and> (lf_live l = am_text m \<or> \<not> exact \<and> lf_live l = []))
     \<and> (\<forall>m\<in>lf_used l. \<exists>k<as_drawn s. m = ac_ids env k)
     \<and> lf_thought l = (if as_thoughtStarted s then OpenThought (the (as_thoughtId s)) else NoThought)
     \<and> \<not> as_thoughtCompleted s \<and> tools_ok (as_tools s) \<and> lf_tools l = open_ids (as_tools s)
     \<and> as_runId s \<noteq> None \<and> as_thoughtId s \<noteq> None"

definition emits :: "bool \<Rightarrow> bool \<Rightarrow> acp_env \<Rightarrow> acp_event list acp \<Rightarrow> bool" where
  "emits exact exact' env m \<longleftrightarrow>
     (\<forall>s l es t. m s = (Inr es, t) \<longrightarrow> mirrors exact env s l \<longrightarrow> (\<exists>l'. follow l es = Some l' \<and> mirrors exact' env t l'))"

lemma emitsD: "emits exact exact' env m \<Longrightarrow> m s = (Inr es, t) \<Longrightarrow> mirrors exact env s l \<Longrightarrow>
    \<exists>l'. follow l es = Some l' \<and> mirrors exact' env t l'"
  by (simp add: emits_def)

lemma mirrors_weaken: "mirrors exact env s l \<Longrightarrow> mirrors False env s l"
  by (auto simp: mirrors_def)

text \<open>Changes the protocol does not see.\<close>

lemma mirrors_cong:
  assumes "mirrors exact env s l" "as_active t = as_active s" "as_drawn s \<le> as_drawn t"
    "as_thoughtStarted t = as_thoughtStarted s" "as_thoughtId t = as_thoughtId s"
    "as_thoughtCompleted t = as_thoughtCompleted s" "as_tools t = as_tools s" "as_runId t = as_runId s"
  shows "mirrors exact env t l"
proof -
  have "\<forall>m\<in>lf_used l. \<exists>k<as_drawn t. m = ac_ids env k"
    using assms(1,3) unfolding mirrors_def by (meson order_less_le_trans)
  then show ?thesis using assms unfolding mirrors_def by simp
qed

lemma settle_native_simps [simp]:
  "as_active (settle_native env m s) = as_active s" "as_drawn (settle_native env m s) = as_drawn s"
  "as_thoughtStarted (settle_native env m s) = as_thoughtStarted s" "as_thoughtId (settle_native env m s) = as_thoughtId s"
  "as_thoughtCompleted (settle_native env m s) = as_thoughtCompleted s" "as_tools (settle_native env m s) = as_tools s"
  "as_runId (settle_native env m s) = as_runId s" "as_fallbackNative (settle_native env m s) = as_fallbackNative s"
  "as_fallbackText (settle_native env m s) = as_fallbackText s" "as_last (settle_native env m s) = as_last s"
  by (simp_all add: settle_native_def rememberSettledAssistantMessage_def Let_def split: option.split prod.split)

lemma requireRunId_run: "requireRunId s = (Inr r, t) \<longleftrightarrow> as_runId s = Some r \<and> t = s"
  by (auto simp: requireRunId_def split: option.split)

lemma requireThoughtId_run: "requireThoughtId s = (Inr r, t) \<longleftrightarrow> as_thoughtId s = Some r \<and> t = s"
  by (auto simp: requireThoughtId_def split: option.split)

lemma follow_deltas:
  assumes "lf_message l = Some i" "\<not> lf_over l"
  shows "follow l (map (\<lambda>delta. (plain_event (MessageDelta i delta None) (Some r))\<lparr>ae_delivery := Some DeliverLossless\<rparr>) ds)
    = Some (l\<lparr>lf_saved := lf_saved l @ concat ds\<rparr>)"
  using assms
proof (induction ds arbitrary: l)
  case (Cons d ds)
  then show ?case using Cons.IH [of "l\<lparr>lf_saved := lf_saved l @ d\<rparr>"] by (simp add: advance_def plain_event_def)
qed simp

lemma follow_saved:
  assumes "lf_message l = Some i" "\<not> lf_over l"
  shows "follow l (saved_text i r chunks) = Some (l\<lparr>lf_saved := lf_saved l @ concat chunks\<rparr>)"
  using assms follow_deltas [of "l\<lparr>lf_saved := lf_saved l @ hd chunks\<rparr>" i r "tl chunks"]
  by (cases chunks) (simp_all add: saved_text_def advance_def plain_event_def)

lemma saved_chunks:
  assumes "sound_env env"
    "(if txt = [] then Inr [] else chunkJsonText (acp_coding env) txt b b') = Inr chunks"
  shows "concat chunks = txt"
proof (cases "txt = []")
  case False
  then have "chunkJsonText (acp_coding env) txt b b' = Inr chunks" using assms(2) by simp
  moreover have "tc_bytes (acp_coding env) [] = 0" "\<And>u. tc_high (acp_coding env) u \<Longrightarrow> \<not> tc_low (acp_coding env) u"
    using assms(1) by (simp_all add: acp_coding_def sound_env_def)
  ultimately show ?thesis using chunkJsonText_ok by blast
qed (use assms(2) in simp)

text \<open>Finishing the open message.\<close>

lemma finish_run:
  assumes "finishMessage env s = (Inr es, t)"
  shows "as_active s = None \<and> es = [] \<and> t = s
    \<or> (\<exists>m chunks r. as_active s = Some m \<and> as_runId s = Some r
        \<and> (if am_text m = [] then Inr []
           else chunkJsonText (acp_coding env) (am_text m) MAX_ACP_MESSAGE_EVENT_TEXT_BYTES MAX_ACP_MESSAGE_EVENT_TEXT_BYTES)
          = Inr chunks
        \<and> es = saved_text (am_id m) r chunks @ [plain_event (MessageCompleted (am_id m)) (Some r)]
        \<and> t = (settle_native env m (s\<lparr>as_active := None\<rparr>))
            \<lparr>as_last := (if am_native m \<noteq> None then Some (visible_text (am_text m), am_id m) else None)\<rparr>)"
  using assms unfolding finishMessage_def
  by (auto simp: bindS_Inr requireRunId_run split: option.splits sum.splits)

lemma finish_frame:
  assumes "finishMessage env s = (Inr es, t)"
  shows "as_active t = None" "as_drawn t = as_drawn s" "as_thoughtStarted t = as_thoughtStarted s"
    "as_thoughtId t = as_thoughtId s" "as_thoughtCompleted t = as_thoughtCompleted s" "as_tools t = as_tools s"
    "as_runId t = as_runId s" "as_fallbackNative t = as_fallbackNative s" "as_fallbackText t = as_fallbackText s"
  using finish_run [OF assms] by auto

lemma finish_emits:
  assumes "sound_env env"
  shows "emits False True env (finishMessage env)"
  unfolding emits_def
proof (intro allI impI)
  fix s l es t
  assume run: "finishMessage env s = (Inr es, t)" and m0: "mirrors False env s l"
  consider "as_active s = None" "es = []" "t = s"
    | m chunks r where "as_active s = Some m"
        "(if am_text m = [] then Inr []
          else chunkJsonText (acp_coding env) (am_text m) MAX_ACP_MESSAGE_EVENT_TEXT_BYTES MAX_ACP_MESSAGE_EVENT_TEXT_BYTES)
          = Inr chunks"
        "es = saved_text (am_id m) r chunks @ [plain_event (MessageCompleted (am_id m)) (Some r)]"
    using finish_run [OF run] by (elim disjE exE conjE) auto
  then show "\<exists>l'. follow l es = Some l' \<and> mirrors True env t l'"
  proof cases
    case 1
    then show ?thesis using m0 by (auto simp: mirrors_def)
  next
    case 2
    note whole = saved_chunks [OF assms 2(2)]
    have l: "lf_message l = Some (am_id m)" "\<not> lf_over l" "lf_saved l = []" "lf_live l = am_text m \<or> lf_live l = []"
      using m0 2(1) by (auto simp: mirrors_def)
    let ?l = "l\<lparr>lf_saved := am_text m, lf_message := None\<rparr>"
    have "follow l es = Some ?l"
      using l whole unfolding 2(3)
      by (elim disjE) (simp_all add: follow_events_append follow_saved advance_def plain_event_def ends_message_def)
    moreover have "mirrors True env t ?l"
      using m0 finish_frame [OF run] by (auto simp: mirrors_def)
    ultimately show ?thesis by blast
  qed
qed

end
