(* ===== verification/Acp_Updates.thy ===== *)
theory Acp_Updates
  imports Acp_Lifecycle
begin

text \<open>
  Every session update and permission request of an ACP prompt keeps to the protocol of
  Acp_Lifecycle, and one that fails leaves the prompt as it was.
\<close>

section \<open>Events the protocol does not look at\<close>

fun neutral_body :: "acp_body \<Rightarrow> bool" where
  "neutral_body (ToolCallUpdated _) = True"
| "neutral_body (UserMessageAdded _ _) = True"
| "neutral_body (RunDispatched _ _) = True"
| "neutral_body (RunStarted _ _) = True"
| "neutral_body (Projected _ _) = True"
| "neutral_body _ = False"

definition neutral :: "acp_event \<Rightarrow> bool" where
  "neutral e = neutral_body (ae_body e)"

lemma neutral_simps [simp]:
  "neutral (plain_event b r) = neutral_body b" "neutral (owner_debug e) = neutral e"
  "neutral (sent_best_effort e) = neutral e" "neutral (projected k p)" "neutral (e\<lparr>ae_delivery := d\<rparr>) = neutral e"
  "neutral (e\<lparr>ae_source := x\<rparr>) = neutral e"
  by (simp_all add: neutral_def plain_event_def owner_debug_def sent_best_effort_def projected_def)

lemma advance_neutral: "neutral e \<Longrightarrow> \<not> lf_over l \<Longrightarrow> advance l e = Some l"
  by (cases "ae_body e") (auto simp: neutral_def advance_def)

lemma follow_neutral: "list_all neutral es \<Longrightarrow> \<not> lf_over l \<Longrightarrow> follow l es = Some l"
  by (induction es) (simp_all add: advance_neutral)

lemma update_events_neutral:
  "list_all neutral (toCommandEvents update)" "list_all neutral (toConfigEvents update)"
  "list_all neutral (toModeEvents update)" "list_all neutral (toPlanEvents update)"
  "list_all neutral (toInfoEvents env update)" "list_all neutral (toUsageEvents update)"
  unfolding toCommandEvents_def toConfigEvents_def toModeEvents_def toPlanEvents_def toInfoEvents_def
    toUsageEvents_def Let_def
  by (auto split: option.split json.split)

lemma permission_events_neutral: "list_all neutral (pt_events (toPermissionRequest env params requestId runId))"
  by (auto simp: toPermissionRequest_def Let_def split: option.split)

lemma bounded_events: "assertBoundedLosslessEvents env es = Inr fs \<Longrightarrow> fs = es"
  by (auto simp: assertBoundedLosslessEvents_def split: option.splits)

section \<open>Starting a message\<close>

lemma start_run:
  assumes "startUnsettledMessage env native s = (Inr es, t)"
  shows "(\<exists>m. as_active s = Some m \<and> am_native m = native) \<and> es = [] \<and> t = s
    \<or> (\<exists>fs u r. finishMessage env s = (Inr fs, u) \<and> as_runId u = Some r
        \<and> es = fs @ [plain_event (MessageStarted (ac_ids env (as_drawn u))) (Some r)]
        \<and> t = clearThoughtFallback (u\<lparr>as_drawn := as_drawn u + 1,
                 as_active := Some \<lparr>am_id = ac_ids env (as_drawn u), am_native = native, am_text = []\<rparr>\<rparr>))"
proof (cases "case as_active s of None \<Rightarrow> False | Some m \<Rightarrow> am_native m = native")
  case True
  then obtain m where "as_active s = Some m" "am_native m = native" by (auto split: option.splits)
  then show ?thesis using assms by (simp add: startUnsettledMessage_def)
next
  case False
  then show ?thesis using assms unfolding startUnsettledMessage_def
    by (auto simp: bindS_Inr requireRunId_run clearThoughtFallback_def)
qed

lemma start_active: "startUnsettledMessage env native s = (Inr es, t) \<Longrightarrow> as_active t \<noteq> None"
  using start_run by (fastforce simp: clearThoughtFallback_def)

lemma start_emits:
  assumes "sound_env env"
  shows "emits True True env (startUnsettledMessage env native)"
  unfolding emits_def
proof (intro allI impI)
  fix s l es t
  assume run: "startUnsettledMessage env native s = (Inr es, t)" and m0: "mirrors True env s l"
  consider "es = []" "t = s"
    | fs u r where "finishMessage env s = (Inr fs, u)"
        "es = fs @ [plain_event (MessageStarted (ac_ids env (as_drawn u))) (Some r)]"
        "t = clearThoughtFallback (u\<lparr>as_drawn := as_drawn u + 1,
                 as_active := Some \<lparr>am_id = ac_ids env (as_drawn u), am_native = native, am_text = []\<rparr>\<rparr>)"
    using start_run [OF run] by (elim disjE exE conjE) auto
  then show "\<exists>l'. follow l es = Some l' \<and> mirrors True env t l'"
  proof cases
    case 1
    then show ?thesis using m0 by auto
  next
    case 2
    from emitsD [OF finish_emits [OF assms] 2(1) mirrors_weaken [OF m0]]
    obtain k where k: "follow l fs = Some k" "mirrors True env u k" by auto
    have none: "as_active u = None" using finish_frame(1) [OF 2(1)] .
    have used: "\<forall>m\<in>lf_used k. \<exists>j<as_drawn u. m = ac_ids env j" using k(2) by (simp add: mirrors_def)
    have inj: "inj (ac_ids env)" using assms by (simp add: sound_env_def)
    have fresh: "ac_ids env (as_drawn u) \<notin> lf_used k"
    proof
      assume "ac_ids env (as_drawn u) \<in> lf_used k"
      with used obtain j where "j < as_drawn u" "ac_ids env (as_drawn u) = ac_ids env j" by blast
      with injD [OF inj] show False by blast
    qed
    let ?l = "k\<lparr>lf_message := Some (ac_ids env (as_drawn u)), lf_live := [], lf_saved := [],
      lf_used := insert (ac_ids env (as_drawn u)) (lf_used k)\<rparr>"
    have "lf_message k = None" "\<not> lf_over k" using k(2) none by (simp_all add: mirrors_def)
    then have "follow l es = Some ?l"
      using k(1) fresh unfolding 2(2) by (simp add: follow_events_append advance_def plain_event_def)
    moreover have "\<forall>m\<in>lf_used ?l. \<exists>j<as_drawn t. m = ac_ids env j"
      using used unfolding 2(3) clearThoughtFallback_def by (auto intro: less_SucI)
    then have "mirrors True env t ?l"
      using k(2) unfolding mirrors_def 2(3) clearThoughtFallback_def by simp
    ultimately show ?thesis by blast
  qed
qed

lemma start_settled_run:
  "startMessage env native s = (Inr started, t) \<Longrightarrow>
     started = None \<and> t = s \<or> (\<exists>es. started = Some es \<and> startUnsettledMessage env (Some native) s = (Inr es, t))"
  by (auto simp: startMessage_def bindS_Inr split: if_splits)

section \<open>Chunks\<close>

lemma append_mirrors:
  assumes "mirrors True env s l" "as_active s \<noteq> None"
  shows "lf_message l = Some (active_id s)"
    "mirrors True env (append_text d s) (l\<lparr>lf_live := lf_live l @ d\<rparr>)"
  using assms unfolding mirrors_def append_text_def active_id_def by auto

lemma append_delta:
  assumes "mirrors True env s l" "as_active s \<noteq> None"
    "bindS (changeS (append_text delta)) (\<lambda>_. bindS (readS active_id) (\<lambda>messageId.
       bindS requireRunId (\<lambda>runId. bindS (nextEventId kind) (\<lambda>source.
         returnS (es @ [(plain_event (MessageDelta messageId delta block) (Some runId))
           \<lparr>ae_delivery := Some DeliverBestEffort, ae_source := Some source\<rparr>]))))) s = (Inr fs, t)"
  shows "\<exists>e l'. fs = es @ [e] \<and> advance l e = Some l' \<and> mirrors True env t l'"
proof -
  let ?u = "append_text delta s"
  have same: "active_id ?u = active_id s" by (simp add: append_text_def active_id_def option.case_eq_if option.map_sel)
  obtain r where r: "as_runId ?u = Some r" "t = ?u\<lparr>as_sequence := as_sequence ?u + 1\<rparr>"
    and fs: "\<exists>source. fs = es @ [(plain_event (MessageDelta (active_id s) delta block) (Some r))
           \<lparr>ae_delivery := Some DeliverBestEffort, ae_source := Some source\<rparr>]"
    using assms(3) same by (auto simp: bindS_Inr requireRunId_run nextEventId_def Let_def)
  have "mirrors True env t (l\<lparr>lf_live := lf_live l @ delta\<rparr>)"
    by (rule mirrors_cong [OF append_mirrors(2) [OF assms(1,2)]]) (simp_all add: r(2))
  moreover have "\<not> lf_over l" using assms(1) by (simp add: mirrors_def)
  ultimately show ?thesis using fs append_mirrors(1) [OF assms(1,2)]
    by (auto simp: advance_def plain_event_def)
qed

lemma message_emits:
  assumes "sound_env env"
  shows "emits True True env (messageChunk env update)"
  unfolding emits_def
proof (intro allI impI)
  fix s l fs t
  assume run: "messageChunk env update s = (Inr fs, t)" and m0: "mirrors True env s l"
  show "\<exists>l'. follow l fs = Some l' \<and> mirrors True env t l'"
  proof (cases "summarizeContentBlock env (json_field update ''content'')")
    case None
    then show ?thesis using run m0 by (simp add: messageChunk_def)
  next
    case (Some delta)
    obtain started u where start: "(case readNonEmptyString update ''messageId'' of
          None \<Rightarrow> bindS (startAnonymousMessage env) (\<lambda>events. returnS (Some events))
        | Some native \<Rightarrow> startMessage env native) s = (Inr started, u)"
      and rest: "(case started of None \<Rightarrow> returnS [] | Some events \<Rightarrow>
              bindS (changeS (append_text delta)) (\<lambda>_.
              bindS (readS active_id) (\<lambda>messageId.
              bindS requireRunId (\<lambda>runId.
              bindS (nextEventId ''agent-message'') (\<lambda>source.
                returnS (events @ [(plain_event (MessageDelta messageId delta (json_field update ''content'')) (Some runId))
                  \<lparr>ae_delivery := Some DeliverBestEffort, ae_source := Some source\<rparr>])))))) u = (Inr fs, t)"
      using run unfolding messageChunk_def Some option.case by (rule bindS_InrE) blast
    show ?thesis
    proof (cases started)
      case None
      then have "u = s" using start by (auto simp: bindS_Inr split: option.splits dest: start_settled_run)
      then show ?thesis using None rest m0 by simp
    next
      case [simp]: (Some es)
      obtain native where es: "startUnsettledMessage env native s = (Inr es, u)"
        using start by (auto simp: bindS_Inr startAnonymousMessage_def split: option.splits dest: start_settled_run)
      from emitsD [OF start_emits [OF assms] es m0] obtain k where k: "follow l es = Some k" "mirrors True env u k" by auto
      from append_delta [OF k(2) start_active [OF es] rest [unfolded Some option.case]]
      show ?thesis using k(1) by (auto simp: follow_events_append)
    qed
  qed
qed

lemma thought_start_emits: "emits True True env ensureThoughtStarted"
  unfolding emits_def
proof (intro allI impI)
  fix s l es t
  assume run: "ensureThoughtStarted s = (Inr es, t)" and m0: "mirrors True env s l"
  show "\<exists>l'. follow l es = Some l' \<and> mirrors True env t l'"
  proof (cases "as_thoughtStarted s")
    case True
    then show ?thesis using run m0 by (simp add: ensureThoughtStarted_def)
  next
    case False
    obtain i r where i: "as_thoughtId s = Some i" "t = s\<lparr>as_thoughtStarted := True\<rparr>"
      "es = [plain_event (ThoughtStarted i) (Some r)]"
      using run False by (auto simp: ensureThoughtStarted_def bindS_Inr requireThoughtId_run requireRunId_run)
    have "follow l es = Some (l\<lparr>lf_thought := OpenThought i\<rparr>)"
      using m0 False unfolding i(3) by (simp add: advance_def plain_event_def mirrors_def)
    moreover have "mirrors True env t (l\<lparr>lf_thought := OpenThought i\<rparr>)"
      using m0 i unfolding mirrors_def by simp
    ultimately show ?thesis by blast
  qed
qed

end
