(* ===== verification/Acp_Thoughts.thy ===== *)
theory Acp_Thoughts
  imports Acp_Updates
begin

text \<open>Chunks of the thought, and the projection of tool calls, keep to the protocol.\<close>

lemma mirrors_tools:
  assumes "mirrors exact env s l" "tools_ok ts"
  shows "mirrors exact env (s\<lparr>as_tools := ts\<rparr>) (l\<lparr>lf_tools := open_ids ts\<rparr>)"
  using assms by (simp add: mirrors_def)

section \<open>Thoughts\<close>

lemma thought_message_emits:
  assumes "sound_env env" "mirrors True env s l"
    "thought_message env native delta s = (Inr es, t)"
  shows "\<exists>l'. follow l es = Some l' \<and> mirrors True env t l'"
proof -
  note finish = emitsD [OF finish_emits [OF assms(1)] _ mirrors_weaken [OF assms(2)]]
  have same: "\<exists>l'. follow l es = Some l' \<and> mirrors True env t l'"
    if "\<exists>l'. follow l es = Some l' \<and> mirrors True env u l'" "as_active t = as_active u" "as_drawn t = as_drawn u"
      "as_thoughtStarted t = as_thoughtStarted u" "as_thoughtId t = as_thoughtId u"
      "as_thoughtCompleted t = as_thoughtCompleted u" "as_tools t = as_tools u" "as_runId t = as_runId u" for u
    using that mirrors_cong by (metis order_refl)
  show ?thesis
  proof (cases native)
    case None
    then obtain u where "finishMessage env s = (Inr es, u)" "t = clearThoughtFallback (u\<lparr>as_last := None\<rparr>)"
      using assms(3) by (auto simp: thought_message_def bindS_Inr)
    then show ?thesis using finish same [of u] by (simp add: clearThoughtFallback_def)
  next
    case [simp]: (Some i)
    show ?thesis
    proof (cases "i \<in> set (as_settled s)")
      case True
      then show ?thesis using assms by (simp add: thought_message_def)
    next
      case False
      then obtain u where u: "(if (case as_active s of None \<Rightarrow> False | Some m \<Rightarrow> am_native m \<noteq> Some i)
                 then finishMessage env else returnS []) s = (Inr es, u)"
        and t: "t = (if as_active u \<noteq> None then u
             else if as_fallbackNative u = Some i
             then u\<lparr>as_fallbackText := as_fallbackText u @ delta\<rparr>
             else u\<lparr>as_fallbackNative := Some i, as_fallbackText := delta\<rparr>)"
        using assms(3) by (auto simp: thought_message_def bindS_Inr)
      have "\<exists>l'. follow l es = Some l' \<and> mirrors True env u l'"
        using u finish assms(2) by (cases "case as_active s of None \<Rightarrow> False | Some m \<Rightarrow> am_native m \<noteq> Some i") auto
      then show ?thesis by (rule same) (simp_all add: t)
    qed
  qed
qed

lemma thought_delta:
  assumes "mirrors True env s l" "as_thoughtStarted s"
    "bindS requireThoughtId (\<lambda>thoughtId. bindS requireRunId (\<lambda>runId. bindS (nextEventId kind) (\<lambda>source.
       returnS (es @ started @ [(plain_event (ThoughtDelta thoughtId delta block) (Some runId))
              \<lparr>ae_delivery := Some DeliverBestEffort, ae_source := Some source\<rparr>])))) s = (Inr fs, t)"
  shows "\<exists>e. fs = es @ started @ [e] \<and> advance l e = Some l \<and> mirrors True env t l"
proof -
  obtain i r source where i: "as_thoughtId s = Some i" "as_runId s = Some r" "t = s\<lparr>as_sequence := as_sequence s + 1\<rparr>"
    and fs: "fs = es @ started @ [(plain_event (ThoughtDelta i delta block) (Some r))
              \<lparr>ae_delivery := Some DeliverBestEffort, ae_source := Some source\<rparr>]"
    using assms(3) by (auto simp: bindS_Inr requireThoughtId_run requireRunId_run nextEventId_def Let_def)
  have "mirrors True env t l" by (rule mirrors_cong [OF assms(1)]) (simp_all add: i(3))
  moreover have "lf_thought l = OpenThought i" "\<not> lf_over l" using assms(1,2) i(1) by (simp_all add: mirrors_def)
  ultimately show ?thesis using fs by (simp add: advance_def plain_event_def)
qed

lemma thought_started: "ensureThoughtStarted s = (Inr es, t) \<Longrightarrow> as_thoughtStarted t"
  by (auto simp: ensureThoughtStarted_def bindS_Inr requireThoughtId_run requireRunId_run split: if_splits)

lemma thought_emits:
  assumes "sound_env env"
  shows "emits True True env (thoughtChunk env update)"
  unfolding emits_def
proof (intro allI impI)
  fix s l fs t
  assume run: "thoughtChunk env update s = (Inr fs, t)" and m0: "mirrors True env s l"
  show "\<exists>l'. follow l fs = Some l' \<and> mirrors True env t l'"
  proof (cases "summarizeContentBlock env (json_field update ''content'')")
    case None
    then show ?thesis using run m0 by (simp add: thoughtChunk_def)
  next
    case (Some delta)
    let ?bytes = "as_thoughtBytes s + thoughtContentDeltaBytes (acp_coding env) (as_thoughtText s) delta"
    let ?s = "s\<lparr>as_thoughtBytes := ?bytes, as_thoughtText := as_thoughtText s @ delta\<rparr>"
    have m1: "mirrors True env ?s l" by (rule mirrors_cong [OF m0]) simp_all
    have small: "\<not> MAX_THOUGHT_CONTENT_BYTES < ?bytes" using run Some by (auto simp: thoughtChunk_def)
    note run' = run [unfolded thoughtChunk_def Some option.case bindS_readS if_not_P [OF small] bindS_changeS]
    obtain es u where es: "thought_message env (readNonEmptyString update ''messageId'') delta ?s = (Inr es, u)"
      and rest: "bindS ensureThoughtStarted (\<lambda>started. bindS requireThoughtId (\<lambda>thoughtId.
          bindS requireRunId (\<lambda>runId. bindS (nextEventId ''agent-thought'') (\<lambda>source.
            returnS (es @ started @ [(plain_event (ThoughtDelta thoughtId delta (json_field update ''content'')) (Some runId))
              \<lparr>ae_delivery := Some DeliverBestEffort, ae_source := Some source\<rparr>]))))) u = (Inr fs, t)"
      using run' by (rule bindS_InrE) blast
    obtain started w where started: "ensureThoughtStarted u = (Inr started, w)"
      and last: "bindS requireThoughtId (\<lambda>thoughtId.
          bindS requireRunId (\<lambda>runId. bindS (nextEventId ''agent-thought'') (\<lambda>source.
            returnS (es @ started @ [(plain_event (ThoughtDelta thoughtId delta (json_field update ''content'')) (Some runId))
              \<lparr>ae_delivery := Some DeliverBestEffort, ae_source := Some source\<rparr>])))) w = (Inr fs, t)"
      using rest by (rule bindS_InrE) blast
    from thought_message_emits [OF assms m1 es] obtain k where k: "follow l es = Some k" "mirrors True env u k" by auto
    from emitsD [OF thought_start_emits started k(2)] obtain k' where k': "follow k started = Some k'" "mirrors True env w k'"
      by auto
    from thought_delta [OF k'(2) thought_started [OF started] last] show ?thesis
      using k(1) k'(1) by (auto simp: follow_events_append)
  qed
qed

section \<open>Tool calls\<close>

lemma tool_parent_emits: "sound_env env \<Longrightarrow> emits True True env (ensureToolParentMessage env i)"
  unfolding emits_def ensureToolParentMessage_def startAnonymousMessage_def
  using emitsD [OF start_emits] by (auto split: if_splits)

lemma patch_kept:
  assumes "tools_ok ts" "tools_patch env parent status i update ts = (patched, ts')" "\<not> tp_changed patched"
  shows "tools_ok ts'" "open_ids ts' = open_ids ts"
proof -
  obtain p where p: "map_of (ts_tools ts) i = Some p" using patch_state(4) [OF assms(2,3)] by auto
  obtain t where t: "map_of (ts_tools ts') = (map_of (ts_tools ts))(i \<mapsto> t)" "tl_started t = tl_started p"
      "tl_completed t = tl_completed p"
    using patch_state(1) [OF assms(2)] p by auto
  have "distinct (map fst (ts_tools ts'))" using patch_state(3) [OF assms(2)] assms(1) by (simp add: tools_ok_def)
  then show "tools_ok ts'" "open_ids ts' = open_ids ts"
    using assms(1) p t by (auto simp: tools_ok_def open_ids_def simp del: map_of_eq_Some_iff)
qed

text \<open>A patch and its start, in the state of a prompt.\<close>

lemma patch_start_emits:
  assumes "mirrors True env s l" "on_tools (total (tools_patch env parent status i update)) s = (Inr patched, u)"
    "on_tools (tools_ensureStarted parent' r title i) u = (Inr es, t)"
  shows "\<exists>l'. follow l es = Some l' \<and> mirrors True env t l'"
proof -
  obtain ts1 where p: "tools_patch env parent status i update (as_tools s) = (patched, ts1)" "u = s\<lparr>as_tools := ts1\<rparr>"
    using assms(2) by (auto simp: on_tools_def total_def split: prod.splits)
  obtain ts2 where e: "tools_ensureStarted parent' r title i ts1 = (Inr es, ts2)" "t = s\<lparr>as_tools := ts2\<rparr>"
    using assms(3) p(2) by (auto simp: on_tools_def split: prod.splits)
  have ok: "tools_ok (as_tools s)" "lf_tools l = open_ids (as_tools s)" "\<not> lf_over l"
    using assms(1) by (simp_all add: mirrors_def)
  note started = patch_start [OF ok(1) p(1) e(1)]
  have "mirrors True env t (l\<lparr>lf_tools := open_ids ts2\<rparr>)"
    unfolding e(2) by (rule mirrors_tools [OF assms(1) started(1)])
  moreover have "follow l es = Some (l\<lparr>lf_tools := open_ids ts2\<rparr>)"
  proof (cases "i \<in> dom (map_of (ts_tools (as_tools s)))")
    case True
    then have "es = []" "open_ids ts2 = lf_tools l" using started(3) ok(2) by simp_all
    then show ?thesis by simp
  next
    case False
    then have "es = [plain_event (ItemStarted i parent' title) (Some r)]" "open_ids ts2 = insert i (lf_tools l)"
      using started(3) ok(2) by simp_all
    moreover have "i \<notin> lf_tools l" using False ok(2) by (auto simp: open_ids_def)
    ultimately show ?thesis using ok(3) by (simp add: advance_def plain_event_def)
  qed
  ultimately show ?thesis by blast
qed

lemma complete_emits:
  assumes "mirrors True env s l" "on_tools (tools_complete env r status i update) s = (Inr result, t)"
  shows "\<exists>l'. follow l (case result of None \<Rightarrow> [] | Some e \<Rightarrow> [e]) = Some l' \<and> mirrors True env t l'"
proof -
  obtain ts where c: "tools_complete env r status i update (as_tools s) = (Inr result, ts)" "t = s\<lparr>as_tools := ts\<rparr>"
    using assms(2) by (auto simp: on_tools_def split: prod.splits)
  have ok: "tools_ok (as_tools s)" "lf_tools l = open_ids (as_tools s)" "\<not> lf_over l"
    using assms(1) by (simp_all add: mirrors_def)
  note complete = complete_ok [OF ok(1) c(1)]
  have "mirrors True env t (l\<lparr>lf_tools := open_ids ts\<rparr>)"
    unfolding c(2) by (rule mirrors_tools [OF assms(1) complete(1)])
  moreover have "follow l (case result of None \<Rightarrow> [] | Some e \<Rightarrow> [e]) = Some (l\<lparr>lf_tools := open_ids ts\<rparr>)"
    using complete(2) ok(2,3) by (cases result) (auto simp: advance_def)
  ultimately show ?thesis by blast
qed

end
