(* ===== verification/Acp_Prompt.thy ===== *)
theory Acp_Prompt
  imports Acp_Thoughts
begin

text \<open>
  A whole ACP prompt: begun, updated any number of times, and ended once.
\<close>

section \<open>Tool updates\<close>

lemma source_kept:
  assumes "nextEventId kind s = (Inr source, t)" "mirrors exact env s l"
  shows "mirrors exact env t l"
  using assms(1) by (intro mirrors_cong [OF assms(2)]) (auto simp: nextEventId_def Let_def)

lemma tool_emits:
  assumes "sound_env env"
  shows "emits True True env (tool_update env update is_update)"
  unfolding emits_def
proof (intro allI impI)
  fix s l fs t
  assume run: "tool_update env update is_update s = (Inr fs, t)" and m0: "mirrors True env s l"
  show "\<exists>l'. follow l fs = Some l' \<and> mirrors True env t l'"
  proof (cases "readNonEmptyString update ''toolCallId''")
    case None
    then show ?thesis using run m0 by (simp add: tool_update_def)
  next
    case (Some i)
    let ?patch = "\<lambda>u. tools_patch env (toolParentMessageId u)
      (map_option (toRuntimeToolStatus \<circ> Some) (provider_readString update ''status'')) i update"
    obtain r parentStart u projected w where parent: "ensureToolParentMessage env i s = (Inr parentStart, u)"
      and patch: "on_tools (total (?patch u)) u = (Inr projected, w)"
      and rest: "(if \<not> tp_changed projected then returnS parentStart
          else bindS (on_tools (tools_ensureStarted (toolParentMessageId u) r (tool_title (tp_payload projected)) i)) (\<lambda>started.
          bindS (nextEventId (if is_update then ''tool-call-update'' else ''tool-call'')) (\<lambda>source.
          let updated = (plain_event (ToolCallUpdated (tp_payload projected)) (Some r))
                \<lparr>ae_delivery := (if is_update
                    then Some (if tp_status projected = ToolRunning then DeliverBestEffort else DeliverLossless)
                    else None), ae_source := Some source\<rparr>
          in bindS (if tp_status projected = ToolRunning then returnS None
                    else on_tools (tools_complete env r (tp_status projected) i update)) (\<lambda>completion.
             returnS (parentStart @ started @ [updated] @ (case completion of None \<Rightarrow> [] | Some e \<Rightarrow> [e])))))) w
          = (Inr fs, t)"
      using run unfolding tool_update_def Some option.case
      by (elim bindS_InrE) (auto simp: requireRunId_run)
    from emitsD [OF tool_parent_emits [OF assms] parent m0]
    obtain k where k: "follow l parentStart = Some k" "mirrors True env u k" by auto
    show ?thesis
    proof (cases "tp_changed projected")
      case False
      obtain ts where ts: "?patch u (as_tools u) = (projected, ts)" "w = u\<lparr>as_tools := ts\<rparr>"
        using patch by (auto simp: on_tools_def total_def split: prod.splits)
      have "tools_ok (as_tools u)" "lf_tools k = open_ids (as_tools u)" using k(2) by (simp_all add: mirrors_def)
      then have "tools_ok ts" "open_ids ts = lf_tools k" using patch_kept [OF _ ts(1) False] by simp_all
      then have "mirrors True env w k" using mirrors_tools [OF k(2), of ts] ts(2) by simp
      then show ?thesis using k(1) rest False by simp
    next
      case True
      obtain started x source y completion where
        started: "on_tools (tools_ensureStarted (toolParentMessageId u) r (tool_title (tp_payload projected)) i) w = (Inr started, x)"
        and source: "nextEventId (if is_update then ''tool-call-update'' else ''tool-call'') x = (Inr source, y)"
        and completes: "(if tp_status projected = ToolRunning then returnS None
                    else on_tools (tools_complete env r (tp_status projected) i update)) y = (Inr completion, t)"
        and fs: "fs = parentStart @ started @ [(plain_event (ToolCallUpdated (tp_payload projected)) (Some r))
                \<lparr>ae_delivery := (if is_update
                    then Some (if tp_status projected = ToolRunning then DeliverBestEffort else DeliverLossless)
                    else None), ae_source := Some source\<rparr>] @ (case completion of None \<Rightarrow> [] | Some e \<Rightarrow> [e])"
        using rest True by (auto simp: Let_def elim!: bindS_InrE)
      from patch_start_emits [OF k(2) patch started]
      obtain k' where k': "follow k started = Some k'" "mirrors True env x k'" by auto
      have y: "mirrors True env y k'" using source_kept [OF source k'(2)] .
      have last: "\<exists>l'. follow k' (case completion of None \<Rightarrow> [] | Some e \<Rightarrow> [e]) = Some l' \<and> mirrors True env t l'"
      proof (cases "tp_status projected = ToolRunning")
        case True
        then show ?thesis using completes y by simp
      next
        case False
        then show ?thesis using completes complete_emits [OF y] by simp
      qed
      have "\<not> lf_over k'" using k'(2) by (simp add: mirrors_def)
      then have "advance k' ((plain_event (ToolCallUpdated (tp_payload projected)) (Some r))
                \<lparr>ae_delivery := (if is_update
                    then Some (if tp_status projected = ToolRunning then DeliverBestEffort else DeliverLossless)
                    else None), ae_source := Some source\<rparr>) = Some k'"
        by (intro advance_neutral) simp_all
      then show ?thesis using k(1) k'(1) last unfolding fs by (simp add: follow_events_append)
    qed
  qed
qed

section \<open>Bounds on what is retained\<close>

lemma retained_run:
  assumes "assertRetainedTurnState env s = (Inr x, t)"
  shows "t = s\<lparr>as_tools := trimCompletedHistory env (as_tools s)\<rparr>"
    "retained_items t \<le> MAX_ACP_RETAINED_TURN_ITEMS" "ac_json_bytes env (retained_state t) \<le> MAX_ACP_RETAINED_TURN_BYTES"
  using assms by (auto simp: assertRetainedTurnState_def Let_def split: if_splits)

lemma retained_mirrors:
  assumes "assertRetainedTurnState env s = (Inr x, t)" "mirrors exact env s l"
  shows "mirrors exact env t l"
proof -
  have ok: "tools_ok (as_tools s)" "lf_tools l = open_ids (as_tools s)" using assms(2) by (simp_all add: mirrors_def)
  have "mirrors exact env t (l\<lparr>lf_tools := open_ids (trimCompletedHistory env (as_tools s))\<rparr>)"
    unfolding retained_run(1) [OF assms(1)] by (rule mirrors_tools [OF assms(2) trim_ok(1) [OF ok(1)]])
  then show ?thesis using trim_ok(2) [OF ok(1), of env] by (simp add: ok(2) [symmetric])
qed

section \<open>Updates and permission requests\<close>

lemma session_emits:
  assumes "sound_env env"
  shows "emits True True env (session_update env update kind)"
proof -
  have plain: "emits True True env (returnS es)" if "list_all neutral es" for es
    using that by (auto simp: emits_def follow_neutral mirrors_def)
  have silent: "emits True True env (returnS [])" by (rule plain) simp
  show ?thesis
  proof (cases kind)
    case None
    show ?thesis unfolding session_update_def None option.case by (rule silent)
  next
    case (Some k)
    show ?thesis unfolding session_update_def Some option.case
      by (simp add: message_emits [OF assms] thought_emits [OF assms] tool_emits [OF assms] plain silent
          update_events_neutral)
  qed
qed

lemma checkpoint_run: "with_checkpoint m s = (Inr x, t) \<longleftrightarrow> m s = (Inr x, t)"
  by (auto simp: with_checkpoint_def split: prod.splits sum.splits)

lemma translate_emits:
  assumes "sound_env env"
  shows "emits True True env (translateUpdate env params)"
  unfolding emits_def
proof (intro allI impI)
  fix s l es t
  assume run: "translateUpdate env params s = (Inr es, t)" and m0: "mirrors True env s l"
  define update kind where "update = readRecord (Some (record_param params)) ''update''"
    and "kind = provider_readString update ''sessionUpdate''"
  define retains where "retains = (as_runId s \<noteq> None \<and> (case kind of None \<Rightarrow> False | Some k \<Rightarrow> k \<in> set retaining_kinds))"
  have "bindS (session_update env update kind) (\<lambda>events.
          bindS (if retains then assertRetainedTurnState env else returnS ()) (\<lambda>_.
            liftS (assertBoundedLosslessEvents env events))) s = (Inr es, t)"
    using run unfolding translateUpdate_def bindS_readS Let_def update_def [symmetric] kind_def [symmetric]
      retains_def [symmetric]
    by (cases retains) (simp_all add: checkpoint_run)
  then obtain fs u x where u: "session_update env update kind s = (Inr fs, u)"
    and kept: "(if retains then assertRetainedTurnState env else returnS ()) u = (Inr x, t)"
    and es: "assertBoundedLosslessEvents env fs = Inr es"
    by (auto elim!: bindS_InrE)
  from emitsD [OF session_emits [OF assms] u m0] obtain k where k: "follow l fs = Some k" "mirrors True env u k" by auto
  have "mirrors True env t k" using kept k(2) retained_mirrors by (cases retains) auto
  then show "\<exists>l'. follow l es = Some l' \<and> mirrors True env t l'" using k(1) bounded_events [OF es] by auto
qed

lemma permission_events_emit:
  assumes "sound_env env" "mirrors True env s l" "list_all neutral (pt_events translation)"
    "permission_events env translation r s = (Inr es, t)"
  shows "\<exists>l'. follow l es = Some l' \<and> mirrors True env t l'"
proof -
  obtain parentStart u projected w started x y where
      parent: "ensureToolParentMessage env (pt_targetItemId translation) s = (Inr parentStart, u)"
    and patch: "on_tools (total (tools_patch env None
              (Some (toRuntimeToolStatus (provider_readString (pt_toolCall translation) ''status'')))
              (pt_targetItemId translation) (pt_toolCall translation))) u = (Inr projected, w)"
    and started: "on_tools (tools_ensureStarted (toolParentMessageId w) r (ap_title (pt_request translation))
              (pt_targetItemId translation)) w = (Inr started, x)"
    and kept: "assertRetainedTurnState env x = (Inr y, t)"
    and es: "assertBoundedLosslessEvents env (parentStart @ started
       @ map (\<lambda>e. case ae_body e of ToolCallUpdated _ \<Rightarrow> e\<lparr>ae_body := ToolCallUpdated (tp_payload projected)\<rparr>
                   | _ \<Rightarrow> e) (pt_events translation)) = Inr es"
    using assms(4) unfolding permission_events_def by (auto elim!: bindS_InrE)
  from emitsD [OF tool_parent_emits [OF assms(1)] parent assms(2)]
  obtain k where k: "follow l parentStart = Some k" "mirrors True env u k" by auto
  from patch_start_emits [OF k(2) patch started]
  obtain k' where k': "follow k started = Some k'" "mirrors True env x k'" by auto
  let ?map = "\<lambda>e. case ae_body e of ToolCallUpdated _ \<Rightarrow> e\<lparr>ae_body := ToolCallUpdated (tp_payload projected)\<rparr> | _ \<Rightarrow> e"
  have "neutral (?map e)" if "neutral e" for e using that by (auto simp: neutral_def split: acp_body.splits)
  then have "list_all neutral (map ?map (pt_events translation))"
    using assms(3) by (simp add: list.pred_map list_all_iff)
  moreover have "\<not> lf_over k'" using k'(2) by (simp add: mirrors_def)
  ultimately have "follow k' (map ?map (pt_events translation)) = Some k'" by (rule follow_neutral)
  then have "follow l es = Some k'" using k(1) k'(1) bounded_events [OF es] by (simp add: follow_events_append)
  then show ?thesis using retained_mirrors [OF kept k'(2)] by blast
qed

lemma permission_emits:
  assumes "sound_env env" "mirrors True env s l" "translatePermission env params requestId s = (Inr translation, t)"
  shows "\<exists>l'. follow l (pt_events translation) = Some l' \<and> mirrors True env t l'"
proof -
  obtain r where r: "as_runId s = Some r" using assms(2) by (auto simp: mirrors_def)
  let ?p = "toPermissionRequest env params requestId (Some r)"
  show ?thesis
  proof (cases "pt_toolCall ?p")
    case None
    then obtain es where "assertBoundedLosslessEvents env (pt_events ?p) = Inr es" "translation = ?p\<lparr>pt_events := es\<rparr>" "t = s"
      using assms(3) r unfolding translatePermission_def by (auto simp: Let_def elim!: bindS_InrE)
    moreover have "\<not> lf_over l" using assms(2) by (simp add: mirrors_def)
    ultimately show ?thesis
      using assms(2) follow_neutral [OF permission_events_neutral [of env params requestId "Some r"]]
      by (auto dest: bounded_events)
  next
    case (Some call)
    then obtain es where "permission_events env ?p r s = (Inr es, t)" "translation = ?p\<lparr>pt_events := es\<rparr>"
      using assms(3) r unfolding translatePermission_def by (auto simp: Let_def checkpoint_run elim!: bindS_InrE)
    then show ?thesis using permission_events_emit [OF assms(1,2) permission_events_neutral] by simp
  qed
qed

end
