(* ===== verification/Acp_Turn.thy ===== *)
theory Acp_Turn
  imports Acp_Transcript
begin

text \<open>
  src/src/runtimes/acp/acp-turn-controller.ts: how a turn's transcript is driven, from the
  prompt to its terminal events, and what can cancel it.  Promises, timers and the wire are
  not modelled; an abort signal is the reason of its first abort.
\<close>

section \<open>Terminal events\<close>

datatype stop_reason = Stop_cancelled | Stop_end_turn | Stop_max_tokens | Stop_max_turn_requests | Stop_refusal

fun stop_reason_name :: "stop_reason \<Rightarrow> string" where
  "stop_reason_name Stop_cancelled = ''cancelled''"
| "stop_reason_name Stop_end_turn = ''end_turn''"
| "stop_reason_name Stop_max_tokens = ''max_tokens''"
| "stop_reason_name Stop_max_turn_requests = ''max_turn_requests''"
| "stop_reason_name Stop_refusal = ''refusal''"

definition stop_reasons :: "stop_reason list" where
  "stop_reasons = [Stop_cancelled, Stop_end_turn, Stop_max_tokens, Stop_max_turn_requests, Stop_refusal]"

definition parsePromptStopReason :: "json \<Rightarrow> stop_reason option" where
  "parsePromptStopReason v = find (\<lambda>r. v = JStr (stop_reason_name r)) stop_reasons"

fun acp_terminal_body :: "acp_body \<Rightarrow> bool" where
  "acp_terminal_body (RunCancelled _) = True"
| "acp_terminal_body (RunCompleted _ _) = True"
| "acp_terminal_body (RunFailed _ _ _ _ _) = True"
| "acp_terminal_body _ = False"

text \<open>\<open>#pushTerminalEvents\<close>: the closures and the terminal event, or the error.\<close>

definition split_terminal :: "acp_event list \<Rightarrow> unit + (acp_event list \<times> acp_event option)" where
  "split_terminal events =
     (if events = [] then Inr ([], None)
      else if acp_terminal_body (ae_body (last events)) then Inr (butlast events, Some (last events))
      else Inl ())"

text \<open>
  \<open>publishTerminal\<close>: the terminal events are prepared first, and pushed after the thought's
  contents; what fails puts the transcript back.
\<close>

definition publishTerminal ::
    "acp_env \<Rightarrow> (char thought_update \<Rightarrow> nat) \<Rightarrow> acp_event list acp \<Rightarrow> (acp_event list \<times> acp_event list) acp" where
  "publishTerminal env update_bytes prepare =
     with_checkpoint (bindS prepare (\<lambda>events.
       bindS (thoughtContentEvents env update_bytes) (\<lambda>thought. returnS (thought, events))))"

text \<open>How a turn may end; cancelling a transcript that is not begun gives nothing.\<close>

datatype turn_ending =
  EndPrompt stop_reason "json option" string
| EndCancelled
| EndFailed string string

definition prepare_ending :: "acp_env \<Rightarrow> turn_ending \<Rightarrow> acp_event list acp" where
  "prepare_ending env ending =
     (case ending of
        EndPrompt r usage requestedBy \<Rightarrow> completePrompt env (stop_reason_name r) usage requestedBy
      | EndCancelled \<Rightarrow>
          bindS (readS as_runId) (\<lambda>run.
            if run = None then returnS [] else completePrompt env ''cancelled'' None ''user'')
      | EndFailed code message \<Rightarrow> failPrompt env code message False)"

section \<open>Updates\<close>

text \<open>What the provider sends during the turn; a refused update gives no event.\<close>

datatype acp_input =
  SessionUpdate json
| PermissionRequest json string

definition feed :: "acp_env \<Rightarrow> acp_input \<Rightarrow> acp_state \<Rightarrow> acp_event list \<times> acp_state" where
  "feed env input s =
     (case input of
        SessionUpdate params \<Rightarrow>
          (case translateUpdate env params s of (Inl e, t) \<Rightarrow> ([], t) | (Inr es, t) \<Rightarrow> (es, t))
      | PermissionRequest params requestId \<Rightarrow>
          (case translatePermission env params requestId s of
             (Inl e, t) \<Rightarrow> ([], t) | (Inr translation, t) \<Rightarrow> (pt_events translation, t)))"

fun feed_all :: "acp_env \<Rightarrow> acp_input list \<Rightarrow> acp_state \<Rightarrow> acp_event list \<times> acp_state" where
  "feed_all env [] s = ([], s)"
| "feed_all env (input # inputs) s =
     (let (es, t) = feed env input s; (fs, u) = feed_all env inputs t in (es @ fs, u))"

section \<open>Cancellation\<close>

datatype abort_reason = AbortedForCancel string | AbortedByError string

record acp_turn =
  at_cancellation :: "abort_reason option"  \<comment> \<open>the cancellation signal\<close>
  at_cancellationReason :: "string option"
  at_byHost :: bool
  at_drainDeadline :: bool
  at_fatal :: "string option"
  at_promptCancellation :: "abort_reason option"
  at_promptResponseAccepted :: bool
  at_providerPromptAdmitted :: bool
  at_resumeAborted :: bool
  at_terminalStarted :: bool

definition new_turn :: acp_turn where
  "new_turn =
     \<lparr>at_cancellation = None, at_cancellationReason = None, at_byHost = False, at_drainDeadline = False,
      at_fatal = None, at_promptCancellation = None, at_promptResponseAccepted = False,
      at_providerPromptAdmitted = False, at_resumeAborted = False, at_terminalStarted = False\<rparr>"

definition abort_with :: "abort_reason \<Rightarrow> abort_reason option \<Rightarrow> abort_reason option" where
  "abort_with reason signal = (if signal = None then Some reason else signal)"

definition requestCancellation :: "string \<Rightarrow> bool \<Rightarrow> bool \<Rightarrow> acp_turn \<Rightarrow> acp_turn" where
  "requestCancellation reason allowTerminalStarted interruptPrompt t =
     (if at_cancellationReason t \<noteq> None \<or> at_fatal t \<noteq> None \<or> at_terminalStarted t \<and> \<not> allowTerminalStarted then t
      else t\<lparr>at_cancellationReason := Some reason, at_drainDeadline := True,
             at_cancellation := abort_with (AbortedForCancel reason) (at_cancellation t),
             at_promptCancellation :=
               (if interruptPrompt then abort_with (AbortedForCancel reason) (at_promptCancellation t)
                else at_promptCancellation t)\<rparr>)"

definition isCancelling :: "acp_turn option \<Rightarrow> bool" where
  "isCancelling active = (case active of None \<Rightarrow> False | Some t \<Rightarrow> at_cancellationReason t \<noteq> None)"

definition abort_turn :: "string \<Rightarrow> acp_turn option \<Rightarrow> acp_turn option" where
  "abort_turn reason =
     map_option (\<lambda>t. requestCancellation reason False False (t\<lparr>at_byHost := True, at_resumeAborted := True\<rparr>))"

text \<open>What the caller waits for: nothing more, the turn's settling, or to be stopped (\<open>null\<close>).\<close>

datatype fatal_route = FatalResolved | FatalAwaitsTurn | FatalRouted

definition routeFatal :: "string \<Rightarrow> acp_turn option \<Rightarrow> fatal_route \<times> acp_turn option" where
  "routeFatal err active =
     (case active of
        None \<Rightarrow> (FatalResolved, None)
      | Some t \<Rightarrow>
          if at_promptResponseAccepted t \<or> at_terminalStarted t then (FatalAwaitsTurn, Some t)
          else (FatalRouted, Some (t\<lparr>at_fatal := (if at_fatal t = None then Some err else at_fatal t),
                  at_cancellation := abort_with (AbortedByError err) (at_cancellation t)\<rparr>)))"

text \<open>\<open>cancel\<close>: the turn, and whether the provider is told.\<close>

definition cancel_turn :: "bool \<Rightarrow> acp_turn option \<Rightarrow> bool \<times> acp_turn option" where
  "cancel_turn has_session active =
     (case active of
        None \<Rightarrow> (False, None)
      | Some t \<Rightarrow>
          if \<not> has_session \<or> at_terminalStarted t then (False, Some t)
          else (at_providerPromptAdmitted t,
                Some (requestCancellation ''ACP driver backend turn was cancelled.'' False True (t\<lparr>at_byHost := True\<rparr>))))"

text \<open>How the run's own signal cancels; \<open>resumable\<close> is a cancellation that may be resumed from.\<close>

definition on_abort :: "bool \<Rightarrow> string option \<Rightarrow> acp_turn \<Rightarrow> acp_turn" where
  "on_abort resumable reason t =
     requestCancellation (case reason of Some r \<Rightarrow> r | None \<Rightarrow> ''ACP driver backend turn was cancelled.'') True True
       (t\<lparr>at_byHost := True, at_resumeAborted := at_resumeAborted t \<or> \<not> resumable\<rparr>)"

text \<open>The provider's answer is taken unless the turn has failed.\<close>

definition prompt_answered :: "json \<Rightarrow> acp_turn \<Rightarrow> string + (stop_reason \<times> acp_turn)" where
  "prompt_answered stopReason t =
     (case at_fatal t of
        Some err \<Rightarrow> Inl err
      | None \<Rightarrow>
          (case parsePromptStopReason stopReason of
             None \<Rightarrow> Inl ''ACP prompt response contains an invalid stop reason.''
           | Some r \<Rightarrow>
               let answered = t\<lparr>at_promptResponseAccepted := True\<rparr>
               in Inr (r, if r = Stop_cancelled
                          then requestCancellation ''ACP provider cancelled the turn.'' False True answered
                          else answered)))"

text \<open>The ending, once everything under way has drained.\<close>

definition ending_of :: "json option \<Rightarrow> stop_reason \<Rightarrow> acp_turn \<Rightarrow> turn_ending" where
  "ending_of usage r t =
     EndPrompt (if at_cancellationReason t \<noteq> None then Stop_cancelled else r) usage
       (if r = Stop_cancelled \<and> \<not> at_byHost t then ''provider'' else ''user'')"

section \<open>A cancelled turn stays cancelled\<close>

inductive turn_step :: "acp_turn \<Rightarrow> acp_turn \<Rightarrow> bool" where
  aborts: "abort_turn reason (Some t) = Some u \<Longrightarrow> turn_step t u"
| fails: "routeFatal err (Some t) = (route, Some u) \<Longrightarrow> turn_step t u"
| cancels: "cancel_turn has_session (Some t) = (told, Some u) \<Longrightarrow> turn_step t u"
| signals: "turn_step t (on_abort resumable reason t)"
| admits: "turn_step t (t\<lparr>at_providerPromptAdmitted := True\<rparr>)"
| answers: "prompt_answered v t = Inr (r, u) \<Longrightarrow> turn_step t u"
| terminates: "turn_step t (t\<lparr>at_terminalStarted := True\<rparr>)"

inductive_cases turn_stepE: "turn_step t u"

lemma request_keeps:
  "at_cancellationReason t = Some r \<Longrightarrow> requestCancellation reason a b t = t"
  "at_fatal (requestCancellation reason a b t) = at_fatal t"
  by (auto simp: requestCancellation_def)

lemma turn_step_keeps:
  assumes "turn_step t u"
  shows "at_cancellationReason t = Some r \<Longrightarrow> at_cancellationReason u = Some r"
    "at_fatal t = Some err \<Longrightarrow> at_fatal u = Some err \<and> at_cancellationReason u = at_cancellationReason t"
  using assms
  by (auto elim!: turn_stepE simp: abort_turn_def routeFatal_def cancel_turn_def on_abort_def prompt_answered_def
      requestCancellation_def Let_def split: if_splits option.splits)

text \<open>So a cancelled turn ends cancelled, and a turn that failed first is never cancelled.\<close>

lemma cancelled_turn_ends_cancelled:
  assumes "turn_step\<^sup>*\<^sup>* t u" "at_cancellationReason t = Some r"
  shows "\<exists>requestedBy. ending_of usage answer u = EndPrompt Stop_cancelled usage requestedBy"
proof -
  have "at_cancellationReason u = Some r"
    using assms by (induction rule: rtranclp_induct) (auto dest: turn_step_keeps(1))
  then show ?thesis by (simp add: ending_of_def)
qed

lemma failed_turn_is_not_cancelled:
  assumes "turn_step\<^sup>*\<^sup>* t u" "at_fatal t = Some err"
  shows "at_fatal u = Some err \<and> at_cancellationReason u = at_cancellationReason t"
  using assms by (induction rule: rtranclp_induct) (auto dest: turn_step_keeps(2))

end
