(* ===== verification/Acp_Endings.thy ===== *)
theory Acp_Endings
  imports Acp_Prompt Acp_Turn
begin

text \<open>
  How a turn ends: whatever was open is closed, and the run's ending is the last event.
\<close>

section \<open>Ending the message and the thought\<close>

definition message_ending :: "(string \<Rightarrow> acp_body) \<Rightarrow> bool" where
  "message_ending ending \<longleftrightarrow>
     (\<forall>i. (\<exists>r. ending i = MessageCancelled i r) \<or> (\<exists>c m b r. ending i = MessageFailed i c m b r))"

definition thought_ending :: "(string \<Rightarrow> acp_body) \<Rightarrow> bool" where
  "thought_ending ending \<longleftrightarrow>
     (\<forall>i. ending i = ThoughtCompleted i \<or> (\<exists>m r. ending i = ThoughtCancelled i m r))"

lemma drop_run:
  assumes "drop_message env ending s = (Inr es, t)"
  shows "as_active s = None \<and> es = [] \<and> t = s
    \<or> (\<exists>m r. as_active s = Some m \<and> es = [plain_event (ending (am_id m)) (Some r)]
        \<and> t = settle_native env m (s\<lparr>as_active := None, as_last := None\<rparr>))"
  using assms unfolding drop_message_def by (auto simp: bindS_Inr requireRunId_run split: option.splits)

lemma drop_emits:
  assumes "message_ending ending"
  shows "emits False True env (drop_message env ending)"
  unfolding emits_def
proof (intro allI impI)
  fix s l es t
  assume run: "drop_message env ending s = (Inr es, t)" and m0: "mirrors False env s l"
  consider "as_active s = None" "es = []" "t = s"
    | m r where "as_active s = Some m" "es = [plain_event (ending (am_id m)) (Some r)]"
        "t = settle_native env m (s\<lparr>as_active := None, as_last := None\<rparr>)"
    using drop_run [OF run] by (elim disjE exE conjE) auto
  then show "\<exists>l'. follow l es = Some l' \<and> mirrors True env t l'"
  proof cases
    case 1
    then show ?thesis using m0 by (auto simp: mirrors_def)
  next
    case 2
    have l: "lf_message l = Some (am_id m)" "\<not> lf_over l" using m0 2(1) by (auto simp: mirrors_def)
    have "ending (am_id m) = MessageCancelled (am_id m) x \<Longrightarrow> follow l es = Some (l\<lparr>lf_message := None\<rparr>)"
      "ending (am_id m) = MessageFailed (am_id m) c y b z \<Longrightarrow> follow l es = Some (l\<lparr>lf_message := None\<rparr>)" for x c y b z
      using l unfolding 2(2) by (simp_all add: advance_def plain_event_def ends_message_def)
    then have "follow l es = Some (l\<lparr>lf_message := None\<rparr>)" using assms unfolding message_ending_def by blast
    moreover have "mirrors True env t (l\<lparr>lf_message := None\<rparr>)"
      using m0 unfolding 2(3) mirrors_def by simp
    ultimately show ?thesis by blast
  qed
qed

lemma drop_active: "drop_message env ending s = (Inr es, t) \<Longrightarrow> as_active t = None"
  using drop_run by fastforce

lemma end_thought_run:
  assumes "end_thought ending s = (Inr es, t)"
  shows "\<not> (as_thoughtStarted s \<and> \<not> as_thoughtCompleted s) \<and> es = [] \<and> t = s
    \<or> (as_thoughtStarted s \<and> (\<exists>i r. as_thoughtId s = Some i
        \<and> es = [plain_event (ending i) (Some r)] \<and> t = s\<lparr>as_thoughtCompleted := True\<rparr>))"
  using assms unfolding end_thought_def
  by (auto simp: bindS_Inr requireRunId_run requireThoughtId_run split: if_splits)

lemma end_thought_follow:
  assumes "thought_ending ending" "end_thought ending s = (Inr es, t)" "mirrors exact env s l"
  shows "\<exists>k. follow l es = Some k \<and> (\<forall>i. lf_thought k \<noteq> OpenThought i) \<and> lf_message k = lf_message l
    \<and> lf_tools k = lf_tools l \<and> \<not> lf_over k \<and> as_tools t = as_tools s"
proof -
  consider "\<not> as_thoughtStarted s" "es = []" "t = s"
    | i r where "as_thoughtStarted s" "as_thoughtId s = Some i" "es = [plain_event (ending i) (Some r)]"
        "t = s\<lparr>as_thoughtCompleted := True\<rparr>"
    using end_thought_run [OF assms(2)] assms(3) unfolding mirrors_def by blast
  then show ?thesis
  proof cases
    case 1
    then show ?thesis using assms(3) by (auto simp: mirrors_def)
  next
    case 2
    have l: "lf_thought l = OpenThought i" "\<not> lf_over l" using assms(3) 2(1,2) by (simp_all add: mirrors_def)
    have "ending i = ThoughtCompleted i \<Longrightarrow> follow l es = Some (l\<lparr>lf_thought := ClosedThought\<rparr>)"
      "ending i = ThoughtCancelled i x y \<Longrightarrow> follow l es = Some (l\<lparr>lf_thought := ClosedThought\<rparr>)" for x y
      using l unfolding 2(3) by (simp_all add: advance_def plain_event_def ends_thought_def)
    then have "follow l es = Some (l\<lparr>lf_thought := ClosedThought\<rparr>)"
      using assms(1) unfolding thought_ending_def by blast
    then show ?thesis using l(2) 2(4) by simp
  qed
qed

section \<open>Closing the open tool calls\<close>

definition open_entries :: "(string \<times> tool_state) list \<Rightarrow> string set" where
  "open_entries tools = {i. \<exists>t. (i, t) \<in> set tools \<and> open_tool t}"

lemma open_entries_ids: "tools_ok ts \<Longrightarrow> open_entries (ts_tools ts) = open_ids ts"
  unfolding open_entries_def open_ids_def open_tool_def tools_ok_def by (auto simp: map_of_eq_Some_iff)

lemma follow_closing:
  assumes "distinct (map fst tools)" "open_entries tools \<subseteq> lf_tools l" "\<not> lf_over l"
  shows "follow l (concat (map (\<lambda>(i, t). if open_tool t then closing_events err r status i else []) tools))
    = Some (l\<lparr>lf_tools := lf_tools l - open_entries tools\<rparr>)"
  using assms
proof (induction tools arbitrary: l)
  case Nil
  then show ?case by (simp add: open_entries_def)
next
  case (Cons c tools)
  obtain i t where c: "c = (i, t)" by (cases c)
  have open_c: "open_entries (c # tools) = (if open_tool t then insert i (open_entries tools) else open_entries tools)"
    by (auto simp: open_entries_def c)
  have "i \<notin> open_entries tools" using Cons.prems(1) by (force simp: open_entries_def c)
  show ?case
  proof (cases "open_tool t")
    case True
    then have i: "i \<in> lf_tools l" and sub: "open_entries tools \<subseteq> lf_tools l - {i}"
      using Cons.prems(2) \<open>i \<notin> open_entries tools\<close> open_c by auto
    have "follow l (closing_events err r status i) = Some (l\<lparr>lf_tools := lf_tools l - {i}\<rparr>)"
      using i Cons.prems(3) by (simp add: closing_events_def advance_def plain_event_def)
    moreover have "lf_tools l - insert i (open_entries tools) = lf_tools l - {i} - open_entries tools" by blast
    ultimately show ?thesis
      using Cons.IH [of "l\<lparr>lf_tools := lf_tools l - {i}\<rparr>"] Cons.prems True sub open_c by (simp add: c follow_events_append)
  next
    case False
    then show ?thesis using Cons.IH [of l] Cons.prems open_c by (simp add: c)
  qed
qed

lemma follow_complete_open:
  assumes "tools_ok (as_tools s)" "lf_tools l = open_ids (as_tools s)" "\<not> lf_over l"
    "on_tools (total (tools_completeOpen env err r status)) s = (Inr closures, t)"
  shows "follow l closures = Some (l\<lparr>lf_tools := {}\<rparr>)"
proof -
  have "closures = concat (map (\<lambda>(i, t). if open_tool t then closing_events err r status i else []) (ts_tools (as_tools s)))"
    using assms(4) by (auto simp: on_tools_def total_def tools_completeOpen_def)
  then show ?thesis
    using follow_closing [of "ts_tools (as_tools s)" l err r status] assms(1,2,3) open_entries_ids [OF assms(1)]
    by (simp add: tools_ok_def)
qed

text \<open>Everything closed, then what the protocol does not see, then the run's ending.\<close>

lemma follow_ending:
  assumes "lf_message l = None" "\<forall>i. lf_thought l \<noteq> OpenThought i" "lf_tools l = {}" "\<not> lf_over l"
    "list_all neutral es" "acp_terminal_body body"
  shows "follow l (es @ [plain_event body r]) = Some (l\<lparr>lf_over := True\<rparr>)"
  using assms(1,2,3,4,6) follow_neutral [OF assms(5,4)]
  by (cases body) (simp_all add: follow_events_append advance_def plain_event_def ends_run_def)

section \<open>The end of the prompt\<close>

lemma promote_emits:
  assumes "sound_env env"
  shows "emits True False env (promoteThought env)"
  unfolding emits_def
proof (intro allI impI)
  fix s l es t
  assume run: "promoteThought env s = (Inr es, t)" and m0: "mirrors True env s l"
  have unchanged: "mirrors False env u l" if "u = s \<or> u = clearThoughtFallback s" for u
    using mirrors_weaken [OF m0] that mirrors_cong [of False env s l "clearThoughtFallback s"]
    by (auto simp: clearThoughtFallback_def)
  consider (same) "es = []" "t = s \<or> t = clearThoughtFallback s"
    | (promoted) native u where "as_active s = None"
        "startUnsettledMessage env (Some native) (clearThoughtFallback s) = (Inr es, u)"
        "t = append_text (as_fallbackText s) u"
  proof (cases "as_active s = None \<and> as_fallbackNative s \<noteq> None \<and> visible_text (as_fallbackText s)")
    case False
    then show ?thesis using run same by (auto simp: promoteThought_def split: if_splits option.splits)
  next
    case True
    then obtain native where "as_fallbackNative s = Some native" by blast
    with True have "bindS (startMessage env native) (\<lambda>started. case started of None \<Rightarrow> returnS [] | Some events \<Rightarrow>
          bindS (changeS (append_text (as_fallbackText s))) (\<lambda>_. returnS events)) (clearThoughtFallback s) = (Inr es, t)"
      using run by (simp add: promoteThought_def)
    then obtain started u where u: "startMessage env native (clearThoughtFallback s) = (Inr started, u)"
      and rest: "((case started of None \<Rightarrow> returnS [] | Some events \<Rightarrow>
          bindS (changeS (append_text (as_fallbackText s))) (\<lambda>_. returnS events)) :: acp_event list acp) u = (Inr es, t)"
      by (rule bindS_InrE) (rule that)
    show ?thesis
    proof (cases started)
      case None
      then show ?thesis using same rest start_settled_run [OF u] by simp
    next
      case (Some fs)
      then show ?thesis using promoted True rest start_settled_run [OF u] by simp
    qed
  qed
  then show "\<exists>l'. follow l es = Some l' \<and> mirrors False env t l'"
  proof cases
    case same
    then show ?thesis using unchanged by auto
  next
    case promoted
    have "mirrors True env (clearThoughtFallback s) l"
      using mirrors_cong [OF m0, of "clearThoughtFallback s"] by (simp add: clearThoughtFallback_def)
    from emitsD [OF start_emits [OF assms] promoted(2) this]
    obtain k where k: "follow l es = Some k" "mirrors True env u k" by auto
    obtain i where u: "as_active u = Some \<lparr>am_id = i, am_native = Some native, am_text = []\<rparr>"
      using start_run [OF promoted(2)] promoted(1) by (auto simp: clearThoughtFallback_def)
    have "mirrors False env t k" using k(2) u unfolding promoted(3) mirrors_def append_text_def by simp
    then show ?thesis using k(1) by blast
  qed
qed

text \<open>From a message and a thought just ended to the end of the run.\<close>

lemma ending_follow:
  assumes "mirrors True env s l" "as_active s = None" "thought_ending thinking"
    "end_thought thinking s = (Inr thought, u)"
    "on_tools (total (tools_completeOpen env err r status)) u = (Inr closures, v)"
    "list_all neutral es" "acp_terminal_body body"
  shows "\<exists>l'. follow l (thought @ closures @ es @ [plain_event body r']) = Some l' \<and> lf_over l'"
proof -
  from end_thought_follow [OF assms(3,4,1)] obtain k where k: "follow l thought = Some k"
    "\<forall>i. lf_thought k \<noteq> OpenThought i" "lf_message k = lf_message l" "lf_tools k = lf_tools l" "\<not> lf_over k"
    "as_tools u = as_tools s" by blast
  have l: "tools_ok (as_tools s)" "lf_tools l = open_ids (as_tools s)" "lf_message l = None"
    using assms(1,2) by (simp_all add: mirrors_def)
  have "follow k closures = Some (k\<lparr>lf_tools := {}\<rparr>)"
    using follow_complete_open [OF _ _ k(5) assms(5)] l k(4,6) by simp
  moreover have "follow (k\<lparr>lf_tools := {}\<rparr>) (es @ [plain_event body r']) = Some (k\<lparr>lf_tools := {}, lf_over := True\<rparr>)"
    using follow_ending [of "k\<lparr>lf_tools := {}\<rparr>" es body r'] k l(3) assms(6,7) by simp
  ultimately show ?thesis using k(1) by (simp add: follow_events_append)
qed

lemma run_ending_terminal: "acp_terminal_body (run_ending s stopReason terminalError requestedBy)"
  by (simp add: run_ending_def Let_def split: option.split)

lemma complete_prompt_follow:
  assumes "sound_env env" "mirrors True env s l" "completePrompt env stopReason usage requestedBy s = (Inr es, t)"
  shows "\<exists>l'. follow l es = Some l' \<and> lf_over l'" "es \<noteq> [] \<and> acp_terminal_body (ae_body (last es))"
proof -
  define err where "err = (if stopReason = ''end_turn'' \<or> stopReason = ''cancelled'' then None
                          else Some (''ACP prompt stopped with '' @ stopReason @ ''.''))"
  define status where "status = (if stopReason = ''end_turn'' then ToolCompleted
               else if stopReason = ''cancelled'' then ToolCancelled else ToolFailed)"
  let ?thinking = "\<lambda>i. if stopReason = ''end_turn'' then ThoughtCompleted i
              else ThoughtCancelled i (case err of Some e \<Rightarrow> e | None \<Rightarrow> ''cancelled'') (Some stopReason)"
  let ?usage = "\<lambda>r. case normalizePromptUsage usage of
            None \<Rightarrow> [] | Some payload \<Rightarrow> [plain_event (Projected ''usage.updated'' payload) (Some r)]"
  obtain r promoted u finished v thought w closures x where
      promote: "promoteThought env s = (Inr promoted, u)"
    and finish: "(if stopReason = ''end_turn'' then finishMessage env
            else finishMessageWithOutcome env stopReason err) u = (Inr finished, v)"
    and think: "end_thought ?thinking v = (Inr thought, w)"
    and close: "on_tools (total (tools_completeOpen env err r status)) w = (Inr closures, x)"
    and bounded: "assertBoundedLosslessEvents env (promoted @ finished @ thought @ closures @ ?usage r
       @ [plain_event (run_ending x stopReason err requestedBy) (Some r)]) = Inr es"
    using assms(3) unfolding completePrompt_def Let_def err_def [symmetric] status_def [symmetric]
    by (auto elim!: bindS_InrE simp: requireRunId_run)
  note es = bounded_events [OF bounded]
  from emitsD [OF promote_emits [OF assms(1)] promote assms(2)]
  obtain k where k: "follow l promoted = Some k" "mirrors False env u k" by auto
  have "message_ending (\<lambda>i. if stopReason = ''cancelled'' then MessageCancelled i stopReason
       else MessageFailed i (''acp.'' @ stopReason)
         (case err of Some e \<Rightarrow> e | None \<Rightarrow> ''ACP prompt stopped with '' @ stopReason @ ''.'') False (Some stopReason))"
    by (auto simp: message_ending_def intro: exI [of _ False])
  note drop = drop_emits [OF this]
  have "as_active v = None \<and> (\<exists>k'. follow k finished = Some k' \<and> mirrors True env v k')"
  proof (cases "stopReason = ''end_turn''")
    case True
    then show ?thesis using finish finish_frame(1) emitsD [OF finish_emits [OF assms(1)] _ k(2)] by auto
  next
    case False
    then show ?thesis using finish drop_active emitsD [OF drop _ k(2)]
      unfolding finishMessageWithOutcome_def by auto
  qed
  then obtain k' where k': "follow k finished = Some k'" "mirrors True env v k'" "as_active v = None" by blast
  have "thought_ending ?thinking" by (simp add: thought_ending_def)
  moreover have "list_all neutral (?usage r)" by (simp split: option.split)
  ultimately obtain l' where "follow k' (thought @ closures @ ?usage r
       @ [plain_event (run_ending x stopReason err requestedBy) (Some r)]) = Some l'" "lf_over l'"
    using ending_follow [OF k'(2,3) _ think close _ run_ending_terminal] by blast
  then show "\<exists>l'. follow l es = Some l' \<and> lf_over l'" using k(1) k'(1) unfolding es by (simp add: follow_events_append)
  show "es \<noteq> [] \<and> acp_terminal_body (ae_body (last es))"
    unfolding es by (simp add: plain_event_def run_ending_terminal)
qed

lemma fail_prompt_follow:
  assumes "mirrors True env s l" "failPrompt env code original recoverable s = (Inr es, t)"
  shows "\<exists>l'. follow l es = Some l' \<and> lf_over l'" "es \<noteq> [] \<and> acp_terminal_body (ae_body (last es))"
proof -
  define message where "message = failure_message env original"
  let ?thinking = "\<lambda>i. ThoughtCancelled i message None"
  obtain r where r: "as_runId s = Some r" using assms(1) by (auto simp: mirrors_def)
  obtain failed u thought w closures x where
      failed: "failMessage env code message recoverable s = (Inr failed, u)"
    and think: "(if as_thoughtId u = None then returnS [] else end_thought ?thinking) u = (Inr thought, w)"
    and close: "on_tools (total (tools_completeOpen env None r ToolFailed)) w = (Inr closures, x)"
    and bounded: "assertBoundedLosslessEvents env (failed @ thought @ closures
           @ [plain_event (RunFailed code message
                (if message = original then None else Some (ac_utf8_bytes env original)) recoverable None)
                (Some r)]) = Inr es"
    using assms(2) r unfolding failPrompt_def Let_def message_def [symmetric]
    by (auto elim!: bindS_InrE)
  note es = bounded_events [OF bounded]
  have "message_ending (\<lambda>i. MessageFailed i code message recoverable None)" by (simp add: message_ending_def)
  from emitsD [OF drop_emits [OF this] failed [unfolded failMessage_def] mirrors_weaken [OF assms(1)]]
  obtain k where k: "follow l failed = Some k" "mirrors True env u k" by auto
  have "as_active u = None" using failed drop_active unfolding failMessage_def by blast
  moreover have "end_thought ?thinking u = (Inr thought, w)" using think k(2) by (simp add: mirrors_def split: if_splits)
  moreover have "thought_ending ?thinking" by (simp add: thought_ending_def)
  ultimately obtain l' where "follow k (thought @ closures @ []
           @ [plain_event (RunFailed code message
                (if message = original then None else Some (ac_utf8_bytes env original)) recoverable None)
                (Some r)]) = Some l'" "lf_over l'"
    using ending_follow [OF k(2) _ _ _ close, where es = "[]"] by (metis list.pred_inject(1) acp_terminal_body.simps(3))
  then show "\<exists>l'. follow l es = Some l' \<and> lf_over l'" using k(1) unfolding es by (simp add: follow_events_append)
  show "es \<noteq> [] \<and> acp_terminal_body (ae_body (last es))" unfolding es by (simp add: plain_event_def)
qed

end
