(* ===== verification/Acp_Runs.thy ===== *)
theory Acp_Runs
  imports Acp_Endings
begin

text \<open>
  Whole turns: what an operation may do to a state whether it fails or not, and the events of
  a turn from its beginning to its end.
\<close>

section \<open>What every operation does to the state\<close>

definition effects_in :: "('s \<Rightarrow> 's \<Rightarrow> bool) \<Rightarrow> ('s, 'e, 'a) effect \<Rightarrow> bool" where
  "effects_in R m \<longleftrightarrow> (\<forall>s. R s (snd (m s)))"

lemma effects_in_pure:
  assumes "reflp R"
  shows "effects_in R (returnS x)" "effects_in R (throwS e)" "effects_in R (readS f)" "effects_in R (liftS r)"
  using assms by (simp_all add: effects_in_def reflp_def)

lemma effects_in_bind:
  assumes "transp R" "effects_in R m" "\<And>x. effects_in R (f x)"
  shows "effects_in R (bindS m f)"
  unfolding effects_in_def
proof
  fix s
  obtain r u where m: "m s = (r, u)" by (cases "m s")
  then have "R s u" using assms(2) by (metis effects_in_def snd_conv)
  show "R s (snd (bindS m f s))"
  proof (cases r)
    case (Inl e)
    then show ?thesis using m \<open>R s u\<close> by (simp add: bindS_def)
  next
    case (Inr x)
    have "R u (snd (f x u))" using assms(3) by (simp add: effects_in_def)
    then have "R s (snd (f x u))" using assms(1) \<open>R s u\<close> by (meson transpD)
    then show ?thesis using m Inr by (simp add: bindS_def)
  qed
qed

lemma effects_in_change: "(\<And>s. R s (f s)) \<Longrightarrow> effects_in R (changeS f)"
  by (simp add: effects_in_def)

lemma effects_in_run: "effects_in R m \<Longrightarrow> m s = (r, t) \<Longrightarrow> R s t"
  by (metis effects_in_def snd_conv)

text \<open>Identifiers are never drawn again; the thought's own identifier stays.\<close>

definition keeps_ids :: "acp_state \<Rightarrow> acp_state \<Rightarrow> bool" where
  "keeps_ids s t \<longleftrightarrow> as_drawn s \<le> as_drawn t \<and> as_runId t = as_runId s \<and> as_thoughtId t = as_thoughtId s"

lemma keeps_ids_order: "reflp keeps_ids" "transp keeps_ids"
  by (auto simp: reflp_def transp_def keeps_ids_def)

lemmas kept_pure = effects_in_pure [OF keeps_ids_order(1)]
lemmas kept_bind = effects_in_bind [OF keeps_ids_order(2)]

lemma kept_change: "(\<And>s. as_drawn s \<le> as_drawn (f s) \<and> as_runId (f s) = as_runId s \<and> as_thoughtId (f s) = as_thoughtId s)
    \<Longrightarrow> effects_in keeps_ids (changeS f)"
  by (simp add: effects_in_change keeps_ids_def)

lemma kept_tools: "effects_in keeps_ids (on_tools m)"
  by (auto simp: effects_in_def on_tools_def keeps_ids_def split: prod.split)

lemma kept_parts:
  "effects_in keeps_ids requireRunId" "effects_in keeps_ids requireThoughtId" "effects_in keeps_ids (nextEventId kind)"
  by (auto simp: effects_in_def keeps_ids_def requireRunId_def requireThoughtId_def nextEventId_def Let_def
      split: option.split)

lemmas kept_rules = kept_pure kept_bind kept_change kept_tools kept_parts

lemma kept_messages:
  "effects_in keeps_ids (finishMessage env)" "effects_in keeps_ids (drop_message env ending)"
  unfolding finishMessage_def drop_message_def
  by (intro kept_rules; auto intro!: kept_rules split: option.split)+

lemma kept_start: "effects_in keeps_ids (startUnsettledMessage env native)"
  unfolding startUnsettledMessage_def
  by (intro kept_rules kept_messages; auto intro!: kept_rules kept_messages simp: clearThoughtFallback_def)

lemma kept_starts:
  "effects_in keeps_ids (startMessage env native)" "effects_in keeps_ids (startAnonymousMessage env)"
  "effects_in keeps_ids (ensureToolParentMessage env i)" "effects_in keeps_ids ensureThoughtStarted"
  unfolding startMessage_def startAnonymousMessage_def ensureToolParentMessage_def ensureThoughtStarted_def
  by (auto intro!: kept_rules kept_start)

lemma kept_append: "effects_in keeps_ids (changeS (append_text d))"
  by (rule kept_change) (simp add: append_text_def)

lemma kept_chunks:
  "effects_in keeps_ids (messageChunk env update)" "effects_in keeps_ids (thought_message env native d)"
  unfolding messageChunk_def thought_message_def
  by (auto intro!: kept_rules kept_starts kept_append kept_messages simp: clearThoughtFallback_def split: option.split)

lemma kept_thought: "effects_in keeps_ids (thoughtChunk env update)"
  unfolding thoughtChunk_def
  by (auto intro!: kept_rules kept_starts kept_chunks split: option.split)

lemma kept_tool_update: "effects_in keeps_ids (tool_update env update b)"
  unfolding tool_update_def Let_def
  by (auto intro!: kept_rules kept_starts split: option.split)

lemma kept_retained: "effects_in keeps_ids (assertRetainedTurnState env)"
  unfolding assertRetainedTurnState_def by (auto intro!: kept_rules)

lemma kept_permission: "effects_in keeps_ids (permission_events env translation r)"
  unfolding permission_events_def by (auto intro!: kept_rules kept_starts kept_retained)

lemma kept_session: "effects_in keeps_ids (session_update env update kind)"
  unfolding session_update_def by (auto intro!: kept_rules kept_chunks kept_thought kept_tool_update split: option.split)

lemma kept_thought_content: "effects_in keeps_ids (thoughtContentEvents env update_bytes)"
  unfolding thoughtContentEvents_def by (auto intro!: kept_rules split: sum.split)

lemma kept_promote: "effects_in keeps_ids (promoteThought env)"
  unfolding promoteThought_def
  by (auto intro!: kept_rules kept_starts kept_append simp: clearThoughtFallback_def split: option.split)

lemma kept_end_thought: "effects_in keeps_ids (end_thought ending)"
  unfolding end_thought_def by (auto intro!: kept_rules)

lemma kept_complete: "effects_in keeps_ids (completePrompt env stopReason usage requestedBy)"
  unfolding completePrompt_def Let_def finishMessageWithOutcome_def
  by (auto intro!: kept_rules kept_messages kept_promote kept_end_thought)

section \<open>Failing\<close>

lemma checkpoint_fails:
  assumes "effects_in keeps_ids m" "with_checkpoint m s = (Inl e, t)"
  shows "as_drawn s \<le> as_drawn t" "t = s\<lparr>as_drawn := as_drawn t\<rparr>"
proof -
  obtain r u where m: "m s = (r, u)" by (cases "m s")
  then have "as_drawn s \<le> as_drawn u" using effects_in_run [OF assms(1)] by (simp add: keeps_ids_def)
  then show "as_drawn s \<le> as_drawn t" "t = s\<lparr>as_drawn := as_drawn t\<rparr>"
    using assms(2) m by (auto simp: with_checkpoint_def split: sum.splits)
qed

lemma plain_update_state:
  assumes "\<not> (case kind of None \<Rightarrow> False | Some k \<Rightarrow> k \<in> set retaining_kinds)"
  shows "snd (session_update env update kind s) = s"
  using assms by (auto simp: session_update_def retaining_kinds_def split: option.splits)

lemma update_fails:
  assumes "as_runId s = Some r" "translateUpdate env params s = (Inl e, t)"
  shows "as_drawn s \<le> as_drawn t" "t = s\<lparr>as_drawn := as_drawn t\<rparr>"
proof -
  define update kind where "update = readRecord (Some (record_param params)) ''update''"
    and "kind = provider_readString update ''sessionUpdate''"
  let ?retains = "case kind of None \<Rightarrow> False | Some k \<Rightarrow> k \<in> set retaining_kinds"
  have "as_drawn s \<le> as_drawn t \<and> t = s\<lparr>as_drawn := as_drawn t\<rparr>"
  proof (cases ?retains)
    case True
    let ?body = "bindS (session_update env update kind) (\<lambda>events.
          bindS (assertRetainedTurnState env) (\<lambda>_. liftS (assertBoundedLosslessEvents env events)))"
    have "with_checkpoint ?body s = (Inl e, t)"
      using assms True unfolding translateUpdate_def bindS_readS Let_def update_def [symmetric] kind_def [symmetric]
      by simp
    moreover have "effects_in keeps_ids ?body" by (intro kept_bind kept_session kept_retained kept_pure)
    ultimately show ?thesis using checkpoint_fails by blast
  next
    case False
    have "bindS (session_update env update kind) (\<lambda>events.
          bindS (returnS ()) (\<lambda>_. liftS (assertBoundedLosslessEvents env events))) s = (Inl e, t)"
      using assms False unfolding translateUpdate_def bindS_readS Let_def update_def [symmetric] kind_def [symmetric]
      by simp
    then have "t = s"
      using plain_update_state [OF False, of env update s]
      by (auto simp: bindS_def split: prod.splits sum.splits)
    then show ?thesis by simp
  qed
  then show "as_drawn s \<le> as_drawn t" "t = s\<lparr>as_drawn := as_drawn t\<rparr>" by blast+
qed

lemma permission_fails:
  assumes "as_runId s = Some r" "translatePermission env params requestId s = (Inl e, t)"
  shows "as_drawn s \<le> as_drawn t" "t = s\<lparr>as_drawn := as_drawn t\<rparr>"
proof -
  let ?p = "toPermissionRequest env params requestId (Some r)"
  have "as_drawn s \<le> as_drawn t \<and> t = s\<lparr>as_drawn := as_drawn t\<rparr>"
  proof (cases "pt_toolCall ?p")
    case None
    then have "t = s" using assms
      by (auto simp: translatePermission_def Let_def bindS_def split: prod.splits sum.splits)
    then show ?thesis by simp
  next
    case (Some call)
    let ?body = "bindS (permission_events env ?p r) (\<lambda>events. returnS (?p\<lparr>pt_events := events\<rparr>))"
    have "with_checkpoint ?body s = (Inl e, t)"
      using assms Some by (simp add: translatePermission_def Let_def)
    moreover have "effects_in keeps_ids ?body" by (intro kept_bind kept_permission kept_pure)
    ultimately show ?thesis using checkpoint_fails by blast
  qed
  then show "as_drawn s \<le> as_drawn t" "t = s\<lparr>as_drawn := as_drawn t\<rparr>" by blast+
qed

section \<open>Turns\<close>

lemma begin_mirrors: "mirrors True env (acp_begin m r s) new_life"
  by (simp add: mirrors_def acp_begin_def acp_clear_def new_acp_state_def new_life_def tools_ok_def no_tools_def
      open_ids_def)

lemma feed_follow:
  assumes "sound_env env" "mirrors True env s l" "feed env input s = (es, t)"
  shows "\<exists>l'. follow l es = Some l' \<and> mirrors True env t l'"
proof -
  obtain r where r: "as_runId s = Some r" using assms(2) by (auto simp: mirrors_def)
  have failed: "mirrors True env u l" if "as_drawn s \<le> as_drawn u" "u = s\<lparr>as_drawn := as_drawn u\<rparr>" for u
  proof (rule mirrors_cong [OF assms(2)])
    show "as_drawn s \<le> as_drawn u" by (rule that(1))
  qed (subst that(2), simp)+
  show ?thesis
  proof (cases input)
    case (SessionUpdate params)
    obtain x u where u: "translateUpdate env params s = (x, u)" by (cases "translateUpdate env params s")
    show ?thesis
    proof (cases x)
      case (Inl e)
      then show ?thesis
        using assms(3) u failed [OF update_fails [OF r u [unfolded Inl]]] by (auto simp: feed_def SessionUpdate)
    next
      case (Inr fs)
      then show ?thesis
        using assms(3) u emitsD [OF translate_emits [OF assms(1)] _ assms(2)] by (auto simp: feed_def SessionUpdate)
    qed
  next
    case (PermissionRequest params requestId)
    obtain x u where u: "translatePermission env params requestId s = (x, u)"
      by (cases "translatePermission env params requestId s")
    show ?thesis
    proof (cases x)
      case (Inl e)
      then show ?thesis
        using assms(3) u failed [OF permission_fails [OF r u [unfolded Inl]]] by (auto simp: feed_def PermissionRequest)
    next
      case (Inr translation)
      then show ?thesis
        using assms(3) u permission_emits [OF assms(1,2), of params requestId translation u]
        by (auto simp: feed_def PermissionRequest)
    qed
  qed
qed

lemma feed_all_follow:
  assumes "sound_env env" "mirrors True env s l" "feed_all env inputs s = (es, t)"
  shows "\<exists>l'. follow l es = Some l' \<and> mirrors True env t l'"
  using assms(2,3)
proof (induction inputs arbitrary: s l es)
  case (Cons input inputs)
  obtain fs u where u: "feed env input s = (fs, u)" by (cases "feed env input s")
  obtain gs where v: "feed_all env inputs u = (gs, t)" and es: "es = fs @ gs"
    using Cons.prems(2) u by (auto split: prod.splits)
  from feed_follow [OF assms(1) Cons.prems(1) u] obtain k where k: "follow l fs = Some k" "mirrors True env u k" by auto
  from Cons.IH [OF k(2) v] k(1) show ?case by (auto simp: es follow_events_append)
qed simp

lemma thought_content_follow:
  assumes "mirrors True env s l" "as_thoughtStarted s \<longrightarrow> as_thoughtStarted t" "as_thoughtStarted t \<longrightarrow> as_thoughtStarted s"
    "as_thoughtId t = as_thoughtId s" "thoughtContentEvents env update_bytes t = (Inr es, u)"
  shows "follow l es = Some l"
proof (cases "as_thoughtStarted t")
  case False
  then show ?thesis using assms(5) by (simp add: thoughtContentEvents_def)
next
  case True
  obtain i updates r where i: "as_thoughtId t = Some i"
    and updates: "createThoughtContentEvents (acp_coding env) update_bytes i (as_thoughtText t) (Some (i @ '':snapshot''))
      = Inr updates"
    and bounded: "assertBoundedLosslessEvents env
       (map (\<lambda>u. (plain_event (ThoughtUpdated u) (Some r))
               \<lparr>ae_delivery := Some DeliverLossless, ae_source := tu_source u\<rparr>) updates) = Inr es"
    using assms(5) True unfolding thoughtContentEvents_def
    by (auto elim!: bindS_InrE simp: requireThoughtId_run requireRunId_run split: sum.splits)
  have ids: "tu_thoughtId u = i" if "u \<in> set updates" for u
    using updates that number_chunks_id by (auto simp: createThoughtContentEvents_def Let_def split: if_splits sum.splits)
  have "as_thoughtId s = Some i" "as_thoughtStarted s" using assms(3,4) True i by simp_all
  then have l: "lf_thought l = OpenThought i" "\<not> lf_over l" using assms(1) by (simp_all add: mirrors_def)
  have "follow l (map (\<lambda>u. (plain_event (ThoughtUpdated u) (Some r))
               \<lparr>ae_delivery := Some DeliverLossless, ae_source := tu_source u\<rparr>) us) = Some l" if "set us \<subseteq> set updates" for us
    using that by (induction us) (auto simp: advance_def plain_event_def ids l)
  then show ?thesis using bounded_events [OF bounded] by simp
qed

text \<open>The end of a turn does not start the thought.\<close>

definition keeps_thought :: "acp_state \<Rightarrow> acp_state \<Rightarrow> bool" where
  "keeps_thought s t \<longleftrightarrow> as_thoughtStarted t = as_thoughtStarted s \<and> as_thoughtId t = as_thoughtId s"

lemma keeps_thought_order: "reflp keeps_thought" "transp keeps_thought"
  by (auto simp: reflp_def transp_def keeps_thought_def)

lemmas thought_pure = effects_in_pure [OF keeps_thought_order(1)]
lemmas thought_bind = effects_in_bind [OF keeps_thought_order(2)]

lemma thought_change: "(\<And>s. as_thoughtStarted (f s) = as_thoughtStarted s \<and> as_thoughtId (f s) = as_thoughtId s)
    \<Longrightarrow> effects_in keeps_thought (changeS f)"
  by (simp add: effects_in_change keeps_thought_def)

lemma thought_parts:
  "effects_in keeps_thought requireRunId" "effects_in keeps_thought requireThoughtId" "effects_in keeps_thought (on_tools m)"
  by (auto simp: effects_in_def keeps_thought_def requireRunId_def requireThoughtId_def on_tools_def
      split: option.split prod.split)

lemmas thought_rules = thought_pure thought_bind thought_change thought_parts

lemma thought_messages:
  "effects_in keeps_thought (finishMessage env)" "effects_in keeps_thought (drop_message env ending)"
  unfolding finishMessage_def drop_message_def
  by (auto intro!: thought_rules split: option.split)

lemma thought_start: "effects_in keeps_thought (startMessage env native)"
  unfolding startMessage_def startUnsettledMessage_def
  by (auto intro!: thought_rules thought_messages simp: clearThoughtFallback_def split: option.split)

lemma thought_promote: "effects_in keeps_thought (promoteThought env)"
  unfolding promoteThought_def
  by (auto intro!: thought_rules thought_start simp: clearThoughtFallback_def append_text_def split: option.split)

lemma thought_end: "effects_in keeps_thought (end_thought ending)"
  unfolding end_thought_def by (auto intro!: thought_rules)

lemma thought_complete: "effects_in keeps_thought (completePrompt env stopReason usage requestedBy)"
  unfolding completePrompt_def Let_def finishMessageWithOutcome_def
  by (auto intro!: thought_rules thought_messages thought_promote thought_end)

lemma thought_fail:
  assumes "as_runId s = Some r" "failPrompt env code message recoverable s = (x, t)"
  shows "keeps_thought s t"
proof -
  let ?body = "bindS (failMessage env code (failure_message env message) recoverable) (\<lambda>failed.
         bindS (readS as_thoughtId) (\<lambda>thoughtId.
         bindS (if thoughtId = None then returnS []
                else end_thought (\<lambda>i. ThoughtCancelled i (failure_message env message) None)) (\<lambda>thought.
         bindS (on_tools (total (tools_completeOpen env None r ToolFailed))) (\<lambda>closures.
         liftS (assertBoundedLosslessEvents env (failed @ thought @ closures
           @ [plain_event (RunFailed code (failure_message env message)
                (if failure_message env message = message then None else Some (ac_utf8_bytes env message)) recoverable None)
                (Some r)]))))))"
  have "effects_in keeps_thought ?body"
    unfolding failMessage_def by (auto intro!: thought_rules thought_messages thought_end)
  moreover have "?body s = (x, t)" using assms by (simp add: failPrompt_def Let_def)
  ultimately show ?thesis by (rule effects_in_run)
qed

lemma ending_thought:
  assumes "as_runId s = Some r" "prepare_ending env ending s = (x, t)"
  shows "as_thoughtStarted t = as_thoughtStarted s" "as_thoughtId t = as_thoughtId s"
  using assms thought_fail [OF assms(1)] effects_in_run [OF thought_complete]
  by (auto simp: prepare_ending_def keeps_thought_def split: turn_ending.splits)

end
