(* ===== verification/Acp_Bounds.thy ===== *)
theory Acp_Bounds
  imports Acp_Runs
begin

text \<open>
  The end of a turn fits one batch: what a turn retains is bounded so that its terminal
  events are at most \<open>MAX_RUN_TERMINAL_BATCH_EVENTS\<close>.
\<close>

text \<open>What is relied on of JSON: a member is not longer than its object.\<close>

definition json_nested :: "acp_env \<Rightarrow> bool" where
  "json_nested env \<longleftrightarrow>
     (\<forall>m k v. fmlookup m k = Some v \<longrightarrow> ac_json_bytes env v \<le> ac_json_bytes env (JObj m))"

lemma json_nestedD: "json_nested env \<Longrightarrow> fmlookup m k = Some v \<Longrightarrow> ac_json_bytes env v \<le> ac_json_bytes env (JObj m)"
  by (simp add: json_nested_def)

definition turn_fits :: "acp_env \<Rightarrow> acp_state \<Rightarrow> bool" where
  "turn_fits env s \<longleftrightarrow>
     retained_items s \<le> MAX_ACP_RETAINED_TURN_ITEMS
     \<and> (\<forall>m. as_active s = Some m \<longrightarrow> ac_json_bytes env (JStr (am_text m)) \<le> MAX_ACP_RETAINED_TURN_BYTES)
     \<and> (as_fallbackNative s \<noteq> None \<longrightarrow> ac_json_bytes env (JStr (as_fallbackText s)) \<le> MAX_ACP_RETAINED_TURN_BYTES)"

lemma retained_texts:
  assumes "json_nested env"
  shows "as_active s = Some m \<Longrightarrow> ac_json_bytes env (JStr (am_text m)) \<le> ac_json_bytes env (retained_state s)"
    "as_fallbackNative s = Some native \<Longrightarrow> ac_json_bytes env (JStr (as_fallbackText s)) \<le> ac_json_bytes env (retained_state s)"
proof -
  let ?m = "object_fields [(''id'', Some (JStr (am_id m))), (''nativeMessageId'', Some (nullable (am_native m))),
           (''text'', Some (JStr (am_text m)))]"
  let ?f = "object_fields [(''nativeMessageId'', Some (JStr native)), (''text'', Some (JStr (as_fallbackText s)))]"
  assume active: "as_active s = Some m"
  have "ac_json_bytes env (JStr (am_text m)) \<le> ac_json_bytes env (JObj ?m)"
    by (rule json_nestedD [OF assms, of _ "''text''"]) (simp add: object_fields_def)
  also have "\<dots> \<le> ac_json_bytes env (retained_state s)"
    unfolding retained_state_def
    by (rule json_nestedD [OF assms, of _ "''activeAssistantMessage''"]) (simp add: object_fields_def active)
  finally show "ac_json_bytes env (JStr (am_text m)) \<le> ac_json_bytes env (retained_state s)" .
next
  let ?f = "object_fields [(''nativeMessageId'', Some (JStr native)), (''text'', Some (JStr (as_fallbackText s)))]"
  assume fallback: "as_fallbackNative s = Some native"
  have "ac_json_bytes env (JStr (as_fallbackText s)) \<le> ac_json_bytes env (JObj ?f)"
    by (rule json_nestedD [OF assms, of _ "''text''"]) (simp add: object_fields_def)
  also have "\<dots> \<le> ac_json_bytes env (retained_state s)"
    unfolding retained_state_def
    by (rule json_nestedD [OF assms, of _ "''thoughtFallback''"]) (simp add: object_fields_def fallback)
  finally show "ac_json_bytes env (JStr (as_fallbackText s)) \<le> ac_json_bytes env (retained_state s)" .
qed

lemma retained_fits:
  assumes "json_nested env" "assertRetainedTurnState env s = (Inr x, t)"
  shows "turn_fits env t"
  using retained_run(2,3) [OF assms(2)] retained_texts [OF assms(1), of t]
  by (auto simp: turn_fits_def intro: order_trans)

section \<open>The bound is kept\<close>

lemma begin_fits: "turn_fits env (acp_begin m r s)"
  by (simp add: turn_fits_def acp_begin_def acp_clear_def new_acp_state_def retained_items_def no_tools_def
      openItemCount_def)

lemma drawn_fits: "turn_fits env (s\<lparr>as_drawn := n\<rparr>) = turn_fits env s"
  by (simp add: turn_fits_def retained_items_def)

lemma translate_fits:
  assumes "json_nested env" "turn_fits env s" "as_runId s = Some r" "translateUpdate env params s = (x, t)"
  shows "turn_fits env t"
proof (cases x)
  case (Inl e)
  with assms(4) have "translateUpdate env params s = (Inl e, t)" by simp
  from update_fails(2) [OF assms(3) this] show ?thesis using assms(2) by (metis drawn_fits)
next
  case (Inr es)
  define update kind where "update = readRecord (Some (record_param params)) ''update''"
    and "kind = provider_readString update ''sessionUpdate''"
  let ?retains = "case kind of None \<Rightarrow> False | Some k \<Rightarrow> k \<in> set retaining_kinds"
  have "bindS (session_update env update kind) (\<lambda>events.
          bindS (if ?retains then assertRetainedTurnState env else returnS ()) (\<lambda>_.
            liftS (assertBoundedLosslessEvents env events))) s = (Inr es, t)"
    using assms(3,4) Inr unfolding translateUpdate_def bindS_readS Let_def update_def [symmetric] kind_def [symmetric]
    by (cases ?retains) (simp_all add: checkpoint_run)
  then obtain fs u y where u: "session_update env update kind s = (Inr fs, u)"
    and kept: "(if ?retains then assertRetainedTurnState env else returnS ()) u = (Inr y, t)"
    by (auto elim!: bindS_InrE)
  show ?thesis
  proof (cases ?retains)
    case True
    then show ?thesis using kept retained_fits [OF assms(1)] by simp
  next
    case False
    then have "t = s" using kept plain_update_state [OF False, of env update s] u by simp
    then show ?thesis using assms(2) by simp
  qed
qed

lemma permission_fits:
  assumes "json_nested env" "turn_fits env s" "as_runId s = Some r" "translatePermission env params requestId s = (x, t)"
  shows "turn_fits env t"
proof (cases x)
  case (Inl e)
  with assms(4) have "translatePermission env params requestId s = (Inl e, t)" by simp
  from permission_fails(2) [OF assms(3) this] show ?thesis using assms(2) by (metis drawn_fits)
next
  case (Inr translation)
  show ?thesis
  proof (cases "pt_toolCall (toPermissionRequest env params requestId (Some r))")
    case None
    then have "t = s" using assms(3,4) Inr by (auto simp: translatePermission_def Let_def elim!: bindS_InrE)
    then show ?thesis using assms(2) by simp
  next
    case (Some call)
    then obtain u where "permission_events env (toPermissionRequest env params requestId (Some r)) r s = (Inr u, t)"
      using assms(3,4) Inr by (auto simp: translatePermission_def Let_def checkpoint_run elim!: bindS_InrE)
    then show ?thesis using retained_fits [OF assms(1)]
      unfolding permission_events_def by (auto elim!: bindS_InrE)
  qed
qed

lemma feed_fits:
  assumes "json_nested env" "turn_fits env s" "as_runId s = Some r" "feed env input s = (es, t)"
  shows "turn_fits env t" "as_runId t = Some r"
proof -
  show "turn_fits env t"
    using assms(4) translate_fits [OF assms(1-3)] permission_fits [OF assms(1-3)]
    by (auto simp: feed_def split: acp_input.splits prod.splits sum.splits)
  have checkpoint: "effects_in keeps_ids (with_checkpoint m)" if "effects_in keeps_ids m" for m
    using that by (auto simp: effects_in_def with_checkpoint_def keeps_ids_def split: prod.split sum.split)
      (metis snd_conv)+
  have "effects_in keeps_ids (translateUpdate env params)" for params
    unfolding translateUpdate_def Let_def
    by (auto intro!: kept_rules kept_session kept_retained checkpoint)
  moreover have "effects_in keeps_ids (translatePermission env params requestId)" for params requestId
    unfolding translatePermission_def Let_def
    by (auto intro!: kept_rules kept_permission checkpoint split: option.split)
  ultimately have "as_runId (snd (translateUpdate env params s)) = Some r"
    "as_runId (snd (translatePermission env params requestId s)) = Some r" for params requestId
    using assms(3) by (simp_all add: effects_in_def keeps_ids_def)
  moreover have "t = (case input of SessionUpdate params \<Rightarrow> snd (translateUpdate env params s)
      | PermissionRequest params requestId \<Rightarrow> snd (translatePermission env params requestId s))"
    using assms(4) by (auto simp: feed_def split: acp_input.splits prod.splits sum.splits)
  ultimately show "as_runId t = Some r" by (simp split: acp_input.split)
qed

lemma feed_all_fits:
  assumes "json_nested env" "turn_fits env s" "as_runId s = Some r" "feed_all env inputs s = (es, t)"
  shows "turn_fits env t \<and> as_runId t = Some r"
  using assms(2-4)
proof (induction inputs arbitrary: s es)
  case (Cons input inputs)
  obtain fs u gs where "feed env input s = (fs, u)" "feed_all env inputs u = (gs, t)"
    using Cons.prems(3) by (auto split: prod.splits)
  then show ?case using Cons.IH feed_fits [OF assms(1) Cons.prems(1,2)] by blast
qed simp

section \<open>The terminal events\<close>

lemma one_chunk:
  assumes "ac_json_bytes env (JStr txt) \<le> MAX_ACP_RETAINED_TURN_BYTES"
    "(if txt = [] then Inr []
      else chunkJsonText (acp_coding env) txt MAX_ACP_MESSAGE_EVENT_TEXT_BYTES MAX_ACP_MESSAGE_EVENT_TEXT_BYTES) = Inr chunks"
  shows "length chunks \<le> 1"
proof (cases "txt = []")
  case False
  have "MAX_ACP_RETAINED_TURN_BYTES \<le> MAX_ACP_MESSAGE_EVENT_TEXT_BYTES"
    by (simp add: MAX_ACP_RETAINED_TURN_BYTES_def MAX_ACP_MESSAGE_EVENT_TEXT_BYTES_def MAX_ACP_LOSSLESS_EVENT_BYTES_def
        MAX_RUN_TERMINAL_BATCH_BYTES_def)
  then have "tc_bytes (acp_coding env) txt \<le> MAX_ACP_MESSAGE_EVENT_TEXT_BYTES"
    using assms(1) by (simp add: acp_coding_def)
  then show ?thesis using assms(2) False by (auto simp: chunkJsonText_def)
qed (use assms in simp)

lemma finish_length:
  assumes "finishMessage env s = (Inr es, t)"
    "\<And>m. as_active s = Some m \<Longrightarrow> ac_json_bytes env (JStr (am_text m)) \<le> MAX_ACP_RETAINED_TURN_BYTES"
  shows "length es \<le> (if as_active s = None then 0 else 2)" "as_tools t = as_tools s"
proof -
  show "as_tools t = as_tools s" using finish_frame(6) [OF assms(1)] .
  have saved: "length (saved_text i r chunks) = length chunks" for i r chunks
    by (simp add: saved_text_def split: list.split)
  show "length es \<le> (if as_active s = None then 0 else 2)"
    using finish_run [OF assms(1)]
  proof (elim disjE exE conjE)
    fix m chunks r
    assume m: "as_active s = Some m"
      and chunks: "(if am_text m = [] then Inr []
           else chunkJsonText (acp_coding env) (am_text m) MAX_ACP_MESSAGE_EVENT_TEXT_BYTES MAX_ACP_MESSAGE_EVENT_TEXT_BYTES)
          = Inr chunks"
      and es: "es = saved_text (am_id m) r chunks @ [plain_event (MessageCompleted (am_id m)) (Some r)]"
    show ?thesis using one_chunk [OF assms(2) [OF m] chunks] m by (simp add: es saved)
  qed simp
qed

lemma drop_length:
  assumes "drop_message env ending s = (Inr es, t)"
  shows "length es \<le> (if as_active s = None then 0 else 1)" "as_tools t = as_tools s"
  using drop_run [OF assms] by auto

lemma end_thought_length:
  assumes "end_thought ending s = (Inr es, t)"
  shows "length es \<le> 1" "as_tools t = as_tools s"
  using end_thought_run [OF assms] by auto

text \<open>The message that is open when the run ends: the one that was, or the promoted thought.\<close>

lemma promote_length:
  assumes "promoteThought env s = (Inr es, t)" "turn_fits env s"
  shows "as_tools t = as_tools s"
    "length es + (if as_active t = None then 0 else 2)
      \<le> (if as_active s = None \<and> as_fallbackNative s = None then 0 else 3)"
    "\<And>m. as_active t = Some m \<Longrightarrow> ac_json_bytes env (JStr (am_text m)) \<le> MAX_ACP_RETAINED_TURN_BYTES"
proof -
  consider (same) "es = []" "t = s \<or> t = clearThoughtFallback s"
    | (promoted) native u where "as_active s = None" "as_fallbackNative s = Some native"
        "startUnsettledMessage env (Some native) (clearThoughtFallback s) = (Inr es, u)"
        "t = append_text (as_fallbackText s) u"
  proof (cases "as_active s = None \<and> as_fallbackNative s \<noteq> None \<and> visible_text (as_fallbackText s)")
    case False
    then show ?thesis using assms(1) same by (auto simp: promoteThought_def split: if_splits option.splits)
  next
    case True
    then obtain native where native: "as_fallbackNative s = Some native" by blast
    with True have "bindS (startMessage env native) (\<lambda>started. case started of None \<Rightarrow> returnS [] | Some events \<Rightarrow>
          bindS (changeS (append_text (as_fallbackText s))) (\<lambda>_. returnS events)) (clearThoughtFallback s) = (Inr es, t)"
      using assms(1) by (simp add: promoteThought_def)
    then obtain started u where u: "startMessage env native (clearThoughtFallback s) = (Inr started, u)"
      and rest: "((case started of None \<Rightarrow> returnS [] | Some events \<Rightarrow>
          bindS (changeS (append_text (as_fallbackText s))) (\<lambda>_. returnS events)) :: acp_event list acp) u = (Inr es, t)"
      by (rule bindS_InrE) (rule that)
    show ?thesis
    proof (cases started)
      case None
      then show ?thesis using same rest start_settled_run [OF u] by simp
    next
      case (Some fs)
      then show ?thesis using promoted [of native u] True native rest start_settled_run [OF u] by simp
    qed
  qed
  then have "as_tools t = as_tools s
    \<and> length es + (if as_active t = None then 0 else 2)
        \<le> (if as_active s = None \<and> as_fallbackNative s = None then 0 else 3)
    \<and> (\<forall>m. as_active t = Some m \<longrightarrow> ac_json_bytes env (JStr (am_text m)) \<le> MAX_ACP_RETAINED_TURN_BYTES)"
  proof cases
    case same
    then show ?thesis using assms(2) by (auto simp: clearThoughtFallback_def turn_fits_def)
  next
    case promoted
    have "finishMessage env (clearThoughtFallback s) = (Inr [], clearThoughtFallback s)"
      using promoted(1) by (simp add: finishMessage_def clearThoughtFallback_def)
    then obtain r where "es = [plain_event (MessageStarted (ac_ids env (as_drawn s))) (Some r)]"
      "as_tools u = as_tools s" "as_active u = Some \<lparr>am_id = ac_ids env (as_drawn s), am_native = Some native, am_text = []\<rparr>"
      using start_run [OF promoted(3)] promoted(1) by (auto simp: clearThoughtFallback_def)
    then show ?thesis using assms(2) promoted(2) unfolding promoted(4)
      by (auto simp: append_text_def turn_fits_def)
  qed
  then show "as_tools t = as_tools s"
    "length es + (if as_active t = None then 0 else 2)
      \<le> (if as_active s = None \<and> as_fallbackNative s = None then 0 else 3)"
    "\<And>m. as_active t = Some m \<Longrightarrow> ac_json_bytes env (JStr (am_text m)) \<le> MAX_ACP_RETAINED_TURN_BYTES"
    by blast+
qed

lemma closing_length:
  assumes "on_tools (total (tools_completeOpen env err r status)) s = (Inr closures, t)"
  shows "length closures = 2 * openItemCount (as_tools s)"
proof -
  have "length (concat (map (\<lambda>(i, t). if open_tool t then closing_events err r status i else []) tools))
      = 2 * length (filter (open_tool \<circ> snd) tools)" for tools
    by (induction tools) (auto simp: closing_events_def)
  moreover have "closures = concat (map (\<lambda>(i, t). if open_tool t then closing_events err r status i else [])
      (ts_tools (as_tools s)))"
    using assms by (auto simp: on_tools_def total_def tools_completeOpen_def)
  ultimately show ?thesis by (simp add: openItemCount_def)
qed

lemma complete_prompt_length:
  assumes "turn_fits env s" "completePrompt env stopReason usage requestedBy s = (Inr es, t)"
  shows "length es \<le> MAX_RUN_TERMINAL_BATCH_EVENTS"
proof -
  define err where "err = (if stopReason = ''end_turn'' \<or> stopReason = ''cancelled'' then None
                          else Some (''ACP prompt stopped with '' @ stopReason @ ''.''))"
  obtain r promoted u finished v thought w closures x where
      promote: "promoteThought env s = (Inr promoted, u)"
    and finish: "(if stopReason = ''end_turn'' then finishMessage env
            else finishMessageWithOutcome env stopReason err) u = (Inr finished, v)"
    and think: "end_thought (\<lambda>i. if stopReason = ''end_turn'' then ThoughtCompleted i
              else ThoughtCancelled i (case err of Some e \<Rightarrow> e | None \<Rightarrow> ''cancelled'') (Some stopReason)) v
            = (Inr thought, w)"
    and close: "on_tools (total (tools_completeOpen env err r
              (if stopReason = ''end_turn'' then ToolCompleted
               else if stopReason = ''cancelled'' then ToolCancelled else ToolFailed))) w = (Inr closures, x)"
    and bounded: "assertBoundedLosslessEvents env (promoted @ finished @ thought @ closures
       @ (case normalizePromptUsage usage of
            None \<Rightarrow> [] | Some payload \<Rightarrow> [plain_event (Projected ''usage.updated'' payload) (Some r)])
       @ [plain_event (run_ending x stopReason err requestedBy) (Some r)]) = Inr es"
    using assms(2) unfolding completePrompt_def Let_def err_def [symmetric]
    by (auto elim!: bindS_InrE simp: requireRunId_run)
  note promote_facts = promote_length [OF promote assms(1)]
  have fin: "length finished \<le> (if as_active u = None then 0 else 2)" "as_tools v = as_tools u"
    using finish finish_length [OF _ promote_facts(3)] drop_length
    by (cases "stopReason = ''end_turn''"; fastforce simp: finishMessageWithOutcome_def)+
  have "length closures = 2 * openItemCount (as_tools s)"
    using closing_length [OF close] end_thought_length(2) [OF think] fin(2) promote_facts(1) by simp
  moreover have "length promoted + length finished \<le> (if as_active s = None \<and> as_fallbackNative s = None then 0 else 3)"
    using fin(1) promote_facts(2) by simp
  moreover have "length (case normalizePromptUsage usage of
            None \<Rightarrow> [] | Some payload \<Rightarrow> [plain_event (Projected ''usage.updated'' payload) (Some r)]) \<le> 1"
    by (simp split: option.split)
  moreover have "retained_items s \<le> 510"
    using assms(1) by (simp add: turn_fits_def MAX_ACP_RETAINED_TURN_ITEMS_def MAX_RUN_TERMINAL_BATCH_EVENTS_def
        MAX_PENDING_DRIVER_EVENTS_def)
  moreover have "length es = length promoted + length finished + length thought + length closures
      + length (case normalizePromptUsage usage of
            None \<Rightarrow> [] | Some payload \<Rightarrow> [plain_event (Projected ''usage.updated'' payload) (Some r)]) + 1"
    unfolding bounded_events [OF bounded] by simp
  ultimately have "length es \<le> 1024"
    using end_thought_length(1) [OF think] by (simp add: retained_items_def split: if_splits)
  then show ?thesis by (simp add: MAX_RUN_TERMINAL_BATCH_EVENTS_def MAX_PENDING_DRIVER_EVENTS_def)
qed

lemma fail_prompt_length:
  assumes "turn_fits env s" "failPrompt env code original recoverable s = (Inr es, t)"
  shows "length es \<le> MAX_RUN_TERMINAL_BATCH_EVENTS"
proof (cases "as_runId s")
  case None
  then show ?thesis using assms(2) by (simp add: failPrompt_def)
next
  case (Some r)
  define message where "message = failure_message env original"
  obtain failed u thought w closures x where
      failed: "failMessage env code message recoverable s = (Inr failed, u)"
    and think: "(if as_thoughtId u = None then returnS []
        else end_thought (\<lambda>i. ThoughtCancelled i message None)) u = (Inr thought, w)"
    and close: "on_tools (total (tools_completeOpen env None r ToolFailed)) w = (Inr closures, x)"
    and bounded: "assertBoundedLosslessEvents env (failed @ thought @ closures
           @ [plain_event (RunFailed code message
                (if message = original then None else Some (ac_utf8_bytes env original)) recoverable None)
                (Some r)]) = Inr es"
    using assms(2) Some unfolding failPrompt_def Let_def message_def [symmetric]
    by (auto elim!: bindS_InrE)
  have think': "length thought \<le> 1" "as_tools w = as_tools u"
    using think end_thought_length by (auto split: if_splits)
  have fail: "length failed \<le> (if as_active s = None then 0 else 1)" "as_tools u = as_tools s"
    using drop_length [OF failed [unfolded failMessage_def]] by simp_all
  have "length closures = 2 * openItemCount (as_tools s)"
    using closing_length [OF close] think'(2) fail(2) by simp
  moreover have "retained_items s \<le> 510"
    using assms(1) by (simp add: turn_fits_def MAX_ACP_RETAINED_TURN_ITEMS_def MAX_RUN_TERMINAL_BATCH_EVENTS_def
        MAX_PENDING_DRIVER_EVENTS_def)
  moreover have "length es = length failed + length thought + length closures + 1"
    unfolding bounded_events [OF bounded] by simp
  ultimately have "length es \<le> 1024"
    using think'(1) fail(1) by (simp add: retained_items_def split: if_splits)
  then show ?thesis by (simp add: MAX_RUN_TERMINAL_BATCH_EVENTS_def MAX_PENDING_DRIVER_EVENTS_def)
qed

end
