(* ===== verification/Acp_Totality.thy ===== *)
theory Acp_Totality
  imports Acp_Bounds
begin

text \<open>
  A turn that has begun can be ended: when no event is too long, each ending gives its events.
\<close>

text \<open>What is relied on: a character takes at most twelve bytes of JSON, and events fit.\<close>

definition events_fit :: "acp_env \<Rightarrow> bool" where
  "events_fit env \<longleftrightarrow>
     (\<forall>e. ac_event_bytes env e \<le> MAX_ACP_LOSSLESS_EVENT_BYTES) \<and> units_fit (acp_coding env) MAX_ACP_MESSAGE_EVENT_TEXT_BYTES"

definition begun :: "acp_state \<Rightarrow> bool" where
  "begun s \<longleftrightarrow> as_runId s \<noteq> None \<and> as_thoughtId s \<noteq> None"

definition succeeds :: "'a acp \<Rightarrow> bool" where
  "succeeds m \<longleftrightarrow> (\<forall>s. begun s \<longrightarrow> (\<exists>x t. m s = (Inr x, t) \<and> begun t))"

lemma succeedsD: "succeeds m \<Longrightarrow> begun s \<Longrightarrow> \<exists>x t. m s = (Inr x, t)"
  unfolding succeeds_def by blast

lemma succeeds_pure: "succeeds (returnS x)" "succeeds (readS f)" "succeeds (liftS (Inr x))"
  by (simp_all add: succeeds_def)

lemma succeeds_bind:
  assumes "succeeds m" "\<And>x. succeeds (f x)"
  shows "succeeds (bindS m f)"
  unfolding succeeds_def
proof (intro allI impI)
  fix s assume "begun s"
  then obtain x u where "m s = (Inr x, u)" "begun u" using assms(1) unfolding succeeds_def by blast
  moreover from this(2) obtain y t where "f x u = (Inr y, t)" "begun t" using assms(2) unfolding succeeds_def by blast
  ultimately show "\<exists>y t. bindS m f s = (Inr y, t) \<and> begun t" by (auto simp: bindS_run)
qed

lemma succeeds_change:
  "(\<And>s. as_runId (f s) = as_runId s \<and> as_thoughtId (f s) = as_thoughtId s) \<Longrightarrow> succeeds (changeS f)"
  by (simp add: succeeds_def begun_def)

lemma succeeds_parts: "succeeds requireRunId" "succeeds requireThoughtId"
  by (auto simp: succeeds_def begun_def requireRunId_def requireThoughtId_def)

lemma succeeds_complete_open: "succeeds (on_tools (total (tools_completeOpen env err r status)))"
  by (auto simp: succeeds_def begun_def on_tools_def total_def split: prod.split)

lemmas succeeds_rules = succeeds_pure succeeds_bind succeeds_change succeeds_parts succeeds_complete_open

lemma bounded_succeeds:
  assumes "events_fit env"
  shows "succeeds (liftS (assertBoundedLosslessEvents env es))"
proof -
  have "find (\<lambda>e. ae_delivery e \<noteq> Some DeliverBestEffort \<and> ac_event_bytes env e > MAX_ACP_LOSSLESS_EVENT_BYTES) es = None"
    using assms unfolding find_None_iff events_fit_def by (simp add: not_less)
  then show ?thesis by (simp add: assertBoundedLosslessEvents_def succeeds_pure)
qed

lemma chunks_succeed:
  assumes "events_fit env" "sound_env env"
  shows "succeeds (liftS (case chunkJsonText (acp_coding env) txt MAX_ACP_MESSAGE_EVENT_TEXT_BYTES
        MAX_ACP_MESSAGE_EVENT_TEXT_BYTES of Inl e \<Rightarrow> Inl (MessageChunk e) | Inr chunks \<Rightarrow> Inr chunks))"
    "succeeds (liftS (case (if txt = [] then Inr []
      else chunkJsonText (acp_coding env) txt MAX_ACP_MESSAGE_EVENT_TEXT_BYTES MAX_ACP_MESSAGE_EVENT_TEXT_BYTES) of
        Inl e \<Rightarrow> Inl (MessageChunk e) | Inr chunks \<Rightarrow> Inr chunks))"
proof -
  have "\<exists>chunks. chunkJsonText (acp_coding env) txt MAX_ACP_MESSAGE_EVENT_TEXT_BYTES MAX_ACP_MESSAGE_EVENT_TEXT_BYTES
      = Inr chunks"
  proof (rule chunkJsonText_total)
    show "units_fit (acp_coding env) MAX_ACP_MESSAGE_EVENT_TEXT_BYTES" using assms(1) by (simp add: events_fit_def)
    show "2 \<le> MAX_ACP_MESSAGE_EVENT_TEXT_BYTES"
      by (simp add: MAX_ACP_MESSAGE_EVENT_TEXT_BYTES_def MAX_ACP_LOSSLESS_EVENT_BYTES_def)
    show "tc_bytes (acp_coding env) [] = 0" using assms(2) by (simp add: acp_coding_def sound_env_def)
  qed (simp add: acp_coding_def)
  then obtain chunks where "chunkJsonText (acp_coding env) txt MAX_ACP_MESSAGE_EVENT_TEXT_BYTES
      MAX_ACP_MESSAGE_EVENT_TEXT_BYTES = Inr chunks" by blast
  then show "succeeds (liftS (case chunkJsonText (acp_coding env) txt MAX_ACP_MESSAGE_EVENT_TEXT_BYTES
        MAX_ACP_MESSAGE_EVENT_TEXT_BYTES of Inl e \<Rightarrow> Inl (MessageChunk e) | Inr chunks \<Rightarrow> Inr chunks))"
    "succeeds (liftS (case (if txt = [] then Inr []
      else chunkJsonText (acp_coding env) txt MAX_ACP_MESSAGE_EVENT_TEXT_BYTES MAX_ACP_MESSAGE_EVENT_TEXT_BYTES) of
        Inl e \<Rightarrow> Inl (MessageChunk e) | Inr chunks \<Rightarrow> Inr chunks))"
    by (simp_all add: succeeds_pure)
qed

lemma settle_native_ids [simp]: "as_runId (settle_native env m s) = as_runId s" "as_thoughtId (settle_native env m s) = as_thoughtId s"
  by (rule settle_native_simps)+

lemma messages_succeed:
  assumes "events_fit env" "sound_env env"
  shows "succeeds (finishMessage env)" "succeeds (drop_message env ending)"
  unfolding finishMessage_def drop_message_def
  by (auto intro!: succeeds_rules chunks_succeed [OF assms] split: option.split)

lemma start_succeeds:
  assumes "events_fit env" "sound_env env"
  shows "succeeds (startMessage env native)"
  unfolding startMessage_def startUnsettledMessage_def
  by (auto intro!: succeeds_rules messages_succeed [OF assms] simp: clearThoughtFallback_def split: option.split)

lemma promote_succeeds:
  assumes "events_fit env" "sound_env env"
  shows "succeeds (promoteThought env)"
  unfolding promoteThought_def
  by (auto intro!: succeeds_rules start_succeeds [OF assms] simp: clearThoughtFallback_def append_text_def split: option.split)

lemma end_thought_succeeds: "succeeds (end_thought ending)"
  unfolding end_thought_def by (auto intro!: succeeds_rules)

lemma ending_succeeds:
  assumes "events_fit env" "sound_env env"
  shows "succeeds (prepare_ending env ending)"
proof -
  have complete: "succeeds (completePrompt env stopReason usage requestedBy)" for stopReason usage requestedBy
    unfolding completePrompt_def Let_def finishMessageWithOutcome_def
    by (auto intro!: succeeds_rules messages_succeed [OF assms] promote_succeeds [OF assms] end_thought_succeeds
        bounded_succeeds [OF assms(1)])
  have fail: "succeeds (failPrompt env code message recoverable)" for code message recoverable
    unfolding succeeds_def
  proof (intro allI impI)
    fix s assume s: "begun s"
    then obtain r where r: "as_runId s = Some r" by (auto simp: begun_def)
    let ?body = "bindS (failMessage env code (failure_message env message) recoverable) (\<lambda>failed.
         bindS (readS as_thoughtId) (\<lambda>thoughtId.
         bindS (if thoughtId = None then returnS []
                else end_thought (\<lambda>i. ThoughtCancelled i (failure_message env message) None)) (\<lambda>thought.
         bindS (on_tools (total (tools_completeOpen env None r ToolFailed))) (\<lambda>closures.
         liftS (assertBoundedLosslessEvents env (failed @ thought @ closures
           @ [plain_event (RunFailed code (failure_message env message)
                (if failure_message env message = message then None else Some (ac_utf8_bytes env message)) recoverable None)
                (Some r)]))))))"
    have "succeeds ?body" unfolding failMessage_def
      by (auto intro!: succeeds_rules messages_succeed [OF assms] end_thought_succeeds bounded_succeeds [OF assms(1)])
    moreover have "failPrompt env code message recoverable s = ?body s"
      by (simp add: failPrompt_def Let_def r)
    ultimately show "\<exists>x t. failPrompt env code message recoverable s = (Inr x, t) \<and> begun t"
      using s unfolding succeeds_def by metis
  qed
  show ?thesis
    by (cases ending) (auto intro!: succeeds_rules complete fail simp: prepare_ending_def)
qed

end
