(* ===== verification/Acp_Properties.thy ===== *)
theory Acp_Properties
  imports Acp_Totality
begin

text \<open>
  The properties of ACP turns: the events of a turn keep to the protocol of Acp_Lifecycle and
  end closed, its terminal events fit one batch, what is refused changes nothing, and a turn
  that has begun can be ended.
\<close>

section \<open>A concrete environment\<close>

primrec plain_json_bytes :: "json \<Rightarrow> nat" where
  "plain_json_bytes JNull = 4"
| "plain_json_bytes (JBool b) = 5"
| "plain_json_bytes (JNum q) = 20"
| "plain_json_bytes (JStr t) = length t + 2"
| "plain_json_bytes (JArr xs) = sum_list (map plain_json_bytes xs) + length xs + 2"
| "plain_json_bytes (JObj m) =
     (\<Sum>k\<in>fset (fmdom m). length k + 4 + (case fmlookup (fmmap plain_json_bytes m) k of None \<Rightarrow> 0 | Some n \<Rightarrow> n)) + 2"

definition plain_env :: acp_env where
  "plain_env =
     \<lparr>ac_display = (\<lambda>_. ''{}''), ac_timestamp = (\<lambda>_. True), ac_utf8_bytes = length, ac_json_bytes = plain_json_bytes,
      ac_event_bytes = (\<lambda>_. 100), ac_ids = (\<lambda>n. replicate n CHR ''i''), ac_startedAt = ''now''\<rparr>"


lemma plain_env_nested: "json_nested plain_env"
  unfolding json_nested_def
proof (intro allI impI)
  fix m :: json_object and k v
  assume look: "fmlookup m k = Some v"
  let ?f = "\<lambda>k. length k + 4 + (case fmlookup (fmmap plain_json_bytes m) k of None \<Rightarrow> 0 | Some n \<Rightarrow> n)"
  have "?f k \<le> (\<Sum>k\<in>fset (fmdom m). ?f k)"
    by (rule member_le_sum) (use look in \<open>auto simp: fmlookup_dom_iff\<close>)
  then have "plain_json_bytes v \<le> plain_json_bytes (JObj m)" using look by simp
  then show "ac_json_bytes plain_env v \<le> ac_json_bytes plain_env (JObj m)" by (simp add: plain_env_def)
qed


definition content_chunk :: "string \<Rightarrow> string \<Rightarrow> json" where
  "content_chunk kind txt = JObj (object_fields
     [(''update'', Some (JObj (object_fields
        [(''sessionUpdate'', Some (JStr kind)),
         (''content'', Some (JObj (object_fields
            [(''type'', Some (JStr ''text'')), (''text'', Some (JStr txt))])))])))])"

definition message_chunk :: json where
  "message_chunk = content_chunk ''agent_message_chunk'' ''Hi''"

definition thought_chunk :: json where
  "thought_chunk = content_chunk ''agent_thought_chunk'' ''Hm''"

lemma chunk_update [simp]:
  "readRecord (Some (record_param (content_chunk kind txt))) ''update'' = Some (object_fields
        [(''sessionUpdate'', Some (JStr kind)),
         (''content'', Some (JObj (object_fields
            [(''type'', Some (JStr ''text'')), (''text'', Some (JStr txt))])))])"
  by (simp add: content_chunk_def record_param_def readRecord_def json_field_def object_fields_def)

lemmas acp_evaluation = translateUpdate_def retaining_kinds_def provider_readString_def readNonEmptyString_def
  json_field_def object_fields_def session_update_def summarizeContentBlock_def acp_begin_def acp_clear_def
  new_acp_state_def no_tools_def with_checkpoint_def bindS_def Let_def

lemmas acp_message_evaluation = messageChunk_def startAnonymousMessage_def startUnsettledMessage_def
  finishMessage_def requireRunId_def requireThoughtId_def nextEventId_def append_text_def active_id_def
  clearThoughtFallback_def thoughtChunk_def thought_message_def ensureThoughtStarted_def decimal.simps
  thoughtContentDeltaBytes_def thoughtContentBytes_def

lemmas acp_bound_evaluation = assertRetainedTurnState_def trimCompletedHistory_def retained_items_def
  openItemCount_def retained_state_def retainedOpenState_def assertBoundedLosslessEvents_def plain_event_def
  plain_env_def nullable_def MAX_ACP_RETAINED_TURN_ITEMS_def MAX_RUN_TERMINAL_BATCH_EVENTS_def
  MAX_PENDING_DRIVER_EVENTS_def MAX_ACP_RETAINED_TURN_BYTES_def MAX_ACP_LOSSLESS_EVENT_BYTES_def
  MAX_RUN_TERMINAL_BATCH_BYTES_def MAX_THOUGHT_CONTENT_BYTES_def acp_coding_def last_unit_def

section \<open>Endings\<close>


lemma plain_feed:
  "\<exists>es s thought terminal t. feed_all plain_env [SessionUpdate thought_chunk, SessionUpdate message_chunk]
       (acp_begin ''m'' ''r'' new_acp_state) = (es, s)
     \<and> publishTerminal plain_env (\<lambda>_. 100) (prepare_ending plain_env (EndPrompt Stop_end_turn None ''user'')) s
       = (Inr (thought, terminal), t)"
  by (simp add: thought_chunk_def message_chunk_def feed_def acp_evaluation acp_message_evaluation acp_bound_evaluation
      publishTerminal_def prepare_ending_def completePrompt_def promoteThought_def end_thought_def on_tools_def
      total_def tools_completeOpen_def settle_native_def chunkJsonText_def MAX_ACP_MESSAGE_EVENT_TEXT_BYTES_def
      run_ending_def normalizePromptUsage_def thoughtContentEvents_def createThoughtContentEvents_def
      MAX_THOUGHT_UPDATE_BYTES_def thought_event_def visible_text_def saved_text_def)

section \<open>Turns\<close>



text \<open>
  C32.  What a turn retains is bounded so that however it ends its terminal events are at most
  \<open>MAX_RUN_TERMINAL_BATCH_EVENTS\<close>, with an open message, a thought that stands in for one and as
  many open tool calls as are admitted.
\<close>

theorem acp_endings_fit_one_batch:
  assumes "json_nested env"
    and "feed_all env inputs (acp_begin messageId runId s0) = (es, s)"
    and "prepare_ending env ending s = (Inr terminal, t)"
  shows "length terminal \<le> MAX_RUN_TERMINAL_BATCH_EVENTS"
proof -
  have "as_runId (acp_begin messageId runId s0) = Some runId" by (simp add: acp_begin_def)
  then have s: "turn_fits env s" "as_runId s = Some runId"
    using feed_all_fits [OF assms(1) begin_fits _ assms(2)] by blast+
  show ?thesis
    using assms(3) complete_prompt_length [OF s(1)] fail_prompt_length [OF s(1)] s(2)
    by (auto simp: prepare_ending_def split: turn_ending.splits)
qed

theorem acp_endings_fit_one_batch_witness:
  "\<exists>es s terminal t.
     feed_all plain_env [SessionUpdate thought_chunk, SessionUpdate message_chunk]
       (acp_begin ''m'' ''r'' new_acp_state) = (es, s)
     \<and> prepare_ending plain_env (EndPrompt Stop_end_turn None ''user'') s = (Inr terminal, t)
     \<and> length terminal \<le> MAX_RUN_TERMINAL_BATCH_EVENTS"
proof -
  obtain es s thought terminal t where run: "feed_all plain_env [SessionUpdate thought_chunk, SessionUpdate message_chunk]
       (acp_begin ''m'' ''r'' new_acp_state) = (es, s)"
    and "publishTerminal plain_env (\<lambda>_. 100) (prepare_ending plain_env (EndPrompt Stop_end_turn None ''user'')) s
       = (Inr (thought, terminal), t)"
    using plain_feed by blast
  then obtain u where "prepare_ending plain_env (EndPrompt Stop_end_turn None ''user'') s = (Inr terminal, u)"
    by (auto simp: publishTerminal_def checkpoint_run elim!: bindS_InrE)
  with run acp_endings_fit_one_batch [OF plain_env_nested run this] show ?thesis by blast
qed






end
