(* ===== verification/Turn_Tracker.thy ===== *)
theory Turn_Tracker
  imports Main "HOL-Library.AList"
begin

text \<open>
  src/src/runtimes/openai/app-server-turn-tracker.ts: which native turns belong to which runs,
  and how each ends.

  A \<open>Map\<close> is an association list in the order of insertion.  A promise is a number; the state
  holds how it was settled.  Abort signals are numbers, and admissions are numbered as they are
  made.  The bytes of a turn identifier and its digest are parameters.
\<close>

section \<open>State\<close>

datatype turn_outcome = TurnCompleted | TurnFailed string

record tracker_env =
  te_bytes :: "string \<Rightarrow> nat"
  te_digest :: "string \<Rightarrow> string"

record active_turn =
  av_signal :: "nat option"
  av_closuresCommitted :: bool
  av_nativeTurnId :: string
  av_promise :: nat
  av_runId :: string

record terminal_turn =
  tt_outcome :: turn_outcome
  tt_runId :: "string option"

record pending_turn =
  pt_admission :: nat
  pt_armed :: bool
  pt_signal :: "nat option"
  pt_closuresCommitted :: bool
  pt_nativeTurnId :: "string option"
  pt_runId :: string
  pt_selectionReleased :: bool

record tracker =
  tk_active :: "(string \<times> active_turn) list"
  tk_ignored :: "(string \<times> unit) list"
  tk_pending :: "pending_turn option"
  tk_enforced :: bool
  tk_settling :: "string set"
  tk_terminal :: "(string \<times> terminal_turn) list"
  tk_started :: "(string \<times> unit) list"
  tk_bounds :: "string option option list"  \<comment> \<open>the promises \<open>boundTurnId\<close>, by admission\<close>
  tk_promises :: "turn_outcome option list"

definition new_tracker :: tracker where
  "new_tracker =
     \<lparr>tk_active = [], tk_ignored = [], tk_pending = None, tk_enforced = False, tk_settling = {}, tk_terminal = [],
      tk_started = [], tk_bounds = [], tk_promises = []\<rparr>"

datatype tracker_error =
  AdmissionPending | AdmissionInactive | AdmissionNotAwaiting | AdmissionOtherTurn
| AdmissionContextChanged | ResponseNotBound | TerminalOfAnotherRun | TrackedByAnotherRun | SignalChanged

definition MAX_RETAINED_TURNS :: nat where
  "MAX_RETAINED_TURNS = 1024"

definition MAX_RETAINED_NATIVE_TURN_ID_BYTES :: nat where
  "MAX_RETAINED_NATIVE_TURN_ID_BYTES = 256"

definition retainedOpenAiTurnKey :: "tracker_env \<Rightarrow> string \<Rightarrow> string" where
  "retainedOpenAiTurnKey env turnId =
     (if te_bytes env turnId \<le> MAX_RETAINED_NATIVE_TURN_ID_BYTES then turnId
      else ''sha256:'' @ te_digest env turnId)"

text \<open>The entry moves to the end, and the oldest goes when there are too many.\<close>

definition rememberBounded :: "string \<Rightarrow> 'a \<Rightarrow> (string \<times> 'a) list \<Rightarrow> (string \<times> 'a) list" where
  "rememberBounded key v m =
     (let kept = AList.delete key m @ [(key, v)]
      in if length kept > MAX_RETAINED_TURNS then tl kept else kept)"

section \<open>Root turn admission\<close>

definition hasTerminal :: "tracker_env \<Rightarrow> string \<Rightarrow> tracker \<Rightarrow> bool" where
  "hasTerminal env turnId s =
     (let key = retainedOpenAiTurnKey env turnId
      in key \<in> tk_settling s \<or> map_of (tk_terminal s) key \<noteq> None)"

definition activeRunId :: "tracker_env \<Rightarrow> string \<Rightarrow> tracker \<Rightarrow> string option" where
  "activeRunId env turnId s =
     (if hasTerminal env turnId s then None
      else map_option av_runId (map_of (tk_active s) (retainedOpenAiTurnKey env turnId)))"

definition admitRootTurn :: "string \<Rightarrow> nat option \<Rightarrow> tracker \<Rightarrow> tracker_error + nat \<times> tracker" where
  "admitRootTurn runId signal s =
     (if tk_pending s \<noteq> None then Inl AdmissionPending
      else Inr (length (tk_bounds s),
        s\<lparr>tk_enforced := True, tk_bounds := tk_bounds s @ [None],
          tk_pending := Some \<lparr>pt_admission = length (tk_bounds s), pt_armed = False, pt_signal = signal,
            pt_closuresCommitted = False, pt_nativeTurnId = None, pt_runId = runId, pt_selectionReleased = False\<rparr>\<rparr>))"

definition admitted_by :: "nat \<Rightarrow> tracker \<Rightarrow> pending_turn option" where
  "admitted_by admission s =
     (case tk_pending s of None \<Rightarrow> None | Some p \<Rightarrow> if pt_admission p = admission then Some p else None)"

definition armRootTurn :: "nat \<Rightarrow> tracker \<Rightarrow> tracker_error + tracker" where
  "armRootTurn admission s =
     (case admitted_by admission s of
        None \<Rightarrow> Inl AdmissionInactive
      | Some p \<Rightarrow>
          if pt_selectionReleased p then Inl AdmissionInactive
          else Inr (s\<lparr>tk_pending := Some (p\<lparr>pt_armed := True\<rparr>)\<rparr>))"

text \<open>A promise is settled once; settling it again does nothing.\<close>

definition resolveBoundTurnId :: "nat \<Rightarrow> string option \<Rightarrow> tracker \<Rightarrow> tracker" where
  "resolveBoundTurnId a v s =
     (if a < length (tk_bounds s) \<and> tk_bounds s ! a = None then s\<lparr>tk_bounds := (tk_bounds s)[a := Some v]\<rparr> else s)"

definition bindRootTurn :: "tracker_env \<Rightarrow> nat \<Rightarrow> string \<Rightarrow> tracker \<Rightarrow> tracker_error + tracker" where
  "bindRootTurn env admission turnId s =
     (case admitted_by admission s of
        None \<Rightarrow> Inl AdmissionInactive
      | Some p \<Rightarrow>
          if \<not> pt_armed p \<or> pt_selectionReleased p then Inl AdmissionNotAwaiting
          else case pt_nativeTurnId p of
            Some bound \<Rightarrow> if bound \<noteq> turnId then Inl AdmissionOtherTurn else Inr s
          | None \<Rightarrow>
              Inr (resolveBoundTurnId admission (Some turnId)
                (s\<lparr>tk_pending := Some (p\<lparr>pt_nativeTurnId := Some turnId\<rparr>),
                   tk_ignored := AList.delete (retainedOpenAiTurnKey env turnId) (tk_ignored s)\<rparr>)))"

text \<open>
  \<open>awaitRootTurnAdmission\<close> answers at once, or waits for the promise of the admission it found;
  \<open>admission_answer\<close> is what it answers once that is settled.
\<close>

datatype admission_wait = Answered bool | AwaitsBound nat

definition ignore_turn :: "tracker_env \<Rightarrow> string \<Rightarrow> tracker \<Rightarrow> tracker" where
  "ignore_turn env turnId s = s\<lparr>tk_ignored := rememberBounded (retainedOpenAiTurnKey env turnId) () (tk_ignored s)\<rparr>"

definition awaitRootTurnAdmission :: "tracker_env \<Rightarrow> string \<Rightarrow> tracker \<Rightarrow> admission_wait \<times> tracker" where
  "awaitRootTurnAdmission env turnId s =
     (case tk_pending s of
        None \<Rightarrow> (Answered (map_of (tk_ignored s) (retainedOpenAiTurnKey env turnId) = None), s)
      | Some p \<Rightarrow>
          if \<not> pt_armed p then (Answered False, ignore_turn env turnId s)
          else (AwaitsBound (pt_admission p), s))"

definition admission_answer :: "tracker_env \<Rightarrow> string \<Rightarrow> string option \<Rightarrow> tracker \<Rightarrow> bool \<times> tracker" where
  "admission_answer env turnId bound s =
     (case bound of
        None \<Rightarrow> (False, s)
      | Some b \<Rightarrow> if b = turnId then (True, s) else (False, ignore_turn env turnId s))"

definition pendingTurnContext :: "string \<Rightarrow> tracker \<Rightarrow> (nat option \<times> string) option" where
  "pendingTurnContext turnId s =
     (case tk_pending s of
        None \<Rightarrow> None
      | Some p \<Rightarrow> if pt_nativeTurnId p = Some turnId then Some (pt_signal p, pt_runId p) else None)"

definition hasPendingRootTurn :: "tracker \<Rightarrow> bool" where
  "hasPendingRootTurn s \<longleftrightarrow> tk_pending s \<noteq> None"

definition admittedTurnId :: "nat \<Rightarrow> tracker \<Rightarrow> string option" where
  "admittedTurnId admission s = Option.bind (admitted_by admission s) pt_nativeTurnId"

definition hasAdmittedTerminalTurn :: "tracker_env \<Rightarrow> tracker \<Rightarrow> bool" where
  "hasAdmittedTerminalTurn env s =
     (case Option.bind (tk_pending s) pt_nativeTurnId of None \<Rightarrow> False | Some turnId \<Rightarrow> hasTerminal env turnId s)"

definition acceptsRootTurn :: "tracker_env \<Rightarrow> string \<Rightarrow> tracker \<Rightarrow> bool" where
  "acceptsRootTurn env turnId s =
     (let key = retainedOpenAiTurnKey env turnId
      in \<not> tk_enforced s \<or> Option.bind (tk_pending s) pt_nativeTurnId = Some turnId
         \<or> map_of (tk_active s) key \<noteq> None \<or> key \<in> tk_settling s \<or> map_of (tk_terminal s) key \<noteq> None)"

section \<open>Tracking\<close>

text \<open>What a caller of \<open>track\<close> waits for: a promise of the state, or one settled already.\<close>

datatype tracked = TrackedPromise nat | TrackedSettled turn_outcome

definition track_turn :: "tracker_env \<Rightarrow> string \<Rightarrow> string \<Rightarrow> nat option \<Rightarrow> tracker \<Rightarrow> tracker_error + tracked \<times> tracker" where
  "track_turn env turnId runId signal s =
     (let key = retainedOpenAiTurnKey env turnId
      in case map_of (tk_terminal s) key of
           Some terminal \<Rightarrow>
             if tt_runId terminal \<noteq> None \<and> tt_runId terminal \<noteq> Some runId then Inl TerminalOfAnotherRun
             else Inr (TrackedSettled (tt_outcome terminal), s)
         | None \<Rightarrow>
             (case map_of (tk_active s) key of
                Some active \<Rightarrow>
                  if av_runId active \<noteq> runId then Inl TrackedByAnotherRun
                  else if av_signal active \<noteq> signal then Inl SignalChanged
                  else Inr (TrackedPromise (av_promise active), s)
              | None \<Rightarrow>
                  let p = length (tk_promises s)
                  in Inr (TrackedPromise p,
                       s\<lparr>tk_promises := tk_promises s @ [None],
                         tk_active := AList.update key
                           \<lparr>av_signal = signal, av_closuresCommitted = False, av_nativeTurnId = turnId,
                            av_promise = p, av_runId = runId\<rparr> (tk_active s)\<rparr>)))"

definition commit_active :: "string \<Rightarrow> bool \<Rightarrow> tracker \<Rightarrow> tracker" where
  "commit_active key committed s =
     (case map_of (tk_active s) key of
        None \<Rightarrow> s
      | Some active \<Rightarrow> s\<lparr>tk_active := AList.update key (active\<lparr>av_closuresCommitted := committed\<rparr>) (tk_active s)\<rparr>)"

definition claimRootTurn ::
    "tracker_env \<Rightarrow> nat \<Rightarrow> string \<Rightarrow> string \<Rightarrow> nat option \<Rightarrow> tracker \<Rightarrow> (tracker_error + tracked) \<times> tracker" where
  "claimRootTurn env admission turnId runId signal s =
     (case admitted_by admission s of
        None \<Rightarrow> (Inl AdmissionInactive, s)
      | Some p \<Rightarrow>
          if pt_runId p \<noteq> runId \<or> pt_signal p \<noteq> signal then (Inl AdmissionContextChanged, s)
          else if pt_nativeTurnId p \<noteq> Some turnId then (Inl ResponseNotBound, s)
          else case track_turn env turnId runId signal (s\<lparr>tk_pending := None\<rparr>) of
            Inl e \<Rightarrow> (Inl e, s\<lparr>tk_pending := None\<rparr>)
          | Inr (tracked, t) \<Rightarrow>
              (Inr tracked, commit_active (retainedOpenAiTurnKey env turnId) (pt_closuresCommitted p) t))"

definition releaseRootTurn :: "nat \<Rightarrow> tracker \<Rightarrow> tracker" where
  "releaseRootTurn admission s =
     (case admitted_by admission s of
        None \<Rightarrow> s | Some p \<Rightarrow> (resolveBoundTurnId admission None s)\<lparr>tk_pending := None\<rparr>)"

definition releaseRootTurnSelection :: "nat \<Rightarrow> tracker \<Rightarrow> tracker" where
  "releaseRootTurnSelection admission s =
     (case admitted_by admission s of
        None \<Rightarrow> s
      | Some p \<Rightarrow>
          if pt_nativeTurnId p = None \<and> \<not> pt_selectionReleased p
          then resolveBoundTurnId admission None (s\<lparr>tk_pending := Some (p\<lparr>pt_selectionReleased := True\<rparr>)\<rparr>)
          else s)"

definition cancellationSignal :: "tracker_env \<Rightarrow> string \<Rightarrow> tracker \<Rightarrow> nat option" where
  "cancellationSignal env turnId s =
     Option.bind (map_of (tk_active s) (retainedOpenAiTurnKey env turnId)) av_signal"

definition completionClosuresCommitted :: "tracker_env \<Rightarrow> string \<Rightarrow> tracker \<Rightarrow> bool" where
  "completionClosuresCommitted env turnId s =
     (case map_of (tk_active s) (retainedOpenAiTurnKey env turnId) of
        Some active \<Rightarrow> av_closuresCommitted active
      | None \<Rightarrow>
          (case tk_pending s of
             None \<Rightarrow> False
           | Some p \<Rightarrow> pt_nativeTurnId p = Some turnId \<and> pt_closuresCommitted p))"

definition markCompletionClosuresCommitted :: "tracker_env \<Rightarrow> string \<Rightarrow> tracker \<Rightarrow> tracker" where
  "markCompletionClosuresCommitted env turnId s =
     (case map_of (tk_active s) (retainedOpenAiTurnKey env turnId) of
        Some active \<Rightarrow> commit_active (retainedOpenAiTurnKey env turnId) True s
      | None \<Rightarrow>
          (case tk_pending s of
             None \<Rightarrow> s
           | Some p \<Rightarrow>
               if pt_nativeTurnId p = Some turnId then s\<lparr>tk_pending := Some (p\<lparr>pt_closuresCommitted := True\<rparr>)\<rparr>
               else s))"

definition activeTurnIds :: "tracker \<Rightarrow> string list" where
  "activeTurnIds s = map (av_nativeTurnId \<circ> snd) (tk_active s)"

definition clearActiveTurns :: "tracker \<Rightarrow> tracker" where
  "clearActiveTurns s =
     (case tk_pending s of None \<Rightarrow> s | Some p \<Rightarrow> resolveBoundTurnId (pt_admission p) None s)
       \<lparr>tk_pending := None, tk_active := [], tk_ignored := [], tk_settling := {}, tk_started := [], tk_terminal := []\<rparr>"

definition markTurnStarted :: "tracker_env \<Rightarrow> string \<Rightarrow> tracker \<Rightarrow> bool \<times> tracker" where
  "markTurnStarted env turnId s =
     (let key = retainedOpenAiTurnKey env turnId
      in if map_of (tk_started s) key \<noteq> None \<or> hasTerminal env turnId s then (False, s)
         else (True, s\<lparr>tk_started := rememberBounded key () (tk_started s)\<rparr>))"

definition hasTurnStarted :: "tracker_env \<Rightarrow> string \<Rightarrow> tracker \<Rightarrow> bool" where
  "hasTurnStarted env turnId s \<longleftrightarrow> map_of (tk_started s) (retainedOpenAiTurnKey env turnId) \<noteq> None"

section \<open>Settlement\<close>

definition settle_promise :: "nat \<Rightarrow> turn_outcome \<Rightarrow> turn_outcome option list \<Rightarrow> turn_outcome option list" where
  "settle_promise p outcome promises =
     (if p < length promises \<and> promises ! p = None then promises[p := Some outcome] else promises)"

definition recordTerminal :: "tracker_env \<Rightarrow> string \<Rightarrow> turn_outcome \<Rightarrow> tracker \<Rightarrow> tracker" where
  "recordTerminal env turnId outcome s =
     (let key = retainedOpenAiTurnKey env turnId;
          active = map_of (tk_active s) key;
          runId = (case active of
                     Some a \<Rightarrow> Some (av_runId a)
                   | None \<Rightarrow> map_option snd (pendingTurnContext turnId s));
          recorded = s\<lparr>tk_started := AList.delete key (tk_started s),
            tk_terminal := rememberBounded key \<lparr>tt_outcome = outcome, tt_runId = runId\<rparr> (tk_terminal s)\<rparr>
      in case active of
           None \<Rightarrow> recorded
         | Some a \<Rightarrow>
             recorded\<lparr>tk_promises := settle_promise (av_promise a) outcome (tk_promises s),
                      tk_active := AList.delete key (tk_active s)\<rparr>)"

definition settle_turn :: "tracker_env \<Rightarrow> string \<Rightarrow> turn_outcome \<Rightarrow> tracker \<Rightarrow> bool \<times> tracker" where
  "settle_turn env turnId outcome s =
     (if hasTerminal env turnId s then (False, s) else (True, recordTerminal env turnId outcome s))"

definition rejectTurn :: "tracker_env \<Rightarrow> string \<Rightarrow> string \<Rightarrow> tracker \<Rightarrow> bool \<times> tracker" where
  "rejectTurn env turnId err s = settle_turn env turnId (TurnFailed err) s"

fun reject_turns :: "tracker_env \<Rightarrow> string list \<Rightarrow> string \<Rightarrow> tracker \<Rightarrow> tracker" where
  "reject_turns env [] err s = s"
| "reject_turns env (turnId # turnIds) err s =
     reject_turns env turnIds err
       (snd (rejectTurn env turnId err (s\<lparr>tk_settling := tk_settling s - {retainedOpenAiTurnKey env turnId}\<rparr>)))"

definition rejectActiveTurns :: "tracker_env \<Rightarrow> string \<Rightarrow> tracker \<Rightarrow> tracker" where
  "rejectActiveTurns env err s = reject_turns env (activeTurnIds s) err s"

definition beginSettlement :: "tracker_env \<Rightarrow> string \<Rightarrow> tracker \<Rightarrow> bool \<times> tracker" where
  "beginSettlement env turnId s =
     (if hasTerminal env turnId s then (False, s)
      else (True, s\<lparr>tk_settling := insert (retainedOpenAiTurnKey env turnId) (tk_settling s)\<rparr>))"

definition cancelSettlement :: "tracker_env \<Rightarrow> string \<Rightarrow> tracker \<Rightarrow> tracker" where
  "cancelSettlement env turnId s = s\<lparr>tk_settling := tk_settling s - {retainedOpenAiTurnKey env turnId}\<rparr>"

definition finishSettlement :: "tracker_env \<Rightarrow> string \<Rightarrow> turn_outcome \<Rightarrow> tracker \<Rightarrow> bool \<times> tracker" where
  "finishSettlement env turnId outcome s =
     (let key = retainedOpenAiTurnKey env turnId;
          t = s\<lparr>tk_settling := tk_settling s - {key}\<rparr>
      in if key \<notin> tk_settling s \<or> map_of (tk_terminal s) key \<noteq> None then (False, t)
         else (True, recordTerminal env turnId outcome t))"

section \<open>The operations of a tracker\<close>

inductive tracker_step :: "tracker_env \<Rightarrow> tracker \<Rightarrow> tracker \<Rightarrow> bool" for env :: tracker_env where
  admits: "admitRootTurn runId signal s = Inr (a, t) \<Longrightarrow> tracker_step env s t"
| arms: "armRootTurn a s = Inr t \<Longrightarrow> tracker_step env s t"
| binds: "bindRootTurn env a turnId s = Inr t \<Longrightarrow> tracker_step env s t"
| awaits: "awaitRootTurnAdmission env turnId s = (w, t) \<Longrightarrow> tracker_step env s t"
| answers: "admission_answer env turnId bound s = (b, t) \<Longrightarrow> tracker_step env s t"
| claims: "claimRootTurn env a turnId runId signal s = (r, t) \<Longrightarrow> tracker_step env s t"
| releases: "tracker_step env s (releaseRootTurn a s)"
| releases_selection: "tracker_step env s (releaseRootTurnSelection a s)"
| commits: "tracker_step env s (markCompletionClosuresCommitted env turnId s)"
| starts: "markTurnStarted env turnId s = (b, t) \<Longrightarrow> tracker_step env s t"
| rejects: "rejectTurn env turnId err s = (b, t) \<Longrightarrow> tracker_step env s t"
| rejects_all: "tracker_step env s (rejectActiveTurns env err s)"
| begins: "beginSettlement env turnId s = (b, t) \<Longrightarrow> tracker_step env s t"
| cancels: "tracker_step env s (cancelSettlement env turnId s)"
| finishes: "finishSettlement env turnId outcome s = (b, t) \<Longrightarrow> tracker_step env s t"
| settles: "settle_turn env turnId outcome s = (b, t) \<Longrightarrow> tracker_step env s t"
| tracks: "track_turn env turnId runId signal s = Inr (r, t) \<Longrightarrow> tracker_step env s t"

text \<open>\<open>clearActiveTurns\<close> forgets the active turns; it is used when the driver stops.\<close>

inductive_cases tracker_stepE: "tracker_step env s t"

end
