(* ===== verification/Turn_Accounts.thy ===== *)
theory Turn_Accounts
  imports Turn_Tracker
begin

text \<open>What a turn tracker accounts for, whatever operations it goes through.\<close>

section \<open>Bounded maps\<close>

definition bounded_map :: "(string \<times> 'a) list \<Rightarrow> bool" where
  "bounded_map m \<longleftrightarrow> distinct (map fst m) \<and> length m \<le> MAX_RETAINED_TURNS"

lemma bounded_empty [simp]: "bounded_map []"
  by (simp add: bounded_map_def)

lemma delete_set: "set (AList.delete k m) = {c \<in> set m. fst c \<noteq> k}"
  by (auto simp: AList.delete_eq)

lemma delete_doms: "fst ` set (AList.delete k m) = fst ` set m - {k}"
  by (auto simp: delete_set)

lemma kept_distinct:
  assumes "distinct (map fst m)"
  shows "distinct (map fst (AList.delete k m @ [(k, v)]))"
  using distinct_delete [OF assms, of k] delete_notin_dom [of k m] by simp

lemma remember_bounded:
  assumes "bounded_map m"
  shows "bounded_map (rememberBounded k v m)"
proof -
  let ?kept = "AList.delete k m @ [(k, v)]"
  have d: "distinct (map fst ?kept)" using assms by (intro kept_distinct) (simp add: bounded_map_def)
  then have "distinct (map fst (tl ?kept))" by (simp add: map_tl distinct_tl)
  moreover have "length ?kept \<le> MAX_RETAINED_TURNS + 1"
    using assms length_delete_le [of k m] by (simp add: bounded_map_def)
  ultimately show ?thesis using d by (auto simp: bounded_map_def rememberBounded_def Let_def)
qed

lemma remember_dom: "fst ` set (rememberBounded k v m) \<subseteq> insert k (fst ` set m)"
proof -
  have tl: "set (tl xs) \<subseteq> set xs" for xs :: "(string \<times> 'a) list" by (cases xs) auto
  have "set (rememberBounded k v m) \<subseteq> set (AList.delete k m @ [(k, v)])"
    unfolding rememberBounded_def Let_def using tl [of "AList.delete k m @ [(k, v)]"] by auto
  then have "fst ` set (rememberBounded k v m) \<subseteq> fst ` set (AList.delete k m @ [(k, v)])" by (rule image_mono)
  also have "\<dots> \<subseteq> insert k (fst ` set m)" using dom_delete_subset [of k m] by auto
  finally show ?thesis .
qed

text \<open>The entry just made is not the one that goes.\<close>

lemma remember_looks_up:
  shows "map_of (rememberBounded k v m) k = Some v"
proof -
  let ?kept = "AList.delete k m @ [(k, v)]"
  have none: "map_of (AList.delete k m) k = None" by (simp add: delete_conv')
  then have kept: "map_of ?kept k = Some v" by (simp add: map_add_def)
  have "map_of (tl ?kept) k = Some v" if big: "MAX_RETAINED_TURNS < length ?kept"
  proof -
    obtain c cs where c: "AList.delete k m = c # cs"
      using big by (cases "AList.delete k m") (simp_all add: MAX_RETAINED_TURNS_def)
    then show ?thesis using none by (cases c) (auto simp: map_add_def split: if_splits)
  qed
  then show ?thesis using kept by (simp add: rememberBounded_def Let_def)
qed

lemma delete_bounded: "bounded_map m \<Longrightarrow> bounded_map (AList.delete k m)"
  using length_delete_le [of k m] by (simp add: bounded_map_def distinct_delete)

section \<open>The accounts\<close>

definition waiting :: "'a option list \<Rightarrow> nat set" where
  "waiting promises = {p. p < length promises \<and> promises ! p = None}"

definition native_keys :: "tracker_env \<Rightarrow> (string \<times> active_turn) set \<Rightarrow> bool" where
  "native_keys env m \<longleftrightarrow> (\<forall>c\<in>m. fst c = retainedOpenAiTurnKey env (av_nativeTurnId (snd c)))"

lemma native_keys_subset: "native_keys env m \<Longrightarrow> m' \<subseteq> m \<Longrightarrow> native_keys env m'"
  by (auto simp: native_keys_def)

lemma native_keys_insert:
  "native_keys env (insert c m) \<longleftrightarrow> fst c = retainedOpenAiTurnKey env (av_nativeTurnId (snd c)) \<and> native_keys env m"
  by (auto simp: native_keys_def)

definition turns_ok :: "tracker_env \<Rightarrow> tracker \<Rightarrow> bool" where
  "turns_ok env s \<longleftrightarrow>
     distinct (map fst (tk_active s)) \<and> bounded_map (tk_terminal s)
     \<and> fst ` set (tk_active s) \<inter> fst ` set (tk_terminal s) = {} \<and> tk_settling s \<inter> fst ` set (tk_terminal s) = {}
     \<and> native_keys env (set (tk_active s))
     \<and> distinct (map (av_promise \<circ> snd) (tk_active s))
     \<and> waiting (tk_promises s) = av_promise ` snd ` set (tk_active s)"

definition admission_ok :: "tracker \<Rightarrow> bool" where
  "admission_ok s \<longleftrightarrow>
     (case tk_pending s of
        None \<Rightarrow> waiting (tk_bounds s) = {}
      | Some p \<Rightarrow>
          pt_admission p < length (tk_bounds s)
          \<and> (case pt_nativeTurnId p of
               Some turnId \<Rightarrow> tk_bounds s ! pt_admission p = Some (Some turnId) \<and> waiting (tk_bounds s) = {}
                 \<and> pt_armed p \<and> \<not> pt_selectionReleased p
             | None \<Rightarrow> waiting (tk_bounds s) = (if pt_selectionReleased p then {} else {pt_admission p})))"

definition histories_ok :: "tracker \<Rightarrow> bool" where
  "histories_ok s \<longleftrightarrow> bounded_map (tk_ignored s) \<and> bounded_map (tk_started s)"

lemma new_tracker_ok: "turns_ok env new_tracker" "admission_ok new_tracker" "histories_ok new_tracker"
  by (simp_all add: turns_ok_def native_keys_def admission_ok_def histories_ok_def new_tracker_def waiting_def)

lemma waiting_append [simp]: "waiting (ps @ [None]) = insert (length ps) (waiting ps)"
  by (auto simp: waiting_def nth_append)

lemma waiting_set: "waiting (ps[p := Some v]) = waiting ps - {p}"
  by (cases "p < length ps") (auto simp: waiting_def nth_list_update)

section \<open>The turns\<close>

lemma turns_ok_frame:
  assumes "turns_ok env s" "tk_active t = tk_active s" "tk_terminal t = tk_terminal s" "tk_promises t = tk_promises s"
    "tk_settling t \<inter> fst ` set (tk_terminal s) = {}"
  shows "turns_ok env t"
  using assms by (simp add: turns_ok_def)

lemma active_update:
  assumes "map_of m k = Some a" "distinct (map fst m)" "av_promise b = av_promise a" "av_nativeTurnId b = av_nativeTurnId a"
  shows "map fst (AList.update k b m) = map fst m"
    "map (av_promise \<circ> snd) (AList.update k b m) = map (av_promise \<circ> snd) m"
    "map (\<lambda>c. (fst c, av_nativeTurnId (snd c))) (AList.update k b m) = map (\<lambda>c. (fst c, av_nativeTurnId (snd c))) m"
  using assms by (induction m) (auto simp: comp_def split: if_splits)

lemma commit_turns:
  assumes "turns_ok env s"
  shows "turns_ok env (commit_active key c s)"
proof (cases "map_of (tk_active s) key")
  case None
  then show ?thesis using assms by (simp add: commit_active_def)
next
  case (Some a)
  let ?m = "AList.update key (a\<lparr>av_closuresCommitted := c\<rparr>) (tk_active s)"
  have d: "distinct (map fst (tk_active s))" using assms by (simp add: turns_ok_def)
  note same = active_update [OF Some d, of "a\<lparr>av_closuresCommitted := c\<rparr>", simplified]
  have keys: "fst ` set ?m = fst ` set (tk_active s)" by (metis same(1) set_map)
  have promises: "av_promise ` snd ` set ?m = av_promise ` snd ` set (tk_active s)"
    by (metis same(2) set_map image_comp)
  have natives: "(\<lambda>c. (fst c, av_nativeTurnId (snd c))) ` set ?m = (\<lambda>c. (fst c, av_nativeTurnId (snd c))) ` set (tk_active s)"
    by (metis same(3) set_map)
  have view: "native_keys env m \<longleftrightarrow>
      (\<forall>x\<in>(\<lambda>c. (fst c, av_nativeTurnId (snd c))) ` m. fst x = retainedOpenAiTurnKey env (snd x))" for m
    by (simp add: native_keys_def)
  have "native_keys env (set (tk_active s))" using assms by (simp add: turns_ok_def)
  then have "native_keys env (set ?m)" unfolding view natives .
  then show ?thesis using assms same keys promises by (simp add: turns_ok_def commit_active_def Some)
qed

lemma update_new: "map_of m k = None \<Longrightarrow> AList.update k v m = m @ [(k, v)]"
  by (induction m) (auto split: if_splits)

lemma track_turns:
  assumes "turns_ok env s" "track_turn env turnId runId signal s = Inr (r, t)"
  shows "turns_ok env t"
proof (cases "t = s")
  case False
  let ?key = "retainedOpenAiTurnKey env turnId"
  let ?a = "\<lparr>av_signal = signal, av_closuresCommitted = False, av_nativeTurnId = turnId,
    av_promise = length (tk_promises s), av_runId = runId\<rparr>"
  have none: "map_of (tk_terminal s) ?key = None" "map_of (tk_active s) ?key = None"
    and t: "t = s\<lparr>tk_promises := tk_promises s @ [None], tk_active := AList.update ?key ?a (tk_active s)\<rparr>"
    using assms(2) False by (auto simp: track_turn_def Let_def split: option.splits if_splits)
  have new: "AList.update ?key ?a (tk_active s) = tk_active s @ [(?key, ?a)]"
    using none(2) by (rule update_new)
  have "length (tk_promises s) \<notin> waiting (tk_promises s)" by (simp add: waiting_def)
  then show ?thesis
    using assms(1) none unfolding t turns_ok_def new
    by (auto simp: map_of_eq_None_iff native_keys_insert)
qed (use assms in simp)

lemma promise_entry:
  assumes "distinct (map fst m)" "distinct (map (av_promise \<circ> snd) m)" "map_of m k = Some a"
  shows "av_promise ` snd ` set (AList.delete k m) = av_promise ` snd ` set m - {av_promise a}"
    "distinct (map (av_promise \<circ> snd) (AList.delete k m))"
proof -
  have ka: "(k, a) \<in> set m" using assms(3) by (rule map_of_SomeD)
  have key: "c = (k, a)" if "c \<in> set m" "fst c = k" for c
    using assms(1) ka that by (auto simp: distinct_map inj_on_def)
  show "av_promise ` snd ` set (AList.delete k m) = av_promise ` snd ` set m - {av_promise a}"
  proof -
    have "c \<in> set (AList.delete k m) \<longleftrightarrow> c \<in> set m - {(k, a)}" for c
      using key [of c] by (cases "fst c = k") (auto simp: delete_set)
    then have "set (AList.delete k m) = set m - {(k, a)}" by blast
    moreover have "inj_on (av_promise \<circ> snd) (set m)" using assms(2) by (simp add: distinct_map)
    ultimately show ?thesis using inj_on_image_set_diff [of "av_promise \<circ> snd" "set m" "set m" "{(k, a)}"] ka
      by (simp add: image_comp)
  qed
  show "distinct (map (av_promise \<circ> snd) (AList.delete k m))"
    using assms(2) by (simp add: AList.delete_eq distinct_map_filter)
qed

lemma settle_promise_waiting:
  "p \<in> waiting promises \<Longrightarrow> settle_promise p outcome promises = promises[p := Some outcome]"
  by (simp add: settle_promise_def waiting_def)

lemma disjoint_insert: "A \<subseteq> insert k B \<Longrightarrow> S \<inter> B = {} \<Longrightarrow> k \<notin> S \<Longrightarrow> S \<inter> A = {}"
  by blast

lemma record_turns:
  assumes "turns_ok env s" "retainedOpenAiTurnKey env turnId \<notin> tk_settling s"
  shows "turns_ok env (recordTerminal env turnId outcome s)"
proof -
  let ?key = "retainedOpenAiTurnKey env turnId"
  have s: "distinct (map fst (tk_active s))" "bounded_map (tk_terminal s)"
    "fst ` set (tk_active s) \<inter> fst ` set (tk_terminal s) = {}" "tk_settling s \<inter> fst ` set (tk_terminal s) = {}"
    "native_keys env (set (tk_active s))"
    "distinct (map (av_promise \<circ> snd) (tk_active s))"
    "waiting (tk_promises s) = av_promise ` snd ` set (tk_active s)"
    using assms(1) by (simp_all add: turns_ok_def)
  have dom: "fst ` set (rememberBounded ?key v (tk_terminal s)) \<subseteq> insert ?key (fst ` set (tk_terminal s))" for v
    by (rule remember_dom)
  have terminal: "tk_settling s \<inter> fst ` set (rememberBounded ?key v (tk_terminal s)) = {}" for v
    by (rule disjoint_insert [OF dom s(4) assms(2)])
  show ?thesis
  proof (cases "map_of (tk_active s) ?key")
    case None
    then have "?key \<notin> fst ` set (tk_active s)" by (simp add: map_of_eq_None_iff)
    then have "fst ` set (tk_active s) \<inter> fst ` set (rememberBounded ?key v (tk_terminal s)) = {}" for v
      by (rule disjoint_insert [OF dom s(3)])
    then show ?thesis
      using s terminal remember_bounded [OF s(2)] None by (simp add: turns_ok_def recordTerminal_def Let_def)
  next
    case (Some a)
    have a: "av_promise a \<in> waiting (tk_promises s)"
    proof -
      have "av_promise (snd (?key, a)) \<in> av_promise ` snd ` set (tk_active s)"
        by (intro imageI) (rule map_of_SomeD [OF Some])
      then show ?thesis unfolding s(7) by simp
    qed
    have "fst ` set (AList.delete ?key (tk_active s)) \<inter> fst ` set (rememberBounded ?key v (tk_terminal s)) = {}" for v
      by (rule disjoint_insert [OF dom]) (use s(3) in \<open>auto simp: delete_doms\<close>)
    moreover have "waiting (settle_promise (av_promise a) outcome (tk_promises s))
        = av_promise ` snd ` set (AList.delete ?key (tk_active s))"
      using promise_entry(1) [OF s(1,6) Some] s(7) a
      by (simp add: settle_promise_waiting waiting_set)
    ultimately show ?thesis
      using s terminal remember_bounded [OF s(2)] Some promise_entry(2) [OF s(1,6) Some] distinct_delete [OF s(1)]
        native_keys_subset [OF s(5), of "set (AList.delete ?key (tk_active s))"]
      by (simp add: turns_ok_def recordTerminal_def Let_def delete_set)
  qed
qed

lemma record_active: "fst ` set (tk_active (recordTerminal env turnId outcome s))
    = fst ` set (tk_active s) - {retainedOpenAiTurnKey env turnId}"
  by (auto simp: recordTerminal_def Let_def delete_doms map_of_eq_None_iff split: option.split)

lemma has_terminal_iff: "hasTerminal env turnId s \<longleftrightarrow>
    retainedOpenAiTurnKey env turnId \<in> tk_settling s \<union> fst ` set (tk_terminal s)"
  by (auto simp: hasTerminal_def Let_def map_of_eq_None_iff)

lemma settle_turns: "turns_ok env s \<Longrightarrow> turns_ok env (snd (settle_turn env turnId outcome s))"
  by (simp add: settle_turn_def has_terminal_iff record_turns)

lemma unsettle_turns: "turns_ok env s \<Longrightarrow> turns_ok env (s\<lparr>tk_settling := tk_settling s - X\<rparr>)"
  by (rule turns_ok_frame [of env s]) (auto simp: turns_ok_def)

lemma begin_turns:
  assumes "turns_ok env s"
  shows "turns_ok env (snd (beginSettlement env turnId s))"
proof (cases "hasTerminal env turnId s")
  case False
  let ?t = "s\<lparr>tk_settling := insert (retainedOpenAiTurnKey env turnId) (tk_settling s)\<rparr>"
  have "tk_settling s \<inter> fst ` set (tk_terminal s) = {}" using assms by (simp add: turns_ok_def)
  then have "tk_settling ?t \<inter> fst ` set (tk_terminal s) = {}" using False by (simp add: has_terminal_iff)
  then have "turns_ok env ?t" by (intro turns_ok_frame [OF assms]) simp_all
  then show ?thesis using False by (simp add: beginSettlement_def)
qed (use assms in \<open>simp add: beginSettlement_def\<close>)

lemma finish_turns: "turns_ok env s \<Longrightarrow> turns_ok env (snd (finishSettlement env turnId outcome s))"
  unfolding finishSettlement_def Let_def
  by (simp add: unsettle_turns record_turns)

section \<open>Rejecting every active turn\<close>

definition failed_in :: "string \<Rightarrow> tracker \<Rightarrow> tracker \<Rightarrow> bool" where
  "failed_in err s t \<longleftrightarrow> length (tk_promises t) = length (tk_promises s)
     \<and> (\<forall>p<length (tk_promises s). tk_promises t ! p = tk_promises s ! p
          \<or> tk_promises s ! p = None \<and> tk_promises t ! p = Some (TurnFailed err))"

lemma failed_in_refl: "failed_in err s s"
  by (simp add: failed_in_def)

lemma failed_in_trans: "failed_in err s t \<Longrightarrow> failed_in err t u \<Longrightarrow> failed_in err s u"
  unfolding failed_in_def by fastforce

lemma reject_fails: "failed_in err s (snd (rejectTurn env turnId err s))"
  by (auto simp: rejectTurn_def settle_turn_def recordTerminal_def Let_def failed_in_def settle_promise_def
      nth_list_update split: option.split)

lemma reject_turns_ok:
  assumes "turns_ok env s" "fst ` set (tk_active s) \<subseteq> retainedOpenAiTurnKey env ` set turnIds"
  shows "turns_ok env (reject_turns env turnIds err s) \<and> failed_in err s (reject_turns env turnIds err s)
    \<and> tk_active (reject_turns env turnIds err s) = []"
  using assms
proof (induction turnIds arbitrary: s)
  case Nil
  then show ?case by (simp add: failed_in_refl)
next
  case (Cons turnId turnIds)
  let ?key = "retainedOpenAiTurnKey env turnId"
  let ?s = "s\<lparr>tk_settling := tk_settling s - {?key}\<rparr>"
  let ?t = "snd (rejectTurn env turnId err ?s)"
  have ok: "turns_ok env ?s" by (rule unsettle_turns [OF Cons.prems(1)])
  have t: "turns_ok env ?t" unfolding rejectTurn_def by (rule settle_turns [OF ok])
  have "fst ` set (tk_active ?t) \<subseteq> fst ` set (tk_active s) - {?key}"
  proof (cases "hasTerminal env turnId ?s")
    case True
    then have "?key \<in> fst ` set (tk_terminal s)" by (simp add: has_terminal_iff)
    moreover have "fst ` set (tk_active s) \<inter> fst ` set (tk_terminal s) = {}" using Cons.prems(1) by (simp add: turns_ok_def)
    ultimately have "?key \<notin> fst ` set (tk_active s)" by blast
    then show ?thesis using True by (simp add: rejectTurn_def settle_turn_def)
  next
    case False
    then show ?thesis by (simp add: rejectTurn_def settle_turn_def record_active)
  qed
  then have "fst ` set (tk_active ?t) \<subseteq> retainedOpenAiTurnKey env ` set turnIds" using Cons.prems(2) by auto
  from Cons.IH [OF t this] have rest: "turns_ok env (reject_turns env turnIds err ?t)"
    "failed_in err ?t (reject_turns env turnIds err ?t)" "tk_active (reject_turns env turnIds err ?t) = []" by blast+
  have "failed_in err s ?t" using reject_fails [of err ?s env turnId] by (simp add: failed_in_def)
  from failed_in_trans [OF this rest(2)] rest(1,3) show ?case by simp
qed

lemma reject_active:
  assumes "turns_ok env s"
  shows "turns_ok env (rejectActiveTurns env err s)" "failed_in err s (rejectActiveTurns env err s)"
    "tk_active (rejectActiveTurns env err s) = []"
proof -
  have "native_keys env (set (tk_active s))" using assms by (simp add: turns_ok_def)
  then have "fst ` set (tk_active s) \<subseteq> retainedOpenAiTurnKey env ` set (activeTurnIds s)"
    by (auto simp: native_keys_def activeTurnIds_def image_comp intro!: rev_image_eqI)
  from reject_turns_ok [OF assms this] show "turns_ok env (rejectActiveTurns env err s)"
    "failed_in err s (rejectActiveTurns env err s)" "tk_active (rejectActiveTurns env err s) = []"
    by (simp_all add: rejectActiveTurns_def)
qed

section \<open>Admissions\<close>

lemma admission_frame:
  "admission_ok s \<Longrightarrow> tk_pending t = tk_pending s \<Longrightarrow> tk_bounds t = tk_bounds s \<Longrightarrow> admission_ok t"
  by (simp only: admission_ok_def)

lemma resolve_simps [simp]:
  "tk_pending (resolveBoundTurnId a v s) = tk_pending s" "tk_active (resolveBoundTurnId a v s) = tk_active s"
  "tk_terminal (resolveBoundTurnId a v s) = tk_terminal s" "tk_settling (resolveBoundTurnId a v s) = tk_settling s"
  "tk_promises (resolveBoundTurnId a v s) = tk_promises s" "tk_ignored (resolveBoundTurnId a v s) = tk_ignored s"
  "tk_started (resolveBoundTurnId a v s) = tk_started s"
  "length (tk_bounds (resolveBoundTurnId a v s)) = length (tk_bounds s)"
  "waiting (tk_bounds (resolveBoundTurnId a v s)) = waiting (tk_bounds s) - {a}"
  by (auto simp: resolveBoundTurnId_def waiting_set) (auto simp: waiting_def)

lemma resolved: "a \<in> waiting (tk_bounds s) \<Longrightarrow> tk_bounds (resolveBoundTurnId a v s) = (tk_bounds s)[a := Some v]"
  by (simp add: resolveBoundTurnId_def waiting_def)

lemma admitted_by_iff: "admitted_by a s = Some p \<longleftrightarrow> tk_pending s = Some p \<and> pt_admission p = a"
  by (auto simp: admitted_by_def split: option.splits)

lemma admit_ok:
  assumes "admission_ok s" "admitRootTurn runId signal s = Inr (a, t)"
  shows "admission_ok t"
  using assms by (auto simp: admitRootTurn_def admission_ok_def split: if_splits)

lemma arm_ok:
  assumes "admission_ok s" "armRootTurn a s = Inr t"
  shows "admission_ok t"
  using assms by (auto simp: armRootTurn_def admission_ok_def admitted_by_iff split: option.splits if_splits)

lemma bind_ok:
  assumes "admission_ok s" "bindRootTurn env a turnId s = Inr t"
  shows "admission_ok t"
proof (cases "t = s")
  case False
  then obtain p where p: "tk_pending s = Some p" "pt_admission p = a" "pt_armed p" "\<not> pt_selectionReleased p"
      "pt_nativeTurnId p = None"
    and t: "t = resolveBoundTurnId a (Some turnId) (s\<lparr>tk_pending := Some (p\<lparr>pt_nativeTurnId := Some turnId\<rparr>),
                   tk_ignored := AList.delete (retainedOpenAiTurnKey env turnId) (tk_ignored s)\<rparr>)"
    using assms(2) by (auto simp: bindRootTurn_def admitted_by_iff split: option.splits if_splits)
  have w: "a < length (tk_bounds s)" "waiting (tk_bounds s) = {a}" using assms(1) p by (simp_all add: admission_ok_def)
  let ?u = "s\<lparr>tk_pending := Some (p\<lparr>pt_nativeTurnId := Some turnId\<rparr>),
                   tk_ignored := AList.delete (retainedOpenAiTurnKey env turnId) (tk_ignored s)\<rparr>"
  have "a \<in> waiting (tk_bounds ?u)" using w by simp
  from resolved [OF this] have "tk_bounds t = (tk_bounds s)[a := Some (Some turnId)]" unfolding t by simp
  then show ?thesis using p w by (simp add: admission_ok_def t waiting_set)
qed (use assms in simp)

lemma release_ok: "admission_ok s \<Longrightarrow> admission_ok (releaseRootTurn a s)"
  by (auto simp: releaseRootTurn_def admission_ok_def admitted_by_iff split: option.splits if_splits)

lemma release_selection_ok: "admission_ok s \<Longrightarrow> admission_ok (releaseRootTurnSelection a s)"
proof (cases "admitted_by a s")
  case (Some p)
  assume ok: "admission_ok s"
  show ?thesis
  proof (cases "pt_nativeTurnId p = None \<and> \<not> pt_selectionReleased p")
    case True
    have p: "tk_pending s = Some p" "pt_admission p = a" using Some by (simp_all add: admitted_by_iff)
    then have "a < length (tk_bounds s)" "waiting (tk_bounds s) = {a}" using ok True by (simp_all add: admission_ok_def)
    then show ?thesis using p True by (simp add: releaseRootTurnSelection_def Some admission_ok_def)
  next
    case False
    then show ?thesis using Some ok by (auto simp: releaseRootTurnSelection_def)
  qed
qed (simp add: releaseRootTurnSelection_def)

lemma mark_ok:
  assumes "turns_ok env s" "admission_ok s"
  shows "turns_ok env (markCompletionClosuresCommitted env turnId s)"
    "admission_ok (markCompletionClosuresCommitted env turnId s)"
proof -
  have committed: "admission_ok (commit_active key c s)" for key c
    by (rule admission_frame [OF assms(2)]) (simp_all add: commit_active_def split: option.split)
  have pending: "admission_ok (s\<lparr>tk_pending := Some (p\<lparr>pt_closuresCommitted := True\<rparr>)\<rparr>)" if "tk_pending s = Some p" for p
    using assms(2) that by (cases "pt_nativeTurnId p") (simp_all add: admission_ok_def)
  show "admission_ok (markCompletionClosuresCommitted env turnId s)"
    unfolding markCompletionClosuresCommitted_def
    using assms(2) committed pending by (cases "tk_pending s") (auto split: option.split)
  have "turns_ok env (s\<lparr>tk_pending := p\<rparr>)" for p
    by (rule turns_ok_frame [OF assms(1)]) (use assms(1) in \<open>simp_all add: turns_ok_def\<close>)
  then show "turns_ok env (markCompletionClosuresCommitted env turnId s)"
    using assms(1) commit_turns [OF assms(1)]
    by (auto simp: markCompletionClosuresCommitted_def split: option.split)
qed

text \<open>A turn that is claimed was bound, and the promise of its binding is settled.\<close>

lemma claimed_turn_ok:
  assumes "turns_ok env s" "admission_ok s" "claimRootTurn env a turnId runId signal s = (r, t)"
  shows "turns_ok env t" "admission_ok t"
proof -
  let ?s = "s\<lparr>tk_pending := None\<rparr>"
  have plain: "turns_ok env ?s" by (rule turns_ok_frame [OF assms(1)]) (use assms(1) in \<open>auto simp: turns_ok_def\<close>)
  have "turns_ok env t \<and> admission_ok t"
  proof (cases "t = s")
    case False
    then obtain p where p: "tk_pending s = Some p" "pt_nativeTurnId p = Some turnId"
      and t: "(case track_turn env turnId runId signal ?s of
            Inl e \<Rightarrow> (Inl e, ?s)
          | Inr (tracked, t) \<Rightarrow>
              (Inr tracked, commit_active (retainedOpenAiTurnKey env turnId) (pt_closuresCommitted p) t)) = (r, t)"
      using assms(3) by (auto simp: claimRootTurn_def admitted_by_iff split: option.splits if_splits)
    have none: "waiting (tk_bounds s) = {}" using assms(2) p by (simp add: admission_ok_def)
    show ?thesis
    proof (cases "track_turn env turnId runId signal ?s")
      case (Inl e)
      then show ?thesis using t plain none by (auto simp: admission_ok_def)
    next
      case (Inr x)
      obtain tracked u where x: "x = (tracked, u)" by (cases x)
      have u: "turns_ok env u" by (rule track_turns [OF plain Inr [unfolded x]])
      have frame: "tk_pending u = None" "tk_bounds u = tk_bounds s"
        using Inr [unfolded x] by (auto simp: track_turn_def Let_def split: option.splits if_splits)
      have "t = commit_active (retainedOpenAiTurnKey env turnId) (pt_closuresCommitted p) u" using t Inr x by simp
      moreover have "tk_pending (commit_active k c u) = None" "tk_bounds (commit_active k c u) = tk_bounds s" for k c
        using frame by (simp_all add: commit_active_def split: option.split)
      ultimately show ?thesis using commit_turns [OF u] none by (simp add: admission_ok_def)
    qed
  qed (use assms in simp)
  then show "turns_ok env t" "admission_ok t" by blast+
qed

section \<open>Every operation\<close>

definition tracker_ok :: "tracker_env \<Rightarrow> tracker \<Rightarrow> bool" where
  "tracker_ok env s \<longleftrightarrow> turns_ok env s \<and> admission_ok s \<and> histories_ok s"

lemma histories_frame:
  "histories_ok s \<Longrightarrow> tk_ignored t = tk_ignored s \<Longrightarrow> tk_started t = tk_started s \<Longrightarrow> histories_ok t"
  by (simp add: histories_ok_def)

lemma commit_frame [simp]:
  "tk_ignored (commit_active k c s) = tk_ignored s" "tk_started (commit_active k c s) = tk_started s"
  "tk_pending (commit_active k c s) = tk_pending s" "tk_bounds (commit_active k c s) = tk_bounds s"
  by (simp_all add: commit_active_def split: option.split)

lemma record_frame:
  "tk_ignored (recordTerminal env turnId outcome s) = tk_ignored s"
  "tk_started (recordTerminal env turnId outcome s) = AList.delete (retainedOpenAiTurnKey env turnId) (tk_started s)"
  "tk_pending (recordTerminal env turnId outcome s) = tk_pending s"
  "tk_bounds (recordTerminal env turnId outcome s) = tk_bounds s"
  by (simp_all add: recordTerminal_def Let_def split: option.split)

lemma track_frame:
  assumes "track_turn env turnId runId signal s = Inr (r, t)"
  shows "tk_ignored t = tk_ignored s" "tk_started t = tk_started s" "tk_pending t = tk_pending s" "tk_bounds t = tk_bounds s"
  using assms by (auto simp: track_turn_def Let_def split: option.splits if_splits)

lemma settle_frame:
  assumes "settle_turn env turnId outcome s = (b, t)"
  shows "tk_pending t = tk_pending s" "tk_bounds t = tk_bounds s" "histories_ok s \<Longrightarrow> histories_ok t"
  using assms by (auto simp: settle_turn_def record_frame histories_ok_def delete_bounded split: if_splits)

lemma reject_all_frame:
  "tk_pending (reject_turns env turnIds err s) = tk_pending s \<and> tk_bounds (reject_turns env turnIds err s) = tk_bounds s
    \<and> (histories_ok s \<longrightarrow> histories_ok (reject_turns env turnIds err s))"
proof (induction turnIds arbitrary: s)
  case (Cons turnId turnIds)
  let ?s = "s\<lparr>tk_settling := tk_settling s - {retainedOpenAiTurnKey env turnId}\<rparr>"
  obtain b t where t: "rejectTurn env turnId err ?s = (b, t)" by (cases "rejectTurn env turnId err ?s")
  note frame = settle_frame [OF t [unfolded rejectTurn_def]]
  have "histories_ok s \<Longrightarrow> histories_ok ?s" by (simp add: histories_ok_def)
  then show ?case using Cons.IH [of t] frame t by simp
qed simp

lemma ignore_ok:
  assumes "tracker_ok env s"
  shows "tracker_ok env (ignore_turn env turnId s)"
proof -
  have s: "turns_ok env s" "admission_ok s" "histories_ok s" using assms by (simp_all add: tracker_ok_def)
  have "turns_ok env (ignore_turn env turnId s)"
    by (rule turns_ok_frame [OF s(1)]) (use s(1) in \<open>simp_all add: ignore_turn_def turns_ok_def\<close>)
  moreover have "admission_ok (ignore_turn env turnId s)"
    by (rule admission_frame [OF s(2)]) (simp_all add: ignore_turn_def)
  ultimately show ?thesis using s(3) by (simp add: tracker_ok_def histories_ok_def ignore_turn_def remember_bounded)
qed

lemma tracker_step_ok:
  assumes "tracker_step env s t" "tracker_ok env s"
  shows "tracker_ok env t"
proof -
  have s: "turns_ok env s" "admission_ok s" "histories_ok s" using assms(2) by (simp_all add: tracker_ok_def)
  have same: "tracker_ok env u" if "tk_active u = tk_active s" "tk_terminal u = tk_terminal s"
    "tk_promises u = tk_promises s" "tk_settling u = tk_settling s" "admission_ok u" "histories_ok u" for u
  proof -
    have "turns_ok env u" by (rule turns_ok_frame [OF s(1) that(1-3)]) (use s(1) that(4) in \<open>simp add: turns_ok_def\<close>)
    then show ?thesis using that(5,6) by (simp add: tracker_ok_def)
  qed
  have inner: "tracker_ok env u" if "turns_ok env u" "tk_pending u = tk_pending s" "tk_bounds u = tk_bounds s"
    "histories_ok u" for u
    using that admission_frame [OF s(2)] by (simp add: tracker_ok_def)
  show ?thesis
    using assms(1)
  proof cases
    case (admits runId signal a)
    then have "tk_active t = tk_active s" "tk_terminal t = tk_terminal s" "tk_promises t = tk_promises s"
      "tk_settling t = tk_settling s" "histories_ok t"
      using s(3) by (auto simp: admitRootTurn_def histories_ok_def split: if_splits)
    then show ?thesis using same admit_ok [OF s(2) admits] by blast
  next
    case (arms a)
    then have "tk_active t = tk_active s" "tk_terminal t = tk_terminal s" "tk_promises t = tk_promises s"
      "tk_settling t = tk_settling s" "histories_ok t"
      using s(3) by (auto simp: armRootTurn_def histories_ok_def split: if_splits option.splits)
    then show ?thesis using same arm_ok [OF s(2) arms] by blast
  next
    case (binds a turnId)
    then have "tk_active t = tk_active s" "tk_terminal t = tk_terminal s" "tk_promises t = tk_promises s"
      "tk_settling t = tk_settling s" "histories_ok t"
      using s(3) by (auto simp: bindRootTurn_def histories_ok_def delete_bounded split: if_splits option.splits)
    then show ?thesis using same bind_ok [OF s(2) binds] by blast
  next
    case (awaits turnId w)
    then have "t = s \<or> t = ignore_turn env turnId s"
      by (auto simp: awaitRootTurnAdmission_def split: option.splits if_splits)
    then show ?thesis using assms(2) ignore_ok by auto
  next
    case (answers turnId bound b)
    then have "t = s \<or> t = ignore_turn env turnId s"
      by (auto simp: admission_answer_def split: option.splits if_splits)
    then show ?thesis using assms(2) ignore_ok by auto
  next
    case (claims a turnId runId signal r)
    have "histories_ok t"
      using claims s(3) by (auto simp: claimRootTurn_def histories_ok_def dest: track_frame
          split: option.splits if_splits sum.splits prod.splits)
    then show ?thesis using claimed_turn_ok [OF s(1,2) claims] by (simp add: tracker_ok_def)
  next
    case (releases a)
    have "histories_ok t" using releases s(3) by (auto simp: releaseRootTurn_def histories_ok_def split: option.splits)
    then show ?thesis using same [of t] release_ok [OF s(2)] releases
      by (auto simp: releaseRootTurn_def split: option.splits)
  next
    case (releases_selection a)
    have "histories_ok t"
      using releases_selection s(3) by (auto simp: releaseRootTurnSelection_def histories_ok_def split: option.splits)
    then show ?thesis using same [of t] release_selection_ok [OF s(2)] releases_selection
      by (auto simp: releaseRootTurnSelection_def split: option.splits)
  next
    case (commits turnId)
    have "histories_ok t"
      using commits s(3) by (auto simp: markCompletionClosuresCommitted_def histories_ok_def split: option.splits)
    then show ?thesis using mark_ok [OF s(1,2)] commits by (simp add: tracker_ok_def)
  next
    case (starts turnId b)
    then have "t = s \<or> t = s\<lparr>tk_started := rememberBounded (retainedOpenAiTurnKey env turnId) () (tk_started s)\<rparr>"
      by (auto simp: markTurnStarted_def Let_def split: if_splits)
    moreover have "admission_ok (s\<lparr>tk_started := m\<rparr>)" for m by (rule admission_frame [OF s(2)]) simp_all
    ultimately show ?thesis using assms(2) same [of t] s(3) by (auto simp: histories_ok_def remember_bounded)
  next
    case (rejects turnId err b)
    then have r: "settle_turn env turnId (TurnFailed err) s = (b, t)" by (simp add: rejectTurn_def)
    have "turns_ok env t" using settle_turns [OF s(1), of turnId "TurnFailed err"] r by simp
    then show ?thesis using inner settle_frame [OF r] s(3) by blast
  next
    case (rejects_all err)
    have "turns_ok env t" using reject_active(1) [OF s(1)] rejects_all by simp
    then show ?thesis using inner reject_all_frame [of env "activeTurnIds s" err s] s(3) rejects_all
      by (simp add: rejectActiveTurns_def)
  next
    case (begins turnId b)
    have "turns_ok env t" using begin_turns [OF s(1), of turnId] begins by simp
    moreover have "tk_pending t = tk_pending s" "tk_bounds t = tk_bounds s" "histories_ok t"
      using begins s(3) by (auto simp: beginSettlement_def histories_ok_def split: if_splits)
    ultimately show ?thesis by (rule inner)
  next
    case (cancels turnId)
    then show ?thesis using inner [of t] unsettle_turns [OF s(1)] s(3) by (simp add: cancelSettlement_def histories_ok_def)
  next
    case (finishes turnId outcome b)
    have "turns_ok env t" using finish_turns [OF s(1), of turnId outcome] finishes by simp
    moreover have "tk_pending t = tk_pending s" "tk_bounds t = tk_bounds s" "histories_ok t"
      using finishes s(3) by (auto simp: finishSettlement_def Let_def record_frame histories_ok_def delete_bounded split: if_splits)
    ultimately show ?thesis by (rule inner)
  next
    case (settles turnId outcome b)
    have "turns_ok env t" using settle_turns [OF s(1), of turnId outcome] settles by simp
    then show ?thesis using inner settle_frame [OF settles] s(3) by blast
  next
    case (tracks turnId runId signal r)
    have "turns_ok env t" by (rule track_turns [OF s(1) tracks])
    moreover have "histories_ok t" using s(3) track_frame [OF tracks] by (simp add: histories_ok_def)
    ultimately show ?thesis using inner track_frame(3,4) [OF tracks] by blast
  qed
qed

lemma reachable_tracker_ok:
  assumes "(tracker_step env)\<^sup>*\<^sup>* new_tracker s"
  shows "tracker_ok env s"
  using assms
proof (induction rule: rtranclp_induct)
  case base
  then show ?case using new_tracker_ok by (simp add: tracker_ok_def)
next
  case (step s t)
  then show ?case using tracker_step_ok by blast
qed

section \<open>Properties\<close>


definition plain_tracker_env :: tracker_env where
  "plain_tracker_env = \<lparr>te_bytes = length, te_digest = rev\<rparr>"

text \<open>A turn is admitted, bound and claimed.\<close>

definition one_turn :: tracker where
  "one_turn = new_tracker\<lparr>tk_enforced := True, tk_bounds := [Some (Some ''t'')], tk_promises := [None],
     tk_active := [(''t'', \<lparr>av_signal = None, av_closuresCommitted = False, av_nativeTurnId = ''t'', av_promise = 0,
       av_runId = ''r''\<rparr>)]\<rparr>"

lemma one_turn_reachable: "(tracker_step plain_tracker_env)\<^sup>*\<^sup>* new_tracker one_turn"
proof -
  let ?p = "\<lparr>pt_admission = 0, pt_armed = False, pt_signal = None, pt_closuresCommitted = False, pt_nativeTurnId = None,
    pt_runId = ''r'', pt_selectionReleased = False\<rparr>"
  let ?s1 = "new_tracker\<lparr>tk_enforced := True, tk_bounds := [None], tk_pending := Some ?p\<rparr>"
  let ?s2 = "?s1\<lparr>tk_pending := Some (?p\<lparr>pt_armed := True\<rparr>)\<rparr>"
  let ?s3 = "?s2\<lparr>tk_pending := Some (?p\<lparr>pt_armed := True, pt_nativeTurnId := Some ''t''\<rparr>), tk_bounds := [Some (Some ''t'')]\<rparr>"
  have s1: "tracker_step plain_tracker_env new_tracker ?s1"
    by (rule admits [of "''r''" None _ 0]) (simp add: admitRootTurn_def new_tracker_def)
  have s2: "tracker_step plain_tracker_env ?s1 ?s2"
    by (rule arms [of 0]) (simp add: armRootTurn_def admitted_by_def new_tracker_def)
  have s3: "tracker_step plain_tracker_env ?s2 ?s3"
    by (rule binds [of _ 0 "''t''"]) (simp add: bindRootTurn_def admitted_by_def new_tracker_def resolveBoundTurnId_def)
  have s4: "tracker_step plain_tracker_env ?s3 one_turn"
    by (rule claims [of _ 0 "''t''" "''r''" None _ "Inr (TrackedPromise 0)"])
      (simp add: claimRootTurn_def admitted_by_def new_tracker_def track_turn_def commit_active_def one_turn_def Let_def
        retainedOpenAiTurnKey_def plain_tracker_env_def MAX_RETAINED_NATIVE_TURN_ID_BYTES_def)
  note steps = converse_rtranclp_into_rtranclp [of "tracker_step plain_tracker_env"]
  show ?thesis by (rule steps [OF s1 steps [OF s2 steps [OF s3 steps [OF s4 rtranclp.rtrancl_refl]]]])
qed


text \<open>
  Rejecting the active turns leaves nobody waiting: every promise still open fails with the
  error, those settled before keep their outcome, and no turn is active, even the turns whose
  settlement was under way.
\<close>

theorem rejecting_leaves_nobody_waiting:
  assumes "(tracker_step env)\<^sup>*\<^sup>* new_tracker s"
  shows "tk_active (rejectActiveTurns env err s) = []
    \<and> length (tk_promises (rejectActiveTurns env err s)) = length (tk_promises s)
    \<and> (\<forall>p<length (tk_promises s). tk_promises (rejectActiveTurns env err s) ! p
         = (if p \<in> waiting (tk_promises s) then Some (TurnFailed err) else tk_promises s ! p))"
proof -
  let ?t = "rejectActiveTurns env err s"
  have ok: "turns_ok env s" using reachable_tracker_ok [OF assms] by (simp add: tracker_ok_def)
  note t = reject_active [OF ok, of err]
  have none: "waiting (tk_promises ?t) = {}" using t(1,3) by (simp add: turns_ok_def)
  have "tk_promises ?t ! p = (if p \<in> waiting (tk_promises s) then Some (TurnFailed err) else tk_promises s ! p)"
    if "p < length (tk_promises s)" for p
  proof -
    have "tk_promises ?t ! p \<noteq> None" using none that t(2) by (auto simp: waiting_def failed_in_def)
    moreover have "tk_promises ?t ! p = tk_promises s ! p
        \<or> tk_promises s ! p = None \<and> tk_promises ?t ! p = Some (TurnFailed err)"
      using t(2) that by (simp add: failed_in_def)
    ultimately show ?thesis using that by (auto simp: waiting_def)
  qed
  then show ?thesis using t(2,3) by (simp add: failed_in_def)
qed

theorem rejecting_leaves_nobody_waiting_witness:
  "tk_promises (rejectActiveTurns plain_tracker_env ''stopped'' one_turn) = [Some (TurnFailed ''stopped'')]"
proof -
  have one: "length (tk_promises one_turn) = 1" "waiting (tk_promises one_turn) = {0}"
    by (auto simp: one_turn_def new_tracker_def waiting_def)
  have "length (tk_promises (rejectActiveTurns plain_tracker_env ''stopped'' one_turn)) = 1"
    "tk_promises (rejectActiveTurns plain_tracker_env ''stopped'' one_turn) ! 0 = Some (TurnFailed ''stopped'')"
    using rejecting_leaves_nobody_waiting [OF one_turn_reachable, of "''stopped''"] one by simp_all
  then show ?thesis by (cases "tk_promises (rejectActiveTurns plain_tracker_env ''stopped'' one_turn)") simp_all
qed

end
