(* ===== verification/Command_Delivery.thy ===== *)
theory Command_Delivery
  imports Main "HOL-Library.AList"
begin

text \<open>
  src/src/core/driver-command-delivery.ts: how the status of each command reaches the host.

  The promises the code chains by \<open>then\<close> are works, numbered as they are made: a work waits
  for the one it was chained to, sends, and is delivered or fails.  The answer of the host to
  a send is a parameter of the step that brings it, and so is the time that passes.  The calls
  of \<open>finish\<close> are kept with the work they await.  A command is its identifier; its identity,
  results and run errors are of any type.
\<close>

section \<open>State\<close>

datatype ('r, 'e) terminal_update = UpdateCancelled | UpdateCompleted "'r option" | UpdateFailed 'e

datatype send_failure = SendRefused string | SendTimedOut | DeadlineElapsed

datatype delivery_error =
  ReplayedWithChanges string | HistoryCapacity | CommandNotTracked string
| AcceptedNotDelivered send_failure | TerminalNotDelivered string send_failure

datatype ('r, 'e) delivery_work = DeliverAccepted | DeliverTerminal "('r, 'e) terminal_update"

text \<open>
  \<open>WorkReady k cause\<close> is the head of the loop before attempt \<open>k\<close>, \<open>WorkSending k\<close> the await of
  its answer.
\<close>

datatype work_state =
  WorkWaiting | WorkReady nat send_failure | WorkSending nat | WorkDelivered | WorkFailed delivery_error

record ('r, 'e) work =
  wk_command :: string
  wk_chained :: bool  \<comment> \<open>part of the chain of a tracked command, not a rejection\<close>
  wk_after :: "nat option"
  wk_work :: "('r, 'e) delivery_work"
  wk_deadline :: nat
  wk_state :: work_state

record ('r, 'e, 'i) tracked_command =
  tr_identity :: 'i
  tr_delivery :: "nat option"
  tr_terminal :: "('r, 'e) terminal_update option"
  tr_terminalTask :: "nat option"

datatype ('r, 'e) finish_await =
  CallAwaits string nat | CallReplays string nat "('r, 'e) terminal_update"
| CallReturned string | CallThrew string delivery_error

record sent_update =
  sn_work :: nat
  sn_time :: nat
  sn_timeout :: nat

record ('r, 'e, 'i) delivery =
  cd_tracked :: "(string \<times> ('r, 'e, 'i) tracked_command) list"
  cd_works :: "('r, 'e) work list"
  cd_calls :: "('r, 'e) finish_await list"
  cd_sent :: "sent_update list"
  cd_now :: nat

record command_receipt =
  cr_replay :: bool
  cr_commandId :: string

definition MAX_TRACKED_COMMANDS :: nat where
  "MAX_TRACKED_COMMANDS = 1024"

definition COMMAND_UPDATE_TIMEOUT_MS :: nat where
  "COMMAND_UPDATE_TIMEOUT_MS = 1000"

definition TERMINAL_UPDATE_MAX_ATTEMPTS :: nat where
  "TERMINAL_UPDATE_MAX_ATTEMPTS = 3"

definition new_delivery :: "('r, 'e, 'i) delivery" where
  "new_delivery = \<lparr>cd_tracked = [], cd_works = [], cd_calls = [], cd_sent = [], cd_now = 0\<rparr>"

section \<open>Sends\<close>

definition set_work :: "nat \<Rightarrow> ('r, 'e) work \<Rightarrow> ('r, 'e, 'i) delivery \<Rightarrow> ('r, 'e, 'i) delivery" where
  "set_work w v d = d\<lparr>cd_works := (cd_works d)[w := v]\<rparr>"

definition add_work :: "('r, 'e) work \<Rightarrow> ('r, 'e, 'i) delivery \<Rightarrow> nat \<times> ('r, 'e, 'i) delivery" where
  "add_work v d = (length (cd_works d), d\<lparr>cd_works := cd_works d @ [v]\<rparr>)"

definition set_tracked :: "string \<Rightarrow> ('r, 'e, 'i) tracked_command \<Rightarrow> ('r, 'e, 'i) delivery \<Rightarrow> ('r, 'e, 'i) delivery" where
  "set_tracked c t d = d\<lparr>cd_tracked := AList.update c t (cd_tracked d)\<rparr>"

definition send_update :: "nat \<Rightarrow> nat \<Rightarrow> ('r, 'e, 'i) delivery \<Rightarrow> ('r, 'e, 'i) delivery" where
  "send_update w timeout d = d\<lparr>cd_sent := cd_sent d @ [\<lparr>sn_work = w, sn_time = cd_now d, sn_timeout = timeout\<rparr>]\<rparr>"

text \<open>The head of the loop of \<open>deliverTerminal\<close>.\<close>

definition attempt_terminal :: "nat \<Rightarrow> ('r, 'e, 'i) delivery \<Rightarrow> ('r, 'e, 'i) delivery" where
  "attempt_terminal w d =
     (let v = cd_works d ! w in
      case wk_state v of
        WorkReady attempt cause \<Rightarrow>
          if attempt \<le> TERMINAL_UPDATE_MAX_ATTEMPTS \<and> cd_now d < wk_deadline v
          then set_work w (v\<lparr>wk_state := WorkSending attempt\<rparr>) (send_update w (wk_deadline v - cd_now d) d)
          else set_work w (v\<lparr>wk_state := WorkFailed (TerminalNotDelivered (wk_command v) cause)\<rparr>) d
      | _ \<Rightarrow> d)"

definition deliverTerminal :: "nat \<Rightarrow> ('r, 'e, 'i) delivery \<Rightarrow> ('r, 'e, 'i) delivery" where
  "deliverTerminal w d =
     attempt_terminal w
       (set_work w ((cd_works d ! w)\<lparr>wk_deadline := cd_now d + COMMAND_UPDATE_TIMEOUT_MS,
                                    wk_state := WorkReady 1 DeadlineElapsed\<rparr>) d)"

text \<open>A work starts once the work it is chained to is delivered, and fails with it otherwise.\<close>

definition after_state :: "nat option \<Rightarrow> ('r, 'e, 'i) delivery \<Rightarrow> work_state" where
  "after_state after d = (case after of None \<Rightarrow> WorkDelivered | Some p \<Rightarrow> wk_state (cd_works d ! p))"

definition start_work :: "nat \<Rightarrow> ('r, 'e, 'i) delivery \<Rightarrow> ('r, 'e, 'i) delivery" where
  "start_work w d =
     (let v = cd_works d ! w in
      case after_state (wk_after v) d of
        WorkDelivered \<Rightarrow>
          (case wk_work v of
             DeliverAccepted \<Rightarrow>
               set_work w (v\<lparr>wk_deadline := cd_now d + COMMAND_UPDATE_TIMEOUT_MS, wk_state := WorkSending 1\<rparr>)
                 (send_update w COMMAND_UPDATE_TIMEOUT_MS d)
           | DeliverTerminal _ \<Rightarrow> deliverTerminal w d)
      | WorkFailed e \<Rightarrow> set_work w (v\<lparr>wk_state := WorkFailed e\<rparr>) d
      | _ \<Rightarrow> d)"

text \<open>
  The answer to a send.  The first reaction to a delivered terminal task forgets it, before
  any call that awaits it goes on.
\<close>

definition forget_task :: "string \<Rightarrow> nat \<Rightarrow> ('r, 'e, 'i) delivery \<Rightarrow> ('r, 'e, 'i) delivery" where
  "forget_task c w d =
     (case map_of (cd_tracked d) c of
        Some t \<Rightarrow> if tr_terminalTask t = Some w then set_tracked c (t\<lparr>tr_terminalTask := None\<rparr>) d else d
      | None \<Rightarrow> d)"

definition answer_send :: "nat \<Rightarrow> send_failure option \<Rightarrow> ('r, 'e, 'i) delivery \<Rightarrow> ('r, 'e, 'i) delivery" where
  "answer_send w failure d =
     (let v = cd_works d ! w in
      case wk_state v of
        WorkSending attempt \<Rightarrow>
          (case failure of
             None \<Rightarrow> forget_task (wk_command v) w (set_work w (v\<lparr>wk_state := WorkDelivered\<rparr>) d)
           | Some f \<Rightarrow>
               (case wk_work v of
                  DeliverAccepted \<Rightarrow> set_work w (v\<lparr>wk_state := WorkFailed (AcceptedNotDelivered f)\<rparr>) d
                | DeliverTerminal _ \<Rightarrow>
                    attempt_terminal w (set_work w (v\<lparr>wk_state := WorkReady (attempt + 1) f\<rparr>) d)))
      | _ \<Rightarrow> d)"

section \<open>The operations\<close>

definition delivery_replay :: "('r, 'e, 'i) delivery \<Rightarrow> string \<Rightarrow> 'i \<Rightarrow> delivery_error + command_receipt option" where
  "delivery_replay d commandId identity =
     (case map_of (cd_tracked d) commandId of
        Some t \<Rightarrow> if tr_identity t \<noteq> identity then Inl (ReplayedWithChanges commandId)
                  else Inr (Some \<lparr>cr_replay = True, cr_commandId = commandId\<rparr>)
      | None \<Rightarrow> Inr None)"

definition delivery_receive ::
    "string \<Rightarrow> 'i \<Rightarrow> ('r, 'e, 'i) delivery \<Rightarrow> delivery_error + (command_receipt \<times> ('r, 'e, 'i) delivery)" where
  "delivery_receive commandId identity d =
     (case delivery_replay d commandId identity of
        Inl e \<Rightarrow> Inl e
      | Inr (Some receipt) \<Rightarrow> Inr (receipt, d)
      | Inr None \<Rightarrow>
          if length (cd_tracked d) \<ge> MAX_TRACKED_COMMANDS then Inl HistoryCapacity
          else Inr (\<lparr>cr_replay = False, cr_commandId = commandId\<rparr>,
                    set_tracked commandId
                      \<lparr>tr_identity = identity, tr_delivery = None, tr_terminal = None, tr_terminalTask = None\<rparr> d))"

definition command_has_terminal :: "('r, 'e, 'i) delivery \<Rightarrow> string \<Rightarrow> bool" where
  "command_has_terminal d commandId \<longleftrightarrow> Option.bind (map_of (cd_tracked d) commandId) tr_terminal \<noteq> None"

definition delivery_reject :: "string \<Rightarrow> ('r, 'e) terminal_update \<Rightarrow> ('r, 'e, 'i) delivery \<Rightarrow> ('r, 'e, 'i) delivery" where
  "delivery_reject commandId update d =
     (case add_work \<lparr>wk_command = commandId, wk_chained = False, wk_after = None,
                     wk_work = DeliverTerminal update, wk_deadline = 0, wk_state = WorkWaiting\<rparr> d of
        (w, d') \<Rightarrow> deliverTerminal w d')"

definition chain_work :: "string \<Rightarrow> ('r, 'e, 'i) tracked_command \<Rightarrow> ('r, 'e) delivery_work
    \<Rightarrow> ('r, 'e, 'i) delivery \<Rightarrow> nat \<times> ('r, 'e, 'i) delivery" where
  "chain_work commandId t todo d =
     add_work \<lparr>wk_command = commandId, wk_chained = True, wk_after = tr_delivery t, wk_work = todo,
               wk_deadline = 0, wk_state = WorkWaiting\<rparr> d"

definition delivery_accept :: "string \<Rightarrow> ('r, 'e, 'i) delivery \<Rightarrow> ('r, 'e, 'i) delivery" where
  "delivery_accept commandId d =
     (case map_of (cd_tracked d) commandId of
        None \<Rightarrow> d
      | Some t \<Rightarrow>
          (case chain_work commandId t DeliverAccepted d of
             (w, d') \<Rightarrow> set_tracked commandId (t\<lparr>tr_delivery := Some w\<rparr>) d'))"

text \<open>\<open>finish\<close> up to its first await: what the call goes on with, and the state.\<close>

definition delivery_finish ::
    "string \<Rightarrow> ('r, 'e) terminal_update \<Rightarrow> bool \<Rightarrow> ('r, 'e, 'i) delivery
      \<Rightarrow> ('r, 'e) finish_await \<times> ('r, 'e, 'i) delivery" where
  "delivery_finish commandId update replay d =
     (case map_of (cd_tracked d) commandId of
        None \<Rightarrow> (CallThrew commandId (CommandNotTracked commandId), d)
      | Some tracked \<Rightarrow>
          let terminal = (case tr_terminal tracked of Some t \<Rightarrow> t | None \<Rightarrow> update);
              tracked = tracked\<lparr>tr_terminal := Some terminal\<rparr>
          in case tr_terminalTask tracked of
               Some w \<Rightarrow> (if replay then CallReplays commandId w terminal else CallAwaits commandId w,
                          set_tracked commandId tracked d)
             | None \<Rightarrow>
                 (case chain_work commandId tracked (DeliverTerminal terminal) d of
                    (w, d') \<Rightarrow>
                      (CallAwaits commandId w,
                       set_tracked commandId (tracked\<lparr>tr_delivery := Some w, tr_terminalTask := Some w\<rparr>) d')))"

definition call_finish :: "string \<Rightarrow> ('r, 'e) terminal_update \<Rightarrow> bool \<Rightarrow> ('r, 'e, 'i) delivery
    \<Rightarrow> ('r, 'e, 'i) delivery" where
  "call_finish commandId update replay d =
     (case delivery_finish commandId update replay d of
        (call, d') \<Rightarrow> d'\<lparr>cd_calls := cd_calls d' @ [call]\<rparr>)"

text \<open>A call goes on when the work it awaits has ended.\<close>

definition resume_call :: "nat \<Rightarrow> ('r, 'e, 'i) delivery \<Rightarrow> ('r, 'e, 'i) delivery" where
  "resume_call i d =
     (let put = (\<lambda>(call, d'). d'\<lparr>cd_calls := (cd_calls d')[i := call]\<rparr>) in
      case cd_calls d ! i of
        CallAwaits c w \<Rightarrow>
          (case wk_state (cd_works d ! w) of
             WorkDelivered \<Rightarrow> put (CallReturned c, d)
           | WorkFailed e \<Rightarrow> put (CallThrew c e, d)
           | _ \<Rightarrow> d)
      | CallReplays c w terminal \<Rightarrow>
          (case wk_state (cd_works d ! w) of
             WorkDelivered \<Rightarrow> put (delivery_finish c terminal False d)
           | WorkFailed e \<Rightarrow> put (CallThrew c e, d)
           | _ \<Rightarrow> d)
      | _ \<Rightarrow> d)"

section \<open>The terminal of a run\<close>

definition RUN_TERMINAL_UPDATE_ATTEMPT_TIMEOUT_MS :: nat where
  "RUN_TERMINAL_UPDATE_ATTEMPT_TIMEOUT_MS = 250"

text \<open>
  The host's clock at the head of the loop and its answer, by attempt; the result has the
  time limits of the attempts that were made.
\<close>

fun run_attempts :: "(nat \<Rightarrow> nat \<times> send_failure option) \<Rightarrow> nat \<Rightarrow> nat \<Rightarrow> nat \<Rightarrow> send_failure
    \<Rightarrow> nat list \<times> (send_failure + unit)" where
  "run_attempts host deadline attempt 0 cause = ([], Inl cause)"
| "run_attempts host deadline attempt (Suc left) cause =
     (case host attempt of
        (now, failure) \<Rightarrow>
          if deadline \<le> now then ([], Inl cause)
          else
            let timeout = min (deadline - now) RUN_TERMINAL_UPDATE_ATTEMPT_TIMEOUT_MS
            in case failure of
                 None \<Rightarrow> ([timeout], Inr ())
               | Some f \<Rightarrow>
                   (case run_attempts host deadline (attempt + 1) left f of (timeouts, r) \<Rightarrow> (timeout # timeouts, r)))"

definition deliverRunTerminal :: "(nat \<Rightarrow> nat \<times> send_failure option) \<Rightarrow> nat \<Rightarrow> nat list \<times> (send_failure + unit)" where
  "deliverRunTerminal host now =
     run_attempts host (now + COMMAND_UPDATE_TIMEOUT_MS) 1 TERMINAL_UPDATE_MAX_ATTEMPTS DeadlineElapsed"

lemma run_attempts_bounded:
  "length (fst (run_attempts host deadline attempt left cause)) \<le> left
    \<and> (\<forall>t\<in>set (fst (run_attempts host deadline attempt left cause)). t \<le> RUN_TERMINAL_UPDATE_ATTEMPT_TIMEOUT_MS)"
proof (induction left arbitrary: attempt cause)
  case (Suc left)
  then show ?case
    by (auto simp: Let_def split: prod.split option.split) (metis fst_conv Suc.IH)+
qed simp

section \<open>Steps\<close>

inductive delivery_step :: "('r, 'e, 'i) delivery \<Rightarrow> ('r, 'e, 'i) delivery \<Rightarrow> bool" where
  receives: "delivery_receive c identity d = Inr (receipt, d') \<Longrightarrow> delivery_step d d'"
| accepts: "delivery_step d (delivery_accept c d)"
| finishes: "delivery_step d (call_finish c update replay d)"
| rejects: "delivery_step d (delivery_reject c update d)"
| starts: "w < length (cd_works d) \<Longrightarrow> wk_state (cd_works d ! w) = WorkWaiting \<Longrightarrow> delivery_step d (start_work w d)"
| answers: "w < length (cd_works d) \<Longrightarrow> wk_state (cd_works d ! w) = WorkSending k
    \<Longrightarrow> delivery_step d (answer_send w failure d)"
| resumes: "i < length (cd_calls d) \<Longrightarrow> delivery_step d (resume_call i d)"
| waits: "delivery_step d (d\<lparr>cd_now := cd_now d + ms\<rparr>)"

inductive delivery_reached :: "('r, 'e, 'i) delivery \<Rightarrow> bool" where
  start: "delivery_reached new_delivery"
| step: "delivery_reached d \<Longrightarrow> delivery_step d d' \<Longrightarrow> delivery_reached d'"

end
