(* ===== verification/Command_Accounts.thy ===== *)
theory Command_Accounts
  imports Command_Delivery
begin

text \<open>What the delivery of command statuses keeps, whatever it goes through.\<close>

section \<open>Invariant\<close>

definition in_chain :: "('r, 'e) work list \<Rightarrow> string \<Rightarrow> nat \<Rightarrow> bool" where
  "in_chain ws c w \<longleftrightarrow> wk_chained (ws ! w) \<and> wk_command (ws ! w) = c"

definition terminal_work :: "('r, 'e) work \<Rightarrow> bool" where
  "terminal_work v \<longleftrightarrow> wk_work v \<noteq> DeliverAccepted"

text \<open>The newest work of a chain below a number.\<close>

definition newest :: "('r, 'e) work list \<Rightarrow> string \<Rightarrow> nat \<Rightarrow> nat option \<Rightarrow> bool" where
  "newest ws c n p \<longleftrightarrow>
     (case p of
        None \<Rightarrow> \<forall>q<n. \<not> in_chain ws c q
      | Some p \<Rightarrow> p < n \<and> in_chain ws c p \<and> (\<forall>q. p < q \<and> q < n \<longrightarrow> \<not> in_chain ws c q))"

definition work_delivered :: "('r, 'e) work list \<Rightarrow> nat option \<Rightarrow> bool" where
  "work_delivered ws p \<longleftrightarrow> (case p of None \<Rightarrow> True | Some p \<Rightarrow> wk_state (ws ! p) = WorkDelivered)"

fun state_ok :: "bool \<Rightarrow> nat \<Rightarrow> nat \<Rightarrow> work_state \<Rightarrow> bool" where
  "state_ok terminal deadline sends WorkWaiting \<longleftrightarrow> deadline = 0 \<and> sends = 0"
| "state_ok terminal deadline sends (WorkReady k cause) \<longleftrightarrow>
     deadline \<noteq> 0 \<and> terminal \<and> 0 < k \<and> sends = k - 1 \<and> sends \<le> TERMINAL_UPDATE_MAX_ATTEMPTS"
| "state_ok terminal deadline sends (WorkSending k) \<longleftrightarrow>
     deadline \<noteq> 0 \<and> sends = k \<and> sends \<le> (if terminal then TERMINAL_UPDATE_MAX_ATTEMPTS else 1)"
| "state_ok terminal deadline sends WorkDelivered \<longleftrightarrow>
     deadline \<noteq> 0 \<and> sends \<le> (if terminal then TERMINAL_UPDATE_MAX_ATTEMPTS else 1)"
| "state_ok terminal deadline sends (WorkFailed e) \<longleftrightarrow>
     sends \<le> (if terminal then TERMINAL_UPDATE_MAX_ATTEMPTS else 1)"

definition sends_of :: "sent_update list \<Rightarrow> nat \<Rightarrow> nat" where
  "sends_of sent w = length (filter (\<lambda>e. sn_work e = w) sent)"

definition work_ok :: "('r, 'e, 'i) delivery \<Rightarrow> nat \<Rightarrow> bool" where
  "work_ok d w \<longleftrightarrow>
     (let v = cd_works d ! w in
      (if wk_chained v
       then newest (cd_works d) (wk_command v) w (wk_after v)
         \<and> (\<exists>t. map_of (cd_tracked d) (wk_command v) = Some t
              \<and> (\<forall>u. wk_work v = DeliverTerminal u \<longrightarrow> tr_terminal t = Some u))
       else wk_after v = None)
      \<and> (wk_deadline v \<noteq> 0 \<longrightarrow> work_delivered (cd_works d) (wk_after v))
      \<and> state_ok (terminal_work v) (wk_deadline v) (sends_of (cd_sent d) w) (wk_state v))"

definition works_ok :: "('r, 'e, 'i) delivery \<Rightarrow> bool" where
  "works_ok d \<longleftrightarrow> (\<forall>w<length (cd_works d). work_ok d w)"

definition awaits_terminal :: "('r, 'e) work list \<Rightarrow> string \<Rightarrow> nat \<Rightarrow> bool" where
  "awaits_terminal ws c w \<longleftrightarrow> w < length ws \<and> in_chain ws c w \<and> terminal_work (ws ! w)"

definition tracked_ok :: "('r, 'e, 'i) delivery \<Rightarrow> bool" where
  "tracked_ok d \<longleftrightarrow> distinct (map fst (cd_tracked d)) \<and> length (cd_tracked d) \<le> MAX_TRACKED_COMMANDS
     \<and> (\<forall>c t. map_of (cd_tracked d) c = Some t
          \<longrightarrow> newest (cd_works d) c (length (cd_works d)) (tr_delivery t)
            \<and> (\<forall>w. tr_terminalTask t = Some w \<longrightarrow> awaits_terminal (cd_works d) c w))"

definition sent_ok :: "('r, 'e, 'i) delivery \<Rightarrow> bool" where
  "sent_ok d \<longleftrightarrow>
     (\<forall>e\<in>set (cd_sent d). sn_work e < length (cd_works d)
        \<and> 0 < sn_timeout e \<and> sn_timeout e \<le> COMMAND_UPDATE_TIMEOUT_MS
        \<and> sn_time e + sn_timeout e = wk_deadline (cd_works d ! sn_work e))"

definition deadlines_ok :: "('r, 'e, 'i) delivery \<Rightarrow> bool" where
  "deadlines_ok d \<longleftrightarrow> (\<forall>v\<in>set (cd_works d). wk_deadline v \<le> cd_now d + COMMAND_UPDATE_TIMEOUT_MS)"

fun call_ok :: "('r, 'e) work list \<Rightarrow> ('r, 'e) finish_await \<Rightarrow> bool" where
  "call_ok ws (CallAwaits c w) \<longleftrightarrow> awaits_terminal ws c w"
| "call_ok ws (CallReplays c w u) \<longleftrightarrow> awaits_terminal ws c w"
| "call_ok ws (CallReturned c) \<longleftrightarrow> (\<exists>w. awaits_terminal ws c w \<and> wk_state (ws ! w) = WorkDelivered)"
| "call_ok ws (CallThrew c e) \<longleftrightarrow> True"

definition calls_ok :: "('r, 'e, 'i) delivery \<Rightarrow> bool" where
  "calls_ok d \<longleftrightarrow> (\<forall>call\<in>set (cd_calls d). call_ok (cd_works d) call)"

definition delivery_ok :: "('r, 'e, 'i) delivery \<Rightarrow> bool" where
  "delivery_ok d \<longleftrightarrow> works_ok d \<and> tracked_ok d \<and> sent_ok d \<and> deadlines_ok d \<and> calls_ok d"

section \<open>A work moves on\<close>

lemma nth_moved:
  assumes "w < length ws"
  shows "ws[w := (ws ! w)\<lparr>wk_deadline := dl, wk_state := st\<rparr>] ! q
    = (if q = w then (ws ! w)\<lparr>wk_deadline := dl, wk_state := st\<rparr> else ws ! q)"
  using assms by (cases "q < length ws") (auto simp: nth_list_update)

lemma moved_same:
  fixes dl :: nat and st :: work_state
  assumes "w < length ws"
  defines "ws' \<equiv> ws[w := (ws ! w)\<lparr>wk_deadline := dl, wk_state := st\<rparr>]"
  shows "in_chain ws' c q = in_chain ws c q" "newest ws' c n p = newest ws c n p"
    "awaits_terminal ws' c q = awaits_terminal ws c q"
    "terminal_work (ws' ! q) = terminal_work (ws ! q)"
proof -
  show chain: "in_chain ws' c q = in_chain ws c q" for q
    unfolding ws'_def in_chain_def nth_moved [OF assms(1)] by simp
  show "newest ws' c n p = newest ws c n p" by (simp add: newest_def chain split: option.split)
  show kind: "terminal_work (ws' ! q) = terminal_work (ws ! q)" for q
    unfolding ws'_def terminal_work_def nth_moved [OF assms(1)] by simp
  show "awaits_terminal ws' c q = awaits_terminal ws c q"
    by (simp add: awaits_terminal_def chain kind) (simp add: ws'_def)
qed

definition move_work :: "nat \<Rightarrow> nat \<Rightarrow> work_state \<Rightarrow> sent_update list \<Rightarrow> ('r, 'e, 'i) delivery \<Rightarrow> ('r, 'e, 'i) delivery" where
  "move_work w dl st sent d =
     d\<lparr>cd_works := (cd_works d)[w := (cd_works d ! w)\<lparr>wk_deadline := dl, wk_state := st\<rparr>],
       cd_sent := cd_sent d @ sent\<rparr>"

lemma move_work_ok:
  fixes d :: "('r, 'e, 'i) delivery"
  assumes ok: "delivery_ok d" and w: "w < length (cd_works d)"
    and open_work: "wk_state (cd_works d ! w) \<noteq> WorkDelivered"
    and dl: "wk_deadline (cd_works d ! w) = dl \<or> wk_state (cd_works d ! w) = WorkWaiting"
    and bound: "dl \<le> cd_now d + COMMAND_UPDATE_TIMEOUT_MS"
    and after: "dl \<noteq> 0 \<Longrightarrow> work_delivered (cd_works d) (wk_after (cd_works d ! w))"
    and sent: "\<And>e. e \<in> set sent \<Longrightarrow> sn_work e = w \<and> 0 < sn_timeout e
        \<and> sn_timeout e \<le> COMMAND_UPDATE_TIMEOUT_MS \<and> sn_time e + sn_timeout e = dl"
    and state: "state_ok (terminal_work (cd_works d ! w)) dl (sends_of (cd_sent d) w + length sent) st"
  shows "delivery_ok (move_work w dl st sent d)"
proof -
  let ?ws = "cd_works d" and ?d = "move_work w dl st sent d"
  let ?v = "(?ws ! w)\<lparr>wk_deadline := dl, wk_state := st\<rparr>"
  have ws: "cd_works ?d = ?ws[w := ?v]" "cd_tracked ?d = cd_tracked d" "cd_sent ?d = cd_sent d @ sent"
    "cd_calls ?d = cd_calls d" "cd_now ?d = cd_now d"
    by (simp_all add: move_work_def)
  note same = moved_same [OF w, where dl = dl and st = st]
  have at: "cd_works ?d ! q = (if q = w then ?v else ?ws ! q)" for q
    unfolding ws by (rule nth_moved [OF w])
  have len: "length (cd_works ?d) = length ?ws" by (simp add: ws)
  have okd: "works_ok d" "tracked_ok d" "sent_ok d" "deadlines_ok d" "calls_ok d"
    using ok by (simp_all add: delivery_ok_def)
  have ww: "work_ok d w" using okd(1) w by (simp add: works_ok_def)
  have sends: "sends_of (cd_sent ?d) q = sends_of (cd_sent d) q + (if q = w then length sent else 0)" for q
  proof -
    have "filter (\<lambda>e. sn_work e = w) sent = sent" using sent by (simp add: filter_id_conv)
    moreover have "q \<noteq> w \<Longrightarrow> filter (\<lambda>e. sn_work e = q) sent = []" using sent by (auto simp: filter_empty_conv)
    ultimately show ?thesis by (auto simp: sends_of_def ws)
  qed
  have mono: "work_delivered ?ws p \<Longrightarrow> work_delivered (cd_works ?d) p" for p
    using open_work by (auto simp: work_delivered_def at split: option.splits)
  have "work_ok ?d q" if "q < length ?ws" for q
  proof (cases "q = w")
    case True
    then show ?thesis using ww after state mono
      by (auto simp: work_ok_def Let_def at sends ws(2) same [folded ws(1)] terminal_work_def)
  next
    case False
    moreover have "work_ok d q" using okd(1) that by (simp add: works_ok_def)
    ultimately show ?thesis using mono
      by (auto simp: work_ok_def Let_def at sends ws(2) same [folded ws(1)])
  qed
  moreover have "tracked_ok ?d" using okd(2)
    by (simp add: tracked_ok_def ws(2) len same [folded ws(1)])
  moreover have "sent_ok ?d"
  proof -
    have "sn_time e + sn_timeout e = wk_deadline (cd_works ?d ! sn_work e)" if e: "e \<in> set (cd_sent d)" for e
    proof (cases "sn_work e = w")
      case True
      have "sends_of (cd_sent d) w \<noteq> 0" using e True by (auto simp: sends_of_def filter_empty_conv)
      then have "wk_state (?ws ! w) \<noteq> WorkWaiting" using ww by (auto simp: work_ok_def Let_def)
      then have "wk_deadline (?ws ! w) = dl" using dl by blast
      then show ?thesis using okd(3) e True by (auto simp: sent_ok_def at)
    next
      case False
      then show ?thesis using okd(3) e by (auto simp: sent_ok_def at)
    qed
    then show ?thesis using okd(3) sent w by (auto simp: sent_ok_def ws(3) len at)
  qed
  moreover have "deadlines_ok ?d"
    using okd(4) bound set_update_subset_insert [of ?ws w ?v] by (auto simp: deadlines_ok_def ws)
  moreover have "call_ok (cd_works ?d) call" if held: "call_ok ?ws call" for call
  proof (cases call)
    case (CallReturned c)
    then obtain q where q: "awaits_terminal ?ws c q" "wk_state (?ws ! q) = WorkDelivered" using held by auto
    moreover from q have "cd_works ?d ! q = ?ws ! q" using open_work by (auto simp: at)
    ultimately show ?thesis using CallReturned same(3) [folded ws(1)] by auto
  qed (use held in \<open>auto simp: same [folded ws(1)]\<close>)
  then have "calls_ok ?d" using okd(5) by (simp add: calls_ok_def ws(4))
  ultimately show ?thesis by (simp add: delivery_ok_def works_ok_def len)
qed

lemma delivery_ok_work: "delivery_ok d \<Longrightarrow> w < length (cd_works d) \<Longrightarrow> work_ok d w"
  by (simp add: delivery_ok_def works_ok_def)

lemma move_work_eqs:
  "set_work w ((cd_works d ! w)\<lparr>wk_deadline := dl, wk_state := st\<rparr>) d = move_work w dl st [] d"
  "set_work w ((cd_works d ! w)\<lparr>wk_state := st\<rparr>) d = move_work w (wk_deadline (cd_works d ! w)) st [] d"
  "set_work w ((cd_works d ! w)\<lparr>wk_deadline := dl, wk_state := st\<rparr>) (send_update w ms d)
    = move_work w dl st [\<lparr>sn_work = w, sn_time = cd_now d, sn_timeout = ms\<rparr>] d"
  "set_work w ((cd_works d ! w)\<lparr>wk_state := st\<rparr>) (send_update w ms d)
    = move_work w (wk_deadline (cd_works d ! w)) st [\<lparr>sn_work = w, sn_time = cd_now d, sn_timeout = ms\<rparr>] d"
  by (simp_all add: set_work_def move_work_def send_update_def)

lemma move_work_at:
  assumes "w < length (cd_works d)"
  shows "cd_works (move_work w dl st sent d) ! q
      = (if q = w then (cd_works d ! w)\<lparr>wk_deadline := dl, wk_state := st\<rparr> else cd_works d ! q)"
    "length (cd_works (move_work w dl st sent d)) = length (cd_works d)"
    "cd_now (move_work w dl st sent d) = cd_now d"
    "cd_tracked (move_work w dl st sent d) = cd_tracked d"
    "cd_calls (move_work w dl st sent d) = cd_calls d"
  using nth_moved [OF assms] by (simp_all add: move_work_def)

lemma work_deadline_bound:
  "delivery_ok d \<Longrightarrow> w < length (cd_works d) \<Longrightarrow> wk_deadline (cd_works d ! w) \<le> cd_now d + COMMAND_UPDATE_TIMEOUT_MS"
  by (simp add: delivery_ok_def deadlines_ok_def)

lemma attempt_terminal_ok:
  assumes ok: "delivery_ok d" and w: "w < length (cd_works d)" and ready: "wk_state (cd_works d ! w) = WorkReady k cause"
  shows "delivery_ok (attempt_terminal w d)"
proof -
  let ?v = "cd_works d ! w"
  note this_work = delivery_ok_work [OF ok w] work_deadline_bound [OF ok w]
  show ?thesis
  proof (cases "k \<le> TERMINAL_UPDATE_MAX_ATTEMPTS \<and> cd_now d < wk_deadline ?v")
    case True
    then have "attempt_terminal w d = move_work w (wk_deadline ?v) (WorkSending k)
        [\<lparr>sn_work = w, sn_time = cd_now d, sn_timeout = wk_deadline ?v - cd_now d\<rparr>] d"
      by (simp add: attempt_terminal_def ready Let_def move_work_eqs)
    also have "delivery_ok \<dots>"
      using True this_work ready by (intro move_work_ok [OF ok w]) (auto simp: work_ok_def Let_def)
    finally show ?thesis .
  next
    case False
    then have "attempt_terminal w d
        = move_work w (wk_deadline ?v) (WorkFailed (TerminalNotDelivered (wk_command ?v) cause)) [] d"
      by (auto simp: attempt_terminal_def ready Let_def move_work_eqs)
    also have "delivery_ok \<dots>"
      using this_work ready by (intro move_work_ok [OF ok w]) (auto simp: work_ok_def Let_def)
    finally show ?thesis .
  qed
qed

lemma deliverTerminal_ok:
  assumes ok: "delivery_ok d" and w: "w < length (cd_works d)" and waiting: "wk_state (cd_works d ! w) = WorkWaiting"
    and kind: "terminal_work (cd_works d ! w)" and after: "work_delivered (cd_works d) (wk_after (cd_works d ! w))"
  shows "delivery_ok (deliverTerminal w d)"
proof -
  let ?d = "move_work w (cd_now d + COMMAND_UPDATE_TIMEOUT_MS) (WorkReady 1 DeadlineElapsed) [] d"
  have "sends_of (cd_sent d) w = 0" using delivery_ok_work [OF ok w] waiting by (simp add: work_ok_def Let_def)
  then have "delivery_ok ?d" using waiting kind after
    by (intro move_work_ok [OF ok w]) (auto simp: COMMAND_UPDATE_TIMEOUT_MS_def)
  moreover have "deliverTerminal w d = attempt_terminal w ?d" by (simp add: deliverTerminal_def move_work_eqs)
  ultimately show ?thesis
    using attempt_terminal_ok [of ?d w 1 DeadlineElapsed] w by (simp add: move_work_at)
qed

lemma start_work_ok:
  assumes ok: "delivery_ok d" and w: "w < length (cd_works d)" and waiting: "wk_state (cd_works d ! w) = WorkWaiting"
  shows "delivery_ok (start_work w d)"
proof -
  let ?v = "cd_works d ! w"
  note this_work = delivery_ok_work [OF ok w]
  have none: "sends_of (cd_sent d) w = 0" "wk_deadline ?v = 0"
    using this_work waiting by (simp_all add: work_ok_def Let_def)
  show ?thesis
  proof (cases "after_state (wk_after ?v) d")
    case WorkDelivered
    then have after: "work_delivered (cd_works d) (wk_after ?v)"
      by (simp add: after_state_def work_delivered_def split: option.splits)
    show ?thesis
    proof (cases "wk_work ?v")
      case DeliverAccepted
      then have "start_work w d = move_work w (cd_now d + COMMAND_UPDATE_TIMEOUT_MS) (WorkSending 1)
          [\<lparr>sn_work = w, sn_time = cd_now d, sn_timeout = COMMAND_UPDATE_TIMEOUT_MS\<rparr>] d"
        using WorkDelivered by (simp add: start_work_def Let_def move_work_eqs)
      also have "delivery_ok \<dots>"
        using waiting after none DeliverAccepted
        by (intro move_work_ok [OF ok w]) (auto simp: COMMAND_UPDATE_TIMEOUT_MS_def terminal_work_def)
      finally show ?thesis .
    next
      case (DeliverTerminal u)
      then show ?thesis
        using WorkDelivered deliverTerminal_ok [OF ok w waiting _ after]
        by (simp add: start_work_def Let_def terminal_work_def)
    qed
  next
    case (WorkFailed e)
    have "start_work w d = move_work w 0 (WorkFailed e) [] d"
      using WorkFailed none by (simp add: start_work_def Let_def move_work_eqs)
    also have "delivery_ok \<dots>" using none waiting by (intro move_work_ok [OF ok w]) auto
    finally show ?thesis .
  qed (use ok in \<open>simp_all add: start_work_def Let_def\<close>)
qed

section \<open>What is tracked changes\<close>

lemma set_tracked_ok:
  assumes ok: "delivery_ok d" and t: "map_of (cd_tracked d) c = Some t"
    and keeps: "tr_delivery t' = tr_delivery t"
      "\<And>w. tr_terminalTask t' = Some w \<Longrightarrow> tr_terminalTask t = Some w"
      "\<And>u. tr_terminal t = Some u \<Longrightarrow> tr_terminal t' = Some u"
  shows "delivery_ok (set_tracked c t' d)"
proof -
  let ?d = "set_tracked c t' d"
  have ws: "cd_works ?d = cd_works d" "cd_sent ?d = cd_sent d" "cd_calls ?d = cd_calls d" "cd_now ?d = cd_now d"
    "cd_tracked ?d = AList.update c t' (cd_tracked d)"
    by (simp_all add: set_tracked_def)
  have okd: "works_ok d" "tracked_ok d" "sent_ok d" "deadlines_ok d" "calls_ok d"
    using ok by (simp_all add: delivery_ok_def)
  have mem: "c \<in> fst ` set (cd_tracked d)" using t by (metis map_of_eq_None_iff option.distinct(1))
  then have "map fst (AList.update c t' (cd_tracked d)) = map fst (cd_tracked d)"
    by (simp add: AList.update_keys)
  then have keys: "map fst (cd_tracked ?d) = map fst (cd_tracked d)" by (simp add: ws)
  then have "length (cd_tracked ?d) = length (cd_tracked d)" by (metis length_map)
  with keys have "tracked_ok ?d" using okd(2) t keeps
    by (auto simp: tracked_ok_def ws(1) ws(5) AList.update_conv)
  moreover have "work_ok ?d w" if "work_ok d w" for w
    using that t keeps(3) by (auto simp: work_ok_def Let_def ws AList.update_conv split: if_splits)
  then have "works_ok ?d" using okd(1) by (simp add: works_ok_def ws)
  ultimately show ?thesis using okd
    by (simp add: delivery_ok_def sent_ok_def deadlines_ok_def calls_ok_def ws)
qed

lemma forget_task_ok: "delivery_ok d \<Longrightarrow> delivery_ok (forget_task c w d)"
  unfolding forget_task_def by (auto split: option.split intro!: set_tracked_ok)

lemma answer_send_ok:
  assumes ok: "delivery_ok d" and w: "w < length (cd_works d)" and sending: "wk_state (cd_works d ! w) = WorkSending k"
  shows "delivery_ok (answer_send w failure d)"
proof -
  let ?v = "cd_works d ! w" and ?dl = "wk_deadline (cd_works d ! w)"
  note this_work = delivery_ok_work [OF ok w] work_deadline_bound [OF ok w]
  have state: "?dl \<noteq> 0" "sends_of (cd_sent d) w = k"
    "k \<le> (if terminal_work ?v then TERMINAL_UPDATE_MAX_ATTEMPTS else 1)"
    using this_work sending by (simp_all add: work_ok_def Let_def)
  have after: "work_delivered (cd_works d) (wk_after ?v)" using this_work state by (simp add: work_ok_def Let_def)
  have moves: "delivery_ok (move_work w ?dl st [] d)"
    if "state_ok (terminal_work ?v) ?dl k st" for st
    using sending this_work after state that by (intro move_work_ok [OF ok w]) auto
  show ?thesis
  proof (cases failure)
    case None
    then have "answer_send w failure d = forget_task (wk_command ?v) w (move_work w ?dl WorkDelivered [] d)"
      by (simp add: answer_send_def sending Let_def move_work_eqs)
    moreover have "delivery_ok (move_work w ?dl WorkDelivered [] d)" using state by (intro moves) auto
    ultimately show ?thesis by (simp add: forget_task_ok)
  next
    case (Some f)
    show ?thesis
    proof (cases "wk_work ?v")
      case DeliverAccepted
      then have "answer_send w failure d = move_work w ?dl (WorkFailed (AcceptedNotDelivered f)) [] d"
        using Some by (simp add: answer_send_def sending Let_def move_work_eqs)
      moreover have "delivery_ok (move_work w ?dl (WorkFailed (AcceptedNotDelivered f)) [] d)"
        using state by (intro moves) auto
      ultimately show ?thesis by simp
    next
      case (DeliverTerminal u)
      let ?d = "move_work w ?dl (WorkReady (k + 1) f) [] d"
      have kind: "terminal_work ?v" by (simp add: terminal_work_def DeliverTerminal)
      have "answer_send w failure d = attempt_terminal w ?d"
        using Some DeliverTerminal by (simp add: answer_send_def sending Let_def move_work_eqs)
      moreover have "delivery_ok ?d" using kind state by (intro moves) simp
      ultimately show ?thesis using attempt_terminal_ok [of ?d w "k + 1" f] w by (simp add: move_work_at)
    qed
  qed
qed

section \<open>A work is added\<close>

lemma append_same:
  assumes "n \<le> length ws"
  shows "newest (ws @ [v]) c n p = newest ws c n p"
proof -
  have "in_chain (ws @ [v]) c q = in_chain ws c q" if "q < n" for q
    using that assms by (simp add: in_chain_def nth_append)
  then show ?thesis by (auto simp: newest_def split: option.splits)
qed

lemma newest_append:
  assumes "newest ws c (length ws) p"
  shows "newest (ws @ [v]) c (Suc (length ws)) (if wk_chained v \<and> wk_command v = c then Some (length ws) else p)"
proof -
  have old: "in_chain (ws @ [v]) c q = in_chain ws c q" if "q < length ws" for q
    using that by (simp add: in_chain_def nth_append)
  have new: "in_chain (ws @ [v]) c (length ws) = (wk_chained v \<and> wk_command v = c)"
    by (simp add: in_chain_def)
  show ?thesis
    using assms old new by (auto simp: newest_def less_Suc_eq split: option.splits if_splits)
qed

lemma append_awaits: "awaits_terminal ws c w \<Longrightarrow> awaits_terminal (ws @ [v]) c w"
  by (auto simp: awaits_terminal_def in_chain_def nth_append)

lemma append_call: "call_ok ws call \<Longrightarrow> call_ok (ws @ [v]) call"
proof (cases call)
  case (CallReturned c)
  moreover assume "call_ok ws call"
  ultimately obtain w where w: "awaits_terminal ws c w" "wk_state (ws ! w) = WorkDelivered" by auto
  moreover from w have "wk_state ((ws @ [v]) ! w) = WorkDelivered" by (simp add: awaits_terminal_def nth_append)
  ultimately show ?thesis using append_awaits CallReturned by (simp del: nth_append) blast
qed (simp_all add: append_awaits)

definition fresh_work :: "('r, 'e) work \<Rightarrow> bool" where
  "fresh_work v \<longleftrightarrow> wk_deadline v = 0 \<and> wk_state v = WorkWaiting"

lemma add_unchained_ok:
  assumes ok: "delivery_ok d" and v: "fresh_work v" "\<not> wk_chained v" "wk_after v = None"
  shows "delivery_ok (d\<lparr>cd_works := cd_works d @ [v]\<rparr>)"
proof -
  let ?d = "d\<lparr>cd_works := cd_works d @ [v]\<rparr>"
  have okd: "works_ok d" "tracked_ok d" "sent_ok d" "deadlines_ok d" "calls_ok d"
    using ok by (simp_all add: delivery_ok_def)
  have none: "sends_of (cd_sent d) (length (cd_works d)) = 0"
    using okd(3) by (auto simp: sent_ok_def sends_of_def filter_empty_conv)
  have "work_ok ?d w" if w: "w < length (cd_works ?d)" for w
  proof (cases "w < length (cd_works d)")
    case True
    then have "work_ok d w" using okd(1) by (simp add: works_ok_def)
    moreover have "p < w" if "wk_chained (cd_works d ! w)" "wk_after (cd_works d ! w) = Some p" for p
      using \<open>work_ok d w\<close> that by (simp add: work_ok_def Let_def newest_def)
    ultimately show ?thesis using True
      by (auto simp: work_ok_def Let_def nth_append append_same work_delivered_def split: option.splits if_splits)
  next
    case False
    then have "w = length (cd_works d)" using w by simp
    then show ?thesis using v none by (simp add: work_ok_def Let_def fresh_work_def)
  qed
  moreover have "tracked_ok ?d"
  proof -
    have "newest (cd_works ?d) c (length (cd_works ?d)) (tr_delivery t)
        \<and> (\<forall>w. tr_terminalTask t = Some w \<longrightarrow> awaits_terminal (cd_works ?d) c w)"
      if "map_of (cd_tracked d) c = Some t" for c t
      using okd(2) that newest_append [of "cd_works d" c "tr_delivery t" v] v
      by (auto simp: tracked_ok_def intro: append_awaits)
    then show ?thesis using okd(2) by (simp add: tracked_ok_def)
  qed
  moreover have "sent_ok ?d" using okd(3) by (auto simp: sent_ok_def nth_append)
  moreover have "deadlines_ok ?d" using okd(4) v by (simp add: deadlines_ok_def fresh_work_def)
  moreover have "calls_ok ?d" using okd(5) by (auto simp: calls_ok_def intro: append_call)
  ultimately show ?thesis by (simp add: delivery_ok_def works_ok_def)
qed

lemma add_chained_ok:
  assumes ok: "delivery_ok d" and t: "map_of (cd_tracked d) c = Some t"
    and v: "fresh_work v" "wk_chained v" "wk_command v = c" "wk_after v = tr_delivery t"
      "\<And>u. wk_work v = DeliverTerminal u \<Longrightarrow> tr_terminal t = Some u"
    and t': "tr_delivery t' = Some (length (cd_works d))" "tr_terminal t' = tr_terminal t"
      "tr_terminalTask t' = tr_terminalTask t
       \<or> tr_terminalTask t' = Some (length (cd_works d)) \<and> terminal_work v"
  shows "delivery_ok (set_tracked c t' (d\<lparr>cd_works := cd_works d @ [v]\<rparr>))"
proof -
  let ?n = "length (cd_works d)" and ?ws = "cd_works d @ [v]"
  let ?d = "set_tracked c t' (d\<lparr>cd_works := ?ws\<rparr>)"
  have d: "cd_works ?d = ?ws" "cd_sent ?d = cd_sent d" "cd_calls ?d = cd_calls d" "cd_now ?d = cd_now d"
    "cd_tracked ?d = AList.update c t' (cd_tracked d)"
    by (simp_all add: set_tracked_def)
  have okd: "works_ok d" "tracked_ok d" "sent_ok d" "deadlines_ok d" "calls_ok d"
    using ok by (simp_all add: delivery_ok_def)
  have none: "sends_of (cd_sent d) ?n = 0"
    using okd(3) by (auto simp: sent_ok_def sends_of_def filter_empty_conv)
  have tr: "newest (cd_works d) c' ?n (tr_delivery t'') \<and> (\<forall>w. tr_terminalTask t'' = Some w \<longrightarrow> awaits_terminal (cd_works d) c' w)"
    if "map_of (cd_tracked d) c' = Some t''" for c' t''
    using okd(2) that by (auto simp: tracked_ok_def)
  have "work_ok ?d w" if w: "w < length ?ws" for w
  proof (cases "w < ?n")
    case True
    then have "work_ok d w" using okd(1) by (simp add: works_ok_def)
    moreover have "p < w" if "wk_chained (cd_works d ! w)" "wk_after (cd_works d ! w) = Some p" for p
      using \<open>work_ok d w\<close> that by (simp add: work_ok_def Let_def newest_def)
    ultimately show ?thesis using True t t'(2)
      by (auto simp: work_ok_def Let_def d AList.update_conv nth_append append_same work_delivered_def
          split: option.splits if_splits)
  next
    case False
    then have "w = ?n" using w by simp
    then show ?thesis using v none tr [OF t] t'(2)
      by (auto simp: work_ok_def Let_def d AList.update_conv fresh_work_def append_same)
  qed
  moreover have "tracked_ok ?d"
  proof -
    have mem: "c \<in> fst ` set (cd_tracked d)" using t by (metis map_of_eq_None_iff option.distinct(1))
    then have keys: "map fst (cd_tracked ?d) = map fst (cd_tracked d)"
      by (simp add: d AList.update_keys)
    then have "length (cd_tracked ?d) = length (cd_tracked d)" by (metis length_map)
    moreover have "newest ?ws c' (Suc ?n) (tr_delivery t'')
        \<and> (\<forall>w. tr_terminalTask t'' = Some w \<longrightarrow> awaits_terminal ?ws c' w)"
      if c': "map_of (cd_tracked ?d) c' = Some t''" for c' t''
    proof (cases "c' = c")
      case True
      have "t'' = t'" using c' True by (simp add: d AList.update_conv)
      moreover have "awaits_terminal ?ws c ?n" if "terminal_work v"
        using that v by (simp add: awaits_terminal_def in_chain_def)
      ultimately show ?thesis
        using newest_append [of "cd_works d" c "tr_delivery t" v] tr [OF t] v t' True
        by (auto intro: append_awaits)
    next
      case False
      then have "map_of (cd_tracked d) c' = Some t''" using c' by (simp add: d AList.update_conv)
      then show ?thesis
        using newest_append [of "cd_works d" c' "tr_delivery t''" v] tr v False by (auto intro: append_awaits)
    qed
    ultimately show ?thesis using okd(2) keys by (simp add: tracked_ok_def d(1))
  qed
  moreover have "sent_ok ?d" using okd(3) by (auto simp: sent_ok_def nth_append d)
  moreover have "deadlines_ok ?d" using okd(4) v by (simp add: deadlines_ok_def fresh_work_def d)
  moreover have "calls_ok ?d" using okd(5) by (auto simp: calls_ok_def d intro: append_call)
  ultimately show ?thesis by (simp add: delivery_ok_def works_ok_def d(1))
qed

section \<open>Every step\<close>

lemma track_new_ok:
  assumes ok: "delivery_ok d" and c: "map_of (cd_tracked d) c = None" and room: "length (cd_tracked d) < MAX_TRACKED_COMMANDS"
    and t: "tr_delivery t = None" "tr_terminalTask t = None"
  shows "delivery_ok (set_tracked c t d)"
proof -
  let ?d = "set_tracked c t d"
  have okd: "works_ok d" "tracked_ok d" "sent_ok d" "deadlines_ok d" "calls_ok d"
    using ok by (simp_all add: delivery_ok_def)
  have ws: "cd_works ?d = cd_works d" "cd_sent ?d = cd_sent d" "cd_calls ?d = cd_calls d" "cd_now ?d = cd_now d"
    "cd_tracked ?d = AList.update c t (cd_tracked d)"
    by (simp_all add: set_tracked_def)
  have fresh: "c \<notin> fst ` set (cd_tracked d)" using c by (simp add: map_of_eq_None_iff)
  moreover have "AList.update c t xs = xs @ [(c, t)]" if "c \<notin> fst ` set xs" for xs
    using that by (induction xs) auto
  ultimately have "AList.update c t (cd_tracked d) = cd_tracked d @ [(c, t)]" by blast
  then have "distinct (map fst (cd_tracked ?d))" "length (cd_tracked ?d) \<le> MAX_TRACKED_COMMANDS"
    using okd(2) fresh room by (simp_all add: ws tracked_ok_def)
  moreover have "\<not> in_chain (cd_works d) c w" if "w < length (cd_works d)" for w
    using okd(1) that c by (auto simp: works_ok_def work_ok_def Let_def in_chain_def)
  then have "newest (cd_works d) c (length (cd_works d)) None" by (simp add: newest_def)
  ultimately have "tracked_ok ?d" using okd(2) t by (auto simp: tracked_ok_def ws AList.update_conv)
  moreover have "work_ok ?d w" if "work_ok d w" for w
    using that c by (auto simp: work_ok_def Let_def ws AList.update_conv split: if_splits)
  then have "works_ok ?d" using okd(1) by (simp add: works_ok_def ws)
  ultimately show ?thesis using okd
    by (simp add: delivery_ok_def sent_ok_def deadlines_ok_def calls_ok_def ws)
qed

lemma delivery_receive_ok:
  "delivery_ok d \<Longrightarrow> delivery_receive c identity d = Inr (receipt, d') \<Longrightarrow> delivery_ok d'"
  by (auto simp: delivery_receive_def delivery_replay_def split: option.splits if_splits intro!: track_new_ok)

lemma delivery_accept_ok: "delivery_ok d \<Longrightarrow> delivery_ok (delivery_accept c d)"
  unfolding delivery_accept_def chain_work_def add_work_def
  by (auto split: option.split intro!: add_chained_ok simp: fresh_work_def)

lemma set_tracked_twice: "set_tracked c t (set_tracked c t' d) = set_tracked c t d"
proof -
  have "AList.update c t (AList.update c t' xs) = AList.update c t xs" for xs :: "(string \<times> 'x) list" and t t'
    by (induction xs) auto
  then show ?thesis by (simp add: set_tracked_def)
qed

lemma add_work_tracked:
  "(set_tracked c t d)\<lparr>cd_works := ws\<rparr> = set_tracked c t (d\<lparr>cd_works := ws\<rparr>)"
  "cd_works (set_tracked c t d) = cd_works d"
  "map_of (cd_tracked (set_tracked c t d)) = (map_of (cd_tracked d))(c \<mapsto> t)"
  by (simp_all add: set_tracked_def AList.update_conv')

lemma delivery_finish_ok:
  assumes ok: "delivery_ok d" and f: "delivery_finish c update replay d = (call, d')"
  shows "delivery_ok d' \<and> call_ok (cd_works d') call \<and> cd_calls d' = cd_calls d"
proof (cases "map_of (cd_tracked d) c")
  case None
  then show ?thesis using ok f by (auto simp: delivery_finish_def)
next
  case (Some t)
  let ?terminal = "case tr_terminal t of Some u \<Rightarrow> u | None \<Rightarrow> update"
  let ?t = "t\<lparr>tr_terminal := Some ?terminal\<rparr>" and ?n = "length (cd_works d)"
  have ok': "delivery_ok (set_tracked c ?t d)"
    by (rule set_tracked_ok [OF ok Some]) simp_all
  show ?thesis
  proof (cases "tr_terminalTask t")
    case (Some w)
    have "awaits_terminal (cd_works d) c w"
      using ok \<open>map_of (cd_tracked d) c = Some t\<close> Some by (auto simp: delivery_ok_def tracked_ok_def)
    moreover have "d' = set_tracked c ?t d" "call = CallReplays c w ?terminal \<or> call = CallAwaits c w"
      using f \<open>map_of (cd_tracked d) c = Some t\<close> Some by (auto simp: delivery_finish_def Let_def split: if_splits)
    ultimately show ?thesis using ok' by (auto simp: add_work_tracked) (auto simp: set_tracked_def)
  next
    case None
    let ?v = "\<lparr>wk_command = c, wk_chained = True, wk_after = tr_delivery t, wk_work = DeliverTerminal ?terminal,
               wk_deadline = 0, wk_state = WorkWaiting\<rparr>"
    let ?t' = "?t\<lparr>tr_delivery := Some ?n, tr_terminalTask := Some ?n\<rparr>"
    have d': "d' = set_tracked c ?t' (d\<lparr>cd_works := cd_works d @ [?v]\<rparr>)" "call = CallAwaits c ?n"
      using f \<open>map_of (cd_tracked d) c = Some t\<close> None
      by (auto simp: delivery_finish_def Let_def chain_work_def add_work_def)
    have "delivery_ok (set_tracked c ?t' ((set_tracked c ?t d)\<lparr>cd_works := cd_works (set_tracked c ?t d) @ [?v]\<rparr>))"
      by (rule add_chained_ok [OF ok', where t = ?t])
        (simp_all add: add_work_tracked fresh_work_def terminal_work_def)
    then have "delivery_ok d'" unfolding d' add_work_tracked set_tracked_twice .
    moreover have "call_ok (cd_works d') call"
      by (simp add: d' add_work_tracked awaits_terminal_def in_chain_def terminal_work_def)
    ultimately show ?thesis by (simp add: d' set_tracked_def)
  qed
qed

lemma add_call_ok:
  "delivery_ok d \<Longrightarrow> calls_ok (d\<lparr>cd_calls := calls\<rparr>) \<Longrightarrow> delivery_ok (d\<lparr>cd_calls := calls\<rparr>)"
proof -
  have "work_ok (d\<lparr>cd_calls := calls\<rparr>) w = work_ok d w" for w by (simp add: work_ok_def)
  then show "delivery_ok d \<Longrightarrow> calls_ok (d\<lparr>cd_calls := calls\<rparr>) \<Longrightarrow> delivery_ok (d\<lparr>cd_calls := calls\<rparr>)"
    by (simp add: delivery_ok_def works_ok_def tracked_ok_def sent_ok_def deadlines_ok_def)
qed

lemma call_finish_ok:
  assumes "delivery_ok d"
  shows "delivery_ok (call_finish c update replay d)"
proof -
  obtain call d' where f: "delivery_finish c update replay d = (call, d')" by fastforce
  note ok = delivery_finish_ok [OF assms f]
  then have "calls_ok d'" by (simp add: delivery_ok_def)
  then show ?thesis unfolding call_finish_def f prod.case
    using ok by (intro add_call_ok) (simp_all add: calls_ok_def)
qed

lemma delivery_reject_ok:
  assumes ok: "delivery_ok d"
  shows "delivery_ok (delivery_reject c update d)"
proof -
  let ?v = "\<lparr>wk_command = c, wk_chained = False, wk_after = None, wk_work = DeliverTerminal update,
      wk_deadline = 0, wk_state = WorkWaiting\<rparr>"
  have "delivery_ok (d\<lparr>cd_works := cd_works d @ [?v]\<rparr>)"
    by (rule add_unchained_ok [OF ok]) (simp_all add: fresh_work_def)
  then show ?thesis unfolding delivery_reject_def add_work_def prod.case
    by (rule deliverTerminal_ok) (simp_all add: terminal_work_def work_delivered_def)
qed

lemma update_call_ok:
  assumes "delivery_ok d" "call_ok (cd_works d) call"
  shows "delivery_ok (d\<lparr>cd_calls := (cd_calls d)[i := call]\<rparr>)"
  using assms set_update_subset_insert [of "cd_calls d" i call]
  by (intro add_call_ok) (auto simp: calls_ok_def delivery_ok_def)

lemma resume_call_ok:
  assumes ok: "delivery_ok d" and i: "i < length (cd_calls d)"
  shows "delivery_ok (resume_call i d)"
proof -
  have held: "call_ok (cd_works d) (cd_calls d ! i)" using ok i by (simp add: delivery_ok_def calls_ok_def)
  show ?thesis
  proof (cases "cd_calls d ! i")
    case (CallAwaits c w)
    then show ?thesis using ok held
      by (auto simp: resume_call_def Let_def split: work_state.split intro!: update_call_ok)
  next
    case (CallReplays c w u)
    have "delivery_ok (d'\<lparr>cd_calls := (cd_calls d')[i := call]\<rparr>)"
      if "delivery_finish c u False d = (call, d')" for call d'
      using delivery_finish_ok [OF ok that] by (intro update_call_ok) auto
    then show ?thesis using ok CallReplays
      by (auto simp: resume_call_def Let_def split: work_state.split prod.split intro!: update_call_ok)
  qed (use ok in \<open>simp_all add: resume_call_def Let_def\<close>)
qed

lemma waiting_ok: "delivery_ok d \<Longrightarrow> delivery_ok (d\<lparr>cd_now := cd_now d + ms\<rparr>)"
proof -
  have "work_ok (d\<lparr>cd_now := cd_now d + ms\<rparr>) w = work_ok d w" for w by (simp add: work_ok_def)
  moreover have "deadlines_ok d \<Longrightarrow> deadlines_ok (d\<lparr>cd_now := cd_now d + ms\<rparr>)"
    by (auto simp: deadlines_ok_def)
  ultimately show "delivery_ok d \<Longrightarrow> delivery_ok (d\<lparr>cd_now := cd_now d + ms\<rparr>)"
    by (simp add: delivery_ok_def works_ok_def tracked_ok_def sent_ok_def calls_ok_def)
qed

lemma new_delivery_ok: "delivery_ok new_delivery"
  by (simp add: delivery_ok_def new_delivery_def works_ok_def tracked_ok_def sent_ok_def deadlines_ok_def calls_ok_def)

lemma delivery_step_ok: "delivery_step d d' \<Longrightarrow> delivery_ok d \<Longrightarrow> delivery_ok d'"
  by (induction rule: delivery_step.induct)
    (simp_all add: delivery_receive_ok delivery_accept_ok call_finish_ok delivery_reject_ok start_work_ok answer_send_ok
      resume_call_ok waiting_ok)

lemma delivery_reached_ok: "delivery_reached d \<Longrightarrow> delivery_ok d"
  by (induction rule: delivery_reached.induct) (auto simp: new_delivery_ok intro: delivery_step_ok)

section \<open>What follows\<close>



text \<open>A command that is accepted and finished; the first send of its status gets no answer in time.\<close>

type_synonym ex_delivery = "(string, string, string) delivery"

definition ex_finished :: ex_delivery where
  "ex_finished = call_finish ''c1'' (UpdateCompleted (Some ''done'')) False
     (answer_send 0 None (start_work 0 (delivery_accept ''c1''
       (set_tracked ''c1'' \<lparr>tr_identity = ''c1'', tr_delivery = None, tr_terminal = None, tr_terminalTask = None\<rparr>
         new_delivery))))"

definition ex_returned :: ex_delivery where
  "ex_returned = resume_call 0 (answer_send 1 None (answer_send 1 (Some SendTimedOut) (start_work 1 ex_finished)))"

lemmas ex_delivery_defs = ex_finished_def ex_returned_def resume_call_def answer_send_def start_work_def call_finish_def
  delivery_accept_def set_tracked_def new_delivery_def delivery_finish_def chain_work_def add_work_def after_state_def
  deliverTerminal_def attempt_terminal_def set_work_def send_update_def forget_task_def Let_def
  TERMINAL_UPDATE_MAX_ATTEMPTS_def COMMAND_UPDATE_TIMEOUT_MS_def

lemma ex_finished_reached: "delivery_reached ex_finished"
proof -
  let ?d1 = "set_tracked ''c1'' \<lparr>tr_identity = ''c1'', tr_delivery = None, tr_terminal = None, tr_terminalTask = None\<rparr>
      new_delivery :: ex_delivery"
  let ?d2 = "delivery_accept ''c1'' ?d1"
  let ?d3 = "start_work 0 ?d2"
  have "delivery_reached ?d1"
    by (rule delivery_reached.step [OF delivery_reached.start],
        rule delivery_step.receives [of "''c1''" "''c1''" _ "\<lparr>cr_replay = False, cr_commandId = ''c1''\<rparr>"])
      (simp add: delivery_receive_def delivery_replay_def new_delivery_def MAX_TRACKED_COMMANDS_def)
  then have "delivery_reached ?d2" by (rule delivery_reached.step) (rule delivery_step.accepts)
  then have "delivery_reached ?d3"
    by (rule delivery_reached.step) (rule delivery_step.starts; simp add: ex_delivery_defs)
  then have "delivery_reached (answer_send 0 None ?d3)"
    by (rule delivery_reached.step) (rule delivery_step.answers [of _ _ 1]; simp add: ex_delivery_defs)
  then show ?thesis unfolding ex_finished_def by (rule delivery_reached.step) (rule delivery_step.finishes)
qed

lemma ex_returned_reached: "delivery_reached ex_returned"
proof -
  let ?d1 = "start_work 1 ex_finished"
  let ?d2 = "answer_send 1 (Some SendTimedOut) ?d1"
  have "delivery_reached ?d1"
    by (rule delivery_reached.step [OF ex_finished_reached]) (rule delivery_step.starts; simp add: ex_delivery_defs)
  then have "delivery_reached ?d2"
    by (rule delivery_reached.step) (rule delivery_step.answers [of _ _ 1]; simp add: ex_delivery_defs)
  then have "delivery_reached (answer_send 1 None ?d2)"
    by (rule delivery_reached.step) (rule delivery_step.answers [of _ _ 2]; simp add: ex_delivery_defs)
  then show ?thesis unfolding ex_returned_def
    by (rule delivery_reached.step) (rule delivery_step.resumes; simp add: ex_delivery_defs)
qed


text \<open>
  C39.  A delivery sends at most three times, an acceptance once, every send of it ends by one
  deadline at most a second after it, and the history holds at most 1024 commands.
\<close>

theorem deliveries_are_bounded:
  fixes d :: "('r, 'e, 'i) delivery"
  assumes "delivery_reached d"
  shows "length (cd_tracked d) \<le> 1024
    \<and> (\<forall>w<length (cd_works d). length (filter (\<lambda>e. sn_work e = w) (cd_sent d))
          \<le> (if wk_work (cd_works d ! w) = DeliverAccepted then 1 else 3))
    \<and> (\<forall>e\<in>set (cd_sent d). \<forall>e'\<in>set (cd_sent d). sn_work e = sn_work e' \<longrightarrow>
          0 < sn_timeout e \<and> sn_time e + sn_timeout e \<le> sn_time e' + 1000)"
proof -
  note ok = delivery_reached_ok [OF assms]
  have okd: "tracked_ok d" "sent_ok d" using ok by (simp_all add: delivery_ok_def)
  have "length (filter (\<lambda>e. sn_work e = w) (cd_sent d))
      \<le> (if wk_work (cd_works d ! w) = DeliverAccepted then 1 else 3)" if "w < length (cd_works d)" for w
    using delivery_ok_work [OF ok that]
    by (cases "wk_state (cd_works d ! w)")
      (auto simp: work_ok_def Let_def terminal_work_def sends_of_def TERMINAL_UPDATE_MAX_ATTEMPTS_def split: if_splits)
  moreover have "0 < sn_timeout e \<and> sn_time e + sn_timeout e \<le> sn_time e' + 1000"
    if "e \<in> set (cd_sent d)" "e' \<in> set (cd_sent d)" "sn_work e = sn_work e'" for e e'
  proof -
    have "sn_time e + sn_timeout e = sn_time e' + sn_timeout e'" "0 < sn_timeout e" "sn_timeout e' \<le> 1000"
      using okd(2) that by (auto simp: sent_ok_def COMMAND_UPDATE_TIMEOUT_MS_def)
    then show ?thesis by linarith
  qed
  moreover have "length (cd_tracked d) \<le> 1024" using okd(1) by (simp add: tracked_ok_def MAX_TRACKED_COMMANDS_def)
  ultimately show ?thesis by blast
qed

theorem deliveries_are_bounded_witness:
  "length (cd_sent ex_returned) = 3
    \<and> length (filter (\<lambda>e. sn_work e = 1) (cd_sent ex_returned)) \<le> 3"
proof -
  have "length (cd_sent ex_returned) = 3" "1 < length (cd_works ex_returned)"
    "wk_work (cd_works ex_returned ! 1) \<noteq> DeliverAccepted"
    by (simp_all add: ex_delivery_defs)
  then show ?thesis using deliveries_are_bounded [OF ex_returned_reached] by auto
qed

end
