(* ===== verification/Runtime_Command.thy ===== *)
theory Runtime_Command
  imports Driver_Prelude
begin

text \<open>
  src/src/runtime-command/index.ts: the commands a host sends to a driver, how they are read
  from a parsed JSON value, and the errors that are kept durably.  The number of bytes of the
  JSON of a value is a parameter.
\<close>

section \<open>Commands\<close>

definition DURABLE_RUN_ERROR_MAX_UTF8_BYTES :: nat where
  "DURABLE_RUN_ERROR_MAX_UTF8_BYTES = 1020 * 1024"

definition RUNTIME_COMMAND_TERMINAL_PAYLOAD_MAX_UTF8_BYTES :: nat where
  "RUNTIME_COMMAND_TERMINAL_PAYLOAD_MAX_UTF8_BYTES = DURABLE_RUN_ERROR_MAX_UTF8_BYTES"

definition RUNTIME_COMMAND_MAX_UTF8_BYTES :: nat where
  "RUNTIME_COMMAND_MAX_UTF8_BYTES =
     2000000 - RUNTIME_COMMAND_TERMINAL_PAYLOAD_MAX_UTF8_BYTES - 128 * 1024"

record run_error =
  re_code :: string
  re_details :: json_object
  re_message :: string
  re_retryable :: bool

record mcp_command =
  mc_argumentsJson :: string
  mc_commandId :: string
  mc_requestId :: string
  mc_runId :: string
  mc_serverId :: string
  mc_toolCallId :: string
  mc_toolName :: string

record command_input =
  ci_attachmentIds :: "string list option"
  ci_text :: string

datatype runtime_decision = AllowedOnce | RejectedOnce

datatype runtime_command =
  InputStartCommand string command_input string string  \<comment> \<open>commandId, input, requestId, runId\<close>
| McpExecuteCommand mcp_command
| PermissionResolveCommand string runtime_decision string string  \<comment> \<open>commandId, decision, requestId, runId\<close>
| SessionStopCommand string string  \<comment> \<open>commandId, reason\<close>
| TurnCancelCommand string "string option" string  \<comment> \<open>commandId, reason, runId\<close>

section \<open>Errors that are kept\<close>

definition run_error_json :: "run_error \<Rightarrow> json" where
  "run_error_json e = JObj (fmap_of_list
     [(''code'', JStr (re_code e)), (''details'', JObj (re_details e)), (''message'', JStr (re_message e)),
      (''retryable'', JBool (re_retryable e))])"

definition createMcpUnknownEffectRunError :: "mcp_command \<Rightarrow> string \<Rightarrow> run_error" where
  "createMcpUnknownEffectRunError command effectId =
     \<lparr>re_code = ''driver.external_tool_effect_unknown'',
      re_details = fmap_of_list
        [(''commandId'', JStr (mc_commandId command)), (''effectId'', JStr effectId),
         (''requestId'', JStr (mc_requestId command)), (''runId'', JStr (mc_runId command)),
         (''serverId'', JStr (mc_serverId command)), (''toolName'', JStr (mc_toolName command))],
      re_message = ''External effect '' @ effectId @ '' for MCP tool '' @ mc_toolName command
        @ '' has an unknown outcome and will not be replayed.'',
      re_retryable = False\<rparr>"

definition createMcpUnsettledEffectRunError :: "mcp_command \<Rightarrow> string \<Rightarrow> run_error" where
  "createMcpUnsettledEffectRunError command effectId =
     \<lparr>re_code = ''driver.command_failed.mcp.execute'',
      re_details = fmap_of_list
        [(''commandId'', JStr (mc_commandId command)), (''commandKind'', JStr ''mcp.execute'')],
      re_message = ''External effect '' @ effectId @ '' for MCP tool '' @ mc_toolName command
        @ '' requires server-side repair.'',
      re_retryable = False\<rparr>"

definition normalizeDurableRunError :: "(json \<Rightarrow> nat) \<Rightarrow> run_error \<Rightarrow> run_error" where
  "normalizeDurableRunError measure_json e =
     (let byteLength = measure_json (run_error_json e) in
      if byteLength \<le> DURABLE_RUN_ERROR_MAX_UTF8_BYTES then e
      else \<lparr>re_code = ''driver.error_oversized'',
            re_details = fmap_of_list [(''originalBytes'', JNum (of_nat byteLength))],
            re_message = ''Driver error exceeded 1044480 UTF-8 bytes and was omitted.'',
            re_retryable = False\<rparr>)"

section \<open>Reading a command\<close>

datatype command_error =
  NotAnObject string | KeyNotAllowed string | NotANonEmptyString string | NotAString string
| AttachmentIdsNotStrings | UnknownDecision | UnsupportedCommandKind string | CommandTooLarge

type_synonym 'a command_result = "command_error + 'a"

definition command_readRecord :: "json option \<Rightarrow> string \<Rightarrow> json_object command_result" where
  "command_readRecord v label = (case v of Some (JObj m) \<Rightarrow> Inr m | _ \<Rightarrow> Inl (NotAnObject label))"

definition command_requireExactKeys :: "json_object \<Rightarrow> string list \<Rightarrow> string \<Rightarrow> unit command_result" where
  "command_requireExactKeys m allowedKeys label =
     (if fBall (fmdom m) (\<lambda>k. k \<in> set allowedKeys) then Inr () else Inl (KeyNotAllowed label))"

definition command_readNonEmptyString :: "json_object \<Rightarrow> string \<Rightarrow> string command_result" where
  "command_readNonEmptyString m name =
     (case fmlookup m name of
        Some (JStr s) \<Rightarrow> if s = [] then Inl (NotANonEmptyString name) else Inr s
      | _ \<Rightarrow> Inl (NotANonEmptyString name))"

definition command_readString :: "json_object \<Rightarrow> string \<Rightarrow> string command_result" where
  "command_readString m name = (case fmlookup m name of Some (JStr s) \<Rightarrow> Inr s | _ \<Rightarrow> Inl (NotAString name))"

definition command_readOptionalString :: "json_object \<Rightarrow> string \<Rightarrow> string option command_result" where
  "command_readOptionalString m name =
     (case fmlookup m name of
        None \<Rightarrow> Inr None | Some (JStr s) \<Rightarrow> Inr (Some s) | _ \<Rightarrow> Inl (NotAString name))"

fun read_attachment :: "json \<Rightarrow> string command_result" where
  "read_attachment (JStr s) = (if s = [] then Inl AttachmentIdsNotStrings else Inr s)"
| "read_attachment _ = Inl AttachmentIdsNotStrings"

definition readRuntimeCommandInput :: "json option \<Rightarrow> command_input command_result" where
  "readRuntimeCommandInput v =
     bindE (command_readRecord v ''input'') (\<lambda>m.
     bindE (command_requireExactKeys m [''attachmentIds'', ''text''] ''input'') (\<lambda>_.
     bindE (command_readNonEmptyString m ''text'') (\<lambda>txt.
       case fmlookup m ''attachmentIds'' of
         None \<Rightarrow> Inr \<lparr>ci_attachmentIds = None, ci_text = txt\<rparr>
       | Some (JArr xs) \<Rightarrow>
           bindE (mapE read_attachment xs) (\<lambda>ids. Inr \<lparr>ci_attachmentIds = Some ids, ci_text = txt\<rparr>)
       | _ \<Rightarrow> Inl AttachmentIdsNotStrings)))"

definition readPermissionDecision :: "json option \<Rightarrow> runtime_decision command_result" where
  "readPermissionDecision v =
     (if v = Some (JStr ''allow_once'') then Inr AllowedOnce
      else if v = Some (JStr ''reject_once'') then Inr RejectedOnce
      else Inl UnknownDecision)"

text \<open>The JSON of a command, as it is measured and as it is stored.\<close>

definition opt_field :: "string \<Rightarrow> json option \<Rightarrow> (string \<times> json) list" where
  "opt_field k v = (case v of None \<Rightarrow> [] | Some x \<Rightarrow> [(k, x)])"

fun decision_name :: "runtime_decision \<Rightarrow> string" where
  "decision_name AllowedOnce = ''allow_once''"
| "decision_name RejectedOnce = ''reject_once''"

definition input_json :: "command_input \<Rightarrow> json" where
  "input_json i = JObj (fmap_of_list
     (opt_field ''attachmentIds'' (map_option (\<lambda>ids. JArr (map JStr ids)) (ci_attachmentIds i))
      @ [(''text'', JStr (ci_text i))]))"

fun command_json :: "runtime_command \<Rightarrow> json" where
  "command_json (InputStartCommand commandId i requestId runId) = JObj (fmap_of_list
     [(''commandId'', JStr commandId), (''input'', input_json i), (''kind'', JStr ''input.start''),
      (''requestId'', JStr requestId), (''runId'', JStr runId)])"
| "command_json (McpExecuteCommand c) = JObj (fmap_of_list
     [(''argumentsJson'', JStr (mc_argumentsJson c)), (''commandId'', JStr (mc_commandId c)),
      (''kind'', JStr ''mcp.execute''), (''requestId'', JStr (mc_requestId c)), (''runId'', JStr (mc_runId c)),
      (''serverId'', JStr (mc_serverId c)), (''toolCallId'', JStr (mc_toolCallId c)),
      (''toolName'', JStr (mc_toolName c))])"
| "command_json (PermissionResolveCommand commandId decision requestId runId) = JObj (fmap_of_list
     [(''commandId'', JStr commandId), (''decision'', JStr (decision_name decision)),
      (''kind'', JStr ''permission.resolve''), (''requestId'', JStr requestId), (''runId'', JStr runId)])"
| "command_json (SessionStopCommand commandId reason) = JObj (fmap_of_list
     [(''commandId'', JStr commandId), (''kind'', JStr ''session.stop''), (''reason'', JStr reason)])"
| "command_json (TurnCancelCommand commandId reason runId) = JObj (fmap_of_list
     ([(''commandId'', JStr commandId), (''kind'', JStr ''turn.cancel'')]
      @ opt_field ''reason'' (map_option JStr reason) @ [(''runId'', JStr runId)]))"

definition requireDurableRuntimeCommand :: "(json \<Rightarrow> nat) \<Rightarrow> runtime_command \<Rightarrow> runtime_command command_result" where
  "requireDurableRuntimeCommand measure_json command =
     (if measure_json (command_json command) > RUNTIME_COMMAND_MAX_UTF8_BYTES then Inl CommandTooLarge
      else Inr command)"

definition parseRuntimeCommand :: "(json \<Rightarrow> nat) \<Rightarrow> json \<Rightarrow> runtime_command command_result" where
  "parseRuntimeCommand measure_json v =
     bindE (command_readRecord (Some v) ''runtime command'') (\<lambda>m.
     bindE (command_readString m ''kind'') (\<lambda>kind.
       if kind = ''input.start'' then
         bindE (command_requireExactKeys m [''commandId'', ''input'', ''kind'', ''requestId'', ''runId'']
                  ''runtime command'') (\<lambda>_.
         bindE (readRuntimeCommandInput (fmlookup m ''input'')) (\<lambda>i.
         bindE (command_readNonEmptyString m ''commandId'') (\<lambda>commandId.
         bindE (command_readNonEmptyString m ''requestId'') (\<lambda>requestId.
         bindE (command_readNonEmptyString m ''runId'') (\<lambda>runId.
           requireDurableRuntimeCommand measure_json (InputStartCommand commandId i requestId runId))))))
       else if kind = ''mcp.execute'' then
         bindE (command_requireExactKeys m
                  [''argumentsJson'', ''commandId'', ''kind'', ''requestId'', ''runId'', ''serverId'',
                   ''toolCallId'', ''toolName''] ''runtime command'') (\<lambda>_.
         bindE (command_readString m ''argumentsJson'') (\<lambda>argumentsJson.
         bindE (command_readNonEmptyString m ''commandId'') (\<lambda>commandId.
         bindE (command_readNonEmptyString m ''requestId'') (\<lambda>requestId.
         bindE (command_readNonEmptyString m ''runId'') (\<lambda>runId.
         bindE (command_readNonEmptyString m ''serverId'') (\<lambda>serverId.
         bindE (command_readNonEmptyString m ''toolCallId'') (\<lambda>toolCallId.
         bindE (command_readNonEmptyString m ''toolName'') (\<lambda>toolName.
           requireDurableRuntimeCommand measure_json (McpExecuteCommand
             \<lparr>mc_argumentsJson = argumentsJson, mc_commandId = commandId, mc_requestId = requestId,
              mc_runId = runId, mc_serverId = serverId, mc_toolCallId = toolCallId, mc_toolName = toolName\<rparr>)))))))))
       else if kind = ''permission.resolve'' then
         bindE (command_requireExactKeys m [''commandId'', ''decision'', ''kind'', ''requestId'', ''runId'']
                  ''runtime command'') (\<lambda>_.
         bindE (command_readNonEmptyString m ''commandId'') (\<lambda>commandId.
         bindE (readPermissionDecision (fmlookup m ''decision'')) (\<lambda>decision.
         bindE (command_readNonEmptyString m ''requestId'') (\<lambda>requestId.
         bindE (command_readNonEmptyString m ''runId'') (\<lambda>runId.
           requireDurableRuntimeCommand measure_json (PermissionResolveCommand commandId decision requestId runId))))))
       else if kind = ''session.stop'' then
         bindE (command_requireExactKeys m [''commandId'', ''kind'', ''reason''] ''runtime command'') (\<lambda>_.
         bindE (command_readNonEmptyString m ''commandId'') (\<lambda>commandId.
         bindE (command_readNonEmptyString m ''reason'') (\<lambda>reason.
           requireDurableRuntimeCommand measure_json (SessionStopCommand commandId reason))))
       else if kind = ''turn.cancel'' then
         bindE (command_requireExactKeys m [''commandId'', ''kind'', ''reason'', ''runId''] ''runtime command'') (\<lambda>_.
         bindE (command_readOptionalString m ''reason'') (\<lambda>reason.
         bindE (command_readNonEmptyString m ''commandId'') (\<lambda>commandId.
         bindE (command_readNonEmptyString m ''runId'') (\<lambda>runId.
           requireDurableRuntimeCommand measure_json (TurnCancelCommand commandId reason runId)))))
       else Inl (UnsupportedCommandKind kind)))"

section \<open>What is read\<close>

definition input_ok :: "command_input \<Rightarrow> bool" where
  "input_ok i \<longleftrightarrow> ci_text i \<noteq> [] \<and> opt_all (\<lambda>ids. [] \<notin> set ids) (ci_attachmentIds i)"

fun command_ok :: "runtime_command \<Rightarrow> bool" where
  "command_ok (InputStartCommand commandId i requestId runId) \<longleftrightarrow>
     commandId \<noteq> [] \<and> input_ok i \<and> requestId \<noteq> [] \<and> runId \<noteq> []"
| "command_ok (McpExecuteCommand c) \<longleftrightarrow>
     mc_commandId c \<noteq> [] \<and> mc_requestId c \<noteq> [] \<and> mc_runId c \<noteq> [] \<and> mc_serverId c \<noteq> []
     \<and> mc_toolCallId c \<noteq> [] \<and> mc_toolName c \<noteq> []"
| "command_ok (PermissionResolveCommand commandId decision requestId runId) \<longleftrightarrow>
     commandId \<noteq> [] \<and> requestId \<noteq> [] \<and> runId \<noteq> []"
| "command_ok (SessionStopCommand commandId reason) \<longleftrightarrow> commandId \<noteq> [] \<and> reason \<noteq> []"
| "command_ok (TurnCancelCommand commandId reason runId) \<longleftrightarrow> commandId \<noteq> [] \<and> runId \<noteq> []"

named_theorems reads_iff

lemma command_readRecord_iff [reads_iff]: "command_readRecord v l = Inr m \<longleftrightarrow> v = Some (JObj m)"
  by (auto simp: command_readRecord_def split: option.split json.split)

lemma command_readNonEmptyString_iff [reads_iff]:
  "command_readNonEmptyString m k = Inr s \<longleftrightarrow> fmlookup m k = Some (JStr s) \<and> s \<noteq> []"
  by (auto simp: command_readNonEmptyString_def split: option.split json.split)

lemma command_readString_iff [reads_iff]: "command_readString m k = Inr s \<longleftrightarrow> fmlookup m k = Some (JStr s)"
  by (auto simp: command_readString_def split: option.split json.split)

lemma command_readOptionalString_iff [reads_iff]:
  "command_readOptionalString m k = Inr v \<longleftrightarrow> fmlookup m k = map_option JStr v"
  by (cases v) (auto simp: command_readOptionalString_def split: option.split json.split)

lemma readPermissionDecision_iff [reads_iff]:
  "readPermissionDecision v = Inr d \<longleftrightarrow> v = Some (JStr (decision_name d))"
  by (cases d) (auto simp: readPermissionDecision_def)

lemma read_attachment_iff: "read_attachment v = Inr s \<longleftrightarrow> v = JStr s \<and> s \<noteq> []"
  by (cases v) auto

lemma read_attachments_iff [reads_iff]:
  "mapE read_attachment xs = Inr ids \<longleftrightarrow> xs = map JStr ids \<and> [] \<notin> set ids"
proof (induction xs arbitrary: ids)
  case (Cons x xs)
  then show ?case by (cases ids) (auto simp: read_attachment_iff)
qed auto

lemma requireDurable_iff [reads_iff]:
  "requireDurableRuntimeCommand measure_json c = Inr c'
    \<longleftrightarrow> c' = c \<and> measure_json (command_json c) \<le> RUNTIME_COMMAND_MAX_UTF8_BYTES"
  by (auto simp: requireDurableRuntimeCommand_def)

text \<open>An object with no other keys is the one that lists the values of its keys.\<close>

fun listed :: "json_object \<Rightarrow> string list \<Rightarrow> (string \<times> json) list" where
  "listed m [] = []"
| "listed m (k # ks) = opt_field k (fmlookup m k) @ listed m ks"

lemma listed_lookup: "map_of (listed m ks) k = (if k \<in> set ks then fmlookup m k else None)"
  by (induction ks) (auto simp: opt_field_def split: option.split)

definition only_keys :: "json_object \<Rightarrow> string list \<Rightarrow> bool" where
  "only_keys m ks \<longleftrightarrow> (\<forall>k. k \<notin> set ks \<longrightarrow> fmlookup m k = None)"

lemma exact_keys_iff [reads_iff]: "command_requireExactKeys m ks l = Inr u \<longleftrightarrow> only_keys m ks"
  by (auto simp: command_requireExactKeys_def only_keys_def fmlookup_dom_iff)

lemma only_keys_eq:
  assumes "only_keys m ks" "listed m ks = xs"
  shows "m = fmap_of_list xs"
proof (rule fmap_ext)
  fix k
  show "fmlookup m k = fmlookup (fmap_of_list xs) k"
    using assms(1) unfolding assms(2) [symmetric] only_keys_def fmlookup_of_list listed_lookup by simp
qed

lemma only_keys_upd [simp]: "only_keys (fmupd k x m) ks \<longleftrightarrow> k \<in> set ks \<and> only_keys m ks" "only_keys fmempty ks"
  by (auto simp: only_keys_def)

lemma attachments_iff:
  "(case v of None \<Rightarrow> Inr \<lparr>ci_attachmentIds = None, ci_text = s\<rparr>
     | Some (JArr xs) \<Rightarrow> bindE (mapE read_attachment xs) (\<lambda>ids. Inr \<lparr>ci_attachmentIds = Some ids, ci_text = s\<rparr>)
     | _ \<Rightarrow> Inl AttachmentIdsNotStrings) = (Inr i :: command_input command_result)
    \<longleftrightarrow> v = map_option (\<lambda>ids. JArr (map JStr ids)) (ci_attachmentIds i) \<and> ci_text i = s
        \<and> opt_all (\<lambda>ids. [] \<notin> set ids) (ci_attachmentIds i)"
proof (cases v)
  case None
  then show ?thesis by (cases i; cases "ci_attachmentIds i") auto
next
  case (Some x)
  then show ?thesis
    by (cases i; cases x; cases "ci_attachmentIds i") (auto simp: read_attachments_iff)
qed

lemma readRuntimeCommandInput_iff [reads_iff]:
  "readRuntimeCommandInput v = Inr i \<longleftrightarrow> v = Some (input_json i) \<and> input_ok i"
proof -
  have "readRuntimeCommandInput v = Inr i \<longleftrightarrow>
      (\<exists>m. v = Some (JObj m) \<and> only_keys m [''attachmentIds'', ''text'']
         \<and> fmlookup m ''text'' = Some (JStr (ci_text i)) \<and> ci_text i \<noteq> []
         \<and> fmlookup m ''attachmentIds'' = map_option (\<lambda>ids. JArr (map JStr ids)) (ci_attachmentIds i)
         \<and> opt_all (\<lambda>ids. [] \<notin> set ids) (ci_attachmentIds i))"
    unfolding readRuntimeCommandInput_def bindE_Inr_iff reads_iff attachments_iff by blast
  also have "\<dots> \<longleftrightarrow> v = Some (input_json i) \<and> input_ok i"
  proof
    assume "\<exists>m. v = Some (JObj m) \<and> only_keys m [''attachmentIds'', ''text'']
         \<and> fmlookup m ''text'' = Some (JStr (ci_text i)) \<and> ci_text i \<noteq> []
         \<and> fmlookup m ''attachmentIds'' = map_option (\<lambda>ids. JArr (map JStr ids)) (ci_attachmentIds i)
         \<and> opt_all (\<lambda>ids. [] \<notin> set ids) (ci_attachmentIds i)"
    then obtain m where m: "v = Some (JObj m)" "only_keys m [''attachmentIds'', ''text'']"
      "fmlookup m ''text'' = Some (JStr (ci_text i))" "ci_text i \<noteq> []"
      "fmlookup m ''attachmentIds'' = map_option (\<lambda>ids. JArr (map JStr ids)) (ci_attachmentIds i)"
      "opt_all (\<lambda>ids. [] \<notin> set ids) (ci_attachmentIds i)" by blast
    have "m = fmap_of_list (opt_field ''attachmentIds'' (map_option (\<lambda>ids. JArr (map JStr ids)) (ci_attachmentIds i))
        @ [(''text'', JStr (ci_text i))])"
      using m by (intro only_keys_eq [OF m(2)]) (simp add: opt_field_def)
    then show "v = Some (input_json i) \<and> input_ok i" using m by (simp add: input_json_def input_ok_def)
  next
    assume "v = Some (input_json i) \<and> input_ok i"
    then show "\<exists>m. v = Some (JObj m) \<and> only_keys m [''attachmentIds'', ''text'']
         \<and> fmlookup m ''text'' = Some (JStr (ci_text i)) \<and> ci_text i \<noteq> []
         \<and> fmlookup m ''attachmentIds'' = map_option (\<lambda>ids. JArr (map JStr ids)) (ci_attachmentIds i)
         \<and> opt_all (\<lambda>ids. [] \<notin> set ids) (ci_attachmentIds i)"
      by (cases "ci_attachmentIds i") (simp_all add: input_json_def input_ok_def opt_field_def)
  qed
  finally show ?thesis .
qed

text \<open>
  \<open>parseRuntimeCommand\<close> reads exactly the JSON of the commands whose identifiers are not
  empty and that fit the limit, and gives the command back.
\<close>

lemma parse_command_json:
  assumes "command_ok c" "measure_json (command_json c) \<le> RUNTIME_COMMAND_MAX_UTF8_BYTES"
  shows "parseRuntimeCommand measure_json (command_json c) = Inr c"
  using assms
  by (cases c) (auto simp: parseRuntimeCommand_def reads_iff opt_field_def split: option.splits)

definition read_ok :: "(json \<Rightarrow> nat) \<Rightarrow> json_object \<Rightarrow> runtime_command \<Rightarrow> bool" where
  "read_ok measure_json m c \<longleftrightarrow>
     JObj m = command_json c \<and> command_ok c \<and> measure_json (command_json c) \<le> RUNTIME_COMMAND_MAX_UTF8_BYTES"

lemma parse_command_result:
  assumes "parseRuntimeCommand measure_json v = Inr c"
  shows "v = command_json c \<and> command_ok c \<and> measure_json (command_json c) \<le> RUNTIME_COMMAND_MAX_UTF8_BYTES"
proof -
  obtain m kind where v: "v = JObj m" and kind: "fmlookup m ''kind'' = Some (JStr kind)"
    using assms by (auto simp: parseRuntimeCommand_def reads_iff)
  note p = assms [unfolded v parseRuntimeCommand_def bindE_Inr_iff reads_iff]
  consider "kind = ''input.start''" | "kind = ''mcp.execute''" | "kind = ''permission.resolve''"
    | "kind = ''session.stop''" | "kind = ''turn.cancel''"
    using p kind by (auto split: if_splits)
  then have "read_ok measure_json m c"
  proof cases
    case 1
    then show ?thesis using p kind
      by (auto simp: read_ok_def reads_iff opt_field_def dest!: only_keys_eq [OF _ refl])
  next
    case 2
    then show ?thesis using p kind
      by (auto simp: read_ok_def reads_iff opt_field_def dest!: only_keys_eq [OF _ refl])
  next
    case 3
    then show ?thesis using p kind
      by (auto simp: read_ok_def reads_iff opt_field_def dest!: only_keys_eq [OF _ refl])
  next
    case 4
    then show ?thesis using p kind
      by (auto simp: read_ok_def reads_iff opt_field_def dest!: only_keys_eq [OF _ refl])
  next
    case 5
    then show ?thesis using p kind
      by (auto simp: read_ok_def reads_iff opt_field_def dest!: only_keys_eq [OF _ refl])
  qed
  then show ?thesis using v by (simp add: read_ok_def)
qed

text \<open>
  C40.  \<open>parseRuntimeCommand\<close> accepts exactly the JSON of a command whose required strings are
  not empty and whose JSON fits the limit, and gives that very command back; so what is
  accepted has no key that is not the command's.
\<close>

theorem runtime_commands_round_trip:
  "parseRuntimeCommand measure_json v = Inr c \<longleftrightarrow>
     v = command_json c \<and> command_ok c \<and> measure_json (command_json c) \<le> RUNTIME_COMMAND_MAX_UTF8_BYTES"
  using parse_command_json parse_command_result by blast

end
