(* ===== verification/Mcp_Execution.thy ===== *)
theory Mcp_Execution
  imports Runtime_Command Command_Delivery Effects
begin

text \<open>
  The execution of an MCP tool behind the durable ledger of external effects:
  src/src/core/external-tool-effect-settlement.ts and \<open>runMcpCommand\<close> with what it calls in
  core/driver-command-dispatcher.ts.

  What is outside, the ledger, the MCP port, the event sink, the delivery of the command's
  status, the current run and the abort signal, is a parameter: a function from the calls
  made so far, with the one it answers, to its answer.  So a theorem for every such
  \<open>mcp_world\<close> is one for every behaviour of them.  The state of the code is the list of calls.
  Errors that are thrown are \<open>Error\<close>s with a message.
\<close>

section \<open>Settlements\<close>

record mcp_identity =
  mi_requestId :: string
  mi_serverId :: string
  mi_toolName :: string

record mcp_result =
  mr_isError :: "bool option"
  mr_outputText :: string
  mr_identity :: mcp_identity

record mcp_tool_execution =
  mx_isError :: "bool option"
  mx_outputText :: string
  mx_providerReceiptJson :: "string option option"

datatype mcp_settlement = SettledSuccess "string option option" mcp_result | SettledUnknown

definition result_fields :: "mcp_result \<Rightarrow> (string \<times> json) list" where
  "result_fields r =
     opt_field ''isError'' (map_option JBool (mr_isError r))
     @ [(''outputText'', JStr (mr_outputText r)), (''requestId'', JStr (mi_requestId (mr_identity r))),
        (''serverId'', JStr (mi_serverId (mr_identity r))), (''toolName'', JStr (mi_toolName (mr_identity r)))]"

fun settlement_json :: "mcp_settlement \<Rightarrow> json" where
  "settlement_json (SettledSuccess receipt result) = JObj (fmap_of_list
     ([(''kind'', JStr ''succeeded'')]
      @ opt_field ''providerReceiptJson'' (map_option (\<lambda>r. case r of None \<Rightarrow> JNull | Some s \<Rightarrow> JStr s) receipt)
      @ [(''result'', JObj (fmap_of_list (result_fields result)))]))"
| "settlement_json SettledUnknown = JObj (fmap_of_list [(''kind'', JStr ''unknown'')])"

definition OVERSIZED_MCP_OUTPUT :: string where
  "OVERSIZED_MCP_OUTPUT =
     ''MCP tool output was omitted because its durable settlement exceeded the 1044480-byte limit.''"

definition createOmittedSettlement :: "mcp_identity \<Rightarrow> mcp_settlement" where
  "createOmittedSettlement identity =
     SettledSuccess None \<lparr>mr_isError = Some True, mr_outputText = OVERSIZED_MCP_OUTPUT, mr_identity = identity\<rparr>"

definition fits_settlement :: "(json \<Rightarrow> nat) \<Rightarrow> mcp_settlement \<Rightarrow> bool" where
  "fits_settlement measure_json s \<longleftrightarrow>
     measure_json (settlement_json s) \<le> RUNTIME_COMMAND_TERMINAL_PAYLOAD_MAX_UTF8_BYTES"

definition command_identity :: "mcp_command \<Rightarrow> mcp_identity" where
  "command_identity c =
     \<lparr>mi_requestId = mc_requestId c, mi_serverId = mc_serverId c, mi_toolName = mc_toolName c\<rparr>"

datatype mcp_error =
  EffectUnknownError run_error | EffectUnsettledError run_error | McpFailure string

definition requireDurableMcpResultIdentity :: "(json \<Rightarrow> nat) \<Rightarrow> mcp_command \<Rightarrow> mcp_error + mcp_identity" where
  "requireDurableMcpResultIdentity measure_json command =
     (let identity = command_identity command in
      if \<not> fits_settlement measure_json (createOmittedSettlement identity)
      then Inl (McpFailure ''MCP command identity exceeds the durable settlement byte limit.'')
      else Inr identity)"

definition createDurableMcpSucceededSettlement ::
    "(json \<Rightarrow> nat) \<Rightarrow> mcp_tool_execution \<Rightarrow> mcp_identity \<Rightarrow> mcp_settlement" where
  "createDurableMcpSucceededSettlement measure_json execution identity =
     (let result = \<lparr>mr_isError = mx_isError execution, mr_outputText = mx_outputText execution, mr_identity = identity\<rparr>;
          settlement = SettledSuccess (mx_providerReceiptJson execution) result;
          withoutReceipt = SettledSuccess None result
      in if fits_settlement measure_json settlement then settlement
         else if fits_settlement measure_json withoutReceipt then withoutReceipt
         else createOmittedSettlement identity)"

section \<open>What is outside\<close>

datatype effect_state =
  EffectIntent string
| EffectClaimed string nat string  \<comment> \<open>effectId, attempt, idempotencyKey\<close>
| EffectSucceeded string mcp_result
| EffectUnknown string

fun effect_id :: "effect_state \<Rightarrow> string" where
  "effect_id (EffectIntent i) = i"
| "effect_id (EffectClaimed i _ _) = i"
| "effect_id (EffectSucceeded i _) = i"
| "effect_id (EffectUnknown i) = i"

text \<open>The fields every tool event of a command takes from the command are left out.\<close>

record mcp_tool_event =
  mt_rawOutput :: "string option"
  mt_status :: string
  mt_sourceEventId :: string

type_synonym mcp_update = "(mcp_result, run_error) terminal_update"

datatype mcp_call =
  PushToolEvent mcp_tool_event
| ObserveEffect
| PrepareTool
| ClaimEffect string
| ExecuteTool effect_state
| SettleEffect string string mcp_settlement  \<comment> \<open>claimToken, effectId, settlement\<close>
| DisposeTool
| FinishCommand mcp_update
| ReportDiagnostic string

type_synonym mcp_log = "mcp_call list"

record mcp_world =
  mw_push :: "mcp_log \<Rightarrow> string option"  \<comment> \<open>the message of the error, if it fails\<close>
  mw_observe :: "mcp_log \<Rightarrow> string + effect_state"
  mw_prepare :: "mcp_log \<Rightarrow> string option"
  mw_claim :: "mcp_log \<Rightarrow> string + effect_state"
  mw_execute :: "mcp_log \<Rightarrow> string + mcp_tool_execution"
  mw_settle :: "mcp_log \<Rightarrow> string + effect_state"
  mw_finish :: "mcp_log \<Rightarrow> string option"
  mw_canObserve :: bool
  mw_canClaim :: bool
  mw_canSettle :: bool
  mw_aborted :: "mcp_log \<Rightarrow> string option"
  mw_currentRunId :: "mcp_log \<Rightarrow> string option"
  mw_hasTerminal :: "mcp_log \<Rightarrow> bool"
  mw_token :: string
  mw_digest :: "json \<Rightarrow> string"
  mw_measure :: "json \<Rightarrow> nat"

type_synonym 'a mcp = "(mcp_log, mcp_error, 'a) effect"

definition call_mcp :: "mcp_call \<Rightarrow> (mcp_log \<Rightarrow> string + 'a) \<Rightarrow> 'a mcp" where
  "call_mcp c answer calls =
     ((case answer (calls @ [c]) of Inl message \<Rightarrow> Inl (McpFailure message) | Inr x \<Rightarrow> Inr x), calls @ [c])"

definition do_mcp :: "mcp_call \<Rightarrow> (mcp_log \<Rightarrow> string option) \<Rightarrow> unit mcp" where
  "do_mcp c answer =
     call_mcp c (\<lambda>calls. case answer calls of Some message \<Rightarrow> Inl message | None \<Rightarrow> Inr ())"

definition attempt_mcp :: "'a mcp \<Rightarrow> (mcp_error + 'a) mcp" where
  "attempt_mcp m calls = (case m calls of (r, made) \<Rightarrow> (Inr r, made))"

definition finally_mcp :: "'a mcp \<Rightarrow> (mcp_log \<Rightarrow> mcp_log) \<Rightarrow> 'a mcp" where
  "finally_mcp m f calls = (case m calls of (r, made) \<Rightarrow> (r, f made))"

definition retryOnce :: "'a mcp \<Rightarrow> 'a mcp" where
  "retryOnce m = bindS (attempt_mcp m) (\<lambda>r. case r of Inr x \<Rightarrow> returnS x | Inl _ \<Rightarrow> m)"

section \<open>The dispatcher's part\<close>

definition toCommandFailure :: "mcp_world \<Rightarrow> mcp_command \<Rightarrow> mcp_error \<Rightarrow> run_error" where
  "toCommandFailure w command e =
     normalizeDurableRunError (mw_measure w)
       (case e of
          EffectUnknownError failure \<Rightarrow> failure
        | _ \<Rightarrow>
            \<lparr>re_code = ''driver.command_failed.mcp.execute'',
             re_details = fmap_of_list
               [(''commandId'', JStr (mc_commandId command)), (''commandKind'', JStr ''mcp.execute'')],
             re_message = (case e of McpFailure message \<Rightarrow> message | EffectUnsettledError f \<Rightarrow> re_message f
                           | EffectUnknownError f \<Rightarrow> re_message f),
             re_retryable = False\<rparr>)"

definition unsettled :: "mcp_command \<Rightarrow> string \<Rightarrow> mcp_error" where
  "unsettled command effectId = EffectUnsettledError (createMcpUnsettledEffectRunError command effectId)"

definition throwIfAborted :: "mcp_world \<Rightarrow> unit mcp" where
  "throwIfAborted w calls = (case mw_aborted w calls of Some reason \<Rightarrow> (Inl (McpFailure reason), calls) | None \<Rightarrow> (Inr (), calls))"

definition assertActiveMcpRun :: "mcp_world \<Rightarrow> mcp_command \<Rightarrow> unit mcp" where
  "assertActiveMcpRun w command calls =
     (if mw_currentRunId w calls \<noteq> Some (mc_runId command)
      then (Inl (McpFailure (''Command '' @ mc_commandId command @ '' does not target the active run.'')), calls)
      else (Inr (), calls))"

definition resolveExternalToolEffectState ::
    "mcp_command \<Rightarrow> effect_state \<Rightarrow> string \<Rightarrow> mcp_error + mcp_result" where
  "resolveExternalToolEffectState command s effectId =
     (if effect_id s \<noteq> effectId then Inl (unsettled command effectId)
      else case s of
        EffectSucceeded _ result \<Rightarrow>
          if mr_identity result \<noteq> command_identity command then Inl (unsettled command effectId) else Inr result
      | EffectUnknown _ \<Rightarrow> Inl (EffectUnknownError (createMcpUnknownEffectRunError command effectId))
      | _ \<Rightarrow> Inl (unsettled command effectId))"

definition settleExternalToolEffect ::
    "mcp_world \<Rightarrow> mcp_command \<Rightarrow> string \<Rightarrow> string \<Rightarrow> mcp_settlement \<Rightarrow> effect_state mcp" where
  "settleExternalToolEffect w command claimToken effectId settlement =
     (if \<not> mw_canSettle w then throwS (McpFailure ''Driver external tool effect ledger is not configured.'')
      else bindS (attempt_mcp (retryOnce (call_mcp (SettleEffect claimToken effectId settlement) (mw_settle w))))
             (\<lambda>r. case r of Inr s \<Rightarrow> returnS s | Inl _ \<Rightarrow> throwS (unsettled command effectId)))"

definition executeMcpIntent :: "mcp_world \<Rightarrow> mcp_command \<Rightarrow> string \<Rightarrow> mcp_result mcp" where
  "executeMcpIntent w command effectId =
     bindS (assertActiveMcpRun w command) (\<lambda>_.
     bindS (liftS (requireDurableMcpResultIdentity (mw_measure w) command)) (\<lambda>identity.
     bindS (do_mcp PrepareTool (mw_prepare w)) (\<lambda>_.
       finally_mcp
         (bindS (throwIfAborted w) (\<lambda>_.
          bindS (assertActiveMcpRun w command) (\<lambda>_.
            if \<not> mw_canClaim w
            then throwS (McpFailure ''Driver external tool effect ledger is not configured.'')
            else
              bindS (attempt_mcp (retryOnce (call_mcp (ClaimEffect (mw_token w)) (mw_claim w)))) (\<lambda>claimed.
                case claimed of
                  Inl _ \<Rightarrow> throwS (unsettled command effectId)
                | Inr claim \<Rightarrow>
                    (case claim of
                       EffectClaimed claimId _ _ \<Rightarrow>
                         if claimId \<noteq> effectId then throwS (unsettled command effectId)
                         else
                           bindS (attempt_mcp (call_mcp (ExecuteTool claim) (mw_execute w))) (\<lambda>execution.
                           bindS (settleExternalToolEffect w command (mw_token w) effectId
                                    (case execution of
                                       Inl _ \<Rightarrow> SettledUnknown
                                     | Inr x \<Rightarrow> createDurableMcpSucceededSettlement (mw_measure w) x identity))
                             (\<lambda>settled. liftS (resolveExternalToolEffectState command settled effectId)))
                     | _ \<Rightarrow> liftS (resolveExternalToolEffectState command claim effectId))))))
         (\<lambda>calls. calls @ [DisposeTool]))))"

definition tool_event :: "string \<Rightarrow> string option \<Rightarrow> string \<Rightarrow> mcp_tool_event" where
  "tool_event status rawOutput sourceEventId =
     \<lparr>mt_rawOutput = rawOutput, mt_status = status, mt_sourceEventId = sourceEventId\<rparr>"

definition createMcpExecuteFailedEventIdentity :: "mcp_world \<Rightarrow> mcp_command \<Rightarrow> string \<Rightarrow> mcp_tool_event" where
  "createMcpExecuteFailedEventIdentity w command rawOutput =
     tool_event ''failed'' (Some rawOutput)
       (''mcp.execute.failed:'' @ mw_digest w (JArr
          [JStr (mc_commandId command),
           JObj (fmap_of_list
             [(''kind'', JStr ''mcp''), (''rawInput'', JStr (mc_argumentsJson command)),
              (''rawOutput'', JStr rawOutput), (''status'', JStr ''failed''),
              (''title'', JStr (mc_toolName command)), (''toolCallId'', JStr (mc_toolCallId command))])]))"

text \<open>\<open>failCommand\<close> for an MCP command; a diagnostic that cannot be reported is logged only.\<close>

definition failMcpCommand :: "mcp_world \<Rightarrow> run_error \<Rightarrow> unit mcp" where
  "failMcpCommand w failure =
     bindS (do_mcp (FinishCommand (UpdateFailed failure)) (mw_finish w)) (\<lambda>_.
       changeS (\<lambda>calls. calls @ [ReportDiagnostic (re_message failure)]))"

text \<open>The body of \<open>try\<close> up to the assignment of \<open>durableResult\<close>, what follows it, and \<open>catch\<close>.\<close>

definition obtain_result :: "mcp_world \<Rightarrow> mcp_command \<Rightarrow> mcp_result mcp" where
  "obtain_result w command =
     bindS (do_mcp (PushToolEvent (tool_event ''running'' None (''mcp.execute.running:'' @ mc_commandId command)))
              (mw_push w)) (\<lambda>_.
     bindS (throwIfAborted w) (\<lambda>_.
       if \<not> mw_canObserve w \<or> \<not> mw_canClaim w \<or> \<not> mw_canSettle w
       then throwS (McpFailure ''Driver external tool effect ledger is not configured.'')
       else
         bindS (call_mcp ObserveEffect (mw_observe w)) (\<lambda>observed.
           case observed of
             EffectIntent effectId \<Rightarrow> executeMcpIntent w command effectId
           | _ \<Rightarrow> liftS (resolveExternalToolEffectState command observed (effect_id observed)))))"

definition report_result :: "mcp_world \<Rightarrow> mcp_command \<Rightarrow> mcp_result \<Rightarrow> unit mcp" where
  "report_result w command result =
     bindS (do_mcp (PushToolEvent (tool_event ''completed'' (Some (mr_outputText result))
              (''mcp.execute.completed:'' @ mc_commandId command))) (mw_push w)) (\<lambda>_.
       do_mcp (FinishCommand (UpdateCompleted (Some result))) (mw_finish w))"

fun unknown_effect :: "mcp_error \<Rightarrow> bool" where
  "unknown_effect (EffectUnknownError _) = True"
| "unknown_effect _ = False"

definition handle_failure :: "mcp_world \<Rightarrow> mcp_command \<Rightarrow> mcp_error \<Rightarrow> unit mcp" where
  "handle_failure w command e calls =
     (case e of
        EffectUnsettledError _ \<Rightarrow> throwS e calls
      | _ \<Rightarrow>
          if mw_hasTerminal w calls then throwS e calls
          else if mw_aborted w calls \<noteq> None \<and> \<not> unknown_effect e then
            bindS (do_mcp (PushToolEvent (tool_event ''cancelled'' None
                     (''mcp.execute.cancelled:'' @ mc_commandId command))) (mw_push w)) (\<lambda>_.
              do_mcp (FinishCommand UpdateCancelled) (mw_finish w)) calls
          else
            let failure = toCommandFailure w command e in
            bindS (do_mcp (PushToolEvent (createMcpExecuteFailedEventIdentity w command (re_message failure)))
                     (mw_push w)) (\<lambda>_.
              failMcpCommand w failure) calls)"

definition runMcpCommand :: "mcp_world \<Rightarrow> mcp_command \<Rightarrow> unit mcp" where
  "runMcpCommand w command =
     bindS (attempt_mcp (obtain_result w command)) (\<lambda>r.
       case r of Inr result \<Rightarrow> report_result w command result | Inl e \<Rightarrow> handle_failure w command e)"

end
