(* ===== verification/Mcp_Safety.thy ===== *)
theory Mcp_Safety
  imports Mcp_Execution
begin

text \<open>
  When an MCP tool is executed, and what is reported of it: the calls of \<open>runMcpCommand\<close>, whatever
  the ledger, the tool and the host answer.
\<close>

section \<open>Settlements\<close>

lemma durable_settlement_fits:
  assumes "requireDurableMcpResultIdentity measure_json c = Inr identity"
  shows "fits_settlement measure_json (createDurableMcpSucceededSettlement measure_json x identity)"
  using assms
  by (auto simp: requireDurableMcpResultIdentity_def createDurableMcpSucceededSettlement_def Let_def split: if_splits)

lemma required_identity: "requireDurableMcpResultIdentity measure_json c = Inr identity \<Longrightarrow> identity = command_identity c"
  by (auto simp: requireDurableMcpResultIdentity_def Let_def split: if_splits)

section \<open>Calls\<close>

lemma do_mcp_run:
  "do_mcp k answer calls = (case answer (calls @ [k]) of Some m \<Rightarrow> Inl (McpFailure m) | None \<Rightarrow> Inr (), calls @ [k])"
  by (simp add: do_mcp_def call_mcp_def split: option.split)

lemma retried_call:
  assumes "retryOnce (call_mcp k answer) calls = (r, made)"
  obtains x where "r = Inr x" "made = calls @ [k]" "answer made = Inr x"
  | x where "r = Inr x" "made = calls @ [k, k]" "answer made = Inr x"
  | m where "r = Inl (McpFailure m)" "made = calls @ [k, k]"
proof (cases "answer (calls @ [k])")
  case (Inr x)
  then show thesis using assms by (intro that(1) [of x]) (auto simp: retryOnce_def call_mcp_def attempt_mcp_def bindS_def)
next
  case (Inl m)
  then show thesis using assms that(2,3)
    by (cases "answer (calls @ [k, k])") (auto simp: retryOnce_def call_mcp_def attempt_mcp_def bindS_def)
qed

lemma resolved_effect:
  "resolveExternalToolEffectState c s i = Inr res \<longleftrightarrow> s = EffectSucceeded i res \<and> mr_identity res = command_identity c"
  by (cases s) (auto simp: resolveExternalToolEffectState_def)

lemma resolved_failure:
  "resolveExternalToolEffectState c s i = Inl e \<Longrightarrow> \<not> (\<exists>m. e = McpFailure m)"
  by (cases s) (auto simp: resolveExternalToolEffectState_def unsettled_def split: if_splits)

section \<open>An intent\<close>

fun quiet_call :: "mcp_call \<Rightarrow> bool" where
  "quiet_call (ExecuteTool _) = False"
| "quiet_call (SettleEffect _ _ _) = False"
| "quiet_call (FinishCommand _) = False"
| "quiet_call _ = True"

abbreviation quiet :: "mcp_log \<Rightarrow> bool" where
  "quiet calls \<equiv> list_all quiet_call calls"

text \<open>The ledger has recorded a success with the result.\<close>

definition recorded :: "mcp_world \<Rightarrow> mcp_command \<Rightarrow> mcp_log \<Rightarrow> mcp_result \<Rightarrow> bool" where
  "recorded w c calls res \<longleftrightarrow> mr_identity res = command_identity c
     \<and> (\<exists>i n. n \<le> length calls \<and> (mw_observe w (take n calls) = Inr (EffectSucceeded i res)
          \<or> mw_claim w (take n calls) = Inr (EffectSucceeded i res)
          \<or> mw_settle w (take n calls) = Inr (EffectSucceeded i res)))"

text \<open>
  The tool is executed between a claim of the effect that was answered, and settlements of it
  that fit the limit.
\<close>

definition executed :: "mcp_world \<Rightarrow> mcp_command \<Rightarrow> string \<Rightarrow> mcp_log \<Rightarrow> mcp_log \<Rightarrow> bool" where
  "executed w c i calls made \<longleftrightarrow>
     (\<exists>before n key s settles after. made = calls @ before @ ExecuteTool (EffectClaimed i n key) # settles @ after
        \<and> quiet before \<and> quiet after \<and> before \<noteq> [] \<and> last before = ClaimEffect (mw_token w)
        \<and> mw_claim w (calls @ before) = Inr (EffectClaimed i n key)
        \<and> settles \<noteq> [] \<and> set settles = {SettleEffect (mw_token w) i s}
        \<and> (s = SettledUnknown \<or> fits_settlement (mw_measure w) s))"

definition not_executed :: "mcp_log \<Rightarrow> mcp_log \<Rightarrow> bool" where
  "not_executed calls made \<longleftrightarrow> (\<exists>added. made = calls @ added \<and> quiet added)"

lemma not_executedI: "made = calls @ added \<Longrightarrow> quiet added \<Longrightarrow> not_executed calls made"
  by (auto simp: not_executed_def)

definition claimed_part :: "mcp_world \<Rightarrow> mcp_command \<Rightarrow> string \<Rightarrow> mcp_identity \<Rightarrow> effect_state \<Rightarrow> mcp_result mcp" where
  "claimed_part w c i identity claim =
     bindS (attempt_mcp (call_mcp (ExecuteTool claim) (mw_execute w))) (\<lambda>execution.
     bindS (settleExternalToolEffect w c (mw_token w) i
              (case execution of Inl _ \<Rightarrow> SettledUnknown
               | Inr x \<Rightarrow> createDurableMcpSucceededSettlement (mw_measure w) x identity))
       (\<lambda>settled. liftS (resolveExternalToolEffectState c settled i)))"

lemma claimed_part_run:
  assumes run: "claimed_part w c i identity claim calls = (r, made)" and can: "mw_canSettle w"
    and identity: "requireDurableMcpResultIdentity (mw_measure w) c = Inr identity"
  shows "(\<exists>s settles. made = calls @ ExecuteTool claim # settles \<and> settles \<noteq> []
        \<and> set settles = {SettleEffect (mw_token w) i s} \<and> (s = SettledUnknown \<or> fits_settlement (mw_measure w) s))
    \<and> (\<forall>m. r \<noteq> Inl (McpFailure m))
    \<and> (\<forall>res. r = Inr res \<longrightarrow> mr_identity res = command_identity c \<and> mw_settle w made = Inr (EffectSucceeded i res))"
proof -
  define s where "s = (case mw_execute w (calls @ [ExecuteTool claim]) of
      Inl _ \<Rightarrow> SettledUnknown | Inr x \<Rightarrow> createDurableMcpSucceededSettlement (mw_measure w) x identity)"
  have fits: "s = SettledUnknown \<or> fits_settlement (mw_measure w) s"
    using durable_settlement_fits [OF identity] by (auto simp: s_def split: sum.split)
  obtain r' made' where settled: "retryOnce (call_mcp (SettleEffect (mw_token w) i s) (mw_settle w)) (calls @ [ExecuteTool claim]) = (r', made')"
    by fastforce
  have run': "(r, made) = (case r' of Inr x \<Rightarrow> (resolveExternalToolEffectState c x i, made') | Inl _ \<Rightarrow> (Inl (unsettled c i), made'))"
  proof (cases "mw_execute w (calls @ [ExecuteTool claim])")
    case (Inl m)
    then show ?thesis using run can settled
      by (cases r') (auto simp: claimed_part_def call_mcp_def attempt_mcp_def bindS_def settleExternalToolEffect_def s_def)
  next
    case (Inr x)
    then show ?thesis using run can settled
      by (cases r') (auto simp: claimed_part_def call_mcp_def attempt_mcp_def bindS_def settleExternalToolEffect_def s_def)
  qed
  from settled show ?thesis
  proof (cases rule: retried_call)
    case (1 x)
    then have "made = calls @ ExecuteTool claim # [SettleEffect (mw_token w) i s]"
      "r = resolveExternalToolEffectState c x i" "mw_settle w made = Inr x"
      using run' by auto
    then show ?thesis using fits resolved_failure resolved_effect by fastforce
  next
    case (2 x)
    then have "made = calls @ ExecuteTool claim # [SettleEffect (mw_token w) i s, SettleEffect (mw_token w) i s]"
      "r = resolveExternalToolEffectState c x i" "mw_settle w made = Inr x"
      using run' by auto
    then show ?thesis using fits resolved_failure resolved_effect by fastforce
  next
    case (3 m)
    then have "made = calls @ ExecuteTool claim # [SettleEffect (mw_token w) i s, SettleEffect (mw_token w) i s]"
      "r = Inl (unsettled c i)"
      using run' by auto
    then show ?thesis using fits by (fastforce simp: unsettled_def)
  qed
qed

definition claim_part :: "mcp_world \<Rightarrow> mcp_command \<Rightarrow> string \<Rightarrow> mcp_identity \<Rightarrow> mcp_result mcp" where
  "claim_part w c i identity =
     bindS (attempt_mcp (retryOnce (call_mcp (ClaimEffect (mw_token w)) (mw_claim w)))) (\<lambda>claimed.
       case claimed of
         Inl _ \<Rightarrow> throwS (unsettled c i)
       | Inr claim \<Rightarrow>
           (case claim of
              EffectClaimed claimId _ _ \<Rightarrow>
                if claimId \<noteq> i then throwS (unsettled c i) else claimed_part w c i identity claim
            | _ \<Rightarrow> liftS (resolveExternalToolEffectState c claim i)))"

definition outcome_ok :: "mcp_world \<Rightarrow> mcp_command \<Rightarrow> string \<Rightarrow> mcp_log \<Rightarrow> mcp_error + mcp_result \<Rightarrow> mcp_log \<Rightarrow> bool" where
  "outcome_ok w c i calls r made \<longleftrightarrow>
     (not_executed calls made \<or> executed w c i calls made \<and> (\<forall>m. r \<noteq> Inl (McpFailure m)))
     \<and> (\<forall>res. r = Inr res \<longrightarrow> recorded w c made res)"

lemma recordedI:
  assumes "mr_identity res = command_identity c"
    and "mw_observe w made = Inr (EffectSucceeded i res) \<or> mw_claim w made = Inr (EffectSucceeded i res)
      \<or> mw_settle w made = Inr (EffectSucceeded i res)"
  shows "recorded w c (made @ rest) res"
proof -
  have "take (length made) (made @ rest) = made" "length made \<le> length (made @ rest)" by simp_all
  with assms show ?thesis unfolding recorded_def by metis
qed

lemma claim_part_run:
  assumes run: "claim_part w c i identity calls = (r, made)" and can: "mw_canSettle w"
    and identity: "requireDurableMcpResultIdentity (mw_measure w) c = Inr identity"
  shows "outcome_ok w c i calls r made"
proof -
  obtain r' made' where claim: "retryOnce (call_mcp (ClaimEffect (mw_token w)) (mw_claim w)) calls = (r', made')"
    by fastforce
  have answered: ?thesis
    if made': "made' = calls @ before" "quiet before" "before \<noteq> []" "last before = ClaimEffect (mw_token w)"
      and r': "r' = Inr x" "mw_claim w made' = Inr x" for before x
  proof (cases "\<exists>n key. x = EffectClaimed i n key")
    case True
    then obtain n key where x: "x = EffectClaimed i n key" by blast
    then have part: "claimed_part w c i identity (EffectClaimed i n key) (calls @ before) = (r, made)"
      using run claim made' r' by (simp add: claim_part_def attempt_mcp_def bindS_def)
    note claimed_part_run [OF part can identity]
    then obtain s settles where made: "made = (calls @ before) @ ExecuteTool (EffectClaimed i n key) # settles"
      "settles \<noteq> []" "set settles = {SettleEffect (mw_token w) i s}" "s = SettledUnknown \<or> fits_settlement (mw_measure w) s"
      and r: "\<forall>m. r \<noteq> Inl (McpFailure m)"
        "\<forall>res. r = Inr res \<longrightarrow> mr_identity res = command_identity c \<and> mw_settle w made = Inr (EffectSucceeded i res)"
      by blast
    have "executed w c i calls made" unfolding executed_def
    proof (intro exI conjI)
      show "made = calls @ before @ ExecuteTool (EffectClaimed i n key) # settles @ []" using made by simp
      show "mw_claim w (calls @ before) = Inr (EffectClaimed i n key)" using r' x made' by simp
    qed (use made made' in auto)
    moreover have "recorded w c made res" if "r = Inr res" for res
      using recordedI [of res c w made i "[]"] r that by simp
    ultimately show ?thesis using r by (simp add: outcome_ok_def)
  next
    case False
    have r: "made = made' \<and> (r = Inl (unsettled c i) \<or> r = resolveExternalToolEffectState c x i)"
      using run claim r' False
      by (cases x) (auto simp: claim_part_def attempt_mcp_def bindS_def split: if_splits)
    moreover have "recorded w c made res" if "r = Inr res" for res
    proof -
      have "resolveExternalToolEffectState c x i = Inr res" using r that by auto
      then have "x = EffectSucceeded i res" "mr_identity res = command_identity c" by (simp_all add: resolved_effect)
      then show ?thesis using recordedI [of res c w made i "[]"] r r' by simp
    qed
    moreover have "not_executed calls made'" by (rule not_executedI [OF made'(1,2)])
    ultimately show ?thesis by (simp add: outcome_ok_def)
  qed
  from claim show ?thesis
  proof (cases rule: retried_call)
    case (1 x)
    show ?thesis by (rule answered [of "[ClaimEffect (mw_token w)]" x]) (use 1 in simp_all)
  next
    case (2 x)
    show ?thesis by (rule answered [of "[ClaimEffect (mw_token w), ClaimEffect (mw_token w)]" x]) (use 2 in simp_all)
  next
    case (3 m)
    then have "made = calls @ [ClaimEffect (mw_token w), ClaimEffect (mw_token w)]" "r = Inl (unsettled c i)"
      using run claim by (auto simp: claim_part_def attempt_mcp_def bindS_def)
    moreover have "not_executed calls (calls @ [ClaimEffect (mw_token w), ClaimEffect (mw_token w)])"
      by (rule not_executedI [OF refl]) simp
    ultimately show ?thesis by (simp add: outcome_ok_def)
  qed
qed

lemma outcome_quietly:
  assumes "outcome_ok w c i (calls @ first) r made" "quiet first" "quiet rest"
  shows "outcome_ok w c i calls r (made @ rest)"
proof -
  have "not_executed calls (made @ rest)" if "not_executed (calls @ first) made"
    using that assms(2,3) by (auto simp: not_executed_def)
  moreover have "executed w c i calls (made @ rest)" if ran: "executed w c i (calls @ first) made"
  proof -
    obtain before n key s settles after where e: "made = (calls @ first) @ before @ ExecuteTool (EffectClaimed i n key) # settles @ after"
      "quiet before" "quiet after" "before \<noteq> []" "last before = ClaimEffect (mw_token w)"
      "mw_claim w ((calls @ first) @ before) = Inr (EffectClaimed i n key)"
      "settles \<noteq> []" "set settles = {SettleEffect (mw_token w) i s}"
      "s = SettledUnknown \<or> fits_settlement (mw_measure w) s"
      using ran unfolding executed_def by (elim exE conjE)
    show ?thesis unfolding executed_def
    proof (intro exI conjI)
      show "made @ rest = calls @ (first @ before) @ ExecuteTool (EffectClaimed i n key) # settles @ (after @ rest)"
        using e by simp
    qed (use e assms in auto)
  qed
  moreover have "recorded w c (made @ rest) res" if r: "recorded w c made res" for res
  proof -
    obtain i n where n: "n \<le> length made" "mr_identity res = command_identity c"
      "mw_observe w (take n made) = Inr (EffectSucceeded i res) \<or> mw_claim w (take n made) = Inr (EffectSucceeded i res)
        \<or> mw_settle w (take n made) = Inr (EffectSucceeded i res)"
      using r by (auto simp: recorded_def)
    then have "recorded w c (take n made @ (drop n made @ rest)) res" by (intro recordedI)
    then show ?thesis by (metis append_assoc append_take_drop_id)
  qed
  ultimately show ?thesis using assms(1) by (auto simp: outcome_ok_def)
qed

lemma intent_eq:
  "mw_canClaim w \<Longrightarrow> executeMcpIntent w c i =
     bindS (assertActiveMcpRun w c) (\<lambda>_.
     bindS (liftS (requireDurableMcpResultIdentity (mw_measure w) c)) (\<lambda>identity.
     bindS (do_mcp PrepareTool (mw_prepare w)) (\<lambda>_.
       finally_mcp
         (bindS (throwIfAborted w) (\<lambda>_. bindS (assertActiveMcpRun w c) (\<lambda>_. claim_part w c i identity)))
         (\<lambda>calls. calls @ [DisposeTool]))))"
  unfolding executeMcpIntent_def claim_part_def claimed_part_def by simp

lemma intent_run:
  assumes run: "executeMcpIntent w c i calls = (r, made)" and can: "mw_canSettle w" "mw_canClaim w"
  shows "outcome_ok w c i calls r made"
proof -
  have quit: ?thesis if "made = calls @ rest" "quiet rest" "r = Inl e" for rest e
    using not_executedI [OF that(1,2)] that(3) by (simp add: outcome_ok_def)
  consider (inactive) e where "r = Inl e" "made = calls"
    | (unprepared) e where "r = Inl e" "made = calls @ [PrepareTool]"
    | (prepared) identity r' made' where "requireDurableMcpResultIdentity (mw_measure w) c = Inr identity"
        "r = r'" "made = made' @ [DisposeTool]"
        "bindS (throwIfAborted w) (\<lambda>_. bindS (assertActiveMcpRun w c) (\<lambda>_. claim_part w c i identity))
           (calls @ [PrepareTool]) = (r', made')"
  proof (cases "assertActiveMcpRun w c calls")
    case (Pair active calls')
    then have active: "calls' = calls" by (auto simp: assertActiveMcpRun_def split: if_splits)
    show thesis
    proof (cases active)
      case (Inl e)
      then show thesis using run Pair active inactive by (auto simp: executeMcpIntent_def bindS_def)
    next
      case (Inr u)
      show thesis
      proof (cases "requireDurableMcpResultIdentity (mw_measure w) c")
        case (Inl e)
        then show thesis using run Pair active Inr inactive by (auto simp: executeMcpIntent_def bindS_def)
      next
        case identity: (Inr identity)
        show thesis
        proof (cases "mw_prepare w (calls @ [PrepareTool])")
          case (Some m)
          then show thesis using run Pair active Inr identity unprepared
            by (auto simp: executeMcpIntent_def bindS_def do_mcp_run)
        next
          case None
          obtain r' made' where part: "bindS (throwIfAborted w) (\<lambda>_. bindS (assertActiveMcpRun w c) (\<lambda>_. claim_part w c i identity))
              (calls @ [PrepareTool]) = (r', made')" by fastforce
          have "(r, made) = (r', made' @ [DisposeTool])"
          proof -
            have "assertActiveMcpRun w c calls = (Inr (), calls)" using Pair active Inr by simp
            moreover have "do_mcp PrepareTool (mw_prepare w) calls = (Inr (), calls @ [PrepareTool])"
              using None by (simp add: do_mcp_run)
            moreover have "liftS (requireDurableMcpResultIdentity (mw_measure w) c) calls = (Inr identity, calls)"
              using identity by simp
            ultimately show ?thesis
              using run unfolding intent_eq [OF can(2)] by (simp only: bindS_run finally_mcp_def part prod.case prod.inject)
          qed
          then show thesis using prepared identity part by blast
        qed
      qed
    qed
  qed
  then show ?thesis
  proof cases
    case (prepared identity r' made')
    have checks: "throwIfAborted w calls' = (Inr (), calls') \<or> (\<exists>e. throwIfAborted w calls' = (Inl e, calls'))"
      "assertActiveMcpRun w c calls' = (Inr (), calls') \<or> (\<exists>e. assertActiveMcpRun w c calls' = (Inl e, calls'))" for calls'
      by (auto simp: throwIfAborted_def assertActiveMcpRun_def split: option.split)
    consider (stopped) e where "r' = Inl e" "made' = calls @ [PrepareTool]"
      | (goes) "claim_part w c i identity (calls @ [PrepareTool]) = (r', made')"
      using prepared(4) checks [of "calls @ [PrepareTool]"] by (auto simp: bindS_def)
    then show ?thesis
    proof cases
      case stopped
      show ?thesis by (rule quit [of "[PrepareTool, DisposeTool]" e]) (use stopped in \<open>simp_all add: prepared\<close>)
    next
      case goes
      have "outcome_ok w c i (calls @ [PrepareTool]) r' made'" by (rule claim_part_run [OF goes can(1) prepared(1)])
      then show ?thesis unfolding prepared(2,3) by (rule outcome_quietly) simp_all
    qed
  next
    case (inactive e)
    show ?thesis by (rule quit [of "[]" e]) (use inactive in simp_all)
  next
    case (unprepared e)
    show ?thesis by (rule quit [of "[PrepareTool]" e]) (use unprepared in simp_all)
  qed
qed

section \<open>The whole command\<close>

definition obtained_ok :: "mcp_world \<Rightarrow> mcp_command \<Rightarrow> mcp_error + mcp_result \<Rightarrow> mcp_log \<Rightarrow> bool" where
  "obtained_ok w c r made \<longleftrightarrow>
     (quiet made
      \<or> (\<exists>running i. executed w c i [running, ObserveEffect] made \<and> quiet_call running
           \<and> mw_observe w [running, ObserveEffect] = Inr (EffectIntent i) \<and> (\<forall>m. r \<noteq> Inl (McpFailure m))))
     \<and> (\<forall>res. r = Inr res \<longrightarrow> recorded w c made res)"

lemma obtain_result_run:
  assumes run: "obtain_result w c [] = (r, made)"
  shows "obtained_ok w c r made"
proof -
  let ?running = "PushToolEvent (tool_event ''running'' None (''mcp.execute.running:'' @ mc_commandId c))"
  have quit: ?thesis if "r = Inl e" "quiet made" for e using that by (simp add: obtained_ok_def)
  show ?thesis
  proof (cases "mw_push w [?running]")
    case (Some m)
    then show ?thesis using run by (intro quit) (auto simp: obtain_result_def bindS_def do_mcp_run)
  next
    case None
    show ?thesis
    proof (cases "mw_aborted w [?running]")
      case (Some m)
      then show ?thesis using run None
        by (intro quit) (auto simp: obtain_result_def bindS_def do_mcp_run throwIfAborted_def)
    next
      case go: None
      show ?thesis
      proof (cases "mw_canObserve w \<and> mw_canClaim w \<and> mw_canSettle w")
        case False
        then show ?thesis using run None go
          by (intro quit) (auto simp: obtain_result_def bindS_def do_mcp_run throwIfAborted_def)
      next
        case can: True
        show ?thesis
        proof (cases "mw_observe w [?running, ObserveEffect]")
          case (Inl m)
          then show ?thesis using run None go can
            by (intro quit) (auto simp: obtain_result_def bindS_def do_mcp_run throwIfAborted_def call_mcp_def)
        next
          case (Inr observed)
          show ?thesis
          proof (cases "\<exists>i. observed = EffectIntent i")
            case True
            then obtain i where i: "observed = EffectIntent i" by blast
            have "executeMcpIntent w c i [?running, ObserveEffect] = (r, made)"
              using run None go can Inr i
              by (simp add: obtain_result_def bindS_def do_mcp_run throwIfAborted_def call_mcp_def)
            then have "outcome_ok w c i [?running, ObserveEffect] r made" using can by (intro intent_run) simp_all
            moreover have "quiet made" if "not_executed [?running, ObserveEffect] made"
              using that by (auto simp: not_executed_def)
            ultimately show ?thesis using Inr i by (auto simp: outcome_ok_def obtained_ok_def)
          next
            case False
            then have r: "made = [?running, ObserveEffect]"
                "r = resolveExternalToolEffectState c observed (effect_id observed)"
              using run None go can Inr
              by (cases observed; simp add: obtain_result_def bindS_def do_mcp_run throwIfAborted_def call_mcp_def)+
            moreover have "recorded w c made res" if "r = Inr res" for res
            proof -
              have "resolveExternalToolEffectState c observed (effect_id observed) = Inr res" using r(2) that by simp
              then have "observed = EffectSucceeded (effect_id observed) res" "mr_identity res = command_identity c"
                unfolding resolved_effect by blast+
              with Inr have "recorded w c (made @ []) res" unfolding r(1) by (intro recordedI) auto
              then show ?thesis by simp
            qed
            ultimately show ?thesis by (simp add: obtained_ok_def)
          qed
        qed
      qed
    qed
  qed
qed

fun ends_command :: "mcp_call \<Rightarrow> bool" where
  "ends_command (FinishCommand _) = True"
| "ends_command _ = False"

fun executes :: "mcp_call \<Rightarrow> bool" where
  "executes (ExecuteTool _) = True"
| "executes _ = False"

text \<open>What is reported after the attempt to obtain a result.\<close>

fun finish_fits :: "mcp_error + mcp_result \<Rightarrow> mcp_update \<Rightarrow> bool" where
  "finish_fits r UpdateCancelled \<longleftrightarrow> (\<exists>m. r = Inl (McpFailure m))"
| "finish_fits r (UpdateCompleted v) \<longleftrightarrow> (\<exists>res. v = Some res \<and> r = Inr res)"
| "finish_fits r (UpdateFailed f) \<longleftrightarrow> True"

definition reports :: "mcp_error + mcp_result \<Rightarrow> mcp_log \<Rightarrow> bool" where
  "reports r tail \<longleftrightarrow> tail = [] \<or> (\<exists>e. tail = [PushToolEvent e])
     \<or> (\<exists>e u. finish_fits r u \<and> (tail = [PushToolEvent e, FinishCommand u]
          \<or> (\<exists>m. tail = [PushToolEvent e, FinishCommand u, ReportDiagnostic m])))"

lemma runMcpCommand_run:
  assumes run: "runMcpCommand w c calls = (r, made)"
  obtains r' made' tail where "obtain_result w c calls = (r', made')" "made = made' @ tail" "reports r' tail"
proof -
  obtain r' made' where obtained: "obtain_result w c calls = (r', made')" by fastforce
  have "\<exists>tail. made = made' @ tail \<and> reports r' tail"
  proof (cases r')
    case (Inr res)
    then have run': "report_result w c res made' = (r, made)"
      using run obtained by (simp add: runMcpCommand_def bindS_def attempt_mcp_def)
    let ?push = "PushToolEvent (tool_event ''completed'' (Some (mr_outputText res)) (''mcp.execute.completed:'' @ mc_commandId c))"
    have "made = made' @ [?push] \<or> made = made' @ [?push, FinishCommand (UpdateCompleted (Some res))]"
      using run' by (auto simp: report_result_def bindS_def do_mcp_run split: option.splits)
    then show ?thesis
    proof
      assume "made = made' @ [?push]"
      then show ?thesis by (intro exI [of _ "[?push]"]) (simp add: reports_def)
    next
      assume "made = made' @ [?push, FinishCommand (UpdateCompleted (Some res))]"
      then show ?thesis using Inr
        by (intro exI [of _ "[?push, FinishCommand (UpdateCompleted (Some res))]"]) (simp add: reports_def)
    qed
  next
    case (Inl e)
    then have run': "handle_failure w c e made' = (r, made)"
      using run obtained by (simp add: runMcpCommand_def bindS_def attempt_mcp_def)
    show ?thesis
    proof (cases e)
      case (EffectUnsettledError f)
      then have "made = made' @ []" using run' by (simp add: handle_failure_def)
      then show ?thesis by (intro exI [of _ "[]"]) (simp add: reports_def)
    qed (use run' Inl in \<open>auto simp: handle_failure_def failMcpCommand_def Let_def bindS_def do_mcp_run reports_def
      split: if_splits option.splits\<close>)
  qed
  then show thesis using that obtained by blast
qed

section \<open>Properties\<close>

lemma quiet_call_none: "quiet_call k \<Longrightarrow> \<not> executes k" "quiet_call k \<Longrightarrow> \<not> ends_command k"
  by (cases k; simp)+

lemma quiet_none:
  "quiet calls \<Longrightarrow> filter executes calls = []" "quiet calls \<Longrightarrow> filter ends_command calls = []"
  by (induction calls) (auto dest: quiet_call_none)

lemma reports_none: "reports r tail \<Longrightarrow> filter executes tail = []"
  "reports r tail \<Longrightarrow> filter ends_command tail = [] \<or> (\<exists>u. filter ends_command tail = [FinishCommand u] \<and> finish_fits r u)"
  by (auto simp: reports_def)

lemma settles_none:
  assumes "set settles = {SettleEffect token i s}"
  shows "filter executes settles = []" "filter ends_command settles = []"
  using assms by (auto simp: filter_empty_conv)

lemma only_execution:
  assumes "filter executes before = []" "filter executes after = []"
    and "(before @ ExecuteTool s # after) ! n = ExecuteTool s'" "n < length (before @ ExecuteTool s # after)"
  shows "n = length before \<and> s' = s"
proof -
  have "k \<in> set before \<union> set after \<Longrightarrow> k \<noteq> ExecuteTool s'" for k using assms(1,2) by (auto simp: filter_empty_conv)
  then show ?thesis using assms(3,4) by (auto simp: nth_append nth_Cons split: if_splits nat.splits)
qed

lemma mcp_runs:
  assumes "runMcpCommand w c [] = (r, calls)"
  obtains (quietly) r' made tail where "calls = made @ tail" "quiet made" "reports r' tail"
      "\<And>res. r' = Inr res \<Longrightarrow> recorded w c made res"
  | (executing) r' running before i n key settles s after tail where
      "calls = running # ObserveEffect # before @ ExecuteTool (EffectClaimed i n key) # settles @ after @ tail"
      "quiet (running # ObserveEffect # before)" "quiet after" "reports r' tail"
      "mw_observe w [running, ObserveEffect] = Inr (EffectIntent i)"
      "before \<noteq> []" "last before = ClaimEffect (mw_token w)"
      "mw_claim w (running # ObserveEffect # before) = Inr (EffectClaimed i n key)"
      "settles \<noteq> []" "set settles = {SettleEffect (mw_token w) i s}"
      "s = SettledUnknown \<or> fits_settlement (mw_measure w) s"
      "\<And>m. r' \<noteq> Inl (McpFailure m)"
      "\<And>res. r' = Inr res \<Longrightarrow>
         recorded w c (running # ObserveEffect # before @ ExecuteTool (EffectClaimed i n key) # settles @ after) res"
proof -
  obtain r' made tail where made: "obtain_result w c [] = (r', made)" "calls = made @ tail" "reports r' tail"
    using runMcpCommand_run [OF assms] by metis
  have ok: "obtained_ok w c r' made" by (rule obtain_result_run [OF made(1)])
  show thesis
  proof (cases "quiet made")
    case True
    then show thesis using quietly made ok by (auto simp: obtained_ok_def)
  next
    case False
    then obtain running i where i: "executed w c i [running, ObserveEffect] made" "quiet_call running"
      "mw_observe w [running, ObserveEffect] = Inr (EffectIntent i)" "\<forall>m. r' \<noteq> Inl (McpFailure m)"
      "\<forall>res. r' = Inr res \<longrightarrow> recorded w c made res"
      using ok by (auto simp: obtained_ok_def)
    from i(1) show thesis unfolding executed_def
      by (elim exE conjE) (rule executing [of running _ i _ _ _ _ tail r'], use made i in auto)
  qed
qed

text \<open>
  C36.  An MCP command executes its tool at most once: the ledger observed an intent, the call
  before the execution claimed that very effect, and the call after it settles it, with an
  outcome that is unknown or fits what a command may keep.
\<close>

theorem mcp_tools_run_once_and_claimed:
  assumes "runMcpCommand w c [] = (r, calls)"
  shows "length (filter executes calls) \<le> 1
    \<and> (\<forall>n<length calls. \<forall>s. calls ! n = ExecuteTool s \<longrightarrow>
         (\<exists>i attempt key settlement. s = EffectClaimed i attempt key \<and> mw_observe w (take 2 calls) = Inr (EffectIntent i)
            \<and> 2 < n \<and> calls ! (n - 1) = ClaimEffect (mw_token w) \<and> mw_claim w (take n calls) = Inr s
            \<and> Suc n < length calls \<and> calls ! Suc n = SettleEffect (mw_token w) i settlement
            \<and> (settlement = SettledUnknown
               \<or> mw_measure w (settlement_json settlement) \<le> RUNTIME_COMMAND_TERMINAL_PAYLOAD_MAX_UTF8_BYTES)))"
  using assms
proof (cases rule: mcp_runs)
  case (quietly r' made tail)
  then have none: "filter executes calls = []" by (simp add: quiet_none reports_none)
  then have "calls ! n \<noteq> ExecuteTool s" if "n < length calls" for n s
    using that nth_mem [of n calls] by (fastforce simp: filter_empty_conv)
  then show ?thesis using none by simp
next
  case (executing r' running before i attempt key settles settlement after tail)
  let ?before = "running # ObserveEffect # before" and ?after = "settles @ after @ tail"
    and ?s = "EffectClaimed i attempt key"
  have calls: "calls = ?before @ ExecuteTool ?s # ?after" using executing(1) by simp
  have none: "filter executes ?before = []" "filter executes ?after = []"
    using executing(2-4) quiet_none(1) reports_none(1) settles_none(1) [OF executing(10)]
    by (auto dest: quiet_call_none)
  have "\<exists>i attempt key settlement. s = EffectClaimed i attempt key \<and> mw_observe w (take 2 calls) = Inr (EffectIntent i)
      \<and> 2 < n \<and> calls ! (n - 1) = ClaimEffect (mw_token w) \<and> mw_claim w (take n calls) = Inr s
      \<and> Suc n < length calls \<and> calls ! Suc n = SettleEffect (mw_token w) i settlement
      \<and> (settlement = SettledUnknown
         \<or> mw_measure w (settlement_json settlement) \<le> RUNTIME_COMMAND_TERMINAL_PAYLOAD_MAX_UTF8_BYTES)"
    if "n < length calls" "calls ! n = ExecuteTool s" for n s
  proof -
    have at: "n = length ?before" "s = ?s"
      using only_execution [OF none, of ?s n s] that unfolding calls by auto
    obtain first others where settles: "settles = SettleEffect (mw_token w) i settlement # others"
      using executing(9,10) by (cases settles) auto
    have "take 2 calls = [running, ObserveEffect]" "take n calls = ?before" "calls ! Suc n = hd settles"
      "Suc n < length calls" "2 < n"
      using calls at settles executing(6) by (simp_all add: nth_append)
    moreover have "calls ! (n - 1) = last before"
      using executing(6) at by (cases before rule: rev_cases) (simp_all add: calls nth_append)
    ultimately show ?thesis using executing at settles
      by (intro exI [of _ i] exI [of _ attempt] exI [of _ key] exI [of _ settlement]) (simp add: fits_settlement_def)
  qed
  moreover have "length (filter executes calls) \<le> 1" using none unfolding calls by (simp split: if_splits)
  ultimately show ?thesis by blast
qed

definition ex_mcp_command :: mcp_command where
  "ex_mcp_command =
     \<lparr>mc_argumentsJson = ''{}'', mc_commandId = ''c1'', mc_requestId = ''q1'', mc_runId = ''r1'', mc_serverId = ''s1'',
      mc_toolCallId = ''t1'', mc_toolName = ''search''\<rparr>"

definition ex_mcp_result :: mcp_result where
  "ex_mcp_result = \<lparr>mr_isError = None, mr_outputText = ''found'', mr_identity = command_identity ex_mcp_command\<rparr>"

definition ex_mcp_world :: mcp_world where
  "ex_mcp_world =
     \<lparr>mw_push = \<lambda>_. None, mw_observe = \<lambda>_. Inr (EffectIntent ''e1''), mw_prepare = \<lambda>_. None,
      mw_claim = \<lambda>_. Inr (EffectClaimed ''e1'' 1 ''k1''),
      mw_execute = \<lambda>_. Inr \<lparr>mx_isError = None, mx_outputText = ''found'', mx_providerReceiptJson = None\<rparr>,
      mw_settle = \<lambda>_. Inr (EffectSucceeded ''e1'' ex_mcp_result), mw_finish = \<lambda>_. None, mw_canObserve = True,
      mw_canClaim = True, mw_canSettle = True, mw_aborted = \<lambda>_. None, mw_currentRunId = \<lambda>_. Some ''r1'',
      mw_hasTerminal = \<lambda>_. False, mw_token = ''token'', mw_digest = \<lambda>_. ''digest'', mw_measure = \<lambda>_. 0\<rparr>"

definition ex_mcp_calls :: mcp_log where
  "ex_mcp_calls =
     [PushToolEvent (tool_event ''running'' None ''mcp.execute.running:c1''), ObserveEffect, PrepareTool,
      ClaimEffect ''token'', ExecuteTool (EffectClaimed ''e1'' 1 ''k1''),
      SettleEffect ''token'' ''e1'' (SettledSuccess None ex_mcp_result), DisposeTool,
      PushToolEvent (tool_event ''completed'' (Some ''found'') ''mcp.execute.completed:c1''),
      FinishCommand (UpdateCompleted (Some ex_mcp_result))]"

lemma ex_mcp_run: "runMcpCommand ex_mcp_world ex_mcp_command [] = (Inr (), ex_mcp_calls)"
  by (simp add: ex_mcp_world_def ex_mcp_command_def ex_mcp_calls_def ex_mcp_result_def runMcpCommand_def obtain_result_def
      report_result_def executeMcpIntent_def settleExternalToolEffect_def resolveExternalToolEffectState_def
      retryOnce_def attempt_mcp_def finally_mcp_def call_mcp_def do_mcp_def throwIfAborted_def assertActiveMcpRun_def
      requireDurableMcpResultIdentity_def createDurableMcpSucceededSettlement_def fits_settlement_def command_identity_def
      Let_def bindS_def)

theorem mcp_tools_run_once_and_claimed_witness:
  "length (filter executes ex_mcp_calls) \<le> 1
    \<and> (\<exists>settlement. ex_mcp_calls ! 5 = SettleEffect ''token'' ''e1'' settlement
         \<and> (settlement = SettledUnknown
            \<or> mw_measure ex_mcp_world (settlement_json settlement) \<le> RUNTIME_COMMAND_TERMINAL_PAYLOAD_MAX_UTF8_BYTES))"
proof -
  note safe = mcp_tools_run_once_and_claimed [OF ex_mcp_run]
  have "4 < length ex_mcp_calls" "ex_mcp_calls ! 4 = ExecuteTool (EffectClaimed ''e1'' 1 ''k1'')"
    by (simp_all add: ex_mcp_calls_def)
  with safe obtain i settlement where "ex_mcp_calls ! Suc 4 = SettleEffect (mw_token ex_mcp_world) i settlement"
      "EffectClaimed ''e1'' 1 ''k1'' = EffectClaimed i 1 ''k1''"
      "settlement = SettledUnknown
        \<or> mw_measure ex_mcp_world (settlement_json settlement) \<le> RUNTIME_COMMAND_TERMINAL_PAYLOAD_MAX_UTF8_BYTES"
    by blast
  with safe show ?thesis by (simp add: ex_mcp_world_def)
qed

text \<open>
  C37.  What an MCP command reports is what the ledger holds: its status is ended at most once;
  a completion carries a result of this command that the ledger has answered as the
  success of the effect, and a command whose tool was executed is never reported cancelled.
\<close>

theorem mcp_reports_match_the_ledger:
  assumes "runMcpCommand w c [] = (r, calls)"
  shows "length (filter ends_command calls) \<le> 1
    \<and> (\<forall>v. FinishCommand (UpdateCompleted v) \<in> set calls \<longrightarrow>
        (\<exists>res i n. v = Some res \<and> mr_identity res = command_identity c
           \<and> (mw_observe w (take n calls) = Inr (EffectSucceeded i res) \<or> mw_claim w (take n calls) = Inr (EffectSucceeded i res)
              \<or> mw_settle w (take n calls) = Inr (EffectSucceeded i res))))
    \<and> (FinishCommand UpdateCancelled \<in> set calls \<longrightarrow> filter executes calls = [])"
proof -
  obtain r' made tail where made: "calls = made @ tail" "reports r' tail" "filter ends_command made = []"
    "\<And>res. r' = Inr res \<Longrightarrow> recorded w c made res"
    "filter executes made = [] \<or> (\<forall>m. r' \<noteq> Inl (McpFailure m))"
    using assms
  proof (cases rule: mcp_runs)
    case (quietly r' made tail)
    then show thesis using that [of made tail r'] by (simp add: quiet_none)
  next
    case (executing r' running before i attempt key settles settlement after tail)
    let ?made = "running # ObserveEffect # before @ ExecuteTool (EffectClaimed i attempt key) # settles @ after"
    have "filter ends_command ?made = []"
      using executing(2,3) quiet_none(2) settles_none(2) [OF executing(10)] by (auto dest: quiet_call_none)
    then show thesis using that [of ?made tail r'] executing by simp
  qed
  have ends: "filter ends_command calls = filter ends_command tail" using made by simp
  have fits: "finish_fits r' u" if "FinishCommand u \<in> set calls" for u
  proof -
    have "FinishCommand u \<in> set (filter ends_command calls)" using that by simp
    then have "FinishCommand u \<in> set (filter ends_command tail)" unfolding ends .
    with reports_none(2) [OF made(2)] show ?thesis by (elim disjE exE conjE) (simp_all del: set_filter)
  qed
  have "\<exists>res i n. v = Some res \<and> mr_identity res = command_identity c
      \<and> (mw_observe w (take n calls) = Inr (EffectSucceeded i res) \<or> mw_claim w (take n calls) = Inr (EffectSucceeded i res)
         \<or> mw_settle w (take n calls) = Inr (EffectSucceeded i res))"
    if completed: "FinishCommand (UpdateCompleted v) \<in> set calls" for v
  proof -
    obtain res where res: "v = Some res" "r' = Inr res" using fits [OF completed] by auto
    obtain i n where "n \<le> length made" "mr_identity res = command_identity c"
      "mw_observe w (take n made) = Inr (EffectSucceeded i res) \<or> mw_claim w (take n made) = Inr (EffectSucceeded i res)
        \<or> mw_settle w (take n made) = Inr (EffectSucceeded i res)"
      using made(4) [OF res(2)] by (auto simp: recorded_def)
    moreover from this have "take n calls = take n made" by (simp add: made(1))
    ultimately show ?thesis using res by metis
  qed
  moreover have "filter executes calls = []" if "FinishCommand UpdateCancelled \<in> set calls"
    using fits [OF that] made(1,5) reports_none(1) [OF made(2)] by auto
  moreover have "length (filter ends_command calls) \<le> 1" using ends reports_none(2) [OF made(2)] by auto
  ultimately show ?thesis by blast
qed

theorem mcp_reports_match_the_ledger_witness:
  "\<exists>res i n. Some ex_mcp_result = Some res \<and> mr_identity res = command_identity ex_mcp_command
     \<and> (mw_observe ex_mcp_world (take n ex_mcp_calls) = Inr (EffectSucceeded i res)
        \<or> mw_claim ex_mcp_world (take n ex_mcp_calls) = Inr (EffectSucceeded i res)
        \<or> mw_settle ex_mcp_world (take n ex_mcp_calls) = Inr (EffectSucceeded i res))"
proof -
  have "FinishCommand (UpdateCompleted (Some ex_mcp_result)) \<in> set ex_mcp_calls" by (simp add: ex_mcp_calls_def)
  then show ?thesis using mcp_reports_match_the_ledger [OF ex_mcp_run] by blast
qed

end
