(* ===== verification/Spec2Isabelle.thy ===== *)
theory Spec2Isabelle
  imports Examples Preview_Buffer Terminal_State Runtime_State Async_Queue
    Driver_Id Event_Delivery Sse_Decoder Citation_Filter Sandbox_Paths Skill_Paths
    Event_Properties Cma_Properties Acp_Properties Turn_Accounts
    Command_Accounts Mcp_Safety
begin

text \<open>
  The contract, the core state machines, the events and the stores of the agent driver
  (\<open>src/src/contract\<close>, \<open>core\<close>, \<open>protocol\<close>, \<open>runtimes\<close>, \<open>stores\<close>, \<open>projections\<close>,
  \<open>surfaces\<close> and \<open>skill-package\<close>).

  The driver runs an agent on behalf of a Session.  A Coordinator owns the Session's
  committed state, a \<^emph>\<open>snapshot\<close> of Runs, Items and Interactions, and changes it by
  \<^emph>\<open>Mutations\<close>; clients follow it by snapshots and batches of Mutations; the executor
  that runs the agent proposes Mutations, which are checked and stamped before they are
  committed; Commands ask for changes and are checked against the current snapshot;
  previews show progress that is not committed yet.  Inside the driver a queue carries
  values from the backends to the senders, two state machines keep the driver's status and
  the fate of the one Run it may be working on, and a broker asks for permissions.  Runtime
  events leave the driver through an admission and a delivery loop; a store of the CMA
  adapter admits them again, shows them to clients as records of a log that can be listed
  and streamed, and hands the clients' commands to workers.  The host's commands reach the driver
  as JSON, their statuses are delivered back, and a command that runs an MCP tool goes
  through a ledger of external effects.  A backend turns what its agent says into events: for
  ACP agents a transcript of the turn and its endings, for the OpenAI app server a tracker of
  which native turn belongs to which run.

  Theories, in the order of the imports, and the files they model:

    \<^item> \<open>Driver_Prelude\<close>: results \<open>error + 'a\<close> and the loops over them, put-or-replace on
      lists, JSON values.  \<open>Texts\<close>: the operations on strings the code uses.
    \<^item> \<open>Timestamps\<close> (\<open>common.ts\<close>, the error codes of \<open>invariant.ts\<close>): timestamps as the
      strings they are, \<open>Date.parse\<close> on them, comparison with fractions of any length.
    \<^item> \<open>Contract_State\<close> (\<open>common.ts\<close>, \<open>content.ts\<close>, \<open>state.ts\<close>): the entities as records and
      datatypes, and what the zod schemas accept of them (\<open>*_schema\<close>).
    \<^item> \<open>State_Validation\<close> (\<open>invariant.ts\<close>, \<open>content-admission.ts\<close>, first part of
      \<open>state-validation.ts\<close>): status transitions, content, configuration, the transition
      of each entity, and the put of each collection.
    \<^item> \<open>Snapshot_Validation\<close> (\<open>state-validation.ts\<close>): \<open>validateState\<close> and
      \<open>validateSessionSnapshot\<close>.
    \<^item> \<open>Run_Relations\<close>, \<open>Snapshot_Invariants\<close>: what the validation means, as the invariant
      \<open>wf_snapshot\<close>; the cycle check against HOL's \<open>acyclic\<close>.
    \<^item> \<open>Reducer\<close> (\<open>reducer.ts\<close>, \<open>mutation.ts\<close>, \<open>sync.ts\<close>): \<open>applyCommittedMutation\<close>,
      \<open>applySyncPayload\<close>, \<open>deriveSessionActivity\<close>; \<open>Entity_Evolution\<close>, \<open>Run_Removal\<close>,
      \<open>Reducer_Properties\<close> and \<open>Session_Sync\<close> hold its lemmas.
    \<^item> \<open>Instants\<close>, \<open>Executor_Mutation\<close> (\<open>executor-mutation.ts\<close>): what an executor may
      propose and how proposals are stamped; milliseconds and \<open>toISOString\<close>.
    \<^item> \<open>Commands\<close> (\<open>command.ts\<close>, \<open>command-validation.ts\<close>): commands and their admission.
    \<^item> \<open>Previews\<close>, \<open>Preview_Buffer\<close> (\<open>preview.ts\<close>, \<open>preview-validation.ts\<close>): preview batches,
      coalescing, and the timed buffer that collects them.
    \<^item> \<open>Async_Queue\<close> (\<open>core/async-value-queue.ts\<close>), \<open>Runtime_State\<close>
      (\<open>core/driver-runtime-state.ts\<close>), \<open>Terminal_State\<close> (\<open>core/driver-terminal-state.ts\<close>,
      \<open>core/driver-turn-cancelled-error.ts\<close>).
    \<^item> \<open>Permission_Broker\<close>, \<open>Permission_Safety\<close> (\<open>core/driver-permission-broker.ts\<close>): each
      request as a record of the \<open>await\<close> it stands at; what runs between two awaits is an
      operation, and operations come in any order.
    \<^item> \<open>Driver_Id\<close> (\<open>protocol/id/index.ts\<close>), \<open>Sandbox_Paths\<close> (\<open>protocol/paths/index.ts\<close>),
      \<open>Skill_Paths\<close> (\<open>skill-package/path-admission.ts\<close>).
    \<^item> \<open>Runtime_Events\<close>, \<open>Event_Admission\<close> (\<open>protocol/events/runtime-events.ts\<close>,
      \<open>runtime-event-validation.ts\<close>): parsing of runtime events and of drafts.
    \<^item> \<open>Event_Delivery\<close> (\<open>runtimes/driver-event-admission.ts\<close>, \<open>core/driver-runtime-io.ts\<close>):
      what the publisher admits, and the loop that delivers it.
    \<^item> \<open>Citation_Filter\<close> (\<open>runtimes/openai/private-citation-filter.ts\<close>), \<open>Sse_Decoder\<close>
      (\<open>surfaces/cma-sdk/sse-bytes-decoder.ts\<close>): two stream parsers.
    \<^item> \<open>Cma_Projection\<close> (\<open>projections/cma\<close>), \<open>Cma_Broker\<close>
      (\<open>stores/memory/cma-event-broker.ts\<close>), \<open>Cma_Store\<close> (\<open>stores/memory/cma-memory-store.ts\<close>)
      with \<open>Cma_Safety\<close> (what each call does, by cases), \<open>Cma_Invariants\<close> and
      \<open>Cma_Behaviour\<close>.
    \<^item> \<open>Json_Text\<close>, \<open>Thought_Content\<close> (\<open>runtimes/provider-json.ts\<close>,
      \<open>runtimes/thought-content.ts\<close>): cutting a text into pieces of bounded JSON.
      \<open>Effects\<close>: operations that change a state and may throw.
    \<^item> ACP (\<open>runtimes/acp\<close>): \<open>Acp_Events\<close> (\<open>acp-types.ts\<close>, \<open>acp-session-update-events.ts\<close>,
      \<open>acp-lifecycle-events.ts\<close>, \<open>acp-permission-events.ts\<close>), \<open>Acp_Tools\<close> (\<open>acp-tool-events.ts\<close>),
      \<open>Acp_Transcript\<close> (\<open>acp-assistant-transcript-state.ts\<close>) and \<open>Acp_Turn\<close>
      (\<open>acp-turn-controller.ts\<close>) are the code.  \<open>Acp_Lifecycle\<close> is the protocol its events keep to;
      \<open>Acp_Updates\<close>, \<open>Acp_Thoughts\<close>, \<open>Acp_Prompt\<close>, \<open>Acp_Endings\<close> and \<open>Acp_Runs\<close> show that session
      updates, prompts and endings do, \<open>Acp_Bounds\<close> counts the events of an ending, \<open>Acp_Totality\<close>
      shows when an ending cannot fail, \<open>Acp_Properties\<close> states the properties.  Their
      hypotheses on the parameters: \<open>sound_env\<close> (identifiers differ, the coding of texts is
      one), \<open>json_nested\<close> (the JSON of a value is as long as that of its parts), \<open>events_fit\<close> (no
      event is too long).
    \<^item> \<open>Turn_Tracker\<close>, \<open>Turn_Accounts\<close> (\<open>runtimes/openai/app-server-turn-tracker.ts\<close>).
    \<^item> \<open>Runtime_Command\<close> (\<open>runtime-command/index.ts\<close>); \<open>Command_Delivery\<close>, \<open>Command_Accounts\<close>
      (\<open>core/driver-command-delivery.ts\<close>): the promises chained for a command are numbered works;
      \<open>Mcp_Execution\<close>, \<open>Mcp_Safety\<close> (\<open>core/external-tool-effect-settlement.ts\<close> and \<open>runMcpCommand\<close> of
      \<open>core/driver-command-dispatcher.ts\<close>): the answers of the ledger, the tool and the host are
      functions of the calls made so far, so a theorem is one for whatever they answer.
    \<^item> \<open>Examples\<close>: the concrete Session on which the witnesses evaluate the code.
      \<open>Event_Properties\<close> and \<open>Cma_Properties\<close> state the properties of the broker, of the
      events and of the store; the properties of the other parts are below.

  A throw is the left value of a sum, with the code of the error; a schema's parse is a
  boolean, its failure the value \<open>ZodError\<close>.  A zod object is a record, a discriminated
  union a datatype, an optional field an option, a JSON number a rational, an object with
  free keys a finite map; a transform that only checks is the check.  Arrays are lists; a
  \<open>Map\<close> or \<open>Set\<close> built from an array is a lookup in the list.  The calls of the store
  change it and may throw as well: they are functions from a store to a result and a store.
  Loops are structural recursions over the array they walk, except the walk along a chain
  of Runs, whose termination is proved with the number of Runs not visited; nothing uses
  fuel.

  Interfaces are locales: \<open>timestamp_preorder\<close> (a comparison that may throw is a preorder
  where it does not), \<open>entity_collection\<close> (a transition check and a put, interpreted for
  Runs, Items and Interactions), \<open>fifo_channel\<close> (a step function that hands on what it was
  given, in order).

  Not modelled, and why.  The text formats that zod checks by regular expressions beyond
  what the code reads of them (URIs, media types, digests) are left out of the contract's
  schemas; objects arrive parsed.  The byte length of an encoded value is a parameter where
  the code measures it, and so are JSON and UTF-8 encoders.  Callbacks given to the preview
  buffer do not call it back.  Promises are settled values: a step of the queue, of the
  buffer or of a broker is what runs between two awaits.  Of the backends (ACP, Claude, OpenAI,
  Pi) the connections to their processes and SDKs are not modelled, nor are the event bridges
  of Claude and of the OpenAI app server; of the command dispatcher, how commands are started,
  aborted and joined; nor the HTTP surface and the process entry: they are I/O around the
  parts above.
\<close>

section \<open>Snapshots\<close>



text \<open>
  C2.  The loop of \<open>assertAcyclicRunRelation\<close>, which walks each chain of Runs once and
  remembers the chains it has completed, accepts exactly the relations without a cycle,
  and otherwise throws \<open>invalid_transition\<close>.
\<close>

theorem acyclic_check_exact:
  assumes "distinct (map run_id runs)"
  shows "assertAcyclicRunRelation runs relation =
    (if acyclic (run_edges runs relation) then Inr ()
     else Inl (ContractInvariantError InvalidTransition))"
  using assertAcyclicRunRelation_iff [OF assms, of relation]
    assertAcyclicRunRelation_error [of runs relation]
  by (cases "assertAcyclicRunRelation runs relation") auto

lemma acyclic_check_exact_witness:
  "\<not> acyclic (run_edges [ex_run\<lparr>run_retryOf := Some ex_run_id\<rparr>] run_retryOf)"
proof -
  have "assertAcyclicRunRelation [ex_run\<lparr>run_retryOf := Some ex_run_id\<rparr>] run_retryOf
      = Inl (ContractInvariantError InvalidTransition)"
    by code_simp
  then show ?thesis
    using acyclic_check_exact [of "[ex_run\<lparr>run_retryOf := Some ex_run_id\<rparr>]" run_retryOf]
    by (auto split: if_splits)
qed

section \<open>Committed Mutations\<close>

text \<open>
  C3.  A committed Mutation takes an accepted snapshot to one that is accepted again and
  well formed, of the same Session: either it was applied already and nothing changes,
  or it is the next revision.
\<close>

theorem committed_mutation_keeps_snapshot_valid:
  assumes "applyCommittedMutation s m = Inr t"
  shows "snapshot_schema t \<and> validateState t = Inr () \<and> wf_snapshot t
    \<and> ses_id (snap_session t) = ses_id (snap_session s)
    \<and> (if mut_revision m \<le> snap_revision s then t = s
       else mut_revision m = snap_revision s + 1 \<and> snap_revision t = mut_revision m)"
proof -
  note c = applyCommittedMutation_ok [OF assms]
  have t: "snapshot_schema t" "validateState t = Inr ()"
    using c applyMutation_schema applyMutation_valid by blast+
  have "if mut_revision m \<le> snap_revision s then t = s
      else mut_revision m = snap_revision s + 1 \<and> snap_revision t = mut_revision m"
    using applyMutation_revision [of s m t] c
    by (auto elim!: applyMutation_cases simp: assert_mutation_ok)
  with t show ?thesis
    using validateState_sound applyMutation_revision [of s m t] c by blast
qed

lemma committed_mutation_keeps_snapshot_valid_witness:
  "wf_snapshot ex_after \<and> snap_revision ex_after = snap_revision ex_snap + 1"
  using committed_mutation_keeps_snapshot_valid [OF ex_commit] by (simp add: ex_revisions)

text \<open>
  Across a committed Mutation a Run keeps its start, origin, parent, retry target and
  input, its usage never shrinks, and a Run that has ended never changes again.
\<close>

theorem runs_only_evolve:
  assumes "applyCommittedMutation s m = Inr t"
    and "r \<in> set (snap_runs s)" "r' \<in> set (snap_runs t)" "run_id r' = run_id r"
  shows "run_evolves r r'"
  using applyCommittedMutation_evolves(2) [OF assms(1)] assms(2-) by blast

lemma runs_only_evolve_witness: "run_evolves ex_run ex_run_done"
proof -
  have "ex_run \<in> set (snap_runs ex_snap)" "ex_run_done \<in> set (snap_runs ex_after)"
    "run_id ex_run_done = run_id ex_run"
    by (simp_all add: ex_snap_def ex_after_def ex_run_done_def)
  with runs_only_evolve [OF ex_commit] show ?thesis by blast
qed

text \<open>
  Across a committed Mutation an Item keeps its kind, creation time, audience and the
  identity of its body, and once it has ended its status, end and error stay.
\<close>

theorem items_only_evolve:
  assumes "applyCommittedMutation s m = Inr t"
    and "it \<in> set (snap_items s)" "it' \<in> set (snap_items t)"
      "item_runId it' = item_runId it" "item_id it' = item_id it"
  shows "item_evolves it it'"
  using applyCommittedMutation_evolves(3) [OF assms(1)] assms(2-) by blast

lemma items_only_evolve_witness: "item_evolves ex_item ex_item_done"
proof -
  have "ex_item \<in> set (snap_items ex_snap)" "ex_item_done \<in> set (snap_items ex_after)"
    "item_runId ex_item_done = item_runId ex_item" "item_id ex_item_done = item_id ex_item"
    by (simp_all add: ex_snap_def ex_after_def ex_item_done_def)
  with items_only_evolve [OF ex_commit] show ?thesis by blast
qed

text \<open>
  Across a committed Mutation an Interaction keeps its request, deadline and owner and
  is frozen once resolved or expired; the Session keeps its identity, parent and every
  capability it has, and a closed Session is frozen.
\<close>

theorem interactions_and_session_only_evolve:
  assumes "applyCommittedMutation s m = Inr t"
    and "i \<in> set (snap_interactions s)" "i' \<in> set (snap_interactions t)" "int_id i' = int_id i"
  shows "interaction_evolves i i' \<and> session_evolves (snap_session s) (snap_session t)"
  using applyCommittedMutation_evolves(1,4) [OF assms(1)] assms(2-) by blast

lemma interactions_and_session_only_evolve_witness:
  "interaction_evolves ex_question ex_question_resolved"
proof -
  have "ex_question \<in> set (snap_interactions ex_waiting)"
    "ex_question_resolved \<in> set (snap_interactions ex_answered)"
    "int_id ex_question_resolved = int_id ex_question"
    by (simp_all add: ex_waiting_def ex_answered_def ex_question_resolved_def)
  with interactions_and_session_only_evolve [OF ex_commit_answer] show ?thesis by blast
qed



text \<open>
  C5.  Removing a Run removes exactly the Run and its descendants, all of which have ended,
  with their Items and Interactions; every other entity stays, and no Run that stays has
  a removed parent.
\<close>

theorem removal_takes_exactly_the_descendants:
  assumes "remove_run d i = Inr d'"
  defines "gone \<equiv> descendants (dr_runs d) {i}"
  shows "(\<exists>r\<in>set (dr_runs d). run_id r = i)
    \<and> (\<forall>r\<in>set (dr_runs d). run_id r \<in> gone \<longrightarrow> run_status r \<noteq> Active)
    \<and> set (dr_runs d') = {r \<in> set (dr_runs d). run_id r \<notin> gone}
    \<and> set (dr_items d') = {it \<in> set (dr_items d). item_runId it \<notin> gone}
    \<and> set (dr_interactions d') = {j \<in> set (dr_interactions d). int_runId j \<notin> gone}
    \<and> (\<forall>r\<in>set (dr_runs d'). \<forall>p. run_parentRunId r = Some p \<longrightarrow> p \<notin> gone)"
proof -
  note result = remove_run_result [OF assms(1), folded gone_def isTerminalRun_def]
  have d': "dr_runs d' = filter (\<lambda>r. run_id r \<notin> gone) (dr_runs d)"
    "dr_items d' = filter (\<lambda>it. item_runId it \<notin> gone) (dr_items d)"
    "dr_interactions d' = filter (\<lambda>j. int_runId j \<notin> gone) (dr_interactions d)"
    using result [THEN conjunct1] by simp_all
  have parents: "p \<notin> gone" if "r \<in> set (dr_runs d')" "run_parentRunId r = Some p" for r p
    unfolding gone_def using remove_run_no_orphan [OF assms(1) that] .
  show ?thesis
  proof (intro conjI)
    show "\<exists>r\<in>set (dr_runs d). run_id r = i" using result by (elim conjE)
    show "\<forall>r\<in>set (dr_runs d). run_id r \<in> gone \<longrightarrow> run_status r \<noteq> Active"
      using result unfolding isTerminalRun_def by (elim conjE)
    show "\<forall>r\<in>set (dr_runs d'). \<forall>p. run_parentRunId r = Some p \<longrightarrow> p \<notin> gone"
      using parents by (intro ballI allI impI)
  qed (simp_all only: d' set_filter)
qed

lemma removal_takes_exactly_the_descendants_witness:
  "ex_run_id \<in> descendants (dr_runs (draft_of ex_after)) {ex_run_id}
    \<and> set (dr_items (draft_of ex_compacted)) \<subseteq> set (dr_items (draft_of ex_after))"
proof
  show "ex_run_id \<in> descendants (dr_runs (draft_of ex_after)) {ex_run_id}"
    using descendants_self by blast
  show "set (dr_items (draft_of ex_compacted)) \<subseteq> set (dr_items (draft_of ex_after))"
    unfolding removal_takes_exactly_the_descendants [OF ex_remove_run, THEN conjunct2, THEN conjunct2,
      THEN conjunct2, THEN conjunct1] by (rule Collect_subset)
qed

text \<open>
  Applying a committed Mutation again to the snapshot it led to returns that snapshot.
\<close>

theorem committed_mutation_replay:
  assumes "applyCommittedMutation s m = Inr t"
  shows "applyCommittedMutation t m = Inr t"
proof -
  note c = applyCommittedMutation_ok [OF assms]
  then have "snapshot_schema t" "validateState t = Inr ()"
    using applyMutation_schema applyMutation_valid by blast+
  with c applyMutation_replay [of s m t] show ?thesis
    by (simp add: applyCommittedMutation_def validateSessionSnapshot_valid)
qed

lemma committed_mutation_replay_witness: "applyCommittedMutation ex_after ex_mutation = Inr ex_after"
  by (rule committed_mutation_replay [OF ex_commit])

section \<open>Following a Session\<close>

text \<open>
  \<open>applySyncPayload\<close> never goes back: the snapshot it returns is valid and its revision
  is the later of the revision the client had and the one the payload reaches.
\<close>

theorem sync_never_goes_back:
  assumes "applySyncPayload snapshotBytes mutationBytes current payload limits = Inr t"
  shows "snap_revision t = max (current_revision current) (payload_through payload) \<and> wf_snapshot t"
  using applySyncPayload_revision [OF assms] applySyncPayload_valid [OF assms] validateState_sound
  by blast

lemma sync_never_goes_back_witness: "snap_revision ex_compacted = max 3 5 \<and> wf_snapshot ex_compacted"
  using sync_never_goes_back [OF ex_sync] by (simp add: current_revision_def ex_revisions)

text \<open>
  C6.  A batch of Mutations may be cut anywhere and redelivered: a client that applied only
  a first part reaches the same snapshot from the rest alone and from the whole batch.
\<close>

theorem sync_resumes_anywhere:
  assumes "applySyncPayload snapshotBytes mutationBytes (Some c) (MutationSync b th (xs @ ys)) None = Inr t"
  shows "\<exists>u. applySyncPayload snapshotBytes mutationBytes (Some c) (MutationSync b (b + length xs) xs) None = Inr u
    \<and> applySyncPayload snapshotBytes mutationBytes (Some u) (MutationSync (b + length xs) th ys) None = Inr t
    \<and> applySyncPayload snapshotBytes mutationBytes (Some u) (MutationSync b th (xs @ ys)) None = Inr t"
  by (rule sync_resumes [OF assms])

lemma sync_resumes_anywhere_witness:
  "\<exists>u. applySyncPayload (\<lambda>_. 0) (\<lambda>_. 0) (Some ex_snap) (MutationSync 3 4 [ex_mutation]) None = Inr u
    \<and> applySyncPayload (\<lambda>_. 0) (\<lambda>_. 0) (Some u) (MutationSync 4 5 [ex_removal]) None = Inr ex_compacted"
  using sync_resumes_anywhere [OF ex_sync] by auto

text \<open>
  \<open>deriveSessionActivity\<close> looks at the top-level Runs only, and is right about all of
  them: the Session is idle exactly when it is open and no Run at all is active, it
  requires action exactly when a blocking Interaction is open, and it runs exactly when
  some Run is active and no Interaction blocks.
\<close>

theorem session_activity_exact:
  assumes "deriveSessionActivity s = Inr activity"
  defines "active \<equiv> \<exists>r\<in>set (snap_runs s). run_status r = Active"
    and "blocked \<equiv> \<exists>i\<in>set (snap_interactions s). int_status i = InteractionOpen \<and> int_blocking i"
  shows "(activity = ActivityIdle \<longleftrightarrow> ses_status (snap_session s) = SessionOpen \<and> \<not> active)
    \<and> (activity = ActivityRunning \<longleftrightarrow> active \<and> \<not> blocked)
    \<and> (activity = ActivityRequiresAction \<longleftrightarrow> blocked)
    \<and> (activity = ActivityClosed \<longleftrightarrow> ses_status (snap_session s) = SessionClosed)"
proof -
  from assms(1) have "activity = activity_of s" "snapshot_schema s" "validateState s = Inr ()"
    unfolding deriveSessionActivity_def by (auto dest!: validateSessionSnapshot_ok)
  with session_activity_spec [OF validateState_sound [of s]] show ?thesis
    unfolding active_def blocked_def by simp
qed

lemma session_activity_exact_witness:
  "\<exists>i\<in>set (snap_interactions ex_waiting). int_status i = InteractionOpen \<and> int_blocking i"
proof -
  have "activity_of ex_waiting = ActivityRequiresAction" by code_simp
  then have "deriveSessionActivity ex_waiting = Inr ActivityRequiresAction"
    by (simp add: deriveSessionActivity_def
        validateSessionSnapshot_valid [OF ex_waiting_schema ex_waiting_valid])
  from session_activity_exact [OF this] show ?thesis by simp
qed

text \<open>
  In a valid snapshot every active Run descends, through active Runs, from the one
  active top-level Run.
\<close>

theorem active_runs_share_one_root:
  assumes "validateSessionSnapshot jsonByteLength s limits = Inr t"
    and "r \<in> set (snap_runs s)" "run_status r = Active"
  shows "\<exists>!top. top \<in> set (snap_runs s) \<and> is_active_top_level top
    \<and> (run_id r, run_id top) \<in> (run_edges (snap_runs s) run_parentRunId)\<^sup>*"
proof -
  have wf: "activity_nested s" "relations_acyclic s"
    using validateSessionSnapshot_ok [OF assms(1)] validateState_sound by (auto simp: wf_snapshot_def)
  have one: "a = b" if "a \<in> set (snap_runs s)" "b \<in> set (snap_runs s)" "is_active_top_level a" "is_active_top_level b" for a b
    using wf(1) that by (simp add: activity_nested_def)
  show ?thesis
    using active_ancestor_exists [OF wf assms(2,3)] one by (elim bexE conjE ex1I [rotated]) blast+
qed

lemma active_runs_share_one_root_witness:
  "\<exists>top. top \<in> set (snap_runs ex_snap) \<and> is_active_top_level top"
proof -
  have "validateSessionSnapshot (\<lambda>_. 0) ex_snap None = Inr ex_snap" "ex_run \<in> set (snap_runs ex_snap)"
    "run_status ex_run = Active"
    using validateSessionSnapshot_valid [OF ex_snap_schema ex_snap_valid]
    by (simp_all add: ex_snap_def ex_run_def)
  from active_runs_share_one_root [OF this] show ?thesis by blast
qed

section \<open>Executors and commands\<close>

text \<open>
  C7.  Whatever an executor proposes, once normalized and committed, leaves to the
  Coordinator what is its own: the Session is untouched, no Run is removed, no user Run
  is created, no user message is written or changed, and no Interaction is resolved.
\<close>

theorem executor_mutations_are_confined:
  assumes "normalizeExecutorMutation jsonByteLength s proposal acceptedAt ttl limits = Inr normalized"
    and "mut_operations m = mut_operations normalized" "applyMutation s m = Inr t"
  shows "snap_session t = snap_session s
    \<and> run_id ` set (snap_runs s) \<subseteq> run_id ` set (snap_runs t)
    \<and> (\<forall>r\<in>set (snap_runs t). run_origin r = OriginUser \<longrightarrow> run_id r \<in> run_id ` set (snap_runs s))
    \<and> (\<forall>it\<in>set (snap_items t). is_user_message (item_body it) \<longrightarrow> it \<in> set (snap_items s))
    \<and> (\<forall>i\<in>set (snap_interactions t). int_status i = InteractionResolved \<longrightarrow>
         i \<in> set (snap_interactions s))"
proof -
  have "\<forall>op\<in>set (mut_operations m). executor_allowed s op"
    using normalizeExecutorMutation_allowed [OF assms(1)] assms(2) by simp
  from applyMutation_confined [OF assms(3) this] show ?thesis
    by (simp add: confined_def draft_of_def)
qed

lemma executor_mutations_are_confined_witness: "snap_session ex_after = snap_session ex_snap"
proof -
  have "mut_operations ex_mutation = mut_operations ex_proposal"
    by (simp add: ex_mutation_def ex_proposal_def)
  from executor_mutations_are_confined [OF ex_normalize this ex_apply] show ?thesis by simp
qed

text \<open>
  Every operation of a normalized proposal carries the Coordinator's times: what is
  new starts at the acceptance, what exists keeps its start, what ends now ends at the
  acceptance, and a new Interaction expires after the acceptance and no later than the
  limit on its time to live allows.
\<close>

theorem normalized_proposals_are_stamped:
  assumes "normalizeExecutorMutation jsonByteLength s proposal acceptedAt ttl limits = Inr normalized"
  shows "mut_baseRevision normalized = snap_revision s \<and> mut_sessionId normalized = ses_id (snap_session s)
    \<and> list_all (stamped s acceptedAt ttl) (mut_operations normalized)"
  using normalizeExecutorMutation_shape [OF assms] normalizeExecutorMutation_stamped [OF assms] by simp

lemma normalized_proposals_are_stamped_witness:
  "list_all (stamped ex_snap ex_t3 1000) (mut_operations ex_ask_stamped)"
  using normalized_proposals_are_stamped [OF ex_normalize_ask] by simp

text \<open>
  A Command that \<open>validateCommand\<close> accepts is returned unchanged, names the Session and
  the revision it was decided against, and its subject is there: a Run to start is new,
  with no active Run or below an active parent and retrying only an ended Run; a Run to
  steer is the active top-level one; options to configure exist; an Interaction to
  resolve is open, unexpired and owned by an active Run.
\<close>

theorem accepted_commands_meet_the_state:
  assumes "validateCommand jsonByteLength s c now limits = Inr c'"
  shows "c' = c \<and> cmd_sessionId c = ses_id (snap_session s)
    \<and> opt_all (\<lambda>r. r = snap_revision s) (cmd_expectedRevision c)
    \<and> command_meets s now (cmd_commandId c) (cmd_body c)"
  using validateCommand_shape [OF assms] validateState_sound assert_command_state_meets by blast

lemma accepted_commands_meet_the_state_witness:
  "command_meets ex_after ex_t3 ex_session_id (cmd_body ex_start)"
  using accepted_commands_meet_the_state [OF ex_validate_start] by (simp add: ex_start_def)

section \<open>Previews\<close>

text \<open>
  Coalescing never changes how far a receiver gets: on every stream, and whatever the
  receiver held before, the sequence reached is the one the original updates reach.
\<close>

theorem coalescing_keeps_progress:
  assumes "list_all preview_update_schema us"
  shows "current_through (foldl receive st (coalescePreviewUpdates us) k)
    = current_through (foldl receive st us k)"
  by (rule coalesce_through [OF assms])

definition ex_append :: "nat \<Rightarrow> preview_update" where
  "ex_append n = \<lparr>pv_itemId = ''i'', pv_streamId = ''s'', pv_channel = ''message.text'', pv_segment = 0,
     pv_op = Append n n ''x''\<rparr>"

lemma ex_append_schema: "list_all preview_update_schema [ex_append 1, ex_append 2]"
  by (simp add: ex_append_def preview_update_schema_def opaque_id_schema_def safe_nat_def
      max_safe_integer_def)

lemma coalescing_keeps_progress_witness:
  "current_through (foldl receive (\<lambda>_. None) (coalescePreviewUpdates [ex_append 1, ex_append 2])
     (previewKeyOf (ex_append 1))) = 2"
  unfolding coalescing_keeps_progress [OF ex_append_schema]
  unfolding receive_all_stream current_through_run_stream
  by (simp add: ex_append_def previewKeyOf_def current_through_def)

text \<open>
  C8.  A receiver that would apply every original update applies every coalesced one, and
  ends in the same state on every stream.
\<close>

theorem coalescing_is_transparent:
  assumes "list_all preview_update_schema us" "all_applied st us"
  shows "all_applied st (coalescePreviewUpdates us)
    \<and> foldl receive st (coalescePreviewUpdates us) = foldl receive st us"
  by (rule coalesce_equivalent [OF assms])

lemma coalescing_is_transparent_witness:
  "all_applied (\<lambda>_. None) (coalescePreviewUpdates [ex_append 1, ex_append 2])"
proof -
  have "all_applied (\<lambda>_. None) [ex_append 1, ex_append 2]"
    by (simp add: ex_append_def receive_def applyPreviewUpdate_def current_through_def
        current_text_def previewKeyOf_def)
  from coalescing_is_transparent [OF ex_append_schema this] show ?thesis by simp
qed

text \<open>
  Whatever calls, timers and settlements a preview buffer goes through, its byte count
  is the length of the JSON array it would send, it stays below both limits, and an
  update it holds is never stranded: a timer is armed or a flush is already requested.
\<close>

theorem preview_buffer_bounded:
  assumes "createPreviewBuffer opts = Inr b" "buffer_run opts enc b actions = Some (b', events)"
  shows "buf_bytes b' = array_bytes enc (buf_updates b')
    \<and> of_nat (buf_bytes b') < lim_maxBytes opts
    \<and> of_nat (length (buf_updates b')) < lim_maxUpdates opts
    \<and> (buf_updates b' \<noteq> [] \<longrightarrow>
         buf_timer b' \<or> buf_flushRequested b' \<and> buf_draining b' \<noteq> NotDraining)"
proof -
  have "valid_buffer_options opts" "buffer_ok opts enc b"
    using createPreviewBuffer_ok [OF assms(1)] by simp_all
  then show ?thesis
    using buffer_run_ok [OF assms(2)] by (simp add: valid_buffer_options_def buffer_ok_def)
qed

definition ex_buffer_options :: preview_buffer_options where
  "ex_buffer_options = \<lparr>lim_maxBytes = 100, lim_maxDelayMs = 5, lim_maxUpdates = 2\<rparr>"

lemma ex_buffer_create: "createPreviewBuffer ex_buffer_options = Inr
    \<lparr>buf_updates = [], buf_bytes = 0, buf_timer = False, buf_draining = NotDraining,
     buf_flushRequested = False, buf_disposed = False\<rparr>"
  by (simp add: createPreviewBuffer_def valid_buffer_options_def ex_buffer_options_def
      is_safe_integer_def max_safe_integer_def)

lemma ex_buffer_run: "buffer_run ex_buffer_options (\<lambda>_. 30)
    \<lparr>buf_updates = [], buf_bytes = 0, buf_timer = False, buf_draining = NotDraining,
     buf_flushRequested = False, buf_disposed = False\<rparr> [ActPush (ex_append 1)] =
   Some (\<lparr>buf_updates = [ex_append 1], buf_bytes = 32, buf_timer = True, buf_draining = NotDraining,
     buf_flushRequested = False, buf_disposed = False\<rparr>, [])"
  using ex_append_schema
  by (simp add: buffer_push_def buffer_append_def ex_buffer_options_def)

lemma preview_buffer_bounded_witness: "(32 :: rat) < lim_maxBytes ex_buffer_options"
  using preview_buffer_bounded [OF ex_buffer_create ex_buffer_run] by simp




section \<open>The driver's core\<close>

text \<open>
  C10.  The queue between backends and senders delivers in order and exactly once: until it
  is closed with discard, what it handed to consumers, waiting or not, followed by what
  it still holds, is what the accepted pushes brought.
\<close>

theorem queue_is_fifo:
  assumes "qf.run cfg new_queue actions = Some (q, accepted, delivered)"
    and "list_all keeps_values actions"
  shows "accepted = delivered @ queue_contents q"
  using qf.run_fifo [OF assms(1) queue_ok_new assms(2)] by (simp add: queue_contents_def new_queue_def)

definition ex_queue_config :: "string queue_config" where
  "ex_queue_config = \<lparr>qc_maxSize = 2, qc_maxBytes = Some 10, qc_measure = (\<lambda>s. of_nat (length s)),
     qc_reserve = None\<rparr>"

lemma ex_queue_run:
  "\<exists>q. qf.run ex_queue_config new_queue [Next 0, PushMany [''a'', ''b'', ''c''], Next 1] =
     Some (q, [''a'', ''b'', ''c''], [''a'', ''b'']) \<and> queue_contents q = [''c'']"
  by (simp add: queue_next_def new_queue_def pushMany_def buffer_value_def ex_queue_config_def
      is_safe_integer_def max_safe_integer_def queue_contents_def)

lemma queue_is_fifo_witness: "[''a'', ''b'', ''c''] = [''a'', ''b''] @ [''c'']"
proof -
  obtain q where q: "qf.run ex_queue_config new_queue [Next 0, PushMany [''a'', ''b'', ''c''], Next 1] =
     Some (q, [''a'', ''b'', ''c''], [''a'', ''b''])" "queue_contents q = [''c'']"
    using ex_queue_run by blast
  from queue_is_fifo [OF q(1)] q(2) show ?thesis by (simp add: keeps_values_def)
qed

text \<open>
  The queue's counters are the count and the bytes of what it holds, ordinary and
  reserved values apart, and stay within its limits; a consumer only waits while the
  queue is open and empty.
\<close>

theorem queue_counts_and_bounds:
  assumes "qf.run cfg new_queue actions = Some (q, accepted, delivered)"
  shows "q_size q = int (length (ordinary q)) \<and> q_bytes q = sum_list (map bv_bytes (ordinary q))
    \<and> q_reservedSize q = int (length (reserved q))
    \<and> q_reservedBytes q = sum_list (map bv_bytes (reserved q))
    \<and> (ordinary q \<noteq> [] \<longrightarrow> of_int (q_size q) \<le> qc_maxSize cfg)
    \<and> (ordinary q \<noteq> [] \<longrightarrow> opt_all (\<lambda>m. of_int (q_bytes q) \<le> m) (qc_maxBytes cfg))
    \<and> (q_waiters q \<noteq> [] \<longrightarrow> q_values q = [] \<and> \<not> q_closed q)"
  using qf.run_ok [OF assms queue_ok_new] unfolding queue_ok_def by (elim conjE, intro conjI)

lemma queue_counts_and_bounds_witness:
  "\<exists>q. queue_contents q = [''c''] \<and> q_size q = int (length (ordinary q))"
proof -
  obtain q where q: "qf.run ex_queue_config new_queue [Next 0, PushMany [''a'', ''b'', ''c''], Next 1] =
     Some (q, [''a'', ''b'', ''c''], [''a'', ''b''])" "queue_contents q = [''c'']"
    using ex_queue_run by blast
  from queue_counts_and_bounds [OF q(1)] q(2) show ?thesis by blast
qed

text \<open>
  C11.  Every reachable state of the driver waits for approval exactly while an approval of
  its active run is outstanding: in \<open>NeedsApproval\<close> there is an active run and an
  approval not yet handed back, in \<open>Running\<close> there is a run and none is outstanding.
\<close>

theorem approvals_match_the_status:
  assumes "runtime_reachable (s, g, outstanding)"
  shows "(rt_status s = NeedsApproval \<longleftrightarrow>
      (\<exists>h. rt_activeRunGeneration s = Some h \<and> Some h \<in># outstanding \<and> \<not> isShuttingDown s))
    \<and> (rt_status s = Running \<longleftrightarrow>
      (\<exists>h. rt_activeRunGeneration s = Some h \<and> Some h \<notin># outstanding \<and> \<not> isShuttingDown s))"
  using runtime_reachable_status [OF assms] .

definition ex_waiting_runtime :: runtime_state where
  "ex_waiting_runtime = \<lparr>rt_activeApprovals = 1, rt_activeRunGeneration = Some 0, rt_status = NeedsApproval\<rparr>"

lemma ex_waiting_reachable: "runtime_reachable (ex_waiting_runtime, 1, {#Some 0#})"
proof -
  let ?s = "\<lambda>n r st. \<lparr>rt_activeApprovals = n, rt_activeRunGeneration = r, rt_status = st\<rparr>"
  have "runtime_step initial_config (?s 0 None Starting, 0, {#})"
    unfolding initial_config_def by (rule direct [of Starting]) (simp_all add: enter_def new_runtime_state_def)
  moreover have "runtime_step (?s 0 None Starting, 0, {#}) (?s 0 None Ready, 0, {#})"
    by (rule direct [of Ready]) (simp_all add: enter_def)
  moreover have "runtime_step (?s 0 None Ready, 0, {#}) (?s 0 (Some 0) Running, Suc 0, {#})"
    by (rule begin_run) (simp add: runtime_beginRun_def enter_def)
  moreover have "runtime_step (?s 0 (Some 0) Running, Suc 0, {#}) (ex_waiting_runtime, Suc 0, {#Some 0#})"
    by (rule begin_approval) (simp add: beginApproval_def enter_def ex_waiting_runtime_def)
  ultimately show ?thesis unfolding runtime_reachable_def
    by (metis One_nat_def rtranclp.rtrancl_into_rtrancl rtranclp.rtrancl_refl)
qed

lemma approvals_match_the_status_witness:
  "rt_status ex_waiting_runtime = NeedsApproval \<and> \<not> isShuttingDown ex_waiting_runtime"
  using approvals_match_the_status [OF ex_waiting_reachable]
  by (simp add: ex_waiting_runtime_def isShuttingDown_def)

text \<open>
  Shutting down is final: from \<open>Stopping\<close>, \<open>Stopped\<close> or \<open>RuntimeFailed\<close> no status
  outside them can be entered, no run can begin, and approvals neither open nor move the
  status.
\<close>

theorem shutting_down_is_final:
  assumes "isShuttingDown s"
  shows "(\<forall>nxt s'. enter nxt s = Inr s' \<longrightarrow> isShuttingDown s')
    \<and> (\<forall>g. runtime_beginRun g s = Inl (InvalidRuntimeTransition (rt_status s) Running))
    \<and> beginApproval s = Inr (s, None)
    \<and> (\<forall>a s'. endApproval a s = Inr s' \<longrightarrow> rt_status s' = rt_status s)"
  using assms enter_shutting_down beginRun_shutting_down approvals_shutting_down by blast

lemma shutting_down_is_final_witness:
  "beginApproval (new_runtime_state Stopping) = Inr (new_runtime_state Stopping, None)"
proof -
  have "isShuttingDown (new_runtime_state Stopping)"
    by (simp add: isShuttingDown_def new_runtime_state_def)
  from shutting_down_is_final [OF this] show ?thesis by blast
qed

text \<open>
  An acknowledged run terminal is final: whatever operations follow, other than the
  beginning of the next run, the run keeps its status, before and after it is released,
  and \<open>acknowledgedRunTerminal\<close> answers with it.
\<close>

theorem acknowledged_terminal_is_final:
  assumes "run_ended_with runId revision status m" "\<forall>op\<in>set ops. \<forall>i. op \<noteq> OpBegin i"
  shows "run_ended_with runId revision status (terminal_run ops m)
    \<and> acknowledgedRunTerminal (Some runId) (terminal_run ops m) = Some status"
  using terminal_run_acked [OF assms] run_ended_with_acknowledged by blast

definition ex_ticket :: run_ticket where
  "ex_ticket = \<lparr>tk_revision = 1, tk_runId = ''r'', tk_signal = 1\<rparr>"

definition ex_terminal :: "terminal_status \<Rightarrow> unit terminal_identity" where
  "ex_terminal status = \<lparr>ti_event = (), ti_runId = ''r'', ti_sourceEventId = ''e'', ti_status = status\<rparr>"

definition ex_receipt :: "unit event_receipt" where
  "ex_receipt = \<lparr>rc_eventId = ''e'', rc_rest = ()\<rparr>"

definition ex_acked_machine :: "(unit, unit, unit) terminal_machine" where
  "ex_acked_machine = terminal_run
     [OpBegin ''r'', OpSelect ex_ticket (ex_terminal TerminalCompleted), OpAck ex_ticket ex_receipt]
     new_terminal_machine"

lemma ex_acked: "run_ended_with ''r'' 1 TerminalCompleted ex_acked_machine"
  by code_simp

lemma acknowledged_terminal_is_final_witness:
  "acknowledgedRunTerminal (Some ''r'')
     (terminal_run [OpClaim ex_ticket ''stop'' Shutdown, OpRelease ex_ticket CommandAcked] ex_acked_machine)
   = Some TerminalCompleted"
  using acknowledged_terminal_is_final [OF ex_acked,
      of "[OpClaim ex_ticket ''stop'' Shutdown, OpRelease ex_ticket CommandAcked]"] by simp

text \<open>
  Once a run is released its ticket is stale for good: after any further operations,
  the next runs included, \<open>require_active\<close> refuses it.
\<close>

theorem released_tickets_stay_stale:
  assumes "releaseRun ticket reason (terminal_run before new_terminal_machine) = Inr m"
  shows "require_active ticket (terminal_run ops m) = Inl TicketStale"
proof -
  have "terminal_invariant (terminal_run before new_terminal_machine)"
    by (rule terminal_run_invariant [OF terminal_invariant_new])
  from release_over [OF assms this] show ?thesis
    by (intro ticket_over_stale ticket_over_run)
qed

lemma released_tickets_stay_stale_witness:
  "\<exists>m. require_active ex_ticket (terminal_run [OpBegin ''r''] (m :: (unit, unit, unit) terminal_machine)) = Inl TicketStale"
proof -
  let ?r = "releaseRun ex_ticket DriverFailing
      (terminal_run [OpBegin ''r''] (new_terminal_machine :: (unit, unit, unit) terminal_machine))"
  have "\<not> isl ?r" by code_simp
  then obtain m where "?r = Inr m" by (cases ?r) simp_all
  from released_tickets_stay_stale [OF this] show ?thesis by blast
qed

text \<open>
  C12.  A cancelled run never counts as completed: in every state the machine can reach,
  a run whose cancellation was claimed has no completed terminal, and its input cannot
  settle as resolved.
\<close>

theorem cancelled_runs_do_not_resolve:
  assumes "tm_activeRun (terminal_run ops new_terminal_machine) = Some a" "ar_cancellationClaim a \<noteq> None"
  shows "opt_all (\<lambda>t. ti_status (terminal_value t) \<noteq> TerminalCompleted) (ar_terminal a)
    \<and> settleInput ticket outcome (terminal_run ops new_terminal_machine) \<noteq> Inr SettledResolved"
proof
  have inv: "terminal_invariant (terminal_run ops new_terminal_machine)"
    by (rule terminal_run_invariant [OF terminal_invariant_new])
  show "settleInput ticket outcome (terminal_run ops new_terminal_machine) \<noteq> Inr SettledResolved"
    by (rule cancelled_run_not_resolved [OF inv assms])
  show "opt_all (\<lambda>t. ti_status (terminal_value t) \<noteq> TerminalCompleted) (ar_terminal a)"
    by (rule cancelled_run_terminal [OF inv assms])
qed

lemma cancelled_runs_do_not_resolve_witness:
  "settleInput ex_ticket (InputResolved :: unit input_outcome)
     (terminal_run [OpBegin ''r'', OpClaim ex_ticket ''stop'' TurnCancel]
       (new_terminal_machine :: (unit, unit, unit) terminal_machine)) \<noteq> Inr SettledResolved"
proof -
  let ?m = "terminal_run [OpBegin ''r'', OpClaim ex_ticket ''stop'' TurnCancel]
       (new_terminal_machine :: (unit, unit, unit) terminal_machine)"
  have "\<exists>a. tm_activeRun ?m = Some a \<and> ar_cancellationClaim a \<noteq> None"
    by (simp add: terminal_beginRun_def claimCancellation_def require_active_def new_terminal_machine_def
        ex_ticket_def)
  then obtain a where "tm_activeRun ?m = Some a" "ar_cancellationClaim a \<noteq> None" by blast
  from cancelled_runs_do_not_resolve [OF this] show ?thesis by blast
qed

section \<open>Time\<close>

text \<open>
  On the timestamps it can read, \<open>compareTimestamps\<close> is a total preorder: it answers
  -1, 0 or 1, 0 for a timestamp and itself, the opposite for swapped arguments, and it is
  transitive, fractions of any length and offsets included.
\<close>

theorem timestamps_are_totally_preordered:
  assumes "valid_timestamp a" "valid_timestamp b" "valid_timestamp d"
  shows "compareTimestamps a a = Inr 0
    \<and> (\<exists>c\<in>{-1, 0, 1}. compareTimestamps a b = Inr c \<and> compareTimestamps b a = Inr (- c))
    \<and> (\<forall>c c'. compareTimestamps a b = Inr c \<longrightarrow> c \<le> 0 \<longrightarrow> compareTimestamps b d = Inr c' \<longrightarrow> c' \<le> 0
         \<longrightarrow> (\<exists>c''. compareTimestamps a d = Inr c'' \<and> c'' \<le> 0))"
  using ts.cmp_self [OF assms(1)] ts.cmp_total [OF assms(1,2)] ts.cmp_flip [OF assms(1,2)]
    ts.cmp_trans [OF assms] by blast

lemma timestamps_are_totally_preordered_witness: "compareTimestamps ex_t0 ex_t0 = Inr 0"
proof -
  have "valid_timestamp ex_t0" by code_simp
  from timestamps_are_totally_preordered [OF this this this] show ?thesis by blast
qed

text \<open>
  The rendering of an instant with a four-digit year reads back as that instant, and
  compares after every timestamp that denotes an earlier millisecond.
\<close>

theorem iso_rendering_round_trip:
  assumes "four_digit_year ms"
  shows "date_parse_ms (toISOString ms) = Some ms \<and> valid_timestamp (toISOString ms)
    \<and> (\<forall>t n. date_parse_ms t = Some n \<longrightarrow> n < ms \<longrightarrow> compareTimestamps (toISOString ms) t = Inr 1)"
  using date_parse_ms_toISOString [OF assms] valid_toISOString [OF assms]
    compareTimestamps_toISOString [OF assms] by blast

lemma iso_rendering_round_trip_witness: "date_parse_ms (toISOString 1767225603123) = Some 1767225603123"
proof -
  have "four_digit_year 1767225603123" by code_simp
  from iso_rendering_round_trip [OF this] show ?thesis by blast
qed

section \<open>Identifiers, delivery, streams and paths\<close>

text \<open>
  C13.  A run of \<open>createDriverId\<close> calls from a fresh process succeeds while the clock is in
  range, and gives well-formed identifiers, none timed before its clock.  They increase
  strictly, whatever the clock does, as long as none but the last used up the random part.
\<close>

theorem driver_ids_increase:
  assumes "list_all (\<lambda>(now, _). 0 \<le> now \<and> now \<le> maxDriverIdTimeMs) calls"
  shows "\<exists>ids. create_ids calls new_id_state = Inr ids \<and> list_all isDriverId ids
    \<and> list_all2 (\<lambda>(now, _) i. now \<le> driverIdTimeMs i) calls ids
    \<and> (list_all (\<lambda>i. \<not> exhausted i) (butlast ids) \<longrightarrow> sorted_wrt (<) ids)"
  using create_ids_ok [OF id_state_ok_new assms] by blast

lemma driver_ids_increase_witness:
  "\<exists>ids. create_ids [(7, \<lambda>_. 1), (5, \<lambda>_. 2), (9, \<lambda>_. 3)] new_id_state = Inr ids \<and> list_all isDriverId ids"
proof -
  have "list_all (\<lambda>(now, _). 0 \<le> now \<and> now \<le> maxDriverIdTimeMs)
      [(7, \<lambda>_. 1), (5, \<lambda>_. 2), (9, (\<lambda>_. 3) :: nat \<Rightarrow> 8 word)]"
    by (simp add: maxDriverIdTimeMs_def)
  from driver_ids_increase [OF this] show ?thesis by blast
qed

text \<open>
  Sixteen bytes always make an identifier, different bytes different ones, and
  normalising it changes nothing.
\<close>

theorem driver_ids_from_bytes:
  assumes "length bytes = 16"
  shows "\<exists>i. createDriverIdFromBytes bytes = Inr i \<and> isDriverId i \<and> normalizeDriverId i = Inr i
    \<and> (\<forall>bytes'. createDriverIdFromBytes bytes' = Inr i \<longrightarrow> bytes' = bytes)"
proof -
  let ?i = "encode_loop 26 (read_bytes bytes) []"
  have "bytes' = bytes" if "createDriverIdFromBytes bytes' = Inr ?i" for bytes'
  proof -
    have len: "length bytes' = 16" using that by (simp add: createDriverIdFromBytes_def split: if_splits)
    then have "encode_loop 26 (read_bytes bytes') [] = ?i" using that createDriverIdFromBytes_ok(1) by simp
    then have "read_bytes bytes' = read_bytes bytes"
      using createDriverIdFromBytes_ok(3) [OF assms] createDriverIdFromBytes_ok(3) [OF len] by simp
    then show ?thesis using read_bytes_inject len assms by simp
  qed
  then show ?thesis
    using createDriverIdFromBytes_ok [OF assms] normalizeDriverId_driver_id by blast
qed

lemma driver_ids_from_bytes_witness:
  "\<exists>i. createDriverIdFromBytes (replicate 16 255) = Inr i \<and> isDriverId i"
proof -
  have "length (replicate 16 (255 :: 8 word)) = 16" by simp
  from driver_ids_from_bytes [OF this] show ?thesis by blast
qed

text \<open>
  C14.  What the publisher admits fits: the lossless events with those pending and queued
  stay within 1024 events and 32 MiB, best-effort events are only taken along when all fit,
  a terminal batch stays within 1 MiB and is the only one, and the sizes an admission
  declares are those of the events it holds.
\<close>

theorem admission_within_limits:
  assumes "admitDriverEventPush json fresh events run owner st = Inr (Some a)"
  shows "let lossless = filter (isLosslessDriverEvent \<circ> qe_event) (adm_events a)
    in if adm_terminalBatch a
     then adm_events a = lossless \<and> length lossless \<le> MAX_PENDING_DRIVER_EVENTS
       \<and> batch_size lossless \<le> MAX_RUN_TERMINAL_BATCH_BYTES
       \<and> \<not> pendingTerminalBatch st \<and> queuedTerminalBatches st = 0
       \<and> adm_eventCount a = 0 \<and> adm_losslessCount a = 0 \<and> adm_eventBytes a = 0
     else adm_losslessCount a = length lossless \<and> adm_losslessBytes a = batch_size lossless
       \<and> adm_eventCount a = length (adm_events a) \<and> adm_eventBytes a = batch_size (adm_events a)
       \<and> pendingLosslessCount st + queuedLosslessCount st + adm_losslessCount a \<le> MAX_PENDING_DRIVER_EVENTS
       \<and> (lossless \<noteq> [] \<longrightarrow> pendingLosslessBytes st + queuedLosslessBytes st + adm_losslessBytes a
            \<le> MAX_PENDING_DRIVER_EVENT_BYTES)
       \<and> (adm_events a \<noteq> lossless \<longrightarrow>
            pendingLosslessCount st + queuedEventCount st + adm_eventCount a \<le> MAX_PENDING_DRIVER_EVENTS
            \<and> pendingLosslessBytes st + queuedEventBytes st + adm_eventBytes a \<le> MAX_PENDING_DRIVER_EVENT_BYTES)"
  unfolding Let_def by (rule admit_sizes [OF assms])

definition ex_driver_event :: "string \<Rightarrow> bool \<Rightarrow> string \<Rightarrow> unit driver_event" where
  "ex_driver_event kind best_effort source =
     \<lparr>de_kind = kind, de_bestEffort = best_effort, de_runId = RunUndefined,
      de_sourceEventId = Some source, de_id = None, de_content = ()\<rparr>"

definition ex_admission :: "admission_error + (unit, unit) admitted_push option" where
  "ex_admission = admitDriverEventPush (\<lambda>_. ''{}'') (\<lambda>_. ''s'')
     [ex_driver_event ''tool.started'' False ''a'', ex_driver_event ''message.delta'' True ''b'']
     (Some ''r'') () empty_admission_state"

lemma ex_admission_some:
  "case ex_admission of Inr (Some a) \<Rightarrow> \<not> adm_terminalBatch a | _ \<Rightarrow> False"
  by (simp add: ex_admission_def admitDriverEventPush_def check_push_def select_events_def ex_driver_event_def
      isLosslessDriverEvent_def isRunTerminalDriverEvent_def empty_admission_state_def scopeDriverEvent_def
      explicit_source_def lossless_step_def driverEventBatchBytes_def MAX_PENDING_DRIVER_EVENTS_def
      MAX_PENDING_DRIVER_EVENT_BYTES_def)

lemma admission_within_limits_witness: "\<exists>a. ex_admission = Inr (Some a) \<and> \<not> adm_terminalBatch a
    \<and> adm_eventCount a = length (adm_events a) \<and> adm_eventBytes a = batch_size (adm_events a)"
proof -
  obtain a where a: "ex_admission = Inr (Some a)" "\<not> adm_terminalBatch a"
    using ex_admission_some by (auto split: sum.splits option.splits)
  from admission_within_limits [OF a(1) [unfolded ex_admission_def]] a show ?thesis
    by (auto simp: Let_def)
qed

text \<open>
  C15.  Admission drops no lossless event: the lossless events of an admitted push are, in
  order, those offered, each scoped to the run and carrying a source identifier of its own;
  a push admitted as nothing had none.
\<close>

theorem admission_keeps_every_lossless_event:
  assumes "admitDriverEventPush json fresh events run owner st = Inr result"
  shows "case result of
      None \<Rightarrow> filter isLosslessDriverEvent events = []
    | Some a \<Rightarrow> list_all2 stamped_from (map (scopeDriverEvent run) (filter isLosslessDriverEvent events))
          (filter isLosslessDriverEvent (map qe_event (adm_events a)))
        \<and> distinct (map (de_sourceEventId \<circ> qe_event) (adm_events a))"
proof (cases result)
  case None
  then show ?thesis using admit_none assms by simp
next
  case (Some a)
  then show ?thesis using admit_lossless [of json fresh events run owner st a] assms by simp
qed

lemma admission_keeps_every_lossless_event_witness:
  "\<exists>a. ex_admission = Inr (Some a) \<and> distinct (map (de_sourceEventId \<circ> qe_event) (adm_events a))"
proof -
  obtain a where a: "ex_admission = Inr (Some a)"
    using ex_admission_some by (auto split: sum.splits option.splits)
  from admission_keeps_every_lossless_event [OF a [unfolded ex_admission_def]] a show ?thesis by auto
qed

text \<open>
  C16.  The delivery loop ends after at most two calls of the port per event; its receipts
  answer a prefix of the stamped batch, one each in order, and it reports success exactly
  when every event has its receipt.
\<close>

theorem lossless_delivery_exact:
  assumes "pushLosslessEvents port aborted fresh events = (receipts, err, calls)"
  shows "list_all2 receipt_of (take (length receipts) (withSourceEventIds fresh 0 events)) receipts
    \<and> length receipts \<le> length events \<and> (err = None \<longleftrightarrow> length receipts = length events)
    \<and> calls \<le> 2 * length events"
  by (rule pushLosslessEvents_result [OF assms])

definition ex_port :: "nat \<Rightarrow> unit driver_event list \<Rightarrow> port_reply" where
  "ex_port n es =
     (if n = 1 then PortFails
      else PortAccepts [\<lparr>dr_eventId = (if n = 0 then ''a'' else ''b''), dr_seq = of_nat n, dr_type = ''tool.started''\<rparr>])"

lemma lossless_delivery_exact_witness:
  "\<exists>receipts. pushLosslessEvents ex_port (\<lambda>_. False) (\<lambda>_. ''s'')
       [ex_driver_event ''tool.started'' False ''a'', ex_driver_event ''tool.started'' False ''b'']
       = (receipts, None, 3) \<and> length receipts = 2"
proof -
  let ?push = "pushLosslessEvents ex_port (\<lambda>_. False) (\<lambda>_. ''s'')
       [ex_driver_event ''tool.started'' False ''a'', ex_driver_event ''tool.started'' False ''b'']"
  have "snd ?push = (None, 3)" by code_simp
  then obtain receipts where push: "?push = (receipts, None, 3)" by (cases ?push) simp
  from lossless_delivery_exact [OF push] push show ?thesis by simp
qed

text \<open>
  C17.  How the bytes of a stream are cut into chunks decides nothing: the decoder ends as
  the frames of the whole stream do, with the same error or none, and it yields the records
  of that reading, all of them if there is no error and a prefix otherwise.
\<close>

theorem sse_decoding_ignores_chunking:
  "\<exists>lost. read_stream (parseSseRecord decode json) (concat chunks)
       = (fst (decodeCmaSseBytes decode json chunks) @ lost, snd (decodeCmaSseBytes decode json chunks))
     \<and> (snd (decodeCmaSseBytes decode json chunks) = None \<longrightarrow> lost = [])"
  using decode_chunks_split [OF waiting_start, of "parseSseRecord decode json" chunks]
  by (simp add: decodeCmaSseBytes_def)

definition ex_sse_bytes :: "8 word list" where
  "ex_sse_bytes = [100, 97, 116, 97, 58, 32, 123, 125, 10, 10]"

lemma sse_decoding_ignores_chunking_witness:
  "snd (decodeCmaSseBytes (\<lambda>_. ''data: {}'') (\<lambda>t. Inr t :: unit + string)
       [take 5 ex_sse_bytes, drop 5 ex_sse_bytes])
     = snd (read_stream (parseSseRecord (\<lambda>_. ''data: {}'') (\<lambda>t. Inr t :: unit + string)) ex_sse_bytes)"
  using sse_decoding_ignores_chunking [of "\<lambda>_. ''data: {}''" "\<lambda>t. Inr t :: unit + string"
      "[take 5 ex_sse_bytes, drop 5 ex_sse_bytes]"] by auto

text \<open>
  The records a server encodes come back as they were, whatever the chunks, when UTF-8
  and JSON have their round trips and no record is too large to encode.
\<close>

theorem sse_round_trip:
  assumes "utf8_codec utf8 decode"
    and "mapE (encodeCmaSseRecord utf8 stringify cursor event_type) rs = Inr frames"
    and "list_all (encodable stringify cursor event_type json) rs"
    and "concat chunks = concat frames"
  shows "decodeCmaSseBytes decode json chunks = (rs, None)"
proof -
  have "read_stream (parseSseRecord decode json) (concat chunks) = (rs, None)"
    unfolding assms(4) by (rule read_encoded [OF assms(1-3)])
  then show ?thesis
    using decode_chunks_split [OF waiting_start, of "parseSseRecord decode json" chunks]
    by (cases "decode_chunks (parseSseRecord decode json) ([], 0) chunks") (auto simp: decodeCmaSseBytes_def)
qed

definition latin_encode :: "string \<Rightarrow> 8 word list" where
  "latin_encode t = map (\<lambda>c. word_of_nat (of_char c)) t"

definition latin_decode :: "8 word list \<Rightarrow> string" where
  "latin_decode bytes = map (\<lambda>b. char_of (unat b)) bytes"

lemma latin_char [simp]: "char_of (unat (word_of_nat (of_char c) :: 8 word)) = c"
proof -
  have "unat (word_of_nat (of_char c) :: 8 word) = of_char c"
    using of_char_mod_256 [of c, where 'a = nat] by (simp add: unat_of_nat)
  then show ?thesis by simp
qed

lemma latin_char_eq: "(word_of_nat (of_char c) :: 8 word) = word_of_nat (of_char d) \<longleftrightarrow> c = d"
  by (metis latin_char)

lemma latin_codec: "utf8_codec latin_encode latin_decode"
proof -
  have "word_of_nat (of_char LF) = (10 :: 8 word)" "word_of_nat (of_char CHR 0x0D) = (13 :: 8 word)"
    by (simp_all add: LF_def)
  then have "(10 :: 8 word) \<in> (\<lambda>c. word_of_nat (of_char c)) ` set t \<longleftrightarrow> LF \<in> set t"
      "(13 :: 8 word) \<in> (\<lambda>c. word_of_nat (of_char c)) ` set t \<longleftrightarrow> CHR 0x0D \<in> set t" for t
    using latin_char_eq by (metis (no_types, lifting) image_iff)+
  then show ?thesis
    by (simp add: utf8_codec_def latin_encode_def latin_decode_def one_line_def comp_def LF_def)
qed

lemma sse_round_trip_witness:
  "\<exists>frames. mapE (encodeCmaSseRecord latin_encode id (\<lambda>_. ''1'') (\<lambda>_. ''x'')) [''{}'', ''{1}''] = Inr frames
     \<and> decodeCmaSseBytes latin_decode Inr [concat frames]
         = ([''{}'', ''{1}''], None :: unit sse_error option)"
proof -
  have "\<not> isl (mapE (encodeCmaSseRecord latin_encode id (\<lambda>_. ''1'') (\<lambda>_. ''x'')) [''{}'', ''{1}''])"
    by (simp add: encodeCmaSseRecord_def latin_encode_def CMA_MAX_EVENT_BYTES_def isl_def)
  then obtain frames where
    frames: "mapE (encodeCmaSseRecord latin_encode id (\<lambda>_. ''1'') (\<lambda>_. ''x'')) [''{}'', ''{1}''] = Inr frames"
    by (metis isl_def obj_sumE)
  have "list_all (encodable id (\<lambda>_. ''1'') (\<lambda>_. ''x'') (Inr :: string \<Rightarrow> unit + string)) [''{}'', ''{1}'']"
    by code_simp
  from sse_round_trip [OF latin_codec frames this, of "[concat frames]"]
  have "decodeCmaSseBytes latin_decode Inr [concat frames] = ([''{}'', ''{1}''], None :: unit sse_error option)"
    by simp
  with frames show ?thesis by blast
qed

text \<open>
  C18.  The stream filter is the whole-text filter: over any deltas its text and count, with
  what finishing adds, are those of the concatenation, but for a citation that was never
  closed and outgrew the pending buffer, which the stream drops.
\<close>

theorem citation_stream_is_filter:
  assumes "filter_stream new_stream_filter deltas = (f, r)"
  shows "\<exists>lost. filterOpenAiPrivateCitations (concat deltas)
       = \<lparr>fr_count = fr_count r + fr_count (previewFinish f),
          fr_text = fr_text r @ fr_text (previewFinish f) @ lost\<rparr>
     \<and> (if sf_discardUntilEnd f
         then starts_with lost CITATION_PREFIX \<and> MARKUP_END \<notin> set lost
           \<and> length lost > MAX_PENDING_PRIVATE_CITATION_CHARS
         else lost = [])"
  by (rule filter_stream_result [OF assms])

lemma citation_stream_is_filter_witness:
  "\<exists>f r. filter_stream new_stream_filter [72 # CITATION_PREFIX, [65, MARKUP_END, 73]] = (f, r)
     \<and> fr_count (filterOpenAiPrivateCitations (72 # CITATION_PREFIX @ [65, MARKUP_END, 73]))
         = fr_count r + fr_count (previewFinish f)"
proof -
  obtain f r where "filter_stream new_stream_filter [72 # CITATION_PREFIX, [65, MARKUP_END, 73]] = (f, r)"
    by (rule prod.exhaust)
  from citation_stream_is_filter [OF this] this show ?thesis by (elim exE conjE) simp
qed

text \<open>
  The file browser accepts a path exactly when it is the root, or its segments are
  proper ones (not empty, no dots, no backslash, no control character) and name the home,
  the memory, the organization, or a session but not its runtime state; the path comes back
  unchanged, and the empty path reads as the root.
\<close>

theorem sandbox_browser_paths_exact:
  "normalizeSandboxFileBrowserPath raw = Inr path \<longleftrightarrow>
     path = (if raw = [] then ''/'' else raw)
     \<and> (\<exists>segs. split_on CHR ''/'' path = [] # segs
          \<and> (path = ''/'' \<or> list_all proper_segment segs \<and> visible_segments segs))"
  by (rule normalize_path_iff)

text \<open>
  C19.  A skill package's paths are admitted together exactly when each is admissible on its
  own and they form a tree: relative paths without traversal or reserved segment, no two the
  same, and only directories with entries below them.
\<close>

theorem skill_paths_form_a_tree:
  "createSkillPackagePathAdmission inputs = Inr es \<longleftrightarrow>
    (\<exists>as. mapE (\<lambda>i. admitSkillPackagePath (fst i) (snd i)) inputs = Inr as
         \<and> es = map entry_of as \<and> skill_tree es)"
  by (rule admission_iff)

end
